(* ===== verification/Prelude.thy ===== *)
theory Prelude
  imports Main "HOL-Library.Monad_Syntax" "HOL-Library.Multiset"
begin

text \<open>
  What every component of the development shares: the collections of rewrite rules
  (\<open>go_simps\<close> for the model of Go's standard library, \<open>row_simps\<close> for the rows of the
  store), Go's three-way comparison \<open>cmp.Compare\<close>/\<open>cmp.Or\<close>, the stable sort
  \<open>slices.SortStableFunc\<close>, and the contract a comparison function has to meet for that sort
  to produce an ordered list (locale \<open>comparison\<close>).
\<close>

named_theorems go_simps
  "equations that evaluate the model of Go's standard library"

named_theorems row_simps
  "equations that evaluate the store's rows and queries"

section \<open>Identifiers\<close>

text \<open>
  A \<open>uuid.UUID\<close> is represented by its canonical text (what \<open>String()\<close> returns), so that
  comparing two ids and comparing their texts is the same operation.  The zero id
  \<open>uuid.UUID{}\<close> is its text too.
\<close>

type_synonym uuid = string

definition nil_uuid :: uuid where
  "nil_uuid = ''00000000-0000-0000-0000-000000000000''"

section \<open>Three-way comparison\<close>

text \<open>\<open>cmp.Compare\<close>: -1, 0 or 1.\<close>

definition cmp_Compare :: "'a::linorder \<Rightarrow> 'a \<Rightarrow> int" where
  "cmp_Compare a b = (if a < b then -1 else if a = b then 0 else 1)"

text \<open>\<open>cmp.Or\<close>: the first result that is not zero.\<close>

definition cmp_Or :: "int \<Rightarrow> int \<Rightarrow> int" where
  "cmp_Or a b = (if a \<noteq> 0 then a else b)"

text \<open>\<open>strings.Compare\<close> on byte strings: the first difference of the bytes decides, and a
  prefix comes first.\<close>

fun strings_Compare :: "string \<Rightarrow> string \<Rightarrow> int" where
  "strings_Compare [] [] = 0"
| "strings_Compare [] (_ # _) = -1"
| "strings_Compare (_ # _) [] = 1"
| "strings_Compare (a # as) (b # bs) =
     (if of_char a < (of_char b :: nat) then -1
      else if a = b then strings_Compare as bs else 1)"

lemma cmp_Compare_simps [simp]:
  "(cmp_Compare a b < 0) = (a < b)" "(cmp_Compare a b = 0) = (a = b)"
  "(cmp_Compare a b \<le> 0) = (a \<le> b)" "(0 < cmp_Compare a b) = (b < a)"
  by (auto simp: cmp_Compare_def)

lemma cmp_Or_simps [simp]:
  "(cmp_Or a b < 0) = (a < 0 \<or> a = 0 \<and> b < 0)"
  "(cmp_Or a b = 0) = (a = 0 \<and> b = 0)"
  "(cmp_Or a b \<le> 0) = (a < 0 \<or> a = 0 \<and> b \<le> 0)"
  by (auto simp: cmp_Or_def)

text \<open>
  What \<open>slices.SortStableFunc\<close> asks of its comparison: it never calls two values each smaller
  than the other, and "not greater" is transitive.
\<close>

locale comparison =
  fixes cmp :: "'a \<Rightarrow> 'a \<Rightarrow> int"
  assumes total: "cmp a b \<le> 0 \<or> cmp b a \<le> 0"
    and trans: "cmp a b \<le> 0 \<Longrightarrow> cmp b c \<le> 0 \<Longrightarrow> cmp a c \<le> 0"
    and swap: "cmp a b < 0 \<longleftrightarrow> \<not> cmp b a \<le> 0"
begin

lemma refl: "cmp a a \<le> 0"
  using total by blast

lemma less_le_trans: "cmp a b < 0 \<Longrightarrow> cmp b c \<le> 0 \<Longrightarrow> cmp a c < 0"
  using swap trans by blast

lemma le_less_trans: "cmp a b \<le> 0 \<Longrightarrow> cmp b c < 0 \<Longrightarrow> cmp a c < 0"
  using swap trans by blast

lemma not_less: "\<not> cmp a b < 0 \<longleftrightarrow> cmp b a \<le> 0"
  using swap by blast

end

text \<open>Comparing through a key of a linear order meets the contract, and so does refining one
  comparison by another with \<open>cmp.Or\<close>.\<close>

lemma comparison_key: "comparison (\<lambda>a b. cmp_Compare (f a) (f b))"
  by unfold_locales auto

lemma comparison_Or:
  assumes "comparison c1" "comparison c2"
  shows "comparison (\<lambda>a b. cmp_Or (c1 a b) (c2 a b))"
proof -
  have z1: "c1 a b = 0 \<longleftrightarrow> c1 a b \<le> 0 \<and> c1 b a \<le> 0" for a b
    using comparison.swap [OF assms(1), of a b] comparison.swap [OF assms(1), of b a] by auto
  show ?thesis
  proof
    fix a b c
    show "cmp_Or (c1 a b) (c2 a b) \<le> 0 \<or> cmp_Or (c1 b a) (c2 b a) \<le> 0"
      using comparison.total [OF assms(1), of a b] comparison.total [OF assms(2), of a b]
        z1 [of a b] z1 [of b a] by fastforce
    show "cmp_Or (c1 a c) (c2 a c) \<le> 0"
      if "cmp_Or (c1 a b) (c2 a b) \<le> 0" "cmp_Or (c1 b c) (c2 b c) \<le> 0"
    proof -
      have le: "c1 a b \<le> 0" "c1 b c \<le> 0" using that by auto
      then have ac: "c1 a c \<le> 0" using comparison.trans [OF assms(1)] by blast
      show ?thesis
      proof (cases "c1 a c < 0")
        case False
        with ac have "c1 c a \<le> 0" using comparison.not_less [OF assms(1)] by blast
        with le have "c1 b a \<le> 0" "c1 c b \<le> 0"
          using comparison.trans [OF assms(1)] by blast+
        with le have "c1 a b = 0" "c1 b c = 0" using z1 by blast+
        with that have "c2 a b \<le> 0" "c2 b c \<le> 0" by auto
        then show ?thesis
          using ac \<open>c1 c a \<le> 0\<close> z1 comparison.trans [OF assms(2)] by auto
      qed simp
    qed
    show "cmp_Or (c1 a b) (c2 a b) < 0 \<longleftrightarrow> \<not> cmp_Or (c1 b a) (c2 b a) \<le> 0"
      using comparison.swap [OF assms(1), of a b] comparison.swap [OF assms(1), of b a]
        comparison.swap [OF assms(2), of a b] z1 [of a b] z1 [of b a] by auto
  qed
qed

lemma of_char_nat_eq: "(of_char a :: nat) = of_char b \<longleftrightarrow> a = b"
  by simp

lemma strings_Compare_swap: "strings_Compare a b < 0 \<longleftrightarrow> \<not> strings_Compare b a \<le> 0"
  by (induction a b rule: strings_Compare.induct) auto

lemma strings_Compare_eq: "strings_Compare a b = 0 \<longleftrightarrow> a = b"
  by (induction a b rule: strings_Compare.induct) auto

lemma strings_Compare_trans:
  "strings_Compare a b \<le> 0 \<Longrightarrow> strings_Compare b c \<le> 0 \<Longrightarrow> strings_Compare a c \<le> 0"
proof (induction a c arbitrary: b rule: strings_Compare.induct)
  case (3 x xs)
  then show ?case by (cases b) auto
next
  case (4 x xs y ys)
  from "4.prems" obtain z zs where b: "b = z # zs" by (cases b) auto
  show ?case
  proof (cases "x = z \<and> z = y")
    case True
    with "4.prems" b have "strings_Compare xs zs \<le> 0" "strings_Compare zs ys \<le> 0" by auto
    with True "4.IH" show ?thesis by auto
  next
    case False
    with "4.prems" b have "(of_char x :: nat) < of_char y"
      by (auto split: if_splits)
    then show ?thesis by simp
  qed
qed auto

interpretation strings_cmp: comparison strings_Compare
proof
  fix a b c :: string
  show "strings_Compare a b \<le> 0 \<or> strings_Compare b a \<le> 0"
    using strings_Compare_swap [of a b] by linarith
  show "strings_Compare a c \<le> 0"
    if "strings_Compare a b \<le> 0" "strings_Compare b c \<le> 0"
    using that by (rule strings_Compare_trans)
  show "strings_Compare a b < 0 \<longleftrightarrow> \<not> strings_Compare b a \<le> 0"
    by (rule strings_Compare_swap)
qed

lemma comparison_strings_key: "comparison (\<lambda>a b. strings_Compare (f a) (f b))"
  by (rule comparison.intro)
    (use strings_cmp.total in blast, use strings_cmp.trans in blast, use strings_cmp.swap in blast)

section \<open>slices.SortStableFunc\<close>

text \<open>The stable sort, by insertion: an element goes in front of the first one that is not
  smaller, so equal elements keep their order.\<close>

fun insert_by :: "('a \<Rightarrow> 'a \<Rightarrow> int) \<Rightarrow> 'a \<Rightarrow> 'a list \<Rightarrow> 'a list" where
  "insert_by cmp x [] = [x]"
| "insert_by cmp x (y # ys) = (if cmp x y \<le> 0 then x # y # ys else y # insert_by cmp x ys)"

definition SortStableFunc :: "('a \<Rightarrow> 'a \<Rightarrow> int) \<Rightarrow> 'a list \<Rightarrow> 'a list" where
  "SortStableFunc cmp xs = foldr (insert_by cmp) xs []"

abbreviation sorted_by :: "('a \<Rightarrow> 'a \<Rightarrow> int) \<Rightarrow> 'a list \<Rightarrow> bool" where
  "sorted_by cmp \<equiv> sorted_wrt (\<lambda>a b. cmp a b \<le> 0)"

lemma mset_insert_by [simp]: "mset (insert_by cmp x xs) = add_mset x (mset xs)"
  by (induction xs) auto

lemma mset_SortStableFunc [simp]: "mset (SortStableFunc cmp xs) = mset xs"
  by (induction xs) (auto simp: SortStableFunc_def)

lemma set_SortStableFunc [simp]: "set (SortStableFunc cmp xs) = set xs"
  using mset_SortStableFunc [of cmp xs] by (metis set_mset_mset)

lemma length_SortStableFunc [simp]: "length (SortStableFunc cmp xs) = length xs"
  using mset_SortStableFunc [of cmp xs] by (metis size_mset)

lemma distinct_map_mset: "mset xs = mset ys \<Longrightarrow> distinct (map f xs) = distinct (map f ys)"
  by (metis mset_eq_imp_distinct_iff mset_map)

lemma set_insert_by [simp]: "set (insert_by cmp x xs) = insert x (set xs)"
  using mset_insert_by [of cmp x xs] by (metis set_mset_add_mset_insert set_mset_mset)

context comparison
begin

lemma sorted_insert_by: "sorted_by cmp xs \<Longrightarrow> sorted_by cmp (insert_by cmp x xs)"
proof (induction xs)
  case (Cons y ys)
  show ?case
  proof (cases "cmp x y \<le> 0")
    case True
    with Cons.prems show ?thesis using trans by auto
  next
    case False
    then have "cmp y x \<le> 0" using total by blast
    with False Cons show ?thesis by auto
  qed
qed simp

lemma sorted_SortStableFunc: "sorted_by cmp (SortStableFunc cmp xs)"
  by (induction xs) (auto simp: SortStableFunc_def sorted_insert_by)

text \<open>Stability: the elements that compare equal to one keep their order.\<close>

lemma filter_insert_by:
  assumes "\<And>y. P y \<Longrightarrow> P x \<Longrightarrow> cmp x y \<le> 0"
  shows "filter P (insert_by cmp x xs) = filter P (x # xs)"
  using assms by (induction xs) auto

lemma stable_SortStableFunc:
  "filter (\<lambda>y. cmp x y = 0) (SortStableFunc cmp xs) = filter (\<lambda>y. cmp x y = 0) xs"
proof (induction xs)
  case (Cons y ys)
  have "cmp y z \<le> 0" if "cmp x y = 0" "cmp x z = 0" for z
    using that swap [of x y] swap [of y x] trans [of y x z] by auto
  then have "filter (\<lambda>y. cmp x y = 0) (insert_by cmp y (SortStableFunc cmp ys))
      = filter (\<lambda>y. cmp x y = 0) (y # SortStableFunc cmp ys)"
    by (intro filter_insert_by) auto
  with Cons show ?case by (simp add: SortStableFunc_def)
qed (simp add: SortStableFunc_def)

end

section \<open>Lists and options\<close>

lemma bind_eq_Some_iff: "Option.bind m f = Some y \<longleftrightarrow> (\<exists>x. m = Some x \<and> f x = Some y)"
  by (cases m) auto

lemma takeWhile_sorted_filter:
  assumes "sorted_wrt R xs" "\<And>a b. R a b \<Longrightarrow> P b \<Longrightarrow> P a"
  shows "takeWhile P xs = filter P xs"
  using assms
proof (induction xs)
  case (Cons x xs)
  show ?case
  proof (cases "P x")
    case False
    with Cons.prems have "\<forall>y \<in> set xs. \<not> P y" by auto
    with False show ?thesis by (simp add: filter_empty_conv)
  qed (use Cons in simp)
qed simp

end
