(* ===== verification/Go_Time.thy ===== *)
theory Go_Time
  imports Prelude
begin

text \<open>
  The part of Go's package \<open>time\<close> that the program uses.  An instant is a number of
  nanoseconds since the Unix epoch together with the location it is read in; a location is its
  UTC offset, in seconds, at every Unix second.  \<open>Date\<close> (the constructor), \<open>Date()\<close> (the
  reader), \<open>Clock\<close>, \<open>AddDate\<close>, \<open>In\<close>, \<open>Sub\<close>, \<open>Before\<close> and \<open>After\<close> follow the
  standard library, including what \<open>Date\<close> does with a wall-clock time that a clock change
  skips or repeats: it looks the offset up at the wall-clock reading taken as UTC, and looks it
  up a second time at the instant that offset gives.

  The second half proves the calendar correct (the civil date of a day number and the day
  number of a civil date are inverse), and derives what the scheduling code relies on: the
  instants at which the days of a location start are ordered as the days are.
\<close>

section \<open>The proleptic Gregorian calendar\<close>

definition is_leap :: "int \<Rightarrow> bool" where
  "is_leap y \<longleftrightarrow> y mod 4 = 0 \<and> (y mod 100 \<noteq> 0 \<or> y mod 400 = 0)"

text \<open>The day number, counted from 1970-01-01, of the first of January of a year.\<close>

definition year_start :: "int \<Rightarrow> int" where
  "year_start y = 365 * (y - 1) + (y - 1) div 4 - (y - 1) div 100 + (y - 1) div 400 - 719162"

text \<open>The number of days of a year before a month (months are 1 to 12, and 13 is the end of
  the year).\<close>

definition days_before :: "bool \<Rightarrow> int \<Rightarrow> int" where
  "days_before leap m =
     (367 * m - 362) div 12 + (if m \<le> 2 then 0 else if leap then -1 else -2)"

definition days_in_month :: "int \<Rightarrow> int \<Rightarrow> int" where
  "days_in_month y m = days_before (is_leap y) (m + 1) - days_before (is_leap y) m"

text \<open>The day number of a date.  As in \<open>time.Date\<close>, a month outside 1 to 12 carries into
  the year and a day outside its month runs into the neighbouring months.\<close>

definition days_of_date :: "int \<Rightarrow> int \<Rightarrow> int \<Rightarrow> int" where
  "days_of_date y m d =
     (let y' = y + (m - 1) div 12; m' = (m - 1) mod 12 + 1
      in year_start y' + days_before (is_leap y') m' + (d - 1))"

text \<open>The year of a day number: an estimate from the mean length of a year, which is at most
  one off.\<close>

definition year_of_days :: "int \<Rightarrow> int" where
  "year_of_days n =
     (let y = (400 * (n + 719162)) div 146097 + 1
      in if n < year_start y then y - 1
         else if year_start (y + 1) \<le> n then y + 1 else y)"

definition month_of_yday :: "bool \<Rightarrow> int \<Rightarrow> int" where
  "month_of_yday leap yd =
     (let c = (if yd < days_before leap 3 then 0 else if leap then 1 else 2)
      in (12 * (yd + c) + 373) div 367)"

definition civil_of_days :: "int \<Rightarrow> int \<times> int \<times> int" where
  "civil_of_days n =
     (let y = year_of_days n; yd = n - year_start y; m = month_of_yday (is_leap y) yd
      in (y, m, yd - days_before (is_leap y) m + 1))"

section \<open>Locations and instants\<close>

record location =
  loc_name :: string
  utc_offset :: "int \<Rightarrow> int"

definition utc :: location where
  "utc = \<lparr>loc_name = ''UTC'', utc_offset = (\<lambda>_. 0)\<rparr>"

text \<open>A location whose offset changes once, from \<open>o1\<close> to \<open>o2\<close> at the Unix second \<open>at\<close>.\<close>

definition one_change :: "string \<Rightarrow> int \<Rightarrow> int \<Rightarrow> int \<Rightarrow> location" where
  "one_change name at o1 o2 =
     \<lparr>loc_name = name, utc_offset = (\<lambda>s. if s < at then o1 else o2)\<rparr>"

record gotime =
  nsec :: int
  tloc :: location

abbreviation sec_ns :: int where "sec_ns \<equiv> 1000000000"
abbreviation minute_ns :: int where "minute_ns \<equiv> 60000000000"
abbreviation hour_ns :: int where "hour_ns \<equiv> 3600000000000"
abbreviation day_ns :: int where "day_ns \<equiv> 86400000000000"

definition unix_sec :: "gotime \<Rightarrow> int" where
  "unix_sec t = nsec t div sec_ns"

text \<open>The wall clock of a location at a Unix second, as seconds.\<close>

definition wall :: "location \<Rightarrow> int \<Rightarrow> int" where
  "wall l s = s + utc_offset l s"

definition local_day :: "location \<Rightarrow> int \<Rightarrow> int" where
  "local_day l s = wall l s div 86400"

definition In_loc :: "gotime \<Rightarrow> location \<Rightarrow> gotime" where
  "In_loc t l = t\<lparr>tloc := l\<rparr>"

definition Date_of :: "gotime \<Rightarrow> int \<times> int \<times> int" where
  "Date_of t = civil_of_days (local_day (tloc t) (unix_sec t))"

definition Year :: "gotime \<Rightarrow> int" where "Year t = fst (Date_of t)"
definition Month :: "gotime \<Rightarrow> int" where "Month t = fst (snd (Date_of t))"
definition Day_of :: "gotime \<Rightarrow> int" where "Day_of t = snd (snd (Date_of t))"

definition Clock :: "gotime \<Rightarrow> int \<times> int \<times> int" where
  "Clock t = (let s = wall (tloc t) (unix_sec t) mod 86400
              in (s div 3600, s mod 3600 div 60, s mod 60))"

definition Nanosecond :: "gotime \<Rightarrow> int" where
  "Nanosecond t = nsec t mod sec_ns"

text \<open>From a wall-clock reading to a Unix second, as \<open>time.Date\<close> does it.\<close>

definition zone_resolve :: "location \<Rightarrow> int \<Rightarrow> int" where
  "zone_resolve l w =
     (let off = utc_offset l w in if off = 0 then w else w - utc_offset l (w - off))"

definition mk_Date ::
  "int \<Rightarrow> int \<Rightarrow> int \<Rightarrow> int \<Rightarrow> int \<Rightarrow> int \<Rightarrow> int \<Rightarrow> location \<Rightarrow> gotime" where
  "mk_Date y m d h mi s ns l =
     (let w = days_of_date y m d * 86400 + h * 3600 + mi * 60 + s + ns div sec_ns
      in \<lparr>nsec = zone_resolve l w * sec_ns + ns mod sec_ns, tloc = l\<rparr>)"

definition AddDate :: "gotime \<Rightarrow> int \<Rightarrow> int \<Rightarrow> int \<Rightarrow> gotime" where
  "AddDate t years months days =
     (case Date_of t of (y, m, d) \<Rightarrow> case Clock t of (h, mi, s) \<Rightarrow>
        mk_Date (y + years) (m + months) (d + days) h mi s (Nanosecond t) (tloc t))"

definition Before :: "gotime \<Rightarrow> gotime \<Rightarrow> bool" where "Before t u \<longleftrightarrow> nsec t < nsec u"
definition After :: "gotime \<Rightarrow> gotime \<Rightarrow> bool" where "After t u \<longleftrightarrow> nsec u < nsec t"
definition Equal :: "gotime \<Rightarrow> gotime \<Rightarrow> bool" where "Equal t u \<longleftrightarrow> nsec t = nsec u"

text \<open>A \<open>time.Duration\<close> is a 64-bit count of nanoseconds, and \<open>Sub\<close> saturates.\<close>

definition max_duration :: int where "max_duration = 2 ^ 63 - 1"
definition min_duration :: int where "min_duration = - (2 ^ 63)"

definition Sub :: "gotime \<Rightarrow> gotime \<Rightarrow> int" where
  "Sub t u = max min_duration (min max_duration (nsec t - nsec u))"

definition Add :: "gotime \<Rightarrow> int \<Rightarrow> gotime" where
  "Add t d = t\<lparr>nsec := nsec t + d\<rparr>"

text \<open>Go's integer division truncates towards zero.\<close>

definition quot :: "int \<Rightarrow> int \<Rightarrow> int" where
  "quot a b = sgn a * sgn b * (\<bar>a\<bar> div \<bar>b\<bar>)"

text \<open>The zero \<open>time.Time\<close>: the first of January of the year 1, in UTC.\<close>

definition zero_time :: gotime where
  "zero_time = \<lparr>nsec = -62135596800 * sec_ns, tloc = utc\<rparr>"

definition IsZero :: "gotime \<Rightarrow> bool" where
  "IsZero t \<longleftrightarrow> nsec t = nsec zero_time"

text \<open>The instant at which a location's day starts, as \<open>time.Date\<close> at midnight gives it.\<close>

definition day_start :: "location \<Rightarrow> int \<Rightarrow> int" where
  "day_start l n = zone_resolve l (n * 86400)"

definition midnight :: "location \<Rightarrow> int \<Rightarrow> gotime" where
  "midnight l n = \<lparr>nsec = day_start l n * sec_ns, tloc = l\<rparr>"

abbreviation day_of :: "gotime \<Rightarrow> int" where
  "day_of t \<equiv> local_day (tloc t) (unix_sec t)"

section \<open>The calendar is right\<close>

lemma month_cases:
  assumes "(1::int) \<le> m" "m \<le> 12"
  obtains "m = 1" | "m = 2" | "m = 3" | "m = 4" | "m = 5" | "m = 6" | "m = 7" | "m = 8"
    | "m = 9" | "m = 10" | "m = 11" | "m = 12"
proof -
  from assms have "m = 1 \<or> m = 2 \<or> m = 3 \<or> m = 4 \<or> m = 5 \<or> m = 6 \<or> m = 7 \<or> m = 8
    \<or> m = 9 \<or> m = 10 \<or> m = 11 \<or> m = 12" by arith
  with that show thesis by blast
qed

lemma div_pred:
  fixes y k :: int
  assumes "0 < k"
  shows "(y - 1) div k = (if y mod k = 0 then y div k - 1 else y div k)"
proof -
  have y: "y = k * (y div k) + y mod k" by simp
  have r: "0 \<le> y mod k" "y mod k < k" using assms by simp_all
  show ?thesis
  proof (cases "y mod k = 0")
    case True
    have "(y - 1) div k = y div k - 1"
      by (rule int_div_pos_eq [where r = "k - 1"]) (use True y assms in \<open>auto simp: algebra_simps\<close>)
    with True show ?thesis by simp
  next
    case False
    have "(y - 1) div k = y div k"
      by (rule int_div_pos_eq [where r = "y mod k - 1"]) (use False y r in \<open>auto simp: algebra_simps\<close>)
    with False show ?thesis by simp
  qed
qed

lemma days_before_table [go_simps]:
  "days_before b 1 = 0" "days_before b 2 = 31"
  "days_before b 3 = (if b then 60 else 59)" "days_before b 4 = (if b then 91 else 90)"
  "days_before b 5 = (if b then 121 else 120)" "days_before b 6 = (if b then 152 else 151)"
  "days_before b 7 = (if b then 182 else 181)" "days_before b 8 = (if b then 213 else 212)"
  "days_before b 9 = (if b then 244 else 243)" "days_before b 10 = (if b then 274 else 273)"
  "days_before b 11 = (if b then 305 else 304)" "days_before b 12 = (if b then 335 else 334)"
  "days_before b 13 = (if b then 366 else 365)"
  by (simp_all add: days_before_def)

lemma div_mod_parts:
  fixes x k :: int
  assumes "0 < k"
  obtains q r where "x div k = q" "x mod k = r" "x = k * q + r" "0 \<le> r" "r < k"
  using that [of "x div k" "x mod k"] assms by simp

lemma int_div_less_iff:
  fixes a k n :: int
  assumes "0 < k"
  shows "a div k < n \<longleftrightarrow> a < n * k"
proof -
  obtain q r where a: "a div k = q" "a = k * q + r" "0 \<le> r" "r < k"
    using assms by (rule div_mod_parts [of k a]) auto
  have "k * q + r < k * n \<longleftrightarrow> q < n"
  proof
    assume "q < n"
    then have "k * (q + 1) \<le> k * n" using assms by simp
    with a(4) show "k * q + r < k * n" by (simp add: distrib_left)
  next
    assume "k * q + r < k * n"
    with a(3) have "k * q < k * n" by simp
    with assms show "q < n" by simp
  qed
  with a show ?thesis by (simp add: mult.commute)
qed

lemma leap_mods:
  fixes y :: int
  shows "y mod 400 = 0 \<Longrightarrow> y mod 100 = 0" "y mod 100 = 0 \<Longrightarrow> y mod 4 = 0"
  by (auto simp: mod_eq_0_iff_dvd elim: dvd_trans [rotated])

lemma year_length: "year_start (y + 1) - year_start y = (if is_leap y then 366 else 365)"
proof -
  have "year_start (y + 1) - year_start y =
      365 + (y div 4 - (y - 1) div 4) - (y div 100 - (y - 1) div 100)
        + (y div 400 - (y - 1) div 400)"
    by (simp add: year_start_def)
  also have "\<dots> = 365 + (if y mod 4 = 0 then 1 else 0) - (if y mod 100 = 0 then 1 else 0)
        + (if y mod 400 = 0 then 1 else 0)"
    by (simp only: div_pred [of 4 y] div_pred [of 100 y] div_pred [of 400 y] zero_less_numeral) simp
  also have "\<dots> = (if is_leap y then 366 else 365)"
    unfolding is_leap_def using leap_mods [of y]
    by (cases "y mod 4 = 0"; cases "y mod 100 = 0"; cases "y mod 400 = 0"; simp only: ) simp_all
  finally show ?thesis .
qed

lemma year_start_less: "y < y' \<Longrightarrow> year_start (y + 1) \<le> year_start y'"
proof (induction "nat (y' - y - 1)" arbitrary: y')
  case 0
  then have "y' = y + 1" by simp
  then show ?case by simp
next
  case (Suc n)
  then have "year_start (y + 1) \<le> year_start (y' - 1)" by (intro Suc.hyps(1)) auto
  also have "\<dots> \<le> year_start y'" using year_length [of "y' - 1"] by (auto split: if_splits)
  finally show ?case .
qed

lemma year_start_bounds:
  "146097 * (y - 1) - 699 \<le> 400 * (year_start y + 719162)"
  "400 * (year_start y + 719162) \<le> 146097 * (y - 1) + 396"
proof -
  define z where "z = y - 1"
  obtain a a' where a: "z div 4 = a" "z = 4 * a + a'" "0 \<le> a'" "a' < 4"
    by (rule div_mod_parts [of 4 z]) auto
  obtain b b' where b: "z div 100 = b" "z = 100 * b + b'" "0 \<le> b'" "b' < 100"
    by (rule div_mod_parts [of 100 z]) auto
  obtain c c' where c: "z div 400 = c" "z = 400 * c + c'" "0 \<le> c'" "c' < 400"
    by (rule div_mod_parts [of 400 z]) auto
  note abc = a(2-) b(2-) c(2-)
  have "146097 * z - 699 \<le> 400 * (365 * z + a - b + c)" using abc by (simp add: algebra_simps)
  moreover have "400 * (365 * z + a - b + c) \<le> 146097 * z + 396" using abc by (simp add: algebra_simps)
  ultimately show "146097 * (y - 1) - 699 \<le> 400 * (year_start y + 719162)"
    "400 * (year_start y + 719162) \<le> 146097 * (y - 1) + 396"
    using a(1) b(1) c(1) by (simp_all add: year_start_def z_def)
qed

lemma year_of_days_bounds:
  "year_start (year_of_days n) \<le> n \<and> n < year_start (year_of_days n + 1)"
proof -
  define x where "x = 400 * (n + 719162)"
  obtain z r where z: "x div 146097 = z" "x = 146097 * z + r" "0 \<le> r" "r < 146097"
    by (rule div_mod_parts [of 146097 x]) auto
  have "146097 * z \<le> 400 * (n + 719162)" using z(2-) unfolding x_def by (simp add: algebra_simps)
  then have lo: "year_start z \<le> n" using year_start_bounds(2) [of z] by auto
  have "400 * (n + 719162) < 146097 * (z + 1)" using z(2-) unfolding x_def by (simp add: algebra_simps)
  then have hi: "n < year_start (z + 3)" using year_start_bounds(1) [of "z + 3"] by auto
  have "year_of_days n = (if n < year_start (z + 1) then z
      else if year_start (z + 2) \<le> n then z + 2 else z + 1)"
    using z(1) unfolding year_of_days_def Let_def x_def by (simp add: add.commute)
  with lo hi show ?thesis by (auto simp: add.commute)
qed

lemma year_of_days_unique:
  assumes "year_start y \<le> n" "n < year_start (y + 1)"
  shows "year_of_days n = y"
proof (rule ccontr)
  assume "year_of_days n \<noteq> y"
  then consider "year_of_days n < y" | "y < year_of_days n" by linarith
  then show False
    using year_of_days_bounds [of n] year_start_less [of "year_of_days n" y]
      year_start_less [of y "year_of_days n"] assms by cases auto
qed

lemma days_before_end: "days_before b 13 = (if b then 366 else 365)"
  by (simp add: go_simps)

lemma month_of_yday_days_before:
  assumes "1 \<le> m" "m \<le> 12" "0 \<le> k" "k < days_before b (m + 1) - days_before b m"
  shows "month_of_yday b (days_before b m + k) = m"
proof -
  from assms(1,2) show ?thesis
    by (cases rule: month_cases; use assms(3,4) in
      \<open>simp add: month_of_yday_def Let_def go_simps split: if_splits; presburger\<close>)
qed

lemma month_of_yday_bounds:
  assumes "0 \<le> yd" "yd < days_before b 13"
  obtains m where "1 \<le> m" "m \<le> 12" "days_before b m \<le> yd" "yd < days_before b (m + 1)"
    "month_of_yday b yd = m"
proof -
  have "\<exists>m. 1 \<le> m \<and> m \<le> 12 \<and> days_before b m \<le> yd \<and> yd < days_before b (m + 1)"
  proof (rule ccontr)
    assume no: "\<nexists>m. 1 \<le> m \<and> m \<le> 12 \<and> days_before b m \<le> yd \<and> yd < days_before b (m + 1)"
    have "days_before b (int k + 1) \<le> yd" if "k \<le> 12" for k
      using that
    proof (induction k)
      case 0
      then show ?case using assms(1) by (simp add: go_simps)
    next
      case (Suc k)
      with no have "\<not> yd < days_before b (int k + 1 + 1)" by force
      then show ?case by (simp add: add.commute)
    qed
    from this [of 12] show False using assms(2) by simp
  qed
  then obtain m where m: "1 \<le> m" "m \<le> 12" "days_before b m \<le> yd" "yd < days_before b (m + 1)"
    by blast
  then have "month_of_yday b yd = m"
    using month_of_yday_days_before [of m "yd - days_before b m" b] by simp
  with m show thesis using that by blast
qed

text \<open>A valid date: a month of the year and a day of the month.\<close>

definition valid_date :: "int \<Rightarrow> int \<Rightarrow> int \<Rightarrow> bool" where
  "valid_date y m d \<longleftrightarrow> 1 \<le> m \<and> m \<le> 12 \<and> 1 \<le> d \<and> d \<le> days_in_month y m"

lemma days_of_date_valid:
  "1 \<le> m \<Longrightarrow> m \<le> 12 \<Longrightarrow>
    days_of_date y m d = year_start y + days_before (is_leap y) m + (d - 1)"
  by (simp add: days_of_date_def Let_def)

lemma civil_of_days_valid:
  assumes "civil_of_days n = (y, m, d)"
  shows "valid_date y m d" "days_of_date y m d = n"
proof -
  define yd where "yd = n - year_start y"
  from assms have y: "y = year_of_days n" by (simp add: civil_of_days_def Let_def)
  have "0 \<le> yd" "yd < days_before (is_leap y) 13"
    using year_of_days_bounds [of n] year_length [of y]
    by (auto simp: yd_def y go_simps split: if_splits)
  then obtain k where k: "1 \<le> k" "k \<le> 12" "days_before (is_leap y) k \<le> yd"
    "yd < days_before (is_leap y) (k + 1)" "month_of_yday (is_leap y) yd = k"
    by (rule month_of_yday_bounds)
  have m: "m = k" "d = yd - days_before (is_leap y) k + 1"
    using assms k(5) by (auto simp: civil_of_days_def Let_def yd_def y)
  show "valid_date y m d" using k(1-4) m by (simp add: valid_date_def days_in_month_def)
  show "days_of_date y m d = n" using k m by (simp add: days_of_date_valid yd_def)
qed

lemma days_before_mono: "1 \<le> m \<Longrightarrow> m \<le> 12 \<Longrightarrow> 0 \<le> days_before b m \<and> days_before b (m + 1) \<le> days_before b 13"
  by (rule month_cases [of m]) (auto simp: go_simps)

lemma civil_of_days_of_date:
  assumes "valid_date y m d"
  shows "civil_of_days (days_of_date y m d) = (y, m, d)"
proof -
  have m: "1 \<le> m" "m \<le> 12" "1 \<le> d" "d \<le> days_before (is_leap y) (m + 1) - days_before (is_leap y) m"
    using assms by (auto simp: valid_date_def days_in_month_def)
  define n where "n = days_of_date y m d"
  have n: "n = year_start y + days_before (is_leap y) m + (d - 1)"
    using m by (simp add: n_def days_of_date_valid)
  have y: "year_of_days n = y"
    by (rule year_of_days_unique)
      (use n m days_before_mono [of m "is_leap y"] year_length [of y] in
        \<open>auto simp: go_simps split: if_splits\<close>)
  have "month_of_yday (is_leap y) (n - year_start y) = m"
    using month_of_yday_days_before [of m "d - 1" "is_leap y"] m by (simp add: n)
  with y show ?thesis by (simp add: civil_of_days_def Let_def n_def [symmetric] n)
qed

lemma days_of_date_inj:
  "valid_date y m d \<Longrightarrow> valid_date y' m' d' \<Longrightarrow>
    days_of_date y m d = days_of_date y' m' d' \<Longrightarrow> (y, m, d) = (y', m', d')"
  by (metis civil_of_days_of_date)

lemma days_of_date_add_days: "days_of_date y m (d + k) = days_of_date y m d + k"
  by (simp add: days_of_date_def Let_def)

lemma days_in_month_bounds: "1 \<le> m \<Longrightarrow> m \<le> 12 \<Longrightarrow> 28 \<le> days_in_month y m \<and> days_in_month y m \<le> 31"
  by (rule month_cases [of m]) (auto simp: go_simps days_in_month_def)

section \<open>Months, counted from the year 0\<close>

text \<open>The day number of the first day of a month, the months counted from January of the year
  0.  It turns arithmetic on years and months into arithmetic on one number.\<close>

definition month_start :: "int \<Rightarrow> int" where
  "month_start k = days_of_date 0 (k + 1) 1"

definition month_len :: "int \<Rightarrow> int" where
  "month_len k = month_start (k + 1) - month_start k"

lemma days_of_date_month_start: "days_of_date y m d = month_start (12 * y + m - 1) + (d - 1)"
proof -
  define j where "j = m - 1"
  have "12 * y + m - 1 = 12 * y + j" by (simp add: j_def)
  moreover have "(12 * y + j) div 12 = y + j div 12" "(12 * y + j) mod 12 = j mod 12"
    by simp_all
  ultimately have "(12 * y + m - 1) div 12 = y + (m - 1) div 12"
    "(12 * y + m - 1) mod 12 = (m - 1) mod 12"
    unfolding j_def by (simp_all only:)
  then show ?thesis
    by (simp add: days_of_date_def month_start_def Let_def)
qed

lemma month_len_days_in_month:
  assumes "1 \<le> m" "m \<le> 12"
  shows "month_len (12 * y + m - 1) = days_in_month y m"
proof -
  have a: "month_start (12 * y + m - 1) = year_start y + days_before (is_leap y) m"
    using days_of_date_month_start [of y m 1] assms by (simp add: days_of_date_valid)
  show ?thesis
  proof (cases "m = 12")
    case True
    have "month_start (12 * (y + 1) + 1 - 1) = year_start (y + 1)"
      using days_of_date_month_start [of "y + 1" 1 1] by (simp add: days_of_date_valid go_simps)
    then show ?thesis
      using a True year_length [of y]
      by (auto simp: month_len_def days_in_month_def go_simps algebra_simps split: if_splits)
  next
    case False
    then have "month_start (12 * y + (m + 1) - 1) = year_start y + days_before (is_leap y) (m + 1)"
      using days_of_date_month_start [of y "m + 1" 1] assms by (simp add: days_of_date_valid)
    then show ?thesis using a by (simp add: month_len_def days_in_month_def algebra_simps)
  qed
qed

lemma month_index_parts: "12 * (k div 12) + (k mod 12 + 1) - 1 = (k::int)"
  by simp

lemma month_len_bounds: "28 \<le> month_len k" "month_len k \<le> 31"
  using month_len_days_in_month [of "k mod 12 + 1" "k div 12"]
    days_in_month_bounds [of "k mod 12 + 1" "k div 12"] by (auto simp: zle_add1_eq_le)

lemma month_start_Suc: "month_start (k + 1) = month_start k + month_len k"
  by (simp add: month_len_def)

lemma month_start_add:
  assumes "0 \<le> j"
  shows "month_start k + 28 * j \<le> month_start (k + j)"
  using assms
proof (induction j rule: int_ge_induct)
  case (step i)
  then show ?case
    using month_start_Suc [of "k + i"] month_len_bounds(1) [of "k + i"] by (simp add: algebra_simps)
qed simp

lemma month_start_less: "k < k' \<Longrightarrow> month_start (k + 1) \<le> month_start k'"
  using month_start_add [of "k' - k - 1" "k + 1"] by simp

lemma month_start_mono: "k \<le> k' \<Longrightarrow> month_start k \<le> month_start k'"
  using month_start_add [of "k' - k" k] by simp

text \<open>The month of a day number.\<close>

definition month_of_day :: "int \<Rightarrow> int" where
  "month_of_day n = (case civil_of_days n of (y, m, d) \<Rightarrow> 12 * y + m - 1)"

lemma civil_month_of_day:
  assumes "civil_of_days n = (y, m, d)"
  shows "12 * y + m - 1 = month_of_day n" "n = month_start (month_of_day n) + (d - 1)"
    "1 \<le> d" "d \<le> month_len (month_of_day n)" "1 \<le> m" "m \<le> 12"
    "y = month_of_day n div 12" "m = month_of_day n mod 12 + 1"
proof -
  note v = civil_of_days_valid [OF assms]
  show k: "12 * y + m - 1 = month_of_day n" using assms by (simp add: month_of_day_def)
  show "n = month_start (month_of_day n) + (d - 1)"
    using v(2) days_of_date_month_start [of y m d] k by simp
  show m: "1 \<le> m" "m \<le> 12" and "1 \<le> d" using v(1) by (auto simp: valid_date_def)
  show "d \<le> month_len (month_of_day n)"
    using v(1) month_len_days_in_month [of m y] k by (auto simp: valid_date_def)
  show "y = month_of_day n div 12" "m = month_of_day n mod 12 + 1"
    using m div_pos_pos_trivial [of "m - 1" 12] mod_pos_pos_trivial [of "m - 1" 12]
      div_mult_self4 [of 12 y "m - 1"] mod_mult_self4 [of 12 y "m - 1"]
    unfolding k [symmetric] add_diff_eq [symmetric] by simp_all
qed

lemma month_of_day_bounds:
  "month_start (month_of_day n) \<le> n" "n < month_start (month_of_day n + 1)"
proof -
  obtain y m d where c: "civil_of_days n = (y, m, d)" by (cases "civil_of_days n") auto
  from civil_month_of_day(2-4) [OF c] show "month_start (month_of_day n) \<le> n"
    "n < month_start (month_of_day n + 1)" by (auto simp: month_start_Suc)
qed

lemma month_of_day_unique:
  assumes "month_start k \<le> n" "n < month_start (k + 1)"
  shows "month_of_day n = k"
  using assms month_of_day_bounds [of n] month_start_less [of k "month_of_day n"]
    month_start_less [of "month_of_day n" k] by fastforce

lemma month_of_day_mono: "n \<le> n' \<Longrightarrow> month_of_day n \<le> month_of_day n'"
  using month_of_day_bounds [of n] month_of_day_bounds [of n']
    month_start_less [of "month_of_day n'" "month_of_day n"] by fastforce

lemma month_of_day_month_start [simp]: "month_of_day (month_start k) = k"
  by (rule month_of_day_unique) (use month_len_bounds(1) [of k] in \<open>auto simp: month_start_Suc\<close>)

lemma civil_of_days_month:
  assumes "1 \<le> d" "d \<le> month_len k"
  shows "civil_of_days (month_start k + (d - 1)) = (k div 12, k mod 12 + 1, d)"
proof -
  have "valid_date (k div 12) (k mod 12 + 1) d"
    using assms month_len_days_in_month [of "k mod 12 + 1" "k div 12"]
    by (auto simp: valid_date_def zle_add1_eq_le)
  from civil_of_days_of_date [OF this] show ?thesis
    by (simp add: days_of_date_month_start)
qed

section \<open>Locations that keep dates\<close>

text \<open>
  What the scheduling code relies on of a location, as an interface: a wall-clock time that
  \<open>time.Date\<close> is given comes back on its own day, the wall clock reads midnight at the start
  of every day, and a day is the stretch from its start to the next day's start.  UTC and the
  zones that change their clocks away from midnight keep it.  A zone that puts its clocks
  forward at midnight does not: \<open>Schedule_Month\<close> and \<open>Schedule_Today\<close> show what the code
  does there.
\<close>

locale keeps_dates =
  fixes l :: location
  assumes resolve_day: "local_day l (zone_resolve l w) = w div 86400"
    and start_wall: "wall l (day_start l n) = n * 86400"
    and start_order: "local_day l s < n \<longleftrightarrow> s < day_start l n"
begin

lemma start_day: "local_day l (day_start l n) = n"
  by (simp add: local_day_def start_wall)

lemma day_start_less_iff: "day_start l n < day_start l n' \<longleftrightarrow> n < n'"
  using start_order [of "day_start l n" n'] by (simp add: start_day)

end

lemmas keeps_dates_day [simp] = keeps_dates.start_day keeps_dates.resolve_day
lemmas day_start_less_iff = keeps_dates.day_start_less_iff

lemma In_loc_simps [simp]:
  "tloc (In_loc t l) = l" "nsec (In_loc t l) = nsec t" "unix_sec (In_loc t l) = unix_sec t"
  by (simp_all add: In_loc_def unix_sec_def)

lemma unix_sec_midnight [simp]: "unix_sec (midnight l n) = day_start l n"
  by (simp add: unix_sec_def midnight_def)

lemma tloc_midnight [simp]: "tloc (midnight l n) = l"
  by (simp add: midnight_def)

lemma midnight_compare:
  assumes "keeps_dates l"
  shows "Before (midnight l n) (midnight l n') \<longleftrightarrow> n < n'"
    "After (midnight l n) (midnight l n') \<longleftrightarrow> n' < n"
    "Equal (midnight l n) (midnight l n') \<longleftrightarrow> n = n'"
  using day_start_less_iff [OF assms, of n n'] day_start_less_iff [OF assms, of n' n]
  by (auto simp: Before_def After_def Equal_def midnight_def)

text \<open>An instant is before a day's start exactly when its calendar day is an earlier one.\<close>

lemma nsec_less_midnight: "nsec t < nsec (midnight l n) \<longleftrightarrow> unix_sec t < day_start l n"
  by (simp add: midnight_def unix_sec_def int_div_less_iff)

lemma compare_midnight:
  assumes "keeps_dates (tloc t)"
  shows "Before t (midnight (tloc t) n) \<longleftrightarrow> day_of t < n"
    "After (midnight (tloc t) n) t \<longleftrightarrow> day_of t < n"
  using keeps_dates.start_order [OF assms, of "unix_sec t" n]
  by (simp_all add: Before_def After_def nsec_less_midnight)

lemma mk_Date_midnight: "mk_Date y m d 0 0 0 0 l = midnight l (days_of_date y m d)"
  by (simp add: mk_Date_def midnight_def day_start_def)

lemma Date_of_midnight: "keeps_dates l \<Longrightarrow> Date_of (midnight l n) = civil_of_days n"
  by (simp add: Date_of_def)

lemma Clock_midnight: "keeps_dates l \<Longrightarrow> Clock (midnight l n) = (0, 0, 0)"
  by (simp add: Clock_def keeps_dates.start_wall)

lemma Nanosecond_midnight [simp]: "Nanosecond (midnight l n) = 0"
  by (simp add: Nanosecond_def midnight_def)

lemma AddDate_midnight:
  assumes "keeps_dates l" "civil_of_days n = (y, m, d)"
  shows "AddDate (midnight l n) dy dm dd =
    midnight l (month_start (month_of_day n + 12 * dy + dm) + (d - 1) + dd)"
proof -
  have "days_of_date (y + dy) (m + dm) (d + dd)
      = month_start (month_of_day n + 12 * dy + dm) + (d - 1) + dd"
  proof -
    have "12 * (y + dy) + (m + dm) - 1 = month_of_day n + 12 * dy + dm"
      using civil_month_of_day(1) [OF assms(2)] by simp
    then show ?thesis by (simp only: days_of_date_month_start)
  qed
  then show ?thesis
    using assms
    by (simp add: AddDate_def Date_of_midnight Clock_midnight mk_Date_midnight)
qed

lemma AddDate_midnight_days:
  assumes "keeps_dates l"
  shows "AddDate (midnight l n) 0 0 k = midnight l (n + k)"
proof -
  obtain y m d where c: "civil_of_days n = (y, m, d)" by (cases "civil_of_days n") auto
  show ?thesis
    using AddDate_midnight [OF assms c, of 0 0 k] civil_month_of_day(2) [OF c] by simp
qed

lemma utc_evals [simp]:
  "utc_offset utc s = 0" "wall utc s = s" "zone_resolve utc w = w" "local_day utc s = s div 86400"
  "day_start utc n = n * 86400"
  by (simp_all add: utc_def wall_def zone_resolve_def local_day_def day_start_def)

interpretation utc_zone: keeps_dates utc
  by unfold_locales (auto simp: int_div_less_iff)

end
