(* ===== verification/Store_Models.thy ===== *)
theory Store_Models
  imports Go_Time
begin

text \<open>
  The rows of the store (\<open>src/internal/store/models.go\<close>) that the modelled components read
  and write, one record per table.  A nullable column is an \<open>option\<close>; an integer column is an
  \<open>int\<close>, with the range its width and the schema's CHECK constraints give it stated where a
  theorem needs it (\<open>care_schedule_checks\<close>).  Also the two methods on rows: a plant's display name
  and its other name (\<open>plant.go\<close>).
\<close>

record care_event =
  ce_ID :: uuid
  ce_GardenID :: uuid
  ce_PlantID :: uuid
  ce_CareTypeID :: uuid
  ce_PerformedBy :: uuid
  ce_PerformedAt :: gotime
  ce_RecordedAt :: gotime
  ce_Done :: bool
  ce_Note :: "string option"
  ce_OverrideIntervalDays :: "int option"

record care_schedule =
  cs_ID :: uuid
  cs_GardenID :: uuid
  cs_PlantID :: uuid
  cs_CareTypeID :: uuid
  cs_IntervalCount :: "int option"
  cs_IntervalUnit :: "string option"
  cs_AnchorDate :: "gotime option"
  cs_AnchorPrecision :: "string option"
  cs_SeasonStartMonth :: "int option"
  cs_SeasonEndMonth :: "int option"
  cs_SetAt :: gotime

record care_type =
  ct_ID :: uuid
  ct_GardenID :: uuid
  ct_Name :: string
  ct_Slug :: string
  ct_Icon :: string
  ct_CreatedAt :: gotime
  ct_ArchivedAt :: "gotime option"

record plant =
  pl_ID :: uuid
  pl_GardenID :: uuid
  pl_Nickname :: "string option"
  pl_CommonName :: "string option"
  pl_BotanicalName :: "string option"
  pl_Location :: "string option"
  pl_Sun :: "string option"
  pl_WaterNeeds :: "string option"
  pl_FeedNeeds :: "string option"
  pl_Soil :: "string option"
  pl_Climate :: "string option"
  pl_Pot :: "string option"
  pl_Notes :: "string option"
  pl_AcquiredYear :: "int option"
  pl_AcquiredMonth :: "int option"
  pl_CreatedAt :: gotime
  pl_ArchivedAt :: "gotime option"
  pl_ProfilePhotoID :: "uuid option"

text \<open>Go's zero values of the rows, which a composite literal starts from.\<close>

definition zero_CareEvent :: care_event where
  "zero_CareEvent =
     \<lparr>ce_ID = nil_uuid, ce_GardenID = nil_uuid, ce_PlantID = nil_uuid, ce_CareTypeID = nil_uuid,
      ce_PerformedBy = nil_uuid, ce_PerformedAt = zero_time, ce_RecordedAt = zero_time,
      ce_Done = False, ce_Note = None, ce_OverrideIntervalDays = None\<rparr>"

definition zero_CareSchedule :: care_schedule where
  "zero_CareSchedule =
     \<lparr>cs_ID = nil_uuid, cs_GardenID = nil_uuid, cs_PlantID = nil_uuid, cs_CareTypeID = nil_uuid,
      cs_IntervalCount = None, cs_IntervalUnit = None, cs_AnchorDate = None,
      cs_AnchorPrecision = None, cs_SeasonStartMonth = None, cs_SeasonEndMonth = None,
      cs_SetAt = zero_time\<rparr>"

definition zero_CareType :: care_type where
  "zero_CareType =
     \<lparr>ct_ID = nil_uuid, ct_GardenID = nil_uuid, ct_Name = '''', ct_Slug = '''', ct_Icon = '''',
      ct_CreatedAt = zero_time, ct_ArchivedAt = None\<rparr>"

definition zero_Plant :: plant where
  "zero_Plant =
     \<lparr>pl_ID = nil_uuid, pl_GardenID = nil_uuid, pl_Nickname = None, pl_CommonName = None,
      pl_BotanicalName = None, pl_Location = None, pl_Sun = None, pl_WaterNeeds = None,
      pl_FeedNeeds = None, pl_Soil = None, pl_Climate = None, pl_Pot = None, pl_Notes = None,
      pl_AcquiredYear = None, pl_AcquiredMonth = None, pl_CreatedAt = zero_time,
      pl_ArchivedAt = None, pl_ProfilePhotoID = None\<rparr>"

lemmas zero_rows [row_simps] =
  zero_CareEvent_def zero_CareSchedule_def zero_CareType_def zero_Plant_def

section \<open>A plant's names (plant.go)\<close>

definition isSet :: "string option \<Rightarrow> bool" where
  "isSet name \<longleftrightarrow> (case name of None \<Rightarrow> False | Some s \<Rightarrow> s \<noteq> '''')"

definition DisplayName :: "plant \<Rightarrow> string" where
  "DisplayName p =
     (case find isSet [pl_Nickname p, pl_CommonName p, pl_BotanicalName p] of
        Some (Some name) \<Rightarrow> name
      | _ \<Rightarrow> '''')"

definition BotanicalOnly :: "plant \<Rightarrow> bool" where
  "BotanicalOnly p \<longleftrightarrow>
     \<not> isSet (pl_Nickname p) \<and> \<not> isSet (pl_CommonName p) \<and> isSet (pl_BotanicalName p)"

definition OtherName :: "plant \<Rightarrow> string \<times> bool" where
  "OtherName p =
     (let display = DisplayName p in
      if isSet (pl_CommonName p) \<and> the (pl_CommonName p) \<noteq> display
        then (the (pl_CommonName p), False)
      else if isSet (pl_BotanicalName p) \<and> the (pl_BotanicalName p) \<noteq> display
        then (the (pl_BotanicalName p), True)
      else ('''', False))"

lemma isSet_simps [simp, row_simps]: "\<not> isSet None" "isSet (Some s) \<longleftrightarrow> s \<noteq> ''''"
  by (simp_all add: isSet_def)

lemma DisplayName_cases:
  "DisplayName p =
    (if isSet (pl_Nickname p) then the (pl_Nickname p)
     else if isSet (pl_CommonName p) then the (pl_CommonName p)
     else if isSet (pl_BotanicalName p) then the (pl_BotanicalName p) else '''')"
  by (auto simp: DisplayName_def isSet_def split: option.splits)

section \<open>What the schema promises of a care_schedule row\<close>

text \<open>The CHECK constraints of the migration, in its order.  A CHECK on a null column passes.\<close>

definition care_schedule_checks :: "care_schedule \<Rightarrow> bool" where
  "care_schedule_checks s \<longleftrightarrow>
     (cs_IntervalCount s = None) = (cs_IntervalUnit s = None) \<and>
     (cs_AnchorDate s = None) = (cs_AnchorPrecision s = None) \<and>
     (cs_SeasonStartMonth s = None) = (cs_SeasonEndMonth s = None) \<and>
     (cs_IntervalCount s \<noteq> None \<or> cs_AnchorDate s \<noteq> None) \<and>
     (cs_SeasonStartMonth s = None \<or> cs_AnchorDate s = None) \<and>
     (case cs_IntervalCount s of None \<Rightarrow> True | Some n \<Rightarrow> 0 < n) \<and>
     (case cs_IntervalUnit s of None \<Rightarrow> True | Some u \<Rightarrow> u \<in> {''day'', ''week'', ''month'', ''year''}) \<and>
     (case cs_AnchorPrecision s of None \<Rightarrow> True | Some p \<Rightarrow> p \<in> {''day'', ''month''})"

text \<open>The schema does not check the months of a season; the schedule editor stores 1 to 12 alone
  (\<open>Http_Schedule\<close>).\<close>

definition season_months :: "care_schedule \<Rightarrow> bool" where
  "season_months s \<longleftrightarrow>
     (case cs_SeasonStartMonth s of None \<Rightarrow> True | Some m \<Rightarrow> 1 \<le> m \<and> m \<le> 12) \<and>
     (case cs_SeasonEndMonth s of None \<Rightarrow> True | Some m \<Rightarrow> 1 \<le> m \<and> m \<le> 12)"

definition schedule_wf :: "care_schedule \<Rightarrow> bool" where
  "schedule_wf s \<longleftrightarrow> care_schedule_checks s \<and> season_months s"

lemma schedule_wf_iff:
  "schedule_wf s \<longleftrightarrow>
     ((cs_IntervalCount s = None) = (cs_IntervalUnit s = None)) \<and>
     ((cs_AnchorDate s = None) = (cs_AnchorPrecision s = None)) \<and>
     ((cs_SeasonStartMonth s = None) = (cs_SeasonEndMonth s = None)) \<and>
     (cs_IntervalCount s \<noteq> None \<or> cs_AnchorDate s \<noteq> None) \<and>
     (cs_SeasonStartMonth s = None \<or> cs_AnchorDate s = None) \<and>
     (case cs_IntervalCount s of None \<Rightarrow> True | Some c \<Rightarrow> 0 < c) \<and>
     (case cs_IntervalUnit s of None \<Rightarrow> True
      | Some u \<Rightarrow> u \<in> {''day'', ''week'', ''month'', ''year''}) \<and>
     (case cs_AnchorPrecision s of None \<Rightarrow> True | Some p \<Rightarrow> p \<in> {''day'', ''month''}) \<and>
     (case cs_SeasonStartMonth s of None \<Rightarrow> True | Some m \<Rightarrow> 1 \<le> m \<and> m \<le> 12) \<and>
     (case cs_SeasonEndMonth s of None \<Rightarrow> True | Some m \<Rightarrow> 1 \<le> m \<and> m \<le> 12)"
  unfolding schedule_wf_def care_schedule_checks_def season_months_def by (simp only: conj_assoc)

lemma schedule_wfI: "care_schedule_checks s \<Longrightarrow> season_months s \<Longrightarrow> schedule_wf s"
  by (simp add: schedule_wf_def)

text \<open>A schedule with an anchor has no season.\<close>

lemma anchored_wf: "care_schedule_checks s \<Longrightarrow> cs_AnchorDate s = Some a \<Longrightarrow> schedule_wf s"
  by (auto simp: schedule_wf_def care_schedule_checks_def season_months_def)

end
