(* ===== verification/Schedule_Next.thy ===== *)
theory Schedule_Next
  imports Store_Models
begin

text \<open>
  When a schedule next falls due: \<open>src/internal/schedule/next.go\<close>, with \<open>DaysBetween\<close> of
  \<open>today.go\<close>, which it calls.  A function that can panic (an unknown unit, a nil column, a
  division by zero) or run forever (the search of an anchored series) returns an \<open>option\<close>, and
  \<open>None\<close> means that the call does not return; \<open>Next\<close> and \<open>shape\<close> return an optional
  occurrence under that option, for Go's second result.

  The lemmas relate each function to the calendar: \<open>series_day\<close> is the day a series reaches
  after a number of steps, and on a location that keeps dates \<open>shape\<close> lands on exactly that
  day's start.
\<close>

section \<open>Definitions\<close>

record occurrence =
  At :: gotime
  Precision :: string

text \<open>today.go: days between the calendar days of two instants, both read in the second one's
  location.\<close>

definition midnightUTC :: "gotime \<Rightarrow> gotime" where
  "midnightUTC t = (case Date_of t of (y, m, d) \<Rightarrow> mk_Date y m d 0 0 0 0 utc)"

definition DaysBetween :: "gotime \<Rightarrow> gotime \<Rightarrow> int" where
  "DaysBetween from to =
     (let f = midnightUTC (In_loc from (tloc to)); t = midnightUTC to
      in quot (Sub t f) (24 * hour_ns))"

definition addMonths :: "gotime \<Rightarrow> int \<Rightarrow> gotime" where
  "addMonths t n =
     (case Date_of t of (y, m, d) \<Rightarrow>
       let first = mk_Date y (m + n) 1 0 0 0 0 (tloc t);
           lst = Day_of (AddDate first 0 1 (-1));
           d' = (if lst < d then lst else d)
       in case Clock t of (h, mi, s) \<Rightarrow>
            mk_Date (Year first) (Month first) d' h mi s (Nanosecond t) (tloc t))"

definition advance :: "gotime \<Rightarrow> int \<Rightarrow> string \<Rightarrow> int \<Rightarrow> gotime option" where
  "advance t cnt unit n =
     (let steps = cnt * n in
      if unit = ''day'' then Some (AddDate t 0 0 steps)
      else if unit = ''week'' then Some (AddDate t 0 0 (7 * steps))
      else if unit = ''month'' then Some (addMonths t steps)
      else if unit = ''year'' then Some (addMonths t (12 * steps))
      else None)"

definition monthsBetween :: "gotime \<Rightarrow> gotime \<Rightarrow> int" where
  "monthsBetween from to = (Year to - Year from) * 12 + (Month to - Month from)"

definition dayOf :: "gotime \<Rightarrow> location \<Rightarrow> gotime" where
  "dayOf t l = (case Date_of (In_loc t l) of (y, m, d) \<Rightarrow> mk_Date y m d 0 0 0 0 l)"

definition anchorDay :: "gotime \<Rightarrow> location \<Rightarrow> gotime" where
  "anchorDay anchor l = (case Date_of anchor of (y, m, d) \<Rightarrow> mk_Date y m d 0 0 0 0 l)"

definition inSeason :: "int \<Rightarrow> int \<Rightarrow> int \<Rightarrow> bool" where
  "inSeason m start close =
     (if start \<le> close then start \<le> m \<and> m \<le> close else start \<le> m \<or> m \<le> close)"

definition lastOpening :: "gotime \<Rightarrow> int \<Rightarrow> gotime" where
  "lastOpening t start =
     (let op = mk_Date (Year t) start 1 0 0 0 0 (tloc t)
      in if After op t then AddDate op (-1) 0 0 else op)"

definition nextOpening :: "gotime \<Rightarrow> int \<Rightarrow> gotime" where
  "nextOpening t start =
     (let op = mk_Date (Year t) start 1 0 0 0 0 (tloc t)
      in if \<not> After op t then AddDate op 1 0 0 else op)"

definition firstStep :: "gotime \<Rightarrow> gotime \<Rightarrow> int \<Rightarrow> string \<Rightarrow> int option" where
  "firstStep anchor sinceDay cnt unit =
     (let found = (\<lambda>elapsed per. if elapsed \<le> 0 then Some 0
                                 else if per = 0 then None else Some (quot elapsed per))
      in if unit = ''day'' then found (DaysBetween anchor sinceDay) cnt
         else if unit = ''week'' then found (DaysBetween anchor sinceDay) (7 * cnt)
         else if unit = ''month'' then found (monthsBetween anchor sinceDay) cnt
         else if unit = ''year'' then found (monthsBetween anchor sinceDay) (12 * cnt)
         else Some 0)"

text \<open>The loop of \<open>shape\<close>'s last case: step by step from \<open>k\<close> until a date is after the day of
  the last care.\<close>

partial_function (option) anchored_search ::
  "gotime \<Rightarrow> gotime \<Rightarrow> int \<Rightarrow> string \<Rightarrow> int \<Rightarrow> gotime option" where
  "anchored_search anchor sinceDay cnt unit k =
     Option.bind (advance anchor cnt unit k)
       (\<lambda>at. if After at sinceDay then Some at
             else anchored_search anchor sinceDay cnt unit (k + 1))"

definition shape ::
  "care_schedule \<Rightarrow> care_event option \<Rightarrow> location \<Rightarrow> occurrence option option" where
  "shape s lst l =
     (case Option.bind lst (\<lambda>e. map_option (Pair e) (ce_OverrideIntervalDays e)) of
        Some (e, days) \<Rightarrow>
          Some (Some \<lparr>At = AddDate (In_loc (ce_PerformedAt e) l) 0 0 days, Precision = ''day''\<rparr>)
      | None \<Rightarrow>
          (let since = In_loc (case lst of None \<Rightarrow> cs_SetAt s | Some e \<Rightarrow> ce_PerformedAt e) l in
           case cs_AnchorDate s of
             None \<Rightarrow> do {
               cnt \<leftarrow> cs_IntervalCount s;
               unit \<leftarrow> cs_IntervalUnit s;
               at \<leftarrow> advance since cnt unit 1;
               Some (Some \<lparr>At = at, Precision = ''day''\<rparr>)
             }
           | Some anchor_date \<Rightarrow>
               (case cs_IntervalCount s of
                  None \<Rightarrow>
                    (if (case lst of None \<Rightarrow> False
                         | Some e \<Rightarrow> ce_Done e \<and> After (ce_PerformedAt e) (cs_SetAt s))
                     then Some None
                     else do {
                       precision \<leftarrow> cs_AnchorPrecision s;
                       Some (Some \<lparr>At = anchorDay anchor_date l, Precision = precision\<rparr>)
                     })
                | Some cnt \<Rightarrow> do {
                    unit \<leftarrow> cs_IntervalUnit s;
                    let anchor = anchorDay anchor_date l;
                    let sinceDay = dayOf since l;
                    k \<leftarrow> firstStep anchor sinceDay cnt unit;
                    at \<leftarrow> anchored_search anchor sinceDay cnt unit k;
                    precision \<leftarrow> cs_AnchorPrecision s;
                    Some (Some \<lparr>At = at, Precision = precision\<rparr>)
                  })))"

definition Next ::
  "care_schedule \<Rightarrow> care_event option \<Rightarrow> gotime \<Rightarrow> occurrence option option" where
  "Next s lst now =
     (let l = tloc now in do {
       r \<leftarrow> shape s lst l;
       (case r of
          None \<Rightarrow> Some None
        | Some occ \<Rightarrow>
            (case cs_SeasonStartMonth s of
               None \<Rightarrow> Some (Some occ)
             | Some start \<Rightarrow> do {
                 close \<leftarrow> cs_SeasonEndMonth s;
                 if \<not> inSeason (Month now) start close then Some None
                 else
                   (let opening = lastOpening now start in
                    if Before (At occ) opening then Some (Some (occ\<lparr>At := opening\<rparr>))
                    else if \<not> inSeason (Month (In_loc (At occ) l)) start close
                      then Some (Some (occ\<lparr>At := nextOpening (In_loc (At occ) l) start\<rparr>))
                    else Some (Some occ))
               }))
     })"

section \<open>The days a series reaches\<close>

text \<open>Adding months clamps the day to the target month, which is what \<open>addMonths\<close> is for.\<close>

definition month_add :: "int \<Rightarrow> int \<Rightarrow> int" where
  "month_add n j =
     (let k = month_of_day n + j
      in month_start k + min (n - month_start (month_of_day n)) (month_len k - 1))"

definition series_day :: "int \<Rightarrow> int \<Rightarrow> string \<Rightarrow> int \<Rightarrow> int" where
  "series_day n cnt unit k =
     (if unit = ''day'' then n + cnt * k
      else if unit = ''week'' then n + 7 * (cnt * k)
      else if unit = ''month'' then month_add n (cnt * k)
      else month_add n (12 * (cnt * k)))"

definition known_unit :: "string \<Rightarrow> bool" where
  "known_unit u \<longleftrightarrow> u \<in> {''day'', ''week'', ''month'', ''year''}"

lemma known_unit_cases:
  assumes "known_unit u"
  obtains "u = ''day''" | "u = ''week''" | "u = ''month''" | "u = ''year''"
  using assms by (auto simp: known_unit_def)

lemma month_add_bounds:
  "month_start (month_of_day n + j) \<le> month_add n j"
  "month_add n j < month_start (month_of_day n + j + 1)"
  using month_of_day_bounds [of n] month_len_bounds(1) [of "month_of_day n + j"]
  by (auto simp: month_add_def Let_def month_start_Suc min_def)

lemma month_of_day_month_add [simp]: "month_of_day (month_add n j) = month_of_day n + j"
  by (rule month_of_day_unique) (use month_add_bounds in auto)

lemma month_add_0 [simp]: "month_add n 0 = n"
  using month_of_day_bounds [of n] by (auto simp: month_add_def Let_def month_start_Suc min_def)

lemma month_add_strict_mono: "i < j \<Longrightarrow> month_add n i < month_add n j"
  using month_add_bounds(2) [of n i] month_add_bounds(1) [of n j]
    month_start_less [of "month_of_day n + i" "month_of_day n + j"] by fastforce

lemma series_day_strict_mono:
  assumes "0 < cnt" "i < j"
  shows "series_day n cnt unit i < series_day n cnt unit j"
proof -
  have "cnt * i < cnt * j" using assms by simp
  then show ?thesis by (auto simp: series_day_def intro: month_add_strict_mono)
qed

lemma series_day_mono: "0 < cnt \<Longrightarrow> i \<le> j \<Longrightarrow> series_day n cnt unit i \<le> series_day n cnt unit j"
  using series_day_strict_mono by (metis order_le_less)

lemma series_day_0 [simp]: "series_day n cnt unit 0 = n"
  by (simp add: series_day_def)

lemma series_day_ge:
  assumes "0 < cnt" "0 \<le> k"
  shows "n + k \<le> series_day n cnt unit k"
  using assms(2)
proof (induction k rule: int_ge_induct)
  case (step i)
  then show ?case
    using series_day_strict_mono [OF assms(1), of i "i + 1" n unit] by simp
qed simp

section \<open>Each function against the calendar\<close>

lemma dayOf_midnight: "dayOf t l = midnight l (local_day l (unix_sec t))"
proof -
  obtain y m d where c: "civil_of_days (local_day l (unix_sec t)) = (y, m, d)"
    by (cases "civil_of_days (local_day l (unix_sec t))") auto
  then have "Date_of (In_loc t l) = (y, m, d)"
    by (simp add: Date_of_def In_loc_def unix_sec_def)
  with civil_of_days_valid(2) [OF c] show ?thesis by (simp add: dayOf_def mk_Date_midnight)
qed

lemma anchorDay_midnight: "anchorDay a l = midnight l (day_of a)"
proof -
  obtain y m d where c: "civil_of_days (day_of a) = (y, m, d)"
    by (cases "civil_of_days (day_of a)") auto
  with civil_of_days_valid(2) [OF c] show ?thesis
    by (simp add: anchorDay_def mk_Date_midnight Date_of_def)
qed

lemma midnightUTC_midnight: "midnightUTC t = midnight utc (day_of t)"
proof -
  obtain y m d where c: "civil_of_days (day_of t) = (y, m, d)"
    by (cases "civil_of_days (day_of t)") auto
  with civil_of_days_valid(2) [OF c] show ?thesis
    by (simp add: midnightUTC_def mk_Date_midnight Date_of_def)
qed

text \<open>\<open>DaysBetween\<close> is the difference of the two calendar days, saturated at the 106751 days
  a \<open>time.Duration\<close> can hold.\<close>

lemma quot_clamped_days:
  "quot (max min_duration (min max_duration (j * day_ns))) day_ns = max (-106751) (min 106751 j)"
proof -
  consider "106751 < j" | "j < -106751" | "-106751 \<le> j" "j \<le> 106751" by linarith
  then show ?thesis
  proof cases
    case 1
    then have "max min_duration (min max_duration (j * day_ns)) = max_duration"
      by (simp add: max_duration_def min_duration_def)
    with 1 show ?thesis by (simp add: quot_def max_duration_def)
  next
    case 2
    then have "max min_duration (min max_duration (j * day_ns)) = min_duration"
      by (simp add: max_duration_def min_duration_def)
    with 2 show ?thesis by (simp add: quot_def min_duration_def)
  next
    case 3
    then have "max min_duration (min max_duration (j * day_ns)) = j * day_ns"
      by (simp add: max_duration_def min_duration_def)
    moreover have "\<bar>j * day_ns\<bar> div \<bar>day_ns\<bar> = \<bar>j\<bar>" by (simp add: abs_mult)
    moreover have "sgn (j * day_ns) * sgn day_ns * \<bar>j\<bar> = j" by (simp add: sgn_mult sgn_mult_abs)
    ultimately show ?thesis using 3 by (simp only: quot_def)
  qed
qed

lemma DaysBetween_days:
  "DaysBetween from to =
    max (-106751) (min 106751 (local_day (tloc to) (unix_sec to) - local_day (tloc to) (unix_sec from)))"
proof -
  let ?j = "local_day (tloc to) (unix_sec to) - local_day (tloc to) (unix_sec from)"
  have "Sub (midnightUTC to) (midnightUTC (In_loc from (tloc to)))
      = max min_duration (min max_duration (?j * day_ns))"
    by (simp add: midnightUTC_midnight Sub_def midnight_def algebra_simps)
  then show ?thesis
    using quot_clamped_days [of ?j] by (simp add: DaysBetween_def)
qed

text \<open>The same wall-clock reading as \<open>t\<close>'s on another day.\<close>

definition on_day :: "gotime \<Rightarrow> int \<Rightarrow> gotime" where
  "on_day t n =
     \<lparr>nsec = zone_resolve (tloc t) (n * 86400 + wall (tloc t) (unix_sec t) mod 86400) * sec_ns
             + Nanosecond t,
      tloc = tloc t\<rparr>"

lemma clock_seconds:
  "Clock t = (h, mi, s) \<Longrightarrow> h * 3600 + mi * 60 + s = wall (tloc t) (unix_sec t) mod 86400"
  using mult_div_mod_eq [of 3600 "wall (tloc t) (unix_sec t) mod 86400"]
    mult_div_mod_eq [of 60 "wall (tloc t) (unix_sec t) mod 86400 mod 3600"]
  by (auto simp: Clock_def Let_def mod_mod_cancel)

lemma Nanosecond_div [simp]: "Nanosecond t div sec_ns = 0" "Nanosecond t mod sec_ns = Nanosecond t"
  by (simp_all add: Nanosecond_def)

lemma mk_Date_on_day:
  assumes "Clock t = (h, mi, s)"
  shows "mk_Date y m d h mi s (Nanosecond t) (tloc t) = on_day t (days_of_date y m d)"
  using clock_seconds [OF assms] by (simp add: mk_Date_def on_day_def Let_def add.assoc)

lemma AddDate_days: "AddDate t 0 0 k = on_day t (day_of t + k)"
proof -
  obtain y m d where c: "civil_of_days (day_of t) = (y, m, d)"
    by (cases "civil_of_days (day_of t)") auto
  obtain h mi s where k: "Clock t = (h, mi, s)" by (cases "Clock t") auto
  show ?thesis
    using c k mk_Date_on_day [OF k] civil_of_days_valid(2) [OF c]
    by (simp add: AddDate_def Date_of_def days_of_date_add_days)
qed

lemma on_day_simps [simp]:
  "tloc (on_day t n) = tloc t"
  "unix_sec (on_day t n) = zone_resolve (tloc t) (n * 86400 + wall (tloc t) (unix_sec t) mod 86400)"
proof -
  show "tloc (on_day t n) = tloc t" by (simp add: on_day_def)
  have "(x * sec_ns + Nanosecond t) div sec_ns = x" for x
    by (simp add: Nanosecond_def)
  then show "unix_sec (on_day t n)
      = zone_resolve (tloc t) (n * 86400 + wall (tloc t) (unix_sec t) mod 86400)"
    by (simp add: on_day_def unix_sec_def)
qed

lemma day_of_on_day [simp]: "keeps_dates (tloc t) \<Longrightarrow> day_of (on_day t n) = n"
  by (simp add: keeps_dates.resolve_day)

lemma on_day_midnight [simp]: "keeps_dates l \<Longrightarrow> on_day (midnight l n) n' = midnight l n'"
  by (simp add: on_day_def keeps_dates.start_wall) (simp add: midnight_def day_start_def Nanosecond_def)

lemma Date_midnight_month:
  assumes "keeps_dates l"
  shows "Year (midnight l (month_start k)) = k div 12"
    "Month (midnight l (month_start k)) = k mod 12 + 1"
    "Day_of (midnight l (month_start k)) = 1"
  using civil_of_days_month [of 1 k] month_len_bounds(1) [of k]
  by (simp_all add: Year_def Month_def Day_of_def Date_of_midnight [OF assms])

lemma AddDate_first_of_month:
  assumes "keeps_dates l"
  shows "AddDate (midnight l (month_start k)) dy dm dd =
    midnight l (month_start (k + 12 * dy + dm) + dd)"
  using AddDate_midnight [OF assms, of "month_start k" "k div 12" "k mod 12 + 1" 1 dy dm dd]
    civil_of_days_month [of 1 k] month_len_bounds(1) [of k] by simp

lemma addMonths_on_day:
  assumes "keeps_dates (tloc t)"
  shows "addMonths t j = on_day t (month_add (day_of t) j)"
proof -
  obtain y m d where c: "civil_of_days (day_of t) = (y, m, d)"
    by (cases "civil_of_days (day_of t)") auto
  obtain h mi s where clk: "Clock t = (h, mi, s)" by (cases "Clock t") auto
  note d = civil_month_of_day [OF c]
  define k where "k = month_of_day (day_of t) + j"
  have "12 * y + (m + j) - 1 = k" using d(1) by (simp add: k_def)
  then have first: "mk_Date y (m + j) 1 0 0 0 0 (tloc t) = midnight (tloc t) (month_start k)"
    by (simp only: mk_Date_midnight days_of_date_month_start) simp
  have "AddDate (midnight (tloc t) (month_start k)) 0 1 (-1)
      = midnight (tloc t) (month_start k + (month_len k - 1))"
    by (simp add: AddDate_first_of_month [OF assms] month_start_Suc add_diff_eq)
  then have lst: "Day_of (AddDate (midnight (tloc t) (month_start k)) 0 1 (-1)) = month_len k"
    using civil_of_days_month [of "month_len k" k] month_len_bounds(1) [of k]
    by (simp add: Day_of_def Date_of_midnight [OF assms])
  have "days_of_date (k div 12) (k mod 12 + 1) (if month_len k < d then month_len k else d)
      = month_add (day_of t) j"
    using d(2) by (auto simp: days_of_date_month_start month_add_def Let_def k_def min_def)
  then show ?thesis
    using c clk mk_Date_on_day [OF clk, of "k div 12" "k mod 12 + 1"]
    by (simp add: addMonths_def Date_of_def first lst Date_midnight_month [OF assms] Let_def
        split: if_splits)
qed

lemma advance_on_day:
  assumes "keeps_dates (tloc t)" "known_unit u"
  shows "advance t c u k = Some (on_day t (series_day (day_of t) c u k))"
  using assms(2)
  by (cases rule: known_unit_cases)
    (simp_all add: advance_def series_day_def AddDate_days addMonths_on_day [OF assms(1)])

lemma advance_midnight:
  assumes "keeps_dates l" "known_unit u"
  shows "advance (midnight l n) c u k = Some (midnight l (series_day n c u k))"
  using advance_on_day [of "midnight l n" u c k] assms by simp

lemma monthsBetween_midnights:
  assumes "keeps_dates l"
  shows "monthsBetween (midnight l n) (midnight l n') = month_of_day n' - month_of_day n"
proof -
  have "12 * Year (midnight l x) + Month (midnight l x) - 1 = month_of_day x" for x
    by (simp add: Year_def Month_def Date_of_midnight [OF assms] month_of_day_def split: prod.split)
  from this [of n] this [of n'] show ?thesis by (simp add: monthsBetween_def algebra_simps)
qed

section \<open>The search of an anchored series\<close>

text \<open>Every step before the one the search starts at lands on or before the day of the last
  care, even where \<open>DaysBetween\<close> saturates.\<close>

definition elapsed_units :: "int \<Rightarrow> int \<Rightarrow> string \<Rightarrow> int" where
  "elapsed_units a b u =
     (if u \<in> {''day'', ''week''} then max (-106751) (min 106751 (b - a))
      else month_of_day b - month_of_day a)"

definition units_per_step :: "int \<Rightarrow> string \<Rightarrow> int" where
  "units_per_step c u =
     (if u = ''week'' then 7 * c else if u = ''year'' then 12 * c else c)"

lemma units_per_step_pos: "0 < c \<Longrightarrow> 0 < units_per_step c u"
  by (simp add: units_per_step_def)

lemma firstStep_eq:
  assumes "keeps_dates l" "known_unit u" "0 < c"
  shows "firstStep (midnight l a) (midnight l b) c u =
    Some (if elapsed_units a b u \<le> 0 then 0 else elapsed_units a b u div units_per_step c u)"
proof -
  have q: "quot e p = e div p" if "0 < e" "0 < p" for e p using that by (simp add: quot_def)
  have "c \<noteq> 0" using assms(3) by simp
  with assms(2) show ?thesis
    by (cases rule: known_unit_cases)
      (simp_all add: firstStep_def elapsed_units_def units_per_step_def Let_def q assms(1,3)
        DaysBetween_days monthsBetween_midnights)
qed

lemma series_day_before:
  assumes "known_unit u" "0 < c" "0 \<le> j" "units_per_step c u * j < elapsed_units a b u"
  shows "series_day a c u j \<le> b"
proof -
  have "0 \<le> c * j" using assms(2,3) by simp
  have months: "month_add a i \<le> b" if "i < month_of_day b - month_of_day a" for i
    using month_of_day_mono [of b "month_add a i"] that by force
  from assms(1) show ?thesis
  proof (cases rule: known_unit_cases)
    case 1
    with assms(4) \<open>0 \<le> c * j\<close> show ?thesis
      by (simp add: series_day_def units_per_step_def elapsed_units_def)
  next
    case 2
    with assms(4) \<open>0 \<le> c * j\<close> show ?thesis
      by (simp add: series_day_def units_per_step_def elapsed_units_def)
  next
    case 3
    with assms(4) months [of "c * j"] show ?thesis
      by (simp add: series_day_def units_per_step_def elapsed_units_def)
  next
    case 4
    with assms(4) months [of "12 * c * j"] show ?thesis
      by (simp add: series_day_def units_per_step_def elapsed_units_def mult.assoc)
  qed
qed

lemma div_guess:
  fixes e p j :: int
  assumes "0 < p" "0 < e" "j < e div p"
  shows "p * j < e"
proof -
  have "p * (j + 1) \<le> p * (e div p)" using assms by simp
  also have "\<dots> \<le> e" using assms(1) by (simp add: minus_mod_eq_mult_div [symmetric])
  finally show ?thesis using assms(1) by (simp add: algebra_simps)
qed

lemma firstStep_start:
  assumes "keeps_dates l" "known_unit u" "0 < c"
  obtains k where "firstStep (midnight l a) (midnight l b) c u = Some k" "0 \<le> k"
    "\<And>j. 0 \<le> j \<Longrightarrow> j < k \<Longrightarrow> series_day a c u j \<le> b"
proof -
  let ?e = "elapsed_units a b u" and ?p = "units_per_step c u"
  show thesis
  proof (rule that)
    show "firstStep (midnight l a) (midnight l b) c u = Some (if ?e \<le> 0 then 0 else ?e div ?p)"
      by (rule firstStep_eq [OF assms])
    show "0 \<le> (if ?e \<le> 0 then 0 else ?e div ?p)"
      using units_per_step_pos [OF assms(3), of u] by (simp add: pos_imp_zdiv_nonneg_iff)
    show "series_day a c u j \<le> b" if "0 \<le> j" "j < (if ?e \<le> 0 then 0 else ?e div ?p)" for j
      using that units_per_step_pos [OF assms(3), of u]
      by (intro series_day_before [OF assms(2,3)] div_guess) (auto split: if_splits)
  qed
qed

text \<open>The search ends, on the first date after \<open>b\<close> from its starting step on.\<close>

lemma anchored_search_found:
  assumes "keeps_dates l" "known_unit u" "0 < c"
    and "b < series_day a c u k'" "k \<le> k'"
  shows "\<exists>i. k \<le> i \<and> b < series_day a c u i \<and> (\<forall>j. k \<le> j \<longrightarrow> j < i \<longrightarrow> series_day a c u j \<le> b) \<and>
    anchored_search (midnight l a) (midnight l b) c u k = Some (midnight l (series_day a c u i))"
  using assms(4,5)
proof (induction "nat (k' - k)" arbitrary: k rule: less_induct)
  case (less k)
  have unfold: "anchored_search (midnight l a) (midnight l b) c u k =
    (if b < series_day a c u k then Some (midnight l (series_day a c u k))
     else anchored_search (midnight l a) (midnight l b) c u (k + 1))"
    by (subst anchored_search.simps)
      (simp add: advance_midnight [OF assms(1,2)] midnight_compare [OF assms(1)])
  show ?case
  proof (cases "b < series_day a c u k")
    case True
    with unfold show ?thesis by (intro exI [of _ k]) auto
  next
    case False
    with less.prems have "k < k'" by (cases "k = k'") auto
    with less.prems less.hyps [of "k + 1"] obtain i where i: "k + 1 \<le> i" "b < series_day a c u i"
      "\<forall>j. k + 1 \<le> j \<longrightarrow> j < i \<longrightarrow> series_day a c u j \<le> b"
      "anchored_search (midnight l a) (midnight l b) c u (k + 1) = Some (midnight l (series_day a c u i))"
      by auto
    have "series_day a c u j \<le> b" if "k \<le> j" "j < i" for j
      using that False i(3) by (cases "j = k") auto
    with i False unfold show ?thesis by (intro exI [of _ i]) auto
  qed
qed

text \<open>Together: from wherever \<open>firstStep\<close> starts, the search returns the earliest date of the
  whole series after \<open>b\<close>.\<close>

lemma anchored_earliest:
  assumes "keeps_dates l" "known_unit u" "0 < c"
  obtains k i where "firstStep (midnight l a) (midnight l b) c u = Some k"
    "anchored_search (midnight l a) (midnight l b) c u k = Some (midnight l (series_day a c u i))"
    "0 \<le> i" "b < series_day a c u i" "\<And>j. 0 \<le> j \<Longrightarrow> j < i \<Longrightarrow> series_day a c u j \<le> b"
proof -
  obtain k where k: "firstStep (midnight l a) (midnight l b) c u = Some k" "0 \<le> k"
    "\<And>j. 0 \<le> j \<Longrightarrow> j < k \<Longrightarrow> series_day a c u j \<le> b"
    using firstStep_start [OF assms] by blast
  define k' where "k' = max k (b - a + 1)"
  have "0 \<le> k'" "b < a + k'" using k(2) by (simp_all add: k'_def)
  then have "b < series_day a c u k'"
    using series_day_ge [OF assms(3), of k' a u] by simp
  moreover have "k \<le> k'" by (simp add: k'_def)
  ultimately obtain i where i: "k \<le> i" "b < series_day a c u i"
    "\<forall>j. k \<le> j \<longrightarrow> j < i \<longrightarrow> series_day a c u j \<le> b"
    "anchored_search (midnight l a) (midnight l b) c u k = Some (midnight l (series_day a c u i))"
    using anchored_search_found [OF assms] by metis
  have "series_day a c u j \<le> b" if "0 \<le> j" "j < i" for j
    using that i(3) k(3) by (cases "j < k") auto
  with k i show thesis using that by force
qed

section \<open>What shape returns\<close>

abbreviation override_of :: "care_event option \<Rightarrow> int option" where
  "override_of lst \<equiv> Option.bind lst ce_OverrideIntervalDays"

text \<open>The day, in a location, that a schedule counts from: the day of the last care, or the day
  the schedule was set.\<close>

definition since_day :: "care_schedule \<Rightarrow> care_event option \<Rightarrow> location \<Rightarrow> int" where
  "since_day s lst l =
     local_day l (unix_sec (case lst of None \<Rightarrow> cs_SetAt s | Some e \<Rightarrow> ce_PerformedAt e))"

lemma override_pair:
  "override_of lst = None \<Longrightarrow>
    Option.bind lst (\<lambda>e. map_option (Pair e) (ce_OverrideIntervalDays e)) = None"
  by (cases lst) auto

lemma shape_override:
  "ce_OverrideIntervalDays e = Some k \<Longrightarrow> shape s (Some e) l =
    Some (Some \<lparr>At = on_day (In_loc (ce_PerformedAt e) l) (local_day l (unix_sec (ce_PerformedAt e)) + k),
      Precision = ''day''\<rparr>)"
  by (simp add: shape_def AddDate_days)

lemma schedule_wf_unit:
  "schedule_wf s \<Longrightarrow> cs_IntervalCount s = Some c \<Longrightarrow>
    \<exists>u. cs_IntervalUnit s = Some u \<and> known_unit u \<and> 0 < c"
  by (auto simp: schedule_wf_iff known_unit_def split: option.splits)

lemma shape_cadence:
  assumes "keeps_dates l" "override_of lst = None" "cs_AnchorDate s = None"
    and "cs_IntervalCount s = Some c" "cs_IntervalUnit s = Some u" "known_unit u"
  shows "shape s lst l = Some (Some \<lparr>At =
      on_day (In_loc (case lst of None \<Rightarrow> cs_SetAt s | Some e \<Rightarrow> ce_PerformedAt e) l)
        (series_day (since_day s lst l) c u 1), Precision = ''day''\<rparr>)"
  using assms(2-5) advance_on_day [of _ u c 1] assms(1,6)
  by (simp add: shape_def override_pair since_day_def)

lemma shape_anchored:
  assumes "keeps_dates l" "schedule_wf s" "override_of lst = None"
    and "cs_AnchorDate s = Some a" "cs_IntervalCount s = Some c"
  obtains u p i where "cs_IntervalUnit s = Some u" "cs_AnchorPrecision s = Some p" "0 \<le> i"
    "shape s lst l = Some (Some \<lparr>At = midnight l (series_day (day_of a) c u i), Precision = p\<rparr>)"
    "since_day s lst l < series_day (day_of a) c u i"
    "\<And>j. 0 \<le> j \<Longrightarrow> j < i \<Longrightarrow> series_day (day_of a) c u j \<le> since_day s lst l"
proof -
  obtain u where u: "cs_IntervalUnit s = Some u" "known_unit u" "0 < c"
    using schedule_wf_unit [OF assms(2,5)] by blast
  obtain p where p: "cs_AnchorPrecision s = Some p"
    using assms(2,4) by (auto simp: schedule_wf_iff)
  obtain k i where ki: "firstStep (midnight l (day_of a)) (midnight l (since_day s lst l)) c u = Some k"
    "anchored_search (midnight l (day_of a)) (midnight l (since_day s lst l)) c u k
      = Some (midnight l (series_day (day_of a) c u i))"
    "0 \<le> i" "since_day s lst l < series_day (day_of a) c u i"
    "\<And>j. 0 \<le> j \<Longrightarrow> j < i \<Longrightarrow> series_day (day_of a) c u j \<le> since_day s lst l"
    by (rule anchored_earliest [OF assms(1) u(2,3)]) (rule that)
  have "shape s lst l = Some (Some \<lparr>At = midnight l (series_day (day_of a) c u i), Precision = p\<rparr>)"
    using assms(3-5) u(1) p ki(1,2)
    by (simp add: shape_def override_pair Let_def dayOf_midnight anchorDay_midnight
        since_day_def [symmetric])
  with u p ki show thesis using that by blast
qed

text \<open>A one-off is spent once care was done after the schedule was set.\<close>

definition spent :: "care_schedule \<Rightarrow> care_event option \<Rightarrow> bool" where
  "spent s lst \<longleftrightarrow> override_of lst = None \<and> cs_AnchorDate s \<noteq> None \<and> cs_IntervalCount s = None \<and>
     (case lst of None \<Rightarrow> False | Some e \<Rightarrow> ce_Done e \<and> After (ce_PerformedAt e) (cs_SetAt s))"

lemma shape_one_off:
  assumes "schedule_wf s" "override_of lst = None"
    and "cs_AnchorDate s = Some a" "cs_IntervalCount s = None"
  obtains p where "cs_AnchorPrecision s = Some p"
    "shape s lst l = Some (if spent s lst then None
       else Some \<lparr>At = midnight l (day_of a), Precision = p\<rparr>)"
proof -
  obtain p where p: "cs_AnchorPrecision s = Some p"
    using assms(1,3) by (auto simp: schedule_wf_iff)
  show thesis
    by (rule that [OF p])
      (use assms p in \<open>auto simp: shape_def override_pair anchorDay_midnight spent_def split: option.splits\<close>)
qed

lemma shape_total:
  assumes "keeps_dates l" "schedule_wf s"
  obtains r where "shape s lst l = Some r" "(r = None) = spent s lst"
proof (cases "override_of lst")
  case (Some k)
  then obtain e where "lst = Some e" "ce_OverrideIntervalDays e = Some k" by (cases lst) auto
  then show thesis using that shape_override [of e k s l] by (auto simp: spent_def)
next
  case None
  show thesis
  proof (cases "cs_AnchorDate s")
    case anchor: None
    then obtain c where c: "cs_IntervalCount s = Some c"
      using assms(2) by (auto simp: schedule_wf_iff)
    obtain u where "cs_IntervalUnit s = Some u" "known_unit u"
      using schedule_wf_unit [OF assms(2) c] by blast
    from shape_cadence [OF assms(1) None anchor c this] that show thesis
      by (auto simp: spent_def anchor)
  next
    case anchor: (Some a)
    show thesis
    proof (cases "cs_IntervalCount s")
      case count: None
      obtain p where "shape s lst l = Some (if spent s lst then None
          else Some \<lparr>At = midnight l (day_of a), Precision = p\<rparr>)"
        by (rule shape_one_off [OF assms(2) None anchor count, of l]) (rule that)
      then show thesis by (rule that) simp
    next
      case count: (Some c)
      obtain u p i where "shape s lst l
          = Some (Some \<lparr>At = midnight l (series_day (day_of a) c u i), Precision = p\<rparr>)"
        by (rule shape_anchored [OF assms None anchor count]) (rule that)
      then show thesis by (rule that) (simp add: spent_def count)
    qed
  qed
qed

section \<open>Seasons\<close>

text \<open>\<open>lastOpening\<close> and \<open>nextOpening\<close> are starts of months whose number is the season's.\<close>

lemma mk_Date_month: "mk_Date y m 1 0 0 0 0 l = midnight l (month_start (12 * y + m - 1))"
  by (simp add: mk_Date_midnight days_of_date_month_start)

lemma opening_month: "1 \<le> m \<Longrightarrow> m \<le> 12 \<Longrightarrow> (12 * y + m - 1) mod 12 + 1 = (m::int)"
  unfolding add_diff_eq [symmetric] mod_mult_self4 by simp

lemma lastOpening_month:
  assumes "keeps_dates (tloc t)" "1 \<le> m" "m \<le> 12"
  obtains k where "lastOpening t m = midnight (tloc t) (month_start k)" "k mod 12 + 1 = m"
proof (cases "After (midnight (tloc t) (month_start (12 * Year t + m - 1))) t")
  case True
  show thesis
    by (rule that [of "12 * (Year t - 1) + m - 1"])
      (use True opening_month [OF assms(2,3), of "Year t - 1"] in
        \<open>simp_all add: lastOpening_def mk_Date_month AddDate_first_of_month [OF assms(1)] algebra_simps\<close>)
next
  case False
  show thesis
    by (rule that [of "12 * Year t + m - 1"])
      (use False opening_month [OF assms(2,3)] in \<open>simp_all add: lastOpening_def mk_Date_month\<close>)
qed

lemma nextOpening_month:
  assumes "keeps_dates (tloc t)" "1 \<le> m" "m \<le> 12"
  obtains k where "nextOpening t m = midnight (tloc t) (month_start k)" "k mod 12 + 1 = m"
proof (cases "After (midnight (tloc t) (month_start (12 * Year t + m - 1))) t")
  case False
  show thesis
    by (rule that [of "12 * (Year t + 1) + m - 1"])
      (use False opening_month [OF assms(2,3), of "Year t + 1"] in
        \<open>simp_all add: nextOpening_def mk_Date_month AddDate_first_of_month [OF assms(1)] algebra_simps\<close>)
next
  case True
  show thesis
    by (rule that [of "12 * Year t + m - 1"])
      (use True opening_month [OF assms(2,3)] in \<open>simp_all add: nextOpening_def mk_Date_month\<close>)
qed

lemma inSeason_start [simp]: "1 \<le> m \<Longrightarrow> m \<le> 12 \<Longrightarrow> inSeason m m n"
  by (auto simp: inSeason_def)

section \<open>What Next returns\<close>

lemma Next_unseasoned:
  "cs_SeasonStartMonth s = None \<Longrightarrow> Next s lst now = shape s lst (tloc now)"
  by (cases "shape s lst (tloc now)") (auto simp: Next_def Let_def split: option.split)

lemma tloc_on_day_at: "shape s lst l = Some (Some occ) \<Longrightarrow> cs_AnchorDate s = None \<Longrightarrow>
    schedule_wf s \<Longrightarrow> keeps_dates l \<Longrightarrow> tloc (At occ) = l"
proof (cases "override_of lst")
  case None
  assume a: "shape s lst l = Some (Some occ)" "cs_AnchorDate s = None" "schedule_wf s" "keeps_dates l"
  then obtain c where c: "cs_IntervalCount s = Some c" by (auto simp: schedule_wf_iff)
  obtain u where "cs_IntervalUnit s = Some u" "known_unit u"
    using schedule_wf_unit [OF a(3) c] by blast
  from shape_cadence [OF a(4) None a(2) c this] a(1) show ?thesis by auto
next
  case (Some k)
  then obtain e where "lst = Some e" "ce_OverrideIntervalDays e = Some k" by (cases lst) auto
  moreover assume "shape s lst l = Some (Some occ)"
  ultimately show ?thesis using shape_override [of e k s l] by auto
qed

text \<open>For a schedule with a season, the three ways \<open>Next\<close> can leave or move the shape's date.\<close>

lemma Next_seasoned:
  assumes "keeps_dates (tloc now)" "schedule_wf s"
    and "cs_SeasonStartMonth s = Some st"
  obtains en occ where "cs_SeasonEndMonth s = Some en" "shape s lst (tloc now) = Some (Some occ)"
    "tloc (At occ) = tloc now" "1 \<le> st" "st \<le> 12"
    "Next s lst now = Some (if \<not> inSeason (Month now) st en then None
       else if Before (At occ) (lastOpening now st) then Some (occ\<lparr>At := lastOpening now st\<rparr>)
       else if \<not> inSeason (Month (At occ)) st en then Some (occ\<lparr>At := nextOpening (At occ) st\<rparr>)
       else Some occ)"
proof -
  obtain en where en: "cs_SeasonEndMonth s = Some en"
    using assms(2,3) by (auto simp: schedule_wf_iff)
  have anchor: "cs_AnchorDate s = None" and st: "1 \<le> st" "st \<le> 12"
    using assms(2,3) by (auto simp: schedule_wf_iff)
  obtain r where "shape s lst (tloc now) = Some r" "(r = None) = spent s lst"
    using shape_total [OF assms(1,2)] by blast
  with anchor obtain occ where occ: "shape s lst (tloc now) = Some (Some occ)"
    by (cases r) (auto simp: spent_def)
  have l: "tloc (At occ) = tloc now" by (rule tloc_on_day_at [OF occ anchor assms(2,1)])
  then have "In_loc (At occ) (tloc now) = At occ" by (cases "At occ") (simp add: In_loc_def)
  with occ en assms(3) have "Next s lst now = Some (if \<not> inSeason (Month now) st en then None
       else if Before (At occ) (lastOpening now st) then Some (occ\<lparr>At := lastOpening now st\<rparr>)
       else if \<not> inSeason (Month (At occ)) st en then Some (occ\<lparr>At := nextOpening (At occ) st\<rparr>)
       else Some occ)"
    by (simp add: Next_def Let_def)
  then show thesis using that en occ l st by blast
qed

lemma nextOpening_after:
  assumes "keeps_dates (tloc t)" "1 \<le> m" "m \<le> 12"
  shows "After (nextOpening t m) t"
proof -
  let ?k = "12 * Year t + m - 1"
  obtain y mo d where c: "civil_of_days (day_of t) = (y, mo, d)"
    by (cases "civil_of_days (day_of t)") auto
  have "month_of_day (day_of t) < ?k + 12"
    using civil_month_of_day(1,6) [OF c] assms(2) by (simp add: Year_def Date_of_def c)
  then have "day_of t < month_start (?k + 12)"
    using month_of_day_bounds(2) [of "day_of t"] month_start_mono [of "month_of_day (day_of t) + 1" "?k + 12"]
    by simp
  then show ?thesis
    using compare_midnight(2) [OF assms(1)]
    by (simp add: nextOpening_def mk_Date_month AddDate_first_of_month [OF assms(1)] Let_def)
qed

lemma lastOpening_not_after:
  assumes "keeps_dates (tloc t)" "1 \<le> m" "m \<le> 12"
  shows "\<not> After (lastOpening t m) t"
proof -
  let ?k = "12 * Year t + m - 1"
  obtain y mo d where c: "civil_of_days (day_of t) = (y, mo, d)"
    by (cases "civil_of_days (day_of t)") auto
  have "?k - 12 \<le> month_of_day (day_of t)"
    using civil_month_of_day(1,5) [OF c] assms(3) by (simp add: Year_def Date_of_def c)
  then have "month_start (?k - 12) \<le> day_of t"
    using month_of_day_bounds(1) [of "day_of t"] month_start_mono [of "?k - 12" "month_of_day (day_of t)"]
    by simp
  then show ?thesis
    using compare_midnight(2) [OF assms(1)]
    by (simp add: lastOpening_def mk_Date_month AddDate_first_of_month [OF assms(1)] Let_def)
qed

definition season_closed :: "care_schedule \<Rightarrow> gotime \<Rightarrow> bool" where
  "season_closed s now \<longleftrightarrow>
     (case (cs_SeasonStartMonth s, cs_SeasonEndMonth s) of
        (Some st, Some en) \<Rightarrow> \<not> inSeason (Month now) st en
      | _ \<Rightarrow> False)"

lemma Month_opening:
  assumes "keeps_dates (tloc t)" "1 \<le> m" "m \<le> 12"
  shows "Month (lastOpening t m) = m" "Month (nextOpening t m) = m"
    "tloc (lastOpening t m) = tloc t" "tloc (nextOpening t m) = tloc t"
proof -
  obtain k where "lastOpening t m = midnight (tloc t) (month_start k)" "k mod 12 + 1 = m"
    using lastOpening_month [OF assms] by blast
  then show "Month (lastOpening t m) = m" "tloc (lastOpening t m) = tloc t"
    by (simp_all add: Date_midnight_month [OF assms(1)])
  obtain k where "nextOpening t m = midnight (tloc t) (month_start k)" "k mod 12 + 1 = m"
    using nextOpening_month [OF assms] by blast
  then show "Month (nextOpening t m) = m" "tloc (nextOpening t m) = tloc t"
    by (simp_all add: Date_midnight_month [OF assms(1)])
qed

text \<open>Moving a date to an opening moves it to a later calendar day.\<close>

lemma opening_day_later:
  assumes "keeps_dates (tloc t)" "keeps_dates (tloc u)" "tloc u = tloc t" "1 \<le> m" "m \<le> 12"
  shows "Before u (lastOpening t m) \<Longrightarrow> day_of u < day_of (lastOpening t m)"
    "day_of u < day_of (nextOpening u m)"
proof -
  obtain k where k: "lastOpening t m = midnight (tloc t) (month_start k)"
    using lastOpening_month [OF assms(1,4,5)] by blast
  show "Before u (lastOpening t m) \<Longrightarrow> day_of u < day_of (lastOpening t m)"
    using compare_midnight(1) [OF assms(2), of "month_start k"] assms(1,3) by (simp add: k)
  obtain k where k: "nextOpening u m = midnight (tloc u) (month_start k)"
    using nextOpening_month [OF assms(2,4,5)] by blast
  show "day_of u < day_of (nextOpening u m)"
    using nextOpening_after [OF assms(2,4,5)] compare_midnight(2) [OF assms(2), of "month_start k"] assms(2)
    by (simp add: k)
qed

lemma shape_interval_later:
  assumes "keeps_dates l" "schedule_wf s" "override_of lst = None"
    and "cs_IntervalCount s = Some c" "shape s lst l = Some (Some occ)"
  shows "since_day s lst l < day_of (At occ)" "tloc (At occ) = l"
proof -
  obtain u where u: "cs_IntervalUnit s = Some u" "known_unit u" "0 < c"
    using schedule_wf_unit [OF assms(2,4)] by blast
  have "since_day s lst l < day_of (At occ) \<and> tloc (At occ) = l"
  proof (cases "cs_AnchorDate s")
    case None
    then show ?thesis
      using assms(5) shape_cadence [OF assms(1,3) None assms(4) u(1,2)] assms(1)
        series_day_strict_mono [OF u(3), of 0 1] by auto
  next
    case (Some a)
    obtain u p i where
      "shape s lst l = Some (Some \<lparr>At = midnight l (series_day (day_of a) c u i), Precision = p\<rparr>)"
      "since_day s lst l < series_day (day_of a) c u i"
      by (rule shape_anchored [OF assms(1-3) Some assms(4)]) (rule that)
    with assms(1,5) show ?thesis by auto
  qed
  then show "since_day s lst l < day_of (At occ)" "tloc (At occ) = l" by auto
qed

section \<open>The search ends in every zone\<close>

text \<open>Every location of the zone database has bounded offsets: it is a list of changes, and then a rule
  that repeats.  A location with a clock change at midnight, which does not keep dates, has them too.\<close>

definition finite_offsets :: "location \<Rightarrow> bool" where
  "finite_offsets l \<longleftrightarrow> (\<exists>B. \<forall>s. \<bar>utc_offset l s\<bar> \<le> B)"

lemma resolve_late:
  assumes "\<And>s. \<bar>utc_offset l s\<bar> \<le> B"
  shows "w - B \<le> zone_resolve l w" "s - B - 86399 \<le> 86400 * local_day l s"
proof -
  have "0 \<le> B" using assms [of 0] by linarith
  then show "w - B \<le> zone_resolve l w"
    using assms [of "w - utc_offset l w"] by (auto simp: zone_resolve_def Let_def abs_le_iff)
  have "wall l s - 86399 \<le> 86400 * (wall l s div 86400)"
    using mult_div_mod_eq [of 86400 "wall l s"] pos_mod_bound [of 86400 "wall l s"] by linarith
  then show "s - B - 86399 \<le> 86400 * local_day l s"
    using assms [of s] by (simp add: local_day_def wall_def abs_le_iff)
qed

lemma on_day_late:
  assumes "\<And>s. \<bar>utc_offset (tloc t) s\<bar> \<le> B"
  shows "86400 * n - B \<le> unix_sec (on_day t n)"
  using resolve_late(1) [OF assms, of "n * 86400 + wall (tloc t) (unix_sec t) mod 86400"]
    pos_mod_sign [of 86400 "wall (tloc t) (unix_sec t)"] by (simp add: on_day_simps)

lemma addMonths_late:
  assumes b: "\<And>s. \<bar>utc_offset (tloc t) s\<bar> \<le> B"
  shows "86400 * month_start (month_of_day (day_of t) + j) - (3 * B + 31 * 86400) \<le> unix_sec (addMonths t j)"
proof -
  let ?l = "tloc t"
  obtain y m d where c: "civil_of_days (day_of t) = (y, m, d)" by (cases "civil_of_days (day_of t)") auto
  obtain h mi s where clk: "Clock t = (h, mi, s)" by (cases "Clock t") auto
  define k where "k = month_of_day (day_of t) + j"
  have "12 * y + (m + j) - 1 = k" using civil_month_of_day(1) [OF c] by (simp add: k_def)
  then have first: "mk_Date y (m + j) 1 0 0 0 0 ?l = midnight ?l (month_start k)"
    by (simp only: mk_Date_midnight days_of_date_month_start) simp
  define F where "F = local_day ?l (day_start ?l (month_start k))"
  obtain Y M D where F: "civil_of_days F = (Y, M, D)" by (cases "civil_of_days F") auto
  have dt: "Date_of t = (y, m, d)" by (simp add: Date_of_def c)
  have ym: "Year (midnight ?l (month_start k)) = Y" "Month (midnight ?l (month_start k)) = M"
    by (simp_all add: Year_def Month_def Date_of_def F_def [symmetric] F)
  define d' where "d' = (if Day_of (AddDate (midnight ?l (month_start k)) 0 1 (-1)) < d
      then Day_of (AddDate (midnight ?l (month_start k)) 0 1 (-1)) else d)"
  have "1 \<le> Day_of x" for x using civil_month_of_day(3) by (cases "Date_of x") (auto simp: Day_of_def Date_of_def)
  then have d': "1 \<le> d'" using civil_month_of_day(3) [OF c] by (simp add: d'_def)
  have "days_of_date Y M d' = month_start (month_of_day F) + (d' - 1)"
    using civil_month_of_day(1) [OF F] by (simp add: days_of_date_month_start)
  moreover have "F < month_start (month_of_day F) + 31"
    using month_of_day_bounds(2) [of F] month_len_bounds(2) [of "month_of_day F"] by (simp add: month_start_Suc)
  ultimately have n: "F - 30 \<le> days_of_date Y M d'" using d' by simp
  have "addMonths t j = on_day t (days_of_date Y M d')"
    by (simp add: addMonths_def dt clk first Let_def ym d'_def mk_Date_on_day [OF clk])
  moreover have "86400 * month_start k - 2 * B - 86399 \<le> 86400 * F"
    using resolve_late(1) [OF b, of "month_start k * 86400"] resolve_late(2) [OF b, of "day_start ?l (month_start k)"]
    by (simp add: F_def day_start_def)
  ultimately show ?thesis using on_day_late [OF b, of "days_of_date Y M d'"] n by (simp add: k_def)
qed

lemma advance_late:
  assumes b: "\<And>s. \<bar>utc_offset (tloc t) s\<bar> \<le> B" and "known_unit u" "0 < c" "0 \<le> k"
  shows "\<exists>at. advance t c u k = Some at \<and> 86400 * (day_of t + k) - (3 * B + 62 * 86400) \<le> unix_sec at"
proof -
  have B: "0 \<le> B" using b [of 0] by linarith
  have day: "86400 * (day_of t + k) - B \<le> unix_sec (on_day t (series_day (day_of t) c u k))"
    using on_day_late [OF b, of "series_day (day_of t) c u k"] series_day_ge [OF assms(3,4), of "day_of t" u] by simp
  have month: "86400 * month_add (day_of t) j - (3 * B + 62 * 86400) \<le> unix_sec (addMonths t j)" for j
    using addMonths_late [OF b, of j] month_add_bounds(2) [of "day_of t" j]
      month_len_bounds(2) [of "month_of_day (day_of t) + j"] by (simp add: month_start_Suc)
  from assms(2) show ?thesis
  proof (cases rule: known_unit_cases)
    case 1
    with day B show ?thesis by (simp add: advance_def AddDate_days series_day_def)
  next
    case 2
    with day B show ?thesis by (simp add: advance_def AddDate_days series_day_def)
  next
    case 3
    with month [of "c * k"] series_day_ge [OF assms(3,4), of "day_of t" u] show ?thesis
      by (simp add: advance_def series_day_def)
  next
    case 4
    with month [of "12 * (c * k)"] series_day_ge [OF assms(3,4), of "day_of t" u] show ?thesis
      by (simp add: advance_def series_day_def)
  qed
qed

lemma anchored_search_ends:
  assumes "finite_offsets (tloc t)" "known_unit u" "0 < c" "0 \<le> k"
  shows "\<exists>at. anchored_search t since c u k = Some at"
proof -
  obtain B where b: "\<bar>utc_offset (tloc t) s\<bar> \<le> B" for s using assms(1) by (auto simp: finite_offsets_def)
  define K where "K = \<bar>day_of t\<bar> + \<bar>nsec since\<bar> + 3 * \<bar>B\<bar> + 63 * 86400"
  have far: "\<exists>at. advance t c u i = Some at \<and> (K \<le> i \<longrightarrow> After at since)" if i: "0 \<le> i" for i
  proof -
    obtain at where at: "advance t c u i = Some at" "86400 * (day_of t + i) - (3 * B + 62 * 86400) \<le> unix_sec at"
      using advance_late [OF b assms(2,3) i] by blast
    have "nsec since < nsec at" if "K \<le> i"
    proof -
      have "\<bar>nsec since\<bar> < unix_sec at" using at(2) that by (simp add: K_def)
      also have "unix_sec at * sec_ns \<le> nsec at"
        using mult_div_mod_eq [of sec_ns "nsec at"] pos_mod_sign [of sec_ns "nsec at"] by (simp add: unix_sec_def)
      finally show ?thesis by linarith
    qed
    with at(1) show ?thesis by (auto simp: After_def)
  qed
  from assms(4) show ?thesis
  proof (induction "nat (K - k)" arbitrary: k rule: less_induct)
    case (less k)
    obtain at where at: "advance t c u k = Some at" "K \<le> k \<longrightarrow> After at since" using far [OF less.prems] by blast
    show ?case
    proof (cases "After at since")
      case True
      then show ?thesis by (subst anchored_search.simps) (simp add: at(1))
    next
      case False
      with at(2) have "nat (K - (k + 1)) < nat (K - k)" by auto
      from less.hyps [OF this] less.prems False show ?thesis by (subst anchored_search.simps) (simp add: at(1))
    qed
  qed
qed

lemma firstStep_defined: "known_unit u \<Longrightarrow> 0 < c \<Longrightarrow> \<exists>k. firstStep a b c u = Some k \<and> 0 \<le> k"
  by (cases u rule: known_unit_cases) (auto simp: firstStep_def Let_def quot_def pos_imp_zdiv_nonneg_iff)

lemma shape_returns:
  assumes "finite_offsets l" "care_schedule_checks s"
  shows "\<exists>r. shape s lst l = Some r \<and> (r = None \<longleftrightarrow> spent s lst)"
proof (cases "override_of lst")
  case (Some k)
  then obtain e where "lst = Some e" "ce_OverrideIntervalDays e = Some k" by (cases lst) auto
  then show ?thesis using shape_override [of e k s l] by (auto simp: spent_def)
next
  case None
  have unit: "\<exists>u. cs_IntervalUnit s = Some u \<and> known_unit u \<and> 0 < c" if "cs_IntervalCount s = Some c" for c
    using assms(2) that by (auto simp: care_schedule_checks_def known_unit_def)
  have precision: "\<exists>p. cs_AnchorPrecision s = Some p" if "cs_AnchorDate s = Some a" for a
    using assms(2) that by (auto simp: care_schedule_checks_def)
  show ?thesis
  proof (cases "cs_AnchorDate s")
    case anchor: None
    then obtain c where c: "cs_IntervalCount s = Some c"
      using assms(2) by (auto simp: care_schedule_checks_def)
    with unit obtain u where u: "cs_IntervalUnit s = Some u" "known_unit u" by blast
    from u(2) show ?thesis
      by (cases rule: known_unit_cases)
        (use c u(1) anchor None in \<open>simp_all add: shape_def override_pair spent_def advance_def\<close>)
  next
    case anchor: (Some a)
    then obtain p where p: "cs_AnchorPrecision s = Some p" using precision by blast
    show ?thesis
    proof (cases "cs_IntervalCount s")
      case count: None
      then show ?thesis using anchor p None
        by (auto simp: shape_def override_pair spent_def split: option.splits)
    next
      case count: (Some c)
      then obtain u where u: "cs_IntervalUnit s = Some u" "known_unit u" "0 < c" using unit by blast
      let ?a = "anchorDay a l" and ?b = "dayOf (In_loc (case lst of None \<Rightarrow> cs_SetAt s | Some e \<Rightarrow> ce_PerformedAt e) l) l"
      obtain k where k: "firstStep ?a ?b c u = Some k" "0 \<le> k" using firstStep_defined [OF u(2,3)] by blast
      have "finite_offsets (tloc ?a)" using assms(1) by (simp add: anchorDay_midnight)
      then obtain at where "anchored_search ?a ?b c u k = Some at" using anchored_search_ends [OF _ u(2,3) k(2)] by blast
      then show ?thesis using anchor count u(1) p None k(1)
        by (simp add: shape_def override_pair spent_def)
    qed
  qed
qed

lemma Next_returns:
  assumes "finite_offsets (tloc now)" "care_schedule_checks s"
  shows "\<exists>r. Next s lst now = Some r \<and> (r = None \<longleftrightarrow> spent s lst \<or> season_closed s now)"
proof -
  obtain r where r: "shape s lst (tloc now) = Some r" "r = None \<longleftrightarrow> spent s lst"
    using shape_returns [OF assms] by blast
  have season: "\<exists>en. cs_SeasonEndMonth s = Some en" "\<not> spent s lst" if "cs_SeasonStartMonth s = Some st" for st
    using assms(2) that by (auto simp: care_schedule_checks_def spent_def)
  show ?thesis
  proof (cases "cs_SeasonStartMonth s")
    case None
    with r show ?thesis by (simp add: Next_unseasoned season_closed_def)
  next
    case (Some st)
    with season obtain en where "cs_SeasonEndMonth s = Some en" "\<not> spent s lst" by blast
    with Some r show ?thesis by (cases r) (auto simp: Next_def Let_def season_closed_def)
  qed
qed

lemma Next_defined:
  assumes "keeps_dates (tloc now)" "schedule_wf s"
  shows "\<exists>r. Next s lst now = Some r \<and> (r = None \<longleftrightarrow> spent s lst \<or> season_closed s now)"
proof (cases "cs_SeasonStartMonth s")
  case None
  obtain r where "shape s lst (tloc now) = Some r" "(r = None) = spent s lst"
    by (rule shape_total [OF assms]) (rule that)
  with None show ?thesis by (simp add: Next_unseasoned season_closed_def)
next
  case (Some st)
  obtain en occ where "cs_SeasonEndMonth s = Some en"
    "Next s lst now = Some (if \<not> inSeason (Month now) st en then None
       else if Before (At occ) (lastOpening now st) then Some (occ\<lparr>At := lastOpening now st\<rparr>)
       else if \<not> inSeason (Month (At occ)) st en then Some (occ\<lparr>At := nextOpening (At occ) st\<rparr>)
       else Some occ)"
    by (rule Next_seasoned [OF assms Some, of lst]) (rule that)
  moreover have "\<not> spent s lst" using assms(2) Some by (auto simp: spent_def schedule_wf_iff)
  ultimately show ?thesis by (simp add: season_closed_def Some)
qed

text \<open>Two rows for the witnesses: an anchored series, the 31st of January 2026 and monthly, and a
  ten-day cadence from March to September, both set on 2026-01-01.\<close>

definition ex_anchored :: care_schedule where
  "ex_anchored = zero_CareSchedule\<lparr>cs_IntervalCount := Some 1, cs_IntervalUnit := Some ''month'',
     cs_AnchorDate := Some (mk_Date 2026 1 31 0 0 0 0 utc), cs_AnchorPrecision := Some ''day'',
     cs_SetAt := mk_Date 2026 1 1 9 0 0 0 utc\<rparr>"

definition ex_cadence :: care_schedule where
  "ex_cadence = zero_CareSchedule\<lparr>cs_IntervalCount := Some 10, cs_IntervalUnit := Some ''day'',
     cs_SeasonStartMonth := Some 3, cs_SeasonEndMonth := Some 9,
     cs_SetAt := mk_Date 2026 1 1 9 0 0 0 utc\<rparr>"

definition ex_now :: gotime where
  "ex_now = mk_Date 2026 3 2 12 0 0 0 utc"

lemma ex_rows:
  "schedule_wf ex_anchored" "schedule_wf ex_cadence" "keeps_dates (tloc ex_now)"
  "care_schedule_checks ex_anchored" "care_schedule_checks ex_cadence" "season_months ex_cadence"
  by (simp_all add: schedule_wf_iff care_schedule_checks_def season_months_def ex_anchored_def ex_cadence_def row_simps ex_now_def
      mk_Date_def Let_def utc_zone.keeps_dates_axioms)

lemma ex_Next_cadence:
  "\<exists>occ. Next ex_cadence None ex_now = Some (Some occ) \<and>
    nsec (At occ) = nsec (mk_Date 2026 3 1 0 0 0 0 utc)"
proof -
  have "map_option (map_option (\<lambda>occ. nsec (At occ))) (Next ex_cadence None ex_now)
      = Some (Some (nsec (mk_Date 2026 3 1 0 0 0 0 utc)))"
    by code_simp
  then show ?thesis by auto
qed

section \<open>Properties\<close>

text \<open>
  (C10) In a location that keeps dates, a schedule with an anchor and an interval, whose last care
  set no interval of its own, falls due on the earliest date of its series later than the last
  care.  The series is the anchor's day plus whole intervals, with the day of the month clamped
  to the target month, and "later" compares calendar days in the reader's location.  The search
  that starts at \<open>firstStep\<close> instead of at the anchor finds the same date as a search of
  every step would, and it ends.
\<close>

theorem Next_anchored_earliest:
  assumes "keeps_dates (tloc now)" "care_schedule_checks s" "override_of lst = None"
    and "cs_AnchorDate s = Some a" "cs_IntervalCount s = Some c" "cs_IntervalUnit s = Some u"
    and "cs_AnchorPrecision s = Some p"
  shows "\<exists>i\<ge>0. Next s lst now =
        Some (Some \<lparr>At = midnight (tloc now) (series_day (day_of a) c u i), Precision = p\<rparr>)
      \<and> since_day s lst (tloc now) < series_day (day_of a) c u i
      \<and> (\<forall>j. 0 \<le> j \<longrightarrow> j < i \<longrightarrow> series_day (day_of a) c u j \<le> since_day s lst (tloc now))"
proof -
  obtain u' p' i where "cs_IntervalUnit s = Some u'" "cs_AnchorPrecision s = Some p'" "0 \<le> i"
    "shape s lst (tloc now)
      = Some (Some \<lparr>At = midnight (tloc now) (series_day (day_of a) c u' i), Precision = p'\<rparr>)"
    "since_day s lst (tloc now) < series_day (day_of a) c u' i"
    "\<And>j. 0 \<le> j \<Longrightarrow> j < i \<Longrightarrow> series_day (day_of a) c u' j \<le> since_day s lst (tloc now)"
    by (rule shape_anchored [OF assms(1) anchored_wf [OF assms(2,4)] assms(3-5)]) (rule that)
  moreover have "cs_SeasonStartMonth s = None"
    using assms(2,4) by (auto simp: care_schedule_checks_def)
  ultimately show ?thesis using assms(6,7) by (auto simp: Next_unseasoned)
qed

theorem Next_anchored_earliest_witness:
  "schedule_wf ex_anchored \<and>
   (\<exists>i\<ge>0. Next ex_anchored None ex_now =
        Some (Some \<lparr>At = midnight utc (series_day (day_of (mk_Date 2026 1 31 0 0 0 0 utc)) 1 ''month'' i),
          Precision = ''day''\<rparr>))"
proof -
  have "cs_AnchorDate ex_anchored = Some (mk_Date 2026 1 31 0 0 0 0 utc)"
    "cs_IntervalCount ex_anchored = Some 1" "cs_IntervalUnit ex_anchored = Some ''month''"
    "cs_AnchorPrecision ex_anchored = Some ''day''" "tloc ex_now = utc"
    by (simp_all add: ex_anchored_def row_simps ex_now_def mk_Date_def Let_def)
  with Next_anchored_earliest [OF ex_rows(3,4), of None "mk_Date 2026 1 31 0 0 0 0 utc" 1 "''month''" "''day''"]
    ex_rows(1) show ?thesis by auto
qed

text \<open>
  (C6) For every row that passes the schema's checks, in every location with bounded offsets,
  \<open>Next\<close> returns: it neither panics on a nil column or an unknown unit nor searches forever.
  The months of a season may be any numbers.  \<open>Next\<close> has nothing to produce exactly for a one-off
  that care after its setting has spent, and for a cadence whose season is closed now.
\<close>

theorem Next_total:
  assumes "finite_offsets (tloc now)" "care_schedule_checks s"
  shows "\<exists>r. Next s lst now = Some r \<and> (r = None \<longleftrightarrow> spent s lst \<or> season_closed s now)"
  by (rule Next_returns [OF assms])

theorem Next_total_witness:
  "\<exists>r. Next ex_anchored None (In_loc ex_now (one_change ''Atlantic/Azores'' 1774746000 (-3600) 0)) = Some r \<and>
    (r = None \<longleftrightarrow> spent ex_anchored None
      \<or> season_closed ex_anchored (In_loc ex_now (one_change ''Atlantic/Azores'' 1774746000 (-3600) 0)))"
proof -
  have "finite_offsets (tloc (In_loc ex_now (one_change ''Atlantic/Azores'' 1774746000 (-3600) 0)))"
    by (auto simp: finite_offsets_def one_change_def intro!: exI [of _ 3600])
  from Next_total [OF this ex_rows(4)] show ?thesis .
qed

text \<open>
  A schedule with a season only ever produces dates inside it: when \<open>Next\<close> produces a
  date the season is open now, the date's month is in the season, and the date is not before
  the opening of the current season, so nothing dated in the closed months shows as overdue.
\<close>

theorem Next_in_season:
  assumes "keeps_dates (tloc now)" "schedule_wf s"
    and "cs_SeasonStartMonth s = Some st" "cs_SeasonEndMonth s = Some en"
    and "Next s lst now = Some (Some occ)"
  shows "inSeason (Month now) st en \<and> inSeason (Month (At occ)) st en
    \<and> \<not> Before (At occ) (lastOpening now st)"
proof -
  obtain en' o' where "cs_SeasonEndMonth s = Some en'" and o': "tloc (At o') = tloc now"
    and st: "1 \<le> st" "st \<le> 12"
    and n: "Next s lst now = Some (if \<not> inSeason (Month now) st en' then None
       else if Before (At o') (lastOpening now st) then Some (o'\<lparr>At := lastOpening now st\<rparr>)
       else if \<not> inSeason (Month (At o')) st en' then Some (o'\<lparr>At := nextOpening (At o') st\<rparr>)
       else Some o')"
    by (rule Next_seasoned [OF assms(1-3), of lst]) (rule that)
  with assms(4) have [simp]: "en' = en" by simp
  note m = Month_opening [OF assms(1) st] Month_opening [of "At o'", OF _ st]
  have "\<not> Before (nextOpening (At o') st) (lastOpening now st)"
    if "\<not> Before (At o') (lastOpening now st)"
    using that nextOpening_after [of "At o'" st] st assms(1) o' by (auto simp: Before_def After_def)
  then show ?thesis
    using n assms(1,5) o' st m by (auto simp: Before_def split: if_splits)
qed

theorem Next_in_season_witness:
  "\<exists>occ. Next ex_cadence None ex_now = Some (Some occ) \<and> inSeason (Month ex_now) 3 9
    \<and> inSeason (Month (At occ)) 3 9 \<and> \<not> Before (At occ) (lastOpening ex_now 3)"
proof -
  obtain occ where "Next ex_cadence None ex_now = Some (Some occ)" using ex_Next_cadence by blast
  moreover have "cs_SeasonStartMonth ex_cadence = Some 3" "cs_SeasonEndMonth ex_cadence = Some 9"
    by (simp_all add: ex_cadence_def row_simps)
  ultimately show ?thesis using Next_in_season [OF ex_rows(3,2)] by blast
qed

text \<open>
  Care is never due again on the day it was given: with an interval and no override, the
  date \<open>Next\<close> produces is on a later calendar day than the last care, or than the day the
  schedule was set when there has been none, and the season only moves it later still.
\<close>

theorem Next_after_last_care:
  assumes "keeps_dates (tloc now)" "schedule_wf s" "override_of lst = None"
    and "cs_IntervalCount s = Some c" "Next s lst now = Some (Some occ)"
  shows "since_day s lst (tloc now) < day_of (At occ)"
proof (cases "cs_SeasonStartMonth s")
  case None
  with assms(5) shape_interval_later [OF assms(1-4)] show ?thesis by (simp add: Next_unseasoned)
next
  case (Some st)
  obtain en o' where o': "shape s lst (tloc now) = Some (Some o')" and st: "1 \<le> st" "st \<le> 12"
    and n: "Next s lst now = Some (if \<not> inSeason (Month now) st en then None
       else if Before (At o') (lastOpening now st) then Some (o'\<lparr>At := lastOpening now st\<rparr>)
       else if \<not> inSeason (Month (At o')) st en then Some (o'\<lparr>At := nextOpening (At o') st\<rparr>)
       else Some o')"
    by (rule Next_seasoned [OF assms(1,2) Some, of lst]) (rule that)
  from opening_day_later [of now "At o'" st] shape_interval_later [OF assms(1-4) o'] assms(1) st n assms(5)
  show ?thesis by (auto split: if_splits)
qed

theorem Next_after_last_care_witness:
  "\<exists>occ. Next ex_cadence None ex_now = Some (Some occ)
    \<and> since_day ex_cadence None (tloc ex_now) < day_of (At occ)"
proof -
  obtain occ where occ: "Next ex_cadence None ex_now = Some (Some occ)" using ex_Next_cadence by blast
  moreover have "cs_IntervalCount ex_cadence = Some 10"
    by (simp add: ex_cadence_def row_simps)
  ultimately show ?thesis using Next_after_last_care [OF ex_rows(3,2) _ _ occ, of 10] by simp
qed

text \<open>
  \<open>DaysBetween\<close> counts calendar days in the second instant's location, whatever the
  clock changes between the two, and saturates at the 106751 days that fit a 64-bit duration.
\<close>

theorem DaysBetween_calendar:
  "DaysBetween from to =
    max (-106751) (min 106751 (day_of to - local_day (tloc to) (unix_sec from)))"
  by (rule DaysBetween_days)

end
