(* ===== verification/Schedule_Today.thy ===== *)
theory Schedule_Today
  imports Schedule_Next
begin

text \<open>
  What is due today: \<open>src/internal/schedule/today.go\<close>.  \<open>Resolve\<close> turns the garden's schedules
  into lines, each with its state relative to the reader's day; \<open>Today\<close> groups the lines by
  plant and the plants into the sections of the Today page; \<open>Nearest\<close> picks a plant's most
  pressing line.  \<open>strings.ToLower\<close> is the parameter \<open>lower\<close>: nothing here depends on the
  Unicode case tables.

  The lemmas show that a line's state is the comparison of two calendar days, that \<open>rows\<close>
  makes one row for each plant (\<open>plant_row\<close>, the reference definition), and that the sections
  are a sorted partition of those rows.
\<close>

section \<open>Definitions\<close>

datatype line_state = Overdue | DueToday | Upcoming | Dormant | Spent

text \<open>The constants are numbered from 0 in the order of their declaration.\<close>

primrec state_rank :: "line_state \<Rightarrow> int" where
  "state_rank Overdue = 0"
| "state_rank DueToday = 1"
| "state_rank Upcoming = 2"
| "state_rank Dormant = 3"
| "state_rank Spent = 4"

lemma state_rank_inject: "state_rank a = state_rank b \<longleftrightarrow> a = b"
  by (cases a; cases b) simp_all

instantiation line_state :: linorder
begin

definition less_eq_line_state :: "line_state \<Rightarrow> line_state \<Rightarrow> bool" where
  "a \<le> b \<longleftrightarrow> state_rank a \<le> state_rank b"

definition less_line_state :: "line_state \<Rightarrow> line_state \<Rightarrow> bool" where
  "a < b \<longleftrightarrow> state_rank a < state_rank b"

instance
  by standard (auto simp: less_eq_line_state_def less_line_state_def state_rank_inject)

end

record schedule_row =
  sr_CareSchedule :: care_schedule
  sr_Plant :: plant
  sr_CareType :: care_type

record line =
  ln_Schedule :: care_schedule
  ln_Plant :: plant
  ln_CareType :: care_type
  ln_Last :: "care_event option"
  ln_State :: line_state
  ln_Due :: gotime
  ln_Precision :: string
  ln_Days :: int

record row =
  rw_Plant :: plant
  rw_Care :: line
  rw_Lines :: "line list"

record day =
  dy_Overdue :: "row list"
  dy_DueToday :: "row list"
  dy_ComingUp :: "row list"
  dy_Next :: "row list"

definition state :: "gotime \<Rightarrow> gotime \<Rightarrow> string \<Rightarrow> line_state" where
  "state today due precision =
     (let finish = (if precision = ''month'' then AddDate due 0 1 0 else AddDate due 0 0 1) in
      if Before today due then Upcoming
      else if Before today finish then DueToday
      else Overdue)"

definition latest_map :: "care_event list \<Rightarrow> uuid \<times> uuid \<Rightarrow> care_event option" where
  "latest_map latest = foldl (\<lambda>m e. m((ce_PlantID e, ce_CareTypeID e) \<mapsto> e)) Map.empty latest"

definition resolve_line ::
  "(uuid \<times> uuid \<Rightarrow> care_event option) \<Rightarrow> gotime \<Rightarrow> schedule_row \<Rightarrow> line option" where
  "resolve_line lst now r =
     (let l = tloc now; today = dayOf now l; s = sr_CareSchedule r;
          e = lst (cs_PlantID s, cs_CareTypeID s);
          line = \<lparr>ln_Schedule = s, ln_Plant = sr_Plant r, ln_CareType = sr_CareType r, ln_Last = e,
                  ln_State = Overdue, ln_Due = zero_time, ln_Precision = '''', ln_Days = 0\<rparr>
      in (case Next s e now of
            None \<Rightarrow> None
          | Some (Some occ) \<Rightarrow>
              (let due = dayOf (At occ) l in
               Some (line\<lparr>ln_Due := due, ln_Precision := Precision occ,
                      ln_Days := DaysBetween today due, ln_State := state today due (Precision occ)\<rparr>))
          | Some None \<Rightarrow>
              if cs_SeasonStartMonth s \<noteq> None then Some (line\<lparr>ln_State := Dormant\<rparr>)
              else Some (line\<lparr>ln_State := Spent\<rparr>)))"

definition Resolve :: "schedule_row list \<Rightarrow> care_event list \<Rightarrow> gotime \<Rightarrow> line list option" where
  "Resolve schedules latest now = those (map (resolve_line (latest_map latest) now) schedules)"

definition comingUpDays :: int where "comingUpDays = 7"

definition ComingUp :: "line \<Rightarrow> bool" where
  "ComingUp l \<longleftrightarrow> ln_State l = Upcoming \<and> ln_Days l \<le> comingUpDays"

definition soon :: "line \<Rightarrow> int" where
  "soon l = (if ln_State l = DueToday then 0 else ln_Days l)"

definition compareLines :: "line \<Rightarrow> line \<Rightarrow> int" where
  "compareLines a b = cmp_Or (cmp_Compare (ln_State a) (ln_State b)) (cmp_Compare (soon a) (soon b))"

definition CompareDue :: "(string \<Rightarrow> string) \<Rightarrow> line \<Rightarrow> line \<Rightarrow> int" where
  "CompareDue lower a b =
     cmp_Or (cmp_Compare (soon a) (soon b))
       (cmp_Or (strings_Compare (lower (DisplayName (ln_Plant a))) (lower (DisplayName (ln_Plant b))))
          (strings_Compare (pl_ID (ln_Plant a)) (pl_ID (ln_Plant b))))"

definition compareRows :: "(string \<Rightarrow> string) \<Rightarrow> row \<Rightarrow> row \<Rightarrow> int" where
  "compareRows lower a b = CompareDue lower (rw_Care a) (rw_Care b)"

text \<open>One turn of the loop of \<open>rows\<close>: the rows made so far, and where each plant's row is.\<close>

definition rows_step ::
  "row list \<times> (uuid \<Rightarrow> nat option) \<Rightarrow> line \<Rightarrow> row list \<times> (uuid \<Rightarrow> nat option)" where
  "rows_step st l =
     (case st of (out, at) \<Rightarrow>
        let pid = pl_ID (ln_Plant l);
            (i, out, at) =
              (case at pid of
                 Some i \<Rightarrow> (i, out, at)
               | None \<Rightarrow> (length out, out @ [\<lparr>rw_Plant = ln_Plant l, rw_Care = l, rw_Lines = []\<rparr>],
                          at(pid \<mapsto> length out)));
            r = out ! i;
            r = r\<lparr>rw_Lines := rw_Lines r @ [l]\<rparr>;
            r = (if compareLines l (rw_Care r) < 0 then r\<lparr>rw_Care := l\<rparr> else r)
        in (out[i := r], at))"

definition rows :: "line list \<Rightarrow> row list" where
  "rows ls = filter (\<lambda>r. \<not> Dormant \<le> ln_State (rw_Care r))
     (fst (foldl rows_step ([], Map.empty) ls))"

fun group_rows :: "row list \<Rightarrow> day \<times> row list \<Rightarrow> day \<times> row list" where
  "group_rows [] (d, later) = (d, later)"
| "group_rows (r # rs) (d, later) =
     group_rows rs
       (if ln_State (rw_Care r) = Overdue then (d\<lparr>dy_Overdue := dy_Overdue d @ [r]\<rparr>, later)
        else if ln_State (rw_Care r) = DueToday then (d\<lparr>dy_DueToday := dy_DueToday d @ [r]\<rparr>, later)
        else if ComingUp (rw_Care r) then (d\<lparr>dy_ComingUp := dy_ComingUp d @ [r]\<rparr>, later)
        else (d, later @ [r]))"

definition Today :: "(string \<Rightarrow> string) \<Rightarrow> line list \<Rightarrow> day" where
  "Today lower ls =
     (let (d, later) = group_rows (rows ls)
            (\<lparr>dy_Overdue = [], dy_DueToday = [], dy_ComingUp = [], dy_Next = []\<rparr>, []);
          later = SortStableFunc (compareRows lower) later
      in \<lparr>dy_Overdue = SortStableFunc (compareRows lower) (dy_Overdue d),
          dy_DueToday = SortStableFunc (compareRows lower) (dy_DueToday d),
          dy_ComingUp = SortStableFunc (compareRows lower) (dy_ComingUp d),
          dy_Next = takeWhile (\<lambda>r. soon (rw_Care r) = soon (rw_Care (later ! 0))) later\<rparr>)"

definition best_line :: "line \<Rightarrow> line list \<Rightarrow> line" where
  "best_line best ls = foldl (\<lambda>best l. if compareLines l best < 0 then l else best) best ls"

fun Nearest :: "line list \<Rightarrow> line option" where
  "Nearest [] = None"
| "Nearest (l # ls) = Some (best_line l ls)"

section \<open>The comparisons meet the sort's contract\<close>

interpretation compare_lines: comparison compareLines
  unfolding compareLines_def by (rule comparison_Or [OF comparison_key comparison_key])

interpretation compare_due: comparison "CompareDue lower" for lower
  unfolding CompareDue_def
  by (rule comparison_Or [OF comparison_key comparison_Or [OF comparison_strings_key comparison_strings_key]])

interpretation compare_rows: comparison "compareRows lower" for lower
  unfolding compareRows_def
  by unfold_locales (use compare_due.total compare_due.trans compare_due.swap in blast)+

section \<open>The most pressing line\<close>

lemma best_line_member: "best_line b ls \<in> insert b (set ls)"
  unfolding best_line_def by (induction ls arbitrary: b) auto

lemma best_line_least: "l \<in> insert b (set ls) \<Longrightarrow> compareLines (best_line b ls) l \<le> 0"
  unfolding best_line_def
proof (induction ls arbitrary: b l)
  case Nil
  then show ?case using compare_lines.refl by simp
next
  case (Cons x xs)
  let ?b = "if compareLines x b < 0 then x else b"
  have b: "compareLines ?b b \<le> 0" "compareLines ?b x \<le> 0"
    using compare_lines.refl compare_lines.not_less [of x b] by auto
  from Cons.prems consider "l = b" | "l = x" | "l \<in> set xs" by auto
  then show ?case
  proof cases
    case 1
    then show ?thesis using compare_lines.trans [OF Cons.IH [of ?b ?b] b(1)] by simp
  next
    case 2
    then show ?thesis using compare_lines.trans [OF Cons.IH [of ?b ?b] b(2)] by simp
  next
    case 3
    then show ?thesis using Cons.IH [of l ?b] by simp
  qed
qed

lemma best_line_snoc:
  "best_line b (ls @ [l]) = (if compareLines l (best_line b ls) < 0 then l else best_line b ls)"
  by (simp add: best_line_def)

section \<open>One row for each plant\<close>

text \<open>The reference definition: the plants in the order they first appear, each with all its
  lines and the most pressing one.\<close>

abbreviation line_pid :: "line \<Rightarrow> uuid" where "line_pid l \<equiv> pl_ID (ln_Plant l)"

definition lines_of :: "line list \<Rightarrow> uuid \<Rightarrow> line list" where
  "lines_of ls p = filter (\<lambda>l. line_pid l = p) ls"

definition plant_ids :: "line list \<Rightarrow> uuid list" where
  "plant_ids ls = foldl (\<lambda>ps l. if line_pid l \<in> set ps then ps else ps @ [line_pid l]) [] ls"

definition plant_row :: "line list \<Rightarrow> uuid \<Rightarrow> row" where
  "plant_row ls p =
     (let own = lines_of ls p
      in \<lparr>rw_Plant = ln_Plant (hd own), rw_Care = best_line (hd own) (tl own), rw_Lines = own\<rparr>)"

lemma plant_ids_snoc:
  "plant_ids (ls @ [l]) =
    (if line_pid l \<in> set (plant_ids ls) then plant_ids ls else plant_ids ls @ [line_pid l])"
  by (simp add: plant_ids_def)

lemma set_plant_ids: "set (plant_ids ls) = line_pid ` set ls"
  by (induction ls rule: rev_induct) (auto simp: plant_ids_snoc, simp add: plant_ids_def)

lemma distinct_plant_ids: "distinct (plant_ids ls)"
  by (induction ls rule: rev_induct) (auto simp: plant_ids_snoc, simp add: plant_ids_def)

lemma lines_of_snoc [simp]:
  "lines_of (ls @ [l]) p = (if line_pid l = p then lines_of ls p @ [l] else lines_of ls p)"
  by (simp add: lines_of_def)

lemma lines_of_empty: "lines_of ls p = [] \<longleftrightarrow> p \<notin> set (plant_ids ls)"
  by (auto simp: lines_of_def set_plant_ids filter_empty_conv)

lemma plant_row_snoc:
  "p \<in> set (plant_ids ls) \<Longrightarrow> plant_row (ls @ [l]) p =
    (if line_pid l = p then
       (let r = plant_row ls p; r = r\<lparr>rw_Lines := rw_Lines r @ [l]\<rparr>
        in if compareLines l (rw_Care r) < 0 then r\<lparr>rw_Care := l\<rparr> else r)
     else plant_row ls p)"
  using lines_of_empty [of ls p]
  by (auto simp: plant_row_def Let_def best_line_snoc hd_append tl_append split: list.split)

text \<open>The loop's state after any number of lines: the reference rows, and each plant's index.\<close>

lemma rows_step_seen:
  assumes "at (line_pid l) = Some i" "i < length out"
  shows "rows_step (out, at) l =
    (out[i := (let r = out ! i; r = r\<lparr>rw_Lines := rw_Lines r @ [l]\<rparr>
               in if compareLines l (rw_Care r) < 0 then r\<lparr>rw_Care := l\<rparr> else r)], at)"
  using assms by (simp add: rows_step_def Let_def)

lemma rows_step_new:
  assumes "at (line_pid l) = None"
  shows "rows_step (out, at) l =
    (out @ [\<lparr>rw_Plant = ln_Plant l, rw_Care = l, rw_Lines = [l]\<rparr>], at(line_pid l \<mapsto> length out))"
  using assms compare_lines.not_less [of l l] compare_lines.refl [of l]
  by (simp add: rows_step_def Let_def)

lemma plant_row_new:
  "line_pid l \<notin> set (plant_ids ls) \<Longrightarrow> plant_row (ls @ [l]) (line_pid l) =
    \<lparr>rw_Plant = ln_Plant l, rw_Care = l, rw_Lines = [l]\<rparr>"
  using lines_of_empty [of ls "line_pid l"] by (simp add: plant_row_def best_line_def Let_def)

lemma rows_loop:
  assumes "foldl rows_step ([], Map.empty) ls = (out, at)"
  shows "out = map (plant_row ls) (plant_ids ls)
    \<and> (\<forall>p i. at p = Some i \<longleftrightarrow> i < length (plant_ids ls) \<and> plant_ids ls ! i = p)"
  using assms
proof (induction ls arbitrary: out at rule: rev_induct)
  case Nil
  then show ?case by (auto simp: plant_ids_def)
next
  case (snoc l ls)
  obtain out' at' where st: "foldl rows_step ([], Map.empty) ls = (out', at')"
    by (cases "foldl rows_step ([], Map.empty) ls") auto
  let ?ids = "plant_ids ls" and ?p = "line_pid l"
  have out': "out' = map (plant_row ls) ?ids"
    and at': "\<And>p i. at' p = Some i \<longleftrightarrow> i < length ?ids \<and> ?ids ! i = p"
    using snoc.IH [OF st] by auto
  have step: "rows_step (out', at') l = (out, at)" using snoc.prems st by simp
  show ?case
  proof (cases "?p \<in> set ?ids")
    case True
    then obtain i where i: "i < length ?ids" "?ids ! i = ?p" by (auto simp: in_set_conv_nth)
    then have a: "at' ?p = Some i" using at' by blast
    have "out = out'[i := plant_row (ls @ [l]) ?p]" "at = at'"
      using step rows_step_seen [of at' l i out'] a i True
      by (auto simp: out' plant_row_snoc Let_def)
    moreover have "out'[i := plant_row (ls @ [l]) ?p] = map (plant_row (ls @ [l])) ?ids"
    proof (rule nth_equalityI)
      fix j assume "j < length (out'[i := plant_row (ls @ [l]) ?p])"
      then have j: "j < length ?ids" by (simp add: out')
      show "out'[i := plant_row (ls @ [l]) ?p] ! j = map (plant_row (ls @ [l])) ?ids ! j"
        using j i plant_row_snoc [OF nth_mem [OF j], of l] distinct_plant_ids [of ls]
        by (cases "j = i") (auto simp: out' nth_eq_iff_index_eq)
    qed (simp add: out')
    ultimately show ?thesis using True at' by (simp add: plant_ids_snoc)
  next
    case False
    then have a: "at' ?p = None" using at' [of ?p] by (metis in_set_conv_nth not_None_eq)
    have o: "out = out' @ [plant_row (ls @ [l]) ?p]" "at = at'(?p \<mapsto> length ?ids)"
      using step rows_step_new [of at' l out'] a plant_row_new [OF False] by (auto simp: out')
    have "map (plant_row (ls @ [l])) ?ids = out'"
      using False by (auto simp: out' plant_row_snoc)
    then have "out = map (plant_row (ls @ [l])) (?ids @ [?p])" using o by simp
    moreover
    have nm: "?ids ! i \<noteq> ?p" if "i < length ?ids" for i
      using False nth_mem [OF that] by metis
    have "at p = Some i \<longleftrightarrow> i < length (?ids @ [?p]) \<and> (?ids @ [?p]) ! i = p" for p i
      using at' o(2) nm [of i] by (auto simp: nth_append less_Suc_eq)
    ultimately show ?thesis using False by (simp add: plant_ids_snoc)
  qed
qed

lemma rows_plant_rows:
  "rows ls = filter (\<lambda>r. \<not> Dormant \<le> ln_State (rw_Care r)) (map (plant_row ls) (plant_ids ls))"
  using rows_loop [of ls] by (cases "foldl rows_step ([], Map.empty) ls") (simp add: rows_def)

lemma plant_row_facts:
  assumes "p \<in> set (plant_ids ls)"
  shows "pl_ID (rw_Plant (plant_row ls p)) = p" "rw_Lines (plant_row ls p) = lines_of ls p"
    "rw_Care (plant_row ls p) \<in> set (lines_of ls p)"
    "l \<in> set (lines_of ls p) \<Longrightarrow> compareLines (rw_Care (plant_row ls p)) l \<le> 0"
proof -
  obtain x xs where x: "lines_of ls p = x # xs"
    using assms lines_of_empty [of ls p] by (cases "lines_of ls p") auto
  then have "x \<in> set (lines_of ls p)" by simp
  then show "pl_ID (rw_Plant (plant_row ls p)) = p"
    using x by (simp add: plant_row_def Let_def lines_of_def)
  show "rw_Lines (plant_row ls p) = lines_of ls p" by (simp add: plant_row_def Let_def)
  show "rw_Care (plant_row ls p) \<in> set (lines_of ls p)"
    using best_line_member [of x xs] by (simp add: plant_row_def Let_def x)
  show "l \<in> set (lines_of ls p) \<Longrightarrow> compareLines (rw_Care (plant_row ls p)) l \<le> 0"
    using best_line_least [of l x xs] by (simp add: plant_row_def Let_def x)
qed

section \<open>The sections of the Today page\<close>

definition is_later :: "row \<Rightarrow> bool" where
  "is_later r \<longleftrightarrow> ln_State (rw_Care r) \<noteq> Overdue \<and> ln_State (rw_Care r) \<noteq> DueToday
     \<and> \<not> ComingUp (rw_Care r)"

lemma group_rows_filters:
  "group_rows rs (d, later) =
    (d\<lparr>dy_Overdue := dy_Overdue d @ filter (\<lambda>r. ln_State (rw_Care r) = Overdue) rs,
       dy_DueToday := dy_DueToday d @ filter (\<lambda>r. ln_State (rw_Care r) = DueToday) rs,
       dy_ComingUp := dy_ComingUp d @ filter (\<lambda>r. ComingUp (rw_Care r)) rs\<rparr>,
     later @ filter is_later rs)"
proof (induction rs arbitrary: d later)
  case (Cons r rs)
  then show ?case by (auto simp: is_later_def ComingUp_def)
qed simp

lemma Today_sections:
  "dy_Overdue (Today lower ls) =
     SortStableFunc (compareRows lower) (filter (\<lambda>r. ln_State (rw_Care r) = Overdue) (rows ls))"
  "dy_DueToday (Today lower ls) =
     SortStableFunc (compareRows lower) (filter (\<lambda>r. ln_State (rw_Care r) = DueToday) (rows ls))"
  "dy_ComingUp (Today lower ls) =
     SortStableFunc (compareRows lower) (filter (\<lambda>r. ComingUp (rw_Care r)) (rows ls))"
  by (simp_all add: Today_def group_rows_filters Let_def)

lemma compareRows_soon: "compareRows lower a b \<le> 0 \<Longrightarrow> soon (rw_Care a) \<le> soon (rw_Care b)"
  by (auto simp: compareRows_def CompareDue_def)

text \<open>The rows beyond the week are sorted by how far off they are, so those of the first day
  are a prefix.\<close>

lemma Today_Next_prefix:
  fixes lower ls
  defines "later \<equiv> filter is_later (rows ls)"
  shows "dy_Next (Today lower ls) =
    filter (\<lambda>r. \<forall>r' \<in> set later. soon (rw_Care r) \<le> soon (rw_Care r'))
      (SortStableFunc (compareRows lower) later)"
proof (cases "SortStableFunc (compareRows lower) later")
  case Nil
  then show ?thesis by (simp add: Today_def group_rows_filters Let_def later_def)
next
  case (Cons x xs)
  have sorted: "sorted_by (compareRows lower) (x # xs)"
    using compare_rows.sorted_SortStableFunc [of lower later] Cons by simp
  have least: "soon (rw_Care x) \<le> soon (rw_Care r)" if "r \<in> set later" for r
  proof -
    have "r \<in> set (x # xs)" using that set_SortStableFunc [of "compareRows lower" later] Cons by simp
    then show ?thesis using sorted compareRows_soon [of lower x r] by auto
  qed
  have mem: "x \<in> set later" using set_SortStableFunc [of "compareRows lower" later] Cons by auto
  have "dy_Next (Today lower ls)
      = takeWhile (\<lambda>r. soon (rw_Care r) = soon (rw_Care x)) (x # xs)"
    using Cons by (simp add: Today_def group_rows_filters Let_def later_def)
  also have "\<dots> = takeWhile (\<lambda>r. soon (rw_Care r) \<le> soon (rw_Care x)) (x # xs)"
    by (intro takeWhile_cong) (use least mem set_SortStableFunc [of "compareRows lower" later] Cons in \<open>auto intro: order_antisym\<close>)
  also have "\<dots> = filter (\<lambda>r. soon (rw_Care r) \<le> soon (rw_Care x)) (x # xs)"
    by (rule takeWhile_sorted_filter [OF sorted]) (use compareRows_soon order_trans in blast)
  also have "\<dots> = filter (\<lambda>r. \<forall>r' \<in> set later. soon (rw_Care r) \<le> soon (rw_Care r')) (x # xs)"
    using least mem by (intro filter_cong) force+
  finally show ?thesis using Cons by simp
qed

section \<open>States are comparisons of calendar days\<close>

definition due_state :: "int \<Rightarrow> int \<Rightarrow> string \<Rightarrow> line_state" where
  "due_state today due precision =
     (if today < due then Upcoming
      else if today < (if precision = ''month''
                       then month_start (month_of_day due + 1) + (due - month_start (month_of_day due))
                       else due + 1) then DueToday
      else Overdue)"

lemma state_days:
  assumes "keeps_dates l"
  shows "state (midnight l n) (midnight l n') p = due_state n n' p"
proof -
  obtain y m d where c: "civil_of_days n' = (y, m, d)" by (cases "civil_of_days n'") auto
  have "AddDate (midnight l n') 0 1 0
      = midnight l (month_start (month_of_day n' + 1) + (n' - month_start (month_of_day n')))"
  proof -
    have d: "d - 1 = n' - month_start (month_of_day n')" using civil_month_of_day(2) [OF c] by simp
    show ?thesis using AddDate_midnight [OF assms c, of 0 1 0] by (simp add: d)
  qed
  then show ?thesis
    by (simp add: state_def due_state_def Let_def midnight_compare [OF assms]
        AddDate_midnight_days [OF assms])
qed

text \<open>What \<open>resolve_line\<close> makes of one schedule.\<close>

lemma resolve_line_next:
  assumes "keeps_dates (tloc now)"
    and "Next (sr_CareSchedule r) (lst (cs_PlantID (sr_CareSchedule r), cs_CareTypeID (sr_CareSchedule r))) now
      = Some res"
  shows "\<exists>line. resolve_line lst now r = Some line \<and> ln_Schedule line = sr_CareSchedule r
    \<and> ln_Plant line = sr_Plant r \<and> ln_CareType line = sr_CareType r
    \<and> (case res of
         Some occ \<Rightarrow>
           let due = local_day (tloc now) (unix_sec (At occ)) in
           ln_Due line = midnight (tloc now) due \<and> ln_Precision line = Precision occ
           \<and> ln_Days line = max (-106751) (min 106751 (due - day_of now))
           \<and> ln_State line = due_state (day_of now) due (Precision occ)
       | None \<Rightarrow> ln_State line = (if cs_SeasonStartMonth (sr_CareSchedule r) \<noteq> None then Dormant else Spent))"
  using assms state_days [OF assms(1)]
  by (cases res) (auto simp: resolve_line_def Let_def dayOf_midnight DaysBetween_days)

lemma latest_map_snoc:
  "latest_map (es @ [e]) = (latest_map es)((ce_PlantID e, ce_CareTypeID e) \<mapsto> e)"
  by (simp add: latest_map_def)

lemma latest_map_Some:
  "latest_map es k = Some e \<Longrightarrow> e \<in> set es \<and> (ce_PlantID e, ce_CareTypeID e) = k"
proof (induction es rule: rev_induct)
  case Nil
  then show ?case by (simp add: latest_map_def)
next
  case (snoc x xs)
  show ?case
  proof (cases "k = (ce_PlantID x, ce_CareTypeID x)")
    case True
    with snoc.prems show ?thesis by (simp add: latest_map_snoc)
  next
    case False
    with snoc.prems have "latest_map xs k = Some e" by (simp add: latest_map_snoc)
    with snoc.IH show ?thesis by simp
  qed
qed

lemma those_map_Some:
  "(\<And>x. x \<in> set xs \<Longrightarrow> \<exists>y. f x = Some y) \<Longrightarrow> \<exists>ys. those (map f xs) = Some ys \<and> length ys = length xs
    \<and> (\<forall>i < length xs. f (xs ! i) = Some (ys ! i))"
proof (induction xs)
  case (Cons x xs)
  obtain y where "f x = Some y" using Cons.prems [of x] by auto
  moreover obtain ys where "those (map f xs) = Some ys" "length ys = length xs"
    "\<forall>i < length xs. f (xs ! i) = Some (ys ! i)" using Cons.IH Cons.prems by (metis list.set_intros(2))
  ultimately
  show ?case by (intro exI [of _ "y # ys"]) (auto simp: nth_Cons split: nat.split)
qed simp

section \<open>Which plant is in which section\<close>

lemma rows_iff:
  "r \<in> set (rows ls) \<longleftrightarrow>
    (\<exists>p \<in> set (plant_ids ls). r = plant_row ls p \<and> \<not> Dormant \<le> ln_State (rw_Care r))"
  by (auto simp: rows_plant_rows)

lemma plant_row_id: "p \<in> set (plant_ids ls) \<Longrightarrow> pl_ID (rw_Plant (plant_row ls p)) = p"
  by (rule plant_row_facts(1))

lemma distinct_rows: "distinct (map (\<lambda>r. pl_ID (rw_Plant r)) (rows ls))"
proof -
  have "map (\<lambda>r. pl_ID (rw_Plant r)) (map (plant_row ls) (plant_ids ls)) = plant_ids ls"
    by (simp add: plant_row_id map_idI)
  then have "distinct (map (\<lambda>r. pl_ID (rw_Plant r)) (map (plant_row ls) (plant_ids ls)))"
    by (simp only: distinct_plant_ids)
  then show ?thesis unfolding rows_plant_rows by (rule distinct_map_filter)
qed

text \<open>The state of a plant's most pressing line is the least state of its lines, and within
  that state it is the soonest.\<close>

lemma care_state_least:
  assumes "l \<in> set ls" "line_pid l = p"
  shows "ln_State (rw_Care (plant_row ls p)) \<le> ln_State l"
    "ln_State l = ln_State (rw_Care (plant_row ls p)) \<Longrightarrow> soon (rw_Care (plant_row ls p)) \<le> soon l"
proof -
  have "p \<in> set (plant_ids ls)" "l \<in> set (lines_of ls p)"
    using assms by (auto simp: set_plant_ids lines_of_def)
  then have "compareLines (rw_Care (plant_row ls p)) l \<le> 0" by (rule plant_row_facts(4))
  then show "ln_State (rw_Care (plant_row ls p)) \<le> ln_State l"
    "ln_State l = ln_State (rw_Care (plant_row ls p)) \<Longrightarrow> soon (rw_Care (plant_row ls p)) \<le> soon l"
    by (auto simp: compareLines_def)
qed

lemma care_of_plant:
  assumes "p \<in> set (plant_ids ls)"
  obtains l where "l \<in> set ls" "line_pid l = p" "rw_Care (plant_row ls p) = l"
  using plant_row_facts(3) [OF assms] by (auto simp: lines_of_def)

definition has_line :: "line list \<Rightarrow> uuid \<Rightarrow> (line \<Rightarrow> bool) \<Rightarrow> bool" where
  "has_line ls p P \<longleftrightarrow> (\<exists>l \<in> set ls. line_pid l = p \<and> P l)"

lemma in_section_iff:
  "p \<in> (\<lambda>r. pl_ID (rw_Plant r)) ` set (filter P (rows ls)) \<longleftrightarrow>
    p \<in> set (plant_ids ls) \<and> \<not> Dormant \<le> ln_State (rw_Care (plant_row ls p)) \<and> P (plant_row ls p)"
  by (auto simp: rows_iff plant_row_id image_iff)

lemma state_le_simps [simp]:
  "a \<le> Overdue \<longleftrightarrow> a = Overdue" "a \<le> DueToday \<longleftrightarrow> a = Overdue \<or> a = DueToday"
  "a \<le> Upcoming \<longleftrightarrow> a = Overdue \<or> a = DueToday \<or> a = Upcoming"
  "\<not> Dormant \<le> Overdue" "\<not> Dormant \<le> DueToday" "\<not> Dormant \<le> Upcoming"
  by (cases a; simp add: less_eq_line_state_def)+

lemma care_state_has_line:
  assumes "p \<in> set (plant_ids ls)"
  shows "ln_State (rw_Care (plant_row ls p)) \<le> x \<longleftrightarrow> has_line ls p (\<lambda>l. ln_State l \<le> x)"
  using care_state_least(1) care_of_plant [OF assms] unfolding has_line_def
  by (metis order_trans)

lemma has_line_plant: "has_line ls p P \<Longrightarrow> p \<in> set (plant_ids ls)"
  by (auto simp: has_line_def set_plant_ids)

lemma in_Overdue:
  "p \<in> set (plant_ids ls) \<and> \<not> Dormant \<le> ln_State (rw_Care (plant_row ls p))
     \<and> ln_State (rw_Care (plant_row ls p)) = Overdue \<longleftrightarrow> has_line ls p (\<lambda>l. ln_State l = Overdue)"
  using care_state_has_line [of p ls Overdue] has_line_plant [of ls p] by auto

lemma in_DueToday:
  "p \<in> set (plant_ids ls) \<and> \<not> Dormant \<le> ln_State (rw_Care (plant_row ls p))
     \<and> ln_State (rw_Care (plant_row ls p)) = DueToday \<longleftrightarrow>
   has_line ls p (\<lambda>l. ln_State l = DueToday) \<and> \<not> has_line ls p (\<lambda>l. ln_State l = Overdue)"
proof (cases "p \<in> set (plant_ids ls)")
  case True
  have "ln_State (rw_Care (plant_row ls p)) = Overdue \<longleftrightarrow> has_line ls p (\<lambda>l. ln_State l = Overdue)"
    using care_state_has_line [OF True, of Overdue] by simp
  moreover have "ln_State (rw_Care (plant_row ls p)) \<le> DueToday \<longleftrightarrow>
      has_line ls p (\<lambda>l. ln_State l = Overdue) \<or> has_line ls p (\<lambda>l. ln_State l = DueToday)"
    using care_state_has_line [OF True, of DueToday] by (auto simp: has_line_def)
  ultimately show ?thesis using True by auto
next
  case False
  then show ?thesis using has_line_plant [of ls p "\<lambda>l. ln_State l = DueToday"] by blast
qed

lemma in_ComingUp:
  "p \<in> set (plant_ids ls) \<and> \<not> Dormant \<le> ln_State (rw_Care (plant_row ls p))
     \<and> ComingUp (rw_Care (plant_row ls p)) \<longleftrightarrow>
   has_line ls p ComingUp \<and> \<not> has_line ls p (\<lambda>l. ln_State l = Overdue \<or> ln_State l = DueToday)"
proof -
  have due: "ln_State (rw_Care (plant_row ls p)) \<le> DueToday \<longleftrightarrow>
      has_line ls p (\<lambda>l. ln_State l = Overdue \<or> ln_State l = DueToday)" if "p \<in> set (plant_ids ls)"
    using care_state_has_line [OF that, of DueToday] by simp
  show ?thesis
  proof (intro iffI conjI; (elim conjE)?)
    assume p: "p \<in> set (plant_ids ls)" and up: "ComingUp (rw_Care (plant_row ls p))"
    then show "has_line ls p ComingUp"
      using care_of_plant [OF p] by (metis has_line_def)
    show "\<not> has_line ls p (\<lambda>l. ln_State l = Overdue \<or> ln_State l = DueToday)"
      using up due [OF p] by (auto simp: ComingUp_def)
  next
    assume up: "has_line ls p ComingUp"
      and no: "\<not> has_line ls p (\<lambda>l. ln_State l = Overdue \<or> ln_State l = DueToday)"
    show p: "p \<in> set (plant_ids ls)" using has_line_plant [OF up] .
    obtain l where l: "l \<in> set ls" "line_pid l = p" "ln_State l = Upcoming" "ln_Days l \<le> comingUpDays"
      using up by (auto simp: has_line_def ComingUp_def)
    have "ln_State (rw_Care (plant_row ls p)) = Upcoming"
      using care_state_least(1) [OF l(1,2)] due [OF p] no l(3) by auto
    then show "\<not> Dormant \<le> ln_State (rw_Care (plant_row ls p))"
      "ComingUp (rw_Care (plant_row ls p))"
      using care_state_least(2) [OF l(1,2)] l(3,4) by (auto simp: ComingUp_def soon_def)
  qed
qed

section \<open>Properties\<close>

text \<open>
  \<open>Resolve\<close> returns one line for each schedule, in the order of the schedules, and never
  panics on rows the schema admits.  A line with an occurrence has the day of the occurrence in
  the reader's location as its due day, the number of calendar days to it, and the state that
  comparing today with that day gives: overdue only once the day, or for a month-precise
  occurrence a month from it, has ended.  A line without one is dormant if the schedule has a
  season and spent if not.
\<close>

theorem Resolve_lines:
  assumes "keeps_dates (tloc now)" "\<forall>r \<in> set rs. schedule_wf (sr_CareSchedule r)"
  shows "\<exists>lines. Resolve rs latest now = Some lines \<and> length lines = length rs \<and>
    (\<forall>i < length rs.
       let s = sr_CareSchedule (rs ! i); line = lines ! i;
           res = Next s (latest_map latest (cs_PlantID s, cs_CareTypeID s)) now
       in ln_Schedule line = s \<and> ln_Plant line = sr_Plant (rs ! i) \<and>
          (\<forall>occ. res = Some (Some occ) \<longrightarrow>
             (let due = local_day (tloc now) (unix_sec (At occ)) in
              ln_Due line = midnight (tloc now) due \<and>
              ln_Days line = max (-106751) (min 106751 (due - day_of now)) \<and>
              ln_State line = due_state (day_of now) due (Precision occ))) \<and>
          (res = Some None \<longrightarrow>
             ln_State line = (if cs_SeasonStartMonth s \<noteq> None then Dormant else Spent)))"
proof -
  let ?f = "resolve_line (latest_map latest) now"
  have res: "\<exists>res. Next s e now = Some res" if "schedule_wf s" for s e
    using Next_defined [OF assms(1) that] by blast
  obtain lines where l: "those (map ?f rs) = Some lines" "length lines = length rs"
    "\<forall>i < length rs. ?f (rs ! i) = Some (lines ! i)"
  proof -
    have "\<exists>y. ?f r = Some y" if "r \<in> set rs" for r
      using resolve_line_next [OF assms(1), of r "latest_map latest"] res assms(2) that by blast
    then show thesis using those_map_Some [of rs ?f] that by blast
  qed
  show ?thesis
  proof (intro exI conjI allI impI)
    fix i assume i: "i < length rs"
    let ?s = "sr_CareSchedule (rs ! i)"
    obtain res where r: "Next ?s (latest_map latest (cs_PlantID ?s, cs_CareTypeID ?s)) now = Some res"
      using res assms(2) i by (meson nth_mem)
    from resolve_line_next [OF assms(1), of "rs ! i" "latest_map latest" res] l(3) i r
    show "let s = ?s; line = lines ! i;
           res = Next s (latest_map latest (cs_PlantID s, cs_CareTypeID s)) now
       in ln_Schedule line = s \<and> ln_Plant line = sr_Plant (rs ! i) \<and>
          (\<forall>occ. res = Some (Some occ) \<longrightarrow>
             (let due = local_day (tloc now) (unix_sec (At occ)) in
              ln_Due line = midnight (tloc now) due \<and>
              ln_Days line = max (-106751) (min 106751 (due - day_of now)) \<and>
              ln_State line = due_state (day_of now) due (Precision occ))) \<and>
          (res = Some None \<longrightarrow>
             ln_State line = (if cs_SeasonStartMonth s \<noteq> None then Dormant else Spent))"
      by (cases res) (simp_all add: Let_def)
  qed (use l in \<open>simp_all add: Resolve_def\<close>)
qed

definition ex_row :: schedule_row where
  "ex_row = \<lparr>sr_CareSchedule = ex_cadence, sr_Plant = zero_Plant, sr_CareType = zero_CareType\<rparr>"

theorem Resolve_lines_witness:
  "\<exists>lines. Resolve [ex_row] [] ex_now = Some lines \<and> length lines = 1
    \<and> ln_Schedule (lines ! 0) = ex_cadence"
proof -
  have h: "\<forall>r \<in> set [ex_row]. schedule_wf (sr_CareSchedule r)"
    by (simp add: ex_row_def ex_rows)
  show ?thesis
    using Resolve_lines [OF ex_rows(3) h, of "[]"] by (auto simp: Let_def ex_row_def)
qed

text \<open>
  (C23) Each plant is in the section its most pressing care puts it in, and in no other: it is
  Overdue exactly when one of its cares is overdue, Due today exactly when one is due today and
  none is overdue, and Coming up exactly when one falls due within the week and none is overdue
  or due today.
\<close>

theorem Today_sections_exact:
  "(\<lambda>r. pl_ID (rw_Plant r)) ` set (dy_Overdue (Today lower ls))
     = {p. has_line ls p (\<lambda>l. ln_State l = Overdue)} \<and>
   (\<lambda>r. pl_ID (rw_Plant r)) ` set (dy_DueToday (Today lower ls))
     = {p. has_line ls p (\<lambda>l. ln_State l = DueToday) \<and> \<not> has_line ls p (\<lambda>l. ln_State l = Overdue)} \<and>
   (\<lambda>r. pl_ID (rw_Plant r)) ` set (dy_ComingUp (Today lower ls))
     = {p. has_line ls p ComingUp
         \<and> \<not> has_line ls p (\<lambda>l. ln_State l = Overdue \<or> ln_State l = DueToday)}"
  unfolding Today_sections set_SortStableFunc
  by (intro conjI set_eqI) (simp_all only: in_section_iff in_Overdue in_DueToday in_ComingUp mem_Collect_eq)

text \<open>
  No plant appears twice: across the three sections each plant has one row, which holds
  every line of the plant and names a care no other line of the plant comes before.  Every
  section is ordered by how soon the care is due, then by name, then by id.
\<close>

theorem Today_rows_distinct_sorted:
  "distinct (map (\<lambda>r. pl_ID (rw_Plant r))
     (dy_Overdue (Today lower ls) @ dy_DueToday (Today lower ls) @ dy_ComingUp (Today lower ls))) \<and>
   list_all (\<lambda>r. rw_Lines r = lines_of ls (pl_ID (rw_Plant r)) \<and> rw_Care r \<in> set (rw_Lines r)
      \<and> list_all (\<lambda>l. compareLines (rw_Care r) l \<le> 0) (rw_Lines r))
     (dy_Overdue (Today lower ls) @ dy_DueToday (Today lower ls) @ dy_ComingUp (Today lower ls)) \<and>
   sorted_by (compareRows lower) (dy_Overdue (Today lower ls)) \<and>
   sorted_by (compareRows lower) (dy_DueToday (Today lower ls)) \<and>
   sorted_by (compareRows lower) (dy_ComingUp (Today lower ls))"
proof -
  let ?id = "\<lambda>r. pl_ID (rw_Plant r)"
  let ?all = "dy_Overdue (Today lower ls) @ dy_DueToday (Today lower ls) @ dy_ComingUp (Today lower ls)"
  have inj: "r = r'" if "r \<in> set (rows ls)" "r' \<in> set (rows ls)" "?id r = ?id r'" for r r'
    using distinct_rows [of ls] that by (auto simp: distinct_map inj_on_def)
  have sec: "distinct (map ?id (SortStableFunc (compareRows lower) (filter P (rows ls))))" for P
  proof -
    have "distinct (map ?id (filter P (rows ls)))" by (rule distinct_map_filter [OF distinct_rows])
    then show ?thesis by (subst distinct_map_mset [OF mset_SortStableFunc])
  qed
  have dis: "distinct (map ?id ?all)"
    by (auto simp: Today_sections sec [simplified] image_iff ComingUp_def dest: inj)
  have "r \<in> set (rows ls)" if "r \<in> set ?all" for r
    using that by (auto simp: Today_sections)
  then have rows: "list_all (\<lambda>r. rw_Lines r = lines_of ls (?id r) \<and> rw_Care r \<in> set (rw_Lines r)
      \<and> list_all (\<lambda>l. compareLines (rw_Care r) l \<le> 0) (rw_Lines r)) ?all"
    unfolding list_all_iff by (intro ballI conjI) (use plant_row_facts rows_iff in \<open>metis\<close>)+
  show ?thesis
    using dis rows compare_rows.sorted_SortStableFunc by (auto simp: Today_sections)
qed

text \<open>
  The Next list names exactly the plants due on the soonest day beyond the Coming up
  window: a row is in it exactly when it is in none of the three sections and no other such row
  is due sooner.
\<close>

theorem Today_Next_soonest:
  "set (dy_Next (Today lower ls)) =
    {r \<in> set (rows ls). is_later r \<and>
       list_all (\<lambda>r'. soon (rw_Care r) \<le> soon (rw_Care r')) (filter is_later (rows ls))}"
  by (auto simp: Today_Next_prefix list_all_iff)

text \<open>
  \<open>Nearest\<close> returns false exactly for a plant with no schedule, and otherwise a line of
  the plant that no other line comes before: the most overdue, then the soonest, with dormant
  and spent lines last.
\<close>

theorem Nearest_most_pressing:
  "(case Nearest ls of
      None \<Rightarrow> ls = []
    | Some l \<Rightarrow> l \<in> set ls \<and> list_all (\<lambda>l'. compareLines l l' \<le> 0) ls)"
proof (cases ls)
  case (Cons l ls')
  then show ?thesis
    using best_line_member [of l ls'] best_line_least [of _ l ls'] by (auto simp: list_all_iff)
qed simp

definition azores_2026 :: location where
  "azores_2026 = one_change ''Atlantic/Azores'' 1774746000 (-3600) 0"

definition ex_one_off :: care_schedule where
  "ex_one_off = zero_CareSchedule\<lparr>cs_AnchorDate := Some (mk_Date 2026 3 29 0 0 0 0 utc),
     cs_AnchorPrecision := Some ''day'', cs_SetAt := mk_Date 2026 3 1 0 0 0 0 utc\<rparr>"

text \<open>
  In a zone that puts its clocks forward at midnight, a plant due today shows as overdue.
  The zone here changes from one hour behind UTC to UTC at 2026-03-29 01:00 UTC, as the Azores
  do: the wall clock reads 2026-03-29 at noon, the schedule is a one-off for 2026-03-29, and
  \<open>Resolve\<close> calls it overdue, because \<open>dayOf\<close> asks \<open>time.Date\<close> for a midnight that does not
  exist and gets 23:00 of the day before.
\<close>

theorem Resolve_midnight_gap_overdue:
  "Date_of (mk_Date 2026 3 29 12 0 0 0 azores_2026) = (2026, 3, 29) \<and>
   map_option Date_of (cs_AnchorDate ex_one_off) = Some (2026, 3, 29) \<and>
   map_option (map ln_State)
     (Resolve [ex_row\<lparr>sr_CareSchedule := ex_one_off\<rparr>] [] (mk_Date 2026 3 29 12 0 0 0 azores_2026))
     = Some [Overdue]"
  by code_simp

end
