(* ===== verification/Schedule_Month.thy ===== *)
theory Schedule_Month
  imports Schedule_Today
begin

text \<open>
  The dates of a schedule in a calendar month: \<open>src/internal/schedule/month.go\<close>.  The loop of
  \<open>InMonth\<close> is a \<open>partial_function\<close>: \<open>None\<close> means that it does not return.  On a location
  that keeps dates it returns for every row that passes the schema's checks and whose season is of
  months 1 to 12, with dates in order and inside the month; in a zone that skips a midnight a daily
  schedule never gets past it, nor does one whose season starts in month 0, which the schema
  admits.
\<close>

section \<open>Definitions\<close>

record projected =
  pj_At :: gotime
  pj_Precision :: string
  pj_Overdue :: bool
  pj_Estimated :: bool

definition firstOfMonth :: "gotime \<Rightarrow> gotime" where
  "firstOfMonth t = mk_Date (Year t) (Month t) 1 0 0 0 0 (tloc t)"

definition inSeasonOrNextOpening :: "care_schedule \<Rightarrow> gotime \<Rightarrow> gotime option" where
  "inSeasonOrNextOpening s at =
     (case cs_SeasonStartMonth s of
        None \<Rightarrow> Some at
      | Some start \<Rightarrow>
          (case cs_SeasonEndMonth s of
             None \<Rightarrow> None
           | Some close \<Rightarrow>
               if inSeason (Month at) start close then Some at else Some (nextOpening at start)))"

definition following :: "care_schedule \<Rightarrow> gotime \<Rightarrow> location \<Rightarrow> projected option option" where
  "following s day l =
     (case cs_IntervalCount s of
        None \<Rightarrow> Some None
      | Some cnt \<Rightarrow>
          (case cs_AnchorDate s of
             None \<Rightarrow> do {
               unit \<leftarrow> cs_IntervalUnit s;
               at0 \<leftarrow> advance day cnt unit 1;
               at \<leftarrow> inSeasonOrNextOpening s (dayOf at0 l);
               Some (Some \<lparr>pj_At = at, pj_Precision = ''day'', pj_Overdue = False, pj_Estimated = True\<rparr>)
             }
           | Some _ \<Rightarrow> do {
               r \<leftarrow> shape s (Some (zero_CareEvent\<lparr>ce_PerformedAt := day, ce_Done := True\<rparr>)) l;
               (case r of
                  Some occ \<Rightarrow> Some (Some \<lparr>pj_At = At occ, pj_Precision = Precision occ,
                                     pj_Overdue = False, pj_Estimated = False\<rparr>)
                | None \<Rightarrow> Some (Some \<lparr>pj_At = zero_time, pj_Precision = '''',
                                     pj_Overdue = False, pj_Estimated = False\<rparr>))
             }))"

partial_function (option) month_loop ::
  "care_schedule \<Rightarrow> location \<Rightarrow> gotime \<Rightarrow> gotime \<Rightarrow> projected \<Rightarrow> projected list
     \<Rightarrow> projected list option" where
  "month_loop s l start finish p dates =
     (if Before (pj_At p) finish then
        (let dates' = (if \<not> Before (pj_At p) start then dates @ [p] else dates) in
         (case following s (pj_At p) l of
            None \<Rightarrow> None
          | Some None \<Rightarrow> Some dates'
          | Some (Some p') \<Rightarrow> month_loop s l start finish p' dates'))
      else Some dates)"

text \<open>While the season is open, a date from before its latest opening moves to the opening.\<close>

definition moved_to_opening :: "care_schedule \<Rightarrow> gotime \<Rightarrow> gotime \<Rightarrow> gotime" where
  "moved_to_opening s today at =
     (case (cs_SeasonStartMonth s, cs_SeasonEndMonth s) of
        (Some opens, Some closes) \<Rightarrow>
          (let opening = lastOpening today opens in
           if inSeason (Month today) opens closes \<and> Before at opening then opening else at)
      | _ \<Rightarrow> at)"

text \<open>The part of \<open>InMonth\<close> before its loop: the first date, or none for a spent one-off.  A row
  with a season start and no end panics here; \<open>inSeasonOrNextOpening\<close> reports it.\<close>

definition first_date ::
  "care_schedule \<Rightarrow> care_event option \<Rightarrow> gotime \<Rightarrow> projected option option" where
  "first_date s lst now =
     (let l = tloc now; today = dayOf now l in
      case shape s lst l of
        None \<Rightarrow> None
      | Some None \<Rightarrow> Some None
      | Some (Some occ) \<Rightarrow>
          (let at = moved_to_opening s today (dayOf (At occ) l);
               due = (if Precision occ = ''month'' then firstOfMonth today else today);
               (at, overdue) = (if Before at due then (due, True) else (at, False))
           in (case inSeasonOrNextOpening s at of
                 None \<Rightarrow> None
               | Some opened \<Rightarrow>
                   (let (at, overdue) = (if Equal opened at then (at, overdue) else (opened, False))
                    in Some (Some \<lparr>pj_At = at, pj_Precision = Precision occ, pj_Overdue = overdue,
                                   pj_Estimated = False\<rparr>)))))"

definition InMonth ::
  "care_schedule \<Rightarrow> care_event option \<Rightarrow> gotime \<Rightarrow> gotime \<Rightarrow> projected list option" where
  "InMonth s lst month now =
     (let l = tloc now; start = firstOfMonth (In_loc month l); finish = AddDate start 0 1 0 in
      case first_date s lst now of
        None \<Rightarrow> None
      | Some None \<Rightarrow> Some []
      | Some (Some p) \<Rightarrow> month_loop s l start finish p [])"

section \<open>Every date is a day's start, and later than the one before\<close>

definition day_in_season :: "care_schedule \<Rightarrow> int \<Rightarrow> bool" where
  "day_in_season s n \<longleftrightarrow>
     (case (cs_SeasonStartMonth s, cs_SeasonEndMonth s) of
        (Some start, Some close) \<Rightarrow> inSeason (month_of_day n mod 12 + 1) start close
      | _ \<Rightarrow> True)"

lemma midnight_inject: "keeps_dates l \<Longrightarrow> midnight l n = midnight l n' \<longleftrightarrow> n = n'"
  using midnight_compare(3) [of l n n'] by (auto simp: Equal_def)

lemma Month_midnight: "keeps_dates l \<Longrightarrow> Month (midnight l n) = month_of_day n mod 12 + 1"
  using civil_month_of_day(8) [of n]
  by (cases "civil_of_days n") (auto simp: Month_def Date_of_midnight)

lemma Year_midnight: "keeps_dates l \<Longrightarrow> Year (midnight l n) = month_of_day n div 12"
  using civil_month_of_day(7) [of n]
  by (cases "civil_of_days n") (auto simp: Year_def Date_of_midnight)

lemma firstOfMonth_month:
  assumes "keeps_dates (tloc t)"
  shows "firstOfMonth t = midnight (tloc t) (month_start (month_of_day (day_of t)))"
proof -
  obtain y m d where c: "civil_of_days (day_of t) = (y, m, d)" by (cases "civil_of_days (day_of t)") auto
  show ?thesis
    using civil_month_of_day(1) [OF c]
    by (simp add: firstOfMonth_def mk_Date_month Year_def Month_def Date_of_def c)
qed

lemma schedule_wf_season:
  assumes "schedule_wf s" "cs_SeasonStartMonth s = Some st"
  obtains en where "cs_SeasonEndMonth s = Some en" "1 \<le> st" "st \<le> 12" "cs_AnchorDate s = None"
  using assms by (auto simp: schedule_wf_iff)

lemma inSeasonOrNextOpening_midnight:
  assumes "keeps_dates l" "schedule_wf s"
  obtains n' where "inSeasonOrNextOpening s (midnight l n) = Some (midnight l n')" "n \<le> n'"
    "day_in_season s n'" "day_in_season s n \<Longrightarrow> n' = n"
proof (cases "cs_SeasonStartMonth s")
  case None
  then show thesis
    using that [of n] assms(2)
    by (auto simp: inSeasonOrNextOpening_def day_in_season_def schedule_wf_iff)
next
  case (Some st)
  obtain en where en: "cs_SeasonEndMonth s = Some en" "1 \<le> st" "st \<le> 12"
    by (rule schedule_wf_season [OF assms(2) Some]) (rule that)
  show thesis
  proof (cases "day_in_season s n")
    case True
    with Some en show thesis
      using that [of n] by (simp add: inSeasonOrNextOpening_def day_in_season_def Month_midnight [OF assms(1)])
  next
    case False
    obtain k where k: "nextOpening (midnight l n) st = midnight l (month_start k)" "k mod 12 + 1 = st"
      using nextOpening_month [of "midnight l n" st] assms(1) en by auto
    have "n \<le> month_start k"
      using nextOpening_after [of "midnight l n" st] assms(1) en k
      by (simp add: midnight_compare [OF assms(1)])
    then show thesis
      using that [of "month_start k"] k en Some False
      by (simp add: inSeasonOrNextOpening_def day_in_season_def Month_midnight [OF assms(1)])
  qed
qed

lemma following_later:
  assumes "keeps_dates l" "schedule_wf s"
  shows "(cs_IntervalCount s = None \<and> following s (midnight l n) l = Some None) \<or>
    (\<exists>p n'. following s (midnight l n) l = Some (Some p) \<and> pj_At p = midnight l n'
      \<and> n < n' \<and> day_in_season s n' \<and> \<not> pj_Overdue p)"
proof (cases "cs_IntervalCount s")
  case None
  then show ?thesis by (simp add: following_def)
next
  case (Some c)
  obtain u where u: "cs_IntervalUnit s = Some u" "known_unit u" "0 < c"
    using schedule_wf_unit [OF assms(2) Some] by blast
  show ?thesis
  proof (cases "cs_AnchorDate s")
    case None
    obtain n' where "inSeasonOrNextOpening s (midnight l (series_day n c u 1)) = Some (midnight l n')"
      "series_day n c u 1 \<le> n'" "day_in_season s n'"
      by (rule inSeasonOrNextOpening_midnight [OF assms]) (rule that)
    then show ?thesis
      using None Some u series_day_strict_mono [OF u(3), of 0 1 n u]
      by (simp add: following_def advance_midnight [OF assms(1) u(2)] dayOf_midnight assms(1))
        (intro exI [of _ n'], simp)
  next
    case anchor: (Some a)
    let ?e = "Some (zero_CareEvent\<lparr>ce_PerformedAt := midnight l n, ce_Done := True\<rparr>)"
    have ov: "override_of ?e = None" by (simp add: row_simps)
    have since: "since_day s ?e l = n" by (simp add: since_day_def row_simps assms(1))
    obtain u' p' i where sh: "shape s ?e l
        = Some (Some \<lparr>At = midnight l (series_day (day_of a) c u' i), Precision = p'\<rparr>)"
      "since_day s ?e l < series_day (day_of a) c u' i"
      by (rule shape_anchored [OF assms ov anchor Some]) (rule that)
    have "day_in_season s m" for m
      using assms(2) anchor by (auto simp: day_in_season_def schedule_wf_iff)
    then show ?thesis
      using anchor Some sh since
      by (simp add: following_def) (intro exI [of _ "series_day (day_of a) c u' i"], simp)
  qed
qed

section \<open>The loop\<close>

definition date_list :: "care_schedule \<Rightarrow> location \<Rightarrow> int \<Rightarrow> int \<Rightarrow> projected list \<Rightarrow> bool" where
  "date_list s l lo hi ps \<longleftrightarrow>
     (\<exists>ns. map pj_At ps = map (midnight l) ns \<and> sorted_wrt (<) ns
        \<and> (\<forall>n \<in> set ns. lo \<le> n \<and> n < hi \<and> day_in_season s n))"

lemma date_list_Cons:
  "pj_At p = midnight l n \<Longrightarrow> lo \<le> n \<Longrightarrow> n < hi \<Longrightarrow> day_in_season s n \<Longrightarrow>
    date_list s l (n + 1) hi ps \<Longrightarrow> date_list s l lo hi (p # ps)"
  unfolding date_list_def by (elim exE, rule_tac x = "n # ns" in exI) auto

lemma date_list_weaken: "date_list s l lo hi ps \<Longrightarrow> lo' \<le> lo \<Longrightarrow> date_list s l lo' hi ps"
  unfolding date_list_def by (meson order_trans)

lemma month_loop_returns:
  assumes "keeps_dates l" "schedule_wf s"
    and "pj_At p = midnight l n" "day_in_season s n"
  shows "\<exists>ps. month_loop s l (midnight l a) (midnight l b) p dates = Some (dates @ ps)
    \<and> date_list s l (max a n) b ps"
  using assms(3,4)
proof (induction "nat (b - n)" arbitrary: n p dates rule: less_induct)
  case less
  let ?d = "if n < a then dates else dates @ [p]"
  have unfold: "month_loop s l (midnight l a) (midnight l b) p dates =
    (if n < b then
       (case following s (midnight l n) l of
          None \<Rightarrow> None | Some None \<Rightarrow> Some ?d
        | Some (Some p') \<Rightarrow> month_loop s l (midnight l a) (midnight l b) p' ?d)
     else Some dates)"
    by (subst month_loop.simps)
      (simp add: less.prems midnight_compare [OF assms(1)] Let_def split: option.split)
  have one: "\<exists>ps. ?d @ qs = dates @ ps \<and> date_list s l (max a n) b ps"
    if "date_list s l (max a (n + 1)) b qs" "n < b" for qs
  proof (cases "n < a")
    case True
    then show ?thesis using that(1) by (auto intro: date_list_weaken)
  next
    case False
    then have "date_list s l (max a n) b (p # qs)"
      using that less.prems by (intro date_list_Cons) (auto simp: max_def split: if_splits)
    with False show ?thesis by auto
  qed
  show ?case
  proof (cases "n < b")
    case False
    then show ?thesis using unfold by (auto simp: date_list_def)
  next
    case True
    from following_later [OF assms(1,2), of n] show ?thesis
    proof (elim disjE exE conjE)
      assume "following s (midnight l n) l = Some None"
      then show ?thesis using unfold True one [of "[]"] by (auto simp: date_list_def)
    next
      fix p' n' assume f: "following s (midnight l n) l = Some (Some p')" "pj_At p' = midnight l n'"
        "n < n'" "day_in_season s n'"
      obtain qs where qs: "month_loop s l (midnight l a) (midnight l b) p' ?d = Some (?d @ qs)"
        "date_list s l (max a n') b qs"
        using less.hyps [of n' p' ?d] f True by auto
      have "date_list s l (max a (n + 1)) b qs"
        using qs(2) f(3) by (auto intro: date_list_weaken)
      then show ?thesis using unfold True f(1) qs(1) one [of qs] by auto
    qed
  qed
qed

section \<open>The first date\<close>

lemma inSeason_offset:
  assumes "1 \<le> m" "m \<le> 12" "1 \<le> st" "st \<le> 12" "1 \<le> en" "en \<le> 12"
  shows "inSeason m st en \<longleftrightarrow> (m - st) mod 12 \<le> (en - st) mod (12::int)"
proof -
  have w: "x mod 12 = (if x < 0 then x + 12 else x)" if "-12 < x" "x < 12" for x :: int
    using that by presburger
  show ?thesis using assms by (auto simp: inSeason_def w)
qed

lemma opening_same_day:
  assumes "keeps_dates (tloc t)" "keeps_dates (tloc u)" "tloc u = tloc t" "day_of u = day_of t"
  shows "lastOpening u m = lastOpening t m" "nextOpening u m = nextOpening t m"
  using compare_midnight(2) [OF assms(1)] compare_midnight(2) [OF assms(2)] assms(3,4)
  by (simp_all add: lastOpening_def nextOpening_def mk_Date_month Year_def Date_of_def Let_def)

text \<open>From the last opening to a day whose month is in the season, every month is.\<close>

lemma season_unbroken:
  assumes "k mod 12 + 1 = st" "k \<le> a" "a \<le> b" "b < k + 12" "1 \<le> en" "en \<le> 12"
    and "inSeason (b mod 12 + 1) st en"
  shows "inSeason (a mod 12 + 1) st en"
proof -
  have off: "(x mod 12 + 1 - st) mod 12 = x - k" if "k \<le> x" "x < k + 12" for x
  proof -
    have "(x mod 12 + 1 - st) mod 12 = (x - k) mod 12"
      using assms(1) by (metis add_diff_cancel_right diff_add_eq mod_diff_eq)
    with that show ?thesis by (simp add: mod_pos_pos_trivial)
  qed
  have st: "1 \<le> st" "st \<le> 12" using assms(1) by (auto simp: zle_add1_eq_le)
  have m: "1 \<le> x mod 12 + 1" "x mod 12 + 1 \<le> 12" for x :: int by (auto simp: zle_add1_eq_le)
  show ?thesis
    using assms inSeason_offset [OF m st assms(5,6), of a] inSeason_offset [OF m st assms(5,6), of b]
      off [of a] off [of b] by auto
qed

lemma lastOpening_index:
  assumes "keeps_dates l" "1 \<le> st" "st \<le> 12"
  obtains k where "lastOpening (midnight l n) st = midnight l (month_start k)" "k mod 12 + 1 = st"
    "k \<le> month_of_day n" "month_of_day n < k + 12"
proof -
  let ?k = "12 * (month_of_day n div 12) + st - 1"
  have mm: "month_of_day n = 12 * (month_of_day n div 12) + month_of_day n mod 12" by simp
  have m12: "0 \<le> month_of_day n mod 12" "month_of_day n mod 12 < 12" by auto
  have af: "n < month_start ?k \<longleftrightarrow> month_of_day n < ?k"
    using month_of_day_bounds [of n] month_start_mono [of ?k "month_of_day n"]
      month_start_mono [of "month_of_day n + 1" ?k] by fastforce
  show thesis
  proof (cases "month_of_day n < ?k")
    case True
    have "AddDate (midnight l (month_start ?k)) (-1) 0 0 = midnight l (month_start (?k - 12))"
      by (simp add: AddDate_first_of_month [OF assms(1)])
    with True af have "lastOpening (midnight l n) st = midnight l (month_start (?k - 12))"
      by (simp add: lastOpening_def mk_Date_month Year_midnight [OF assms(1)]
          midnight_compare [OF assms(1)] Let_def)
    moreover have "(?k - 12) mod 12 + 1 = st"
      using opening_month [OF assms(2,3), of "month_of_day n div 12 - 1"] by (simp add: algebra_simps)
    ultimately show thesis using that [of "?k - 12"] True mm m12 assms(2,3) by simp
  next
    case False
    with af have "lastOpening (midnight l n) st = midnight l (month_start ?k)"
      by (simp add: lastOpening_def mk_Date_month Year_midnight [OF assms(1)]
          midnight_compare [OF assms(1)] Let_def)
    then show thesis
      using that [of ?k] opening_month [OF assms(2,3)] False mm m12 assms(2,3) by simp
  qed
qed

text \<open>The day \<open>InMonth\<close> measures lateness from: today, or the first of the month for a care that is
  only known to the month.\<close>

definition base_day :: "string \<Rightarrow> gotime \<Rightarrow> int" where
  "base_day precision now =
     (if precision = ''month'' then month_start (month_of_day (day_of now)) else day_of now)"

definition first_on :: "gotime \<Rightarrow> int \<Rightarrow> string \<Rightarrow> projected" where
  "first_on now n precision =
     \<lparr>pj_At = midnight (tloc now) (max n (base_day precision now)), pj_Precision = precision,
      pj_Overdue = (n < base_day precision now), pj_Estimated = False\<rparr>"

lemma first_date_unseasoned:
  assumes "keeps_dates (tloc now)" "cs_SeasonStartMonth s = None"
    and "shape s lst (tloc now) = Some (Some occ)"
  shows "first_date s lst now
    = Some (Some (first_on now (local_day (tloc now) (unix_sec (At occ))) (Precision occ)))"
  using assms
  by (simp add: first_date_def moved_to_opening_def Let_def dayOf_midnight firstOfMonth_month inSeasonOrNextOpening_def
      midnight_compare Equal_def first_on_def base_day_def max_def)

lemma seasoned_precision:
  assumes "keeps_dates l" "schedule_wf s" "cs_SeasonStartMonth s = Some st"
    and "shape s lst l = Some (Some occ)"
  shows "Precision occ = ''day''"
proof (cases "override_of lst")
  case None
  have anchor: "cs_AnchorDate s = None"
    using assms(2,3) by (auto simp: schedule_wf_iff)
  then obtain c where c: "cs_IntervalCount s = Some c" using assms(2) by (auto simp: schedule_wf_iff)
  obtain u where u: "cs_IntervalUnit s = Some u" "known_unit u"
    using schedule_wf_unit [OF assms(2) c] by blast
  show ?thesis using shape_cadence [OF assms(1) None anchor c u] assms(4) by auto
next
  case (Some k)
  then obtain e where "lst = Some e" "ce_OverrideIntervalDays e = Some k" by (cases lst) auto
  then show ?thesis using assms(4) shape_override [of e k s l] by auto
qed

lemma first_date_seasoned:
  assumes "keeps_dates (tloc now)" "schedule_wf s"
    and "cs_SeasonStartMonth s = Some st" "cs_SeasonEndMonth s = Some en"
    and "shape s lst (tloc now) = Some (Some occ)" "tloc (At occ) = tloc now"
    and "inSeason (Month now) st en"
  defines "E \<equiv> day_of (if Before (At occ) (lastOpening now st) then lastOpening now st
       else if \<not> inSeason (Month (At occ)) st en then nextOpening (At occ) st else At occ)"
  shows "first_date s lst now = Some (Some (first_on now E ''day''))"
proof -
  let ?l = "tloc now" and ?t = "day_of now" and ?D = "day_of (At occ)"
  have st: "1 \<le> st" "st \<le> 12" "1 \<le> en" "en \<le> 12"
    using assms(2-4) by (auto simp: schedule_wf_iff)
  obtain k where k: "lastOpening (midnight ?l ?t) st = midnight ?l (month_start k)" "k mod 12 + 1 = st"
    "k \<le> month_of_day ?t" "month_of_day ?t < k + 12"
    by (rule lastOpening_index [OF assms(1) st(1,2)]) (rule that)
  have lo: "lastOpening now st = midnight ?l (month_start k)"
    using opening_same_day(1) [of "midnight ?l ?t" now st] assms(1) k(1) by simp
  have month: "Month t = month_of_day (day_of t) mod 12 + 1" if "tloc t = ?l" for t
    using civil_month_of_day(8) [of "day_of t"]
    by (cases "civil_of_days (day_of t)") (auto simp: Month_def Date_of_def)
  have today: "inSeason (month_of_day ?t mod 12 + 1) st en" using assms(7) month [of now] by simp
  have before: "Before (At occ) (lastOpening now st) \<longleftrightarrow> ?D < month_start k"
    using compare_midnight(1) [of "At occ"] assms(1,6) by (simp add: lo)
  have start: "month_start k \<le> ?t"
    using month_start_mono [OF k(3)] month_of_day_bounds(1) [of ?t] by simp
  let ?at = "max ?D (month_start k)"
  have late: "inSeason (month_of_day ?at mod 12 + 1) st en" if "?at < ?t"
  proof (rule season_unbroken [OF k(2) _ _ k(4) st(3,4) today])
    show "month_of_day ?at \<le> month_of_day ?t" using that by (intro month_of_day_mono) simp
    show "k \<le> month_of_day ?at"
      using month_of_day_mono [of "month_start k" ?at] by simp
  qed
  obtain j where j: "nextOpening (At occ) st = midnight ?l (month_start j)"
    using nextOpening_month [of "At occ" st] assms(1,6) st by auto
  have no: "nextOpening (midnight ?l ?D) st = midnight ?l (month_start j)"
    using opening_same_day(2) [of "At occ" "midnight ?l ?D" st] assms(1,6) j by simp
  have later: "?D < month_start j"
    using opening_day_later(2) [of "At occ" "At occ" st] assms(1,6) st j by simp
  have E: "E = (if ?D < month_start k then month_start k
      else if \<not> inSeason (month_of_day ?D mod 12 + 1) st en then month_start j else ?D)"
    using assms(1,6) month [of "At occ"] by (simp add: E_def before [unfolded lo] lo j)
  have first: "first_date s lst now = (case inSeasonOrNextOpening s (midnight ?l (max ?at ?t)) of
      None \<Rightarrow> None
    | Some opened \<Rightarrow> Some (Some (if Equal opened (midnight ?l (max ?at ?t))
        then \<lparr>pj_At = midnight ?l (max ?at ?t), pj_Precision = ''day'', pj_Overdue = (?at < ?t), pj_Estimated = False\<rparr>
        else \<lparr>pj_At = opened, pj_Precision = ''day'', pj_Overdue = False, pj_Estimated = False\<rparr>)))"
    using assms(1,3-6) today k(1) seasoned_precision [OF assms(1-3,5)]
    by (simp add: first_date_def moved_to_opening_def Let_def dayOf_midnight midnight_compare Month_midnight max_def
        split: option.split)
  show ?thesis
  proof (cases "inSeason (month_of_day (max ?at ?t) mod 12 + 1) st en")
    case True
    then have "inSeason (month_of_day ?at mod 12 + 1) st en"
      using late by (cases "?at < ?t") (auto simp: max_def split: if_splits)
    then have "E = ?at" using E by (auto simp: max_def)
    with True show ?thesis
      using first assms(1,3,4)
      by (simp add: inSeasonOrNextOpening_def Month_midnight Equal_def first_on_def base_day_def)
  next
    case False
    with today have ge: "max ?at ?t = ?at" "?at \<noteq> ?t" by (auto simp: max_def split: if_splits)
    then have t: "?t < ?at" by (simp add: max_def split: if_splits)
    then have D: "?at = ?D" using start by (simp add: max_def split: if_splits)
    with False ge have "E = month_start j" using E t start by (auto simp: max_def split: if_splits)
    with False ge D t later show ?thesis
      using first assms(1,3,4) no
      by (simp add: inSeasonOrNextOpening_def Month_midnight midnight_compare first_on_def base_day_def
          split: if_splits)
  qed
qed

lemma first_date_Next:
  assumes "keeps_dates (tloc now)" "schedule_wf s" "Next s lst now = Some (Some occ)"
  shows "first_date s lst now
    = Some (Some (first_on now (local_day (tloc now) (unix_sec (At occ))) (Precision occ)))"
proof (cases "cs_SeasonStartMonth s")
  case None
  then show ?thesis using first_date_unseasoned [OF assms(1)] assms(3) by (simp add: Next_unseasoned)
next
  case (Some st)
  obtain en o' where en: "cs_SeasonEndMonth s = Some en" "shape s lst (tloc now) = Some (Some o')"
    "tloc (At o') = tloc now" "1 \<le> st" "st \<le> 12"
    "Next s lst now = Some (if \<not> inSeason (Month now) st en then None
       else if Before (At o') (lastOpening now st) then Some (o'\<lparr>At := lastOpening now st\<rparr>)
       else if \<not> inSeason (Month (At o')) st en then Some (o'\<lparr>At := nextOpening (At o') st\<rparr>)
       else Some o')"
    by (rule Next_seasoned [OF assms(1,2) Some, of lst]) (rule that)
  have "tloc (At occ) = tloc now" "Precision occ = ''day''" "inSeason (Month now) st en"
    using assms(1,3) en Month_opening [of now st] Month_opening [of "At o'" st]
      seasoned_precision [OF assms(1,2) Some en(2)]
    by (auto split: if_splits)
  then show ?thesis
    using first_date_seasoned [OF assms(1,2) Some en(1-3)] assms(3) en(6)
    by (auto split: if_splits)
qed

lemma first_date_defined:
  assumes "keeps_dates (tloc now)" "schedule_wf s"
  shows "(spent s lst \<and> first_date s lst now = Some None) \<or>
    (\<exists>p n. first_date s lst now = Some (Some p) \<and> pj_At p = midnight (tloc now) n \<and> day_in_season s n)"
proof -
  let ?l = "tloc now"
  obtain r where r: "shape s lst ?l = Some r" "(r = None) = spent s lst"
    by (rule shape_total [OF assms]) (rule that)
  show ?thesis
  proof (cases r)
    case None
    with r show ?thesis by (simp add: first_date_def Let_def)
  next
    case (Some occ)
    let ?at = "moved_to_opening s (dayOf now ?l) (dayOf (At occ) ?l)"
    have "\<exists>n. lastOpening (midnight ?l d) st = midnight ?l n" if "1 \<le> st" "st \<le> 12" for d st
      using lastOpening_month [of "midnight ?l d" st] assms(1) that by auto
    then have "\<exists>n. ?at = midnight ?l n"
      using assms(2) by (auto simp: moved_to_opening_def dayOf_midnight schedule_wf_iff Let_def split: option.split)
    then obtain n where n: "?at = midnight ?l n" by blast
    let ?due = "base_day (Precision occ) now"
    obtain m where m: "inSeasonOrNextOpening s (midnight ?l (max n ?due)) = Some (midnight ?l m)"
      "day_in_season s m"
      by (rule inSeasonOrNextOpening_midnight [OF assms]) (rule that)
    have due: "(if Precision occ = ''month'' then firstOfMonth (dayOf now ?l) else dayOf now ?l)
        = midnight ?l ?due"
      using assms(1) by (simp add: base_day_def dayOf_midnight firstOfMonth_month)
    have "first_date s lst now = Some (Some
       (if m = max n ?due
        then \<lparr>pj_At = midnight ?l (max n ?due), pj_Precision = Precision occ,
          pj_Overdue = (n < ?due), pj_Estimated = False\<rparr>
        else \<lparr>pj_At = midnight ?l m, pj_Precision = Precision occ, pj_Overdue = False, pj_Estimated = False\<rparr>))"
      using r(1) Some m(1) assms(1) n
      by (cases "n < ?due") (simp_all add: first_date_def Let_def due midnight_compare)
    then show ?thesis using m(2) by auto
  qed
qed

section \<open>The month\<close>

lemma month_span:
  assumes "keeps_dates l"
  shows "firstOfMonth (In_loc t l) = midnight l (month_start (month_of_day (local_day l (unix_sec t))))"
    "AddDate (midnight l (month_start k)) 0 1 0 = midnight l (month_start (k + 1))"
  using firstOfMonth_month [of "In_loc t l"] AddDate_first_of_month [OF assms] assms by simp_all

lemma InMonth_dates:
  fixes month :: gotime
  assumes "keeps_dates (tloc now)" "schedule_wf s"
  defines "k \<equiv> month_of_day (local_day (tloc now) (unix_sec month))"
  shows "\<exists>ps. InMonth s lst month now = Some ps
    \<and> date_list s (tloc now) (month_start k) (month_start (k + 1)) ps"
  using first_date_defined [OF assms(1,2), of lst]
proof (elim disjE conjE exE)
  assume "first_date s lst now = Some None"
  then show ?thesis by (auto simp: InMonth_def Let_def date_list_def)
next
  fix p n assume p: "first_date s lst now = Some (Some p)" "pj_At p = midnight (tloc now) n"
    "day_in_season s n"
  obtain ps where "month_loop s (tloc now) (midnight (tloc now) (month_start k))
      (midnight (tloc now) (month_start (k + 1))) p [] = Some ps"
    "date_list s (tloc now) (max (month_start k) n) (month_start (k + 1)) ps"
    using month_loop_returns [OF assms(1,2) p(2,3), of "month_start k" "month_start (k + 1)" "[]"] by auto
  then show ?thesis
    using p(1) by (auto simp: InMonth_def Let_def month_span [OF assms(1)] k_def intro: date_list_weaken)
qed

lemma date_list_month:
  assumes "keeps_dates l" "date_list s l (month_start k) (month_start (k + 1)) ps"
  shows "sorted_wrt (\<lambda>p q. Before (pj_At p) (pj_At q)) ps"
    "list_all (\<lambda>p. Clock (pj_At p) = (0, 0, 0) \<and> Year (pj_At p) = k div 12 \<and> Month (pj_At p) = k mod 12 + 1
       \<and> day_in_season s (local_day l (unix_sec (pj_At p)))) ps"
proof -
  obtain ns where ns: "map pj_At ps = map (midnight l) ns" "sorted_wrt (<) ns"
    "\<forall>n \<in> set ns. month_start k \<le> n \<and> n < month_start (k + 1) \<and> day_in_season s n"
    using assms(2) by (auto simp: date_list_def)
  have "sorted_wrt Before (map (midnight l) ns)"
    using ns(2) by (auto simp: sorted_wrt_map midnight_compare [OF assms(1)] intro: sorted_wrt_mono_rel)
  then show "sorted_wrt (\<lambda>p q. Before (pj_At p) (pj_At q)) ps"
    by (simp add: sorted_wrt_map flip: ns(1))
  have "pj_At p \<in> midnight l ` set ns" if "p \<in> set ps" for p
    using that ns(1) by (metis image_eqI image_set)
  then show "list_all (\<lambda>p. Clock (pj_At p) = (0, 0, 0) \<and> Year (pj_At p) = k div 12 \<and> Month (pj_At p) = k mod 12 + 1
       \<and> day_in_season s (local_day l (unix_sec (pj_At p)))) ps"
    using ns(3) assms(1)
    by (fastforce simp: list_all_iff Clock_midnight Year_midnight Month_midnight dest!: month_of_day_unique)
qed

lemma month_loop_first:
  assumes "keeps_dates l" "schedule_wf s"
    and "pj_At p = midnight l n" "day_in_season s n"
  shows "b \<le> n \<Longrightarrow> month_loop s l (midnight l a) (midnight l b) p [] = Some []"
    "a \<le> n \<Longrightarrow> n < b \<Longrightarrow> \<exists>ps. month_loop s l (midnight l a) (midnight l b) p [] = Some (p # ps)
       \<and> date_list s l (n + 1) b ps"
proof -
  show "b \<le> n \<Longrightarrow> month_loop s l (midnight l a) (midnight l b) p [] = Some []"
    by (subst month_loop.simps) (simp add: assms(3) midnight_compare [OF assms(1)])
  assume ab: "a \<le> n" "n < b"
  have unfold: "month_loop s l (midnight l a) (midnight l b) p [] =
       (case following s (midnight l n) l of
          None \<Rightarrow> None | Some None \<Rightarrow> Some [p]
        | Some (Some p') \<Rightarrow> month_loop s l (midnight l a) (midnight l b) p' [p])"
    using ab by (subst month_loop.simps)
      (simp add: assms(3) midnight_compare [OF assms(1)] Let_def not_less [symmetric] split: option.split)
  from following_later [OF assms(1,2), of n]
  show "\<exists>ps. month_loop s l (midnight l a) (midnight l b) p [] = Some (p # ps) \<and> date_list s l (n + 1) b ps"
  proof (elim disjE exE conjE)
    assume "following s (midnight l n) l = Some None"
    then show ?thesis using unfold by (auto simp: date_list_def)
  next
    fix p' n' assume f: "following s (midnight l n) l = Some (Some p')" "pj_At p' = midnight l n'"
      "n < n'" "day_in_season s n'"
    obtain qs where "month_loop s l (midnight l a) (midnight l b) p' [p] = Some ([p] @ qs)"
      "date_list s l (max a n') b qs"
      using month_loop_returns [OF assms(1,2) f(2,4), of a b "[p]"] by auto
    then show ?thesis using unfold f(1,3) ab by (auto intro: date_list_weaken)
  qed
qed

section \<open>Properties\<close>

text \<open>
  (C34) In a location that keeps dates, for every row that passes the schema's checks and whose
  season, if it has one, is of months 1 to 12, \<open>InMonth\<close> returns: its dates are starts of days,
  each before the next, all in the month asked for as read in now's location, and, for a schedule
  with a season, all in months of the season.  Both conditions are needed:
  \<open>InMonth_midnight_gap_diverges\<close> and \<open>InMonth_season_zero_diverges\<close> below.
\<close>

theorem InMonth_sorted_in_month:
  assumes "keeps_dates (tloc now)" "care_schedule_checks s" "season_months s"
  shows "\<exists>ps. InMonth s lst month now = Some ps
    \<and> sorted_wrt (\<lambda>p q. Before (pj_At p) (pj_At q)) ps
    \<and> list_all (\<lambda>p. Clock (pj_At p) = (0, 0, 0)
        \<and> Year (pj_At p) = Year (In_loc month (tloc now))
        \<and> Month (pj_At p) = Month (In_loc month (tloc now))
        \<and> day_in_season s (local_day (tloc now) (unix_sec (pj_At p)))) ps"
proof -
  let ?n = "local_day (tloc now) (unix_sec month)"
  have "Year (In_loc month (tloc now)) = month_of_day ?n div 12"
    "Month (In_loc month (tloc now)) = month_of_day ?n mod 12 + 1"
    using civil_month_of_day(7,8) [of ?n]
    by (cases "civil_of_days ?n"; simp add: Year_def Month_def Date_of_def)+
  then show ?thesis
    using InMonth_dates [OF assms(1) schedule_wfI [OF assms(2,3)], of lst month] date_list_month [OF assms(1)] by auto
qed

theorem InMonth_sorted_in_month_witness:
  "keeps_dates (tloc ex_now) \<and> care_schedule_checks ex_cadence \<and> season_months ex_cadence \<and>
   (\<exists>ps. InMonth ex_cadence None ex_now ex_now = Some ps
      \<and> sorted_wrt (\<lambda>p q. Before (pj_At p) (pj_At q)) ps)"
  using InMonth_sorted_in_month [OF ex_rows(3,5,6), of None ex_now] ex_rows by blast

text \<open>
  (C35) In a location that keeps dates, for every row that passes the schema's checks and whose
  season, if it has one, is of months 1 to 12: when \<open>Next\<close> produces a date, the first date of
  \<open>InMonth\<close> is that day, or today if the day has passed, then Overdue; for care known to the month
  alone the first of this month stands for today.  When that first date is in the month asked for it is the
  first entry, followed only by later days; when it is after the month there are no entries.
\<close>

theorem InMonth_starts_at_Next:
  assumes "keeps_dates (tloc now)" "care_schedule_checks s" "season_months s" "Next s lst now = Some (Some occ)"
  shows "let due = local_day (tloc now) (unix_sec (At occ));
             first = max due (base_day (Precision occ) now);
             k = month_of_day (local_day (tloc now) (unix_sec month))
    in \<exists>ps. InMonth s lst month now = Some ps \<and>
       (if month_start (k + 1) \<le> first then ps = []
        else if month_start k \<le> first
        then ps \<noteq> [] \<and> hd ps = first_on now due (Precision occ)
          \<and> date_list s (tloc now) (first + 1) (month_start (k + 1)) (tl ps)
        else date_list s (tloc now) (month_start k) (month_start (k + 1)) ps)"
proof -
  let ?l = "tloc now"
  note wf = schedule_wfI [OF assms(2,3)]
  define due where "due = local_day ?l (unix_sec (At occ))"
  define first where "first = max due (base_day (Precision occ) now)"
  define k where "k = month_of_day (local_day ?l (unix_sec month))"
  have fd: "first_date s lst now = Some (Some (first_on now due (Precision occ)))"
    unfolding due_def by (rule first_date_Next [OF assms(1) wf assms(4)])
  have at: "pj_At (first_on now due (Precision occ)) = midnight ?l first"
    by (simp add: first_on_def first_def)
  then have season: "day_in_season s first"
    using first_date_defined [OF assms(1) wf, of lst] fd midnight_inject [OF assms(1)] by auto
  have loop: "InMonth s lst month now = month_loop s ?l (midnight ?l (month_start k))
      (midnight ?l (month_start (k + 1))) (first_on now due (Precision occ)) []"
    by (simp add: InMonth_def Let_def fd month_span [OF assms(1)] k_def)
  note first = month_loop_first [OF assms(1) wf at season, where a = "month_start k" and b = "month_start (k + 1)"]
  consider "month_start (k + 1) \<le> first" | "month_start k \<le> first" "first < month_start (k + 1)"
    | "first < month_start k" by linarith
  then have "\<exists>ps. InMonth s lst month now = Some ps \<and>
       (if month_start (k + 1) \<le> first then ps = []
        else if month_start k \<le> first
        then ps \<noteq> [] \<and> hd ps = first_on now due (Precision occ)
          \<and> date_list s ?l (first + 1) (month_start (k + 1)) (tl ps)
        else date_list s ?l (month_start k) (month_start (k + 1)) ps)"
  proof cases
    case 1
    then show ?thesis using first(1) loop by simp
  next
    case 2
    then obtain qs where "InMonth s lst month now = Some (first_on now due (Precision occ) # qs)"
      "date_list s ?l (first + 1) (month_start (k + 1)) qs"
      using first(2) loop by auto
    with 2 show ?thesis by simp
  next
    case 3
    then have "\<not> month_start (k + 1) \<le> first" using month_start_mono [of k "k + 1"] by simp
    with 3 show ?thesis
      using InMonth_dates [OF assms(1) wf, of lst month] by (simp add: k_def [symmetric])
  qed
  then show ?thesis unfolding Let_def due_def first_def k_def .
qed

theorem InMonth_starts_at_Next_witness:
  "\<exists>ps. InMonth ex_cadence None ex_now ex_now = Some ps \<and> ps \<noteq> []
     \<and> hd ps = first_on ex_now (days_of_date 2026 3 1) ''day''"
proof -
  obtain occ where occ: "Next ex_cadence None ex_now = Some (Some occ)"
    "nsec (At occ) = nsec (mk_Date 2026 3 1 0 0 0 0 utc)"
    using ex_Next_cadence by blast
  have "map_option (map_option Precision) (Next ex_cadence None ex_now) = Some (Some ''day'')"
    by code_simp
  then have p: "Precision occ = ''day''" using occ by simp
  have due: "local_day (tloc ex_now) (unix_sec (At occ)) = days_of_date 2026 3 1"
    unfolding unix_sec_def occ(2) by code_simp
  have now: "base_day ''day'' ex_now = 20514" "local_day (tloc ex_now) (unix_sec ex_now) = 20514"
    "days_of_date 2026 3 1 = 20513" "month_start (month_of_day 20514) = 20513"
    "month_start (month_of_day 20514 + 1) = 20544"
    by code_simp+
  show ?thesis
    using InMonth_starts_at_Next [OF ex_rows(3,5,6) occ(1), of ex_now]
    by (simp add: Let_def p due now) (auto simp: now)
qed

definition ex_daily :: care_schedule where
  "ex_daily = zero_CareSchedule\<lparr>cs_IntervalCount := Some 1, cs_IntervalUnit := Some ''day'',
     cs_SetAt := mk_Date 2026 3 1 9 0 0 0 utc\<rparr>"

definition ex_skipped :: gotime where
  "ex_skipped = mk_Date 2026 3 29 0 0 0 0 azores_2026"

definition ex_skipped_now :: gotime where
  "ex_skipped_now = mk_Date 2026 3 29 12 0 0 0 azores_2026"

lemma following_skipped:
  "\<exists>p. following ex_daily ex_skipped azores_2026 = Some (Some p) \<and> pj_At p = ex_skipped"
proof -
  have "nsec (dayOf (AddDate ex_skipped 0 0 1) azores_2026) = nsec ex_skipped" by code_simp
  then have "dayOf (AddDate ex_skipped 0 0 1) azores_2026 = ex_skipped"
    by (simp add: ex_skipped_def mk_Date_midnight dayOf_midnight)
  then show ?thesis
    by (simp add: following_def ex_daily_def advance_def inSeasonOrNextOpening_def row_simps)
qed

text \<open>A date that \<open>following\<close> gives again is appended forever.\<close>

lemma month_loop_stuck:
  assumes "following s t l = Some (Some q)" "pj_At q = t" "Before t finish" "pj_At p = t"
  shows "month_loop s l start finish p dates = None"
proof (rule ccontr)
  assume "month_loop s l start finish p dates \<noteq> None"
  then obtain ps where ps: "month_loop s l start finish p dates = Some ps" by blast
  have "\<not> (s' = s \<and> l' = l \<and> pj_At p' = t \<and> Before t finish')"
    if "month_loop s' l' start' finish' p' dates' = Some ps'" for s' l' start' finish' p' dates' ps'
  proof (rule month_loop.raw_induct [where P = "\<lambda>s' l' start finish p dates ps.
        \<not> (s' = s \<and> l' = l \<and> pj_At p = t \<and> Before t finish)", OF _ that], goal_cases)
    case (1 loop s' l' start finish p dates ps)
    show ?case using 1(2) 1(1) [of s l start finish q] assms(1,2) by (auto simp: Let_def split: if_splits)
  qed
  from this [OF ps] assms(3,4) show False by blast
qed

lemma skipped_day:
  "dayOf ex_skipped_now azores_2026 = ex_skipped"
  "Before ex_skipped (AddDate (firstOfMonth (In_loc ex_skipped_now azores_2026)) 0 1 0)"
  "tloc ex_skipped_now = azores_2026"
proof -
  have "nsec (dayOf ex_skipped_now azores_2026) = nsec ex_skipped" by code_simp
  then show "dayOf ex_skipped_now azores_2026 = ex_skipped"
    by (simp add: ex_skipped_def mk_Date_midnight dayOf_midnight)
  show "Before ex_skipped (AddDate (firstOfMonth (In_loc ex_skipped_now azores_2026)) 0 1 0)" by code_simp
  show "tloc ex_skipped_now = azores_2026" by (simp add: ex_skipped_now_def mk_Date_def Let_def)
qed

lemma shape_daily:
  obtains occ where "shape ex_daily None azores_2026 = Some (Some occ)"
    "Before (dayOf (At occ) azores_2026) ex_skipped" "Precision occ = ''day''"
proof
  let ?at = "AddDate (In_loc (mk_Date 2026 3 1 9 0 0 0 utc) azores_2026) 0 0 1"
  show "shape ex_daily None azores_2026 = Some (Some \<lparr>At = ?at, Precision = ''day''\<rparr>)"
    by (simp add: shape_def ex_daily_def row_simps advance_def)
  have "Before (dayOf ?at azores_2026) ex_skipped" by code_simp
  then show "Before (dayOf (At \<lparr>At = ?at, Precision = ''day''\<rparr>) azores_2026) ex_skipped" by simp
qed simp

lemma first_date_daily:
  "\<exists>p. first_date ex_daily None ex_skipped_now = Some (Some p) \<and> pj_At p = ex_skipped"
proof -
  obtain occ where occ: "shape ex_daily None azores_2026 = Some (Some occ)"
    "Before (dayOf (At occ) azores_2026) ex_skipped" "Precision occ = ''day''"
    by (rule shape_daily)
  have "cs_SeasonStartMonth ex_daily = None" by (simp add: ex_daily_def row_simps)
  with occ show ?thesis
    by (simp add: first_date_def skipped_day Let_def moved_to_opening_def inSeasonOrNextOpening_def Equal_def)
qed

text \<open>
  In a zone west of UTC whose clocks skip midnight, a daily schedule has no month: from the
  start of the skipped day, read as 23:00 of the day before, the date one day on is that same
  instant again, and \<open>InMonth\<close> appends it forever.
\<close>

theorem InMonth_midnight_gap_diverges:
  "care_schedule_checks ex_daily \<and> season_months ex_daily
    \<and> InMonth ex_daily None ex_skipped_now ex_skipped_now = None"
proof (intro conjI)
  show "care_schedule_checks ex_daily" "season_months ex_daily"
    by (simp_all add: care_schedule_checks_def season_months_def ex_daily_def row_simps)
  obtain p where p: "first_date ex_daily None ex_skipped_now = Some (Some p)" "pj_At p = ex_skipped"
    using first_date_daily by blast
  obtain q where "following ex_daily ex_skipped azores_2026 = Some (Some q)" "pj_At q = ex_skipped"
    using following_skipped by blast
  note stuck = month_loop_stuck [OF this skipped_day(2) p(2)]
  show "InMonth ex_daily None ex_skipped_now ex_skipped_now = None"
    by (simp add: InMonth_def Let_def p(1) skipped_day(3) stuck)
qed

text \<open>
  The schema does not check the months of a season.  With a season of month 0, the opening after a
  day of December is the first of that December, so a daily schedule falls due on it again and
  again, and \<open>InMonth\<close> does not return.  The editor does not store such a row.
\<close>

definition ex_month_zero :: care_schedule where
  "ex_month_zero = ex_daily\<lparr>cs_SeasonStartMonth := Some 0, cs_SeasonEndMonth := Some 0\<rparr>"

definition ex_december :: gotime where
  "ex_december = mk_Date 2026 12 15 12 0 0 0 utc"

lemma month_zero_opening: "n \<in> {20788, 20789, 20802} \<Longrightarrow>
    inSeasonOrNextOpening ex_month_zero (midnight utc n) = Some (midnight utc 20788)"
proof -
  assume n: "n \<in> {20788, 20789, 20802}"
  have "civil_of_days 20788 = (2026, 12, 1)" "civil_of_days 20789 = (2026, 12, 2)"
    "civil_of_days 20802 = (2026, 12, 15)" by code_simp+
  with n have d: "Year (midnight utc n) = 2026" "Month (midnight utc n) = 12"
    by (auto simp: Year_def Month_def Date_of_midnight utc_zone.keeps_dates_axioms)
  have "days_of_date 2026 0 1 = 20423" "civil_of_days 20423 = (2025, 12, 1)" "days_of_date 2026 12 1 = 20788"
    by code_simp+
  then have "AddDate (midnight utc 20423) 1 0 0 = midnight utc 20788"
    by (simp add: AddDate_def Date_of_midnight Clock_midnight utc_zone.keeps_dates_axioms mk_Date_midnight)
  moreover have "mk_Date 2026 0 1 0 0 0 0 utc = midnight utc 20423"
    using \<open>days_of_date 2026 0 1 = 20423\<close> by (simp add: mk_Date_midnight)
  moreover have "\<not> After (midnight utc 20423) (midnight utc n)"
    using n by (auto simp: midnight_compare utc_zone.keeps_dates_axioms)
  ultimately show ?thesis
    by (simp add: inSeasonOrNextOpening_def ex_month_zero_def inSeason_def nextOpening_def d)
qed

theorem InMonth_season_zero_diverges:
  "care_schedule_checks ex_month_zero \<and> keeps_dates (tloc ex_december)
    \<and> InMonth ex_month_zero None ex_december ex_december = None"
proof (intro conjI)
  show "care_schedule_checks ex_month_zero"
    by (simp add: care_schedule_checks_def ex_month_zero_def ex_daily_def row_simps)
  have l: "tloc ex_december = utc" by (simp add: ex_december_def mk_Date_def Let_def)
  then show "keeps_dates (tloc ex_december)" by (simp add: utc_zone.keeps_dates_axioms)
  have kd: "keeps_dates utc" by (rule utc_zone.keeps_dates_axioms)
  have next_day: "advance (midnight utc 20788) 1 ''day'' 1 = Some (midnight utc 20789)"
    by (simp add: advance_midnight [OF kd] known_unit_def series_day_def)
  obtain q where q: "following ex_month_zero (midnight utc 20788) utc = Some (Some q)" "pj_At q = midnight utc 20788"
    using next_day month_zero_opening [of 20789]
    by (simp add: following_def ex_month_zero_def ex_daily_def row_simps dayOf_midnight)
  have today: "local_day utc (unix_sec ex_december) = 20802" by code_simp
  obtain occ where occ: "shape ex_month_zero None utc = Some (Some occ)" "dayOf (At occ) utc = midnight utc 20514"
    "Precision occ = ''day''"
  proof -
    have "since_day ex_month_zero None utc = 20513"
      "(1772409600 + unix_sec (mk_Date 2026 3 1 9 0 0 0 utc) mod 86400) div 86400 = 20514" by code_simp+
    then show thesis
      using that shape_cadence [OF kd, of None ex_month_zero 1 "''day''"]
      by (simp add: ex_month_zero_def ex_daily_def row_simps known_unit_def dayOf_midnight series_day_def
          keeps_dates.resolve_day [OF kd])
  qed
  have "Month (midnight utc 20802) = 12"
  proof -
    have "civil_of_days 20802 = (2026, 12, 15)" by code_simp
    then show ?thesis by (simp add: Month_def Date_of_midnight kd)
  qed
  then have first: "\<exists>p. first_date ex_month_zero None ex_december = Some (Some p) \<and> pj_At p = midnight utc 20788"
    using occ month_zero_opening [of 20802] l today
    by (simp add: first_date_def Let_def dayOf_midnight moved_to_opening_def ex_month_zero_def inSeason_def
        midnight_compare kd row_simps split: option.splits)
  have finish: "Before (midnight utc 20788) (AddDate (firstOfMonth (In_loc ex_december utc)) 0 1 0)" by code_simp
  from first obtain p where p: "first_date ex_month_zero None ex_december = Some (Some p)" "pj_At p = midnight utc 20788"
    by blast
  show "InMonth ex_month_zero None ex_december ex_december = None"
    by (simp add: InMonth_def Let_def p(1) l month_loop_stuck [OF q finish p(2)])
qed

end
