(* ===== verification/Go_Text.thy ===== *)
theory Go_Text
  imports Prelude
begin

text \<open>
  What the program uses of Go's packages \<open>strconv\<close>, \<open>strings\<close> and \<open>unicode/utf8\<close>: decimal
  numbers written and read, joining, and the first rune of a string.  A string is its bytes.
\<close>

section \<open>Decimal numbers\<close>

definition digit :: "nat \<Rightarrow> char" where
  "digit n = char_of (48 + n)"

fun decimal :: "nat \<Rightarrow> string" where
  "decimal n = (if n < 10 then [digit n] else decimal (n div 10) @ [digit (n mod 10)])"

declare decimal.simps [simp del]

text \<open>\<open>appendInt\<close> of package time: at least \<open>w\<close> digits.\<close>

fun pad :: "nat \<Rightarrow> nat \<Rightarrow> string" where
  "pad 0 n = (if n = 0 then '''' else decimal n)"
| "pad (Suc w) n = pad w (n div 10) @ [digit (n mod 10)]"

definition digit_value :: "char \<Rightarrow> nat option" where
  "digit_value c = (let k = of_char c :: nat in if 48 \<le> k \<and> k \<le> 57 then Some (k - 48) else None)"

fun number :: "nat \<Rightarrow> string \<Rightarrow> nat option" where
  "number acc [] = Some acc"
| "number acc (c # cs) =
     (case digit_value c of None \<Rightarrow> None | Some v \<Rightarrow> number (10 * acc + v) cs)"

text \<open>\<open>strconv.Itoa\<close>, and \<open>strconv.ParseInt(s, 10, bits)\<close>, which is \<open>Atoi\<close> for 64 bits: an
  optional sign and at least one digit, in the range of the width.\<close>

definition Itoa :: "int \<Rightarrow> string" where
  "Itoa n = (if n < 0 then ''-'' else '''') @ decimal (nat \<bar>n\<bar>)"

definition signed :: "string \<Rightarrow> bool \<times> string" where
  "signed s =
     (case s of
        [] \<Rightarrow> (False, [])
      | c # cs \<Rightarrow>
          if c = CHR ''-'' then (True, cs) else if c = CHR ''+'' then (False, cs) else (False, s))"

definition ParseInt :: "nat \<Rightarrow> string \<Rightarrow> int option" where
  "ParseInt bits s =
     (case signed s of (neg, ds) \<Rightarrow>
        if ds = [] then None
        else (case number 0 ds of
                None \<Rightarrow> None
              | Some n \<Rightarrow>
                  (let v = (if neg then - int n else int n) in
                   if - (2 ^ (bits - 1)) \<le> v \<and> v < 2 ^ (bits - 1) then Some v else None)))"

abbreviation Atoi :: "string \<Rightarrow> int option" where
  "Atoi \<equiv> ParseInt 64"

lemma digit_value_digit [simp]: "k < 10 \<Longrightarrow> digit_value (digit k) = Some k"
  by (auto simp: digit_value_def digit_def)

lemma number_append: "number acc (xs @ ys) = Option.bind (number acc xs) (\<lambda>a. number a ys)"
  by (induction xs arbitrary: acc) (auto split: option.splits)

lemma number_decimal: "number 0 (decimal n) = Some n"
proof (induction n rule: decimal.induct)
  case (1 n)
  then show ?case
    by (subst decimal.simps) (auto simp: number_append)
qed

lemma decimal_digits: "c \<in> set (decimal n) \<Longrightarrow> \<exists>k < 10. c = digit k"
proof (induction n rule: decimal.induct)
  case (1 n)
  show ?case
  proof (cases "n < 10")
    case True
    with "1.prems" show ?thesis by (auto simp: decimal.simps [of n])
  next
    case False
    with "1.prems" have "c \<in> set (decimal (n div 10)) \<or> c = digit (n mod 10)" by (auto simp: decimal.simps [of n])
    with "1.IH" [OF False] show ?thesis by (auto intro: exI [of _ "n mod 10"])
  qed
qed

lemma decimal_nonempty [simp]: "decimal n \<noteq> []"
  by (subst decimal.simps) simp

lemma digit_not_sign: "k < 10 \<Longrightarrow> digit k \<noteq> CHR ''-'' \<and> digit k \<noteq> CHR ''+''"
proof -
  assume "k < 10"
  then have "digit_value (digit k) \<noteq> None" by simp
  moreover have "digit_value (CHR ''-'') = None" "digit_value (CHR ''+'') = None" by (simp_all add: digit_value_def)
  ultimately show ?thesis by metis
qed

lemma signed_decimal: "signed (decimal n) = (False, decimal n)"
proof (cases "decimal n")
  case (Cons c cs)
  then obtain k where "k < 10" "c = digit k" using decimal_digits [of c n] by auto
  with Cons digit_not_sign [of k] show ?thesis by (simp add: signed_def)
qed simp

text \<open>Printing and reading a number in range.\<close>

lemma ParseInt_Itoa:
  assumes "- (2 ^ (bits - 1)) \<le> n" "n < 2 ^ (bits - 1)"
  shows "ParseInt bits (Itoa n) = Some n"
proof (cases "n < 0")
  case True
  then have "signed (Itoa n) = (True, decimal (nat \<bar>n\<bar>))" by (simp add: Itoa_def signed_def)
  with True assms show ?thesis by (simp add: ParseInt_def number_decimal Let_def)
next
  case False
  then have "signed (Itoa n) = (False, decimal (nat \<bar>n\<bar>))" by (simp add: Itoa_def signed_decimal)
  with False assms show ?thesis by (simp add: ParseInt_def number_decimal Let_def)
qed

section \<open>strings.Join\<close>

fun Join :: "string list \<Rightarrow> string \<Rightarrow> string" where
  "Join [] sep = ''''"
| "Join [x] sep = x"
| "Join (x # y # ys) sep = x @ sep @ Join (y # ys) sep"

section \<open>Runes\<close>

text \<open>\<open>utf8.DecodeRuneInString\<close>: the rune and its width; U+FFFD for bytes that encode none.\<close>

definition RuneError :: nat where "RuneError = 65533"

definition in_range :: "nat \<Rightarrow> nat \<Rightarrow> nat \<Rightarrow> bool" where
  "in_range lo hi b \<longleftrightarrow> lo \<le> b \<and> b \<le> hi"

definition DecodeRune :: "string \<Rightarrow> nat \<times> nat" where
  "DecodeRune s =
     (case map (of_char :: char \<Rightarrow> nat) (take 4 s) of
        [] \<Rightarrow> (RuneError, 0)
      | b0 # bs \<Rightarrow>
          if b0 < 128 then (b0, 1)
          else (case bs of
             b1 # cs \<Rightarrow>
               if in_range 194 223 b0 \<and> in_range 128 191 b1
               then ((b0 - 192) * 64 + (b1 - 128), 2)
               else (case cs of
                  b2 # ds \<Rightarrow>
                    if in_range 224 239 b0 \<and> in_range (if b0 = 224 then 160 else 128) (if b0 = 237 then 159 else 191) b1
                       \<and> in_range 128 191 b2
                    then ((b0 - 224) * 4096 + (b1 - 128) * 64 + (b2 - 128), 3)
                    else (case ds of
                       b3 # _ \<Rightarrow>
                         if in_range 240 244 b0 \<and> in_range (if b0 = 240 then 144 else 128) (if b0 = 244 then 143 else 191) b1
                            \<and> in_range 128 191 b2 \<and> in_range 128 191 b3
                         then ((b0 - 240) * 262144 + (b1 - 128) * 4096 + (b2 - 128) * 64 + (b3 - 128), 4)
                         else (RuneError, 1)
                     | [] \<Rightarrow> (RuneError, 1))
                | [] \<Rightarrow> (RuneError, 1))
           | [] \<Rightarrow> (RuneError, 1)))"

text \<open>\<open>string(r)\<close> of a rune: its UTF-8 bytes, those of U+FFFD for a number that is no rune.\<close>

definition rune_bytes :: "nat \<Rightarrow> nat list" where
  "rune_bytes r =
     (if r < 128 then [r]
      else if r < 2048 then [192 + r div 64, 128 + r mod 64]
      else if in_range 55296 57343 r \<or> 1114111 < r then [239, 191, 189]
      else if r < 65536 then [224 + r div 4096, 128 + r div 64 mod 64, 128 + r mod 64]
      else [240 + r div 262144, 128 + r div 4096 mod 64, 128 + r div 64 mod 64, 128 + r mod 64])"

definition EncodeRune :: "nat \<Rightarrow> string" where
  "EncodeRune r = map char_of (rune_bytes r)"

end
