(* ===== verification/Push_Hour.thy ===== *)
theory Push_Hour
  imports Go_Time Go_Text
begin

text \<open>
  When a digest is sent: \<open>src/internal/push/hour.go\<close>.  \<open>instantOf\<close> finds the first instant of
  a calendar day at which a location's clock reads an hour, across clock changes; \<open>nextDigest\<close>
  finds the next day whose digest is still to be sent.  Also the two layouts of \<open>time.Format\<close>
  that make the ledger's send keys, with the proofs that a date key parses back to its date and
  that the keys sort as the dates do.
\<close>

section \<open>Dates as text\<close>

text \<open>\<open>Format("2006-01-02")\<close> and \<open>Parse("2006-01-02", s)\<close>.\<close>

definition format_date :: "int \<Rightarrow> int \<Rightarrow> int \<Rightarrow> string" where
  "format_date y m d =
     (if y < 0 then ''-'' else '''') @ pad 4 (nat \<bar>y\<bar>) @ ''-'' @ pad 2 (nat m) @ ''-'' @ pad 2 (nat d)"

definition Format_dateKey :: "gotime \<Rightarrow> string" where
  "Format_dateKey t = (case Date_of t of (y, m, d) \<Rightarrow> format_date y m d)"

definition Parse_dateKey :: "string \<Rightarrow> gotime option" where
  "Parse_dateKey s =
     (if length s = 10 \<and> s ! 4 = CHR ''-'' \<and> s ! 7 = CHR ''-'' then
        (case (number 0 (take 4 s), number 0 (take 2 (drop 5 s)), number 0 (drop 8 s)) of
           (Some y, Some m, Some d) \<Rightarrow>
             (if 1 \<le> m \<and> m \<le> 12 \<and> 1 \<le> d \<and> int d \<le> days_in_month (int y) (int m)
              then Some (mk_Date (int y) (int m) (int d) 0 0 0 0 utc) else None)
         | _ \<Rightarrow> None)
      else None)"

section \<open>instantOf\<close>

definition Zone_offset :: "gotime \<Rightarrow> location \<Rightarrow> int" where
  "Zone_offset t l = utc_offset l (unix_sec t)"

definition MinTime :: "gotime \<Rightarrow> gotime list \<Rightarrow> gotime" where
  "MinTime t ts = foldl (\<lambda>m x. if Before x m then x else m) t ts"

definition MaxTime :: "gotime \<Rightarrow> gotime list \<Rightarrow> gotime" where
  "MaxTime t ts = foldl (\<lambda>m x. if After x m then x else m) t ts"

text \<open>The loop that narrows to the instant the offset becomes \<open>after\<close>.\<close>

function bisect :: "location \<Rightarrow> int \<Rightarrow> gotime \<Rightarrow> gotime \<Rightarrow> gotime" where
  "bisect l after lo hi =
     (if sec_ns < Sub hi lo then
        (let mid = Add lo (quot (Sub hi lo) 2) in
         if Zone_offset mid l = after then bisect l after lo mid else bisect l after mid hi)
      else hi)"
  by auto

definition reads :: "int \<Rightarrow> int \<Rightarrow> int \<Rightarrow> int \<Rightarrow> location \<Rightarrow> gotime \<Rightarrow> bool" where
  "reads y m d hour l t =
     (let local = In_loc t l in
      case Clock local of (h, mi, _) \<Rightarrow> Date_of local = (y, m, d) \<and> h = hour \<and> mi = 0)"

lemma quot_half:
  assumes "sec_ns < Sub hi lo"
  shows "0 < quot (Sub hi lo) 2" "quot (Sub hi lo) 2 < nsec hi - nsec lo" "nsec lo < nsec hi"
proof -
  have "0 < Sub hi lo" "Sub hi lo \<le> nsec hi - nsec lo"
    using assms by (auto simp: Sub_def min_duration_def max_duration_def)
  with assms show "0 < quot (Sub hi lo) 2" "quot (Sub hi lo) 2 < nsec hi - nsec lo" "nsec lo < nsec hi"
    by (auto simp: quot_def)
qed

termination bisect
  by (relation "measure (\<lambda>(l, after, lo, hi). nat (nsec hi - nsec lo))")
    (use quot_half in \<open>auto simp: Add_def Let_def\<close>)

declare bisect.simps [simp del]

definition candidate :: "location \<Rightarrow> gotime \<Rightarrow> gotime \<Rightarrow> gotime" where
  "candidate l wall_time probe = Add wall_time (- Zone_offset probe l * sec_ns)"

definition instantOf :: "int \<Rightarrow> int \<Rightarrow> int \<Rightarrow> int \<Rightarrow> location \<Rightarrow> gotime" where
  "instantOf y m d hour l =
     (let w = mk_Date y m d hour 0 0 0 utc;
          candidates = map (candidate l w) [Add w (- 24 * hour_ns), w, Add w (24 * hour_ns)];
          valid = filter (reads y m d hour l) candidates
      in case valid of
           v # vs \<Rightarrow> MinTime v vs
         | [] \<Rightarrow>
             (let lo = MinTime (hd candidates) (tl candidates);
                  hi = MaxTime (hd candidates) (tl candidates)
              in bisect l (Zone_offset hi l) lo hi))"

section \<open>nextDigest\<close>

definition maxLate :: int where "maxLate = hour_ns"

partial_function (option) digest_loop ::
  "int \<Rightarrow> location \<Rightarrow> gotime \<Rightarrow> gotime \<Rightarrow> gotime \<Rightarrow> (gotime \<times> string \<times> gotime) option" where
  "digest_loop hour l now day skipped =
     (let at = instantOf (Year day) (Month day) (Day_of day) hour l in
      if Sub now at < maxLate then Some (at, Format_dateKey day, skipped)
      else digest_loop hour l now (AddDate day 0 0 1) at)"

definition first_day :: "location \<Rightarrow> string \<Rightarrow> gotime \<Rightarrow> gotime" where
  "first_day l sentThrough now =
     (let day = (case Date_of (In_loc now l) of (y, m, d) \<Rightarrow> mk_Date y m d 0 0 0 0 utc) in
      case Parse_dateKey sentThrough of
        Some sent \<Rightarrow> if \<not> Before sent day then AddDate sent 0 0 1 else day
      | None \<Rightarrow> day)"

definition nextDigest ::
  "int \<Rightarrow> location \<Rightarrow> string \<Rightarrow> gotime \<Rightarrow> (gotime \<times> string \<times> gotime) option" where
  "nextDigest hour l sentThrough now =
     digest_loop hour l now (first_day l sentThrough now) zero_time"

section \<open>Send keys\<close>

lemma length_pad: "n < 10 ^ w \<Longrightarrow> length (pad w n) = w"
  by (induction w n rule: pad.induct) auto

lemma number_pad: "n < 10 ^ w \<Longrightarrow> number acc (pad w n) = Some (acc * 10 ^ w + n)"
proof (induction w n arbitrary: acc rule: pad.induct)
  case (2 w n)
  then have "n div 10 < 10 ^ w" by auto
  with "2.IH" show ?case by (simp add: number_append algebra_simps)
qed simp

lemma strings_Compare_append:
  "length xs = length ys \<Longrightarrow>
    strings_Compare (xs @ us) (ys @ vs) = cmp_Or (strings_Compare xs ys) (strings_Compare us vs)"
proof (induction xs ys rule: list_induct2)
  case Nil
  then show ?case by (simp add: cmp_Or_def)
qed (simp add: cmp_Or_def)

lemma strings_Compare_digit:
  "a < 10 \<Longrightarrow> b < 10 \<Longrightarrow> strings_Compare [digit a] [digit b] = cmp_Compare a b"
  by (auto simp: digit_def cmp_Compare_def)

lemma cmp_Compare_div10:
  "cmp_Compare (a::nat) b = cmp_Or (cmp_Compare (a div 10) (b div 10)) (cmp_Compare (a mod 10) (b mod 10))"
proof -
  have a: "a = 10 * (a div 10) + a mod 10" and b: "b = 10 * (b div 10) + b mod 10" by simp_all
  have m: "a mod 10 < 10" "b mod 10 < 10" by simp_all
  show ?thesis
  proof (cases "a div 10 = b div 10")
    case True
    with a b have "a < b \<longleftrightarrow> a mod 10 < b mod 10" "a = b \<longleftrightarrow> a mod 10 = b mod 10" by linarith+
    with True show ?thesis by (simp add: cmp_Or_def cmp_Compare_def)
  next
    case False
    with a b m have "a < b \<longleftrightarrow> a div 10 < b div 10" "a \<noteq> b" by linarith+
    with False show ?thesis by (simp add: cmp_Or_def cmp_Compare_def)
  qed
qed

lemma strings_Compare_pad:
  "a < 10 ^ w \<Longrightarrow> b < 10 ^ w \<Longrightarrow> strings_Compare (pad w a) (pad w b) = cmp_Compare a b"
proof (induction w arbitrary: a b)
  case 0
  then show ?case by (simp add: cmp_Compare_def)
next
  case (Suc w)
  then have d: "a div 10 < 10 ^ w" "b div 10 < 10 ^ w" by auto
  then have "strings_Compare (pad (Suc w) a) (pad (Suc w) b)
      = cmp_Or (cmp_Compare (a div 10) (b div 10)) (cmp_Compare (a mod 10) (b mod 10))"
    using Suc.IH [OF d] strings_Compare_digit [of "a mod 10" "b mod 10"]
    by (simp add: strings_Compare_append length_pad del: strings_Compare.simps)
  then show ?case using cmp_Compare_div10 by metis
qed

text \<open>A date a key can hold: four digits of year.\<close>

definition key_date :: "int \<Rightarrow> int \<Rightarrow> int \<Rightarrow> bool" where
  "key_date y m d \<longleftrightarrow> 0 \<le> y \<and> y \<le> 9999 \<and> valid_date y m d"

lemma key_date_bounds:
  "key_date y m d \<Longrightarrow> nat \<bar>y\<bar> < 10 ^ 4 \<and> nat m < 10 ^ 2 \<and> nat d < 10 ^ 2 \<and> 1 \<le> m \<and> m \<le> 12 \<and> 1 \<le> d
    \<and> d \<le> days_in_month y m"
  using days_in_month_bounds [of m y] by (auto simp: key_date_def valid_date_def)

lemma Parse_format_date:
  assumes "key_date y m d"
  shows "Parse_dateKey (format_date y m d) = Some (mk_Date y m d 0 0 0 0 utc)"
proof -
  note b = key_date_bounds [OF assms]
  have y: "0 \<le> y" using assms by (simp add: key_date_def)
  have len: "length (pad 4 (nat y)) = 4" "length (pad 2 (nat m)) = 2" "length (pad 2 (nat d)) = 2"
    using b y by (simp_all add: length_pad)
  have s: "format_date y m d = pad 4 (nat y) @ CHR ''-'' # pad 2 (nat m) @ CHR ''-'' # pad 2 (nat d)"
    using y by (simp add: format_date_def)
  have "take 4 (format_date y m d) = pad 4 (nat y)" "take 2 (drop 5 (format_date y m d)) = pad 2 (nat m)"
    "drop 8 (format_date y m d) = pad 2 (nat d)" "format_date y m d ! 4 = CHR ''-''"
    "format_date y m d ! 7 = CHR ''-''" "length (format_date y m d) = 10"
    using len unfolding s by (simp_all add: nth_append nth_Cons')
  then show ?thesis
    using b y by (auto simp: Parse_dateKey_def number_pad)
qed

lemma strings_Compare_format_date:
  assumes "key_date y m d" "key_date y' m' d'"
  shows "strings_Compare (format_date y m d) (format_date y' m' d')
    = cmp_Or (cmp_Compare y y') (cmp_Or (cmp_Compare m m') (cmp_Compare d d'))"
proof -
  note b = key_date_bounds [OF assms(1)] key_date_bounds [OF assms(2)]
  have y: "0 \<le> y" "0 \<le> y'" using assms by (simp_all add: key_date_def)
  have c: "cmp_Compare (nat a) (nat b) = cmp_Compare a b" if "0 \<le> a" "0 \<le> b" for a b :: int
    using that by (auto simp: cmp_Compare_def nat_less_iff)
  have dash: "strings_Compare (CHR ''-'' # us) (CHR ''-'' # vs) = strings_Compare us vs" for us vs by simp
  have p: "strings_Compare (pad 4 (nat y)) (pad 4 (nat y')) = cmp_Compare y y'"
    "strings_Compare (pad 2 (nat m)) (pad 2 (nat m')) = cmp_Compare m m'"
    "strings_Compare (pad 2 (nat d)) (pad 2 (nat d')) = cmp_Compare d d'"
    using b y by (simp_all add: strings_Compare_pad c)
  have l: "length (pad 4 (nat y)) = length (pad 4 (nat y'))" "length (pad 2 (nat m)) = length (pad 2 (nat m'))"
    using b y by (simp_all add: length_pad)
  show ?thesis
    using y by (simp add: format_date_def strings_Compare_append l p dash)
qed

lemma days_of_date_lex:
  assumes "valid_date y m d" "valid_date y' m' d'"
  shows "days_of_date y m d < days_of_date y' m' d' \<longleftrightarrow> y < y' \<or> y = y' \<and> (m < m' \<or> m = m' \<and> d < d')"
proof -
  have less: "days_of_date y m d < days_of_date y' m' d'"
    if "valid_date y m d" "valid_date y' m' d'" "12 * y + m < 12 * y' + m'" for y m d y' m' d'
    using that month_start_less [of "12 * y + m - 1" "12 * y' + m' - 1"] month_len_days_in_month [of m y]
    by (auto simp: days_of_date_month_start valid_date_def month_len_def)
  have m: "1 \<le> m" "m \<le> 12" "1 \<le> m'" "m' \<le> 12" using assms by (auto simp: valid_date_def)
  consider "12 * y + m < 12 * y' + m'" | "12 * y' + m' < 12 * y + m" | "12 * y + m = 12 * y' + m'" by linarith
  then show ?thesis
  proof cases
    case 1
    then show ?thesis using less [OF assms 1] m by auto
  next
    case 2
    then show ?thesis using less [OF assms(2,1) 2] m by auto
  next
    case 3
    then have "y = y'" "m = m'" using m by presburger+
    then show ?thesis by (simp add: days_of_date_month_start)
  qed
qed

section \<open>instantOf stays near its day\<close>

text \<open>What every zone of the database promises: an offset of at most a day.\<close>

definition bounded_offsets :: "location \<Rightarrow> bool" where
  "bounded_offsets l \<longleftrightarrow> (\<forall>s. - 86400 \<le> utc_offset l s \<and> utc_offset l s \<le> 86400)"

lemma MinTime_props:
  "MinTime t ts \<in> set (t # ts)" "\<forall>x \<in> set (t # ts). nsec (MinTime t ts) \<le> nsec x"
proof -
  have "MinTime t ts \<in> set (t # ts) \<and> (\<forall>x \<in> set (t # ts). nsec (MinTime t ts) \<le> nsec x)"
  proof (induction ts arbitrary: t)
    case (Cons y ts)
    have "MinTime t (y # ts) = MinTime (if Before y t then y else t) ts" by (simp add: MinTime_def)
    with Cons.IH [of y] Cons.IH [of t] show ?case by (cases "Before y t") (auto simp: Before_def)
  qed (simp add: MinTime_def)
  then show "MinTime t ts \<in> set (t # ts)" "\<forall>x \<in> set (t # ts). nsec (MinTime t ts) \<le> nsec x" by blast+
qed

lemma MaxTime_props:
  "MaxTime t ts \<in> set (t # ts)" "\<forall>x \<in> set (t # ts). nsec x \<le> nsec (MaxTime t ts)"
proof -
  have "MaxTime t ts \<in> set (t # ts) \<and> (\<forall>x \<in> set (t # ts). nsec x \<le> nsec (MaxTime t ts))"
  proof (induction ts arbitrary: t)
    case (Cons y ts)
    have "MaxTime t (y # ts) = MaxTime (if After y t then y else t) ts" by (simp add: MaxTime_def)
    with Cons.IH [of y] Cons.IH [of t] show ?case by (cases "After y t") (auto simp: After_def)
  qed (simp add: MaxTime_def)
  then show "MaxTime t ts \<in> set (t # ts)" "\<forall>x \<in> set (t # ts). nsec x \<le> nsec (MaxTime t ts)" by blast+
qed

lemma bisect_between:
  "nsec lo \<le> nsec hi \<Longrightarrow> nsec lo \<le> nsec (bisect l after lo hi) \<and> nsec (bisect l after lo hi) \<le> nsec hi"
proof (induction l after lo hi rule: bisect.induct)
  case (1 l after lo hi)
  show ?case
  proof (cases "sec_ns < Sub hi lo")
    case True
    then show ?thesis
      using "1.IH" [OF True refl] quot_half [OF True]
      by (subst (1 2) bisect.simps) (auto simp: Let_def Add_def)
  next
    case False
    then show ?thesis using 1 by (subst (1 2) bisect.simps) simp
  qed
qed

lemma nsec_wall_time: "nsec (mk_Date y m d h 0 0 0 utc) = (days_of_date y m d * 86400 + h * 3600) * sec_ns"
  by (simp add: mk_Date_def Let_def)

lemma instantOf_near:
  assumes "bounded_offsets l"
  shows "\<bar>nsec (instantOf y m d hour l) - (days_of_date y m d * 86400 + hour * 3600) * sec_ns\<bar> \<le> day_ns"
proof -
  define w where "w = mk_Date y m d hour 0 0 0 utc"
  define cs where "cs = map (candidate l w) [Add w (- 24 * hour_ns), w, Add w (24 * hour_ns)]"
  have c: "\<bar>nsec c - nsec w\<bar> \<le> day_ns" if "c \<in> set cs" for c
  proof -
    have "\<bar>utc_offset l s * sec_ns\<bar> \<le> day_ns" for s
    proof -
      have "- 86400 \<le> utc_offset l s" "utc_offset l s \<le> 86400" using assms by (simp_all add: bounded_offsets_def)
      then show ?thesis by (simp add: abs_le_iff)
    qed
    then show ?thesis using that by (auto simp: cs_def candidate_def Add_def Zone_offset_def)
  qed
  have cs: "hd cs # tl cs = cs" by (simp add: cs_def)
  let ?valid = "filter (reads y m d hour l) cs"
  let ?lo = "MinTime (hd cs) (tl cs)" and ?hi = "MaxTime (hd cs) (tl cs)"
  have lohi: "?lo \<in> set cs" "?hi \<in> set cs" "nsec ?lo \<le> nsec ?hi"
    using MinTime_props [of "hd cs" "tl cs"] MaxTime_props [of "hd cs" "tl cs"] unfolding cs by auto
  have "\<bar>nsec (instantOf y m d hour l) - nsec w\<bar> \<le> day_ns"
  proof (cases ?valid)
    case Nil
    then have "instantOf y m d hour l = bisect l (Zone_offset ?hi l) ?lo ?hi"
      by (simp add: instantOf_def Let_def w_def cs_def)
    then show ?thesis
      using bisect_between [OF lohi(3), of l "Zone_offset ?hi l"] c [OF lohi(1)] c [OF lohi(2)] by (simp add: abs_le_iff)
  next
    case (Cons v vs)
    then have "instantOf y m d hour l = MinTime v vs"
      by (simp add: instantOf_def Let_def w_def cs_def)
    moreover have "MinTime v vs \<in> set cs"
      using MinTime_props(1) [of v vs] Cons by (metis filter_is_subset subsetD)
    ultimately show ?thesis using c by simp
  qed
  then show ?thesis by (simp add: w_def nsec_wall_time)
qed

section \<open>The days a digest passes over\<close>

text \<open>The instant of a member's digest on the day with number \<open>n\<close>.\<close>

definition digest_at :: "int \<Rightarrow> location \<Rightarrow> int \<Rightarrow> gotime" where
  "digest_at hour l n = (case civil_of_days n of (y, m, d) \<Rightarrow> instantOf y m d hour l)"

abbreviation too_late :: "int \<Rightarrow> location \<Rightarrow> gotime \<Rightarrow> int \<Rightarrow> bool" where
  "too_late hour l now n \<equiv> maxLate \<le> nsec now - nsec (digest_at hour l n)"

lemma Sub_maxLate: "Sub now at < maxLate \<longleftrightarrow> nsec now - nsec at < maxLate"
  by (auto simp: Sub_def maxLate_def max_duration_def min_duration_def)

lemma digest_at_near:
  assumes "bounded_offsets l"
  shows "(n * 86400 + hour * 3600) * sec_ns - day_ns \<le> nsec (digest_at hour l n)"
proof -
  obtain y m d where c: "civil_of_days n = (y, m, d)" by (cases "civil_of_days n") auto
  show ?thesis
    using instantOf_near [OF assms, of y m d hour] civil_of_days_valid(2) [OF c]
    by (simp add: digest_at_def c abs_le_iff)
qed

lemma digest_loop_step:
  "digest_loop hour l now (midnight utc n) skipped =
     (if too_late hour l now n
      then digest_loop hour l now (midnight utc (n + 1)) (digest_at hour l n)
      else Some (digest_at hour l n, Format_dateKey (midnight utc n), skipped))"
proof -
  obtain y m d where c: "civil_of_days n = (y, m, d)" by (cases "civil_of_days n") auto
  then have "instantOf (Year (midnight utc n)) (Month (midnight utc n)) (Day_of (midnight utc n)) hour l
      = digest_at hour l n"
    by (simp add: digest_at_def Year_def Month_def Day_of_def
        Date_of_midnight [OF utc_zone.keeps_dates_axioms])
  then show ?thesis
    by (subst digest_loop.simps)
      (simp add: Let_def Sub_maxLate AddDate_midnight_days [OF utc_zone.keeps_dates_axioms] not_le)
qed

lemma digest_loop_returns:
  assumes "bounded_offsets l" "0 \<le> hour"
  shows "\<exists>k \<ge> n. digest_loop hour l now (midnight utc n) skipped
      = Some (digest_at hour l k, Format_dateKey (midnight utc k),
          if k = n then skipped else digest_at hour l (k - 1))
    \<and> \<not> too_late hour l now k \<and> (\<forall>j. n \<le> j \<and> j < k \<longrightarrow> too_late hour l now j)"
proof (induction "nat (nsec now div day_ns + 2 - n)" arbitrary: n skipped rule: less_induct)
  case less
  show ?case
  proof (cases "too_late hour l now n")
    case False
    then show ?thesis by (intro exI [of _ n]) (simp add: digest_loop_step)
  next
    case True
    have "(n * 86400 + hour * 3600) * sec_ns - day_ns \<le> nsec now"
      using True digest_at_near [OF assms(1), of n hour] by (simp add: maxLate_def)
    then have "(n - 1) * day_ns \<le> nsec now" using assms(2) by (simp add: algebra_simps)
    then have "n - 1 \<le> nsec now div day_ns" by (metis int_div_less_iff leD linorder_not_less zero_less_numeral)
    then have "nat (nsec now div day_ns + 2 - (n + 1)) < nat (nsec now div day_ns + 2 - n)" by simp
    from less [OF this, of "digest_at hour l n"] obtain k where k: "n + 1 \<le> k"
      "digest_loop hour l now (midnight utc (n + 1)) (digest_at hour l n)
        = Some (digest_at hour l k, Format_dateKey (midnight utc k),
            if k = n + 1 then digest_at hour l n else digest_at hour l (k - 1))"
      "\<not> too_late hour l now k" "\<forall>j. n + 1 \<le> j \<and> j < k \<longrightarrow> too_late hour l now j" by blast
    have "too_late hour l now j" if "n \<le> j" "j < k" for j
      using that k(4) True by (cases "j = n") auto
    with k(1-3) True show ?thesis by (intro exI [of _ k]) (auto simp: digest_loop_step)
  qed
qed

text \<open>The first day the search looks at: today, or the day after the last one sent for.\<close>

definition first_number :: "location \<Rightarrow> string \<Rightarrow> gotime \<Rightarrow> int" where
  "first_number l sentThrough now =
     (case Parse_dateKey sentThrough of
        Some sent \<Rightarrow> max (local_day l (unix_sec now)) (day_of sent + 1)
      | None \<Rightarrow> local_day l (unix_sec now))"

lemma Parse_dateKey_midnight: "Parse_dateKey s = Some t \<Longrightarrow> t = midnight utc (day_of t)"
  by (auto simp: Parse_dateKey_def mk_Date_midnight split: if_splits option.splits)

lemma first_day_number: "first_day l sentThrough now = midnight utc (first_number l sentThrough now)"
proof -
  let ?n = "local_day l (unix_sec now)"
  obtain y m d where c: "civil_of_days ?n = (y, m, d)" by (cases "civil_of_days ?n") auto
  have today: "(case Date_of (In_loc now l) of (y, m, d) \<Rightarrow> mk_Date y m d 0 0 0 0 utc) = midnight utc ?n"
    using civil_of_days_valid(2) [OF c] by (simp add: Date_of_def c mk_Date_midnight)
  show ?thesis
  proof (cases "Parse_dateKey sentThrough")
    case None
    then show ?thesis by (simp add: first_day_def first_number_def today Let_def)
  next
    case (Some sent)
    obtain k where k: "sent = midnight utc k" using Parse_dateKey_midnight [OF Some] by blast
    have "max ?n (k + 1) = (if k < ?n then ?n else k + 1)" by simp
    then show ?thesis
      using Some k midnight_compare(1) [OF utc_zone.keeps_dates_axioms, of k ?n]
        AddDate_midnight_days [OF utc_zone.keeps_dates_axioms, of k 1]
      by (simp add: first_day_def first_number_def today Let_def)
  qed
qed

section \<open>instantOf across one clock change\<close>

lemma unix_sec_less: "unix_sec t < k \<longleftrightarrow> nsec t < k * sec_ns"
  by (simp add: unix_sec_def int_div_less_iff)

lemma Zone_offset_one_change:
  "Zone_offset t (one_change name change o1 o2) = (if nsec t < change * sec_ns then o1 else o2)"
  by (simp add: Zone_offset_def one_change_def unix_sec_less)

lemma bisect_one_change:
  assumes "o1 \<noteq> o2"
  shows "l = one_change name change o1 o2 \<Longrightarrow> after = o2 \<Longrightarrow>
    nsec lo < change * sec_ns \<Longrightarrow> change * sec_ns \<le> nsec hi \<Longrightarrow>
    change * sec_ns \<le> nsec (bisect l after lo hi) \<and> nsec (bisect l after lo hi) < (change + 1) * sec_ns"
proof (induction l after lo hi rule: bisect.induct)
  case (1 l after lo hi)
  show ?case
  proof (cases "sec_ns < Sub hi lo")
    case True
    let ?mid = "Add lo (quot (Sub hi lo) 2)"
    show ?thesis
      using "1.IH"(1) [OF True refl] "1.IH"(2) [OF True refl] "1.prems" assms True
      by (cases "nsec ?mid < change * sec_ns"; subst (1 2) bisect.simps) (auto simp: Let_def Zone_offset_one_change)
  next
    case False
    then have "nsec hi - nsec lo \<le> sec_ns"
      by (auto simp: Sub_def max_duration_def min_duration_def)
    with False "1.prems" show ?thesis by (subst (1 2) bisect.simps) simp
  qed
qed

text \<open>A clock reads \<open>hour:00\<close> on a day while its wall seconds are in the minute from \<open>w\<close>.\<close>

lemma reads_wall:
  assumes "valid_date y m d" "0 \<le> hour" "hour < 24"
  defines "w \<equiv> days_of_date y m d * 86400 + hour * 3600"
  shows "reads y m d hour l t \<longleftrightarrow> w \<le> wall l (unix_sec t) \<and> wall l (unix_sec t) < w + 60"
proof -
  let ?x = "wall l (unix_sec t)"
  have date: "Date_of (In_loc t l) = (y, m, d) \<longleftrightarrow> ?x div 86400 = days_of_date y m d"
    using civil_of_days_of_date [OF assms(1)] civil_of_days_valid(2) [of "?x div 86400" y m d]
    by (auto simp: Date_of_def local_day_def)
  obtain q r where q: "?x div 86400 = q" "?x mod 86400 = r" "?x = 86400 * q + r" "0 \<le> r" "r < 86400"
    by (rule div_mod_parts [of 86400 ?x]) auto
  obtain h r' where h: "r div 3600 = h" "r mod 3600 = r'" "r = 3600 * h + r'" "0 \<le> r'" "r' < 3600"
    by (rule div_mod_parts [of 3600 r]) auto
  have "r' div 60 = 0 \<longleftrightarrow> r' < 60" using h(4) by (auto simp: zdiv_eq_0_iff)
  moreover have "h = hour \<and> r' < 60 \<longleftrightarrow> hour * 3600 \<le> r \<and> r < hour * 3600 + 60"
    using h(3-5) by (cases "h < hour"; cases "hour < h") auto
  ultimately have clock: "r div 3600 = hour \<and> r mod 3600 div 60 = 0 \<longleftrightarrow> hour * 3600 \<le> r \<and> r < hour * 3600 + 60"
    using h(1,2) by simp
  have "q = days_of_date y m d \<and> hour * 3600 \<le> r \<and> r < hour * 3600 + 60 \<longleftrightarrow>
      w \<le> 86400 * q + r \<and> 86400 * q + r < w + 60"
    using q(4,5) assms(2,3) unfolding w_def
    by (cases "q < days_of_date y m d"; cases "days_of_date y m d < q") auto
  then show ?thesis
    using date clock by (simp add: reads_def Let_def Clock_def q(1,2)) (simp add: q(3))
qed

lemma reads_candidate:
  assumes "valid_date y m d" "0 \<le> hour" "hour < 24"
    and "off = o1 \<or> off = o2" "o1 mod 60 = 0" "o2 mod 60 = 0"
  defines "w \<equiv> days_of_date y m d * 86400 + hour * 3600"
  shows "reads y m d hour (one_change name change o1 o2) \<lparr>nsec = (w - off) * sec_ns, tloc = u\<rparr>
    \<longleftrightarrow> off = (if w - off < change then o1 else o2)"
proof -
  have "(o2 - o1) mod 60 = 0" "(o1 - o2) mod 60 = 0" using assms(5,6) by presburger+
  then show ?thesis
    using assms(4)
    by (auto simp: reads_wall [OF assms(1-3)] w_def [symmetric] wall_def unix_sec_def one_change_def)
qed

text \<open>The two candidates around one change: the wall time under the offset before it and under
  the offset after it.\<close>

definition change_candidates :: "int \<Rightarrow> int \<Rightarrow> int \<Rightarrow> int \<Rightarrow> gotime list" where
  "change_candidates w change o1 o2 =
     map (\<lambda>p. \<lparr>nsec = (w - (if p < change then o1 else o2)) * sec_ns, tloc = utc\<rparr>) [w - 86400, w, w + 86400]"

lemma instantOf_candidates:
  fixes y m d hour :: int
  defines "w \<equiv> days_of_date y m d * 86400 + hour * 3600"
  shows "instantOf y m d hour (one_change name change o1 o2) =
    (let l = one_change name change o1 o2; cs = change_candidates w change o1 o2 in
     case filter (reads y m d hour l) cs of v # vs \<Rightarrow> MinTime v vs
      | [] \<Rightarrow> bisect l (Zone_offset (MaxTime (hd cs) (tl cs)) l) (MinTime (hd cs) (tl cs)) (MaxTime (hd cs) (tl cs)))"
proof -
  let ?w = "\<lparr>nsec = w * sec_ns, tloc = utc\<rparr>"
  have cs: "map (candidate (one_change name change o1 o2) ?w) [Add ?w (- 24 * hour_ns), ?w, Add ?w (24 * hour_ns)]
      = change_candidates w change o1 o2"
    by (auto simp: change_candidates_def candidate_def Add_def Zone_offset_one_change left_diff_distrib)
  have w: "mk_Date y m d hour 0 0 0 utc = ?w" by (simp add: mk_Date_def w_def Let_def)
  show ?thesis unfolding instantOf_def Let_def w cs ..
qed

lemma change_candidates_mem:
  "set (change_candidates w change o1 o2) \<subseteq>
    {\<lparr>nsec = (w - o1) * sec_ns, tloc = utc\<rparr>, \<lparr>nsec = (w - o2) * sec_ns, tloc = utc\<rparr>}"
  "w - 86400 < change \<Longrightarrow> \<lparr>nsec = (w - o1) * sec_ns, tloc = utc\<rparr> \<in> set (change_candidates w change o1 o2)"
  "change \<le> w + 86400 \<Longrightarrow> \<lparr>nsec = (w - o2) * sec_ns, tloc = utc\<rparr> \<in> set (change_candidates w change o1 o2)"
  "hd (change_candidates w change o1 o2) # tl (change_candidates w change o1 o2) = change_candidates w change o1 o2"
  by (auto simp: change_candidates_def)

text \<open>The clock reads the hour at some instant exactly when one of the two candidates does.\<close>

lemma reads_some_candidate:
  assumes "valid_date y m d" "0 \<le> hour" "hour < 24"
    and off: "\<bar>o1\<bar> \<le> 86400" "\<bar>o2\<bar> \<le> 86400" "o1 mod 60 = 0" "o2 mod 60 = 0" "change mod 60 = 0"
    and t: "reads y m d hour (one_change name change o1 o2) t"
  defines "w \<equiv> days_of_date y m d * 86400 + hour * 3600"
  shows "\<exists>x \<in> set (change_candidates w change o1 o2).
    reads y m d hour (one_change name change o1 o2) x \<and> nsec x \<le> nsec t"
proof -
  let ?l = "one_change name change o1 o2"
  note cand = change_candidates_mem [where w = w and change = change and ?o1.0 = o1 and ?o2.0 = o2]
  have wall: "w \<le> wall ?l (unix_sec t)" "wall ?l (unix_sec t) < w + 60"
    using t reads_wall [OF assms(1-3)] by (auto simp: w_def)
  have dvd: "60 dvd change" "60 dvd o2" "60 dvd w"
    using off(4,5) by (auto simp: w_def intro!: dvd_add dvd_mult)
  have floor: "unix_sec t * sec_ns \<le> nsec t" using unix_sec_less [of t "unix_sec t"] by simp
  show ?thesis
  proof (cases "unix_sec t < change")
    case True
    then have le: "w - o1 \<le> unix_sec t" using wall by (simp add: wall_def one_change_def)
    then have "reads y m d hour ?l \<lparr>nsec = (w - o1) * sec_ns, tloc = utc\<rparr>"
      using reads_candidate [OF assms(1-3), of o1 o1 o2 name change utc] off(3,4) True by (simp add: w_def)
    then show ?thesis
      using True le cand(2) off(1) floor
      by (intro bexI [of _ "\<lparr>nsec = (w - o1) * sec_ns, tloc = utc\<rparr>"]) auto
  next
    case False
    then have le: "w - o2 \<le> unix_sec t" "unix_sec t < w - o2 + 60"
      using wall by (auto simp: wall_def one_change_def)
    have "60 dvd change - (w - o2)" using dvd by simp
    then have c: "change \<le> w - o2"
      using zdvd_not_zless [of "change - (w - o2)" 60] False le by fastforce
    then have "reads y m d hour ?l \<lparr>nsec = (w - o2) * sec_ns, tloc = utc\<rparr>"
      using reads_candidate [OF assms(1-3), of o2 o1 o2 name change utc] off(3,4) by (simp add: w_def)
    then show ?thesis
      using c le(1) cand(3) off(2) floor
      by (intro bexI [of _ "\<lparr>nsec = (w - o2) * sec_ns, tloc = utc\<rparr>"]) auto
  qed
qed

lemma instantOf_reads:
  assumes "valid_date y m d" "0 \<le> hour" "hour < 24"
    and "\<bar>o1\<bar> \<le> 86400" "\<bar>o2\<bar> \<le> 86400" "o1 mod 60 = 0" "o2 mod 60 = 0" "change mod 60 = 0"
    and "reads y m d hour (one_change name change o1 o2) t"
  shows "reads y m d hour (one_change name change o1 o2) (instantOf y m d hour (one_change name change o1 o2))
    \<and> nsec (instantOf y m d hour (one_change name change o1 o2)) \<le> nsec t"
proof -
  let ?r = "reads y m d hour (one_change name change o1 o2)"
  let ?cs = "change_candidates (days_of_date y m d * 86400 + hour * 3600) change o1 o2"
  obtain x where x: "x \<in> set (filter ?r ?cs)" "nsec x \<le> nsec t"
    using reads_some_candidate [OF assms] by auto
  then obtain v vs where v: "filter ?r ?cs = v # vs" by (cases "filter ?r ?cs") auto
  then have "instantOf y m d hour (one_change name change o1 o2) = MinTime v vs"
    by (simp add: instantOf_candidates Let_def)
  moreover have "MinTime v vs \<in> set (filter ?r ?cs)" "nsec (MinTime v vs) \<le> nsec x"
    using MinTime_props [of v vs] x(1) unfolding v by auto
  ultimately show ?thesis using x(2) by auto
qed

lemma instantOf_gap:
  assumes "valid_date y m d" "0 \<le> hour" "hour < 24"
    and off: "\<bar>o1\<bar> \<le> 86400" "\<bar>o2\<bar> \<le> 86400" "o1 mod 60 = 0" "o2 mod 60 = 0"
    and none: "\<forall>t. \<not> reads y m d hour (one_change name change o1 o2) t"
  shows "change * sec_ns \<le> nsec (instantOf y m d hour (one_change name change o1 o2))
    \<and> nsec (instantOf y m d hour (one_change name change o1 o2)) < (change + 1) * sec_ns"
proof -
  let ?l = "one_change name change o1 o2"
  define w where "w = days_of_date y m d * 86400 + hour * 3600"
  let ?cs = "change_candidates w change o1 o2"
  let ?c1 = "\<lparr>nsec = (w - o1) * sec_ns, tloc = utc\<rparr>" and ?c2 = "\<lparr>nsec = (w - o2) * sec_ns, tloc = utc\<rparr>"
  note cand = change_candidates_mem [where w = w and change = change and ?o1.0 = o1 and ?o2.0 = o2]
  have gap: "w - o2 < change" "change \<le> w - o1" "o1 \<noteq> o2"
    using reads_candidate [OF assms(1-3), of o1 o1 o2 name change utc]
      reads_candidate [OF assms(1-3), of o2 o1 o2 name change utc] off(3,4) none
    by (auto simp: w_def split: if_splits)
  have both: "set ?cs = {?c1, ?c2}" using cand gap off(1,2) by auto
  have lt: "nsec ?c2 < nsec ?c1" using gap by simp
  have "MinTime (hd ?cs) (tl ?cs) = ?c2" "MaxTime (hd ?cs) (tl ?cs) = ?c1"
    using MinTime_props [of "hd ?cs" "tl ?cs"] MaxTime_props [of "hd ?cs" "tl ?cs"] lt
    unfolding cand(4) both by auto
  moreover have "Zone_offset ?c1 ?l = o2" using gap by (simp add: Zone_offset_one_change)
  ultimately have "instantOf y m d hour ?l = bisect ?l o2 ?c2 ?c1"
    using none by (simp add: instantOf_candidates Let_def w_def)
  then show ?thesis
    using bisect_one_change [OF gap(3) refl refl, of ?c2 change ?c1 name] gap(1,2) by simp
qed

lemma bounded_one_change: "\<bar>o1\<bar> \<le> 86400 \<Longrightarrow> \<bar>o2\<bar> \<le> 86400 \<Longrightarrow> bounded_offsets (one_change name change o1 o2)"
  by (auto simp: bounded_offsets_def one_change_def)

section \<open>Properties\<close>

text \<open>
  In a zone whose clocks change once, by whole minutes and at a whole minute, \<open>instantOf\<close>
  returns the first instant of the day at which the clock reads the hour.  When the change
  skips that hour, it returns an instant less than a second after the change.
\<close>

theorem instantOf_first_reading:
  assumes "valid_date y m d" "0 \<le> hour" "hour < 24"
    and "\<bar>o1\<bar> \<le> 86400" "\<bar>o2\<bar> \<le> 86400" "o1 mod 60 = 0" "o2 mod 60 = 0" "change mod 60 = 0"
  shows "let l = one_change name change o1 o2; at = instantOf y m d hour l in
    if \<exists>t. reads y m d hour l t
    then reads y m d hour l at \<and> (\<forall>t. reads y m d hour l t \<longrightarrow> \<not> After at t)
    else change * sec_ns \<le> nsec at \<and> nsec at < (change + 1) * sec_ns"
  unfolding Let_def using instantOf_reads [OF assms] instantOf_gap [OF assms(1-7), of name change]
  by (auto simp: After_def not_less)

theorem instantOf_first_reading_witness:
  "let l = one_change ''Europe/Berlin'' 1774746000 3600 7200; at = instantOf 2026 3 29 2 l in
    if \<exists>t. reads 2026 3 29 2 l t
    then reads 2026 3 29 2 l at \<and> (\<forall>t. reads 2026 3 29 2 l t \<longrightarrow> \<not> After at t)
    else 1774746000 * sec_ns \<le> nsec at \<and> nsec at < (1774746000 + 1) * sec_ns"
proof -
  have "valid_date 2026 3 29" by code_simp
  then show ?thesis
    using instantOf_first_reading [of 2026 3 29 2 3600 7200 1774746000 "''Europe/Berlin''"] by simp
qed

text \<open>
  (C36) In a zone whose offsets are at most a day, \<open>nextDigest\<close> returns, whatever the zone's clock
  changes, for the first day, from today
  in the member's zone and after the last day sent for, whose instant is less than \<open>maxLate\<close>
  past.  It reports the instant of the last day it passed over, or the zero time.
\<close>

theorem nextDigest_earliest:
  assumes "bounded_offsets l" "0 \<le> hour"
  shows "\<exists>k \<ge> first_number l sentThrough now.
    nextDigest hour l sentThrough now = Some (digest_at hour l k, Format_dateKey (midnight utc k),
      if k = first_number l sentThrough now then zero_time else digest_at hour l (k - 1))
    \<and> \<not> too_late hour l now k
    \<and> (\<forall>j. first_number l sentThrough now \<le> j \<and> j < k \<longrightarrow> too_late hour l now j)"
  using digest_loop_returns [OF assms] by (simp add: nextDigest_def first_day_number)

theorem nextDigest_earliest_witness:
  "\<exists>k \<ge> first_number utc ''2026-03-01'' (mk_Date 2026 3 1 6 0 0 0 utc).
    nextDigest 8 utc ''2026-03-01'' (mk_Date 2026 3 1 6 0 0 0 utc)
      = Some (digest_at 8 utc k, Format_dateKey (midnight utc k),
          if k = first_number utc ''2026-03-01'' (mk_Date 2026 3 1 6 0 0 0 utc) then zero_time
          else digest_at 8 utc (k - 1))"
proof -
  have "bounded_offsets utc" by (simp add: bounded_offsets_def)
  then show ?thesis
    using nextDigest_earliest [of utc 8 "''2026-03-01''" "mk_Date 2026 3 1 6 0 0 0 utc"] by auto
qed

text \<open>
  A digest's send key parses back to its date, and the keys compare, byte by byte, as the
  dates do, so the greatest key of the ledger is the last day sent for.
\<close>

theorem dateKey_roundtrip_order:
  assumes "key_date y m d" "key_date y' m' d'"
  shows "Parse_dateKey (format_date y m d) = Some (mk_Date y m d 0 0 0 0 utc) \<and>
    (strings_Compare (format_date y m d) (format_date y' m' d') < 0
      \<longleftrightarrow> days_of_date y m d < days_of_date y' m' d')"
  using Parse_format_date [OF assms(1)] strings_Compare_format_date [OF assms] assms
  by (auto simp: key_date_def days_of_date_lex)

theorem dateKey_roundtrip_order_witness:
  "Parse_dateKey (format_date 2026 3 1) = Some (mk_Date 2026 3 1 0 0 0 0 utc) \<and>
    (strings_Compare (format_date 2026 3 1) (format_date 2026 3 2) < 0
      \<longleftrightarrow> days_of_date 2026 3 1 < days_of_date 2026 3 2)"
proof -
  have "key_date 2026 3 1" "key_date 2026 3 2" by code_simp+
  then show ?thesis by (rule dateKey_roundtrip_order)
qed

end
