(* ===== verification/Store_DB.thy ===== *)
theory Store_DB
  imports Store_Models
begin

text \<open>
  The database the queries of \<open>src/internal/store\<close> run on: the remaining rows of
  \<open>models.go\<close>, one list per table, the SQL clauses the queries are written with, and
  \<open>InTx\<close>.  A query is a function of the tables; a write returns them updated.  What Postgres
  fills in (\<open>DEFAULT uuidv7()\<close>, \<open>DEFAULT now()\<close>) is an argument of the query.  Timestamps
  are kept as given: a clock reading is a whole number of microseconds, which is what a
  \<open>timestamptz\<close> holds.

  A call can fail for a reason of the database's own (the connection, a cancelled context).
  The failures to come are a list of booleans in the \<open>world\<close> a handler runs in, one per call,
  so every error branch of the code is a branch of the model.  Constraint violations and
  \<open>pgx.ErrNoRows\<close> are values of \<open>db_error\<close>.
\<close>

section \<open>Rows\<close>

record api_token =
  at_ID :: uuid
  at_GardenID :: uuid
  at_Name :: string
  at_TokenHash :: string
  at_Prefix :: string
  at_CreatedBy :: uuid
  at_CreatedAt :: gotime
  at_ExpiresAt :: gotime
  at_LastUsedAt :: "gotime option"
  at_RevokedAt :: "gotime option"

record app_user =
  us_ID :: uuid
  us_DisplayName :: string
  us_Handle :: string
  us_Timezone :: string
  us_CreatedAt :: gotime
  us_LastGardenID :: "uuid option"
  us_ClosedAt :: "gotime option"

record garden =
  ga_ID :: uuid
  ga_Name :: string
  ga_CreatedAt :: gotime

record invite =
  in_ID :: uuid
  in_GardenID :: uuid
  in_TokenHash :: string
  in_Role :: string
  in_UserID :: "uuid option"
  in_CreatedBy :: uuid
  in_CreatedAt :: gotime
  in_ExpiresAt :: gotime
  in_RedeemedAt :: "gotime option"
  in_MembershipExpiresAt :: "gotime option"

record membership =
  me_ID :: uuid
  me_GardenID :: uuid
  me_UserID :: uuid
  me_Role :: string
  me_InvitedBy :: "uuid option"
  me_CreatedAt :: gotime
  me_ExpiresAt :: "gotime option"
  me_DigestHour :: int
  me_RemindAgainAt :: "gotime option"

record notification_preference =
  np_MembershipID :: uuid
  np_Kind :: string
  np_Enabled :: bool

record notification_send =
  ns_MembershipID :: uuid
  ns_Kind :: string
  ns_SendKey :: string
  ns_SentAt :: gotime

record passkey_credential =
  pk_ID :: uuid
  pk_UserID :: uuid
  pk_CredentialID :: string
  pk_Name :: string
  pk_PublicKey :: string
  pk_SignCount :: int
  pk_Flags :: int
  pk_Transports :: "string list"
  pk_Aaguid :: "uuid option"
  pk_CreatedAt :: gotime
  pk_LastUsedAt :: "gotime option"

record photo =
  ph_ID :: uuid
  ph_GardenID :: uuid
  ph_PlantID :: uuid
  ph_UploadedBy :: uuid
  ph_TakenAt :: "gotime option"
  ph_UploadedAt :: gotime
  ph_Kind :: string
  ph_Path :: string
  ph_Width :: int
  ph_Height :: int
  ph_Bytes :: int
  ph_SquareBytes :: "int option"
  ph_FocusX :: int
  ph_FocusY :: int

record push_subscription =
  ps_ID :: uuid
  ps_UserID :: uuid
  ps_Endpoint :: string
  ps_P256dhKey :: string
  ps_AuthKey :: string
  ps_UserAgent :: "string option"
  ps_CreatedAt :: gotime
  ps_LastSentAt :: "gotime option"

record recovery_code =
  rc_ID :: uuid
  rc_UserID :: uuid
  rc_CodeHash :: string
  rc_GeneratedAt :: gotime
  rc_UsedAt :: "gotime option"

record role_capability =
  ro_Role :: string
  ro_Capability :: string

record session =
  se_ID :: uuid
  se_TokenHash :: string
  se_UserID :: uuid
  se_GardenID :: "uuid option"
  se_PasskeyCredentialID :: "uuid option"
  se_UserAgent :: "string option"
  se_CreatedAt :: gotime
  se_LastSeenAt :: gotime

record setup_link =
  sl_ID :: uuid
  sl_TokenHash :: string
  sl_CreatedAt :: gotime
  sl_ExpiresAt :: gotime
  sl_UsedAt :: "gotime option"

record webauthn_ceremony =
  wc_ID :: uuid
  wc_TokenHash :: string
  wc_UserID :: "uuid option"
  wc_Session :: string
  wc_CreatedAt :: gotime
  wc_ExpiresAt :: gotime

record calendar_note =
  cn_ID :: uuid
  cn_GardenID :: uuid
  cn_StartsOn :: gotime
  cn_EndsOn :: gotime
  cn_Text :: string
  cn_CreatedBy :: uuid
  cn_CreatedAt :: gotime

section \<open>Tables\<close>

record db =
  t_garden :: "garden list"
  t_app_user :: "app_user list"
  t_role_capability :: "role_capability list"
  t_membership :: "membership list"
  t_passkey :: "passkey_credential list"
  t_ceremony :: "webauthn_ceremony list"
  t_session :: "session list"
  t_invite :: "invite list"
  t_recovery_code :: "recovery_code list"
  t_api_token :: "api_token list"
  t_push_subscription :: "push_subscription list"
  t_notification_preference :: "notification_preference list"
  t_notification_send :: "notification_send list"
  t_setup_link :: "setup_link list"
  t_plant :: "plant list"
  t_care_type :: "care_type list"
  t_care_schedule :: "care_schedule list"
  t_care_event :: "care_event list"
  t_photo :: "photo list"
  t_calendar_note :: "calendar_note list"

definition empty_db :: db where
  "empty_db =
     \<lparr>t_garden = [], t_app_user = [], t_role_capability = [], t_membership = [], t_passkey = [],
      t_ceremony = [],      t_session = [], t_invite = [], t_recovery_code = [], t_api_token = [],
      t_push_subscription = [], t_notification_preference = [], t_notification_send = [],
      t_setup_link = [], t_plant = [], t_care_type = [], t_care_schedule = [], t_care_event = [], t_photo = [],
      t_calendar_note = []\<rparr>"

section \<open>Errors\<close>

datatype db_error =
    NoRows
  | UniqueViolation
  | ForeignKeyViolation
  | CheckViolation
  | Failure

section \<open>Clauses\<close>

text \<open>\<open>UPDATE ... SET f WHERE p\<close>, \<open>DELETE ... WHERE p\<close> and their row counts.\<close>

definition update_where :: "('a \<Rightarrow> bool) \<Rightarrow> ('a \<Rightarrow> 'a) \<Rightarrow> 'a list \<Rightarrow> 'a list" where
  "update_where p f rows = map (\<lambda>r. if p r then f r else r) rows"

definition delete_where :: "('a \<Rightarrow> bool) \<Rightarrow> 'a list \<Rightarrow> 'a list" where
  "delete_where p rows = filter (\<lambda>r. \<not> p r) rows"

definition count_where :: "('a \<Rightarrow> bool) \<Rightarrow> 'a list \<Rightarrow> int" where
  "count_where p rows = int (length (filter p rows))"

text \<open>A \<open>:one\<close> query scans the first row, or reports \<open>pgx.ErrNoRows\<close>.\<close>

definition one_row :: "'a list \<Rightarrow> db_error + 'a" where
  "one_row rows = (case rows of [] \<Rightarrow> Inl NoRows | r # _ \<Rightarrow> Inr r)"

text \<open>\<open>UPDATE ... SET f WHERE p RETURNING *\<close> and \<open>DELETE ... WHERE p RETURNING *\<close> of a \<open>:one\<close>
  query.\<close>

definition update_returning :: "('a \<Rightarrow> bool) \<Rightarrow> ('a \<Rightarrow> 'a) \<Rightarrow> 'a list \<Rightarrow> db_error + 'a \<times> 'a list" where
  "update_returning p f rows =
     (case one_row (map f (filter p rows)) of Inl e \<Rightarrow> Inl e | Inr r \<Rightarrow> Inr (r, update_where p f rows))"

definition delete_returning :: "('a \<Rightarrow> bool) \<Rightarrow> 'a list \<Rightarrow> db_error + 'a \<times> 'a list" where
  "delete_returning p rows =
     (case one_row (filter p rows) of Inl e \<Rightarrow> Inl e | Inr r \<Rightarrow> Inr (r, delete_where p rows))"

text \<open>A nullable column in \<open>ORDER BY\<close>: nulls come last.\<close>

definition nulls_last :: "('a \<Rightarrow> 'a \<Rightarrow> int) \<Rightarrow> 'a option \<Rightarrow> 'a option \<Rightarrow> int" where
  "nulls_last c a b =
     (case (a, b) of
        (None, None) \<Rightarrow> 0
      | (None, Some _) \<Rightarrow> 1
      | (Some _, None) \<Rightarrow> -1
      | (Some x, Some y) \<Rightarrow> c x y)"

text \<open>\<open>column IS NULL OR column > t\<close>.\<close>

definition null_or_after :: "gotime option \<Rightarrow> gotime \<Rightarrow> bool" where
  "null_or_after c t = (case c of None \<Rightarrow> True | Some e \<Rightarrow> After e t)"

text \<open>\<open>column IS NOT NULL AND column <= t\<close>.\<close>

definition set_not_after :: "gotime option \<Rightarrow> gotime \<Rightarrow> bool" where
  "set_not_after c t = (case c of None \<Rightarrow> False | Some e \<Rightarrow> \<not> After e t)"

text \<open>\<open>ORDER BY\<close> a timestamp and then an id, both ascending or both descending.\<close>

definition by_time_id :: "('a \<Rightarrow> gotime) \<Rightarrow> ('a \<Rightarrow> uuid) \<Rightarrow> 'a \<Rightarrow> 'a \<Rightarrow> int" where
  "by_time_id t i a b = cmp_Or (cmp_Compare (nsec (t a)) (nsec (t b))) (strings_Compare (i a) (i b))"

definition by_time_id_desc :: "('a \<Rightarrow> gotime) \<Rightarrow> ('a \<Rightarrow> uuid) \<Rightarrow> 'a \<Rightarrow> 'a \<Rightarrow> int" where
  "by_time_id_desc t i a b = by_time_id t i b a"

definition by_time_desc_id :: "('a \<Rightarrow> gotime) \<Rightarrow> ('a \<Rightarrow> uuid) \<Rightarrow> 'a \<Rightarrow> 'a \<Rightarrow> int" where
  "by_time_desc_id t i a b = cmp_Or (cmp_Compare (nsec (t b)) (nsec (t a))) (strings_Compare (i a) (i b))"

section \<open>The world a handler runs in\<close>

record world =
  tables :: db
  faults :: "bool list"

definition next_fault :: "world \<Rightarrow> bool \<times> world" where
  "next_fault w = (case faults w of [] \<Rightarrow> (False, w) | b # bs \<Rightarrow> (b, w\<lparr>faults := bs\<rparr>))"

text \<open>Running a query: a call that fails changes nothing.\<close>

definition reading :: "(db \<Rightarrow> db_error + 'a) \<Rightarrow> world \<Rightarrow> (db_error + 'a) \<times> world" where
  "reading q w =
     (case next_fault w of (failed, w) \<Rightarrow> if failed then (Inl Failure, w) else (q (tables w), w))"

definition writing :: "(db \<Rightarrow> db_error + 'a \<times> db) \<Rightarrow> world \<Rightarrow> (db_error + 'a) \<times> world" where
  "writing q w =
     (case next_fault w of (failed, w) \<Rightarrow>
        if failed then (Inl Failure, w)
        else (case q (tables w) of
                Inl e \<Rightarrow> (Inl e, w)
              | Inr (x, d) \<Rightarrow> (Inr x, w\<lparr>tables := d\<rparr>)))"

text \<open>\<open>InTx\<close>: the tables go back to what they were unless \<open>fn\<close> returns no error and the commit
  succeeds.\<close>

definition InTx :: "(world \<Rightarrow> ('e + 'a) \<times> world) \<Rightarrow> 'e \<Rightarrow> world \<Rightarrow> ('e + 'a) \<times> world" where
  "InTx fn failure w =
     (case next_fault w of (failed, w0) \<Rightarrow>
        if failed then (Inl failure, w0)
        else (case fn w0 of
                (Inl e, w1) \<Rightarrow> (Inl e, w1\<lparr>tables := tables w0\<rparr>)
              | (Inr x, w1) \<Rightarrow>
                  (case next_fault w1 of (failed, w2) \<Rightarrow>
                     if failed then (Inl failure, w2\<lparr>tables := tables w0\<rparr>) else (Inr x, w2))))"

section \<open>Facts about the clauses\<close>

lemma update_where_simps [simp]:
  "length (update_where p f rows) = length rows"
  "update_where p f [] = []"
  "update_where p f (r # rows) = (if p r then f r else r) # update_where p f rows"
  by (simp_all add: update_where_def)

lemma map_update_where: "(\<And>r. p r \<Longrightarrow> k (f r) = k r) \<Longrightarrow> map k (update_where p f rows) = map k rows"
  by (auto simp: update_where_def)

lemma set_update_where [simp]: "set (update_where p f rows) = (\<lambda>r. if p r then f r else r) ` set rows"
  by (simp add: update_where_def)

lemma set_delete_where [simp]: "set (delete_where p rows) = {r \<in> set rows. \<not> p r}"
  by (auto simp: delete_where_def)

lemma distinct_delete_where: "distinct (map k rows) \<Longrightarrow> distinct (map k (delete_where p rows))"
  by (simp add: delete_where_def distinct_map_filter)

lemma count_where_0: "count_where p rows = 0 \<longleftrightarrow> (\<forall>r \<in> set rows. \<not> p r)"
  by (auto simp: count_where_def filter_empty_conv)

lemma count_where_nonneg [simp]: "0 \<le> count_where p rows"
  by (simp add: count_where_def)

lemma one_row_Inr: "one_row rows = Inr r \<longleftrightarrow> (\<exists>rs. rows = r # rs)"
  by (auto simp: one_row_def split: list.splits)

lemma one_row_Inl: "one_row rows = Inl e \<longleftrightarrow> rows = [] \<and> e = NoRows"
  by (auto simp: one_row_def split: list.splits)

lemma one_row_nonempty: "x \<in> set rows \<Longrightarrow> \<exists>r. one_row rows = Inr r"
  by (cases rows) (auto simp: one_row_def)

lemma one_row_mem: "one_row rows = Inr r \<Longrightarrow> r \<in> set rows"
  by (auto simp: one_row_Inr)

lemma delete_returning_Inr:
  "delete_returning p xs = Inr (r, rs) \<longleftrightarrow> (\<exists>t. filter p xs = r # t) \<and> rs = delete_where p xs"
  by (auto simp: delete_returning_def one_row_Inr one_row_Inl split: sum.splits)

lemma update_returning_Inr:
  "update_returning p f xs = Inr (r, rs) \<longleftrightarrow> (\<exists>x t. filter p xs = x # t \<and> r = f x) \<and> rs = update_where p f xs"
  by (auto simp: update_returning_def one_row_Inr one_row_Inl split: sum.splits)

lemma update_returning_Inl: "update_returning p f xs = Inl e \<longleftrightarrow> filter p xs = [] \<and> e = NoRows"
  by (auto simp: update_returning_def one_row_Inl one_row_Inr split: sum.splits)

text \<open>With a unique key, the row a filter finds is the row with the key.\<close>

lemma filter_unique_key:
  assumes "distinct (map k rows)" "r \<in> set rows"
  shows "filter (\<lambda>x. k x = k r) rows = [r]"
  using assms
proof (induction rows)
  case (Cons x rows)
  then show ?case by (auto simp: filter_empty_conv intro: rev_image_eqI)
qed simp

lemma comparison_by_time_id: "comparison (by_time_id t i)"
  unfolding by_time_id_def by (intro comparison_Or comparison_key comparison_strings_key)

text \<open>A comparison read backwards is one too.\<close>

lemma comparison_flip: "comparison c \<Longrightarrow> comparison (\<lambda>a b. c b a)"
  by (rule comparison.intro) (auto dest: comparison.total comparison.trans comparison.swap)

lemma comparison_by_time_id_desc: "comparison (by_time_id_desc t i)"
  using comparison_flip [OF comparison_by_time_id, of t i] by (simp add: by_time_id_desc_def [abs_def])

lemma comparison_by_time_desc_id: "comparison (by_time_desc_id t i)"
  unfolding by_time_desc_id_def
  by (intro comparison_Or comparison_strings_key comparison_flip [OF comparison_key])

lemma comparison_nulls_last:
  assumes "comparison c"
  shows "comparison (nulls_last c)"
proof
  fix x y z :: "'a option"
  show "nulls_last c x y \<le> 0 \<or> nulls_last c y x \<le> 0"
    using comparison.total [OF assms] by (auto simp: nulls_last_def split: option.splits)
  show "nulls_last c x y \<le> 0 \<Longrightarrow> nulls_last c y z \<le> 0 \<Longrightarrow> nulls_last c x z \<le> 0"
    by (cases x; cases y; cases z; simp add: nulls_last_def) (erule (1) comparison.trans [OF assms])
  show "nulls_last c x y < 0 \<longleftrightarrow> \<not> nulls_last c y x \<le> 0"
    using comparison.swap [OF assms] by (auto simp: nulls_last_def split: option.splits)
qed

text \<open>A comparison through a key is one too.\<close>

lemma comparison_via: "comparison c \<Longrightarrow> comparison (\<lambda>a b. c (k a) (k b))"
  by (rule comparison.intro) (auto dest: comparison.total comparison.trans comparison.swap)

lemma next_fault_tables [simp]: "tables (snd (next_fault w)) = tables w"
  by (simp add: next_fault_def split: list.split)

lemma reading_tables [simp]: "tables (snd (reading q w)) = tables w"
  by (cases "next_fault w") (auto simp: reading_def dest: arg_cong [of _ _ "\<lambda>x. tables (snd x)"])

end
