(* ===== verification/Store_Credentials.thy ===== *)
theory Store_Credentials
  imports Store_DB
begin

text \<open>
  The queries on sessions, bearer tokens, recovery codes, setup links and invites:
  \<open>session.sql.go\<close>, \<open>api_token.sql.go\<close>, \<open>recovery_code.sql.go\<close>, \<open>setup_link.sql.go\<close> and
  \<open>invite.sql.go\<close> under \<open>src/internal/store\<close>.  Each is the SQL of the query over the tables.
  The last section states what makes a secret single-use (locale \<open>single_use\<close>) and shows that
  recovery codes, setup links and invites are.
\<close>

section \<open>session.sql.go\<close>

definition has_membership :: "uuid \<Rightarrow> uuid \<Rightarrow> db \<Rightarrow> bool" where
  "has_membership garden user d =
     list_ex (\<lambda>m. me_GardenID m = garden \<and> me_UserID m = user) (t_membership d)"

text \<open>The two foreign keys of a session row besides its account.\<close>

definition session_keys :: "db \<Rightarrow> uuid \<Rightarrow> uuid option \<Rightarrow> uuid option \<Rightarrow> bool" where
  "session_keys d user garden passkey =
     ((case garden of None \<Rightarrow> True | Some g \<Rightarrow> has_membership g user d) \<and>
      (case passkey of None \<Rightarrow> True
       | Some p \<Rightarrow> list_ex (\<lambda>k. pk_UserID k = user \<and> pk_ID k = p) (t_passkey d)))"

definition has_user :: "uuid \<Rightarrow> db \<Rightarrow> bool" where
  "has_user user d = list_ex (\<lambda>u. us_ID u = user) (t_app_user d)"

definition CreateSession ::
  "uuid \<Rightarrow> string \<Rightarrow> uuid \<Rightarrow> uuid option \<Rightarrow> uuid option \<Rightarrow> string option \<Rightarrow> gotime
     \<Rightarrow> db \<Rightarrow> db_error + session \<times> db" where
  "CreateSession newID tokenHash user garden passkey userAgent now d =
     (if list_ex (\<lambda>s. se_TokenHash s = tokenHash) (t_session d) then Inl UniqueViolation
      else if \<not> has_user user d \<or> \<not> session_keys d user garden passkey then Inl ForeignKeyViolation
      else (let s = \<lparr>se_ID = newID, se_TokenHash = tokenHash, se_UserID = user, se_GardenID = garden,
                     se_PasskeyCredentialID = passkey, se_UserAgent = userAgent,
                     se_CreatedAt = now, se_LastSeenAt = now\<rparr>
            in Inr (s, d\<lparr>t_session := t_session d @ [s]\<rparr>)))"

definition DeleteExpiredSessions :: "gotime \<Rightarrow> db \<Rightarrow> db_error + int \<times> db" where
  "DeleteExpiredSessions before d =
     (let p = (\<lambda>s. \<not> After (se_LastSeenAt s) before)
      in Inr (count_where p (t_session d), d\<lparr>t_session := delete_where p (t_session d)\<rparr>))"

definition DeleteSession :: "string \<Rightarrow> db \<Rightarrow> db_error + unit \<times> db" where
  "DeleteSession tokenHash d =
     Inr ((), d\<lparr>t_session := delete_where (\<lambda>s. se_TokenHash s = tokenHash) (t_session d)\<rparr>)"

definition DeleteUserSessions :: "uuid \<Rightarrow> db \<Rightarrow> db_error + unit \<times> db" where
  "DeleteUserSessions user d =
     Inr ((), d\<lparr>t_session := delete_where (\<lambda>s. se_UserID s = user) (t_session d)\<rparr>)"

definition GetSessionByTokenHash :: "string \<Rightarrow> db \<Rightarrow> db_error + session" where
  "GetSessionByTokenHash tokenHash d = one_row (filter (\<lambda>s. se_TokenHash s = tokenHash) (t_session d))"

definition SetSessionGarden :: "uuid option \<Rightarrow> string \<Rightarrow> db \<Rightarrow> db_error + int \<times> db" where
  "SetSessionGarden garden tokenHash d =
     (let p = (\<lambda>s. se_TokenHash s = tokenHash) in
      if list_ex (\<lambda>s. p s \<and> (case garden of None \<Rightarrow> False
                              | Some g \<Rightarrow> \<not> has_membership g (se_UserID s) d)) (t_session d)
      then Inl ForeignKeyViolation
      else Inr (count_where p (t_session d),
                d\<lparr>t_session := update_where p (\<lambda>s. s\<lparr>se_GardenID := garden\<rparr>) (t_session d)\<rparr>))"

definition TouchSession :: "gotime \<Rightarrow> string \<Rightarrow> db \<Rightarrow> db_error + session \<times> db" where
  "TouchSession lastSeenAt tokenHash d =
     (let p = (\<lambda>s. se_TokenHash s = tokenHash); f = (\<lambda>s. s\<lparr>se_LastSeenAt := lastSeenAt\<rparr>) in
      case one_row (map f (filter p (t_session d))) of
        Inl e \<Rightarrow> Inl e
      | Inr s \<Rightarrow> Inr (s, d\<lparr>t_session := update_where p f (t_session d)\<rparr>))"

section \<open>api_token.sql.go\<close>

definition has_garden :: "uuid \<Rightarrow> db \<Rightarrow> bool" where
  "has_garden garden d = list_ex (\<lambda>g. ga_ID g = garden) (t_garden d)"

definition CreateAPIToken ::
  "uuid \<Rightarrow> gotime \<Rightarrow> uuid \<Rightarrow> string \<Rightarrow> string \<Rightarrow> string \<Rightarrow> uuid \<Rightarrow> gotime
     \<Rightarrow> db \<Rightarrow> db_error + api_token \<times> db" where
  "CreateAPIToken newID created garden name tokenHash prefix createdBy expiresAt d =
     (if list_ex (\<lambda>t. at_TokenHash t = tokenHash) (t_api_token d) then Inl UniqueViolation
      else if \<not> has_garden garden d \<or> \<not> has_user createdBy d then Inl ForeignKeyViolation
      else (let t = \<lparr>at_ID = newID, at_GardenID = garden, at_Name = name, at_TokenHash = tokenHash,
                     at_Prefix = prefix, at_CreatedBy = createdBy, at_CreatedAt = created,
                     at_ExpiresAt = expiresAt, at_LastUsedAt = None, at_RevokedAt = None\<rparr>
            in Inr (t, d\<lparr>t_api_token := t_api_token d @ [t]\<rparr>)))"

definition role_grants :: "db \<Rightarrow> string \<Rightarrow> string \<Rightarrow> bool" where
  "role_grants d role capability =
     list_ex (\<lambda>r. ro_Role r = role \<and> ro_Capability r = capability) (t_role_capability d)"

text \<open>The account has a membership of the garden, not ended at \<open>now\<close>, whose role grants the
  capability.\<close>

definition may_in_garden :: "db \<Rightarrow> string \<Rightarrow> gotime \<Rightarrow> uuid \<Rightarrow> uuid \<Rightarrow> bool" where
  "may_in_garden d capability now garden user =
     list_ex (\<lambda>m. role_grants d (me_Role m) capability \<and> me_GardenID m = garden \<and> me_UserID m = user
                  \<and> null_or_after (me_ExpiresAt m) now) (t_membership d)"

definition GetAPITokenByHash :: "string \<Rightarrow> gotime \<Rightarrow> string \<Rightarrow> db \<Rightarrow> db_error + api_token \<times> bool" where
  "GetAPITokenByHash capability now tokenHash d =
     one_row (map (\<lambda>t. (t, may_in_garden d capability now (at_GardenID t) (at_CreatedBy t)))
                  (filter (\<lambda>t. at_TokenHash t = tokenHash) (t_api_token d)))"

definition ListAPITokens :: "uuid \<Rightarrow> uuid \<Rightarrow> db \<Rightarrow> db_error + api_token list" where
  "ListAPITokens garden user d =
     Inr (SortStableFunc (by_time_desc_id at_CreatedAt at_ID)
            (filter (\<lambda>t. at_GardenID t = garden \<and> at_CreatedBy t = user \<and> at_RevokedAt t = None)
               (t_api_token d)))"

definition RevokeAPIToken :: "gotime \<Rightarrow> uuid \<Rightarrow> uuid \<Rightarrow> uuid \<Rightarrow> db \<Rightarrow> db_error + int \<times> db" where
  "RevokeAPIToken now garden user tokenID d =
     (let p = (\<lambda>t. at_GardenID t = garden \<and> at_CreatedBy t = user \<and> at_ID t = tokenID \<and> at_RevokedAt t = None)
      in Inr (count_where p (t_api_token d),
              d\<lparr>t_api_token := update_where p (\<lambda>t. t\<lparr>at_RevokedAt := Some now\<rparr>) (t_api_token d)\<rparr>))"

definition TouchAPIToken :: "gotime \<Rightarrow> string \<Rightarrow> db \<Rightarrow> db_error + unit \<times> db" where
  "TouchAPIToken now tokenHash d =
     Inr ((), d\<lparr>t_api_token := update_where (\<lambda>t. at_TokenHash t = tokenHash)
                 (\<lambda>t. t\<lparr>at_LastUsedAt := Some now\<rparr>) (t_api_token d)\<rparr>)"

section \<open>recovery_code.sql.go\<close>

definition CreateRecoveryBatch ::
  "uuid list \<Rightarrow> uuid \<Rightarrow> string list \<Rightarrow> gotime \<Rightarrow> db \<Rightarrow> db_error + unit \<times> db" where
  "CreateRecoveryBatch ids user hashes generatedAt d =
     (if \<not> distinct hashes \<or> list_ex (\<lambda>c. rc_CodeHash c \<in> set hashes) (t_recovery_code d)
      then Inl UniqueViolation
      else if \<not> has_user user d \<and> hashes \<noteq> [] then Inl ForeignKeyViolation
      else Inr ((), d\<lparr>t_recovery_code := t_recovery_code d @
             map (\<lambda>(newID, h). \<lparr>rc_ID = newID, rc_UserID = user, rc_CodeHash = h,
                              rc_GeneratedAt = generatedAt, rc_UsedAt = None\<rparr>) (zip ids hashes)\<rparr>))"

definition DeleteRecoveryCodes :: "uuid \<Rightarrow> db \<Rightarrow> db_error + unit \<times> db" where
  "DeleteRecoveryCodes user d =
     Inr ((), d\<lparr>t_recovery_code := delete_where (\<lambda>c. rc_UserID c = user) (t_recovery_code d)\<rparr>)"

text \<open>A code is superseded when a later one of the same account exists: \<open>generated_at\<close> is less
  than the account's greatest.\<close>

definition superseded :: "db \<Rightarrow> recovery_code \<Rightarrow> bool" where
  "superseded d c =
     list_ex (\<lambda>n. rc_UserID n = rc_UserID c \<and> Before (rc_GeneratedAt c) (rc_GeneratedAt n)) (t_recovery_code d)"

definition DeleteSupersededRecoveryCodes :: "db \<Rightarrow> db_error + int \<times> db" where
  "DeleteSupersededRecoveryCodes d =
     Inr (count_where (superseded d) (t_recovery_code d),
          d\<lparr>t_recovery_code := delete_where (superseded d) (t_recovery_code d)\<rparr>)"

definition GetLiveRecoveryCode :: "string \<Rightarrow> db \<Rightarrow> db_error + uuid" where
  "GetLiveRecoveryCode hash d =
     one_row (map rc_UserID (filter (\<lambda>c. rc_CodeHash c = hash \<and> rc_UsedAt c = None) (t_recovery_code d)))"

definition max_time :: "gotime list \<Rightarrow> gotime" where
  "max_time ts = foldl (\<lambda>m t. if After t m then t else m) (hd ts) (tl ts)"

definition GetRecoveryBatch :: "uuid \<Rightarrow> db \<Rightarrow> db_error + int \<times> int \<times> gotime" where
  "GetRecoveryBatch user d =
     (let codes = filter (\<lambda>c. rc_UserID c = user) (t_recovery_code d) in
      if codes = [] then Inl NoRows
      else Inr (int (length codes), count_where (\<lambda>c. rc_UsedAt c = None) codes,
                max_time (map rc_GeneratedAt codes)))"

definition RedeemRecoveryCode :: "gotime \<Rightarrow> string \<Rightarrow> db \<Rightarrow> db_error + uuid \<times> db" where
  "RedeemRecoveryCode now hash d =
     (let p = (\<lambda>c. rc_CodeHash c = hash \<and> rc_UsedAt c = None) in
      case one_row (map rc_UserID (filter p (t_recovery_code d))) of
        Inl e \<Rightarrow> Inl e
      | Inr user \<Rightarrow>
          Inr (user, d\<lparr>t_recovery_code :=
                 update_where p (\<lambda>c. c\<lparr>rc_UsedAt := Some now\<rparr>) (t_recovery_code d)\<rparr>))"

section \<open>setup_link.sql.go\<close>

definition CreateSetupLink ::
  "uuid \<Rightarrow> gotime \<Rightarrow> string \<Rightarrow> gotime \<Rightarrow> db \<Rightarrow> db_error + setup_link \<times> db" where
  "CreateSetupLink newID created tokenHash expiresAt d =
     (if list_ex (\<lambda>l. sl_TokenHash l = tokenHash) (t_setup_link d) then Inl UniqueViolation
      else (let l = \<lparr>sl_ID = newID, sl_TokenHash = tokenHash, sl_CreatedAt = created,
                     sl_ExpiresAt = expiresAt, sl_UsedAt = None\<rparr>
            in Inr (l, d\<lparr>t_setup_link := t_setup_link d @ [l]\<rparr>)))"

definition DeleteUsedAndExpiredSetupLinks :: "gotime \<Rightarrow> db \<Rightarrow> db_error + int \<times> db" where
  "DeleteUsedAndExpiredSetupLinks before d =
     (let p = (\<lambda>l. set_not_after (sl_UsedAt l) before
                   \<or> sl_UsedAt l = None \<and> \<not> After (sl_ExpiresAt l) before)
      in Inr (count_where p (t_setup_link d), d\<lparr>t_setup_link := delete_where p (t_setup_link d)\<rparr>))"

definition setup_open :: "string \<Rightarrow> gotime \<Rightarrow> setup_link \<Rightarrow> bool" where
  "setup_open tokenHash now l \<longleftrightarrow>
     sl_TokenHash l = tokenHash \<and> sl_UsedAt l = None \<and> After (sl_ExpiresAt l) now"

definition SetupLinkOpen :: "string \<Rightarrow> gotime \<Rightarrow> db \<Rightarrow> db_error + bool" where
  "SetupLinkOpen tokenHash now d = Inr (list_ex (setup_open tokenHash now) (t_setup_link d))"

definition UseSetupLink :: "gotime \<Rightarrow> string \<Rightarrow> db \<Rightarrow> db_error + int \<times> db" where
  "UseSetupLink now tokenHash d =
     Inr (count_where (setup_open tokenHash now) (t_setup_link d),
          d\<lparr>t_setup_link := update_where (setup_open tokenHash now)
              (\<lambda>l. l\<lparr>sl_UsedAt := Some now\<rparr>) (t_setup_link d)\<rparr>)"

section \<open>invite.sql.go\<close>

definition CountPendingInvites :: "uuid \<Rightarrow> gotime \<Rightarrow> db \<Rightarrow> db_error + int" where
  "CountPendingInvites garden now d =
     Inr (count_where (\<lambda>i. in_GardenID i = garden \<and> in_UserID i = None \<and> in_RedeemedAt i = None
                           \<and> After (in_ExpiresAt i) now) (t_invite d))"

definition known_roles :: "string list" where
  "known_roles = [''owner'', ''member'', ''sitter'']"

definition CreateInvite ::
  "uuid \<Rightarrow> gotime \<Rightarrow> uuid \<Rightarrow> string \<Rightarrow> string \<Rightarrow> uuid option \<Rightarrow> uuid \<Rightarrow> gotime \<Rightarrow> gotime option
     \<Rightarrow> db \<Rightarrow> db_error + invite \<times> db" where
  "CreateInvite newID created garden tokenHash role user createdBy expiresAt membershipExpiresAt d =
     (if list_ex (\<lambda>i. in_TokenHash i = tokenHash) (t_invite d) then Inl UniqueViolation
      else if \<not> has_garden garden d \<or> \<not> has_user createdBy d \<or> role \<notin> set known_roles
              \<or> (case user of None \<Rightarrow> False | Some u \<Rightarrow> \<not> has_user u d)
        then Inl ForeignKeyViolation
      else (let i = \<lparr>in_ID = newID, in_GardenID = garden, in_TokenHash = tokenHash, in_Role = role,
                     in_UserID = user, in_CreatedBy = createdBy, in_CreatedAt = created,
                     in_ExpiresAt = expiresAt, in_RedeemedAt = None,
                     in_MembershipExpiresAt = membershipExpiresAt\<rparr>
            in Inr (i, d\<lparr>t_invite := t_invite d @ [i]\<rparr>)))"

definition DeletePendingInvite :: "uuid \<Rightarrow> uuid \<Rightarrow> db \<Rightarrow> db_error + int \<times> db" where
  "DeletePendingInvite garden inviteID d =
     (let p = (\<lambda>i. in_GardenID i = garden \<and> in_ID i = inviteID \<and> in_RedeemedAt i = None)
      in Inr (count_where p (t_invite d), d\<lparr>t_invite := delete_where p (t_invite d)\<rparr>))"

definition DeleteRedeemedAndExpiredInvites :: "gotime \<Rightarrow> db \<Rightarrow> db_error + int \<times> db" where
  "DeleteRedeemedAndExpiredInvites before d =
     (let p = (\<lambda>i. set_not_after (in_RedeemedAt i) before
                   \<or> in_UserID i \<noteq> None \<and> in_RedeemedAt i = None \<and> \<not> After (in_ExpiresAt i) before)
      in Inr (count_where p (t_invite d), d\<lparr>t_invite := delete_where p (t_invite d)\<rparr>))"

text \<open>\<open>user_id = $2\<close> with a NULL argument matches no row.\<close>

definition reenrolment_of :: "uuid \<Rightarrow> uuid option \<Rightarrow> invite \<Rightarrow> bool" where
  "reenrolment_of garden user i \<longleftrightarrow>
     in_GardenID i = garden \<and> user \<noteq> None \<and> in_UserID i = user \<and> in_RedeemedAt i = None"

definition DeleteReenrolmentInvites :: "uuid \<Rightarrow> uuid option \<Rightarrow> db \<Rightarrow> db_error + int \<times> db" where
  "DeleteReenrolmentInvites garden user d =
     Inr (count_where (reenrolment_of garden user) (t_invite d),
          d\<lparr>t_invite := delete_where (reenrolment_of garden user) (t_invite d)\<rparr>)"

definition DeleteUserReenrolmentInvites :: "uuid \<Rightarrow> db \<Rightarrow> db_error + unit \<times> db" where
  "DeleteUserReenrolmentInvites user d =
     Inr ((), d\<lparr>t_invite := delete_where (\<lambda>i. in_UserID i = Some user \<and> in_RedeemedAt i = None) (t_invite d)\<rparr>)"

definition GetInviteByTokenHash :: "string \<Rightarrow> db \<Rightarrow> db_error + invite \<times> garden \<times> app_user" where
  "GetInviteByTokenHash tokenHash d =
     one_row [(i, g, u). i \<leftarrow> t_invite d, g \<leftarrow> t_garden d, ga_ID g = in_GardenID i,
                         u \<leftarrow> t_app_user d, us_ID u = in_CreatedBy i, in_TokenHash i = tokenHash]"

definition ListPendingInvites :: "uuid \<Rightarrow> db \<Rightarrow> db_error + invite list" where
  "ListPendingInvites garden d =
     Inr (SortStableFunc (by_time_desc_id in_CreatedAt in_ID)
            (filter (\<lambda>i. in_GardenID i = garden \<and> in_UserID i = None \<and> in_RedeemedAt i = None) (t_invite d)))"

definition invite_open :: "uuid \<Rightarrow> uuid \<Rightarrow> gotime \<Rightarrow> invite \<Rightarrow> bool" where
  "invite_open garden inviteID now i \<longleftrightarrow>
     in_GardenID i = garden \<and> in_ID i = inviteID \<and> in_RedeemedAt i = None \<and> After (in_ExpiresAt i) now"

definition RedeemInvite :: "gotime \<Rightarrow> uuid \<Rightarrow> uuid \<Rightarrow> db \<Rightarrow> db_error + int \<times> db" where
  "RedeemInvite now garden inviteID d =
     Inr (count_where (invite_open garden inviteID now) (t_invite d),
          d\<lparr>t_invite := update_where (invite_open garden inviteID now)
              (\<lambda>i. i\<lparr>in_RedeemedAt := Some now\<rparr>) (t_invite d)\<rparr>)"

section \<open>Single use\<close>

text \<open>
  What the three redemptions promise.  A secret is spent once no row with its key is unused; a
  redemption that succeeds spends it, a spent secret is refused, and nothing else that is
  redeemed revives it.  \<open>inv\<close> is the unique key of the table.
\<close>

locale single_use =
  fixes redeem :: "gotime \<Rightarrow> 'k \<Rightarrow> db \<Rightarrow> bool \<times> db"
    and inv :: "db \<Rightarrow> bool"
    and spent :: "'k \<Rightarrow> db \<Rightarrow> bool"
  assumes success_spends: "inv d \<Longrightarrow> fst (redeem now k d) \<Longrightarrow> spent k (snd (redeem now k d))"
    and spent_refused: "spent k d \<Longrightarrow> \<not> fst (redeem now k d)"
    and spent_stays: "spent k d \<Longrightarrow> spent k (snd (redeem now k' d))"
    and inv_stays: "inv d \<Longrightarrow> inv (snd (redeem now k d))"

text \<open>A sequence of redemption attempts, each with its time and key, and which succeeded.\<close>

fun attempts ::
  "(gotime \<Rightarrow> 'k \<Rightarrow> db \<Rightarrow> bool \<times> db) \<Rightarrow> (gotime \<times> 'k) list \<Rightarrow> db \<Rightarrow> ('k \<times> bool) list" where
  "attempts redeem [] d = []"
| "attempts redeem ((now, k) # rest) d =
     (k, fst (redeem now k d)) # attempts redeem rest (snd (redeem now k d))"

context single_use
begin

lemma spent_never: "spent k d \<Longrightarrow> (k, True) \<notin> set (attempts redeem tries d)"
  by (induction tries arbitrary: d) (auto simp: spent_refused spent_stays)

lemma at_most_once:
  "inv d \<Longrightarrow> length (filter (\<lambda>a. a = (k, True)) (attempts redeem tries d)) \<le> 1"
proof (induction tries arbitrary: d)
  case (Cons a tries)
  obtain now k' where a: "a = (now, k')" by (cases a)
  let ?d = "snd (redeem now k' d)"
  show ?case
  proof (cases "k' = k \<and> fst (redeem now k' d)")
    case True
    then have "spent k ?d" using success_spends [OF Cons.prems] by blast
    then have none: "filter (\<lambda>a. a = (k, True)) (attempts redeem tries ?d) = []"
      using spent_never [of k ?d tries] by (auto simp: filter_empty_conv)
    show ?thesis unfolding a attempts.simps filter.simps none by simp
  next
    case False
    then show ?thesis using Cons.IH [OF inv_stays [OF Cons.prems], of now k'] by (auto simp: a)
  qed
qed simp

end

text \<open>The three redemptions as attempts: did the query find a row to mark?\<close>

definition redeem_code :: "gotime \<Rightarrow> string \<Rightarrow> db \<Rightarrow> bool \<times> db" where
  "redeem_code now hash d =
     (case RedeemRecoveryCode now hash d of Inl _ \<Rightarrow> (False, d) | Inr (_, d') \<Rightarrow> (True, d'))"

definition use_setup_link :: "gotime \<Rightarrow> string \<Rightarrow> db \<Rightarrow> bool \<times> db" where
  "use_setup_link now hash d =
     (case UseSetupLink now hash d of Inl _ \<Rightarrow> (False, d) | Inr (n, d') \<Rightarrow> (n \<noteq> 0, d'))"

definition redeem_invite :: "gotime \<Rightarrow> uuid \<times> uuid \<Rightarrow> db \<Rightarrow> bool \<times> db" where
  "redeem_invite now k d =
     (case RedeemInvite now (fst k) (snd k) d of Inl _ \<Rightarrow> (False, d) | Inr (n, d') \<Rightarrow> (n \<noteq> 0, d'))"

text \<open>A row is unused when its mark is not set; a key is spent when no row with it is unused.\<close>

definition spent_key :: "('r \<Rightarrow> 'k) \<Rightarrow> ('r \<Rightarrow> gotime option) \<Rightarrow> 'k \<Rightarrow> 'r list \<Rightarrow> bool" where
  "spent_key key used k rows \<longleftrightarrow> (\<forall>r \<in> set rows. key r = k \<longrightarrow> used r \<noteq> None)"

lemma spent_key_update:
  assumes "distinct (map key rows)" "r \<in> set rows" "p r" "key r = k"
    and "\<And>r. key (mark r) = key r" "\<And>r. used (mark r) \<noteq> None"
  shows "spent_key key used k (update_where p mark rows)"
proof -
  have "x = r" if "x \<in> set rows" "key x = k" for x
    using assms(1,2,4) that by (metis distinct_map inj_onD)
  then show ?thesis using assms(3,5,6) by (auto simp: spent_key_def)
qed

lemma spent_key_stays:
  assumes "spent_key key used k rows" "\<And>r. key (mark r) = key r" "\<And>r. used (mark r) \<noteq> None"
  shows "spent_key key used k (update_where p mark rows)"
  using assms by (auto simp: spent_key_def)

interpretation codes: single_use redeem_code
  "\<lambda>d. distinct (map rc_CodeHash (t_recovery_code d))"
  "\<lambda>k d. spent_key rc_CodeHash rc_UsedAt k (t_recovery_code d)"
proof
  fix d now k k'
  let ?p = "\<lambda>c. rc_CodeHash c = k \<and> rc_UsedAt c = None"
  note defs = redeem_code_def RedeemRecoveryCode_def one_row_def Let_def
  show "spent_key rc_CodeHash rc_UsedAt k (t_recovery_code (snd (redeem_code now k d)))"
    if "distinct (map rc_CodeHash (t_recovery_code d))" "fst (redeem_code now k d)"
  proof -
    from that(2) obtain r where "r \<in> set (filter ?p (t_recovery_code d))"
      by (cases "filter ?p (t_recovery_code d)") (auto simp: defs)
    then show ?thesis
      using that spent_key_update [OF that(1), of r ?p k "\<lambda>c. c\<lparr>rc_UsedAt := Some now\<rparr>" rc_UsedAt]
      by (auto simp: defs split: list.splits)
  qed
  show "\<not> fst (redeem_code now k d)" if "spent_key rc_CodeHash rc_UsedAt k (t_recovery_code d)"
  proof -
    have "filter ?p (t_recovery_code d) = []" using that by (auto simp: spent_key_def filter_empty_conv)
    then show ?thesis by (simp add: defs)
  qed
  show "spent_key rc_CodeHash rc_UsedAt k (t_recovery_code (snd (redeem_code now k' d)))"
    if "spent_key rc_CodeHash rc_UsedAt k (t_recovery_code d)"
    using that by (auto simp: defs intro!: spent_key_stays split: list.split)
  show "distinct (map rc_CodeHash (t_recovery_code (snd (redeem_code now k d))))"
    if "distinct (map rc_CodeHash (t_recovery_code d))"
    using that by (auto simp: defs map_update_where split: list.split)
qed

interpretation setup_links: single_use use_setup_link
  "\<lambda>d. distinct (map sl_TokenHash (t_setup_link d))"
  "\<lambda>k d. spent_key sl_TokenHash sl_UsedAt k (t_setup_link d)"
proof
  fix d now k k'
  note defs = use_setup_link_def UseSetupLink_def
  show "spent_key sl_TokenHash sl_UsedAt k (t_setup_link (snd (use_setup_link now k d)))"
    if "distinct (map sl_TokenHash (t_setup_link d))" "fst (use_setup_link now k d)"
  proof -
    from that(2) obtain r where "r \<in> set (t_setup_link d)" "setup_open k now r"
      by (auto simp: defs count_where_0)
    then show ?thesis
      using spent_key_update [OF that(1), of r "setup_open k now" k "\<lambda>l. l\<lparr>sl_UsedAt := Some now\<rparr>" sl_UsedAt]
      by (auto simp: defs setup_open_def)
  qed
  show "\<not> fst (use_setup_link now k d)" if "spent_key sl_TokenHash sl_UsedAt k (t_setup_link d)"
    using that by (auto simp: defs count_where_0 spent_key_def setup_open_def)
  show "spent_key sl_TokenHash sl_UsedAt k (t_setup_link (snd (use_setup_link now k' d)))"
    if "spent_key sl_TokenHash sl_UsedAt k (t_setup_link d)"
    using that by (auto simp: defs intro!: spent_key_stays)
  show "distinct (map sl_TokenHash (t_setup_link (snd (use_setup_link now k d))))"
    if "distinct (map sl_TokenHash (t_setup_link d))"
    using that by (simp add: defs map_update_where)
qed

abbreviation invite_key :: "invite \<Rightarrow> uuid \<times> uuid" where
  "invite_key i \<equiv> (in_GardenID i, in_ID i)"

interpretation invites: single_use redeem_invite
  "\<lambda>d. distinct (map invite_key (t_invite d))"
  "\<lambda>k d. spent_key invite_key in_RedeemedAt k (t_invite d)"
proof
  fix d now and k k' :: "uuid \<times> uuid"
  note defs = redeem_invite_def RedeemInvite_def
  show "spent_key invite_key in_RedeemedAt k (t_invite (snd (redeem_invite now k d)))"
    if "distinct (map invite_key (t_invite d))" "fst (redeem_invite now k d)"
  proof -
    from that(2) obtain r where "r \<in> set (t_invite d)" "invite_open (fst k) (snd k) now r"
      by (auto simp: defs count_where_0)
    then show ?thesis
      using spent_key_update [OF that(1), of r "invite_open (fst k) (snd k) now" k
          "\<lambda>i. i\<lparr>in_RedeemedAt := Some now\<rparr>" in_RedeemedAt]
      by (auto simp: defs invite_open_def)
  qed
  show "\<not> fst (redeem_invite now k d)" if "spent_key invite_key in_RedeemedAt k (t_invite d)"
    using that by (auto simp: defs count_where_0 spent_key_def invite_open_def)
  show "spent_key invite_key in_RedeemedAt k (t_invite (snd (redeem_invite now k' d)))"
    if "spent_key invite_key in_RedeemedAt k (t_invite d)"
    using that by (auto simp: defs intro!: spent_key_stays)
  show "distinct (map invite_key (t_invite (snd (redeem_invite now k d))))"
    if "distinct (map invite_key (t_invite d))"
    using that by (simp add: defs map_update_where)
qed

section \<open>Properties\<close>

text \<open>The unique keys of the three tables of secrets.\<close>

definition secret_keys :: "db \<Rightarrow> bool" where
  "secret_keys d \<longleftrightarrow> distinct (map rc_CodeHash (t_recovery_code d))
     \<and> distinct (map sl_TokenHash (t_setup_link d)) \<and> distinct (map invite_key (t_invite d))"

text \<open>
  (C11) A recovery code, a setup link and an invite are single-use: whatever is attempted, at
  whatever times and in whatever order, at most one attempt on a given code, link or invite
  succeeds.
\<close>

theorem secrets_single_use:
  assumes "secret_keys d"
  shows "length (filter (\<lambda>a. a = (hash, True)) (attempts redeem_code tries d)) \<le> 1 \<and>
    length (filter (\<lambda>a. a = (token, True)) (attempts use_setup_link uses d)) \<le> 1 \<and>
    length (filter (\<lambda>a. a = (garden_and_id, True)) (attempts redeem_invite redemptions d)) \<le> 1"
  using assms codes.at_most_once setup_links.at_most_once invites.at_most_once
  by (simp add: secret_keys_def)

definition ex_code :: recovery_code where
  "ex_code = \<lparr>rc_ID = ''c1'', rc_UserID = ''u1'', rc_CodeHash = ''h1'', rc_GeneratedAt = zero_time, rc_UsedAt = None\<rparr>"

theorem secrets_single_use_witness:
  "secret_keys (empty_db\<lparr>t_recovery_code := [ex_code]\<rparr>) \<and>
   attempts redeem_code [(zero_time, ''h1''), (zero_time, ''h1'')] (empty_db\<lparr>t_recovery_code := [ex_code]\<rparr>)
     = [(''h1'', True), (''h1'', False)] \<and>
   length (filter (\<lambda>a. a = (''h1'', True)) (attempts redeem_code [(zero_time, ''h1''), (zero_time, ''h1'')]
     (empty_db\<lparr>t_recovery_code := [ex_code]\<rparr>))) \<le> 1"
proof -
  have k: "secret_keys (empty_db\<lparr>t_recovery_code := [ex_code]\<rparr>)"
    by (simp add: secret_keys_def empty_db_def)
  moreover have "attempts redeem_code [(zero_time, ''h1''), (zero_time, ''h1'')] (empty_db\<lparr>t_recovery_code := [ex_code]\<rparr>)
     = [(''h1'', True), (''h1'', False)]"
    by (simp add: redeem_code_def RedeemRecoveryCode_def one_row_def ex_code_def)
  ultimately show ?thesis using secrets_single_use [OF k] by blast
qed

end
