(* ===== verification/Store_People.thy ===== *)
theory Store_People
  imports Store_Credentials
begin

text \<open>
  The queries on gardens, accounts and memberships: \<open>garden.sql.go\<close>, \<open>app_user.sql.go\<close> and
  \<open>membership.sql.go\<close> under \<open>src/internal/store\<close>, with the foreign-key actions the schema
  gives a deleted membership: its sessions lose their garden and its notification rows go.
\<close>

section \<open>garden.sql.go\<close>

definition CreateGarden :: "uuid \<Rightarrow> gotime \<Rightarrow> string \<Rightarrow> db \<Rightarrow> db_error + garden \<times> db" where
  "CreateGarden newID created name d =
     (if has_garden newID d then Inl UniqueViolation
      else (let g = \<lparr>ga_ID = newID, ga_Name = name, ga_CreatedAt = created\<rparr>
            in Inr (g, d\<lparr>t_garden := t_garden d @ [g]\<rparr>)))"

definition DeleteGardenCareEvents :: "uuid \<Rightarrow> db \<Rightarrow> db_error + unit \<times> db" where
  "DeleteGardenCareEvents garden d =
     Inr ((), d\<lparr>t_care_event := delete_where (\<lambda>e. ce_GardenID e = garden) (t_care_event d)\<rparr>)"

definition GetGarden :: "uuid \<Rightarrow> db \<Rightarrow> db_error + garden" where
  "GetGarden garden d = one_row (filter (\<lambda>g. ga_ID g = garden) (t_garden d))"

text \<open>The oldest owner membership of a garden, with its account.\<close>

definition owner_rows :: "uuid \<Rightarrow> db \<Rightarrow> (membership \<times> app_user) list" where
  "owner_rows garden d =
     SortStableFunc (by_time_id (\<lambda>(m, u). me_CreatedAt m) (\<lambda>(m, u). me_ID m))
       [(m, u). m \<leftarrow> t_membership d, u \<leftarrow> t_app_user d, us_ID u = me_UserID m,
                me_GardenID m = garden \<and> me_Role m = ''owner'']"

definition GetGardenOwner :: "uuid \<Rightarrow> db \<Rightarrow> db_error + uuid \<times> string" where
  "GetGardenOwner garden d = one_row (map (\<lambda>(m, u). (us_ID u, us_DisplayName u)) (owner_rows garden d))"

definition RenameGarden :: "string \<Rightarrow> uuid \<Rightarrow> db \<Rightarrow> db_error + unit \<times> db" where
  "RenameGarden name garden d =
     Inr ((), d\<lparr>t_garden := update_where (\<lambda>g. ga_ID g = garden) (\<lambda>g. g\<lparr>ga_Name := name\<rparr>) (t_garden d)\<rparr>)"

section \<open>app_user.sql.go\<close>

definition AnyUsers :: "db \<Rightarrow> db_error + bool" where
  "AnyUsers d = Inr (t_app_user d \<noteq> [])"

definition CloseAccount :: "gotime \<Rightarrow> uuid \<Rightarrow> db \<Rightarrow> db_error + int \<times> db" where
  "CloseAccount now user d =
     (let p = (\<lambda>u. us_ID u = user \<and> us_ClosedAt u = None)
      in Inr (count_where p (t_app_user d),
              d\<lparr>t_app_user := update_where p (\<lambda>u. u\<lparr>us_ClosedAt := Some now, us_LastGardenID := None\<rparr>)
                  (t_app_user d)\<rparr>))"

definition CreateUser ::
  "gotime \<Rightarrow> uuid \<Rightarrow> string \<Rightarrow> string \<Rightarrow> string \<Rightarrow> db \<Rightarrow> db_error + app_user \<times> db" where
  "CreateUser created user displayName handle timezone d =
     (if list_ex (\<lambda>u. us_Handle u = handle) (t_app_user d) then Inl NoRows
      else if has_user user d then Inl UniqueViolation
      else (let u = \<lparr>us_ID = user, us_DisplayName = displayName, us_Handle = handle,
                     us_Timezone = timezone, us_CreatedAt = created, us_LastGardenID = None,
                     us_ClosedAt = None\<rparr>
            in Inr (u, d\<lparr>t_app_user := t_app_user d @ [u]\<rparr>)))"

definition GetUser :: "uuid \<Rightarrow> db \<Rightarrow> db_error + app_user" where
  "GetUser user d = one_row (filter (\<lambda>u. us_ID u = user) (t_app_user d))"

definition GetUserByHandle :: "string \<Rightarrow> db \<Rightarrow> db_error + app_user" where
  "GetUserByHandle handle d =
     one_row (filter (\<lambda>u. us_Handle u = handle \<and> us_ClosedAt u = None) (t_app_user d))"

definition HandleExists :: "string \<Rightarrow> db \<Rightarrow> db_error + bool" where
  "HandleExists handle d = Inr (list_ex (\<lambda>u. us_Handle u = handle) (t_app_user d))"

text \<open>The order by garden name is the database's collation, an argument.\<close>

definition ListGardensOnlyThisUserOwns ::
  "(string \<Rightarrow> string \<Rightarrow> int) \<Rightarrow> uuid \<Rightarrow> gotime \<Rightarrow> db \<Rightarrow> db_error + garden list" where
  "ListGardensOnlyThisUserOwns collate user now d =
     (let owns = (\<lambda>m g. me_GardenID m = ga_ID g \<and> me_Role m = ''owner'' \<and> null_or_after (me_ExpiresAt m) now)
      in Inr (SortStableFunc (\<lambda>a b. cmp_Or (collate (ga_Name a) (ga_Name b)) (strings_Compare (ga_ID a) (ga_ID b)))
           [g. g \<leftarrow> t_garden d, m \<leftarrow> t_membership d, me_UserID m = user \<and> owns m g,
               \<not> list_ex (\<lambda>other. owns other g \<and> me_UserID other \<noteq> me_UserID m) (t_membership d)]))"

definition ListUsers :: "db \<Rightarrow> db_error + app_user list" where
  "ListUsers d =
     Inr (SortStableFunc (by_time_id us_CreatedAt us_ID) (filter (\<lambda>u. us_ClosedAt u = None) (t_app_user d)))"

definition SetLastGarden :: "uuid option \<Rightarrow> uuid \<Rightarrow> db \<Rightarrow> db_error + unit \<times> db" where
  "SetLastGarden garden user d =
     (if has_user user d \<and> (case garden of None \<Rightarrow> False | Some g \<Rightarrow> \<not> has_garden g d)
      then Inl ForeignKeyViolation
      else Inr ((), d\<lparr>t_app_user := update_where (\<lambda>u. us_ID u = user)
                 (\<lambda>u. u\<lparr>us_LastGardenID := garden\<rparr>) (t_app_user d)\<rparr>))"

definition UpdateAccount :: "string \<Rightarrow> string \<Rightarrow> string \<Rightarrow> uuid \<Rightarrow> db \<Rightarrow> db_error + unit \<times> db" where
  "UpdateAccount displayName handle timezone user d =
     (if has_user user d \<and> list_ex (\<lambda>u. us_Handle u = handle \<and> us_ID u \<noteq> user) (t_app_user d)
      then Inl UniqueViolation
      else Inr ((), d\<lparr>t_app_user := update_where (\<lambda>u. us_ID u = user)
                 (\<lambda>u. u\<lparr>us_DisplayName := displayName, us_Handle := handle, us_Timezone := timezone\<rparr>)
                 (t_app_user d)\<rparr>))"

section \<open>membership.sql.go\<close>

definition ClearReminder :: "uuid \<Rightarrow> uuid \<Rightarrow> gotime \<Rightarrow> db \<Rightarrow> db_error + unit \<times> db" where
  "ClearReminder garden membership at d =
     Inr ((), d\<lparr>t_membership := update_where
           (\<lambda>m. me_GardenID m = garden \<and> me_ID m = membership
                \<and> (case me_RemindAgainAt m of None \<Rightarrow> False | Some t \<Rightarrow> Equal t at))
           (\<lambda>m. m\<lparr>me_RemindAgainAt := None\<rparr>) (t_membership d)\<rparr>)"

definition CreateMembership ::
  "uuid \<Rightarrow> gotime \<Rightarrow> uuid \<Rightarrow> uuid \<Rightarrow> string \<Rightarrow> uuid option \<Rightarrow> gotime option \<Rightarrow> int
     \<Rightarrow> db \<Rightarrow> db_error + membership \<times> db" where
  "CreateMembership newID created garden user role invitedBy expiresAt digestHour d =
     (if has_membership garden user d then Inl UniqueViolation
      else if \<not> has_garden garden d \<or> \<not> has_user user d \<or> role \<notin> set known_roles
              \<or> (case invitedBy of None \<Rightarrow> False | Some u \<Rightarrow> \<not> has_user u d)
        then Inl ForeignKeyViolation
      else (let m = \<lparr>me_ID = newID, me_GardenID = garden, me_UserID = user, me_Role = role,
                     me_InvitedBy = invitedBy, me_CreatedAt = created, me_ExpiresAt = expiresAt,
                     me_DigestHour = digestHour, me_RemindAgainAt = None\<rparr>
            in Inr (m, d\<lparr>t_membership := t_membership d @ [m]\<rparr>)))"

text \<open>Deleting memberships: \<open>ON DELETE SET NULL (garden_id)\<close> on \<open>session\<close>, \<open>ON DELETE CASCADE\<close> on
  the two notification tables.\<close>

definition drop_memberships :: "(membership \<Rightarrow> bool) \<Rightarrow> db \<Rightarrow> db" where
  "drop_memberships p d =
     (let gone = filter p (t_membership d); ids = map me_ID gone
      in d\<lparr>t_membership := delete_where p (t_membership d),
           t_session := update_where
             (\<lambda>s. list_ex (\<lambda>m. se_GardenID s = Some (me_GardenID m) \<and> se_UserID s = me_UserID m) gone)
             (\<lambda>s. s\<lparr>se_GardenID := None\<rparr>) (t_session d),
           t_notification_preference :=
             delete_where (\<lambda>p. np_MembershipID p \<in> set ids) (t_notification_preference d),
           t_notification_send :=
             delete_where (\<lambda>n. ns_MembershipID n \<in> set ids) (t_notification_send d)\<rparr>)"

definition DeleteMembership :: "uuid \<Rightarrow> uuid \<Rightarrow> db \<Rightarrow> db_error + int \<times> db" where
  "DeleteMembership garden user d =
     (let p = (\<lambda>m. me_GardenID m = garden \<and> me_UserID m = user)
      in Inr (count_where p (t_membership d), drop_memberships p d))"

definition DeleteUserMemberships :: "uuid \<Rightarrow> db \<Rightarrow> db_error + unit \<times> db" where
  "DeleteUserMemberships user d = Inr ((), drop_memberships (\<lambda>m. me_UserID m = user) d)"

text \<open>Deleting a garden cascades to everything in it.  Postgres refuses the cascade while a care
  event is left, because \<open>care_event\<close> references \<open>care_type\<close> with \<open>ON DELETE RESTRICT\<close>.  An
  account last in the garden forgets it.\<close>

definition drop_garden :: "uuid \<Rightarrow> db \<Rightarrow> db" where
  "drop_garden garden d =
     (let d = drop_memberships (\<lambda>m. me_GardenID m = garden) d
      in d\<lparr>t_garden := delete_where (\<lambda>g. ga_ID g = garden) (t_garden d),
           t_app_user := update_where (\<lambda>u. us_LastGardenID u = Some garden)
             (\<lambda>u. u\<lparr>us_LastGardenID := None\<rparr>) (t_app_user d),
           t_plant := delete_where (\<lambda>p. pl_GardenID p = garden) (t_plant d),
           t_photo := delete_where (\<lambda>h. ph_GardenID h = garden) (t_photo d),
           t_care_type := delete_where (\<lambda>c. ct_GardenID c = garden) (t_care_type d),
           t_care_schedule := delete_where (\<lambda>s. cs_GardenID s = garden) (t_care_schedule d),
           t_invite := delete_where (\<lambda>i. in_GardenID i = garden) (t_invite d),
           t_api_token := delete_where (\<lambda>t. at_GardenID t = garden) (t_api_token d),
           t_calendar_note := delete_where (\<lambda>n. cn_GardenID n = garden) (t_calendar_note d)\<rparr>)"

definition DeleteGarden :: "uuid \<Rightarrow> db \<Rightarrow> db_error + int \<times> db" where
  "DeleteGarden garden d =
     (if has_garden garden d \<and> list_ex (\<lambda>e. ce_GardenID e = garden) (t_care_event d)
      then Inl ForeignKeyViolation
      else Inr (count_where (\<lambda>g. ga_ID g = garden) (t_garden d),
                if has_garden garden d then drop_garden garden d else d))"

definition GetMemberByHandle :: "uuid \<Rightarrow> string \<Rightarrow> db \<Rightarrow> db_error + membership \<times> app_user" where
  "GetMemberByHandle garden handle d =
     one_row [(m, u). m \<leftarrow> t_membership d, u \<leftarrow> t_app_user d, us_ID u = me_UserID m,
                      me_GardenID m = garden \<and> us_Handle u = handle]"

definition capabilities_of :: "string \<Rightarrow> db \<Rightarrow> string list" where
  "capabilities_of role d =
     SortStableFunc strings_Compare (map ro_Capability (filter (\<lambda>r. ro_Role r = role) (t_role_capability d)))"

definition GetMembershipWithUserAndGarden ::
  "uuid \<Rightarrow> uuid \<Rightarrow> db \<Rightarrow> db_error + membership \<times> app_user \<times> garden \<times> string list" where
  "GetMembershipWithUserAndGarden garden user d =
     one_row [(m, u, g, capabilities_of (me_Role m) d).
                m \<leftarrow> t_membership d, me_GardenID m = garden \<and> me_UserID m = user,
                u \<leftarrow> t_app_user d, us_ID u = me_UserID m, g \<leftarrow> t_garden d, ga_ID g = me_GardenID m]"

definition GetRemindLaterState :: "uuid \<Rightarrow> uuid \<Rightarrow> uuid \<Rightarrow> string \<Rightarrow> db \<Rightarrow> db_error + bool \<times> bool" where
  "GetRemindLaterState user garden membership sendKey d =
     Inr (list_ex (\<lambda>s. ps_UserID s = user) (t_push_subscription d),
          list_ex (\<lambda>n. ns_Kind n = ''digest'' \<and> ns_SendKey n = sendKey
                       \<and> list_ex (\<lambda>m. me_ID m = ns_MembershipID n \<and> me_GardenID m = garden
                                      \<and> me_ID m = membership) (t_membership d))
            (t_notification_send d))"

definition member_order :: "membership \<times> app_user \<Rightarrow> membership \<times> app_user \<Rightarrow> int" where
  "member_order = by_time_id (\<lambda>(m, u). me_CreatedAt m) (\<lambda>(m, u). me_ID m)"

definition ListMembers :: "uuid \<Rightarrow> db \<Rightarrow> db_error + (membership \<times> app_user) list" where
  "ListMembers garden d =
     Inr (SortStableFunc member_order
       [(m, u). m \<leftarrow> t_membership d, u \<leftarrow> t_app_user d, us_ID u = me_UserID m, me_GardenID m = garden])"

definition ListMembersWithCapability ::
  "string \<Rightarrow> uuid \<Rightarrow> gotime \<Rightarrow> db \<Rightarrow> db_error + (membership \<times> app_user) list" where
  "ListMembersWithCapability capability garden now d =
     Inr (SortStableFunc member_order
       [(m, u). m \<leftarrow> t_membership d, u \<leftarrow> t_app_user d, us_ID u = me_UserID m,
                role_grants d (me_Role m) capability,
                me_GardenID m = garden \<and> null_or_after (me_ExpiresAt m) now])"

text \<open>\<open>garden_id = last_garden_id DESC NULLS LAST\<close>: the garden last switched to comes first; with no
  such garden the comparison is NULL on every row.\<close>

definition last_garden_rank :: "membership \<times> app_user \<Rightarrow> int" where
  "last_garden_rank r =
     (case r of (m, u) \<Rightarrow> (case us_LastGardenID u of
        None \<Rightarrow> 2 | Some g \<Rightarrow> if me_GardenID m = g then 0 else 1))"

definition starting_order :: "membership \<times> app_user \<Rightarrow> membership \<times> app_user \<Rightarrow> int" where
  "starting_order a b =
     cmp_Or (cmp_Compare (last_garden_rank a) (last_garden_rank b)) (member_order a b)"

definition ListMembershipsForUser :: "uuid \<Rightarrow> db \<Rightarrow> db_error + membership list" where
  "ListMembershipsForUser user d =
     Inr (map fst (SortStableFunc starting_order
       [(m, u). m \<leftarrow> t_membership d, u \<leftarrow> t_app_user d, us_ID u = me_UserID m, me_UserID m = user]))"

text \<open>The lateral join of a garden's owner: its name and whether it is the given account.\<close>

definition owner_columns :: "uuid \<Rightarrow> uuid \<Rightarrow> db \<Rightarrow> string \<times> bool" where
  "owner_columns garden user d =
     (case owner_rows garden d of [] \<Rightarrow> ('''', False) | (m, u) # _ \<Rightarrow> (us_DisplayName u, us_ID u = user))"

definition ListMembershipsWithGardensForUser ::
  "uuid \<Rightarrow> db \<Rightarrow> db_error + (membership \<times> garden \<times> string \<times> bool) list" where
  "ListMembershipsWithGardensForUser user d =
     Inr (SortStableFunc (by_time_id (\<lambda>(m, g, own). me_CreatedAt m) (\<lambda>(m, g, own). me_ID m))
       [(m, g, owner_columns (ga_ID g) (me_UserID m) d).
          m \<leftarrow> t_membership d, g \<leftarrow> t_garden d, ga_ID g = me_GardenID m, me_UserID m = user])"

definition RemoveReminder :: "uuid \<Rightarrow> uuid \<Rightarrow> gotime \<Rightarrow> db \<Rightarrow> db_error + int \<times> db" where
  "RemoveReminder garden user now d =
     (let p = (\<lambda>m. me_GardenID m = garden \<and> me_UserID m = user
                   \<and> (case me_RemindAgainAt m of None \<Rightarrow> False | Some t \<Rightarrow> After t now))
      in Inr (count_where p (t_membership d),
              d\<lparr>t_membership := update_where p (\<lambda>m. m\<lparr>me_RemindAgainAt := None\<rparr>) (t_membership d)\<rparr>))"

definition RenewMembership ::
  "string \<Rightarrow> uuid option \<Rightarrow> gotime option \<Rightarrow> uuid \<Rightarrow> uuid \<Rightarrow> db \<Rightarrow> db_error + membership \<times> db" where
  "RenewMembership role invitedBy expiresAt garden user d =
     (let p = (\<lambda>m. me_GardenID m = garden \<and> me_UserID m = user);
          f = (\<lambda>m. m\<lparr>me_Role := role, me_InvitedBy := invitedBy, me_ExpiresAt := expiresAt\<rparr>)
      in case one_row (map f (filter p (t_membership d))) of
           Inl e \<Rightarrow> Inl e
         | Inr m \<Rightarrow>
             if role \<notin> set known_roles \<or> (case invitedBy of None \<Rightarrow> False | Some u \<Rightarrow> \<not> has_user u d)
             then Inl ForeignKeyViolation
             else Inr (m, d\<lparr>t_membership := update_where p f (t_membership d)\<rparr>))"

definition RescheduleReminder :: "gotime option \<Rightarrow> uuid \<Rightarrow> uuid \<Rightarrow> gotime \<Rightarrow> db \<Rightarrow> db_error + int \<times> db" where
  "RescheduleReminder at garden user now d =
     (let p = (\<lambda>m. me_GardenID m = garden \<and> me_UserID m = user
                   \<and> (case me_RemindAgainAt m of None \<Rightarrow> False | Some t \<Rightarrow> After t now))
      in Inr (count_where p (t_membership d),
              d\<lparr>t_membership := update_where p (\<lambda>m. m\<lparr>me_RemindAgainAt := at\<rparr>) (t_membership d)\<rparr>))"

definition SetDigestHour :: "int \<Rightarrow> uuid \<Rightarrow> uuid \<Rightarrow> db \<Rightarrow> db_error + unit \<times> db" where
  "SetDigestHour hour garden user d =
     Inr ((), d\<lparr>t_membership := update_where (\<lambda>m. me_GardenID m = garden \<and> me_UserID m = user)
                 (\<lambda>m. m\<lparr>me_DigestHour := hour\<rparr>) (t_membership d)\<rparr>)"

definition SetMemberRole :: "string \<Rightarrow> uuid \<Rightarrow> uuid \<Rightarrow> db \<Rightarrow> db_error + int \<times> db" where
  "SetMemberRole role garden user d =
     (let p = (\<lambda>m. me_GardenID m = garden \<and> me_UserID m = user) in
      if list_ex p (t_membership d) \<and> role \<notin> set known_roles then Inl ForeignKeyViolation
      else Inr (count_where p (t_membership d),
                d\<lparr>t_membership := update_where p (\<lambda>m. m\<lparr>me_Role := role\<rparr>) (t_membership d)\<rparr>))"

definition SetMembershipEnd :: "gotime option \<Rightarrow> uuid \<Rightarrow> uuid \<Rightarrow> db \<Rightarrow> db_error + int \<times> db" where
  "SetMembershipEnd expiresAt garden user d =
     (let p = (\<lambda>m. me_GardenID m = garden \<and> me_UserID m = user)
      in Inr (count_where p (t_membership d),
              d\<lparr>t_membership := update_where p (\<lambda>m. m\<lparr>me_ExpiresAt := expiresAt\<rparr>) (t_membership d)\<rparr>))"

definition SetReminder :: "gotime option \<Rightarrow> uuid \<Rightarrow> uuid \<Rightarrow> gotime \<Rightarrow> db \<Rightarrow> db_error + int \<times> db" where
  "SetReminder at garden user now d =
     (let p = (\<lambda>m. me_GardenID m = garden \<and> me_UserID m = user
                   \<and> (case me_RemindAgainAt m of None \<Rightarrow> True | Some t \<Rightarrow> \<not> After t now))
      in Inr (count_where p (t_membership d),
              d\<lparr>t_membership := update_where p (\<lambda>m. m\<lparr>me_RemindAgainAt := at\<rparr>) (t_membership d)\<rparr>))"

end
