(* ===== verification/Store_Notify.thy ===== *)
theory Store_Notify
  imports Store_People
begin

text \<open>
  The queries of the notification jobs: \<open>notification_send.sql.go\<close>,
  \<open>notification_preference.sql.go\<close> and \<open>push_subscription.sql.go\<close>, and the two lists of
  deadlines in \<open>api_token.sql.go\<close> and \<open>membership.sql.go\<close>, under \<open>src/internal/store\<close>.  The
  ledger of sent notifications meets the contract of locale \<open>ledger\<close>: a key is claimed at most
  once.
\<close>

section \<open>notification_send.sql.go\<close>

definition known_kinds :: "string list" where
  "known_kinds =
     [''digest'', ''digest_again'', ''activity'', ''invite_accepted'', ''token_expiring'',
      ''token_expired'', ''sitting_ended'', ''role_changed'', ''membership_removed'',
      ''storage_nearly_full'']"

definition has_membership_id :: "uuid \<Rightarrow> db \<Rightarrow> bool" where
  "has_membership_id membership d = list_ex (\<lambda>m. me_ID m = membership) (t_membership d)"

definition in_ledger :: "uuid \<Rightarrow> string \<Rightarrow> string \<Rightarrow> db \<Rightarrow> bool" where
  "in_ledger membership kind key d =
     list_ex (\<lambda>n. ns_MembershipID n = membership \<and> ns_Kind n = kind \<and> ns_SendKey n = key)
       (t_notification_send d)"

definition ClaimNotificationSend ::
  "gotime \<Rightarrow> uuid \<Rightarrow> string \<Rightarrow> string \<Rightarrow> db \<Rightarrow> db_error + int \<times> db" where
  "ClaimNotificationSend sentAt membership kind key d =
     (if in_ledger membership kind key d then Inr (0, d)
      else if \<not> has_membership_id membership d \<or> kind \<notin> set known_kinds then Inl ForeignKeyViolation
      else Inr (1, d\<lparr>t_notification_send := t_notification_send d @
             [\<lparr>ns_MembershipID = membership, ns_Kind = kind, ns_SendKey = key, ns_SentAt = sentAt\<rparr>]\<rparr>))"

definition DeleteNotificationSends :: "uuid \<Rightarrow> string \<Rightarrow> string \<Rightarrow> db \<Rightarrow> db_error + int \<times> db" where
  "DeleteNotificationSends garden kind key d =
     (let p = (\<lambda>n. list_ex (\<lambda>m. me_ID m = ns_MembershipID n \<and> me_GardenID m = garden) (t_membership d)
                   \<and> ns_Kind n = kind \<and> ns_SendKey n = key)
      in Inr (count_where p (t_notification_send d),
              d\<lparr>t_notification_send := delete_where p (t_notification_send d)\<rparr>))"

text \<open>\<open>max(send_key)\<close> under \<open>COLLATE "C"\<close>, and the empty string for none.\<close>

definition max_key :: "string list \<Rightarrow> string" where
  "max_key keys = foldl (\<lambda>m k. if strings_Compare m k < 0 then k else m) '''' keys"

definition sent_through :: "uuid \<Rightarrow> db \<Rightarrow> string" where
  "sent_through membership d =
     max_key (map ns_SendKey (filter (\<lambda>n. ns_MembershipID n = membership \<and> ns_Kind n = ''digest'')
       (t_notification_send d)))"

definition has_browser :: "uuid \<Rightarrow> db \<Rightarrow> bool" where
  "has_browser user d = list_ex (\<lambda>s. ps_UserID s = user) (t_push_subscription d)"

definition preference_on :: "uuid \<Rightarrow> string \<Rightarrow> db \<Rightarrow> bool" where
  "preference_on membership kind d =
     list_ex (\<lambda>p. np_MembershipID p = membership \<and> np_Kind p = kind \<and> np_Enabled p)
       (t_notification_preference d)"

record digest_member =
  dm_MembershipID :: uuid
  dm_GardenID :: uuid
  dm_UserID :: uuid
  dm_DigestHour :: int
  dm_Handle :: string
  dm_Timezone :: string
  dm_GardenName :: string
  dm_SentThrough :: string

definition digest_member_of :: "db \<Rightarrow> membership \<times> app_user \<times> garden \<Rightarrow> digest_member" where
  "digest_member_of d r =
     (case r of (m, u, g) \<Rightarrow>
        \<lparr>dm_MembershipID = me_ID m, dm_GardenID = me_GardenID m, dm_UserID = me_UserID m,
         dm_DigestHour = me_DigestHour m, dm_Handle = us_Handle u, dm_Timezone = us_Timezone u,
         dm_GardenName = ga_Name g, dm_SentThrough = sent_through (me_ID m) d\<rparr>)"

definition joined :: "db \<Rightarrow> (membership \<times> app_user \<times> garden) list" where
  "joined d = [(m, u, g). m \<leftarrow> t_membership d, u \<leftarrow> t_app_user d, us_ID u = me_UserID m,
                          g \<leftarrow> t_garden d, ga_ID g = me_GardenID m]"

definition ListDigestMembers :: "gotime \<Rightarrow> db \<Rightarrow> db_error + digest_member list" where
  "ListDigestMembers now d =
     Inr (map (digest_member_of d)
       (SortStableFunc (by_time_id (\<lambda>(m, u, g). me_CreatedAt m) (\<lambda>(m, u, g). me_ID m))
         (filter (\<lambda>(m, u, g). preference_on (me_ID m) ''digest'' d \<and> null_or_after (me_ExpiresAt m) now
                    \<and> has_browser (me_UserID m) d) (joined d))))"

record waiting_reminder =
  wr_MembershipID :: uuid
  wr_GardenID :: uuid
  wr_UserID :: uuid
  wr_RemindAgainAt :: gotime
  wr_Handle :: string
  wr_Timezone :: string
  wr_GardenName :: string

definition ListWaitingReminders :: "gotime \<Rightarrow> db \<Rightarrow> db_error + waiting_reminder list" where
  "ListWaitingReminders now d =
     Inr (SortStableFunc (by_time_id wr_RemindAgainAt wr_MembershipID)
       [\<lparr>wr_MembershipID = me_ID m, wr_GardenID = me_GardenID m, wr_UserID = me_UserID m,
         wr_RemindAgainAt = at, wr_Handle = us_Handle u, wr_Timezone = us_Timezone u,
         wr_GardenName = ga_Name g\<rparr>.
          (m, u, g) \<leftarrow> joined d, at \<leftarrow> (case me_RemindAgainAt m of None \<Rightarrow> [] | Some at \<Rightarrow> [at]),
          null_or_after (me_ExpiresAt m) now, has_browser (me_UserID m) d])"

section \<open>notification_preference.sql.go\<close>

definition ListNotificationPreferences :: "uuid \<Rightarrow> db \<Rightarrow> db_error + notification_preference list" where
  "ListNotificationPreferences membership d =
     Inr (SortStableFunc (\<lambda>a b. strings_Compare (np_Kind a) (np_Kind b))
       (filter (\<lambda>p. np_MembershipID p = membership) (t_notification_preference d)))"

definition SetNotificationPreference :: "uuid \<Rightarrow> string \<Rightarrow> bool \<Rightarrow> db \<Rightarrow> db_error + unit \<times> db" where
  "SetNotificationPreference membership kind enabled d =
     (let p = (\<lambda>r. np_MembershipID r = membership \<and> np_Kind r = kind) in
      if list_ex p (t_notification_preference d)
      then Inr ((), d\<lparr>t_notification_preference :=
                  update_where p (\<lambda>r. r\<lparr>np_Enabled := enabled\<rparr>) (t_notification_preference d)\<rparr>)
      else if \<not> has_membership_id membership d \<or> kind \<notin> set known_kinds then Inl ForeignKeyViolation
      else Inr ((), d\<lparr>t_notification_preference := t_notification_preference d @
                  [\<lparr>np_MembershipID = membership, np_Kind = kind, np_Enabled = enabled\<rparr>]\<rparr>))"

section \<open>push_subscription.sql.go\<close>

definition CountOtherPushSubscriptions :: "uuid \<Rightarrow> string \<Rightarrow> db \<Rightarrow> db_error + int" where
  "CountOtherPushSubscriptions user endpoint d =
     Inr (count_where (\<lambda>s. ps_UserID s = user \<and> ps_Endpoint s \<noteq> endpoint) (t_push_subscription d))"

definition DeletePushSubscription :: "uuid \<Rightarrow> uuid \<Rightarrow> db \<Rightarrow> db_error + int \<times> db" where
  "DeletePushSubscription user subscription d =
     (let p = (\<lambda>s. ps_UserID s = user \<and> ps_ID s = subscription)
      in Inr (count_where p (t_push_subscription d),
              d\<lparr>t_push_subscription := delete_where p (t_push_subscription d)\<rparr>))"

definition DeleteUserPushSubscriptions :: "uuid \<Rightarrow> db \<Rightarrow> db_error + unit \<times> db" where
  "DeleteUserPushSubscriptions user d =
     Inr ((), d\<lparr>t_push_subscription := delete_where (\<lambda>s. ps_UserID s = user) (t_push_subscription d)\<rparr>)"

definition GetPushSubscriptionByEndpoint :: "uuid \<Rightarrow> string \<Rightarrow> db \<Rightarrow> db_error + push_subscription" where
  "GetPushSubscriptionByEndpoint user endpoint d =
     one_row (filter (\<lambda>s. ps_UserID s = user \<and> ps_Endpoint s = endpoint) (t_push_subscription d))"

definition ListActivitySubscriptions ::
  "uuid \<Rightarrow> uuid \<Rightarrow> gotime \<Rightarrow> db \<Rightarrow> db_error + (push_subscription \<times> string \<times> string) list" where
  "ListActivitySubscriptions garden actor now d =
     Inr (map (\<lambda>(m, s, handle, name). (s, handle, name))
       (SortStableFunc
         (\<lambda>a b. cmp_Or (by_time_id (\<lambda>(m, s, h, n). me_CreatedAt m) (\<lambda>(m, s, h, n). me_ID m) a b)
                       (by_time_id (\<lambda>(m, s, h, n). ps_CreatedAt s) (\<lambda>(m, s, h, n). ps_ID s) a b))
         [(m, s, us_Handle u, ga_Name g).
            (m, u, g) \<leftarrow> joined d, preference_on (me_ID m) ''activity'' d,
            s \<leftarrow> t_push_subscription d, ps_UserID s = me_UserID m,
            me_GardenID m = garden \<and> me_UserID m \<noteq> actor \<and> null_or_after (me_ExpiresAt m) now]))"

definition ListPushSubscriptions :: "uuid \<Rightarrow> db \<Rightarrow> db_error + push_subscription list" where
  "ListPushSubscriptions user d =
     Inr (SortStableFunc (by_time_id ps_CreatedAt ps_ID)
       (filter (\<lambda>s. ps_UserID s = user) (t_push_subscription d)))"

definition SetPushSubscriptionSent ::
  "gotime option \<Rightarrow> uuid \<Rightarrow> uuid \<Rightarrow> db \<Rightarrow> db_error + unit \<times> db" where
  "SetPushSubscriptionSent sentAt user subscription d =
     Inr ((), d\<lparr>t_push_subscription := update_where (\<lambda>s. ps_UserID s = user \<and> ps_ID s = subscription)
                 (\<lambda>s. s\<lparr>ps_LastSentAt := sentAt\<rparr>) (t_push_subscription d)\<rparr>)"

definition UpsertPushSubscription ::
  "uuid \<Rightarrow> gotime \<Rightarrow> uuid \<Rightarrow> string \<Rightarrow> string \<Rightarrow> string \<Rightarrow> string option \<Rightarrow> db \<Rightarrow> db_error + unit \<times> db" where
  "UpsertPushSubscription newID tnow user endpoint p256dh authKey userAgent d =
     (if \<not> has_user user d then Inl ForeignKeyViolation
      else if list_ex (\<lambda>s. ps_Endpoint s = endpoint) (t_push_subscription d)
      then Inr ((), d\<lparr>t_push_subscription := update_where (\<lambda>s. ps_Endpoint s = endpoint)
             (\<lambda>s. s\<lparr>ps_UserID := user, ps_P256dhKey := p256dh, ps_AuthKey := authKey,
                    ps_UserAgent := userAgent,
                    ps_CreatedAt := (if ps_UserID s = user then ps_CreatedAt s else tnow),
                    ps_LastSentAt := (if ps_UserID s = user then ps_LastSentAt s else None)\<rparr>)
             (t_push_subscription d)\<rparr>)
      else Inr ((), d\<lparr>t_push_subscription := t_push_subscription d @
             [\<lparr>ps_ID = newID, ps_UserID = user, ps_Endpoint = endpoint, ps_P256dhKey = p256dh,
               ps_AuthKey = authKey, ps_UserAgent = userAgent, ps_CreatedAt = tnow,
               ps_LastSentAt = None\<rparr>]\<rparr>))"

section \<open>Deadlines: ListTokenDeadlines and ListSittingDeadlines\<close>

record token_deadline =
  td_APIToken :: api_token
  td_MembershipID :: uuid
  td_UserID :: uuid
  td_Handle :: string
  td_Timezone :: string
  td_GardenName :: string
  td_OwnerName :: string
  td_RecipientOwns :: bool

definition ListTokenDeadlines :: "gotime \<Rightarrow> string \<Rightarrow> gotime \<Rightarrow> db \<Rightarrow> db_error + token_deadline list" where
  "ListTokenDeadlines now capability since d =
     Inr (SortStableFunc (by_time_id (\<lambda>r. at_ExpiresAt (td_APIToken r)) (\<lambda>r. at_ID (td_APIToken r)))
       [(case owner_columns (ga_ID g) (me_UserID m) d of (owner, owns) \<Rightarrow>
           \<lparr>td_APIToken = t, td_MembershipID = me_ID m, td_UserID = me_UserID m, td_Handle = us_Handle u,
            td_Timezone = us_Timezone u, td_GardenName = ga_Name g, td_OwnerName = owner,
            td_RecipientOwns = owns\<rparr>).
          t \<leftarrow> t_api_token d, at_RevokedAt t = None, After (at_ExpiresAt t) since,
          (m, u, g) \<leftarrow> joined d, ga_ID g = at_GardenID t \<and> me_UserID m = at_CreatedBy t,
          null_or_after (me_ExpiresAt m) now, role_grants d (me_Role m) capability,
          has_browser (me_UserID m) d])"

record sitting_deadline =
  sd_SittingID :: uuid
  sd_EndsAt :: gotime
  sd_SitterName :: string
  sd_GardenName :: string
  sd_MembershipID :: uuid
  sd_UserID :: uuid
  sd_Handle :: string
  sd_IsSitter :: bool
  sd_OwnerName :: string
  sd_RecipientOwns :: bool

text \<open>\<open>ORDER BY sitting.expires_at, sitting.id, recipient.id = sitting.id DESC\<close>.\<close>

definition sitting_order :: "sitting_deadline \<Rightarrow> sitting_deadline \<Rightarrow> int" where
  "sitting_order a b =
     cmp_Or (by_time_id sd_EndsAt sd_SittingID a b)
       (cmp_Compare (if sd_IsSitter a then 0 else 1 :: int) (if sd_IsSitter b then 0 else 1))"

definition ListSittingDeadlines :: "gotime \<Rightarrow> gotime \<Rightarrow> db \<Rightarrow> db_error + sitting_deadline list" where
  "ListSittingDeadlines now since d =
     Inr (SortStableFunc sitting_order
       [(case owner_columns (ga_ID g) (me_UserID recipient) d of (owner, owns) \<Rightarrow>
           \<lparr>sd_SittingID = me_ID sitting, sd_EndsAt = ends, sd_SitterName = us_DisplayName sitter,
            sd_GardenName = ga_Name g, sd_MembershipID = me_ID recipient, sd_UserID = me_UserID recipient,
            sd_Handle = us_Handle u, sd_IsSitter = (me_ID recipient = me_ID sitting),
            sd_OwnerName = owner, sd_RecipientOwns = owns\<rparr>).
          (sitting, sitter, g) \<leftarrow> joined d,
          ends \<leftarrow> (case me_ExpiresAt sitting of None \<Rightarrow> [] | Some e \<Rightarrow> [e]), After ends since,
          recipient \<leftarrow> t_membership d, me_GardenID recipient = me_GardenID sitting,
          me_ID recipient = me_ID sitting
            \<or> Some (me_UserID recipient) = me_InvitedBy sitting \<and> null_or_after (me_ExpiresAt recipient) now,
          u \<leftarrow> t_app_user d, us_ID u = me_UserID recipient, has_browser (me_UserID recipient) d])"

section \<open>The ledger\<close>

text \<open>
  What a job relies on before it sends: a claim succeeds only on a key that is not in the ledger
  and puts it there, and neither a claim nor a refusal takes a key out.
\<close>

locale ledger =
  fixes claim :: "gotime \<Rightarrow> 'k \<Rightarrow> db \<Rightarrow> db_error + int \<times> db"
    and claimed :: "'k \<Rightarrow> db \<Rightarrow> bool"
  assumes claim_new: "claim t k d = Inr (n, d') \<Longrightarrow> n \<noteq> 0 \<Longrightarrow> \<not> claimed k d"
    and claim_puts: "claim t k d = Inr (n, d') \<Longrightarrow> claimed k d'"
    and claim_keeps: "claim t k d = Inr (n, d') \<Longrightarrow> claimed k' d \<Longrightarrow> claimed k' d'"

text \<open>A sequence of claims, by any jobs in any order; a refused or failed one leaves the tables.\<close>

fun claims :: "(gotime \<Rightarrow> 'k \<Rightarrow> db \<Rightarrow> db_error + int \<times> db) \<Rightarrow> (gotime \<times> 'k) list \<Rightarrow> db \<Rightarrow> ('k \<times> bool) list" where
  "claims claim [] d = []"
| "claims claim ((t, k) # rest) d =
     (case claim t k d of
        Inl _ \<Rightarrow> (k, False) # claims claim rest d
      | Inr (n, d') \<Rightarrow> (k, n \<noteq> 0) # claims claim rest d')"

context ledger
begin

lemma claimed_never: "claimed k d \<Longrightarrow> (k, True) \<notin> set (claims claim ks d)"
proof (induction ks arbitrary: d)
  case (Cons a ks)
  obtain t k' where a: "a = (t, k')" by (cases a)
  show ?case
  proof (cases "claim t k' d")
    case (Inr r)
    obtain n d' where r: "r = (n, d')" by (cases r)
    then show ?thesis
      using Inr Cons claim_keeps [of t k' d n d' k] claim_new [of t k' d n d'] by (auto simp: a)
  qed (use Cons in \<open>auto simp: a\<close>)
qed simp

lemma claimed_once: "length (filter (\<lambda>c. c = (k, True)) (claims claim ks d)) \<le> 1"
proof (induction ks arbitrary: d)
  case (Cons a ks)
  obtain t k' where a: "a = (t, k')" by (cases a)
  show ?case
  proof (cases "claim t k' d")
    case (Inr r)
    obtain n d' where r: "r = (n, d')" by (cases r)
    show ?thesis
    proof (cases "k' = k \<and> n \<noteq> 0")
      case True
      then have "claimed k d'" using claim_puts Inr r by blast
      then have "filter (\<lambda>c. c = (k, True)) (claims claim ks d') = []"
        using claimed_never [of k d' ks] by (auto simp: filter_empty_conv)
      then show ?thesis using Inr r by (simp add: a)
    qed (use Inr r Cons.IH [of d'] in \<open>auto simp: a\<close>)
  qed (use Cons in \<open>auto simp: a\<close>)
qed simp

end

abbreviation claim_send :: "gotime \<Rightarrow> uuid \<times> string \<times> string \<Rightarrow> db \<Rightarrow> db_error + int \<times> db" where
  "claim_send t k \<equiv> case k of (membership, kind, key) \<Rightarrow> ClaimNotificationSend t membership kind key"

definition send_claimed :: "uuid \<times> string \<times> string \<Rightarrow> db \<Rightarrow> bool" where
  "send_claimed k d = (case k of (membership, kind, key) \<Rightarrow> in_ledger membership kind key d)"

interpretation sends: ledger claim_send send_claimed
  by unfold_locales (auto simp: send_claimed_def ClaimNotificationSend_def in_ledger_def split: if_splits)

lemma send_claimed_rows:
  "send_claimed k d \<longleftrightarrow> k \<in> (\<lambda>n. (ns_MembershipID n, ns_Kind n, ns_SendKey n)) ` set (t_notification_send d)"
  by (cases k) (auto simp: send_claimed_def in_ledger_def list_ex_iff)

end
