(* ===== verification/Auth_Recovery.thy ===== *)
theory Auth_Recovery
  imports Prelude
begin

text \<open>
  Recovery codes: \<open>src/internal/auth/recovery.go\<close>.  The random bytes of \<open>NewRecoveryCode\<close> are an
  argument.  A typed code is the sequence of its runes; \<open>unicode.ToLower\<close>, which
  \<open>strings.ToLower\<close> applies to each, is an argument too.
\<close>

definition recoveryAlphabet :: string where
  "recoveryAlphabet = ''abcdefghjklmnpqrstuvwxyz23456789''"

definition recoveryGroups :: nat where "recoveryGroups = 3"
definition recoveryGroupLength :: nat where "recoveryGroupLength = 4"

definition join_groups :: "string \<Rightarrow> string" where
  "join_groups flat =
     take 4 flat @ ''-'' @ take 4 (drop 4 flat) @ ''-'' @ take 4 (drop 8 flat)"

text \<open>\<open>recoveryAlphabet[b\&31]\<close>: the low five bits of a byte pick a character.\<close>

definition NewRecoveryCode :: "nat list \<Rightarrow> string" where
  "NewRecoveryCode raw = join_groups (map (\<lambda>b. recoveryAlphabet ! (b mod 32)) raw)"

definition separator :: "nat \<Rightarrow> bool" where
  "separator r = (r \<in> {45, 32, 9, 10, 13})"

definition alphabet_runes :: "nat list" where
  "alphabet_runes = map of_char recoveryAlphabet"

fun symbols :: "nat list \<Rightarrow> string option" where
  "symbols [] = Some ''''"
| "symbols (r # rs) =
     (if separator r then symbols rs
      else if r \<in> set alphabet_runes then map_option ((#) (char_of r)) (symbols rs)
      else None)"

definition CanonicalRecoveryCode :: "(nat \<Rightarrow> nat) \<Rightarrow> nat list \<Rightarrow> string option" where
  "CanonicalRecoveryCode toLower typed =
     (case symbols (map toLower typed) of
        None \<Rightarrow> None
      | Some flat \<Rightarrow>
          if length flat \<noteq> recoveryGroups * recoveryGroupLength then None else Some (join_groups flat))"

section \<open>The symbols of a code\<close>

definition runes :: "string \<Rightarrow> nat list" where
  "runes s = map of_char s"

definition flatten :: "string \<Rightarrow> string" where
  "flatten code = filter (\<lambda>c. c \<noteq> CHR ''-'') code"

lemma alphabet_facts:
  "length recoveryAlphabet = 32" "CHR ''-'' \<notin> set recoveryAlphabet"
  "r \<in> set alphabet_runes \<Longrightarrow> \<not> separator r" "r \<in> set alphabet_runes \<Longrightarrow> r < 256"
  by (auto simp: recoveryAlphabet_def alphabet_runes_def separator_def)

lemma symbols_Some:
  "symbols rs = Some flat \<longleftrightarrow> set flat \<subseteq> set recoveryAlphabet \<and> filter (\<lambda>r. \<not> separator r) rs = runes flat"
proof (induction rs arbitrary: flat)
  case Nil
  then show ?case by (auto simp: runes_def)
next
  case (Cons r rs)
  show ?case
  proof (cases "separator r")
    case True
    then show ?thesis using Cons.IH by simp
  next
    case False
    show ?thesis
    proof (cases "r \<in> set alphabet_runes")
      case True
      then obtain c where c: "c \<in> set recoveryAlphabet" "r = of_char c" by (auto simp: alphabet_runes_def)
      show ?thesis
        using False True Cons.IH c(1)
        by (cases flat) (auto simp: c(2) runes_def)
    next
      case no: False
      have "r \<noteq> of_char c" if "c \<in> set recoveryAlphabet" for c
        using no that by (auto simp: alphabet_runes_def)
      with False no show ?thesis by (cases flat) (auto simp: runes_def)
    qed
  qed
qed

lemma bytes_for_symbols:
  assumes "set flat \<subseteq> set recoveryAlphabet"
  obtains raw where "length raw = length flat" "set raw \<subseteq> {..<256}"
    "map (\<lambda>b. recoveryAlphabet ! (b mod 32)) raw = flat"
proof -
  have "\<forall>c \<in> set flat. \<exists>i < 32. recoveryAlphabet ! i = c"
    using assms alphabet_facts(1) by (metis in_set_conv_nth subsetD)
  then obtain index where i: "\<And>c. c \<in> set flat \<Longrightarrow> index c < 32 \<and> recoveryAlphabet ! index c = c"
    by metis
  show thesis
    by (rule that [of "map index flat"]) (use i in \<open>fastforce intro!: map_idI\<close>)+
qed

lemma flatten_join:
  assumes "length flat = 12" "set flat \<subseteq> set recoveryAlphabet"
  shows "flatten (join_groups flat) = flat"
proof -
  have none: "filter (\<lambda>c. c \<noteq> CHR ''-'') xs = xs" if "set xs \<subseteq> set flat" for xs
    using that assms(2) alphabet_facts(2) by (auto intro!: filter_True)
  have "flatten (join_groups flat) = take 4 flat @ take 4 (drop 4 flat) @ take 4 (drop 8 flat)"
    using none [of "take 4 flat"] none [of "take 4 (drop 4 flat)"] none [of "take 4 (drop 8 flat)"]
    by (simp add: flatten_def join_groups_def set_take_subset subset_trans [OF set_take_subset set_drop_subset])
  also have "take 4 (drop 8 flat) = drop 8 flat" using assms(1) by simp
  also have "take 4 (drop 4 flat) @ drop 8 flat = drop 4 flat"
    using append_take_drop_id [of 4 "drop 4 flat"] by simp
  finally show ?thesis by simp
qed

lemma symbols_in_alphabet: "set (map (\<lambda>b. recoveryAlphabet ! (b mod 32)) raw) \<subseteq> set recoveryAlphabet"
  using alphabet_facts(1) by (auto intro!: nth_mem)

section \<open>Properties\<close>

text \<open>
  A typed code is accepted exactly when, lower-cased and with its spaces and hyphens left
  out, it is the twelve symbols of some code that \<open>NewRecoveryCode\<close> can make, and the result is
  that code.
\<close>

theorem CanonicalRecoveryCode_iff:
  "CanonicalRecoveryCode toLower typed = Some code \<longleftrightarrow>
    (\<exists>raw. length raw = 12 \<and> set raw \<subseteq> {..<256} \<and> code = NewRecoveryCode raw
      \<and> filter (\<lambda>r. \<not> separator r) (map toLower typed) = runes (flatten code))"
proof
  assume "CanonicalRecoveryCode toLower typed = Some code"
  then obtain flat where flat: "symbols (map toLower typed) = Some flat" "length flat = 12" "code = join_groups flat"
    by (auto simp: CanonicalRecoveryCode_def recoveryGroups_def recoveryGroupLength_def split: option.splits if_splits)
  then have sub: "set flat \<subseteq> set recoveryAlphabet"
    "filter (\<lambda>r. \<not> separator r) (map toLower typed) = runes flat" using symbols_Some by blast+
  obtain raw where "length raw = length flat" "set raw \<subseteq> {..<256}"
    "map (\<lambda>b. recoveryAlphabet ! (b mod 32)) raw = flat"
    by (rule bytes_for_symbols [OF sub(1)]) (rule that)
  with flat sub flatten_join [OF flat(2) sub(1)] show "\<exists>raw. length raw = 12 \<and> set raw \<subseteq> {..<256} \<and> code = NewRecoveryCode raw
      \<and> filter (\<lambda>r. \<not> separator r) (map toLower typed) = runes (flatten code)"
    by (intro exI [of _ raw]) (simp add: NewRecoveryCode_def)
next
  assume "\<exists>raw. length raw = 12 \<and> set raw \<subseteq> {..<256} \<and> code = NewRecoveryCode raw
      \<and> filter (\<lambda>r. \<not> separator r) (map toLower typed) = runes (flatten code)"
  then obtain raw where raw: "length raw = 12" "code = NewRecoveryCode raw"
    "filter (\<lambda>r. \<not> separator r) (map toLower typed) = runes (flatten code)" by blast
  let ?flat = "map (\<lambda>b. recoveryAlphabet ! (b mod 32)) raw"
  have "flatten code = ?flat"
    using flatten_join [of ?flat] symbols_in_alphabet raw(1,2) by (simp add: NewRecoveryCode_def)
  then have "symbols (map toLower typed) = Some ?flat" using symbols_Some symbols_in_alphabet raw(3) by auto
  then show "CanonicalRecoveryCode toLower typed = Some code"
    using raw(1,2)
    by (simp add: CanonicalRecoveryCode_def recoveryGroups_def recoveryGroupLength_def NewRecoveryCode_def)
qed

end
