(* ===== verification/Auth_Session.thy ===== *)
theory Auth_Session
  imports Store_People
begin

text \<open>
  Sessions: \<open>src/internal/auth/session.go\<close> and \<open>capability.go\<close>.  \<open>HashToken\<close> (hex SHA-256) and
  the random token of \<open>Create\<close> are arguments.  A handler's state is the \<open>world\<close> of
  \<open>Store_DB\<close>; a result is an error or a value, with the world after it.
\<close>

section \<open>capability.go\<close>

type_synonym capability = string

definition allCapabilities :: "capability list" where
  "allCapabilities =
     [''plant.create'', ''plant.edit'', ''plant.archive'', ''schedule.edit'',
      ''care.log'', ''care.edit_own'', ''care.delete_own'', ''care.edit_any'', ''care.delete_any'',
      ''photo.add'', ''photo.set_profile'', ''photo.delete_own'', ''photo.delete_any'',
      ''garden.edit'', ''garden.delete'', ''care_type.manage'', ''member.invite'', ''member.manage'',
      ''token.manage'', ''sitting.view'', ''calendar_note.manage'']"

definition TokenManage :: capability where "TokenManage = ''token.manage''"

definition NewCapabilities :: "string list \<Rightarrow> capability set" where
  "NewCapabilities names = fold insert names {}"

section \<open>session.go\<close>

datatype auth_error =
    ErrNoSession
  | ErrNoLiveMembership
  | ErrNoAPIToken
  | ErrUnknownHandle
  | ErrTokenLifetime
  | ErrStore db_error

definition SessionDeadline :: "gotime \<Rightarrow> int \<Rightarrow> gotime" where
  "SessionDeadline lastSeen ttl = Add lastSeen ttl"

definition SessionExpired :: "gotime \<Rightarrow> gotime \<Rightarrow> int \<Rightarrow> bool" where
  "SessionExpired lastSeen now ttl = (\<not> Before now (SessionDeadline lastSeen ttl))"

record cookie_settings =
  co_Name :: string
  co_Secure :: bool

text \<open>\<open>http.Cookie.Valid\<close> checks that the name is a token of RFC 7230.\<close>

definition token_char :: "char \<Rightarrow> bool" where
  "token_char c =
     (let k = of_char c :: nat in
      (48 \<le> k \<and> k \<le> 57) \<or> (65 \<le> k \<and> k \<le> 90) \<or> (97 \<le> k \<and> k \<le> 122)
        \<or> c \<in> set ''!#$%&*+-.^_`|~'' \<or> k = 39)"

definition Validate_cookie :: "cookie_settings \<Rightarrow> bool" where
  "Validate_cookie c =
     (co_Name c \<noteq> '''' \<and> list_all token_char (co_Name c) \<and>
      list_all (\<lambda>prefix. \<not> (take (length prefix) (co_Name c) = prefix \<and> \<not> co_Secure c))
        [''__Host-'', ''__Secure-''])"

definition touchInterval :: int where "touchInterval = 5 * minute_ns"

record sessions =
  ss_ttl :: int
  ss_cookie :: cookie_settings
  ss_touchAfter :: int

text \<open>\<open>Duration.Truncate\<close> rounds towards zero to a multiple.\<close>

definition Truncate :: "int \<Rightarrow> int \<Rightarrow> int" where
  "Truncate d m = (if m \<le> 0 then d else quot d m * m)"

definition NewSessions :: "int \<Rightarrow> cookie_settings \<Rightarrow> sessions" where
  "NewSessions ttl cookie =
     (let ttl = Truncate ttl sec_ns
      in \<lparr>ss_ttl = ttl, ss_cookie = cookie, ss_touchAfter = min touchInterval (quot ttl 10)\<rparr>)"

definition Create ::
  "(string \<Rightarrow> string) \<Rightarrow> string \<Rightarrow> uuid \<Rightarrow> gotime \<Rightarrow> uuid \<Rightarrow> uuid option \<Rightarrow> uuid option \<Rightarrow> string
     \<Rightarrow> world \<Rightarrow> (auth_error + string \<times> session) \<times> world" where
  "Create hashToken token newID now user garden passkey userAgent w =
     (case writing (CreateSession newID (hashToken token) user garden passkey
             (if userAgent \<noteq> '''' then Some userAgent else None) now) w of
        (Inl e, w) \<Rightarrow> (Inl (ErrStore e), w)
      | (Inr session, w) \<Rightarrow> (Inr (token, session), w))"

definition Lookup ::
  "(string \<Rightarrow> string) \<Rightarrow> sessions \<Rightarrow> gotime \<Rightarrow> string \<Rightarrow> world \<Rightarrow> (auth_error + session \<times> bool) \<times> world" where
  "Lookup hashToken s now token w =
     (let hash = hashToken token in
      case reading (GetSessionByTokenHash hash) w of
        (Inl NoRows, w) \<Rightarrow> (Inl ErrNoSession, w)
      | (Inl e, w) \<Rightarrow> (Inl (ErrStore e), w)
      | (Inr session, w) \<Rightarrow>
          if SessionExpired (se_LastSeenAt session) now (ss_ttl s) then
            (case writing (DeleteSession hash) w of
               (Inl e, w) \<Rightarrow> (Inl (ErrStore e), w)
             | (Inr _, w) \<Rightarrow> (Inl ErrNoSession, w))
          else if Sub now (se_LastSeenAt session) < ss_touchAfter s then (Inr (session, False), w)
          else
            (case writing (TouchSession now hash) w of
               (Inl NoRows, w) \<Rightarrow> (Inl ErrNoSession, w)
             | (Inl e, w) \<Rightarrow> (Inl (ErrStore e), w)
             | (Inr session, w) \<Rightarrow> (Inr (session, True), w)))"

definition Delete :: "(string \<Rightarrow> string) \<Rightarrow> string \<Rightarrow> world \<Rightarrow> (auth_error + unit) \<times> world" where
  "Delete hashToken token w =
     (case writing (DeleteSession (hashToken token)) w of
        (Inl e, w) \<Rightarrow> (Inl (ErrStore e), w)
      | (Inr _, w) \<Rightarrow> (Inr (), w))"

text \<open>A request is its cookies, by name; the first of a name is the one \<open>r.Cookie\<close> returns.\<close>

type_synonym request_cookies = "(string \<times> string) list"

definition TokenFromRequest :: "sessions \<Rightarrow> request_cookies \<Rightarrow> string" where
  "TokenFromRequest s r = (case map_of r (co_Name (ss_cookie s)) of None \<Rightarrow> '''' | Some v \<Rightarrow> v)"

definition DeleteFromRequest ::
  "(string \<Rightarrow> string) \<Rightarrow> sessions \<Rightarrow> request_cookies \<Rightarrow> world \<Rightarrow> (auth_error + unit) \<times> world" where
  "DeleteFromRequest hashToken s r w =
     (let token = TokenFromRequest s r in
      if token = '''' then (Inr (), w) else Delete hashToken token w)"

record http_cookie =
  ck_Name :: string
  ck_Value :: string
  ck_Path :: string
  ck_MaxAge :: int
  ck_HttpOnly :: bool
  ck_Secure :: bool
  ck_SameSiteLax :: bool

definition Cookie :: "sessions \<Rightarrow> string \<Rightarrow> http_cookie" where
  "Cookie s token =
     \<lparr>ck_Name = co_Name (ss_cookie s), ck_Value = token, ck_Path = ''/'',
      ck_MaxAge = quot (ss_ttl s) sec_ns, ck_HttpOnly = True, ck_Secure = co_Secure (ss_cookie s),
      ck_SameSiteLax = True\<rparr>"

definition ClearedCookie :: "sessions \<Rightarrow> http_cookie" where
  "ClearedCookie s = (Cookie s '''')\<lparr>ck_MaxAge := - 1\<rparr>"

section \<open>What a session store promises\<close>

text \<open>
  The laws \<open>Lookup\<close> relies on: the row read by a hash has that hash, a deleted session is not
  found, a touched one is found with its new time, and other sessions are not affected.
\<close>

locale session_store =
  fixes get :: "string \<Rightarrow> db \<Rightarrow> db_error + session"
    and del :: "string \<Rightarrow> db \<Rightarrow> db_error + unit \<times> db"
    and touch :: "gotime \<Rightarrow> string \<Rightarrow> db \<Rightarrow> db_error + session \<times> db"
  assumes get_hash: "get h d = Inr s \<Longrightarrow> se_TokenHash s = h"
    and get_error: "get h d = Inl e \<Longrightarrow> e = NoRows"
    and del_total: "\<exists>d'. del h d = Inr ((), d')"
    and get_del: "del h d = Inr ((), d') \<Longrightarrow> get k d' = (if k = h then Inl NoRows else get k d)"
    and touch_found: "get h d = Inr s \<Longrightarrow> \<exists>d'. touch t h d = Inr (s\<lparr>se_LastSeenAt := t\<rparr>, d')"
    and get_touch: "touch t h d = Inr (s, d') \<Longrightarrow> get k d' = (if k = h then Inr s else get k d)"

lemma filter_update_key:
  assumes "\<And>r. key (f r) = key r"
  shows "filter (\<lambda>r. key r = k) (update_where (\<lambda>r. key r = h) f rows)
    = (if k = h then map f (filter (\<lambda>r. key r = k) rows) else filter (\<lambda>r. key r = k) rows)"
  using assms by (induction rows) auto

interpretation session_rows: session_store GetSessionByTokenHash DeleteSession TouchSession
proof
  fix h k :: string and d d' e s t
  note defs = GetSessionByTokenHash_def DeleteSession_def TouchSession_def
  show "GetSessionByTokenHash h d = Inr s \<Longrightarrow> se_TokenHash s = h"
    by (auto simp: defs one_row_Inr dest!: Cons_eq_filterD [OF sym])
  show "GetSessionByTokenHash h d = Inl e \<Longrightarrow> e = NoRows" by (simp add: defs one_row_Inl)
  show "\<exists>d'. DeleteSession h d = Inr ((), d')" by (simp add: defs)
  show "GetSessionByTokenHash k d' = (if k = h then Inl NoRows else GetSessionByTokenHash k d)"
    if "DeleteSession h d = Inr ((), d')"
  proof -
    have "filter (\<lambda>s. se_TokenHash s = k) (delete_where (\<lambda>s. se_TokenHash s = h) rows)
        = (if k = h then [] else filter (\<lambda>s. se_TokenHash s = k) rows)" for rows :: "session list"
      by (induction rows) (auto simp: delete_where_def)
    then show ?thesis using that by (auto simp: defs one_row_def)
  qed
  show "\<exists>d'. TouchSession t h d = Inr (s\<lparr>se_LastSeenAt := t\<rparr>, d')" if "GetSessionByTokenHash h d = Inr s"
    using that by (auto simp: defs one_row_def Let_def split: list.splits)
  show "GetSessionByTokenHash k d' = (if k = h then Inr s else GetSessionByTokenHash k d)"
    if "TouchSession t h d = Inr (s, d')"
    using that filter_update_key [of se_TokenHash "\<lambda>s. s\<lparr>se_LastSeenAt := t\<rparr>" k h "t_session d"]
    by (cases "k = h") (auto simp: defs one_row_def Let_def split: list.splits)
qed

section \<open>What Lookup does\<close>

lemma next_fault_none [simp]: "faults w = [] \<Longrightarrow> next_fault w = (False, w)"
  by (simp add: next_fault_def)

lemma reading_ok [simp]: "faults w = [] \<Longrightarrow> reading q w = (q (tables w), w)"
  by (simp add: reading_def)

lemma reading_Inr: "reading q w = (Inr x, w') \<Longrightarrow> q (tables w) = Inr x \<and> tables w' = tables w"
  using reading_tables [of q w]
  by (cases "next_fault w") (auto simp: reading_def dest: arg_cong [of _ _ "\<lambda>x. tables (snd x)"] split: if_splits)

lemma writing_Inr: "writing q w = (Inr x, w') \<Longrightarrow> q (tables w) = Inr (x, tables w')"
  using next_fault_tables [of w]
  by (cases "next_fault w") (auto simp: writing_def split: if_splits sum.splits)

lemma writing_ok: "faults w = [] \<Longrightarrow> q (tables w) = Inr (x, d) \<Longrightarrow> writing q w = (Inr x, w\<lparr>tables := d\<rparr>)"
  by (simp add: writing_def)

text \<open>A session is live at a time when its row is there and its deadline is not reached.\<close>

definition live_session :: "sessions \<Rightarrow> gotime \<Rightarrow> string \<Rightarrow> db \<Rightarrow> session \<Rightarrow> bool" where
  "live_session s now hash d row \<longleftrightarrow>
     GetSessionByTokenHash hash d = Inr row \<and> \<not> SessionExpired (se_LastSeenAt row) now (ss_ttl s)"

lemma Lookup_Inr:
  assumes "Lookup hashToken s now token w = (Inr (session, touched), w')"
  obtains row where "live_session s now (hashToken token) (tables w) row"
    "touched \<longleftrightarrow> ss_touchAfter s \<le> Sub now (se_LastSeenAt row)"
    "session = (if touched then row\<lparr>se_LastSeenAt := now\<rparr> else row)"
    "touched \<Longrightarrow> TouchSession now (hashToken token) (tables w) = Inr (session, tables w')"
    "\<not> touched \<Longrightarrow> tables w' = tables w"
proof -
  let ?h = "hashToken token"
  obtain r w1 where r: "reading (GetSessionByTokenHash ?h) w = (r, w1)" by fastforce
  with assms obtain row where row: "r = Inr row"
    by (cases r) (auto simp: Lookup_def Let_def split: db_error.splits)
  have get: "GetSessionByTokenHash ?h (tables w) = Inr row" "tables w1 = tables w"
    using reading_Inr [of "GetSessionByTokenHash ?h" w row w1] r row by simp_all
  have live: "\<not> SessionExpired (se_LastSeenAt row) now (ss_ttl s)"
    using assms r row by (auto simp: Lookup_def Let_def split: prod.splits sum.splits if_splits)
  show thesis
  proof (cases "Sub now (se_LastSeenAt row) < ss_touchAfter s")
    case True
    with assms r row live have "session = row" "\<not> touched" "w' = w1" by (auto simp: Lookup_def Let_def)
    with that [of row] True get live show thesis by (simp add: live_session_def)
  next
    case False
    obtain x w2 where x: "writing (TouchSession now ?h) w1 = (x, w2)" by fastforce
    with assms r row live False have eq: "x = Inr session" "touched" "w' = w2"
      by (auto simp: Lookup_def Let_def split: sum.splits db_error.splits)
    then have t: "TouchSession now ?h (tables w) = Inr (session, tables w')"
      using writing_Inr [of "TouchSession now ?h" w1 session w2] x get(2) by simp
    moreover have "session = row\<lparr>se_LastSeenAt := now\<rparr>"
      using session_rows.touch_found [OF get(1), of now] t by auto
    ultimately show thesis using that [of row] False get live eq by (simp add: live_session_def)
  qed
qed

lemma Lookup_live:
  assumes "faults w = []" "live_session s now (hashToken token) (tables w) row"
  shows "\<exists>session touched w'. Lookup hashToken s now token w = (Inr (session, touched), w') \<and> faults w' = []"
proof (cases "Sub now (se_LastSeenAt row) < ss_touchAfter s")
  case True
  with assms show ?thesis by (auto simp: Lookup_def Let_def live_session_def)
next
  case False
  obtain d' where "TouchSession now (hashToken token) (tables w) = Inr (row\<lparr>se_LastSeenAt := now\<rparr>, d')"
    using session_rows.touch_found [of "hashToken token" "tables w" row now] assms(2)
    by (auto simp: live_session_def)
  from writing_ok [OF assms(1), of "TouchSession now (hashToken token)", OF this] False assms show ?thesis
    by (auto simp: Lookup_def Let_def live_session_def)
qed

lemma Lookup_found:
  assumes "Lookup hashToken s now token w = (Inr (session, touched), w')"
  shows "GetSessionByTokenHash (hashToken token) (tables w') = Inr session"
    "k \<noteq> hashToken token \<Longrightarrow> GetSessionByTokenHash k (tables w') = GetSessionByTokenHash k (tables w)"
proof -
  obtain row where row: "live_session s now (hashToken token) (tables w) row"
    "session = (if touched then row\<lparr>se_LastSeenAt := now\<rparr> else row)"
    "touched \<Longrightarrow> TouchSession now (hashToken token) (tables w) = Inr (session, tables w')"
    "\<not> touched \<Longrightarrow> tables w' = tables w"
    using Lookup_Inr [OF assms] by blast
  then show "GetSessionByTokenHash (hashToken token) (tables w') = Inr session"
    using session_rows.get_touch by (cases touched) (auto simp: live_session_def)
  show "GetSessionByTokenHash k (tables w') = GetSessionByTokenHash k (tables w)" if "k \<noteq> hashToken token"
    using row that session_rows.get_touch by (cases touched) auto
qed

lemma NewSessions_bounds:
  assumes "sec_ns \<le> ttl"
  shows "ss_ttl (NewSessions ttl c) \<le> ttl" "sec_ns \<le> ss_ttl (NewSessions ttl c)"
    "0 < ss_touchAfter (NewSessions ttl c)" "ss_touchAfter (NewSessions ttl c) \<le> touchInterval"
    "10 * ss_touchAfter (NewSessions ttl c) \<le> ss_ttl (NewSessions ttl c)"
    "ck_MaxAge (Cookie (NewSessions ttl c) token) * sec_ns = ss_ttl (NewSessions ttl c)"
proof -
  let ?t = "ttl div sec_ns * sec_ns"
  have t: "ss_ttl (NewSessions ttl c) = ?t" "ss_touchAfter (NewSessions ttl c) = min touchInterval (?t div 10)"
    using assms by (simp_all add: NewSessions_def Let_def Truncate_def quot_def pos_imp_zdiv_pos_iff)
  have ge: "1 \<le> ttl div sec_ns" using assms by (simp add: pos_imp_zdiv_pos_iff)
  show "ss_ttl (NewSessions ttl c) \<le> ttl" using mult_div_mod_eq [of sec_ns ttl] pos_mod_sign [of sec_ns ttl] t(1) by linarith
  show "sec_ns \<le> ss_ttl (NewSessions ttl c)" using ge t(1) by simp
  show "0 < ss_touchAfter (NewSessions ttl c)" using ge t(2) by (simp add: touchInterval_def)
  show "ss_touchAfter (NewSessions ttl c) \<le> touchInterval" using t(2) by simp
  show "10 * ss_touchAfter (NewSessions ttl c) \<le> ss_ttl (NewSessions ttl c)" using t by simp
  show "ck_MaxAge (Cookie (NewSessions ttl c) token) * sec_ns = ss_ttl (NewSessions ttl c)"
    using ge by (simp add: Cookie_def t(1) quot_def)
qed

lemma Sub_less_touch: "0 \<le> a \<Longrightarrow> a \<le> touchInterval \<Longrightarrow> Sub t u < a \<longleftrightarrow> nsec t - nsec u < a"
  by (auto simp: Sub_def touchInterval_def max_duration_def min_duration_def)

lemma SessionExpired_nsec: "SessionExpired t now ttl \<longleftrightarrow> ttl \<le> nsec now - nsec t"
  by (auto simp: SessionExpired_def SessionDeadline_def Add_def Before_def)

lemma GetSession_Inl: "GetSessionByTokenHash h d = Inl NoRows \<Longrightarrow> faults w = [] \<Longrightarrow> tables w = d \<Longrightarrow>
    hashToken token = h \<Longrightarrow> fst (Lookup hashToken s now token w) = Inl ErrNoSession"
  by (simp add: Lookup_def Let_def)

text \<open>Rows for the witnesses: one account with a session last seen at the start of 2026-03-01.\<close>

definition ex_user :: app_user where
  "ex_user = \<lparr>us_ID = ''u1'', us_DisplayName = ''Ellie'', us_Handle = ''ellie'', us_Timezone = ''UTC'',
     us_CreatedAt = zero_time, us_LastGardenID = None, us_ClosedAt = None\<rparr>"

definition ex_session :: session where
  "ex_session = \<lparr>se_ID = ''s1'', se_TokenHash = ''h1'', se_UserID = ''u1'', se_GardenID = None,
     se_PasskeyCredentialID = None, se_UserAgent = None, se_CreatedAt = mk_Date 2026 3 1 0 0 0 0 utc,
     se_LastSeenAt = mk_Date 2026 3 1 0 0 0 0 utc\<rparr>"

definition ex_world :: world where
  "ex_world = \<lparr>tables = empty_db\<lparr>t_app_user := [ex_user], t_session := [ex_session]\<rparr>, faults = []\<rparr>"

definition ex_sessions :: sessions where
  "ex_sessions = NewSessions (720 * hour_ns) \<lparr>co_Name = ''__Host-sprig'', co_Secure = True\<rparr>"

abbreviation ex_hash :: "string \<Rightarrow> string" where
  "ex_hash \<equiv> (\<lambda>_. ''h1'')"

lemma ex_lookup:
  "GetSessionByTokenHash ''h1'' (tables ex_world) = Inr ex_session" "faults ex_world = []"
  by (simp_all add: ex_world_def empty_db_def GetSessionByTokenHash_def one_row_def ex_session_def)

lemma ex_live: "live_session ex_sessions (mk_Date 2026 3 2 0 0 0 0 utc) ''h1'' (tables ex_world) ex_session"
proof -
  have "\<not> SessionExpired (se_LastSeenAt ex_session) (mk_Date 2026 3 2 0 0 0 0 utc) (ss_ttl ex_sessions)"
    by code_simp
  then show ?thesis using ex_lookup(1) by (simp add: live_session_def)
qed

section \<open>Properties\<close>

text \<open>
  A session is returned only for a token whose row is in the table and has not reached its
  deadline, also when database calls fail.  The row returned is the stored one, with \<open>last_seen_at\<close>
  moved to now exactly when it was at least the touch interval old, and it is the row in the
  table afterwards.  Sessions of other tokens are not affected.
\<close>

theorem Lookup_only_live:
  assumes "Lookup hashToken s now token w = (Inr (session, touched), w')"
  shows "\<exists>row. live_session s now (hashToken token) (tables w) row
    \<and> touched = (ss_touchAfter s \<le> Sub now (se_LastSeenAt row))
    \<and> session = (if touched then row\<lparr>se_LastSeenAt := now\<rparr> else row)
    \<and> GetSessionByTokenHash (hashToken token) (tables w') = Inr session
    \<and> (k = hashToken token \<or> GetSessionByTokenHash k (tables w') = GetSessionByTokenHash k (tables w))"
  using Lookup_Inr [OF assms] Lookup_found [OF assms] by metis

theorem Lookup_only_live_witness:
  "\<exists>session touched w'. Lookup ex_hash ex_sessions (mk_Date 2026 3 2 0 0 0 0 utc) ''t'' ex_world
      = (Inr (session, touched), w')
    \<and> GetSessionByTokenHash ''h1'' (tables w') = Inr session"
  using Lookup_live [OF ex_lookup(2), of ex_sessions "mk_Date 2026 3 2 0 0 0 0 utc" ex_hash "''t''" ex_session]
    ex_live Lookup_only_live [of ex_hash ex_sessions "mk_Date 2026 3 2 0 0 0 0 utc" "''t''" ex_world] by fastforce

text \<open>
  A session in use does not expire: after a successful lookup, a lookup up to the lifetime
  less the touch interval later (at least nine tenths of the lifetime) succeeds too.
\<close>

theorem Lookup_keeps_alive:
  assumes "sec_ns \<le> ttl" "s = NewSessions ttl cookie" "faults w' = []" "faults w'' = []"
    and "Lookup hashToken s now token w = (Inr (session, touched), w')" "tables w'' = tables w'"
    and "nsec later - nsec now \<le> ss_ttl s - ss_touchAfter s"
  shows "\<exists>session' touched' w3. Lookup hashToken s later token w'' = (Inr (session', touched'), w3)
    \<and> 9 * ss_ttl s \<le> 10 * (ss_ttl s - ss_touchAfter s)"
proof -
  note b = NewSessions_bounds [OF assms(1), of cookie, folded assms(2)]
  obtain row where row: "touched \<longleftrightarrow> ss_touchAfter s \<le> Sub now (se_LastSeenAt row)"
    "session = (if touched then row\<lparr>se_LastSeenAt := now\<rparr> else row)"
    using Lookup_Inr [OF assms(5)] by blast
  have "nsec now - nsec (se_LastSeenAt session) < ss_touchAfter s"
    using row Sub_less_touch [of "ss_touchAfter s" now "se_LastSeenAt row"] b by (cases touched) auto
  then have "live_session s later (hashToken token) (tables w'') session"
    using Lookup_found(1) [OF assms(5)] assms(6,7) by (simp add: live_session_def SessionExpired_nsec)
  from Lookup_live [where hashToken = hashToken, OF assms(4) this] b show ?thesis by auto
qed

theorem Lookup_keeps_alive_witness:
  "\<exists>session touched w' session' touched' w3.
     Lookup ex_hash ex_sessions (mk_Date 2026 3 2 0 0 0 0 utc) ''t'' ex_world = (Inr (session, touched), w')
   \<and> Lookup ex_hash ex_sessions (mk_Date 2026 3 28 0 0 0 0 utc) ''t'' w' = (Inr (session', touched'), w3)"
proof -
  let ?now = "mk_Date 2026 3 2 0 0 0 0 utc" and ?later = "mk_Date 2026 3 28 0 0 0 0 utc"
  obtain session touched w' where l: "Lookup ex_hash ex_sessions ?now ''t'' ex_world = (Inr (session, touched), w')"
    "faults w' = []"
    using Lookup_live [where hashToken = ex_hash, OF ex_lookup(2) ex_live] by blast
  have "nsec ?later - nsec ?now \<le> ss_ttl ex_sessions - ss_touchAfter ex_sessions" by code_simp
  from Lookup_keeps_alive [OF _ ex_sessions_def l(2) l(2) l(1) refl this] l(1) show ?thesis by auto
qed

text \<open>
  An ended session is refused: a lookup of an expired one fails and deletes its row, and
  after \<open>Delete\<close> (sign-out) no lookup of the token succeeds at any time.
\<close>

theorem ended_session_refused:
  assumes "faults w = []"
  shows "(case GetSessionByTokenHash (hashToken token) (tables w) of
      Inr row \<Rightarrow> \<not> SessionExpired (se_LastSeenAt row) now (ss_ttl s)
        \<or> (\<exists>w'. Lookup hashToken s now token w = (Inl ErrNoSession, w')
             \<and> GetSessionByTokenHash (hashToken token) (tables w') = Inl NoRows)
    | Inl _ \<Rightarrow> fst (Lookup hashToken s now token w) = Inl ErrNoSession)
    \<and> (\<exists>w'. Delete hashToken token w = (Inr (), w')
         \<and> fst (Lookup hashToken s later token w') = Inl ErrNoSession)"
proof -
  let ?h = "hashToken token"
  obtain d' where d': "DeleteSession ?h (tables w) = Inr ((), d')" using session_rows.del_total by blast
  have gone: "GetSessionByTokenHash ?h d' = Inl NoRows" using session_rows.get_del [OF d', of ?h] by simp
  have del: "writing (DeleteSession ?h) w = (Inr (), w\<lparr>tables := d'\<rparr>)"
    by (rule writing_ok [where q = "DeleteSession ?h", OF assms d'])
  have "fst (Lookup hashToken s later token (w\<lparr>tables := d'\<rparr>)) = Inl ErrNoSession"
    using GetSession_Inl [OF gone] assms by simp
  moreover have "fst (Lookup hashToken s now token w) = Inl ErrNoSession"
    if "GetSessionByTokenHash ?h (tables w) = Inl e" for e
    using session_rows.get_error [OF that] that GetSession_Inl [OF _ assms refl refl] by simp
  ultimately show ?thesis
    using del gone assms
    by (auto simp: Delete_def Lookup_def Let_def split: sum.split)
qed

theorem ended_session_refused_witness:
  "\<exists>w'. Lookup ex_hash ex_sessions (mk_Date 2026 4 1 0 0 0 0 utc) ''t'' ex_world = (Inl ErrNoSession, w')
     \<and> GetSessionByTokenHash ''h1'' (tables w') = Inl NoRows"
proof -
  have "SessionExpired (se_LastSeenAt ex_session) (mk_Date 2026 4 1 0 0 0 0 utc) (ss_ttl ex_sessions)"
    by code_simp
  then show ?thesis
    using ended_session_refused [OF ex_lookup(2), where hashToken = ex_hash and token = "''t''"
        and now = "mk_Date 2026 4 1 0 0 0 0 utc" and s = ex_sessions]
      ex_lookup(1) by auto
qed

end
