(* ===== verification/Auth_Principal.thy ===== *)
theory Auth_Principal
  imports Auth_Session
begin

text \<open>
  Who is behind a request: \<open>src/internal/auth/principal.go\<close> and \<open>token.go\<close>, and the links that
  start an account or a device: \<open>signin_link.go\<close> and \<open>setup_link.go\<close>.  Random tokens are
  arguments of the functions that draw them.
\<close>

section \<open>Zero rows\<close>

definition zero_Session :: session where
  "zero_Session = \<lparr>se_ID = nil_uuid, se_TokenHash = '''', se_UserID = nil_uuid, se_GardenID = None,
     se_PasskeyCredentialID = None, se_UserAgent = None, se_CreatedAt = zero_time, se_LastSeenAt = zero_time\<rparr>"

definition zero_AppUser :: app_user where
  "zero_AppUser = \<lparr>us_ID = nil_uuid, us_DisplayName = '''', us_Handle = '''', us_Timezone = '''',
     us_CreatedAt = zero_time, us_LastGardenID = None, us_ClosedAt = None\<rparr>"

definition zero_Garden :: garden where
  "zero_Garden = \<lparr>ga_ID = nil_uuid, ga_Name = '''', ga_CreatedAt = zero_time\<rparr>"

definition zero_Membership :: membership where
  "zero_Membership = \<lparr>me_ID = nil_uuid, me_GardenID = nil_uuid, me_UserID = nil_uuid, me_Role = '''',
     me_InvitedBy = None, me_CreatedAt = zero_time, me_ExpiresAt = None, me_DigestHour = 0,
     me_RemindAgainAt = None\<rparr>"

section \<open>principal.go\<close>

record principal =
  pr_Session :: session
  pr_User :: app_user
  pr_Garden :: garden
  pr_Membership :: membership
  pr_Capabilities :: "capability set"
  pr_APIToken :: "api_token option"
  pr_SessionTouched :: bool

definition zero_Principal :: principal where
  "zero_Principal = \<lparr>pr_Session = zero_Session, pr_User = zero_AppUser, pr_Garden = zero_Garden,
     pr_Membership = zero_Membership, pr_Capabilities = {}, pr_APIToken = None, pr_SessionTouched = False\<rparr>"

definition Can :: "principal \<Rightarrow> capability \<Rightarrow> bool" where
  "Can p capability = (capability \<in> pr_Capabilities p)"

definition InGarden :: "principal \<Rightarrow> bool" where
  "InGarden p = (ga_ID (pr_Garden p) \<noteq> nil_uuid)"

definition MembershipEnded :: "membership \<Rightarrow> gotime \<Rightarrow> bool" where
  "MembershipEnded m now = (case me_ExpiresAt m of None \<Rightarrow> False | Some e \<Rightarrow> \<not> Before now e)"

definition principalOf ::
  "session \<Rightarrow> bool \<Rightarrow> membership \<times> app_user \<times> garden \<times> string list \<Rightarrow> principal" where
  "principalOf session touched row =
     (case row of (m, u, g, names) \<Rightarrow>
        zero_Principal\<lparr>pr_Session := session, pr_User := u, pr_Garden := g, pr_Membership := m,
          pr_Capabilities := NewCapabilities names, pr_SessionTouched := touched\<rparr>)"

definition firstLiveMembership ::
  "gotime \<Rightarrow> uuid \<Rightarrow> world \<Rightarrow> (auth_error + membership) \<times> world" where
  "firstLiveMembership now user w =
     (case reading (ListMembershipsForUser user) w of
        (Inl e, w) \<Rightarrow> (Inl (ErrStore e), w)
      | (Inr memberships, w) \<Rightarrow>
          (case find (\<lambda>m. \<not> MembershipEnded m now) memberships of
             Some m \<Rightarrow> (Inr m, w)
           | None \<Rightarrow> (Inl ErrNoLiveMembership, w)))"

definition startingMembership ::
  "gotime \<Rightarrow> uuid \<Rightarrow> world \<Rightarrow> (auth_error + membership) \<times> world" where
  "startingMembership now user w = firstLiveMembership now user w"

text \<open>The part of \<open>Resolve\<close> after the garden the session row names was not usable.\<close>

definition move_session ::
  "gotime \<Rightarrow> session \<Rightarrow> bool \<Rightarrow> world \<Rightarrow> (auth_error + principal) \<times> world" where
  "move_session now session touched w =
     (case startingMembership now (se_UserID session) w of
        (Inl ErrNoLiveMembership, w) \<Rightarrow>
          (let (cleared, w) =
             (case se_GardenID session of
                None \<Rightarrow> (Inr session, w)
              | Some _ \<Rightarrow>
                  (case writing (SetSessionGarden None (se_TokenHash session)) w of
                     (Inl e, w) \<Rightarrow> (Inl (ErrStore e), w)
                   | (Inr _, w) \<Rightarrow> (Inr (session\<lparr>se_GardenID := None\<rparr>), w)))
           in case cleared of
                Inl e \<Rightarrow> (Inl e, w)
              | Inr session \<Rightarrow>
                  (case reading (GetUser (se_UserID session)) w of
                     (Inl e, w) \<Rightarrow> (Inl (ErrStore e), w)
                   | (Inr user, w) \<Rightarrow>
                       (Inr (zero_Principal\<lparr>pr_Session := session, pr_User := user,
                               pr_SessionTouched := touched\<rparr>), w)))
      | (Inl e, w) \<Rightarrow> (Inl e, w)
      | (Inr membership, w) \<Rightarrow>
          (case writing (SetSessionGarden (Some (me_GardenID membership)) (se_TokenHash session)) w of
             (Inl e, w) \<Rightarrow> (Inl (ErrStore e), w)
           | (Inr _, w) \<Rightarrow>
               (let session = session\<lparr>se_GardenID := Some (me_GardenID membership)\<rparr> in
                case reading (GetMembershipWithUserAndGarden (me_GardenID membership) (se_UserID session)) w of
                  (Inl e, w) \<Rightarrow> (Inl (ErrStore e), w)
                | (Inr row, w) \<Rightarrow> (Inr (principalOf session touched row), w))))"

definition Resolve_session ::
  "(string \<Rightarrow> string) \<Rightarrow> sessions \<Rightarrow> gotime \<Rightarrow> string \<Rightarrow> world \<Rightarrow> (auth_error + principal) \<times> world" where
  "Resolve_session hashToken s now token w =
     (case Lookup hashToken s now token w of
        (Inl e, w) \<Rightarrow> (Inl e, w)
      | (Inr (session, touched), w) \<Rightarrow>
          (case se_GardenID session of
             None \<Rightarrow> move_session now session touched w
           | Some garden \<Rightarrow>
               (case reading (GetMembershipWithUserAndGarden garden (se_UserID session)) w of
                  (Inl NoRows, w) \<Rightarrow> move_session now session touched w
                | (Inl e, w) \<Rightarrow> (Inl (ErrStore e), w)
                | (Inr row, w) \<Rightarrow>
                    if \<not> MembershipEnded (fst row) now then (Inr (principalOf session touched row), w)
                    else move_session now session touched w)))"

section \<open>token.go\<close>

definition MaxTokenLifetime :: int where "MaxTokenLifetime = 90 * 24 * hour_ns"
definition InviteLifetime :: int where "InviteLifetime = 7 * 24 * hour_ns"

definition TokenExpiry :: "gotime \<Rightarrow> int \<Rightarrow> auth_error + gotime" where
  "TokenExpiry now lifetime =
     (if lifetime \<le> 0 \<or> MaxTokenLifetime < lifetime then Inl ErrTokenLifetime
      else Inr (Add now lifetime))"

text \<open>\<open>randomHex\<close> of the random bytes drawn: two hexadecimal digits a byte, cut to length.\<close>

definition hex_digit :: "nat \<Rightarrow> char" where
  "hex_digit k = ''0123456789abcdef'' ! k"

definition randomHex :: "nat list \<Rightarrow> nat \<Rightarrow> string" where
  "randomHex raw n = take n (concat (map (\<lambda>b. [hex_digit (b div 16), hex_digit (b mod 16)]) raw))"

definition NewAPIToken :: "nat list \<Rightarrow> nat list \<Rightarrow> string \<times> string" where
  "NewAPIToken labelBytes secretBytes =
     (let prefix = ''sprg'' @ ''_'' @ randomHex labelBytes 4
      in (prefix @ ''_'' @ randomHex secretBytes 32, prefix))"

definition APITokenLive :: "api_token \<Rightarrow> gotime \<Rightarrow> bool" where
  "APITokenLive token now = (at_RevokedAt token = None \<and> Before now (at_ExpiresAt token))"

definition Resolve_token ::
  "(string \<Rightarrow> string) \<Rightarrow> gotime \<Rightarrow> string \<Rightarrow> world \<Rightarrow> (auth_error + principal) \<times> world" where
  "Resolve_token hashToken now token w =
     (case reading (GetAPITokenByHash TokenManage now (hashToken token)) w of
        (Inl NoRows, w) \<Rightarrow> (Inl ErrNoAPIToken, w)
      | (Inl e, w) \<Rightarrow> (Inl (ErrStore e), w)
      | (Inr (row, creatorCanManage), w) \<Rightarrow>
          if \<not> APITokenLive row now \<or> \<not> creatorCanManage then (Inl ErrNoAPIToken, w)
          else
            (case writing (TouchAPIToken now (at_TokenHash row)) w of
               (Inl e, w) \<Rightarrow> (Inl (ErrStore e), w)
             | (Inr _, w) \<Rightarrow>
                 (case reading (GetGarden (at_GardenID row)) w of
                    (Inl e, w) \<Rightarrow> (Inl (ErrStore e), w)
                  | (Inr garden, w) \<Rightarrow>
                      (Inr (zero_Principal\<lparr>pr_Garden := garden, pr_APIToken := Some row\<rparr>), w))))"

section \<open>signin_link.go and setup_link.go\<close>

definition IssueSignInLink ::
  "(string \<Rightarrow> string) \<Rightarrow> string \<Rightarrow> uuid \<Rightarrow> gotime \<Rightarrow> gotime \<Rightarrow> string \<Rightarrow> world
     \<Rightarrow> (auth_error + string \<times> invite \<times> app_user) \<times> world" where
  "IssueSignInLink hashToken token newID created now handle w =
     (case reading (GetUserByHandle handle) w of
        (Inl NoRows, w) \<Rightarrow> (Inl ErrUnknownHandle, w)
      | (Inl e, w) \<Rightarrow> (Inl (ErrStore e), w)
      | (Inr user, w) \<Rightarrow>
          (case firstLiveMembership now (us_ID user) w of
             (Inl e, w) \<Rightarrow> (Inl e, w)
           | (Inr membership, w) \<Rightarrow>
               (case InTx (\<lambda>w. case writing (DeleteReenrolmentInvites (me_GardenID membership) (Some (us_ID user))) w of
                        (Inl e, w) \<Rightarrow> (Inl (ErrStore e), w)
                      | (Inr _, w) \<Rightarrow>
                          (case writing (CreateInvite newID created (me_GardenID membership) (hashToken token)
                                   (me_Role membership) (Some (us_ID user)) (us_ID user)
                                   (Add now InviteLifetime) None) w of
                             (Inl e, w) \<Rightarrow> (Inl (ErrStore e), w)
                           | (Inr invite, w) \<Rightarrow> (Inr invite, w)))
                      (ErrStore Failure) w of
                  (Inl e, w) \<Rightarrow> (Inl e, w)
                | (Inr invite, w) \<Rightarrow> (Inr (token, invite, user), w))))"

definition IssueSetupLink ::
  "(string \<Rightarrow> string) \<Rightarrow> string \<Rightarrow> uuid \<Rightarrow> gotime \<Rightarrow> gotime \<Rightarrow> world
     \<Rightarrow> (auth_error + string \<times> setup_link) \<times> world" where
  "IssueSetupLink hashToken token newID created now w =
     (case writing (CreateSetupLink newID created (hashToken token) (Add now InviteLifetime)) w of
        (Inl e, w) \<Rightarrow> (Inl (ErrStore e), w)
      | (Inr link, w) \<Rightarrow> (Inr (token, link), w))"

section \<open>What the rows of a request promise\<close>

text \<open>The keys and references of the tables that resolving a request reads.\<close>

definition people_ok :: "db \<Rightarrow> bool" where
  "people_ok d \<longleftrightarrow>
     distinct (map us_ID (t_app_user d)) \<and> distinct (map ga_ID (t_garden d)) \<and>
     distinct (map (\<lambda>m. (me_GardenID m, me_UserID m)) (t_membership d)) \<and>
     distinct (map se_TokenHash (t_session d)) \<and>
     list_all (\<lambda>g. ga_ID g \<noteq> nil_uuid) (t_garden d) \<and>
     list_all (\<lambda>m. has_user (me_UserID m) d \<and> has_garden (me_GardenID m) d) (t_membership d) \<and>
     list_all (\<lambda>u. has_user u d) (map se_UserID (t_session d))"

text \<open>What a principal may stand for: a live membership of its garden, with exactly the
  capabilities of its role, or no garden at all when the account has no live membership.\<close>

definition authorised :: "db \<Rightarrow> gotime \<Rightarrow> uuid \<Rightarrow> principal \<Rightarrow> bool" where
  "authorised d now user p \<longleftrightarrow>
     (if InGarden p
      then pr_Membership p \<in> set (t_membership d) \<and> pr_Garden p \<in> set (t_garden d)
        \<and> me_UserID (pr_Membership p) = user \<and> me_GardenID (pr_Membership p) = ga_ID (pr_Garden p)
        \<and> \<not> MembershipEnded (pr_Membership p) now
        \<and> (\<forall>c. Can p c \<longleftrightarrow> role_grants d (me_Role (pr_Membership p)) c)
      else list_all (\<lambda>m. me_UserID m \<noteq> user \<or> MembershipEnded m now) (t_membership d)
        \<and> pr_Capabilities p = {})"

lemma NewCapabilities_set: "NewCapabilities names = set names"
proof -
  have "fold insert names acc = set names \<union> acc" for acc by (induction names arbitrary: acc) auto
  then show ?thesis by (simp add: NewCapabilities_def)
qed

lemma capabilities_granted: "c \<in> NewCapabilities (capabilities_of role d) \<longleftrightarrow> role_grants d role c"
  by (auto simp: NewCapabilities_set capabilities_of_def role_grants_def list_ex_iff)

lemma null_or_after_ended: "null_or_after (me_ExpiresAt m) now \<longleftrightarrow> \<not> MembershipEnded m now"
  by (auto simp: null_or_after_def MembershipEnded_def After_def Before_def split: option.split)

lemma GetMembership_Inr:
  assumes "GetMembershipWithUserAndGarden garden user d = Inr (m, u, g, names)"
  shows "m \<in> set (t_membership d)" "me_GardenID m = garden" "me_UserID m = user"
    "u \<in> set (t_app_user d)" "us_ID u = user" "g \<in> set (t_garden d)" "ga_ID g = garden"
    "names = capabilities_of (me_Role m) d"
proof -
  have "(m, u, g, names) \<in> set [(m, u, g, capabilities_of (me_Role m) d).
      m \<leftarrow> t_membership d, me_GardenID m = garden \<and> me_UserID m = user,
      u \<leftarrow> t_app_user d, us_ID u = me_UserID m, g \<leftarrow> t_garden d, ga_ID g = me_GardenID m]"
    using assms unfolding GetMembershipWithUserAndGarden_def by (rule one_row_mem)
  then show "m \<in> set (t_membership d)" "me_GardenID m = garden" "me_UserID m = user"
    "u \<in> set (t_app_user d)" "us_ID u = user" "g \<in> set (t_garden d)" "ga_ID g = garden"
    "names = capabilities_of (me_Role m) d"
    by (auto split: if_splits)
qed

lemma GetMembership_found:
  assumes "people_ok d" "has_membership garden user d"
  shows "\<exists>row. GetMembershipWithUserAndGarden garden user d = Inr row"
proof -
  obtain m where m: "m \<in> set (t_membership d)" "me_GardenID m = garden" "me_UserID m = user"
    using assms(2) by (auto simp: has_membership_def list_ex_iff)
  then obtain u g where "u \<in> set (t_app_user d)" "us_ID u = user" "g \<in> set (t_garden d)" "ga_ID g = garden"
    using assms(1) by (auto simp: people_ok_def list_all_iff has_user_def has_garden_def list_ex_iff)
  with m have "(m, u, g, capabilities_of (me_Role m) d) \<in> set [(m, u, g, capabilities_of (me_Role m) d).
      m \<leftarrow> t_membership d, me_GardenID m = garden \<and> me_UserID m = user,
      u \<leftarrow> t_app_user d, us_ID u = me_UserID m, g \<leftarrow> t_garden d, ga_ID g = me_GardenID m]"
    by auto
  then show ?thesis unfolding GetMembershipWithUserAndGarden_def by (rule one_row_nonempty)
qed

lemma ListMembershipsForUser_set:
  assumes "has_user user d"
  shows "\<exists>ms. ListMembershipsForUser user d = Inr ms
    \<and> set ms = {m \<in> set (t_membership d). me_UserID m = user}"
proof -
  obtain u where "u \<in> set (t_app_user d)" "us_ID u = user"
    using assms by (auto simp: has_user_def list_ex_iff)
  then show ?thesis by (force simp: ListMembershipsForUser_def image_iff split: if_splits)
qed

lemma firstLive_cases:
  assumes "firstLiveMembership now user w = (r, w')" "has_user user (tables w)"
  shows "tables w' = tables w"
    "r = Inr m \<Longrightarrow> m \<in> set (t_membership (tables w)) \<and> me_UserID m = user \<and> \<not> MembershipEnded m now"
    "r = Inl ErrNoLiveMembership \<Longrightarrow>
       list_all (\<lambda>m. me_UserID m \<noteq> user \<or> MembershipEnded m now) (t_membership (tables w))"
proof -
  obtain q w1 where q: "reading (ListMembershipsForUser user) w = (q, w1)" by fastforce
  have t: "tables w1 = tables w" using reading_tables [of "ListMembershipsForUser user" w] q by simp
  have w: "w' = w1" using assms(1) q by (auto simp: firstLiveMembership_def split: sum.splits option.splits)
  with t show "tables w' = tables w" by simp
  have set: "set ms = {m \<in> set (t_membership (tables w)). me_UserID m = user}" if "q = Inr ms" for ms
    using ListMembershipsForUser_set [OF assms(2)] reading_Inr [of "ListMembershipsForUser user" w ms w1] q that
    by auto
  show "m \<in> set (t_membership (tables w)) \<and> me_UserID m = user \<and> \<not> MembershipEnded m now" if "r = Inr m"
    using assms(1) q set that
    by (auto simp: firstLiveMembership_def find_Some_iff split: sum.splits option.splits dest: nth_mem)
  show "list_all (\<lambda>m. me_UserID m \<noteq> user \<or> MembershipEnded m now) (t_membership (tables w))"
    if "r = Inl ErrNoLiveMembership"
    using assms(1) q set that
    by (fastforce simp: firstLiveMembership_def find_None_iff list_all_iff split: sum.splits option.splits)
qed

text \<open>What the two writes to a session row leave alone: every other table, and whose session it is.\<close>

definition session_frame :: "db \<Rightarrow> db \<Rightarrow> bool" where
  "session_frame d d' \<longleftrightarrow> d' = d\<lparr>t_session := t_session d'\<rparr>
     \<and> map (\<lambda>s. (se_TokenHash s, se_UserID s)) (t_session d') = map (\<lambda>s. (se_TokenHash s, se_UserID s)) (t_session d)"

lemma session_frame_refl [simp]: "session_frame d d"
  by (simp add: session_frame_def)

lemma session_frame_tables:
  assumes "session_frame d d'"
  shows "t_membership d' = t_membership d" "t_app_user d' = t_app_user d" "t_garden d' = t_garden d"
    "t_role_capability d' = t_role_capability d" "people_ok d' = people_ok d"
proof -
  have d': "d' = d\<lparr>t_session := t_session d'\<rparr>" using assms by (simp add: session_frame_def)
  show same: "t_membership d' = t_membership d" "t_app_user d' = t_app_user d" "t_garden d' = t_garden d"
    "t_role_capability d' = t_role_capability d"
    by (subst d', simp)+
  have "map fst (map (\<lambda>s. (se_TokenHash s, se_UserID s)) (t_session d'))
      = map fst (map (\<lambda>s. (se_TokenHash s, se_UserID s)) (t_session d))"
    "map snd (map (\<lambda>s. (se_TokenHash s, se_UserID s)) (t_session d'))
      = map snd (map (\<lambda>s. (se_TokenHash s, se_UserID s)) (t_session d))"
    using assms by (simp_all only: session_frame_def)
  then have h: "map se_TokenHash (t_session d') = map se_TokenHash (t_session d)"
    "map se_UserID (t_session d') = map se_UserID (t_session d)" by (simp_all add: comp_def)
  then show "people_ok d' = people_ok d"
    by (simp only: people_ok_def same has_user_def has_garden_def)
qed

lemma session_frame_queries:
  assumes "session_frame d d'"
  shows "GetMembershipWithUserAndGarden g u d' = GetMembershipWithUserAndGarden g u d"
    "has_membership g u d' = has_membership g u d" "has_user u d' = has_user u d"
    "role_grants d' r c = role_grants d r c" "GetUser u d' = GetUser u d"
    "ListMembershipsForUser u d' = ListMembershipsForUser u d"
proof -
  obtain ss where d': "d' = d\<lparr>t_session := ss\<rparr>" using assms by (auto simp: session_frame_def)
  have "capabilities_of r d' = capabilities_of r d" for r by (simp add: d' capabilities_of_def)
  then show "GetMembershipWithUserAndGarden g u d' = GetMembershipWithUserAndGarden g u d"
    "has_membership g u d' = has_membership g u d" "has_user u d' = has_user u d"
    "role_grants d' r c = role_grants d r c" "GetUser u d' = GetUser u d"
    "ListMembershipsForUser u d' = ListMembershipsForUser u d"
    by (simp_all only: GetMembershipWithUserAndGarden_def has_membership_def has_user_def role_grants_def
        GetUser_def ListMembershipsForUser_def session_frame_tables [OF assms])
qed

lemma update_session_frame:
  assumes "\<And>s. se_TokenHash (f s) = se_TokenHash s" "\<And>s. se_UserID (f s) = se_UserID s"
  shows "session_frame d (d\<lparr>t_session := update_where p f (t_session d)\<rparr>)"
  using assms by (simp add: session_frame_def map_update_where)

lemma Lookup_frame:
  assumes "Lookup hashToken s now token w = (Inr (session, touched), w')"
  shows "session_frame (tables w) (tables w')"
proof -
  obtain row where row: "touched \<Longrightarrow> TouchSession now (hashToken token) (tables w) = Inr (session, tables w')"
    "\<not> touched \<Longrightarrow> tables w' = tables w"
    using Lookup_Inr [OF assms] by blast
  show ?thesis
  proof (cases touched)
    case True
    with row(1) have "tables w' = (tables w)\<lparr>t_session := update_where (\<lambda>s. se_TokenHash s = hashToken token)
        (\<lambda>s. s\<lparr>se_LastSeenAt := now\<rparr>) (t_session (tables w))\<rparr>"
      by (auto simp: TouchSession_def Let_def split: sum.splits)
    then show ?thesis by (simp add: update_session_frame)
  qed (use row in simp)
qed

lemma SetSessionGarden_result:
  assumes "SetSessionGarden garden h d = Inr (n, d')"
  shows "session_frame d d'"
    "GetSessionByTokenHash h d = Inr s \<Longrightarrow> GetSessionByTokenHash h d' = Inr (s\<lparr>se_GardenID := garden\<rparr>)"
proof -
  have d': "d' = d\<lparr>t_session := update_where (\<lambda>s. se_TokenHash s = h) (\<lambda>s. s\<lparr>se_GardenID := garden\<rparr>) (t_session d)\<rparr>"
    using assms by (auto simp: SetSessionGarden_def Let_def split: if_splits)
  then show "session_frame d d'" by (simp add: update_session_frame)
  show "GetSessionByTokenHash h d' = Inr (s\<lparr>se_GardenID := garden\<rparr>)" if "GetSessionByTokenHash h d = Inr s"
    using that filter_update_key [of se_TokenHash "\<lambda>s. s\<lparr>se_GardenID := garden\<rparr>" h h "t_session d"]
    by (auto simp: d' GetSessionByTokenHash_def one_row_def split: list.splits)
qed

text \<open>A principal built from a membership row of the right account stands for it.\<close>

lemma principalOf_authorised:
  assumes "people_ok d" "GetMembershipWithUserAndGarden garden user d = Inr row" "\<not> MembershipEnded (fst row) now"
  shows "authorised d now user (principalOf session touched row)" "InGarden (principalOf session touched row)"
    "ga_ID (pr_Garden (principalOf session touched row)) = garden"
    "pr_User (principalOf session touched row) \<in> set (t_app_user d)"
    "us_ID (pr_User (principalOf session touched row)) = user"
proof -
  obtain m u g names where row: "row = (m, u, g, names)" by (cases row) auto
  note get = GetMembership_Inr [OF assms(2) [unfolded row]]
  have "ga_ID g \<noteq> nil_uuid" using get(6) assms(1) by (auto simp: people_ok_def list_all_iff)
  then show "authorised d now user (principalOf session touched row)"
    "InGarden (principalOf session touched row)" "ga_ID (pr_Garden (principalOf session touched row)) = garden"
    "pr_User (principalOf session touched row) \<in> set (t_app_user d)"
    "us_ID (pr_User (principalOf session touched row)) = user"
    using get assms(3)
    by (simp_all add: row authorised_def principalOf_def InGarden_def zero_Principal_def Can_def capabilities_granted)
qed

text \<open>A resolved request: a principal of the account, and the session row on its garden.\<close>

definition resolved :: "db \<Rightarrow> db \<Rightarrow> gotime \<Rightarrow> string \<Rightarrow> uuid \<Rightarrow> principal \<Rightarrow> bool" where
  "resolved d d' now hash user p \<longleftrightarrow>
     authorised d now user p \<and> pr_User p \<in> set (t_app_user d) \<and> us_ID (pr_User p) = user
     \<and> (case GetSessionByTokenHash hash d' of
          Inl _ \<Rightarrow> False
        | Inr row \<Rightarrow> se_GardenID row = (if InGarden p then Some (ga_ID (pr_Garden p)) else None))"

lemma GetSession_user:
  assumes "people_ok d" "GetSessionByTokenHash h d = Inr session"
  shows "has_user (se_UserID session) d" "se_TokenHash session = h"
  using assms one_row_mem [of "filter (\<lambda>s. se_TokenHash s = h) (t_session d)" session]
  by (auto simp: people_ok_def list_all_iff GetSessionByTokenHash_def)

lemma GetUser_Inr: "GetUser user d = Inr u \<Longrightarrow> u \<in> set (t_app_user d) \<and> us_ID u = user"
  using one_row_mem [of "filter (\<lambda>u. us_ID u = user) (t_app_user d)" u] by (auto simp: GetUser_def)

lemma membership_unique:
  assumes "people_ok d" "m \<in> set (t_membership d)" "m' \<in> set (t_membership d)"
    and "me_GardenID m = me_GardenID m'" "me_UserID m = me_UserID m'"
  shows "m = m'"
  using assms inj_onD [of "\<lambda>m. (me_GardenID m, me_UserID m)" "set (t_membership d)" m m']
  by (auto simp: people_ok_def distinct_map)

lemma moved_onto:
  assumes ok: "people_ok (tables w)" and get: "GetSessionByTokenHash h (tables w) = Inr session"
    and m: "m \<in> set (t_membership (tables w))" "me_UserID m = se_UserID session" "\<not> MembershipEnded m now"
    and "SetSessionGarden (Some (me_GardenID m)) h (tables w) = Inr (n, d')"
    and "GetMembershipWithUserAndGarden (me_GardenID m) (se_UserID session) d' = Inr row"
  shows "resolved (tables w) d' now h (se_UserID session) (principalOf session' touched row)"
proof -
  have row: "GetMembershipWithUserAndGarden (me_GardenID m) (se_UserID session) (tables w) = Inr row"
    using assms(7) session_frame_queries(1) [OF SetSessionGarden_result(1) [OF assms(6)]] by simp
  obtain m' u g names where r: "row = (m', u, g, names)" by (cases row) auto
  have "m' = m"
    using GetMembership_Inr [OF row [unfolded r]] m(1,2) by (intro membership_unique [OF ok]) auto
  with m(3) have "\<not> MembershipEnded (fst row) now" by (simp add: r)
  from principalOf_authorised [OF ok row this, of session' touched] show ?thesis
    using SetSessionGarden_result(2) [OF assms(6) get] by (simp add: resolved_def)
qed

lemma left_gardens:
  assumes ok: "people_ok (tables w)" and get: "GetSessionByTokenHash h d' = Inr row" "se_GardenID row = None"
    and none: "list_all (\<lambda>m. me_UserID m \<noteq> user \<or> MembershipEnded m now) (t_membership (tables w))"
    and user: "GetUser user (tables w) = Inr u"
  shows "resolved (tables w) d' now h user (zero_Principal\<lparr>pr_Session := s, pr_User := u, pr_SessionTouched := b\<rparr>)"
  using assms GetUser_Inr [OF user]
  by (simp add: resolved_def authorised_def InGarden_def zero_Principal_def zero_Garden_def)

lemma move_session_resolves:
  assumes ok: "people_ok (tables w)" and get: "GetSessionByTokenHash h (tables w) = Inr session"
    and res: "move_session now session touched w = (Inr p, w')"
  shows "resolved (tables w) (tables w') now h (se_UserID session) p"
proof -
  let ?u = "se_UserID session"
  note user = GetSession_user [OF ok get]
  obtain r w1 where r: "firstLiveMembership now ?u w = (r, w1)" by fastforce
  note live = firstLive_cases [OF r user(1)]
  show ?thesis
  proof (cases r)
    case (Inr m)
    obtain x w2 where x: "writing (SetSessionGarden (Some (me_GardenID m)) h) w1 = (x, w2)" by fastforce
    with res r Inr user(2) obtain n where n: "x = Inr n"
      by (cases x) (auto simp: move_session_def startingMembership_def)
    obtain y w3 where y: "reading (GetMembershipWithUserAndGarden (me_GardenID m) ?u) w2 = (y, w3)" by fastforce
    with res r Inr x n user(2) obtain row where row: "y = Inr row"
      "p = principalOf (session\<lparr>se_GardenID := Some (me_GardenID m)\<rparr>) touched row" "w' = w3"
      by (cases y) (auto simp: move_session_def startingMembership_def Let_def)
    have set: "SetSessionGarden (Some (me_GardenID m)) h (tables w) = Inr (n, tables w2)"
      using writing_Inr [of "SetSessionGarden (Some (me_GardenID m)) h" w1 n w2] x n live(1) by simp
    have "GetMembershipWithUserAndGarden (me_GardenID m) ?u (tables w2) = Inr row" "tables w3 = tables w2"
      using reading_Inr [of "GetMembershipWithUserAndGarden (me_GardenID m) ?u" w2 row w3] y row(1) by simp_all
    with moved_onto [OF ok get, of m now n "tables w2" row] live(2) [OF Inr] set row(2,3)
    show ?thesis by simp
  next
    case (Inl e)
    with res r have e: "e = ErrNoLiveMembership"
      by (cases e) (auto simp: move_session_def startingMembership_def)
    note none = live(3) [OF Inl [unfolded e]]
    show ?thesis
    proof (cases "se_GardenID session")
      case None
      obtain y w3 where y: "reading (GetUser ?u) w1 = (y, w3)" by fastforce
      with res r Inl e None obtain u where u: "y = Inr u" "w' = w3"
        "p = zero_Principal\<lparr>pr_Session := session, pr_User := u, pr_SessionTouched := touched\<rparr>"
        by (cases y) (auto simp: move_session_def startingMembership_def)
      have "GetUser ?u (tables w) = Inr u" "tables w3 = tables w"
        using reading_Inr [of "GetUser ?u" w1 u w3] y u(1) live(1) by simp_all
      with left_gardens [OF ok get None none] u(2,3) show ?thesis by simp
    next
      case (Some g)
      obtain x w2 where x: "writing (SetSessionGarden None h) w1 = (x, w2)" by fastforce
      with res r Inl e Some user(2) obtain n where n: "x = Inr n"
        by (cases x) (auto simp: move_session_def startingMembership_def)
      obtain y w3 where y: "reading (GetUser ?u) w2 = (y, w3)" by fastforce
      with res r Inl e Some x n user(2) obtain u where u: "y = Inr u" "w' = w3"
        "p = zero_Principal\<lparr>pr_Session := session\<lparr>se_GardenID := None\<rparr>, pr_User := u, pr_SessionTouched := touched\<rparr>"
        by (cases y) (auto simp: move_session_def startingMembership_def)
      have set: "SetSessionGarden None h (tables w) = Inr (n, tables w2)"
        using writing_Inr [of "SetSessionGarden None h" w1 n w2] x n live(1) by simp
      have t: "GetUser ?u (tables w2) = Inr u" "tables w3 = tables w2"
        using reading_Inr [of "GetUser ?u" w2 u w3] y u(1) by simp_all
      then have "GetUser ?u (tables w) = Inr u"
        using session_frame_queries(5) [OF SetSessionGarden_result(1) [OF set], of ?u] by simp
      with left_gardens [OF ok SetSessionGarden_result(2) [OF set get] _ none] u(2,3) t(2)
      show ?thesis by simp
    qed
  qed
qed

lemma resolved_frame:
  assumes "session_frame d0 d" "resolved d d' now h user p"
  shows "resolved d0 d' now h user p"
  using assms(2)
  unfolding resolved_def authorised_def session_frame_tables [OF assms(1)] session_frame_queries(4) [OF assms(1)] .

lemma Resolve_session_resolved:
  assumes ok: "people_ok (tables w)" and res: "Resolve_session hashToken s now token w = (Inr p, w')"
  shows "\<exists>row. live_session s now (hashToken token) (tables w) row
    \<and> resolved (tables w) (tables w') now (hashToken token) (se_UserID row) p"
proof -
  let ?h = "hashToken token"
  obtain l w1 where l: "Lookup hashToken s now token w = (l, w1)" by fastforce
  with res obtain session touched where st: "l = Inr (session, touched)"
    by (cases l) (auto simp: Resolve_session_def)
  note lookup = l [unfolded st]
  obtain row where row: "live_session s now ?h (tables w) row"
    "session = (if touched then row\<lparr>se_LastSeenAt := now\<rparr> else row)"
    using Lookup_Inr [OF lookup] by blast
  have user: "se_UserID session = se_UserID row" using row(2) by simp
  note frame = Lookup_frame [OF lookup]
  have ok1: "people_ok (tables w1)" using ok session_frame_tables(5) [OF frame] by simp
  have get: "GetSessionByTokenHash ?h (tables w1) = Inr session" using Lookup_found(1) [OF lookup] .
  have moved: "resolved (tables w1) (tables w') now ?h (se_UserID session) p"
    if "move_session now session touched w2 = (Inr p, w')" "tables w2 = tables w1" for w2
    using move_session_resolves [of w2 ?h session now touched p w'] that ok1 get by simp
  have "resolved (tables w1) (tables w') now ?h (se_UserID session) p"
  proof (cases "se_GardenID session")
    case None
    then show ?thesis using moved [of w1] res l st by (simp add: Resolve_session_def)
  next
    case (Some g)
    obtain y w2 where y: "reading (GetMembershipWithUserAndGarden g (se_UserID session)) w1 = (y, w2)" by fastforce
    have t: "tables w2 = tables w1"
      using reading_tables [of "GetMembershipWithUserAndGarden g (se_UserID session)" w1] y by simp
    show ?thesis
    proof (cases "\<exists>mrow. y = Inr mrow \<and> \<not> MembershipEnded (fst mrow) now")
      case True
      then obtain mrow where mrow: "y = Inr mrow" "\<not> MembershipEnded (fst mrow) now" by blast
      with res l st Some y have p: "p = principalOf session touched mrow" "w' = w2"
        by (auto simp: Resolve_session_def)
      have "GetMembershipWithUserAndGarden g (se_UserID session) (tables w1) = Inr mrow"
        using reading_Inr [of "GetMembershipWithUserAndGarden g (se_UserID session)" w1 mrow w2] y mrow(1) by simp
      from principalOf_authorised [OF ok1 this mrow(2)] show ?thesis
        using get Some p t by (simp add: resolved_def)
    next
      case False
      then have "move_session now session touched w2 = (Inr p, w')"
        using res l st Some y
        by (cases y) (auto simp: Resolve_session_def split: db_error.splits)
      then show ?thesis using moved t by simp
    qed
  qed
  then show ?thesis using resolved_frame [OF frame] row(1) user by auto
qed

section \<open>A live session always resolves\<close>

lemma firstLive_ok:
  assumes "faults w = []" "has_user user (tables w)"
  obtains (live) m where "firstLiveMembership now user w = (Inr m, w)" "m \<in> set (t_membership (tables w))"
      "me_UserID m = user"
    | (none) "firstLiveMembership now user w = (Inl ErrNoLiveMembership, w)"
proof -
  obtain ms where ms: "ListMembershipsForUser user (tables w) = Inr ms"
    "set ms = {m \<in> set (t_membership (tables w)). me_UserID m = user}"
    using ListMembershipsForUser_set [OF assms(2)] by blast
  show thesis
  proof (cases "find (\<lambda>m. \<not> MembershipEnded m now) ms")
    case None
    then show thesis using none assms(1) ms(1) by (simp add: firstLiveMembership_def)
  next
    case (Some m)
    then have "m \<in> set ms" by (auto simp: find_Some_iff dest: nth_mem)
    with Some show thesis using live [of m] assms(1) ms by (simp add: firstLiveMembership_def)
  qed
qed

lemma SetSessionGarden_ok:
  assumes "people_ok d" "GetSessionByTokenHash h d = Inr session"
    and "\<And>g. garden = Some g \<Longrightarrow> has_membership g (se_UserID session) d"
  shows "\<exists>n d'. SetSessionGarden garden h d = Inr (n, d')"
proof -
  have s: "session \<in> set (t_session d)" "se_TokenHash session = h"
    using one_row_mem [of "filter (\<lambda>s. se_TokenHash s = h) (t_session d)" session] assms(2)
    by (auto simp: GetSessionByTokenHash_def)
  have "x = session" if "x \<in> set (t_session d)" "se_TokenHash x = h" for x
    using assms(1) s that by (auto simp: people_ok_def distinct_map dest: inj_onD)
  then show ?thesis using assms(3) by (auto simp: SetSessionGarden_def Let_def list_ex_iff split: option.splits)
qed

lemma move_session_ok:
  assumes "faults w = []" "people_ok (tables w)" "GetSessionByTokenHash h (tables w) = Inr session"
  shows "\<exists>p w'. move_session now session touched w = (Inr p, w')"
proof -
  let ?u = "se_UserID session"
  note user = GetSession_user [OF assms(2,3)]
  obtain v where "v \<in> set (filter (\<lambda>x. us_ID x = ?u) (t_app_user (tables w)))"
    using user(1) by (auto simp: has_user_def list_ex_iff)
  from one_row_nonempty [OF this] obtain u where getu: "GetUser ?u (tables w) = Inr u"
    by (auto simp: GetUser_def)
  from assms(1) user(1) show ?thesis
  proof (cases rule: firstLive_ok [where now = now])
    case (live m)
    have has: "has_membership (me_GardenID m) ?u (tables w)"
      using live by (auto simp: has_membership_def list_ex_iff)
    obtain n d' where set: "SetSessionGarden (Some (me_GardenID m)) h (tables w) = Inr (n, d')"
      using SetSessionGarden_ok [OF assms(2,3), of "Some (me_GardenID m)"] has by auto
    obtain row where "GetMembershipWithUserAndGarden (me_GardenID m) ?u (tables w) = Inr row"
      using GetMembership_found [OF assms(2) has] by blast
    then have "GetMembershipWithUserAndGarden (me_GardenID m) ?u d' = Inr row"
      using session_frame_queries(1) [OF SetSessionGarden_result(1) [OF set]] by simp
    with live(1) writing_ok [where q = "SetSessionGarden (Some (me_GardenID m)) h", OF assms(1) set]
      assms(1) user(2) show ?thesis
      by (simp add: move_session_def startingMembership_def Let_def)
  next
    case none
    obtain n d' where set: "SetSessionGarden None h (tables w) = Inr (n, d')"
      using SetSessionGarden_ok [OF assms(2,3), of None] by auto
    have "GetUser ?u d' = Inr u" using getu session_frame_queries(5) [OF SetSessionGarden_result(1) [OF set]] by simp
    with none getu writing_ok [where q = "SetSessionGarden None h", OF assms(1) set] assms(1) user(2) show ?thesis
      by (cases "se_GardenID session") (simp_all add: move_session_def startingMembership_def)
  qed
qed

lemma Resolve_session_ok:
  assumes "faults w = []" "people_ok (tables w)" "live_session s now (hashToken token) (tables w) row"
  shows "\<exists>p w'. Resolve_session hashToken s now token w = (Inr p, w')"
proof -
  let ?h = "hashToken token"
  obtain session touched w1 where l: "Lookup hashToken s now token w = (Inr (session, touched), w1)" "faults w1 = []"
    using Lookup_live [where hashToken = hashToken, OF assms(1,3)] by blast
  have ok1: "people_ok (tables w1)"
    using assms(2) session_frame_tables(5) [OF Lookup_frame [OF l(1)]] by simp
  obtain p w' where move: "move_session now session touched w1 = (Inr p, w')"
    using move_session_ok [OF l(2) ok1 Lookup_found(1) [OF l(1)]] by blast
  show ?thesis
  proof (cases "se_GardenID session")
    case None
    then show ?thesis using l move by (simp add: Resolve_session_def)
  next
    case (Some g)
    have "GetMembershipWithUserAndGarden g (se_UserID session) (tables w1) = Inl e \<Longrightarrow> e = NoRows" for e
      by (auto simp: GetMembershipWithUserAndGarden_def one_row_Inl)
    then show ?thesis
      using l move Some
      by (cases "GetMembershipWithUserAndGarden g (se_UserID session) (tables w1)")
        (auto simp: Resolve_session_def)
  qed
qed

section \<open>Bearer tokens\<close>

lemma Resolve_token_Inr:
  assumes "Resolve_token hashToken now token w = (Inr p, w')"
  obtains row where "row \<in> set (t_api_token (tables w))" "at_TokenHash row = hashToken token"
    "APITokenLive row now" "may_in_garden (tables w) TokenManage now (at_GardenID row) (at_CreatedBy row)"
    "pr_APIToken p = Some row" "ga_ID (pr_Garden p) = at_GardenID row" "pr_Capabilities p = {}"
proof -
  let ?q = "GetAPITokenByHash TokenManage now (hashToken token)"
  obtain r w1 where r: "reading ?q w = (r, w1)" by fastforce
  with assms obtain row can where row: "r = Inr (row, can)" "APITokenLive row now" "can"
    by (cases r) (auto simp: Resolve_token_def split: db_error.splits if_splits)
  obtain x w2 where x: "writing (TouchAPIToken now (at_TokenHash row)) w1 = (x, w2)" by fastforce
  obtain y w3 where y: "reading (GetGarden (at_GardenID row)) w2 = (y, w3)" by fastforce
  from assms r row x y obtain g where g: "y = Inr g" "p = zero_Principal\<lparr>pr_Garden := g, pr_APIToken := Some row\<rparr>"
    by (cases x; cases y) (auto simp: Resolve_token_def)
  have "?q (tables w) = Inr (row, can)" using reading_Inr [of ?q w "(row, can)" w1] r row(1) by simp
  then have "(row, can) \<in> set (map (\<lambda>t. (t, may_in_garden (tables w) TokenManage now (at_GardenID t) (at_CreatedBy t)))
      (filter (\<lambda>t. at_TokenHash t = hashToken token) (t_api_token (tables w))))"
    unfolding GetAPITokenByHash_def by (rule one_row_mem)
  moreover have "g \<in> set (filter (\<lambda>g. ga_ID g = at_GardenID row) (t_garden (tables w2)))"
    using reading_Inr [of "GetGarden (at_GardenID row)" w2 g w3] y g(1) unfolding GetGarden_def
    by (intro one_row_mem) simp
  ultimately show thesis using that [of row] row(2,3) g(2) by (auto simp: zero_Principal_def)
qed

section \<open>Sign-in links\<close>

text \<open>The unredeemed sign-in links of an account in a garden.\<close>

definition open_links :: "uuid \<Rightarrow> uuid \<Rightarrow> db \<Rightarrow> invite list" where
  "open_links garden user d = filter (reenrolment_of garden (Some user)) (t_invite d)"

lemma InTx_Inr:
  assumes "InTx f e w = (Inr x, w')"
  obtains w0 w1 where "tables w0 = tables w" "f w0 = (Inr x, w1)" "tables w' = tables w1"
proof -
  obtain b w0 where b: "next_fault w = (b, w0)" by fastforce
  have t0: "tables w0 = tables w" using next_fault_tables [of w] b by simp
  obtain r w1 where r: "f w0 = (r, w1)" by fastforce
  obtain b' w2 where b': "next_fault w1 = (b', w2)" by fastforce
  have "tables w2 = tables w1" using next_fault_tables [of w1] b' by simp
  then show thesis
    using that [OF t0] assms b r b' by (auto simp: InTx_def split: if_splits sum.splits)
qed

lemma CreateInvite_Inr:
  assumes "CreateInvite newID created garden hash role user creator expires ends d = Inr (link, d')"
  shows "t_invite d' = t_invite d @ [link]" "in_TokenHash link = hash" "in_ExpiresAt link = expires"
    "in_GardenID link = garden" "in_UserID link = user" "in_RedeemedAt link = None"
  using assms by (auto simp: CreateInvite_def Let_def split: if_splits)

lemma IssueSignInLink_Inr:
  assumes "IssueSignInLink hashToken token newID created now handle w = (Inr (tok, link, user), w')"
    and users: "list_all (\<lambda>m. has_user (me_UserID m) (tables w)) (t_membership (tables w))"
  obtains m where "m \<in> set (t_membership (tables w))" "me_UserID m = us_ID user" "\<not> MembershipEnded m now"
    "open_links (me_GardenID m) (us_ID user) (tables w') = [link]" "user \<in> set (t_app_user (tables w))"
    "us_Handle user = handle" "us_ClosedAt user = None" "in_TokenHash link = hashToken token"
    "in_ExpiresAt link = Add now InviteLifetime" "in_GardenID link = me_GardenID m"
proof -
  obtain r w1 where r: "reading (GetUserByHandle handle) w = (r, w1)" by fastforce
  obtain f w2 where f: "firstLiveMembership now (us_ID user) w1 = (f, w2)" by fastforce
  have u: "r = Inr user" using assms(1) r
    by (auto simp: IssueSignInLink_def split: sum.splits db_error.splits prod.splits)
  obtain m where m: "f = Inr m"
    using assms(1) r u f by (cases f) (auto simp: IssueSignInLink_def)
  let ?g = "me_GardenID m" and ?u = "us_ID user"
  let ?tx = "\<lambda>w. case writing (DeleteReenrolmentInvites ?g (Some ?u)) w of
      (Inl e, w) \<Rightarrow> (Inl (ErrStore e), w)
    | (Inr _, w) \<Rightarrow> (case writing (CreateInvite newID created ?g (hashToken token) (me_Role m) (Some ?u) ?u
           (Add now InviteLifetime) None) w of
           (Inl e, w) \<Rightarrow> (Inl (ErrStore e), w)
         | (Inr invite, w) \<Rightarrow> (Inr invite, w))"
  have tx: "InTx ?tx (ErrStore Failure) w2 = (Inr link, w')"
    using assms(1) r u f m by (auto simp: IssueSignInLink_def split: sum.splits prod.splits)
  from InTx_Inr [OF this] obtain a b where ab: "tables a = tables w2" "?tx a = (Inr link, b)" "tables w' = tables b" .
  obtain x c where x: "writing (DeleteReenrolmentInvites ?g (Some ?u)) a = (x, c)" by fastforce
  with ab(2) obtain n where n: "x = Inr n" by (cases x) auto
  have del: "DeleteReenrolmentInvites ?g (Some ?u) (tables a) = Inr (n, tables c)"
    using writing_Inr [of "DeleteReenrolmentInvites ?g (Some ?u)" a n c] x n by simp
  obtain y e where y: "writing (CreateInvite newID created ?g (hashToken token) (me_Role m) (Some ?u) ?u
      (Add now InviteLifetime) None) c = (y, e)" by fastforce
  with ab(2) x n have ye: "y = Inr link" "b = e" by (cases y; auto)+
  have create: "CreateInvite newID created ?g (hashToken token) (me_Role m) (Some ?u) ?u
      (Add now InviteLifetime) None (tables c) = Inr (link, tables e)"
    using writing_Inr [of _ c link e] y ye(1) by blast
  have "t_invite (tables c) = delete_where (reenrolment_of ?g (Some ?u)) (t_invite (tables a))"
    using del by (auto simp: DeleteReenrolmentInvites_def dest!: arg_cong [of _ _ t_invite])
  then have "open_links ?g ?u (tables c) = []"
    by (auto simp: open_links_def delete_where_def filter_empty_conv)
  then have links: "open_links ?g ?u (tables e) = [link]" "in_TokenHash link = hashToken token"
    "in_ExpiresAt link = Add now InviteLifetime" "in_GardenID link = ?g"
    using CreateInvite_Inr [OF create] by (simp_all add: open_links_def reenrolment_of_def)
  have gu: "GetUserByHandle handle (tables w) = Inr user" "tables w1 = tables w"
    using reading_Inr [of "GetUserByHandle handle" w user w1] r u by simp_all
  then have user: "user \<in> set (t_app_user (tables w))" "us_Handle user = handle" "us_ClosedAt user = None"
    using one_row_mem [of "filter (\<lambda>u. us_Handle u = handle \<and> us_ClosedAt u = None) (t_app_user (tables w))" user]
    by (auto simp: GetUserByHandle_def)
  then have "has_user ?u (tables w1)" using gu(2) by (auto simp: has_user_def list_ex_iff)
  from firstLive_cases(2) [OF f this m] show thesis
    using that [of m] links user gu(2) ab(3) ye(2) by simp
qed

section \<open>Rows for the witnesses\<close>

definition ex_garden :: garden where
  "ex_garden = \<lparr>ga_ID = ''g1'', ga_Name = ''Rosewood'', ga_CreatedAt = zero_time\<rparr>"

definition ex_membership :: membership where
  "ex_membership = \<lparr>me_ID = ''m1'', me_GardenID = ''g1'', me_UserID = ''u1'', me_Role = ''owner'',
     me_InvitedBy = None, me_CreatedAt = zero_time, me_ExpiresAt = None, me_DigestHour = 8,
     me_RemindAgainAt = None\<rparr>"

definition ex_token :: api_token where
  "ex_token = \<lparr>at_ID = ''t1'', at_GardenID = ''g1'', at_Name = ''Kitchen'', at_TokenHash = ''h1'',
     at_Prefix = ''sprg_7c1f'', at_CreatedBy = ''u1'', at_CreatedAt = zero_time,
     at_ExpiresAt = mk_Date 2026 4 1 0 0 0 0 utc, at_LastUsedAt = None, at_RevokedAt = None\<rparr>"

definition ex_db :: db where
  "ex_db = empty_db\<lparr>t_garden := [ex_garden], t_app_user := [ex_user], t_session := [ex_session],
     t_membership := [ex_membership], t_api_token := [ex_token],
     t_role_capability := [\<lparr>ro_Role = ''owner'', ro_Capability = ''token.manage''\<rparr>]\<rparr>"

definition ex_request :: world where
  "ex_request = \<lparr>tables = ex_db, faults = []\<rparr>"

lemmas ex_defs = ex_request_def ex_db_def empty_db_def ex_garden_def ex_membership_def ex_token_def
  ex_user_def ex_session_def

lemma ex_people_ok: "people_ok (tables ex_request)" "faults ex_request = []"
  by (simp_all add: people_ok_def ex_defs has_user_def has_garden_def nil_uuid_def)

lemma ex_request_live:
  "live_session ex_sessions (mk_Date 2026 3 2 0 0 0 0 utc) (ex_hash ''t'') (tables ex_request) ex_session"
proof -
  have "GetSessionByTokenHash ''h1'' (tables ex_request) = Inr ex_session"
    by (simp add: ex_defs GetSessionByTokenHash_def one_row_def)
  then show ?thesis using ex_live by (simp add: live_session_def)
qed

section \<open>Properties\<close>

text \<open>
  (C12) Whatever database calls fail, a request is resolved only for a live session, to that
  session's account; its garden, if any, is one the account has a membership of that has not
  ended, its capabilities are exactly those of that membership's role, and the session row is on
  that garden afterwards.  Without a garden, the account has no live membership and no
  capability.
\<close>

theorem Resolve_session_authorised:
  assumes "people_ok (tables w)" "Resolve_session hashToken s now token w = (Inr p, w')"
  shows "\<exists>row. live_session s now (hashToken token) (tables w) row
    \<and> resolved (tables w) (tables w') now (hashToken token) (se_UserID row) p"
  by (rule Resolve_session_resolved [OF assms])

theorem Resolve_session_authorised_witness:
  "\<exists>p w'. \<exists>row :: session. Resolve_session ex_hash ex_sessions (mk_Date 2026 3 2 0 0 0 0 utc) ''t'' ex_request = (Inr p, w')
     \<and> resolved (tables ex_request) (tables w') (mk_Date 2026 3 2 0 0 0 0 utc) ''h1'' (se_UserID row) p"
proof -
  obtain p w' where r: "Resolve_session ex_hash ex_sessions (mk_Date 2026 3 2 0 0 0 0 utc) ''t'' ex_request = (Inr p, w')"
    using Resolve_session_ok [where hashToken = ex_hash, OF ex_people_ok(2,1) ex_request_live] by blast
  from Resolve_session_authorised [OF ex_people_ok(1) r] r show ?thesis by auto
qed

text \<open>
  A live session always resolves: with the tables' keys and references intact and no
  database failure, \<open>Resolve\<close> returns a principal, also when the session's garden is gone or its
  membership has ended.
\<close>

theorem Resolve_session_total:
  assumes "faults w = []" "people_ok (tables w)" "live_session s now (hashToken token) (tables w) row"
  shows "\<exists>p w'. Resolve_session hashToken s now token w = (Inr p, w')"
  by (rule Resolve_session_ok [where hashToken = hashToken, OF assms])

theorem Resolve_session_total_witness:
  "\<exists>p w'. Resolve_session ex_hash ex_sessions (mk_Date 2026 3 2 0 0 0 0 utc) ''t'' ex_request = (Inr p, w')"
  using Resolve_session_total [where hashToken = ex_hash, OF ex_people_ok(2,1) ex_request_live] by blast

text \<open>
  (C37) A bearer token is accepted only while its row is unrevoked and unexpired and its creator
  has a live membership of the token's garden with a role that may manage tokens.  The principal
  it gives is on that garden and can do nothing but read.
\<close>

theorem Resolve_token_only_live:
  assumes "Resolve_token hashToken now token w = (Inr p, w')"
  shows "\<exists>row \<in> set (t_api_token (tables w)).
    at_TokenHash row = hashToken token \<and> at_RevokedAt row = None \<and> Before now (at_ExpiresAt row)
    \<and> may_in_garden (tables w) ''token.manage'' now (at_GardenID row) (at_CreatedBy row)
    \<and> pr_APIToken p = Some row \<and> ga_ID (pr_Garden p) = at_GardenID row \<and> (\<forall>c. \<not> Can p c)"
  by (rule Resolve_token_Inr [OF assms]) (auto simp: APITokenLive_def TokenManage_def Can_def)

theorem Resolve_token_only_live_witness:
  "\<exists>p w'. Resolve_token ex_hash (mk_Date 2026 3 2 0 0 0 0 utc) ''t'' ex_request = (Inr p, w')
     \<and> pr_APIToken p = Some ex_token \<and> (\<forall>c. \<not> Can p c)"
proof -
  let ?now = "mk_Date 2026 3 2 0 0 0 0 utc"
  have "APITokenLive ex_token ?now" by (simp add: APITokenLive_def ex_token_def) code_simp
  moreover have "GetAPITokenByHash TokenManage ?now ''h1'' (tables ex_request) = Inr (ex_token, True)"
    by (simp add: GetAPITokenByHash_def TokenManage_def may_in_garden_def role_grants_def one_row_def ex_defs
        null_or_after_def)
  moreover have "GetGarden (at_GardenID ex_token) (tables ex_request\<lparr>t_api_token := x\<rparr>) = Inr ex_garden" for x
    by (simp add: GetGarden_def ex_defs one_row_def)
  ultimately obtain p w' where r: "Resolve_token ex_hash ?now ''t'' ex_request = (Inr p, w')"
    "pr_APIToken p = Some ex_token"
    using ex_people_ok(2)
    by (auto simp: Resolve_token_def writing_def TouchAPIToken_def zero_Principal_def)
  with Resolve_token_only_live [OF r(1)] show ?thesis by blast
qed

text \<open>
  A token's lifetime is capped: an expiry is given exactly for a positive lifetime of at most
  ninety days, and is that long after now.
\<close>

theorem TokenExpiry_capped:
  "(case TokenExpiry now lifetime of
      Inl e \<Rightarrow> e = ErrTokenLifetime \<and> (lifetime \<le> 0 \<or> 90 * 24 * hour_ns < lifetime)
    | Inr at \<Rightarrow> 0 < lifetime \<and> nsec at = nsec now + lifetime \<and> nsec at - nsec now \<le> 90 * 24 * hour_ns)"
  by (auto simp: TokenExpiry_def MaxTokenLifetime_def Add_def)

text \<open>
  A sign-in link is issued only for the holder of an open account, on a membership that has
  not ended, and afterwards it is the only unredeemed sign-in link of that account in that
  garden; it lasts a week.
\<close>

theorem IssueSignInLink_only_link:
  assumes "IssueSignInLink hashToken token newID created now handle w = (Inr (tok, link, user), w')"
    and "list_all (\<lambda>m. has_user (me_UserID m) (tables w)) (t_membership (tables w))"
  shows "\<exists>m \<in> set (t_membership (tables w)).
    me_UserID m = us_ID user \<and> us_Handle user = handle \<and> us_ClosedAt user = None \<and> \<not> MembershipEnded m now
    \<and> open_links (me_GardenID m) (us_ID user) (tables w') = [link]
    \<and> in_TokenHash link = hashToken token \<and> in_ExpiresAt link = Add now (7 * 24 * hour_ns)"
  by (rule IssueSignInLink_Inr [OF assms]) (auto simp: InviteLifetime_def)

theorem IssueSignInLink_only_link_witness:
  "\<exists>link user w'. IssueSignInLink ex_hash ''t'' ''i1'' zero_time (mk_Date 2026 3 2 0 0 0 0 utc) ''ellie'' ex_request
      = (Inr (''t'', link, user), w') \<and> open_links ''g1'' ''u1'' (tables w') = [link]"
proof -
  let ?now = "mk_Date 2026 3 2 0 0 0 0 utc"
  have u: "GetUserByHandle ''ellie'' (tables ex_request) = Inr ex_user"
    by (simp add: GetUserByHandle_def ex_defs one_row_def)
  have "ListMembershipsForUser ''u1'' (tables ex_request) = Inr [ex_membership]"
    by (simp add: ListMembershipsForUser_def ex_defs SortStableFunc_def)
  then have m: "firstLiveMembership ?now ''u1'' ex_request = (Inr ex_membership, ex_request)"
    using ex_people_ok(2) by (simp add: firstLiveMembership_def MembershipEnded_def ex_membership_def)
  obtain link user w' where r: "IssueSignInLink ex_hash ''t'' ''i1'' zero_time ?now ''ellie'' ex_request
      = (Inr (''t'', link, user), w')" "user = ex_user"
    using u m ex_people_ok(2)
    by (simp add: IssueSignInLink_def InTx_def writing_def DeleteReenrolmentInvites_def CreateInvite_def
        ex_defs has_garden_def has_user_def known_roles_def delete_where_def Let_def)
  have users: "list_all (\<lambda>m. has_user (me_UserID m) (tables ex_request)) (t_membership (tables ex_request))"
    by (simp add: ex_defs has_user_def)
  have "t_membership (tables ex_request) = [ex_membership]" by (simp add: ex_request_def ex_db_def)
  then show ?thesis
    using IssueSignInLink_only_link [OF r(1) users] r by (auto simp: ex_membership_def ex_user_def)
qed

end
