(* ===== verification/Auth_Sweep.thy ===== *)
theory Auth_Sweep
  imports Auth_Principal
begin

text \<open>
  The daily sweep: \<open>src/internal/auth/sweep.go\<close>.  It deletes rows that hold the hash of a
  credential that no longer works.  The theorems say that it deletes nothing that still works:
  every session lookup, setup link and invite has the same outcome from then on with or without
  the sweep.  Recovery codes are deleted when their account has a newer batch.  The Recovery codes
  page never leaves an account with two (\<open>new_batch_replaces\<close>); the redemption of a code does not
  look (\<open>superseded_code_works\<close>).
\<close>

definition linkGrace :: int where "linkGrace = 30 * 24 * hour_ns"

record sweep_report =
  sr_Sessions :: int
  sr_Invites :: int
  sr_SetupLinks :: int
  sr_RecoveryCodes :: int

definition zero_report :: sweep_report where
  "zero_report = \<lparr>sr_Sessions = 0, sr_Invites = 0, sr_SetupLinks = 0, sr_RecoveryCodes = 0\<rparr>"

text \<open>The report of a sweep that stops at an error holds what it deleted until then.\<close>

definition Sweep :: "gotime \<Rightarrow> int \<Rightarrow> world \<Rightarrow> (sweep_report \<times> db_error option) \<times> world" where
  "Sweep now sessionTTL w =
     (let report = zero_report in
      case writing (DeleteExpiredSessions (Add now (- sessionTTL))) w of
        (Inl e, w) \<Rightarrow> ((report, Some e), w)
      | (Inr n, w) \<Rightarrow>
          (let report = report\<lparr>sr_Sessions := n\<rparr> in
           case writing (DeleteRedeemedAndExpiredInvites (Add now (- linkGrace))) w of
             (Inl e, w) \<Rightarrow> ((report, Some e), w)
           | (Inr n, w) \<Rightarrow>
               (let report = report\<lparr>sr_Invites := n\<rparr> in
                case writing (DeleteUsedAndExpiredSetupLinks (Add now (- linkGrace))) w of
                  (Inl e, w) \<Rightarrow> ((report, Some e), w)
                | (Inr n, w) \<Rightarrow>
                    (let report = report\<lparr>sr_SetupLinks := n\<rparr> in
                     case writing DeleteSupersededRecoveryCodes w of
                       (Inl e, w) \<Rightarrow> ((report, Some e), w)
                     | (Inr n, w) \<Rightarrow> ((report\<lparr>sr_RecoveryCodes := n\<rparr>, None), w)))))"

section \<open>What a sweep may change\<close>

text \<open>The predicates of the four deletes.\<close>

definition swept_session :: "gotime \<Rightarrow> int \<Rightarrow> session \<Rightarrow> bool" where
  "swept_session now ttl s \<longleftrightarrow> \<not> After (se_LastSeenAt s) (Add now (- ttl))"

definition swept_invite :: "gotime \<Rightarrow> invite \<Rightarrow> bool" where
  "swept_invite now i \<longleftrightarrow> set_not_after (in_RedeemedAt i) (Add now (- linkGrace))
     \<or> in_UserID i \<noteq> None \<and> in_RedeemedAt i = None \<and> \<not> After (in_ExpiresAt i) (Add now (- linkGrace))"

definition swept_link :: "gotime \<Rightarrow> setup_link \<Rightarrow> bool" where
  "swept_link now l \<longleftrightarrow> set_not_after (sl_UsedAt l) (Add now (- linkGrace))
     \<or> sl_UsedAt l = None \<and> \<not> After (sl_ExpiresAt l) (Add now (- linkGrace))"

text \<open>The tables after deleting the first \<open>k\<close> kinds of rows.\<close>

definition swept :: "nat \<Rightarrow> gotime \<Rightarrow> int \<Rightarrow> db \<Rightarrow> db" where
  "swept k now ttl d =
     d\<lparr>t_session := (if 1 \<le> k then delete_where (swept_session now ttl) (t_session d) else t_session d),
       t_invite := (if 2 \<le> k then delete_where (swept_invite now) (t_invite d) else t_invite d),
       t_setup_link := (if 3 \<le> k then delete_where (swept_link now) (t_setup_link d) else t_setup_link d),
       t_recovery_code := (if 4 \<le> k then delete_where (superseded d) (t_recovery_code d) else t_recovery_code d)\<rparr>"

lemma writing_total:
  assumes "\<And>d. q d = Inr (n d, f d)" "writing q w = (r, w')"
  shows "(r = Inr (n (tables w)) \<and> tables w' = f (tables w)) \<or> (\<exists>e. r = Inl e) \<and> tables w' = tables w"
proof -
  obtain b w0 where b: "next_fault w = (b, w0)" by fastforce
  have "tables w0 = tables w" using next_fault_tables [of w] b by simp
  then show ?thesis using assms(2) b by (auto simp: writing_def assms(1) split: if_splits)
qed

lemma sweep_deletes:
  "DeleteExpiredSessions (Add now (- ttl)) d = Inr (count_where (swept_session now ttl) (t_session d),
     d\<lparr>t_session := delete_where (swept_session now ttl) (t_session d)\<rparr>)"
  "DeleteRedeemedAndExpiredInvites (Add now (- linkGrace)) d = Inr (count_where (swept_invite now) (t_invite d),
     d\<lparr>t_invite := delete_where (swept_invite now) (t_invite d)\<rparr>)"
  "DeleteUsedAndExpiredSetupLinks (Add now (- linkGrace)) d = Inr (count_where (swept_link now) (t_setup_link d),
     d\<lparr>t_setup_link := delete_where (swept_link now) (t_setup_link d)\<rparr>)"
  by (simp_all add: DeleteExpiredSessions_def DeleteRedeemedAndExpiredInvites_def
      DeleteUsedAndExpiredSetupLinks_def swept_session_def [abs_def] swept_invite_def [abs_def]
      swept_link_def [abs_def] Let_def)

lemma Sweep_tables:
  obtains k where "tables (snd (Sweep now ttl w)) = swept k now ttl (tables w)" "k \<le> 4"
    "snd (fst (Sweep now ttl w)) = None \<Longrightarrow> k = 4"
proof -
  let ?d = "tables w"
  obtain r1 w1 where 1: "writing (DeleteExpiredSessions (Add now (- ttl))) w = (r1, w1)" by fastforce
  obtain r2 w2 where 2: "writing (DeleteRedeemedAndExpiredInvites (Add now (- linkGrace))) w1 = (r2, w2)" by fastforce
  obtain r3 w3 where 3: "writing (DeleteUsedAndExpiredSetupLinks (Add now (- linkGrace))) w2 = (r3, w3)" by fastforce
  obtain r4 w4 where 4: "writing DeleteSupersededRecoveryCodes w3 = (r4, w4)" by fastforce
  have s1: "tables w1 = (case r1 of Inl _ \<Rightarrow> swept 0 now ttl ?d | Inr _ \<Rightarrow> swept 1 now ttl ?d)"
    using writing_total [OF sweep_deletes(1) 1] by (auto simp: swept_def)
  have s2: "tables w2 = (case r2 of Inl _ \<Rightarrow> swept 1 now ttl ?d | Inr _ \<Rightarrow> swept 2 now ttl ?d)"
    if "\<not> isl r1"
    using writing_total [OF sweep_deletes(2) 2] s1 that by (cases r1) (auto simp: swept_def)
  have s3: "tables w3 = (case r3 of Inl _ \<Rightarrow> swept 2 now ttl ?d | Inr _ \<Rightarrow> swept 3 now ttl ?d)"
    if "\<not> isl r1" "\<not> isl r2"
    using writing_total [OF sweep_deletes(3) 3] s2 that by (cases r2) (auto simp: swept_def)
  have "superseded (swept 3 now ttl ?d) = superseded ?d" by (auto simp: superseded_def swept_def)
  then have s4: "tables w4 = (case r4 of Inl _ \<Rightarrow> swept 3 now ttl ?d | Inr _ \<Rightarrow> swept 4 now ttl ?d)"
    if "\<not> isl r1" "\<not> isl r2" "\<not> isl r3"
    using writing_total [OF DeleteSupersededRecoveryCodes_def 4] s3 that by (cases r3) (auto simp: swept_def)
  note steps = 1 2 3 4
  show thesis
  proof (cases "isl r1 \<or> isl r2 \<or> isl r3")
    case True
    then show thesis
      using that [of 0] that [of 1] that [of 2] s1 s2 s3 steps
      by (cases r1; cases r2; cases r3) (auto simp: Sweep_def Let_def)
  next
    case False
    then show thesis
      using that [of 3] that [of 4] s4 steps
      by (cases r1; cases r2; cases r3; cases r4) (auto simp: Sweep_def Let_def)
  qed
qed

section \<open>What still works\<close>

lemma filter_delete_where: "filter p (delete_where q xs) = filter (\<lambda>x. p x \<and> \<not> q x) xs"
  by (simp add: delete_where_def conj_commute)

lemma swept_session_expired:
  assumes "sec_ns \<le> ttl" "swept_session now ttl s" "nsec now \<le> nsec later"
  shows "SessionExpired (se_LastSeenAt s) later (ss_ttl (NewSessions ttl c))"
  using assms NewSessions_bounds(1) [OF assms(1), of c]
  by (auto simp: SessionExpired_nsec swept_session_def After_def Add_def)

lemma live_session_swept:
  assumes "sec_ns \<le> ttl" "nsec now \<le> nsec later" "distinct (map se_TokenHash (t_session d))"
  shows "live_session (NewSessions ttl c) later h (swept k now ttl d) row
    \<longleftrightarrow> live_session (NewSessions ttl c) later h d row"
proof -
  let ?f = "filter (\<lambda>s. se_TokenHash s = h) (t_session d)"
  have len: "length ?f \<le> 1"
  proof (cases ?f)
    case (Cons r rs)
    then have "r \<in> set ?f" by simp
    then have "r \<in> set (t_session d)" "se_TokenHash r = h" by simp_all
    with filter_unique_key [OF assms(3), of r] show ?thesis by simp
  qed simp
  have "filter (\<lambda>s. se_TokenHash s = h) (delete_where (swept_session now ttl) (t_session d))
      = filter (\<lambda>s. \<not> swept_session now ttl s) ?f"
    by (simp add: delete_where_def conj_commute)
  with len show ?thesis
    using swept_session_expired [OF assms(1) _ assms(2)]
    by (cases ?f) (auto simp: live_session_def swept_def GetSessionByTokenHash_def one_row_def)
qed

lemma open_swept:
  assumes "nsec now \<le> nsec later"
  shows "list_ex (setup_open h later) (t_setup_link (swept k now ttl d)) = list_ex (setup_open h later) (t_setup_link d)"
    "count_where (invite_open g i later) (t_invite (swept k now ttl d)) = count_where (invite_open g i later) (t_invite d)"
proof -
  have "\<not> swept_link now l" if "setup_open h later l" for l
    using that assms by (auto simp: setup_open_def swept_link_def set_not_after_def After_def Add_def linkGrace_def)
  then show "list_ex (setup_open h later) (t_setup_link (swept k now ttl d)) = list_ex (setup_open h later) (t_setup_link d)"
    by (auto simp: swept_def list_ex_iff)
  have no: "\<not> swept_invite now x" if "invite_open g i later x" for x
    using that assms by (auto simp: invite_open_def swept_invite_def set_not_after_def After_def Add_def linkGrace_def)
  have "filter (invite_open g i later) (delete_where (swept_invite now) xs) = filter (invite_open g i later) xs" for xs
    using no by (induction xs) (auto simp: delete_where_def)
  then show "count_where (invite_open g i later) (t_invite (swept k now ttl d)) = count_where (invite_open g i later) (t_invite d)"
    by (simp add: swept_def count_where_def)
qed

text \<open>An account's codes are one batch: they share their time.\<close>

definition one_batch :: "db \<Rightarrow> bool" where
  "one_batch d \<longleftrightarrow> (\<forall>a \<in> set (t_recovery_code d). \<forall>b \<in> set (t_recovery_code d).
     rc_UserID a = rc_UserID b \<longrightarrow> Equal (rc_GeneratedAt a) (rc_GeneratedAt b))"

lemma codes_swept: "one_batch d \<Longrightarrow> t_recovery_code (swept k now ttl d) = t_recovery_code d"
proof -
  assume b: "one_batch d"
  have "\<not> superseded d c" if c: "c \<in> set (t_recovery_code d)" for c
  proof
    assume "superseded d c"
    then obtain n where n: "n \<in> set (t_recovery_code d)" "rc_UserID n = rc_UserID c"
      "nsec (rc_GeneratedAt c) < nsec (rc_GeneratedAt n)"
      unfolding superseded_def list_ex_iff Before_def by blast
    with b c have "Equal (rc_GeneratedAt n) (rc_GeneratedAt c)" unfolding one_batch_def by blast
    with n(3) show False by (simp add: Equal_def)
  qed
  then have "delete_where (superseded d) (t_recovery_code d) = t_recovery_code d"
    by (simp add: delete_where_def)
  then show ?thesis by (simp add: swept_def)
qed

text \<open>What is left of the codes: those whose account has no newer batch.\<close>

lemma codes_kept: "c \<in> set (t_recovery_code d) \<Longrightarrow> \<not> superseded d c \<Longrightarrow> c \<in> set (t_recovery_code (swept k now ttl d))"
  by (simp add: swept_def delete_where_def)

text \<open>The two writes of the Recovery codes page replace an account's batch.\<close>

lemma new_batch_replaces:
  assumes "one_batch d" "DeleteRecoveryCodes user d = Inr (u, d1)" "CreateRecoveryBatch ids user hashes at d1 = Inr (v, d2)"
  shows "one_batch d2"
proof -
  have d1: "t_recovery_code d1 = filter (\<lambda>c. rc_UserID c \<noteq> user) (t_recovery_code d)"
    using assms(2) by (auto simp: DeleteRecoveryCodes_def delete_where_def)
  have d2: "c \<in> set (t_recovery_code d1) \<or> rc_UserID c = user \<and> rc_GeneratedAt c = at" if "c \<in> set (t_recovery_code d2)" for c
    using assms(3) that by (auto simp: CreateRecoveryBatch_def split: if_splits)
  show ?thesis
    unfolding one_batch_def
  proof (intro ballI impI)
    fix a b assume ab: "a \<in> set (t_recovery_code d2)" "b \<in> set (t_recovery_code d2)" "rc_UserID a = rc_UserID b"
    show "Equal (rc_GeneratedAt a) (rc_GeneratedAt b)"
    proof (cases "rc_UserID a = user")
      case True
      then have "rc_GeneratedAt a = at" "rc_GeneratedAt b = at" using d2 [OF ab(1)] d2 [OF ab(2)] ab(3) by (auto simp: d1)
      then show ?thesis by (simp add: Equal_def)
    next
      case False
      then have "a \<in> set (t_recovery_code d)" "b \<in> set (t_recovery_code d)" using d2 [OF ab(1)] d2 [OF ab(2)] ab(3) by (auto simp: d1)
      then show ?thesis using assms(1) ab(3) by (auto simp: one_batch_def)
    qed
  qed
qed

section \<open>Properties\<close>

text \<open>
  (C38) A sweep deletes only what no longer works, also one that a database failure stops half-way.
  With a session lifetime of at least a second, which the configuration demands, and one session to a
  token hash, which the unique index keeps: at any later time the same tokens have a live session, the same setup links are open and the
  same invites can be redeemed as without the sweep.  A recovery code is deleted only when its account
  has a newer batch; where each account's codes are one batch, as the Recovery codes page leaves them,
  none is deleted.
\<close>

theorem Sweep_keeps_what_works:
  assumes "sec_ns \<le> ttl" "nsec now \<le> nsec later" "distinct (map se_TokenHash (t_session (tables w)))"
  shows "let d = tables w; d' = tables (snd (Sweep now ttl w)) in
    (\<forall>h row. live_session (NewSessions ttl c) later h d' row = live_session (NewSessions ttl c) later h d row)
    \<and> (\<forall>h. SetupLinkOpen h later d' = SetupLinkOpen h later d)
    \<and> (\<forall>g i. map_sum id fst (RedeemInvite later g i d') = map_sum id fst (RedeemInvite later g i d))
    \<and> (\<forall>code \<in> set (t_recovery_code d). \<not> superseded d code \<longrightarrow> code \<in> set (t_recovery_code d'))
    \<and> (one_batch d \<longrightarrow> t_recovery_code d' = t_recovery_code d)"
proof -
  obtain k where k: "tables (snd (Sweep now ttl w)) = swept k now ttl (tables w)" by (rule Sweep_tables)
  show ?thesis
    unfolding k Let_def
    using live_session_swept [OF assms(1,2,3)] open_swept [OF assms(2)] codes_swept codes_kept
    by (auto simp: SetupLinkOpen_def RedeemInvite_def)
qed

theorem Sweep_keeps_what_works_witness:
  "live_session ex_sessions (mk_Date 2026 3 2 0 0 0 0 utc) ''h1''
     (tables (snd (Sweep (mk_Date 2026 3 2 0 0 0 0 utc) (720 * hour_ns) ex_request))) ex_session"
proof -
  have "distinct (map se_TokenHash (t_session (tables ex_request)))"
    using ex_people_ok(1) by (simp add: people_ok_def)
  from Sweep_keeps_what_works [OF _ _ this, of "720 * hour_ns" "mk_Date 2026 3 2 0 0 0 0 utc"
      "mk_Date 2026 3 2 0 0 0 0 utc" "\<lparr>co_Name = ''__Host-sprig'', co_Secure = True\<rparr>"]
  show ?thesis using ex_request_live unfolding ex_sessions_def Let_def by simp
qed

text \<open>
  A sweep that returns no error leaves no session that was last used a lifetime or more
  before now.
\<close>

theorem Sweep_leaves_no_expired_session:
  assumes "snd (fst (Sweep now ttl w)) = None"
  shows "list_all (\<lambda>s. nsec now - nsec (se_LastSeenAt s) < ttl) (t_session (tables (snd (Sweep now ttl w))))"
proof -
  obtain k where "tables (snd (Sweep now ttl w)) = swept k now ttl (tables w)" "k = 4"
    using Sweep_tables [of now ttl w] assms by metis
  then show ?thesis by (auto simp: swept_def list_all_iff swept_session_def After_def Add_def)
qed

theorem Sweep_leaves_no_expired_session_witness:
  "snd (fst (Sweep (mk_Date 2026 4 1 0 0 0 0 utc) (720 * hour_ns) ex_request)) = None \<and>
   list_all (\<lambda>s. nsec (mk_Date 2026 4 1 0 0 0 0 utc) - nsec (se_LastSeenAt s) < 720 * hour_ns)
     (t_session (tables (snd (Sweep (mk_Date 2026 4 1 0 0 0 0 utc) (720 * hour_ns) ex_request))))"
proof -
  have "snd (fst (Sweep (mk_Date 2026 4 1 0 0 0 0 utc) (720 * hour_ns) ex_request)) = None"
    using ex_people_ok(2)
    by (simp add: Sweep_def writing_def sweep_deletes DeleteSupersededRecoveryCodes_def)
  with Sweep_leaves_no_expired_session [OF this] show ?thesis by blast
qed

text \<open>
  A code of a batch that a newer one replaced is redeemed all the same until a sweep deletes it:
  \<open>RedeemRecoveryCode\<close> asks only that it is unused.
\<close>

definition ex_code :: "string \<Rightarrow> gotime \<Rightarrow> recovery_code" where
  "ex_code h t = \<lparr>rc_ID = h, rc_UserID = ''u1'', rc_CodeHash = h, rc_GeneratedAt = t, rc_UsedAt = None\<rparr>"

definition ex_two_batches :: db where
  "ex_two_batches = empty_db\<lparr>t_recovery_code := [ex_code ''old'' zero_time, ex_code ''new'' (Add zero_time sec_ns)]\<rparr>"

theorem superseded_code_works:
  "\<exists>d' d''. RedeemRecoveryCode now ''old'' ex_two_batches = Inr (''u1'', d')
    \<and> DeleteSupersededRecoveryCodes ex_two_batches = Inr (1, d'')
    \<and> RedeemRecoveryCode now ''old'' d'' = Inl NoRows"
  by (simp add: RedeemRecoveryCode_def DeleteSupersededRecoveryCodes_def ex_two_batches_def ex_code_def empty_db_def
      one_row_def superseded_def count_where_def delete_where_def Before_def Add_def zero_time_def Let_def)

end
