(* ===== verification/Store_Plants.thy ===== *)
theory Store_Plants
  imports Store_People
begin

text \<open>
  The queries on plants, care types and photos: \<open>plant.sql.go\<close>, \<open>care_type.sql.go\<close> and
  \<open>photo.sql.go\<close> under \<open>src/internal/store\<close>, with the foreign-key actions the schema gives a
  deleted care type (its schedules go) and a deleted photo (a plant's picture is cleared).  The
  database's own collation and its \<open>lower\<close> are parameters of the queries that order by text.
\<close>

section \<open>plant.sql.go\<close>

text \<open>The columns the plant form writes, which \<open>CreatePlantParams\<close> and \<open>UpdatePlantParams\<close>
  share.\<close>

record plant_fields =
  pf_Nickname :: "string option"
  pf_CommonName :: "string option"
  pf_BotanicalName :: "string option"
  pf_Location :: "string option"
  pf_Sun :: "string option"
  pf_WaterNeeds :: "string option"
  pf_FeedNeeds :: "string option"
  pf_Soil :: "string option"
  pf_Climate :: "string option"
  pf_Pot :: "string option"
  pf_Notes :: "string option"
  pf_AcquiredYear :: "int option"
  pf_AcquiredMonth :: "int option"

definition set_plant_fields :: "plant_fields \<Rightarrow> plant \<Rightarrow> plant" where
  "set_plant_fields a p =
     p\<lparr>pl_Nickname := pf_Nickname a, pl_CommonName := pf_CommonName a,
       pl_BotanicalName := pf_BotanicalName a, pl_Location := pf_Location a, pl_Sun := pf_Sun a,
       pl_WaterNeeds := pf_WaterNeeds a, pl_FeedNeeds := pf_FeedNeeds a, pl_Soil := pf_Soil a,
       pl_Climate := pf_Climate a, pl_Pot := pf_Pot a, pl_Notes := pf_Notes a,
       pl_AcquiredYear := pf_AcquiredYear a, pl_AcquiredMonth := pf_AcquiredMonth a\<rparr>"

definition write_plant :: "(plant \<Rightarrow> bool) \<Rightarrow> (plant \<Rightarrow> plant) \<Rightarrow> db \<Rightarrow> db_error + plant \<times> db" where
  "write_plant p f d =
     (case update_returning p f (t_plant d) of
        Inl e \<Rightarrow> Inl e
      | Inr (r, rows) \<Rightarrow> Inr (r, d\<lparr>t_plant := rows\<rparr>))"

definition ArchivePlant :: "gotime \<Rightarrow> uuid \<Rightarrow> uuid \<Rightarrow> db \<Rightarrow> db_error + plant \<times> db" where
  "ArchivePlant tnow garden plant =
     write_plant (\<lambda>p. pl_GardenID p = garden \<and> pl_ID p = plant \<and> pl_ArchivedAt p = None)
       (\<lambda>p. p\<lparr>pl_ArchivedAt := Some tnow\<rparr>)"

definition CountArchivedPlants :: "uuid \<Rightarrow> db \<Rightarrow> db_error + int" where
  "CountArchivedPlants garden d =
     Inr (count_where (\<lambda>p. pl_GardenID p = garden \<and> pl_ArchivedAt p \<noteq> None) (t_plant d))"

definition CountPlants :: "uuid \<Rightarrow> db \<Rightarrow> db_error + int" where
  "CountPlants garden d =
     Inr (count_where (\<lambda>p. pl_GardenID p = garden \<and> pl_ArchivedAt p = None) (t_plant d))"

definition CreatePlant :: "uuid \<Rightarrow> gotime \<Rightarrow> uuid \<Rightarrow> plant_fields \<Rightarrow> db \<Rightarrow> db_error + plant \<times> db" where
  "CreatePlant newID created garden a d =
     (if \<not> has_garden garden d then Inl ForeignKeyViolation
      else (let p = set_plant_fields a
                      (zero_Plant\<lparr>pl_ID := newID, pl_GardenID := garden, pl_CreatedAt := created\<rparr>)
            in Inr (p, d\<lparr>t_plant := t_plant d @ [p]\<rparr>)))"

definition GetPlant :: "uuid \<Rightarrow> uuid \<Rightarrow> db \<Rightarrow> db_error + plant" where
  "GetPlant garden plant d =
     one_row (filter (\<lambda>p. pl_GardenID p = garden \<and> pl_ID p = plant) (t_plant d))"

definition ListArchivedPlants :: "uuid \<Rightarrow> db \<Rightarrow> db_error + plant list" where
  "ListArchivedPlants garden d =
     Inr (map snd (SortStableFunc (by_time_desc_id fst (\<lambda>r. pl_ID (snd r)))
       [(at, p). p \<leftarrow> t_plant d, pl_GardenID p = garden,
                 at \<leftarrow> (case pl_ArchivedAt p of None \<Rightarrow> [] | Some at \<Rightarrow> [at])]))"

text \<open>\<open>coalesce(nickname, common_name, botanical_name)\<close>.\<close>

definition coalesced_name :: "plant \<Rightarrow> string option" where
  "coalesced_name p =
     (case pl_Nickname p of Some n \<Rightarrow> Some n
      | None \<Rightarrow> (case pl_CommonName p of Some n \<Rightarrow> Some n | None \<Rightarrow> pl_BotanicalName p))"

definition plant_order :: "(string \<Rightarrow> string \<Rightarrow> int) \<Rightarrow> plant \<Rightarrow> plant \<Rightarrow> int" where
  "plant_order collate a b =
     cmp_Or (nulls_last collate (pl_Location a) (pl_Location b))
       (cmp_Or (nulls_last collate (coalesced_name a) (coalesced_name b))
         (strings_Compare (pl_ID a) (pl_ID b)))"

definition ListPlants :: "(string \<Rightarrow> string \<Rightarrow> int) \<Rightarrow> uuid \<Rightarrow> db \<Rightarrow> db_error + plant list" where
  "ListPlants collate garden d =
     Inr (SortStableFunc (plant_order collate)
       (filter (\<lambda>p. pl_GardenID p = garden \<and> pl_ArchivedAt p = None) (t_plant d)))"

definition ListRooms ::
  "(string \<Rightarrow> string \<Rightarrow> int) \<Rightarrow> (string \<Rightarrow> string) \<Rightarrow> uuid \<Rightarrow> db \<Rightarrow> db_error + string list" where
  "ListRooms collate lower garden d =
     Inr (SortStableFunc (\<lambda>a b. cmp_Or (collate (lower a) (lower b)) (collate a b))
       (remdups [room. p \<leftarrow> t_plant d, pl_GardenID p = garden \<and> pl_ArchivedAt p = None,
                       room \<leftarrow> (case pl_Location p of None \<Rightarrow> [] | Some l \<Rightarrow> [l])]))"

definition RestorePlant :: "uuid \<Rightarrow> uuid \<Rightarrow> db \<Rightarrow> db_error + plant \<times> db" where
  "RestorePlant garden plant =
     write_plant (\<lambda>p. pl_GardenID p = garden \<and> pl_ID p = plant \<and> pl_ArchivedAt p \<noteq> None)
       (\<lambda>p. p\<lparr>pl_ArchivedAt := None\<rparr>)"

definition SetProfilePhoto :: "uuid option \<Rightarrow> uuid \<Rightarrow> uuid \<Rightarrow> db \<Rightarrow> db_error + plant \<times> db" where
  "SetProfilePhoto photo garden plant d =
     write_plant
       (\<lambda>p. pl_GardenID p = garden \<and> pl_ID p = plant \<and> pl_ArchivedAt p = None \<and>
            (photo = None \<or>
             list_ex (\<lambda>h. Some (ph_ID h) = photo \<and> ph_GardenID h = garden \<and> ph_PlantID h = plant
                          \<and> ph_SquareBytes h \<noteq> None) (t_photo d)))
       (\<lambda>p. p\<lparr>pl_ProfilePhotoID := photo\<rparr>) d"

definition UpdatePlant :: "plant_fields \<Rightarrow> uuid \<Rightarrow> uuid \<Rightarrow> db \<Rightarrow> db_error + plant \<times> db" where
  "UpdatePlant a garden plant =
     write_plant (\<lambda>p. pl_GardenID p = garden \<and> pl_ID p = plant \<and> pl_ArchivedAt p = None)
       (set_plant_fields a)"

section \<open>care_type.sql.go\<close>

definition write_care_type ::
  "(care_type \<Rightarrow> bool) \<Rightarrow> (care_type \<Rightarrow> care_type) \<Rightarrow> db \<Rightarrow> db_error + care_type \<times> db" where
  "write_care_type p f d =
     (case update_returning p f (t_care_type d) of
        Inl e \<Rightarrow> Inl e
      | Inr (r, rows) \<Rightarrow> Inr (r, d\<lparr>t_care_type := rows\<rparr>))"

definition ArchiveCareType :: "gotime \<Rightarrow> uuid \<Rightarrow> uuid \<Rightarrow> db \<Rightarrow> db_error + care_type \<times> db" where
  "ArchiveCareType tnow garden care =
     write_care_type (\<lambda>c. ct_GardenID c = garden \<and> ct_ID c = care \<and> ct_ArchivedAt c = None)
       (\<lambda>c. c\<lparr>ct_ArchivedAt := Some tnow\<rparr>)"

definition CreateCareType ::
  "uuid \<Rightarrow> gotime \<Rightarrow> uuid \<Rightarrow> string \<Rightarrow> string \<Rightarrow> string \<Rightarrow> db \<Rightarrow> db_error + care_type \<times> db" where
  "CreateCareType newID created garden name slug icon d =
     (if list_ex (\<lambda>c. ct_GardenID c = garden \<and> ct_Slug c = slug) (t_care_type d) then Inl UniqueViolation
      else if \<not> has_garden garden d then Inl ForeignKeyViolation
      else (let c = \<lparr>ct_ID = newID, ct_GardenID = garden, ct_Name = name, ct_Slug = slug,
                     ct_Icon = icon, ct_CreatedAt = created, ct_ArchivedAt = None\<rparr>
            in Inr (c, d\<lparr>t_care_type := t_care_type d @ [c]\<rparr>)))"

definition DeleteUnusedCareType :: "uuid \<Rightarrow> uuid \<Rightarrow> db \<Rightarrow> db_error + int \<times> db" where
  "DeleteUnusedCareType garden care d =
     (let p = (\<lambda>c. ct_GardenID c = garden \<and> ct_ID c = care \<and>
                   \<not> list_ex (\<lambda>e. ce_CareTypeID e = ct_ID c \<and> ce_GardenID e = ct_GardenID c) (t_care_event d));
          gone = filter p (t_care_type d)
      in Inr (int (length gone),
              d\<lparr>t_care_type := delete_where p (t_care_type d),
                t_care_schedule := delete_where
                  (\<lambda>s. list_ex (\<lambda>c. cs_CareTypeID s = ct_ID c \<and> cs_GardenID s = ct_GardenID c) gone)
                  (t_care_schedule d)\<rparr>))"

definition GetCareType :: "uuid \<Rightarrow> uuid \<Rightarrow> db \<Rightarrow> db_error + care_type" where
  "GetCareType garden care d =
     one_row (filter (\<lambda>c. ct_GardenID c = garden \<and> ct_ID c = care) (t_care_type d))"

definition GetCareTypeBySlug :: "uuid \<Rightarrow> string \<Rightarrow> db \<Rightarrow> db_error + care_type" where
  "GetCareTypeBySlug garden slug d =
     one_row (filter (\<lambda>c. ct_GardenID c = garden \<and> ct_Slug c = slug) (t_care_type d))"

definition ListAllCareTypes :: "uuid \<Rightarrow> db \<Rightarrow> db_error + care_type list" where
  "ListAllCareTypes garden d =
     Inr (SortStableFunc (by_time_id ct_CreatedAt ct_ID)
       (filter (\<lambda>c. ct_GardenID c = garden) (t_care_type d)))"

definition ListCareTypes :: "uuid \<Rightarrow> db \<Rightarrow> db_error + care_type list" where
  "ListCareTypes garden d =
     Inr (SortStableFunc (by_time_id ct_CreatedAt ct_ID)
       (filter (\<lambda>c. ct_GardenID c = garden \<and> ct_ArchivedAt c = None) (t_care_type d)))"

definition ListCareTypesWithEvents :: "uuid \<Rightarrow> db \<Rightarrow> db_error + (care_type \<times> int) list" where
  "ListCareTypesWithEvents garden d =
     Inr (map (\<lambda>c. (c, count_where (\<lambda>e. ce_CareTypeID e = ct_ID c \<and> ce_GardenID e = ct_GardenID c)
                         (t_care_event d)))
       (SortStableFunc (by_time_id ct_CreatedAt ct_ID)
         (filter (\<lambda>c. ct_GardenID c = garden) (t_care_type d))))"

definition RestoreCareType :: "uuid \<Rightarrow> uuid \<Rightarrow> db \<Rightarrow> db_error + care_type \<times> db" where
  "RestoreCareType garden care =
     write_care_type (\<lambda>c. ct_GardenID c = garden \<and> ct_ID c = care \<and> ct_ArchivedAt c \<noteq> None)
       (\<lambda>c. c\<lparr>ct_ArchivedAt := None\<rparr>)"

definition UpdateCareType :: "string \<Rightarrow> string \<Rightarrow> uuid \<Rightarrow> uuid \<Rightarrow> db \<Rightarrow> db_error + care_type \<times> db" where
  "UpdateCareType name icon garden care =
     write_care_type (\<lambda>c. ct_GardenID c = garden \<and> ct_ID c = care)
       (\<lambda>c. c\<lparr>ct_Name := name, ct_Icon := icon\<rparr>)"

section \<open>photo.sql.go\<close>

definition CountPlantPhotos :: "uuid \<Rightarrow> uuid \<Rightarrow> db \<Rightarrow> db_error + int" where
  "CountPlantPhotos garden plant d =
     Inr (count_where (\<lambda>h. ph_GardenID h = garden \<and> ph_PlantID h = plant) (t_photo d))"

definition has_plant :: "uuid \<Rightarrow> uuid \<Rightarrow> db \<Rightarrow> bool" where
  "has_plant garden plant d = list_ex (\<lambda>p. pl_ID p = plant \<and> pl_GardenID p = garden) (t_plant d)"

record photo_params =
  pp_ID :: uuid
  pp_GardenID :: uuid
  pp_PlantID :: uuid
  pp_UploadedBy :: uuid
  pp_TakenAt :: "gotime option"
  pp_Kind :: string
  pp_Path :: string
  pp_Width :: int
  pp_Height :: int
  pp_Bytes :: int
  pp_SquareBytes :: "int option"

definition CreatePhoto :: "gotime \<Rightarrow> photo_params \<Rightarrow> db \<Rightarrow> db_error + photo \<times> db" where
  "CreatePhoto tnow a d =
     (if list_ex (\<lambda>h. ph_ID h = pp_ID a) (t_photo d) then Inl UniqueViolation
      else if \<not> has_user (pp_UploadedBy a) d \<or> \<not> has_plant (pp_GardenID a) (pp_PlantID a) d
      then Inl ForeignKeyViolation
      else (let h = \<lparr>ph_ID = pp_ID a, ph_GardenID = pp_GardenID a, ph_PlantID = pp_PlantID a,
                     ph_UploadedBy = pp_UploadedBy a, ph_TakenAt = pp_TakenAt a, ph_UploadedAt = tnow,
                     ph_Kind = pp_Kind a, ph_Path = pp_Path a, ph_Width = pp_Width a,
                     ph_Height = pp_Height a, ph_Bytes = pp_Bytes a,
                     ph_SquareBytes = pp_SquareBytes a, ph_FocusX = 50, ph_FocusY = 50\<rparr>
            in Inr (h, d\<lparr>t_photo := t_photo d @ [h]\<rparr>)))"

text \<open>The foreign key from a plant's picture clears it when the photo goes.\<close>

definition drop_pictures :: "photo list \<Rightarrow> plant list \<Rightarrow> plant list" where
  "drop_pictures gone =
     update_where (\<lambda>p. list_ex (\<lambda>h. pl_ProfilePhotoID p = Some (ph_ID h) \<and> pl_ID p = ph_PlantID h) gone)
       (\<lambda>p. p\<lparr>pl_ProfilePhotoID := None\<rparr>)"

definition DeletePhoto :: "uuid \<Rightarrow> uuid \<Rightarrow> uuid \<Rightarrow> bool \<Rightarrow> uuid \<Rightarrow> db \<Rightarrow> db_error + photo \<times> db" where
  "DeletePhoto garden plant photo mayDeleteAny uploadedBy d =
     (let p = (\<lambda>h. ph_GardenID h = garden \<and> ph_PlantID h = plant \<and> ph_ID h = photo
                   \<and> (mayDeleteAny \<or> ph_UploadedBy h = uploadedBy))
      in case delete_returning p (t_photo d) of
           Inl e \<Rightarrow> Inl e
         | Inr (h, rows) \<Rightarrow>
             Inr (h, d\<lparr>t_photo := rows, t_plant := drop_pictures (filter p (t_photo d)) (t_plant d)\<rparr>))"

definition GetPhoto :: "uuid \<Rightarrow> uuid \<Rightarrow> db \<Rightarrow> db_error + photo" where
  "GetPhoto garden photo d =
     one_row (filter (\<lambda>h. ph_GardenID h = garden \<and> ph_ID h = photo) (t_photo d))"

definition GetPlantPhoto :: "uuid \<Rightarrow> uuid \<Rightarrow> uuid \<Rightarrow> db \<Rightarrow> db_error + photo \<times> string" where
  "GetPlantPhoto garden plant photo d =
     one_row [(h, us_DisplayName u). h \<leftarrow> t_photo d, u \<leftarrow> t_app_user d, us_ID u = ph_UploadedBy h,
                ph_GardenID h = garden \<and> ph_PlantID h = plant \<and> ph_ID h = photo]"

definition ListPhotoFiles :: "db \<Rightarrow> db_error + (uuid \<times> uuid \<times> string \<times> int option) list" where
  "ListPhotoFiles d =
     Inr (SortStableFunc (\<lambda>a b. strings_Compare (fst (snd (snd a))) (fst (snd (snd b))))
       (map (\<lambda>h. (ph_ID h, ph_PlantID h, ph_Path h, ph_SquareBytes h)) (t_photo d)))"

text \<open>\<open>(time, id) < (before_at, before_id)\<close>, or no bound when \<open>before_at\<close> is null.\<close>

definition before_cursor :: "(gotime \<times> uuid) option \<Rightarrow> gotime \<Rightarrow> uuid \<Rightarrow> bool" where
  "before_cursor before at i =
     (case before of
        None \<Rightarrow> True
      | Some (bat, bid) \<Rightarrow>
          cmp_Or (cmp_Compare (nsec at) (nsec bat)) (strings_Compare i bid) < 0)"

definition ListPlantPhotos ::
  "uuid \<Rightarrow> uuid \<Rightarrow> (gotime \<times> uuid) option \<Rightarrow> nat \<Rightarrow> db \<Rightarrow> db_error + (photo \<times> string) list" where
  "ListPlantPhotos garden plant before cnt d =
     Inr (take cnt (SortStableFunc (by_time_id_desc (\<lambda>r. ph_UploadedAt (fst r)) (\<lambda>r. ph_ID (fst r)))
       [(h, us_DisplayName u). h \<leftarrow> t_photo d, u \<leftarrow> t_app_user d, us_ID u = ph_UploadedBy h,
          ph_GardenID h = garden \<and> ph_PlantID h = plant \<and> before_cursor before (ph_UploadedAt h) (ph_ID h)]))"

definition SetPhotoFocus :: "int \<Rightarrow> int \<Rightarrow> uuid \<Rightarrow> uuid \<Rightarrow> uuid \<Rightarrow> db \<Rightarrow> db_error + unit \<times> db" where
  "SetPhotoFocus x y garden plant photo d =
     Inr ((), d\<lparr>t_photo := update_where
        (\<lambda>h. ph_GardenID h = garden \<and> ph_PlantID h = plant \<and> ph_ID h = photo)
        (\<lambda>h. h\<lparr>ph_FocusX := x, ph_FocusY := y\<rparr>) (t_photo d)\<rparr>)"

definition photo_size :: "photo \<Rightarrow> int" where
  "photo_size h = ph_Bytes h + (case ph_SquareBytes h of None \<Rightarrow> 0 | Some n \<Rightarrow> n)"

definition SumPhotoBytes :: "uuid \<Rightarrow> db \<Rightarrow> db_error + int" where
  "SumPhotoBytes garden d =
     Inr (sum_list (map photo_size (filter (\<lambda>h. ph_GardenID h = garden) (t_photo d))))"

end
