(* ===== verification/Store_Care.thy ===== *)
theory Store_Care
  imports Store_Plants Schedule_Today
begin

text \<open>
  The queries on schedules and care events: \<open>care_schedule.sql.go\<close> and \<open>care_event.sql.go\<close>
  under \<open>src/internal/store\<close>.  The CHECK constraints of \<open>care_schedule\<close>, its unique key and the
  composite foreign keys are the error branches of the writes.
\<close>

section \<open>care_schedule.sql.go\<close>

text \<open>\<open>CreateCareScheduleParams\<close> and \<open>UpsertCareScheduleParams\<close>.\<close>

record schedule_params =
  sp_GardenID :: uuid
  sp_PlantID :: uuid
  sp_CareTypeID :: uuid
  sp_IntervalCount :: "int option"
  sp_IntervalUnit :: "string option"
  sp_AnchorDate :: "gotime option"
  sp_AnchorPrecision :: "string option"
  sp_SeasonStartMonth :: "int option"
  sp_SeasonEndMonth :: "int option"

definition schedule_of :: "uuid \<Rightarrow> gotime \<Rightarrow> schedule_params \<Rightarrow> care_schedule" where
  "schedule_of newID setAt a =
     \<lparr>cs_ID = newID, cs_GardenID = sp_GardenID a, cs_PlantID = sp_PlantID a,
      cs_CareTypeID = sp_CareTypeID a, cs_IntervalCount = sp_IntervalCount a,
      cs_IntervalUnit = sp_IntervalUnit a, cs_AnchorDate = sp_AnchorDate a,
      cs_AnchorPrecision = sp_AnchorPrecision a, cs_SeasonStartMonth = sp_SeasonStartMonth a,
      cs_SeasonEndMonth = sp_SeasonEndMonth a, cs_SetAt = setAt\<rparr>"

definition has_care_type :: "uuid \<Rightarrow> uuid \<Rightarrow> db \<Rightarrow> bool" where
  "has_care_type garden care d = list_ex (\<lambda>c. ct_ID c = care \<and> ct_GardenID c = garden) (t_care_type d)"

definition schedule_keys :: "care_schedule \<Rightarrow> db \<Rightarrow> bool" where
  "schedule_keys s d \<longleftrightarrow>
     has_plant (cs_GardenID s) (cs_PlantID s) d \<and> has_care_type (cs_GardenID s) (cs_CareTypeID s) d"

abbreviation schedule_at :: "uuid \<Rightarrow> uuid \<Rightarrow> care_schedule \<Rightarrow> bool" where
  "schedule_at plant care s \<equiv> cs_PlantID s = plant \<and> cs_CareTypeID s = care"

definition CreateCareSchedule ::
  "uuid \<Rightarrow> gotime \<Rightarrow> schedule_params \<Rightarrow> db \<Rightarrow> db_error + care_schedule \<times> db" where
  "CreateCareSchedule newID tnow a d =
     (let s = schedule_of newID tnow a in
      if \<not> care_schedule_checks s then Inl CheckViolation
      else if list_ex (schedule_at (sp_PlantID a) (sp_CareTypeID a)) (t_care_schedule d) then Inl UniqueViolation
      else if \<not> schedule_keys s d then Inl ForeignKeyViolation
      else Inr (s, d\<lparr>t_care_schedule := t_care_schedule d @ [s]\<rparr>))"

definition DeleteCareSchedule :: "uuid \<Rightarrow> uuid \<Rightarrow> uuid \<Rightarrow> db \<Rightarrow> db_error + uuid \<times> db" where
  "DeleteCareSchedule garden plant care d =
     (case delete_returning (\<lambda>s. cs_GardenID s = garden \<and> schedule_at plant care s) (t_care_schedule d) of
        Inl e \<Rightarrow> Inl e
      | Inr (s, rs) \<Rightarrow> Inr (cs_ID s, d\<lparr>t_care_schedule := rs\<rparr>))"

definition schedule_order ::
  "(string \<Rightarrow> string \<Rightarrow> int) \<Rightarrow> schedule_row \<Rightarrow> schedule_row \<Rightarrow> int" where
  "schedule_order collate a b =
     cmp_Or (plant_order collate (sr_Plant a) (sr_Plant b))
       (by_time_id (\<lambda>r. ct_CreatedAt (sr_CareType r)) (\<lambda>r. ct_ID (sr_CareType r)) a b)"

definition ListCareSchedules ::
  "(string \<Rightarrow> string \<Rightarrow> int) \<Rightarrow> uuid \<Rightarrow> db \<Rightarrow> db_error + schedule_row list" where
  "ListCareSchedules collate garden d =
     Inr (SortStableFunc (schedule_order collate)
       [\<lparr>sr_CareSchedule = s, sr_Plant = p, sr_CareType = c\<rparr>.
          s \<leftarrow> t_care_schedule d, p \<leftarrow> t_plant d, pl_ID p = cs_PlantID s \<and> pl_GardenID p = cs_GardenID s,
          c \<leftarrow> t_care_type d, ct_ID c = cs_CareTypeID s \<and> ct_GardenID c = cs_GardenID s,
          cs_GardenID s = garden \<and> pl_ArchivedAt p = None \<and> ct_ArchivedAt c = None])"

text \<open>The update of \<open>ON CONFLICT\<close> keeps the row's id and its garden.\<close>

definition UpsertCareSchedule ::
  "uuid \<Rightarrow> gotime \<Rightarrow> schedule_params \<Rightarrow> db \<Rightarrow> db_error + care_schedule \<times> db" where
  "UpsertCareSchedule newID tnow a d =
     (let s = schedule_of newID tnow a;
          at = schedule_at (sp_PlantID a) (sp_CareTypeID a);
          upd = (\<lambda>r. s\<lparr>cs_ID := cs_ID r, cs_GardenID := cs_GardenID r\<rparr>) in
      if \<not> care_schedule_checks s then Inl CheckViolation
      else case update_returning at upd (t_care_schedule d) of
             Inr (r, rs) \<Rightarrow> Inr (r, d\<lparr>t_care_schedule := rs\<rparr>)
           | Inl _ \<Rightarrow>
               if \<not> schedule_keys s d then Inl ForeignKeyViolation
               else Inr (s, d\<lparr>t_care_schedule := t_care_schedule d @ [s]\<rparr>))"

section \<open>care_event.sql.go\<close>

record event_params =
  ep_GardenID :: uuid
  ep_PlantID :: uuid
  ep_CareTypeID :: uuid
  ep_PerformedBy :: uuid
  ep_PerformedAt :: gotime
  ep_RecordedAt :: gotime
  ep_Done :: bool
  ep_Note :: "string option"
  ep_OverrideIntervalDays :: "int option"

definition event_of :: "uuid \<Rightarrow> event_params \<Rightarrow> care_event" where
  "event_of eid a =
     \<lparr>ce_ID = eid, ce_GardenID = ep_GardenID a, ce_PlantID = ep_PlantID a,
      ce_CareTypeID = ep_CareTypeID a, ce_PerformedBy = ep_PerformedBy a,
      ce_PerformedAt = ep_PerformedAt a, ce_RecordedAt = ep_RecordedAt a, ce_Done = ep_Done a,
      ce_Note = ep_Note a, ce_OverrideIntervalDays = ep_OverrideIntervalDays a\<rparr>"

definition event_keys :: "care_event \<Rightarrow> db \<Rightarrow> bool" where
  "event_keys e d \<longleftrightarrow>
     has_user (ce_PerformedBy e) d \<and> has_plant (ce_GardenID e) (ce_PlantID e) d
     \<and> has_care_type (ce_GardenID e) (ce_CareTypeID e) d"

definition CreateCareEvent :: "uuid \<Rightarrow> event_params \<Rightarrow> db \<Rightarrow> db_error + care_event \<times> db" where
  "CreateCareEvent newID a d =
     (let e = event_of newID a in
      if \<not> event_keys e d then Inl ForeignKeyViolation
      else Inr (e, d\<lparr>t_care_event := t_care_event d @ [e]\<rparr>))"

definition may_touch :: "uuid \<Rightarrow> uuid \<Rightarrow> uuid \<Rightarrow> bool \<Rightarrow> uuid \<Rightarrow> care_event \<Rightarrow> bool" where
  "may_touch eid garden plant any by e \<longleftrightarrow>
     ce_ID e = eid \<and> ce_GardenID e = garden \<and> ce_PlantID e = plant \<and> (any \<or> ce_PerformedBy e = by)"

definition DeleteCareEvent :: "uuid \<Rightarrow> uuid \<Rightarrow> uuid \<Rightarrow> bool \<Rightarrow> uuid \<Rightarrow> db \<Rightarrow> db_error + care_event \<times> db" where
  "DeleteCareEvent eid garden plant mayDeleteAny performedBy d =
     (case delete_returning (may_touch eid garden plant mayDeleteAny performedBy) (t_care_event d) of
        Inl e \<Rightarrow> Inl e
      | Inr (e, rs) \<Rightarrow> Inr (e, d\<lparr>t_care_event := rs\<rparr>))"

text \<open>An event with the plant, the care type and the name of whoever performed it: the row of
  four of the queries.\<close>

record event_row =
  er_CareEvent :: care_event
  er_Plant :: plant
  er_CareType :: care_type
  er_PerformedByName :: string

definition event_rows :: "db \<Rightarrow> event_row list" where
  "event_rows d =
     [\<lparr>er_CareEvent = e, er_Plant = p, er_CareType = c, er_PerformedByName = us_DisplayName u\<rparr>.
        e \<leftarrow> t_care_event d, p \<leftarrow> t_plant d, pl_ID p = ce_PlantID e \<and> pl_GardenID p = ce_GardenID e,
        c \<leftarrow> t_care_type d, ct_ID c = ce_CareTypeID e \<and> ct_GardenID c = ce_GardenID e,
        u \<leftarrow> t_app_user d, us_ID u = ce_PerformedBy e]"

definition GetCareEvent :: "uuid \<Rightarrow> uuid \<Rightarrow> uuid \<Rightarrow> db \<Rightarrow> db_error + event_row" where
  "GetCareEvent garden plant eid d =
     one_row (filter (\<lambda>r. ce_GardenID (er_CareEvent r) = garden \<and> ce_PlantID (er_CareEvent r) = plant
                          \<and> ce_ID (er_CareEvent r) = eid) (event_rows d))"

text \<open>A nullable parameter that filters only when it is set.\<close>

definition if_set :: "'a option \<Rightarrow> ('a \<Rightarrow> bool) \<Rightarrow> bool" where
  "if_set v p = (case v of None \<Rightarrow> True | Some x \<Rightarrow> p x)"

record log_params =
  lp_GardenID :: uuid
  lp_PlantID :: "uuid option"
  lp_CareTypeID :: "uuid option"
  lp_Since :: "gotime option"
  lp_Until :: "gotime option"

definition log_matches :: "log_params \<Rightarrow> event_row \<Rightarrow> bool" where
  "log_matches a r \<longleftrightarrow>
     (let e = er_CareEvent r in
      ce_GardenID e = lp_GardenID a \<and> if_set (lp_PlantID a) (\<lambda>p. ce_PlantID e = p)
      \<and> if_set (lp_CareTypeID a) (\<lambda>c. ce_CareTypeID e = c)
      \<and> if_set (lp_Since a) (\<lambda>t. \<not> Before (ce_PerformedAt e) t)
      \<and> if_set (lp_Until a) (\<lambda>t. Before (ce_PerformedAt e) t))"

abbreviation newest_first :: "event_row \<Rightarrow> event_row \<Rightarrow> int" where
  "newest_first \<equiv> by_time_id_desc (\<lambda>r. ce_PerformedAt (er_CareEvent r)) (\<lambda>r. ce_ID (er_CareEvent r))"

definition ListCareEventLog ::
  "log_params \<Rightarrow> (gotime \<times> uuid) option \<Rightarrow> nat \<Rightarrow> db \<Rightarrow> db_error + event_row list" where
  "ListCareEventLog a before cnt d =
     Inr (take cnt (SortStableFunc newest_first
       (filter (\<lambda>r. log_matches a r
                    \<and> before_cursor before (ce_PerformedAt (er_CareEvent r)) (ce_ID (er_CareEvent r)))
         (event_rows d))))"

definition ListCareEventsBetween ::
  "uuid \<Rightarrow> gotime \<Rightarrow> gotime \<Rightarrow> db \<Rightarrow> db_error + event_row list" where
  "ListCareEventsBetween garden since until d =
     Inr (SortStableFunc (by_time_id (\<lambda>r. ce_PerformedAt (er_CareEvent r)) (\<lambda>r. ce_ID (er_CareEvent r)))
       (filter (\<lambda>r. ce_GardenID (er_CareEvent r) = garden
                    \<and> \<not> Before (ce_PerformedAt (er_CareEvent r)) since
                    \<and> Before (ce_PerformedAt (er_CareEvent r)) until) (event_rows d)))"

text \<open>The lateral subquery of \<open>ListLatestCareEvents\<close>: at most one event for a schedule.\<close>

definition latest_event :: "care_schedule \<Rightarrow> db \<Rightarrow> care_event list" where
  "latest_event s d =
     take 1 (SortStableFunc (by_time_id_desc ce_PerformedAt ce_ID)
       (filter (\<lambda>e. ce_GardenID e = cs_GardenID s \<and> ce_PlantID e = cs_PlantID s
                    \<and> ce_CareTypeID e = cs_CareTypeID s) (t_care_event d)))"

definition ListLatestCareEvents :: "uuid \<Rightarrow> db \<Rightarrow> db_error + care_event list" where
  "ListLatestCareEvents garden d =
     Inr (concat (map (\<lambda>s. latest_event s d) (filter (\<lambda>s. cs_GardenID s = garden) (t_care_schedule d))))"

definition ListPlantCareEvents ::
  "uuid \<Rightarrow> uuid \<Rightarrow> nat \<Rightarrow> db \<Rightarrow> db_error + (care_event \<times> care_type \<times> string) list" where
  "ListPlantCareEvents garden plant cnt d =
     Inr (take cnt (SortStableFunc (by_time_id_desc (\<lambda>r. ce_PerformedAt (fst r)) (\<lambda>r. ce_ID (fst r)))
       [(e, c, us_DisplayName u).
          e \<leftarrow> t_care_event d,
          c \<leftarrow> t_care_type d, ct_ID c = ce_CareTypeID e \<and> ct_GardenID c = ce_GardenID e,
          u \<leftarrow> t_app_user d, us_ID u = ce_PerformedBy e,
          ce_GardenID e = garden \<and> ce_PlantID e = plant]))"

definition ListRecentCareEvents :: "uuid \<Rightarrow> nat \<Rightarrow> db \<Rightarrow> db_error + event_row list" where
  "ListRecentCareEvents garden cnt d =
     Inr (take cnt (SortStableFunc
       (by_time_id_desc (\<lambda>r. ce_RecordedAt (er_CareEvent r)) (\<lambda>r. ce_ID (er_CareEvent r)))
       (filter (\<lambda>r. ce_GardenID (er_CareEvent r) = garden) (event_rows d))))"

definition RestoreCareEvent ::
  "uuid \<Rightarrow> event_params \<Rightarrow> bool \<Rightarrow> uuid \<Rightarrow> db \<Rightarrow> db_error + care_event \<times> db" where
  "RestoreCareEvent eid a mayDeleteAny restoredBy d =
     (let e = event_of eid a in
      if \<not> has_user (ep_PerformedBy a) d \<or> \<not> (mayDeleteAny \<or> ep_PerformedBy a = restoredBy)
         \<or> list_ex (\<lambda>x. ce_ID x = eid) (t_care_event d)
      then Inl NoRows
      else if \<not> event_keys e d then Inl ForeignKeyViolation
      else Inr (e, d\<lparr>t_care_event := t_care_event d @ [e]\<rparr>))"

text \<open>The columns \<open>UpdateCareEvent\<close> sets.  The care type has to be one of the garden.\<close>

record event_change =
  ec_CareTypeID :: uuid
  ec_PerformedAt :: gotime
  ec_Done :: bool
  ec_Note :: "string option"
  ec_OverrideIntervalDays :: "int option"

definition change_event :: "event_change \<Rightarrow> care_event \<Rightarrow> care_event" where
  "change_event c e =
     e\<lparr>ce_CareTypeID := ec_CareTypeID c, ce_PerformedAt := ec_PerformedAt c, ce_Done := ec_Done c,
       ce_Note := ec_Note c, ce_OverrideIntervalDays := ec_OverrideIntervalDays c\<rparr>"

definition UpdateCareEvent ::
  "event_change \<Rightarrow> uuid \<Rightarrow> uuid \<Rightarrow> uuid \<Rightarrow> bool \<Rightarrow> uuid \<Rightarrow> db \<Rightarrow> db_error + care_event \<times> db" where
  "UpdateCareEvent c eid garden plant mayEditAny performedBy d =
     (case update_returning (may_touch eid garden plant mayEditAny performedBy) (change_event c) (t_care_event d) of
        Inl e \<Rightarrow> Inl e
      | Inr (e, rs) \<Rightarrow>
          if \<not> has_care_type garden (ec_CareTypeID c) d then Inl ForeignKeyViolation
          else Inr (e, d\<lparr>t_care_event := rs\<rparr>))"

end
