(* ===== verification/Store_Integrity.thy ===== *)
theory Store_Integrity
  imports Store_Care
begin

text \<open>
  What the care tables keep whatever is written to them.  \<open>care_step\<close> is one successful write to
  gardens, accounts, plants, care types, schedules, events or photos, by every query of
  \<open>Store_People\<close>, \<open>Store_Plants\<close> and \<open>Store_Care\<close> that writes one of them, the deletion of a garden
  with its cascade among them, or a write to other tables; \<open>care_ok\<close> are the keys and references that
  the other components rely on.  A new row's id comes from \<open>uuidv7()\<close> and is in no table.

  Consequences for the pages: what a delete takes away can be put back (\<open>Http_Care\<close> shows that Undo
  does), and the events \<open>ListLatestCareEvents\<close> hands to the schedule engine are the newest ones.
\<close>

section \<open>The invariant\<close>

text \<open>The columns the keys and references are made of.\<close>

definition plant_keys :: "db \<Rightarrow> (uuid \<times> uuid \<times> uuid option) list" where
  "plant_keys d = map (\<lambda>p. (pl_ID p, pl_GardenID p, pl_ProfilePhotoID p)) (t_plant d)"

definition type_keys :: "db \<Rightarrow> (uuid \<times> uuid \<times> string) list" where
  "type_keys d = map (\<lambda>c. (ct_ID c, ct_GardenID c, ct_Slug c)) (t_care_type d)"

definition photo_keys :: "db \<Rightarrow> (uuid \<times> uuid \<times> uuid \<times> uuid) list" where
  "photo_keys d = map (\<lambda>h. (ph_ID h, ph_GardenID h, ph_PlantID h, ph_UploadedBy h)) (t_photo d)"

definition schedule_key :: "care_schedule \<Rightarrow> uuid \<times> uuid" where
  "schedule_key s = (cs_PlantID s, cs_CareTypeID s)"

definition in_garden :: "uuid \<Rightarrow> uuid \<Rightarrow> (uuid \<times> uuid \<times> 'a) list \<Rightarrow> bool" where
  "in_garden i garden keys = list_ex (\<lambda>(k, g, _). k = i \<and> g = garden) keys"

definition keys_ok ::
  "uuid list \<Rightarrow> uuid list \<Rightarrow> (uuid \<times> uuid \<times> uuid option) list \<Rightarrow> (uuid \<times> uuid \<times> string) list \<Rightarrow>
   care_schedule list \<Rightarrow> care_event list \<Rightarrow> (uuid \<times> uuid \<times> uuid \<times> uuid) list \<Rightarrow> bool" where
  "keys_ok gardens users plants types schedules events photos \<longleftrightarrow>
     distinct (map fst plants) \<and>
     (\<forall>(i, g, pic) \<in> set plants. g \<in> set gardens \<and>
        if_set pic (\<lambda>h. list_ex (\<lambda>(k, _, p, _). k = h \<and> p = i) photos)) \<and>
     distinct (map fst types) \<and> distinct (map snd types) \<and>
     (\<forall>(c, g, _) \<in> set types. g \<in> set gardens) \<and>
     distinct (map schedule_key schedules) \<and>
     (\<forall>s \<in> set schedules. care_schedule_checks s \<and> in_garden (cs_PlantID s) (cs_GardenID s) plants
        \<and> in_garden (cs_CareTypeID s) (cs_GardenID s) types) \<and>
     distinct (map ce_ID events) \<and>
     (\<forall>e \<in> set events. ce_PerformedBy e \<in> set users \<and> in_garden (ce_PlantID e) (ce_GardenID e) plants
        \<and> in_garden (ce_CareTypeID e) (ce_GardenID e) types) \<and>
     distinct (map fst photos) \<and>
     (\<forall>(h, g, p, u) \<in> set photos. u \<in> set users \<and> in_garden p g plants)"

definition care_ok :: "db \<Rightarrow> bool" where
  "care_ok d \<longleftrightarrow>
     keys_ok (map ga_ID (t_garden d)) (map us_ID (t_app_user d)) (plant_keys d) (type_keys d)
       (t_care_schedule d) (t_care_event d) (photo_keys d)"

text \<open>A reference holds as long as the key it names is in its table.\<close>

lemma has_keys:
  "has_plant garden plant d \<longleftrightarrow> in_garden plant garden (plant_keys d)"
  "has_care_type garden care d \<longleftrightarrow> in_garden care garden (type_keys d)"
  "has_garden garden d \<longleftrightarrow> garden \<in> set (map ga_ID (t_garden d))"
  "has_user user d \<longleftrightarrow> user \<in> set (map us_ID (t_app_user d))"
  by (auto simp: has_plant_def has_care_type_def has_garden_def has_user_def plant_keys_def type_keys_def
      in_garden_def list_ex_iff)

section \<open>Writes\<close>

text \<open>The tables the invariant speaks of.\<close>

definition care_tables ::
  "db \<Rightarrow> garden list \<times> app_user list \<times> plant list \<times> care_type list \<times> care_schedule list \<times> care_event list \<times> photo list" where
  "care_tables d = (t_garden d, t_app_user d, t_plant d, t_care_type d, t_care_schedule d, t_care_event d, t_photo d)"

inductive care_step :: "db \<Rightarrow> db \<Rightarrow> bool" where
  add_garden: "\<not> has_garden i d \<Longrightarrow> CreateGarden i t name d = Inr (g, d') \<Longrightarrow> care_step d d'"
| rename_garden: "RenameGarden name i d = Inr (u, d') \<Longrightarrow> care_step d d'"
| empty_garden: "DeleteGardenCareEvents i d = Inr (u, d') \<Longrightarrow> care_step d d'"
| delete_garden: "DeleteGarden i d = Inr (n, d') \<Longrightarrow> care_step d d'"
| close_account: "CloseAccount t i d = Inr (n, d') \<Longrightarrow> care_step d d'"
| save_account: "UpdateAccount name handle zone i d = Inr (u, d') \<Longrightarrow> care_step d d'"
| last_garden: "SetLastGarden g i d = Inr (u, d') \<Longrightarrow> care_step d d'"
| elsewhere: "care_tables d' = care_tables d \<Longrightarrow> care_step d d'"
| add_user: "CreateUser t i name handle zone d = Inr (u, d') \<Longrightarrow> care_step d d'"
| add_plant: "i \<notin> fst ` set (plant_keys d) \<Longrightarrow> CreatePlant i t garden a d = Inr (p, d') \<Longrightarrow> care_step d d'"
| edit_plant: "UpdatePlant a garden i d = Inr (p, d') \<Longrightarrow> care_step d d'"
| archive_plant: "ArchivePlant t garden i d = Inr (p, d') \<Longrightarrow> care_step d d'"
| restore_plant: "RestorePlant garden i d = Inr (p, d') \<Longrightarrow> care_step d d'"
| set_picture: "SetProfilePhoto photo garden i d = Inr (p, d') \<Longrightarrow> care_step d d'"
| add_type: "i \<notin> fst ` set (type_keys d) \<Longrightarrow> CreateCareType i t garden name slug icon d = Inr (c, d')
    \<Longrightarrow> care_step d d'"
| edit_type: "UpdateCareType name icon garden i d = Inr (c, d') \<Longrightarrow> care_step d d'"
| archive_type: "ArchiveCareType t garden i d = Inr (c, d') \<Longrightarrow> care_step d d'"
| restore_type: "RestoreCareType garden i d = Inr (c, d') \<Longrightarrow> care_step d d'"
| delete_type: "DeleteUnusedCareType garden i d = Inr (n, d') \<Longrightarrow> care_step d d'"
| add_schedule: "CreateCareSchedule i t sp d = Inr (s, d') \<Longrightarrow> care_step d d'"
| save_schedule: "UpsertCareSchedule i t sp d = Inr (s, d') \<Longrightarrow> care_step d d'"
| delete_schedule: "DeleteCareSchedule garden plant care d = Inr (i, d') \<Longrightarrow> care_step d d'"
| log_care: "i \<notin> ce_ID ` set (t_care_event d) \<Longrightarrow> CreateCareEvent i ep d = Inr (e, d') \<Longrightarrow> care_step d d'"
| correct_care: "UpdateCareEvent ch i garden plant any by d = Inr (e, d') \<Longrightarrow> care_step d d'"
| delete_care: "DeleteCareEvent i garden plant any by d = Inr (e, d') \<Longrightarrow> care_step d d'"
| undo_care: "RestoreCareEvent i ep any by d = Inr (e, d') \<Longrightarrow> care_step d d'"
| add_photo: "CreatePhoto t hp d = Inr (h, d') \<Longrightarrow> care_step d d'"
| delete_photo: "DeletePhoto garden plant i any by d = Inr (h, d') \<Longrightarrow> care_step d d'"
| focus_photo: "SetPhotoFocus x y garden plant i d = Inr (u, d') \<Longrightarrow> care_step d d'"

section \<open>Every write keeps the invariant\<close>

text \<open>Adding and removing rows.\<close>

lemma in_garden_append [simp]: "in_garden i g (xs @ ys) \<longleftrightarrow> in_garden i g xs \<or> in_garden i g ys"
  by (simp add: in_garden_def)

lemma in_garden_snd: "in_garden i g (k # ks) \<longleftrightarrow> (fst k = i \<and> fst (snd k) = g) \<or> in_garden i g ks"
  by (cases k) (simp add: in_garden_def)

lemma in_garden_Nil [simp]: "\<not> in_garden i g []"
  by (simp add: in_garden_def)

lemma keys_ok_add:
  assumes "keys_ok gs us ps ts ss es hs"
  shows "keys_ok (gs @ [g]) us ps ts ss es hs"
    "keys_ok gs (us @ [u]) ps ts ss es hs"
    "i \<notin> fst ` set ps \<Longrightarrow> g \<in> set gs \<Longrightarrow> keys_ok gs us (ps @ [(i, g, None)]) ts ss es hs"
    "i \<notin> fst ` set ts \<Longrightarrow> (g, slug) \<notin> snd ` set ts \<Longrightarrow> g \<in> set gs
      \<Longrightarrow> keys_ok gs us ps (ts @ [(i, g, slug)]) ss es hs"
  using assms unfolding keys_ok_def by (fastforce simp: if_set_def split: option.splits)+

lemma keys_ok_add_schedule:
  assumes "keys_ok gs us ps ts ss es hs" "care_schedule_checks s" "schedule_key s \<notin> schedule_key ` set ss"
    "in_garden (cs_PlantID s) (cs_GardenID s) ps" "in_garden (cs_CareTypeID s) (cs_GardenID s) ts"
  shows "keys_ok gs us ps ts (ss @ [s]) es hs"
  using assms unfolding keys_ok_def by auto

lemma keys_ok_add_event:
  assumes "keys_ok gs us ps ts ss es hs" "ce_ID e \<notin> ce_ID ` set es" "ce_PerformedBy e \<in> set us"
    "in_garden (ce_PlantID e) (ce_GardenID e) ps" "in_garden (ce_CareTypeID e) (ce_GardenID e) ts"
  shows "keys_ok gs us ps ts ss (es @ [e]) hs"
  using assms unfolding keys_ok_def by auto

lemma keys_ok_add_photo:
  assumes "keys_ok gs us ps ts ss es hs" "h \<notin> fst ` set hs" "u \<in> set us" "in_garden p g ps"
  shows "keys_ok gs us ps ts ss es (hs @ [(h, g, p, u)])"
  using assms unfolding keys_ok_def by (fastforce simp: if_set_def split: option.splits)

lemma keys_ok_less:
  assumes "keys_ok gs us ps ts ss es hs"
  shows "keys_ok gs us ps ts (filter P ss) es hs" "keys_ok gs us ps ts ss (filter Q es) hs"
  using assms unfolding keys_ok_def by (auto simp: distinct_map_filter)

text \<open>Updates that leave the keys alone.\<close>

lemma plant_keys_write:
  assumes "write_plant p f d = Inr (r, d')"
  shows "d' = d\<lparr>t_plant := update_where p f (t_plant d)\<rparr>"
  using assms by (auto simp: write_plant_def update_returning_Inr split: sum.splits)

lemma type_keys_write:
  assumes "write_care_type p f d = Inr (r, d')"
  shows "d' = d\<lparr>t_care_type := update_where p f (t_care_type d)\<rparr>"
  using assms by (auto simp: write_care_type_def update_returning_Inr split: sum.splits)

lemma care_ok_write_plant:
  assumes "care_ok d" "write_plant p f d = Inr (r, d')"
    "\<And>x. p x \<Longrightarrow> pl_ID (f x) = pl_ID x \<and> pl_GardenID (f x) = pl_GardenID x
        \<and> pl_ProfilePhotoID (f x) = pl_ProfilePhotoID x"
  shows "care_ok d'"
proof -
  have "plant_keys d' = plant_keys d"
    using assms(3) unfolding plant_keys_write [OF assms(2)] plant_keys_def by (auto intro: map_update_where)
  then show ?thesis
    using assms(1) unfolding care_ok_def plant_keys_write [OF assms(2)] by (simp add: type_keys_def photo_keys_def)
qed

lemma care_ok_write_type:
  assumes "care_ok d" "write_care_type p f d = Inr (r, d')"
    "\<And>x. p x \<Longrightarrow> ct_ID (f x) = ct_ID x \<and> ct_GardenID (f x) = ct_GardenID x \<and> ct_Slug (f x) = ct_Slug x"
  shows "care_ok d'"
proof -
  have "type_keys d' = type_keys d"
    using assms(3) unfolding type_keys_write [OF assms(2)] type_keys_def by (auto intro: map_update_where)
  then show ?thesis
    using assms(1) unfolding care_ok_def type_keys_write [OF assms(2)] by (simp add: plant_keys_def photo_keys_def)
qed

lemmas view_defs = plant_keys_def type_keys_def photo_keys_def

lemma care_ok_people:
  assumes "care_ok d"
  shows "CreateGarden i t name d = Inr (g, d') \<Longrightarrow> care_ok d'"
    "RenameGarden name i d = Inr (u, d') \<Longrightarrow> care_ok d'"
    "DeleteGardenCareEvents i d = Inr (u, d') \<Longrightarrow> care_ok d'"
    "CreateUser t i name handle zone d = Inr (v, d') \<Longrightarrow> care_ok d'"
  using assms keys_ok_add(1,2) keys_ok_less(2)
  by (auto simp: care_ok_def view_defs CreateGarden_def RenameGarden_def DeleteGardenCareEvents_def
      CreateUser_def Let_def map_update_where delete_where_def split: if_splits)

lemma care_ok_accounts:
  assumes "care_ok d"
  shows "CloseAccount t i d = Inr (n, d') \<Longrightarrow> care_ok d'"
    "UpdateAccount name handle zone i d = Inr (u, d') \<Longrightarrow> care_ok d'"
    "SetLastGarden g i d = Inr (v, d') \<Longrightarrow> care_ok d'"
    "care_tables d' = care_tables d \<Longrightarrow> care_ok d'"
  using assms
  by (auto simp: care_ok_def view_defs CloseAccount_def UpdateAccount_def SetLastGarden_def care_tables_def Let_def
      map_update_where split: if_splits option.splits)

lemma in_garden_filter: "g \<noteq> garden \<Longrightarrow> in_garden i g (filter (\<lambda>k. fst (snd k) \<noteq> garden) ks) \<longleftrightarrow> in_garden i g ks"
  by (auto simp: in_garden_def list_ex_iff)

text \<open>A garden goes with everything that names it; events have to be gone before.\<close>

lemma keys_ok_without_garden:
  assumes ok: "keys_ok gs us ps ts ss es hs" and events: "\<And>e. e \<in> set es \<Longrightarrow> ce_GardenID e \<noteq> garden"
  shows "keys_ok (filter (\<lambda>g. g \<noteq> garden) gs) us (filter (\<lambda>k. fst (snd k) \<noteq> garden) ps)
    (filter (\<lambda>k. fst (snd k) \<noteq> garden) ts) (filter (\<lambda>s. cs_GardenID s \<noteq> garden) ss) es
    (filter (\<lambda>k. fst (snd k) \<noteq> garden) hs)"
proof -
  have pic: "if_set pic (\<lambda>h. list_ex (\<lambda>(k, _, p, _). k = h \<and> p = i) (filter (\<lambda>k. fst (snd k) \<noteq> garden) hs))"
    if p: "(i, g, pic) \<in> set ps" "g \<noteq> garden" for i g pic
  proof (cases pic)
    case (Some h)
    with ok p(1) obtain g' u where h: "(h, g', i, u) \<in> set hs"
      by (fastforce simp: keys_ok_def if_set_def list_ex_iff)
    with ok obtain pic' where "(i, g', pic') \<in> set ps"
      by (fastforce simp: keys_ok_def in_garden_def list_ex_iff)
    with ok p(1) have "g' = g" unfolding keys_ok_def by (metis eq_key_imp_eq_value fst_conv)
    with h p(2) Some show ?thesis by (auto simp: if_set_def list_ex_iff intro!: bexI [of _ "(h, g', i, u)"])
  qed (simp add: if_set_def)
  have event: "in_garden (ce_PlantID e) (ce_GardenID e) (filter (\<lambda>k. fst (snd k) \<noteq> garden) ps)"
    "in_garden (ce_CareTypeID e) (ce_GardenID e) (filter (\<lambda>k. fst (snd k) \<noteq> garden) ts)" if "e \<in> set es" for e
    using ok that unfolding in_garden_filter [OF events [OF that]] by (auto simp: keys_ok_def)
  from ok show ?thesis
    unfolding keys_ok_def by (auto simp: distinct_map_filter in_garden_filter event dest: pic)
qed

lemma care_ok_delete_garden:
  assumes "care_ok d" "DeleteGarden i d = Inr (n, d')"
  shows "care_ok d'"
proof (cases "has_garden i d")
  case True
  then have d': "d' = drop_garden i d" and events: "ce_GardenID e \<noteq> i" if "e \<in> set (t_care_event d)" for e
    using assms(2) that by (auto simp: DeleteGarden_def list_ex_iff split: if_splits)
  have "d' = drop_garden i d" using assms(2) True by (auto simp: DeleteGarden_def split: if_splits)
  moreover have "map us_ID (t_app_user (drop_garden i d)) = map us_ID (t_app_user d)"
    by (simp add: drop_garden_def drop_memberships_def Let_def map_update_where)
  ultimately show ?thesis
    using keys_ok_without_garden [OF assms(1) [unfolded care_ok_def] events]
    by (simp add: care_ok_def view_defs drop_garden_def drop_memberships_def Let_def delete_where_def filter_map comp_def)
next
  case False
  with assms show ?thesis by (auto simp: DeleteGarden_def)
qed

lemma care_ok_plants:
  assumes "care_ok d"
  shows "i \<notin> fst ` set (plant_keys d) \<Longrightarrow> CreatePlant i t garden a d = Inr (p, d') \<Longrightarrow> care_ok d'"
    "UpdatePlant a garden i d = Inr (p, d') \<Longrightarrow> care_ok d'"
    "ArchivePlant t garden i d = Inr (p, d') \<Longrightarrow> care_ok d'"
    "RestorePlant garden i d = Inr (p, d') \<Longrightarrow> care_ok d'"
proof -
  assume new: "i \<notin> fst ` set (plant_keys d)" "CreatePlant i t garden a d = Inr (p, d')"
  then have "garden \<in> set (map ga_ID (t_garden d))" by (auto simp: CreatePlant_def has_keys split: if_splits)
  from keys_ok_add(3) [OF assms [unfolded care_ok_def] new(1) this] new(2) show "care_ok d'"
    by (auto simp: CreatePlant_def care_ok_def view_defs set_plant_fields_def zero_Plant_def Let_def
        split: if_splits)
next
  show "UpdatePlant a garden i d = Inr (p, d') \<Longrightarrow> care_ok d'"
    unfolding UpdatePlant_def by (erule care_ok_write_plant [OF assms]) (simp add: set_plant_fields_def)
  show "ArchivePlant t garden i d = Inr (p, d') \<Longrightarrow> care_ok d'"
    unfolding ArchivePlant_def by (erule care_ok_write_plant [OF assms]) simp
  show "RestorePlant garden i d = Inr (p, d') \<Longrightarrow> care_ok d'"
    unfolding RestorePlant_def by (erule care_ok_write_plant [OF assms]) simp
qed

lemma care_ok_types:
  assumes "care_ok d"
  shows "i \<notin> fst ` set (type_keys d) \<Longrightarrow> CreateCareType i t garden name slug icon d = Inr (c, d') \<Longrightarrow> care_ok d'"
    "UpdateCareType name icon garden i d = Inr (c, d') \<Longrightarrow> care_ok d'"
    "ArchiveCareType t garden i d = Inr (c, d') \<Longrightarrow> care_ok d'"
    "RestoreCareType garden i d = Inr (c, d') \<Longrightarrow> care_ok d'"
proof -
  assume new: "i \<notin> fst ` set (type_keys d)" "CreateCareType i t garden name slug icon d = Inr (c, d')"
  then have "garden \<in> set (map ga_ID (t_garden d))" "(garden, slug) \<notin> snd ` set (type_keys d)"
    by (auto simp: CreateCareType_def has_keys type_keys_def list_ex_iff split: if_splits)
  from keys_ok_add(4) [OF assms [unfolded care_ok_def] new(1) this(2,1)] new(2) show "care_ok d'"
    by (auto simp: CreateCareType_def care_ok_def view_defs Let_def split: if_splits)
next
  show "UpdateCareType name icon garden i d = Inr (c, d') \<Longrightarrow> care_ok d'"
    unfolding UpdateCareType_def by (erule care_ok_write_type [OF assms]) simp
  show "ArchiveCareType t garden i d = Inr (c, d') \<Longrightarrow> care_ok d'"
    unfolding ArchiveCareType_def by (erule care_ok_write_type [OF assms]) simp
  show "RestoreCareType garden i d = Inr (c, d') \<Longrightarrow> care_ok d'"
    unfolding RestoreCareType_def by (erule care_ok_write_type [OF assms]) simp
qed

text \<open>Updates that change pictures, and photos that go with the pictures that showed them.\<close>

lemma in_garden_map: "in_garden i g ks \<longleftrightarrow> (i, g) \<in> set (map (\<lambda>k. (fst k, fst (snd k))) ks)"
  by (force simp: in_garden_def list_ex_iff)

lemma keys_ok_pictures:
  assumes "keys_ok gs us ps ts ss es hs"
    "map (\<lambda>k. (fst k, fst (snd k))) ps' = map (\<lambda>k. (fst k, fst (snd k))) ps"
    "\<And>i g pic. (i, g, pic) \<in> set ps' \<Longrightarrow> if_set pic (\<lambda>h. list_ex (\<lambda>(k, _, p, _). k = h \<and> p = i) (filter P hs))"
  shows "keys_ok gs us ps' ts ss es (filter P hs)"
proof -
  have fsts: "map fst ps' = map fst ps" using arg_cong [OF assms(2), of "map fst"] by (simp add: comp_def)
  have ing: "in_garden i g ps' = in_garden i g ps" for i g unfolding in_garden_map assms(2) ..
  have "g \<in> set gs" if k: "(i, g, pic) \<in> set ps'" for i g pic
  proof -
    from k have "in_garden i g ps" unfolding ing [symmetric] by (auto simp: in_garden_def list_ex_iff)
    then show ?thesis using assms(1) by (auto simp: keys_ok_def in_garden_def list_ex_iff)
  qed
  moreover have "distinct (map fst (filter P hs))" using assms(1) by (simp add: keys_ok_def distinct_map_filter)
  ultimately show ?thesis using assms(1,3) unfolding keys_ok_def fsts ing by auto
qed

lemma care_ok_pictures:
  assumes "care_ok d" "d' = d\<lparr>t_photo := filter P (t_photo d), t_plant := update_where p f (t_plant d)\<rparr>"
    "\<And>x. p x \<Longrightarrow> pl_ID (f x) = pl_ID x \<and> pl_GardenID (f x) = pl_GardenID x"
    "\<And>x i. x \<in> set (t_plant d') \<Longrightarrow> pl_ProfilePhotoID x = Some i \<Longrightarrow>
       \<exists>h \<in> set (t_photo d'). ph_ID h = i \<and> ph_PlantID h = pl_ID x"
  shows "care_ok d'"
proof -
  let ?k = "\<lambda>h. (ph_ID h, ph_GardenID h, ph_PlantID h, ph_UploadedBy h)"
  let ?Q = "\<lambda>k. k \<in> ?k ` set (filter P (t_photo d))"
  have inj: "inj_on ?k (set (t_photo d))"
    using assms(1) by (auto simp: care_ok_def keys_ok_def photo_keys_def distinct_map comp_def inj_on_def)
  have hs: "photo_keys d' = filter ?Q (photo_keys d)"
  proof -
    have "P h \<longleftrightarrow> ?Q (?k h)" if "h \<in> set (t_photo d)" for h
      using inj_onD [OF inj] that by (auto simp del: prod.inject)
    then have "filter P (t_photo d) = filter (\<lambda>h. ?Q (?k h)) (t_photo d)" by (intro filter_cong) auto
    then show ?thesis by (simp only: assms(2) photo_keys_def filter_map comp_def) simp
  qed
  have "map (\<lambda>k. (fst k, fst (snd k))) (plant_keys d') = map (\<lambda>k. (fst k, fst (snd k))) (plant_keys d)"
    using assms(3) by (auto simp: assms(2) plant_keys_def comp_def intro: map_update_where)
  moreover have "if_set pic (\<lambda>h. list_ex (\<lambda>(k, _, p, _). k = h \<and> p = i) (filter ?Q (photo_keys d)))"
    if "(i, g, pic) \<in> set (plant_keys d')" for i g pic
  proof -
    from that obtain x where x: "x \<in> set (t_plant d')" "i = pl_ID x" "pic = pl_ProfilePhotoID x"
      by (auto simp: plant_keys_def)
    show ?thesis
      unfolding hs [symmetric] x(2,3) using assms(4) [OF x(1)]
      by (cases "pl_ProfilePhotoID x") (auto simp: if_set_def list_ex_iff photo_keys_def)
  qed
  ultimately have "keys_ok (map ga_ID (t_garden d)) (map us_ID (t_app_user d)) (plant_keys d') (type_keys d)
      (t_care_schedule d) (t_care_event d) (filter ?Q (photo_keys d))"
    using keys_ok_pictures [OF assms(1) [unfolded care_ok_def]] by blast
  then show ?thesis unfolding care_ok_def hs by (simp add: assms(2) type_keys_def)
qed

lemma care_ok_picture:
  assumes "care_ok d" "x \<in> set (t_plant d)" "pl_ProfilePhotoID x = Some i"
  shows "\<exists>h \<in> set (t_photo d). ph_ID h = i \<and> ph_PlantID h = pl_ID x"
  using assms by (force simp: care_ok_def keys_ok_def plant_keys_def photo_keys_def if_set_def list_ex_iff)

lemma care_ok_photos:
  assumes "care_ok d"
  shows "SetProfilePhoto photo garden i d = Inr (p, d') \<Longrightarrow> care_ok d'"
    "DeletePhoto garden plant i any by d = Inr (h, d') \<Longrightarrow> care_ok d'"
    "CreatePhoto t hp d = Inr (h, d') \<Longrightarrow> care_ok d'"
    "SetPhotoFocus x y garden plant i d = Inr (u, d') \<Longrightarrow> care_ok d'"
proof -
  assume set: "SetProfilePhoto photo garden i d = Inr (p, d')"
  let ?p = "\<lambda>p. pl_GardenID p = garden \<and> pl_ID p = i \<and> pl_ArchivedAt p = None \<and> (photo = None \<or>
    list_ex (\<lambda>h. Some (ph_ID h) = photo \<and> ph_GardenID h = garden \<and> ph_PlantID h = i
       \<and> ph_SquareBytes h \<noteq> None) (t_photo d))"
  have d': "d' = d\<lparr>t_photo := filter (\<lambda>_. True) (t_photo d),
      t_plant := update_where ?p (\<lambda>p. p\<lparr>pl_ProfilePhotoID := photo\<rparr>) (t_plant d)\<rparr>"
    using plant_keys_write [OF set [unfolded SetProfilePhoto_def]] by simp
  then show "care_ok d'"
    by (rule care_ok_pictures [OF assms])
      (auto dest: care_ok_picture [OF assms] simp: d' list_ex_iff split: if_splits)
next
  assume del: "DeletePhoto garden plant i any by d = Inr (h, d')"
  let ?p = "\<lambda>h. ph_GardenID h = garden \<and> ph_PlantID h = plant \<and> ph_ID h = i \<and> (any \<or> ph_UploadedBy h = by)"
  have d': "d' = d\<lparr>t_photo := filter (\<lambda>h. \<not> ?p h) (t_photo d), t_plant := update_where
      (\<lambda>p. list_ex (\<lambda>h. pl_ProfilePhotoID p = Some (ph_ID h) \<and> pl_ID p = ph_PlantID h) (filter ?p (t_photo d)))
      (\<lambda>p. p\<lparr>pl_ProfilePhotoID := None\<rparr>) (t_plant d)\<rparr>"
    using del by (auto simp: DeletePhoto_def delete_returning_Inr delete_where_def drop_pictures_def Let_def
        split: sum.splits)
  then show "care_ok d'"
    by (rule care_ok_pictures [OF assms])
      (auto dest!: care_ok_picture [OF assms] simp: d' list_ex_iff split: if_splits)
next
  assume new: "CreatePhoto t hp d = Inr (h, d')"
  then have "pp_ID hp \<notin> fst ` set (photo_keys d)" "pp_UploadedBy hp \<in> set (map us_ID (t_app_user d))"
    "in_garden (pp_PlantID hp) (pp_GardenID hp) (plant_keys d)"
    by (auto simp: CreatePhoto_def has_keys photo_keys_def list_ex_iff split: if_splits)
  from keys_ok_add_photo [OF assms [unfolded care_ok_def] this] new show "care_ok d'"
    by (auto simp: CreatePhoto_def care_ok_def view_defs Let_def split: if_splits)
next
  assume "SetPhotoFocus x y garden plant i d = Inr (u, d')"
  then show "care_ok d'"
    using assms by (auto simp: SetPhotoFocus_def care_ok_def view_defs map_update_where)
qed

lemma care_ok_delete_type:
  assumes "care_ok d" "DeleteUnusedCareType garden i d = Inr (n, d')"
  shows "care_ok d'"
proof -
  let ?p = "\<lambda>c. ct_GardenID c = garden \<and> ct_ID c = i \<and>
    \<not> list_ex (\<lambda>e. ce_CareTypeID e = ct_ID c \<and> ce_GardenID e = ct_GardenID c) (t_care_event d)"
  have d': "d' = d\<lparr>t_care_type := delete_where ?p (t_care_type d), t_care_schedule := delete_where
      (\<lambda>s. list_ex (\<lambda>c. cs_CareTypeID s = ct_ID c \<and> cs_GardenID s = ct_GardenID c) (filter ?p (t_care_type d)))
      (t_care_schedule d)\<rparr>"
    using assms(2) by (simp add: DeleteUnusedCareType_def Let_def)
  have stay: "in_garden c g (type_keys d') \<longleftrightarrow> in_garden c g (type_keys d)"
    if "\<not> list_ex (\<lambda>k. c = ct_ID k \<and> g = ct_GardenID k) (filter ?p (t_care_type d))" for c g
    using that by (auto simp: d' type_keys_def in_garden_def list_ex_iff delete_where_def)
  have sub: "type_keys d' = map (\<lambda>c. (ct_ID c, ct_GardenID c, ct_Slug c)) (filter (\<lambda>c. \<not> ?p c) (t_care_type d))"
    by (simp add: d' type_keys_def delete_where_def)
  have dist: "distinct (map fst (type_keys d'))" "distinct (map snd (type_keys d'))"
  proof -
    have "distinct (map ct_ID (t_care_type d))" "distinct (map (\<lambda>c. (ct_GardenID c, ct_Slug c)) (t_care_type d))"
      using assms(1) by (simp_all add: care_ok_def keys_ok_def type_keys_def comp_def)
    then show "distinct (map fst (type_keys d'))" "distinct (map snd (type_keys d'))"
      by (simp_all add: sub comp_def distinct_map_filter)
  qed
  have "in_garden (ce_CareTypeID e) (ce_GardenID e) (type_keys d')" if "e \<in> set (t_care_event d)" for e
    using assms(1) that unfolding care_ok_def keys_ok_def
    by (subst stay) (auto simp: list_ex_iff)
  moreover have "in_garden (cs_CareTypeID s) (cs_GardenID s) (type_keys d')" if "s \<in> set (t_care_schedule d')" for s
    using assms(1) that unfolding care_ok_def keys_ok_def by (subst stay) (auto simp: d' list_ex_iff)
  moreover have "g \<in> set (map ga_ID (t_garden d))" if "(c, g, x) \<in> set (type_keys d')" for c g x
    using assms(1) that by (auto simp: care_ok_def keys_ok_def type_keys_def d')
  ultimately show ?thesis
    using assms(1) dist unfolding care_ok_def keys_ok_def
    by (auto simp: d' plant_keys_def photo_keys_def delete_where_def distinct_map_filter)
qed

lemma checks_ids: "care_schedule_checks (s\<lparr>cs_ID := i, cs_GardenID := g\<rparr>) = care_schedule_checks s"
  by (simp add: care_schedule_checks_def)

lemma care_ok_schedules:
  assumes "care_ok d"
  shows "CreateCareSchedule i t sp d = Inr (s, d') \<Longrightarrow> care_ok d'"
    "UpsertCareSchedule i t sp d = Inr (s, d') \<Longrightarrow> care_ok d'"
    "DeleteCareSchedule garden plant care d = Inr (i, d') \<Longrightarrow> care_ok d'"
proof -
  note ok = assms [unfolded care_ok_def]
  let ?s = "schedule_of i t sp"
  have add: "care_ok (d\<lparr>t_care_schedule := t_care_schedule d @ [?s]\<rparr>)"
    if "care_schedule_checks ?s" "schedule_keys ?s d"
      "\<not> list_ex (schedule_at (sp_PlantID sp) (sp_CareTypeID sp)) (t_care_schedule d)"
  proof -
    have "schedule_key ?s \<notin> schedule_key ` set (t_care_schedule d)"
      using that(3) by (auto simp: schedule_key_def schedule_of_def list_ex_iff)
    from keys_ok_add_schedule [OF ok that(1) this] that(2) show ?thesis
      by (simp add: care_ok_def view_defs schedule_keys_def has_keys)
  qed
  show "CreateCareSchedule i t sp d = Inr (s, d') \<Longrightarrow> care_ok d'"
    using add by (auto simp: CreateCareSchedule_def Let_def split: if_splits)
  show "DeleteCareSchedule garden plant care d = Inr (i, d') \<Longrightarrow> care_ok d'"
    using keys_ok_less(1) [OF ok]
    by (auto simp: DeleteCareSchedule_def delete_returning_Inr care_ok_def view_defs delete_where_def
        split: sum.splits)
  let ?at = "schedule_at (sp_PlantID sp) (sp_CareTypeID sp)"
  let ?f = "\<lambda>r. ?s\<lparr>cs_ID := cs_ID r, cs_GardenID := cs_GardenID r\<rparr>"
  have "care_ok (d\<lparr>t_care_schedule := update_where ?at ?f (t_care_schedule d)\<rparr>)" if c: "care_schedule_checks ?s"
  proof -
    have "map schedule_key (update_where ?at ?f (t_care_schedule d)) = map schedule_key (t_care_schedule d)"
      by (rule map_update_where) (simp add: schedule_key_def schedule_of_def)
    moreover have "care_schedule_checks (?f r)" for r
      using c by (simp only: checks_ids)
    ultimately show ?thesis
      using ok unfolding care_ok_def keys_ok_def by (auto simp: view_defs schedule_of_def)
  qed
  then show "UpsertCareSchedule i t sp d = Inr (s, d') \<Longrightarrow> care_ok d'"
    using add
    by (auto simp: UpsertCareSchedule_def Let_def update_returning_Inr update_returning_Inl filter_empty_conv
        list_ex_iff split: if_splits sum.splits)
qed

lemma care_ok_events:
  assumes "care_ok d"
  shows "i \<notin> ce_ID ` set (t_care_event d) \<Longrightarrow> CreateCareEvent i ep d = Inr (e, d') \<Longrightarrow> care_ok d'"
    "RestoreCareEvent i ep any by d = Inr (e, d') \<Longrightarrow> care_ok d'"
    "DeleteCareEvent i garden plant any by d = Inr (e, d') \<Longrightarrow> care_ok d'"
    "UpdateCareEvent ch i garden plant any by d = Inr (e, d') \<Longrightarrow> care_ok d'"
proof -
  note ok = assms [unfolded care_ok_def]
  have add: "care_ok (d\<lparr>t_care_event := t_care_event d @ [event_of i ep]\<rparr>)"
    if "i \<notin> ce_ID ` set (t_care_event d)" "event_keys (event_of i ep) d"
    using keys_ok_add_event [OF ok, of "event_of i ep"] that
    by (auto simp: care_ok_def view_defs event_keys_def has_keys event_of_def)
  show "i \<notin> ce_ID ` set (t_care_event d) \<Longrightarrow> CreateCareEvent i ep d = Inr (e, d') \<Longrightarrow> care_ok d'"
    using add by (auto simp: CreateCareEvent_def Let_def split: if_splits)
  show "RestoreCareEvent i ep any by d = Inr (e, d') \<Longrightarrow> care_ok d'"
    using add by (auto simp: RestoreCareEvent_def Let_def list_ex_iff split: if_splits)
  show "DeleteCareEvent i garden plant any by d = Inr (e, d') \<Longrightarrow> care_ok d'"
    using keys_ok_less(2) [OF ok]
    by (auto simp: DeleteCareEvent_def delete_returning_Inr care_ok_def view_defs delete_where_def
        split: sum.splits)
  assume up: "UpdateCareEvent ch i garden plant any by d = Inr (e, d')"
  let ?m = "may_touch i garden plant any by"
  have d': "d' = d\<lparr>t_care_event := update_where ?m (change_event ch) (t_care_event d)\<rparr>"
    and ct: "in_garden (ec_CareTypeID ch) garden (type_keys d)"
    using up by (auto simp: UpdateCareEvent_def update_returning_Inr has_keys split: sum.splits if_splits)
  have "map ce_ID (update_where ?m (change_event ch) (t_care_event d)) = map ce_ID (t_care_event d)"
    by (rule map_update_where) (simp add: change_event_def)
  then show "care_ok d'"
    using ok ct unfolding d' care_ok_def keys_ok_def
    by (auto simp: view_defs change_event_def may_touch_def)
qed

lemma care_step_ok: "care_step d d' \<Longrightarrow> care_ok d \<Longrightarrow> care_ok d'"
  by (induction rule: care_step.induct)
    (blast intro: care_ok_people care_ok_accounts care_ok_delete_garden care_ok_plants care_ok_photos care_ok_types care_ok_delete_type
      care_ok_schedules care_ok_events)+

inductive care_reachable :: "db \<Rightarrow> bool" where
  start: "care_reachable empty_db"
| step: "care_reachable d \<Longrightarrow> care_step d d' \<Longrightarrow> care_reachable d'"

lemma care_reachable_ok: "care_reachable d \<Longrightarrow> care_ok d"
proof (induction rule: care_reachable.induct)
  case start
  show ?case by (simp add: care_ok_def keys_ok_def view_defs empty_db_def)
qed (rule care_step_ok)

section \<open>Deleting an event\<close>

lemma care_ok_event:
  assumes "care_ok d"
  shows "distinct (map ce_ID (t_care_event d))" "e \<in> set (t_care_event d) \<Longrightarrow> event_keys e d"
  using assms by (auto simp: care_ok_def keys_ok_def event_keys_def has_keys)

lemma DeleteCareEvent_Inr:
  assumes "distinct (map ce_ID (t_care_event d))"
    "DeleteCareEvent eid garden plant any by d = Inr (e, d')"
  shows "e \<in> set (t_care_event d)" "may_touch eid garden plant any by e"
    "d' = d\<lparr>t_care_event := filter (\<lambda>x. ce_ID x \<noteq> eid) (t_care_event d)\<rparr>"
proof -
  obtain t where t: "filter (may_touch eid garden plant any by) (t_care_event d) = e # t"
    and d': "d' = d\<lparr>t_care_event := delete_where (may_touch eid garden plant any by) (t_care_event d)\<rparr>"
    using assms(2) by (auto simp: DeleteCareEvent_def delete_returning_Inr split: sum.splits prod.splits)
  from t have "e \<in> set (filter (may_touch eid garden plant any by) (t_care_event d))" by simp
  then show e: "e \<in> set (t_care_event d)" and m: "may_touch eid garden plant any by e" by auto
  have "may_touch eid garden plant any by x \<longleftrightarrow> ce_ID x = eid" if "x \<in> set (t_care_event d)" for x
    using m e that inj_onD [OF distinct_map [THEN iffD1, OF assms(1), THEN conjunct2], of x e]
    by (auto simp: may_touch_def)
  then have "delete_where (may_touch eid garden plant any by) (t_care_event d)
      = filter (\<lambda>x. ce_ID x \<noteq> eid) (t_care_event d)"
    unfolding delete_where_def by (intro filter_cong) auto
  with d' show "d' = d\<lparr>t_care_event := filter (\<lambda>x. ce_ID x \<noteq> eid) (t_care_event d)\<rparr>" by simp
qed

lemma mset_remove_key:
  assumes "distinct (map k xs)" "x \<in> set xs"
  shows "mset (filter (\<lambda>y. k y \<noteq> k x) xs @ [x]) = mset xs"
proof -
  have "mset xs = mset (filter (\<lambda>y. k y = k x) xs) + mset (filter (\<lambda>y. k y \<noteq> k x) xs)"
    by (simp add: multiset_partition)
  then show ?thesis using filter_unique_key [OF assms] by simp
qed

section \<open>The newest event of a schedule\<close>

lemma head_sorted:
  assumes "comparison cmp" "x \<in> set xs"
  obtains m t where "SortStableFunc cmp xs = m # t" "m \<in> set xs" "\<And>y. y \<in> set xs \<Longrightarrow> cmp m y \<le> 0"
proof (cases "SortStableFunc cmp xs")
  case Nil
  then show ?thesis using assms(2) set_SortStableFunc [of cmp xs] by simp
next
  case (Cons m t)
  have "set xs = set (m # t)" using set_SortStableFunc [of cmp xs] Cons by simp
  with comparison.sorted_SortStableFunc [OF assms(1), of xs] Cons comparison.refl [OF assms(1)]
  show ?thesis by (intro that [of m t]) auto
qed

lemma latest_event_cases:
  assumes "care_ok d" "s \<in> set (t_care_schedule d)"
  defines "mine \<equiv> \<lambda>x. x \<in> set (t_care_event d) \<and> (ce_PlantID x, ce_CareTypeID x) = schedule_key s"
  obtains "latest_event s d = []" "\<And>x. \<not> mine x"
    | e where "latest_event s d = [e]" "mine e" "\<And>x. mine x \<Longrightarrow> by_time_id ce_PerformedAt ce_ID x e \<le> 0"
proof -
  let ?p = "\<lambda>x. ce_GardenID x = cs_GardenID s \<and> ce_PlantID x = cs_PlantID s \<and> ce_CareTypeID x = cs_CareTypeID s"
  let ?xs = "filter ?p (t_care_event d)"
  have g: "ce_GardenID x = cs_GardenID s" if "mine x" for x
  proof -
    have "in_garden (cs_PlantID s) (cs_GardenID s) (plant_keys d)" "in_garden (ce_PlantID x) (ce_GardenID x) (plant_keys d)"
      "distinct (map fst (plant_keys d))"
      using assms that by (auto simp: care_ok_def keys_ok_def)
    with that show ?thesis
      by (auto simp: mine_def schedule_key_def in_garden_def list_ex_iff dest: eq_key_imp_eq_value)
  qed
  have mine: "mine x \<longleftrightarrow> x \<in> set ?xs" for x using g [of x] by (auto simp: mine_def schedule_key_def)
  show thesis
  proof (cases ?xs)
    case Nil
    then show thesis using that(1) mine by (simp add: latest_event_def SortStableFunc_def)
  next
    case (Cons x xs)
    then have "x \<in> set ?xs" by simp
    then obtain m t where m: "SortStableFunc (by_time_id_desc ce_PerformedAt ce_ID) ?xs = m # t" "m \<in> set ?xs"
      "\<And>y. y \<in> set ?xs \<Longrightarrow> by_time_id_desc ce_PerformedAt ce_ID m y \<le> 0"
      by (rule head_sorted [OF comparison_by_time_id_desc]) blast
    show thesis
      by (rule that(2) [of m]) (use m mine in \<open>auto simp: latest_event_def by_time_id_desc_def\<close>)
  qed
qed

lemma latest_map_None: "latest_map es k = None \<longleftrightarrow> k \<notin> (\<lambda>e. (ce_PlantID e, ce_CareTypeID e)) ` set es"
  by (induction es rule: rev_induct) (auto simp: latest_map_snoc latest_map_def)

lemma latest_of_schedule:
  assumes "care_ok d" "ListLatestCareEvents garden d = Inr latest" "s \<in> set (t_care_schedule d)"
    "cs_GardenID s = garden"
  shows "latest_map latest (schedule_key s) = (case latest_event s d of [] \<Rightarrow> None | e # _ \<Rightarrow> Some e)"
proof -
  let ?ss = "filter (\<lambda>s. cs_GardenID s = garden) (t_care_schedule d)"
  have latest: "set latest = (\<Union>s \<in> set ?ss. set (latest_event s d))"
    using assms(2) by (auto simp: ListLatestCareEvents_def)
  have key: "(ce_PlantID e, ce_CareTypeID e) = schedule_key s'" if "e \<in> set (latest_event s' d)" for e s'
    using that set_take_subset [of 1 "SortStableFunc (by_time_id_desc ce_PerformedAt ce_ID)
      (filter (\<lambda>e. ce_GardenID e = cs_GardenID s' \<and> ce_PlantID e = cs_PlantID s'
                    \<and> ce_CareTypeID e = cs_CareTypeID s') (t_care_event d))"]
    by (auto simp: latest_event_def schedule_key_def)
  have same: "s' = s" if "s' \<in> set (t_care_schedule d)" "schedule_key s' = schedule_key s" for s'
    using assms(1,3) that by (auto simp: care_ok_def keys_ok_def distinct_map inj_on_def)
  have mem: "e \<in> set latest \<and> (ce_PlantID e, ce_CareTypeID e) = schedule_key s \<longleftrightarrow> e \<in> set (latest_event s d)" for e
  proof
    assume "e \<in> set latest \<and> (ce_PlantID e, ce_CareTypeID e) = schedule_key s"
    with latest key show "e \<in> set (latest_event s d)" by (auto dest!: same)
  qed (use latest key assms(3,4) in auto)
  show ?thesis
  proof (cases "latest_event s d")
    case Nil
    then show ?thesis using mem latest_map_None [of latest "schedule_key s"] by (auto simp: image_iff)
  next
    case (Cons e t)
    have "length (latest_event s d) \<le> 1" by (simp add: latest_event_def)
    then have "t = []" by (simp add: Cons)
    have "latest_map latest (schedule_key s) \<noteq> None"
      using mem [of e] Cons unfolding latest_map_None by (auto intro: rev_image_eqI)
    then obtain x where x: "latest_map latest (schedule_key s) = Some x" by blast
    from latest_map_Some [OF x] mem [of x] Cons \<open>t = []\<close> show ?thesis by (simp add: x)
  qed
qed

section \<open>Properties\<close>

text \<open>A garden with a plant, a schedule and two events, and what it was written from.\<close>

definition ex_tables :: db where
  "ex_tables = empty_db
     \<lparr>t_garden := [\<lparr>ga_ID = ''g1'', ga_Name = ''Rosewood'', ga_CreatedAt = zero_time\<rparr>],
      t_app_user := [\<lparr>us_ID = ''u1'', us_DisplayName = ''Ellie'', us_Handle = ''ellie'', us_Timezone = ''UTC'',
        us_CreatedAt = zero_time, us_LastGardenID = None, us_ClosedAt = None\<rparr>],
      t_plant := [zero_Plant\<lparr>pl_ID := ''p1'', pl_GardenID := ''g1'', pl_Nickname := Some ''Doris''\<rparr>],
      t_care_type := [\<lparr>ct_ID = ''c1'', ct_GardenID = ''g1'', ct_Name = ''Water'', ct_Slug = ''water'',
        ct_Icon = ''water'', ct_CreatedAt = zero_time, ct_ArchivedAt = None\<rparr>],
      t_care_schedule := [zero_CareSchedule\<lparr>cs_ID := ''s1'', cs_GardenID := ''g1'', cs_PlantID := ''p1'',
        cs_CareTypeID := ''c1'', cs_IntervalCount := Some 7, cs_IntervalUnit := Some ''day''\<rparr>]\<rparr>"

definition ex_event :: "uuid \<Rightarrow> gotime \<Rightarrow> care_event" where
  "ex_event i t = zero_CareEvent\<lparr>ce_ID := i, ce_GardenID := ''g1'', ce_PlantID := ''p1'', ce_CareTypeID := ''c1'',
     ce_PerformedBy := ''u1'', ce_PerformedAt := t, ce_RecordedAt := t, ce_Done := True\<rparr>"

definition ex_care :: db where
  "ex_care = ex_tables\<lparr>t_care_event := [ex_event ''e1'' (mk_Date 2026 3 1 9 0 0 0 utc),
     ex_event ''e2'' (mk_Date 2026 3 8 9 0 0 0 utc)]\<rparr>"

lemmas ex_care_defs = ex_care_def ex_tables_def empty_db_def ex_event_def zero_CareEvent_def
  zero_CareSchedule_def zero_Plant_def

lemma ex_care_ok: "care_ok ex_care"
  by (simp add: care_ok_def keys_ok_def view_defs ex_care_defs in_garden_def if_set_def schedule_key_def
      care_schedule_checks_def)

text \<open>
  (C18) Whatever is written, in any order, to gardens, accounts, plants, care types, schedules, events
  and photos, deleting a garden with all that goes with it included, the care tables keep their
  integrity: ids and the keys (plant, care type) and
  (garden, slug) stay unique, every stored schedule passes the checks, a schedule, an event and a
  photo name a plant and a care type of their own garden, and a plant's picture is one of its own
  photos.
\<close>

theorem care_tables_integrity:
  assumes "care_reachable d"
  shows "care_ok d"
  using assms by (rule care_reachable_ok)

theorem care_tables_integrity_witness: "\<exists>d. care_reachable d \<and> t_garden d \<noteq> [] \<and> t_plant d \<noteq> [] \<and> care_ok d"
proof -
  let ?f = "\<lparr>pf_Nickname = Some ''Doris'', pf_CommonName = None, pf_BotanicalName = None, pf_Location = None,
    pf_Sun = None, pf_WaterNeeds = None, pf_FeedNeeds = None, pf_Soil = None, pf_Climate = None, pf_Pot = None,
    pf_Notes = None, pf_AcquiredYear = None, pf_AcquiredMonth = None\<rparr>"
  let ?g = "\<lparr>ga_ID = ''g1'', ga_Name = ''Rosewood'', ga_CreatedAt = zero_time\<rparr>"
  let ?d1 = "empty_db\<lparr>t_garden := [?g]\<rparr>"
  let ?p = "set_plant_fields ?f (zero_Plant\<lparr>pl_ID := ''p1'', pl_GardenID := ''g1'', pl_CreatedAt := zero_time\<rparr>)"
  have 1: "care_reachable ?d1"
    by (rule care_reachable.step [OF care_reachable.start], rule care_step.add_garden
        [where i = "''g1''" and t = zero_time and name = "''Rosewood''" and g = ?g])
      (simp_all add: CreateGarden_def has_garden_def empty_db_def Let_def)
  have 2: "care_reachable (?d1\<lparr>t_plant := [?p]\<rparr>)"
    by (rule care_reachable.step [OF 1], rule care_step.add_plant
        [where i = "''p1''" and t = zero_time and garden = "''g1''" and a = ?f and p = ?p])
      (simp_all add: CreatePlant_def has_garden_def empty_db_def plant_keys_def Let_def)
  from care_tables_integrity [OF 2] 2 show ?thesis by (intro exI [of _ "?d1\<lparr>t_plant := [?p]\<rparr>"]) simp
qed

text \<open>
  The schedule engine sees the newest care: for every schedule of a garden, the event
  \<open>Resolve\<close> finds in the result of \<open>ListLatestCareEvents\<close> is one of the plant and care type than
  which none is newer by time and then id, and it finds none exactly when nothing was logged.
\<close>

theorem latest_care_is_newest:
  assumes "care_ok d" "ListLatestCareEvents garden d = Inr latest" "s \<in> set (t_care_schedule d)"
    "cs_GardenID s = garden"
  defines "mine \<equiv> \<lambda>x. x \<in> set (t_care_event d) \<and> (ce_PlantID x, ce_CareTypeID x) = (cs_PlantID s, cs_CareTypeID s)"
  shows "case latest_map latest (cs_PlantID s, cs_CareTypeID s) of
      None \<Rightarrow> (\<forall>x. \<not> mine x)
    | Some e \<Rightarrow> mine e \<and> (\<forall>x. mine x \<longrightarrow> by_time_id ce_PerformedAt ce_ID x e \<le> 0)"
  using latest_of_schedule [OF assms(1-4)] latest_event_cases [OF assms(1,3)]
  unfolding mine_def by (cases "latest_event s d") (auto simp: schedule_key_def)

theorem latest_care_is_newest_witness:
  "\<exists>latest. ListLatestCareEvents ''g1'' ex_care = Inr latest \<and>
    map_option ce_ID (latest_map latest (''p1'', ''c1'')) = Some ''e2''"
proof -
  let ?s = "zero_CareSchedule\<lparr>cs_ID := ''s1'', cs_GardenID := ''g1'', cs_PlantID := ''p1'',
        cs_CareTypeID := ''c1'', cs_IntervalCount := Some 7, cs_IntervalUnit := Some ''day''\<rparr>"
  have s: "?s \<in> set (t_care_schedule ex_care)" "cs_GardenID ?s = ''g1''" "cs_PlantID ?s = ''p1''" "cs_CareTypeID ?s = ''c1''"
    by (simp_all add: ex_care_defs)
  obtain latest where l: "ListLatestCareEvents ''g1'' ex_care = Inr latest" by (simp add: ListLatestCareEvents_def)
  define t1 t2 where t: "t1 = mk_Date 2026 3 1 9 0 0 0 utc" "t2 = mk_Date 2026 3 8 9 0 0 0 utc"
  let ?e1 = "ex_event ''e1'' t1" and ?e2 = "ex_event ''e2'' t2"
  have n: "nsec t1 < nsec t2" unfolding t by code_simp
  have mem: "x \<in> set (t_care_event ex_care) \<longleftrightarrow> x = ?e1 \<or> x = ?e2" for x
    by (auto simp: ex_care_def t)
  have k: "ce_PlantID (ex_event i u) = ''p1''" "ce_CareTypeID (ex_event i u) = ''c1''"
    "ce_PerformedAt (ex_event i u) = u" "ce_ID (ex_event i u) = i" for i u
    by (simp_all add: ex_event_def)
  note newest = latest_care_is_newest [OF ex_care_ok l s(1,2), unfolded s mem]
  show ?thesis
  proof (cases "latest_map latest (''p1'', ''c1'')")
    case None
    with newest have "False" by (auto simp: k dest: spec [of _ ?e1])
    then show ?thesis ..
  next
    case (Some e)
    with newest have "e = ?e1 \<or> e = ?e2" "by_time_id ce_PerformedAt ce_ID ?e2 e \<le> 0" by (auto simp: k)
    with n have "e = ?e2" by (auto simp: by_time_id_def k)
    with Some l show ?thesis by (simp add: k)
  qed
qed

end
