(* ===== verification/Push_Deliver.thy ===== *)
theory Push_Deliver
  imports Store_Notify Go_Text
begin

text \<open>
  Sending one notification to one person's browsers: \<open>sender.go\<close>, \<open>deliver.go\<close> and the parts
  of \<open>job.go\<close> and \<open>notifier.go\<close> the jobs share, under \<open>src/internal/push\<close>.

  The push service is outside the program.  What it answers to the requests to come is a list in
  the state a job runs in, beside the database's; what was sent is recorded in \<open>pw_outbox\<close>, which
  a rolled-back transaction does not undo.  The context is a list too: one reading of \<open>ctx.Err()\<close>
  per look at it.
\<close>

section \<open>sender.go\<close>

record notification =
  no_Title :: string
  no_Body :: string
  no_URL :: string
  no_Icon :: string
  no_Tag :: string

datatype response = Status int | Unreachable

record push_world =
  pw_world :: world
  pw_responses :: "response list"
  pw_outbox :: "(push_subscription \<times> notification) list"
  pw_done :: "bool list"

datatype push_error =
    ErrGone
  | ErrRefused
  | StoreFailure db_error

text \<open>The switch on the status: 404 and 410 mean the browser is gone, and anything outside 200 to
  299 is an error.\<close>

definition answer :: "response \<Rightarrow> push_error option" where
  "answer r =
     (case r of
        Unreachable \<Rightarrow> Some ErrRefused
      | Status code \<Rightarrow>
          if code = 404 \<or> code = 410 then Some ErrGone
          else if code < 200 \<or> 299 < code then Some ErrRefused
          else None)"

definition Send :: "push_subscription \<Rightarrow> notification \<Rightarrow> push_world \<Rightarrow> push_error option \<times> push_world" where
  "Send sub n pw =
     (let sent = pw\<lparr>pw_outbox := pw_outbox pw @ [(sub, n)]\<rparr> in
      case pw_responses pw of
        [] \<Rightarrow> (None, sent)
      | r # rs \<Rightarrow> (answer r, sent\<lparr>pw_responses := rs\<rparr>))"

section \<open>Database calls and transactions of a job\<close>

definition on_world :: "(world \<Rightarrow> 'a \<times> world) \<Rightarrow> push_world \<Rightarrow> 'a \<times> push_world" where
  "on_world f pw = (case f (pw_world pw) of (x, w) \<Rightarrow> (x, pw\<lparr>pw_world := w\<rparr>))"

abbreviation reads_db :: "(db \<Rightarrow> db_error + 'a) \<Rightarrow> push_world \<Rightarrow> (db_error + 'a) \<times> push_world" where
  "reads_db q \<equiv> on_world (reading q)"

abbreviation writes_db :: "(db \<Rightarrow> db_error + 'a \<times> db) \<Rightarrow> push_world \<Rightarrow> (db_error + 'a) \<times> push_world" where
  "writes_db q \<equiv> on_world (writing q)"

abbreviation pw_tables :: "push_world \<Rightarrow> db" where
  "pw_tables pw \<equiv> tables (pw_world pw)"

definition set_tables :: "db \<Rightarrow> push_world \<Rightarrow> push_world" where
  "set_tables d pw = pw\<lparr>pw_world := (pw_world pw)\<lparr>tables := d\<rparr>\<rparr>"

text \<open>\<open>InTx\<close> around a function that also sends: the tables are rolled back, the messages are
  out.  \<open>None\<close> stands for a function that does not return.\<close>

definition InTx_push ::
  "(push_world \<Rightarrow> ((db_error + 'a) \<times> push_world) option) \<Rightarrow> push_world \<Rightarrow> ((db_error + 'a) \<times> push_world) option" where
  "InTx_push fn pw =
     (case on_world next_fault pw of (failed, pw0) \<Rightarrow>
        if failed then Some (Inl Failure, pw0)
        else (case fn pw0 of
                None \<Rightarrow> None
              | Some (Inl e, pw1) \<Rightarrow> Some (Inl e, set_tables (pw_tables pw0) pw1)
              | Some (Inr x, pw1) \<Rightarrow>
                  (case on_world next_fault pw1 of (failed, pw2) \<Rightarrow>
                     Some (if failed then (Inl Failure, set_tables (pw_tables pw0) pw2) else (Inr x, pw2)))))"

definition ctx_done :: "push_world \<Rightarrow> bool \<times> push_world" where
  "ctx_done pw = (case pw_done pw of [] \<Rightarrow> (False, pw) | b # bs \<Rightarrow> (b, pw\<lparr>pw_done := bs\<rparr>))"

section \<open>deliver.go\<close>

definition sendOne ::
  "push_subscription \<Rightarrow> notification \<Rightarrow> gotime \<Rightarrow> push_world \<Rightarrow> push_error option \<times> push_world" where
  "sendOne sub n now pw =
     (case Send sub n pw of
        (Some ErrGone, pw) \<Rightarrow>
          (case writes_db (DeletePushSubscription (ps_UserID sub) (ps_ID sub)) pw of
             (Inl e, pw) \<Rightarrow> (Some (StoreFailure e), pw)
           | (Inr _, pw) \<Rightarrow> (Some ErrGone, pw))
      | (Some e, pw) \<Rightarrow> (Some e, pw)
      | (None, pw) \<Rightarrow>
          (case writes_db (SetPushSubscriptionSent (Some now) (ps_UserID sub) (ps_ID sub)) pw of
             (Inl e, pw) \<Rightarrow> (Some (StoreFailure e), pw)
           | (Inr _, pw) \<Rightarrow> (None, pw)))"

text \<open>The loop of \<open>deliver\<close>, with the number sent so far.\<close>

fun deliver_from ::
  "int \<Rightarrow> push_subscription list \<Rightarrow> notification \<Rightarrow> gotime \<Rightarrow> push_world \<Rightarrow> (db_error + int) \<times> push_world" where
  "deliver_from sent [] n now pw = (Inr sent, pw)"
| "deliver_from sent (sub # subs) n now pw =
     (case sendOne sub n now pw of
        (Some (StoreFailure e), pw) \<Rightarrow> (Inl e, pw)
      | (Some _, pw) \<Rightarrow> deliver_from sent subs n now pw
      | (None, pw) \<Rightarrow> deliver_from (sent + 1) subs n now pw)"

definition deliver ::
  "push_subscription list \<Rightarrow> notification \<Rightarrow> gotime \<Rightarrow> push_world \<Rightarrow> (db_error + int) \<times> push_world" where
  "deliver subs n now pw = deliver_from 0 subs n now pw"

section \<open>job.go and notifier.go\<close>

definition retryAfter :: int where "retryAfter = minute_ns"

text \<open>How long a job sleeps: \<open>None\<close> until a wake, otherwise until the timer fires.\<close>

definition job_sleep :: "(db_error + gotime) \<Rightarrow> gotime \<Rightarrow> int option" where
  "job_sleep look now =
     (let next = (case look of Inl _ \<Rightarrow> Add now retryAfter | Inr t \<Rightarrow> t) in
      if IsZero next then None else Some (Sub next now))"

definition locationOf :: "(string \<Rightarrow> location option) \<Rightarrow> string \<Rightarrow> location" where
  "locationOf LoadLocation timezone = (case LoadLocation timezone of None \<Rightarrow> utc | Some l \<Rightarrow> l)"

definition absolute :: "string \<Rightarrow> string \<Rightarrow> string" where
  "absolute baseURL path = (if path = '''' then '''' else baseURL @ path)"

text \<open>The possessive apostrophe is U+2019, three bytes.\<close>

definition apostrophe :: string where
  "apostrophe = map char_of [226 :: nat, 128, 153]"

definition GardenNamed :: "string \<Rightarrow> string \<Rightarrow> bool \<Rightarrow> string" where
  "GardenNamed garden ownerName toOwner =
     (if toOwner \<or> ownerName = '''' then garden else ownerName @ apostrophe @ ''s '' @ garden)"

record recipient =
  to_membershipID :: uuid
  to_gardenID :: uuid
  to_userID :: uuid
  to_handle :: string
  to_garden :: string

text \<open>The closure \<open>soonest\<close> of both jobs: the earlier of two instants, where a zero one is none.\<close>

definition soonest :: "gotime \<Rightarrow> gotime \<Rightarrow> gotime" where
  "soonest next at = (if IsZero next \<or> Before at next then at else next)"

section \<open>What a call can change\<close>

lemma on_world_frame:
  assumes "on_world f pw = (x, pw')"
  shows "pw_outbox pw' = pw_outbox pw" "pw_world pw' = snd (f (pw_world pw))" "x = fst (f (pw_world pw))"
  using assms by (auto simp: on_world_def split: prod.splits)

lemma reads_db_frame:
  assumes "reads_db q pw = (r, pw')"
  shows "pw_tables pw' = pw_tables pw" "pw_outbox pw' = pw_outbox pw"
  using on_world_frame [OF assms] by simp_all

lemma next_fault_frame:
  assumes "on_world next_fault pw = (b, pw')"
  shows "pw_tables pw' = pw_tables pw" "pw_outbox pw' = pw_outbox pw"
  using on_world_frame [OF assms] by simp_all

lemma writing_cases:
  assumes "writing q w = (r, w')"
  obtains e where "r = Inl e" "tables w' = tables w"
    | x d where "r = Inr x" "q (tables w) = Inr (x, d)" "tables w' = d"
proof -
  obtain b w0 where b: "next_fault w = (b, w0)" by fastforce
  have "tables w0 = tables w" using next_fault_tables [of w] b by simp
  with that assms b show thesis by (auto simp: writing_def split: if_splits sum.splits)
qed

lemma writes_db_cases:
  assumes "writes_db q pw = (r, pw')"
  obtains e where "r = Inl e" "pw_tables pw' = pw_tables pw" "pw_outbox pw' = pw_outbox pw"
    | x d where "r = Inr x" "q (pw_tables pw) = Inr (x, d)" "pw_tables pw' = d" "pw_outbox pw' = pw_outbox pw"
proof -
  note f = on_world_frame [OF assms]
  obtain r' w' where w: "writing q (pw_world pw) = (r', w')" by fastforce
  with f have "r = r'" "pw_world pw' = w'" by simp_all
  from writing_cases [OF w] that f(1) this show thesis by metis
qed

text \<open>The tables but for the browsers.\<close>

definition but_browsers :: "db \<Rightarrow> db" where
  "but_browsers d = d\<lparr>t_push_subscription := []\<rparr>"

lemma Send_tables [simp]: "pw_tables (snd (Send sub n pw)) = pw_tables pw"
  by (simp add: Send_def Let_def split: list.split)

lemma sendOne_tables:
  assumes "sendOne sub n now pw = (r, pw')"
  shows "but_browsers (pw_tables pw') = but_browsers (pw_tables pw)"
proof -
  obtain a pw1 where s: "Send sub n pw = (a, pw1)" by fastforce
  have 1: "pw_tables pw1 = pw_tables pw" using Send_tables [of sub n pw] s by simp
  have w: "but_browsers (pw_tables pw') = but_browsers (pw_tables pw1)"
    if "writes_db q pw1 = (x, pw')" "\<And>d y d'. q d = Inr (y, d') \<Longrightarrow> but_browsers d' = but_browsers d" for q :: "db \<Rightarrow> db_error + 'x \<times> db" and x
    by (rule writes_db_cases [OF that(1)]) (use that(2) in auto)
  show ?thesis
  proof (cases a)
    case None
    obtain x pw2 where "writes_db (SetPushSubscriptionSent (Some now) (ps_UserID sub) (ps_ID sub)) pw1 = (x, pw2)"
      by fastforce
    then show ?thesis
      using assms s 1 None w [of "SetPushSubscriptionSent (Some now) (ps_UserID sub) (ps_ID sub)"]
      by (auto simp: sendOne_def SetPushSubscriptionSent_def but_browsers_def split: sum.splits)
  next
    case (Some e)
    obtain x pw2 where "writes_db (DeletePushSubscription (ps_UserID sub) (ps_ID sub)) pw1 = (x, pw2)" by fastforce
    then show ?thesis
      using assms s 1 Some w [of "DeletePushSubscription (ps_UserID sub) (ps_ID sub)"]
      by (cases e) (auto simp: sendOne_def DeletePushSubscription_def but_browsers_def Let_def split: sum.splits)
  qed
qed

lemma deliver_from_tables:
  "deliver_from sent subs n now pw = (r, pw') \<Longrightarrow> but_browsers (pw_tables pw') = but_browsers (pw_tables pw)"
proof (induction subs arbitrary: sent pw)
  case (Cons sub subs)
  obtain a pw1 where s: "sendOne sub n now pw = (a, pw1)" by fastforce
  show ?case
    using Cons.prems Cons.IH sendOne_tables [OF s] s by (cases a) (auto split: push_error.splits)
qed simp

lemma send_claimed_browsers: "but_browsers d' = but_browsers d \<Longrightarrow> send_claimed k d' = send_claimed k d"
  by (drule arg_cong [of _ _ t_notification_send]) (simp add: but_browsers_def send_claimed_rows)

text \<open>A transaction: its tables are the function's when it commits and the old ones when not.\<close>

lemma InTx_push_cases:
  assumes "InTx_push fn pw = Some (r, pw')"
  obtains
    e where "r = Inl e" "pw_tables pw' = pw_tables pw" "pw_outbox pw' = pw_outbox pw"
  | e pw0 r1 pw1 where "r = Inl e" "pw_tables pw' = pw_tables pw" "fn pw0 = Some (r1, pw1)"
      "pw_tables pw0 = pw_tables pw" "pw_outbox pw0 = pw_outbox pw" "pw_outbox pw' = pw_outbox pw1"
  | x pw0 pw1 where "r = Inr x" "fn pw0 = Some (Inr x, pw1)" "pw_tables pw' = pw_tables pw1"
      "pw_tables pw0 = pw_tables pw" "pw_outbox pw0 = pw_outbox pw" "pw_outbox pw' = pw_outbox pw1"
proof -
  obtain b pw0 where b: "on_world next_fault pw = (b, pw0)" by fastforce
  note f0 = next_fault_frame [OF b]
  show thesis
  proof (cases b)
    case True
    with assms b f0 show thesis by (auto simp: InTx_push_def intro: that(1))
  next
    case False
    with assms b obtain r1 pw1 where fn: "fn pw0 = Some (r1, pw1)"
      by (auto simp: InTx_push_def split: option.splits)
    obtain b2 pw2 where b2: "on_world next_fault pw1 = (b2, pw2)" by fastforce
    note f1 = next_fault_frame [OF b2]
    show thesis
    proof (cases r1)
      case (Inl e)
      with assms b False fn have "r = Inl e" "pw' = set_tables (pw_tables pw0) pw1" by (auto simp: InTx_push_def)
      with fn f0 show thesis by (intro that(2) [of e pw0 r1 pw1]) (auto simp: set_tables_def)
    next
      case (Inr x)
      with assms b False fn b2 have "(r, pw') = (if b2 then (Inl Failure, set_tables (pw_tables pw0) pw2) else (Inr x, pw2))"
        by (simp add: InTx_push_def)
      with fn f0 f1 Inr show thesis
        by (cases b2) (auto simp: set_tables_def intro: that(2) [of Failure pw0 r1 pw1] that(3) [of x pw0 pw1])
    qed
  qed
qed

section \<open>At most one committed send\<close>

text \<open>
  What makes a send of a job happen once: it leaves the ledger alone unless it commits, a
  committed one has its key in the ledger, and a key that is there keeps it from sending.
\<close>

locale sends_once =
  fixes attempt :: "'a \<Rightarrow> push_world \<Rightarrow> ((db_error + unit) \<times> push_world) option"
    and key :: "'a \<Rightarrow> 'k"
    and claimed :: "'k \<Rightarrow> db \<Rightarrow> bool"
  assumes silent: "attempt a pw = Some (r, pw') \<Longrightarrow> claimed (key a) (pw_tables pw) \<Longrightarrow> pw_outbox pw' = pw_outbox pw"
    and commits: "attempt a pw = Some (Inr u, pw') \<Longrightarrow> claimed (key a) (pw_tables pw')"
    and keeps: "attempt a pw = Some (r, pw') \<Longrightarrow> claimed k (pw_tables pw) \<Longrightarrow> claimed k (pw_tables pw')"

text \<open>A run of attempts, in any order and with whatever failures, as what each did: its key,
  whether it committed and the messages it sent.  It ends early at a call that does not return.\<close>

fun run ::
  "('a \<Rightarrow> push_world \<Rightarrow> ((db_error + unit) \<times> push_world) option) \<Rightarrow> ('a \<Rightarrow> 'k) \<Rightarrow> 'a list \<Rightarrow> push_world \<Rightarrow>
     ('k \<times> bool \<times> (push_subscription \<times> notification) list) list" where
  "run attempt key [] pw = []"
| "run attempt key (a # as) pw =
     (case attempt a pw of
        None \<Rightarrow> []
      | Some (r, pw') \<Rightarrow>
          (key a, \<not> isl r, drop (length (pw_outbox pw)) (pw_outbox pw')) # run attempt key as pw')"

context sends_once
begin

lemma claimed_silent:
  "claimed k (pw_tables pw) \<Longrightarrow> (k, c, ms) \<in> set (run attempt key as pw) \<Longrightarrow> ms = []"
proof (induction as arbitrary: pw)
  case (Cons a as)
  show ?case
  proof (cases "attempt a pw")
    case (Some x)
    obtain r pw' where x: "attempt a pw = Some (r, pw')" using Some by (cases x) auto
    from Cons.prems(2) x consider "k = key a" "ms = drop (length (pw_outbox pw)) (pw_outbox pw')"
      | "(k, c, ms) \<in> set (run attempt key as pw')" by auto
    then show ?thesis
    proof cases
      case 1
      with silent [OF x] Cons.prems(1) show ?thesis by simp
    qed (use Cons.IH keeps [OF x Cons.prems(1)] in blast)
  qed (use Cons.prems in simp)
qed simp

text \<open>Nothing is sent for a key after an attempt for it committed.\<close>

lemma once:
  assumes "run attempt key as pw ! i = (k, True, ms)" "run attempt key as pw ! j = (k, c, ns)" "i < j"
    "j < length (run attempt key as pw)"
  shows "ns = []"
  using assms
proof (induction as arbitrary: pw i j)
  case (Cons a as)
  show ?case
  proof (cases "attempt a pw")
    case (Some x)
    obtain r pw' where x: "attempt a pw = Some (r, pw')" using Some by (cases x) auto
    obtain j' where j: "j = Suc j'" using Cons.prems(3) by (cases j) auto
    show ?thesis
    proof (cases i)
      case 0
      with Cons.prems(1) x have "k = key a" "\<not> isl r" by auto
      with x obtain u where "attempt a pw = Some (Inr u, pw')" by (cases r) auto
      then have "claimed k (pw_tables pw')" unfolding \<open>k = key a\<close> by (rule commits)
      moreover have "(k, c, ns) \<in> set (run attempt key as pw')"
        using Cons.prems(2,4) x j by (auto simp: in_set_conv_nth)
      ultimately show ?thesis by (rule claimed_silent)
    next
      case (Suc i')
      with Cons.prems x j show ?thesis by (intro Cons.IH [of pw' i' j']) auto
    qed
  qed (use Cons.prems in simp)
qed simp

end

text \<open>A claim, then work that leaves the ledger alone: the shape of every send.\<close>

definition claims_first :: "(push_world \<Rightarrow> ((db_error + unit) \<times> push_world) option) \<Rightarrow> uuid \<times> string \<times> string \<Rightarrow> bool" where
  "claims_first fn k \<longleftrightarrow> (\<forall>pw r pw'. fn pw = Some (r, pw') \<longrightarrow>
     (send_claimed k (pw_tables pw) \<longrightarrow> pw_outbox pw' = pw_outbox pw)
     \<and> (\<not> isl r \<longrightarrow> send_claimed k (pw_tables pw'))
     \<and> (\<forall>k'. send_claimed k' (pw_tables pw) \<longrightarrow> send_claimed k' (pw_tables pw')))"

lemma claims_firstI:
  assumes "\<And>pw r pw'. fn pw = Some (r, pw') \<Longrightarrow> send_claimed k (pw_tables pw) \<Longrightarrow> pw_outbox pw' = pw_outbox pw"
    "\<And>pw r pw'. fn pw = Some (r, pw') \<Longrightarrow> \<not> isl r \<Longrightarrow> send_claimed k (pw_tables pw')"
    "\<And>pw r pw' k'. fn pw = Some (r, pw') \<Longrightarrow> send_claimed k' (pw_tables pw) \<Longrightarrow> send_claimed k' (pw_tables pw')"
  shows "claims_first fn k"
  unfolding claims_first_def by (intro allI impI conjI) (use assms in blast)+

lemma claim_then:
  assumes "writes_db (ClaimNotificationSend t m kind key) pw = (r, pw1)"
  shows "r = Inr n \<Longrightarrow> send_claimed (m, kind, key) (pw_tables pw1)"
    "r = Inr n \<Longrightarrow> send_claimed (m, kind, key) (pw_tables pw) \<Longrightarrow> n = 0"
    "send_claimed k' (pw_tables pw) \<Longrightarrow> send_claimed k' (pw_tables pw1)"
    "pw_outbox pw1 = pw_outbox pw"
proof -
  have new: "x = 0" if "ClaimNotificationSend t m kind key d = Inr (x, d')" "send_claimed (m, kind, key) d" for x d d'
    using sends.claim_new [of t "(m, kind, key)" d x d'] that by auto
  have puts: "send_claimed (m, kind, key) d'" if "ClaimNotificationSend t m kind key d = Inr (x, d')" for x d d'
    using sends.claim_puts [of t "(m, kind, key)" d x d'] that by simp
  have keep: "send_claimed k' d'" if "ClaimNotificationSend t m kind key d = Inr (x, d')" "send_claimed k' d" for x d d' k'
    using sends.claim_keeps [of t "(m, kind, key)" d x d' k'] that by simp
  show "r = Inr n \<Longrightarrow> send_claimed (m, kind, key) (pw_tables pw1)"
    by (rule writes_db_cases [OF assms]) (auto dest: puts)
  show "r = Inr n \<Longrightarrow> send_claimed (m, kind, key) (pw_tables pw) \<Longrightarrow> n = 0"
    by (rule writes_db_cases [OF assms]) (auto dest: new)
  show "send_claimed k' (pw_tables pw) \<Longrightarrow> send_claimed k' (pw_tables pw1)"
    by (rule writes_db_cases [OF assms]) (auto dest: keep)
  show "pw_outbox pw1 = pw_outbox pw"
    by (rule writes_db_cases [OF assms]) auto
qed

lemma claims_first_claim:
  assumes work: "\<And>pw r pw'. work pw = Some (r, pw') \<Longrightarrow> but_browsers (pw_tables pw') = but_browsers (pw_tables pw)"
  shows "claims_first (\<lambda>pw. case writes_db (ClaimNotificationSend t m kind key) pw of
      (Inl e, pw) \<Rightarrow> Some (Inl e, pw)
    | (Inr claimed, pw) \<Rightarrow> if claimed = 0 then Some (Inr (), pw) else work pw) (m, kind, key)"
    (is "claims_first ?fn ?k")
proof (rule claims_firstI)
  fix pw r pw'
  assume fn: "?fn pw = Some (r, pw')"
  obtain c pw1 where c: "writes_db (ClaimNotificationSend t m kind key) pw = (c, pw1)" by fastforce
  note claim = claim_then [OF c]
  have cases: "pw' = pw1 \<and> (\<not> isl r \<longrightarrow> \<not> isl c) \<or> (\<exists>n. c = Inr n \<and> n \<noteq> 0) \<and> work pw1 = Some (r, pw')"
    using fn c by (cases c) (auto split: if_splits)
  show "pw_outbox pw' = pw_outbox pw" if "send_claimed ?k (pw_tables pw)"
    using cases claim(2) that claim(4) by auto
  show "send_claimed ?k (pw_tables pw')" if "\<not> isl r"
    using cases claim(1) that send_claimed_browsers [OF work] by (cases c) auto
  show "send_claimed k' (pw_tables pw')" if "send_claimed k' (pw_tables pw)" for k'
    using cases claim(3) [OF that] send_claimed_browsers [OF work, of pw1 r pw' k'] by auto
qed

lemma claims_first_write:
  assumes fn: "claims_first fn k"
    and frame: "\<And>d x d'. q d = Inr (x, d') \<Longrightarrow> t_notification_send d' = t_notification_send d"
  shows "claims_first (\<lambda>pw. case writes_db q pw of (Inl e, pw) \<Rightarrow> Some (Inl e, pw) | (Inr _, pw) \<Rightarrow> fn pw) k"
    (is "claims_first ?fn k")
proof (rule claims_firstI)
  fix pw r pw'
  assume run: "?fn pw = Some (r, pw')"
  obtain c pw1 where c: "writes_db q pw = (c, pw1)" by fastforce
  have same: "send_claimed k' (pw_tables pw1) = send_claimed k' (pw_tables pw)" "pw_outbox pw1 = pw_outbox pw" for k'
    by (rule writes_db_cases [OF c]; auto simp: send_claimed_rows dest!: frame)+
  have cases: "isl r \<and> pw' = pw1 \<or> fn pw1 = Some (r, pw')" using run c by (cases c) auto
  show "send_claimed k (pw_tables pw) \<Longrightarrow> pw_outbox pw' = pw_outbox pw"
    using cases fn same unfolding claims_first_def by metis
  show "\<not> isl r \<Longrightarrow> send_claimed k (pw_tables pw')"
    using cases fn unfolding claims_first_def by metis
  show "send_claimed k' (pw_tables pw) \<Longrightarrow> send_claimed k' (pw_tables pw')" for k'
    using cases fn same unfolding claims_first_def by metis
qed

lemma claims_first_tx:
  assumes tx: "InTx_push fn pw = Some (r, pw')" and first: "claims_first fn k"
  shows "send_claimed k (pw_tables pw) \<Longrightarrow> pw_outbox pw' = pw_outbox pw"
    "r = Inr u \<Longrightarrow> send_claimed k (pw_tables pw')"
    "send_claimed k' (pw_tables pw) \<Longrightarrow> send_claimed k' (pw_tables pw')"
    "r = Inl e \<Longrightarrow> pw_tables pw' = pw_tables pw"
proof -
  have f: "(send_claimed k (pw_tables pw0) \<longrightarrow> pw_outbox pw1 = pw_outbox pw0)
      \<and> (\<not> isl r1 \<longrightarrow> send_claimed k (pw_tables pw1))
      \<and> (\<forall>k'. send_claimed k' (pw_tables pw0) \<longrightarrow> send_claimed k' (pw_tables pw1))"
    if "fn pw0 = Some (r1, pw1)" for pw0 r1 pw1
    using first that unfolding claims_first_def by blast
  show "send_claimed k (pw_tables pw) \<Longrightarrow> pw_outbox pw' = pw_outbox pw"
    by (rule InTx_push_cases [OF tx]) (metis f)+
  show "r = Inr u \<Longrightarrow> send_claimed k (pw_tables pw')"
    by (rule InTx_push_cases [OF tx]) (use f sum.disc(2) in \<open>metis sum.simps(4)\<close>)+
  show "send_claimed k' (pw_tables pw) \<Longrightarrow> send_claimed k' (pw_tables pw')"
    by (rule InTx_push_cases [OF tx]) (metis f)+
  show "r = Inl e \<Longrightarrow> pw_tables pw' = pw_tables pw"
    by (rule InTx_push_cases [OF tx]) auto
qed

end
