(* ===== verification/Push_Digest.thy ===== *)
theory Push_Digest
  imports Push_Deliver Push_Hour Store_Integrity
begin

text \<open>
  The digest job: \<open>src/internal/push/digest.go\<close>.  One look, \<open>sendDue\<close>, sends every reminder and
  digest whose time has come and returns the instant of the next.  Each send claims its row in
  the ledger in the transaction it sends in.

  Log lines are left out.  \<open>time.LoadLocation\<close>, \<open>unicode.ToUpper\<close>, the database's collation and
  the time \<open>now()\<close> gives a ledger row are parameters, in the record \<open>env\<close>.  \<open>None\<close> is a call that
  does not return.
\<close>

section \<open>The text of a digest\<close>

definition capitalise :: "(nat \<Rightarrow> nat) \<Rightarrow> string \<Rightarrow> string" where
  "capitalise ToUpper s =
     (case DecodeRune s of (r, width) \<Rightarrow>
        if r = RuneError then s else EncodeRune (ToUpper r) @ drop width s)"

definition listOf :: "string list \<Rightarrow> string" where
  "listOf names =
     (if length names \<le> 1 then Join names ''''
      else Join (butlast names) '', '' @ '' and '' @ last names)"

text \<open>One turn of the loop of \<open>digestOf\<close>: the plant joins the group of its care, or starts it.\<close>

fun add_to_group :: "string \<Rightarrow> string \<Rightarrow> (string \<times> string list) list \<Rightarrow> (string \<times> string list) list" where
  "add_to_group care plant [] = [(care, [plant])]"
| "add_to_group care plant ((c, ps) # gs) =
     (if c = care then (c, ps @ [plant]) # gs else (c, ps) # add_to_group care plant gs)"

definition due_lines :: "line list \<Rightarrow> line list" where
  "due_lines lines = filter (\<lambda>l. ln_State l \<le> DueToday) lines"

definition digest_groups :: "line list \<Rightarrow> (string \<times> string list) list" where
  "digest_groups lines =
     foldl (\<lambda>gs l. add_to_group (ct_Name (ln_CareType l)) (DisplayName (ln_Plant l)) gs) [] (due_lines lines)"

definition digestOf :: "(nat \<Rightarrow> nat) \<Rightarrow> string \<Rightarrow> line list \<Rightarrow> string \<Rightarrow> notification \<times> int" where
  "digestOf ToUpper garden lines url =
     (let sentences = map (\<lambda>(care, plants). capitalise ToUpper care @ '' '' @ listOf plants @ ''.'')
                        (digest_groups lines)
      in (\<lparr>no_Title = garden, no_Body = Join sentences '' '', no_URL = url, no_Icon = '''', no_Tag = ''''\<rparr>,
          int (length (due_lines lines))))"

section \<open>One send\<close>

record env =
  ev_LoadLocation :: "string \<Rightarrow> location option"
  ev_ToUpper :: "nat \<Rightarrow> nat"
  ev_collate :: "string \<Rightarrow> string \<Rightarrow> int"
  ev_sentAt :: gotime
  ev_todayURL :: string

definition digestKind :: string where "digestKind = ''digest''"
definition reminderKind :: string where "reminderKind = ''digest_again''"

text \<open>\<open>time.RFC3339\<close> of an instant in UTC.\<close>

definition Format_RFC3339 :: "gotime \<Rightarrow> string" where
  "Format_RFC3339 t =
     (case Clock t of (h, m, s) \<Rightarrow>
        Format_dateKey t @ ''T'' @ pad 2 (nat h) @ '':'' @ pad 2 (nat m) @ '':'' @ pad 2 (nat s) @ ''Z'')"

definition build ::
  "env \<Rightarrow> recipient \<Rightarrow> location \<Rightarrow> gotime \<Rightarrow> push_world \<Rightarrow> ((db_error + notification \<times> int) \<times> push_world) option" where
  "build env to l now pw =
     (case reads_db (ListCareSchedules (ev_collate env) (to_gardenID to)) pw of
        (Inl e, pw) \<Rightarrow> Some (Inl e, pw)
      | (Inr schedules, pw) \<Rightarrow>
          (case reads_db (ListLatestCareEvents (to_gardenID to)) pw of
             (Inl e, pw) \<Rightarrow> Some (Inl e, pw)
           | (Inr latest, pw) \<Rightarrow>
               (case Resolve schedules latest (In_loc now l) of
                  None \<Rightarrow> None
                | Some lines \<Rightarrow>
                    (case digestOf (ev_ToUpper env) (to_garden to) lines (ev_todayURL env) of (n, items) \<Rightarrow>
                       Some (Inr (n\<lparr>no_Tag := digestKind @ ''-'' @ to_gardenID to\<rparr>, items), pw)))))"

definition deliver_to ::
  "recipient \<Rightarrow> notification \<Rightarrow> gotime \<Rightarrow> push_world \<Rightarrow> (db_error + int) \<times> push_world" where
  "deliver_to to n now pw =
     (case reads_db (ListPushSubscriptions (to_userID to)) pw of
        (Inl e, pw) \<Rightarrow> (Inl e, pw)
      | (Inr subs, pw) \<Rightarrow> deliver subs n now pw)"

text \<open>What follows the claim in \<open>send\<close> and \<open>sendReminder\<close>.\<close>

definition build_and_deliver ::
  "env \<Rightarrow> recipient \<Rightarrow> location \<Rightarrow> gotime \<Rightarrow> push_world \<Rightarrow> ((db_error + unit) \<times> push_world) option" where
  "build_and_deliver env to l now pw =
     (case build env to l now pw of
        None \<Rightarrow> None
      | Some (Inl e, pw) \<Rightarrow> Some (Inl e, pw)
      | Some (Inr (n, items), pw) \<Rightarrow>
          if items = 0 then Some (Inr (), pw)
          else (case deliver_to to n now pw of
                  (Inl e, pw) \<Rightarrow> Some (Inl e, pw)
                | (Inr _, pw) \<Rightarrow> Some (Inr (), pw)))"

definition send_digest ::
  "env \<Rightarrow> recipient \<Rightarrow> location \<Rightarrow> string \<Rightarrow> gotime \<Rightarrow> push_world \<Rightarrow> ((db_error + unit) \<times> push_world) option" where
  "send_digest env to l key now =
     InTx_push (\<lambda>pw.
       case writes_db (ClaimNotificationSend (ev_sentAt env) (to_membershipID to) digestKind key) pw of
         (Inl e, pw) \<Rightarrow> Some (Inl e, pw)
       | (Inr claimed, pw) \<Rightarrow>
           if claimed = 0 then Some (Inr (), pw) else build_and_deliver env to l now pw)"

definition sendReminder ::
  "env \<Rightarrow> recipient \<Rightarrow> location \<Rightarrow> gotime \<Rightarrow> gotime \<Rightarrow> push_world \<Rightarrow> ((db_error + unit) \<times> push_world) option" where
  "sendReminder env to l at now =
     InTx_push (\<lambda>pw.
       case writes_db (ClearReminder (to_gardenID to) (to_membershipID to) at) pw of
         (Inl e, pw) \<Rightarrow> Some (Inl e, pw)
       | (Inr _, pw) \<Rightarrow>
           (case writes_db (ClaimNotificationSend (ev_sentAt env) (to_membershipID to) reminderKind
                   (Format_RFC3339 (In_loc at utc))) pw of
              (Inl e, pw) \<Rightarrow> Some (Inl e, pw)
            | (Inr claimed, pw) \<Rightarrow>
                if claimed = 0 then Some (Inr (), pw)
                else if maxLate \<le> Sub now at then Some (Inr (), pw)
                else build_and_deliver env to l now pw))"

section \<open>One look\<close>

definition reminder_to :: "waiting_reminder \<Rightarrow> recipient" where
  "reminder_to m = \<lparr>to_membershipID = wr_MembershipID m, to_gardenID = wr_GardenID m, to_userID = wr_UserID m,
     to_handle = wr_Handle m, to_garden = wr_GardenName m\<rparr>"

definition digest_to :: "digest_member \<Rightarrow> recipient" where
  "digest_to m = \<lparr>to_membershipID = dm_MembershipID m, to_gardenID = dm_GardenID m, to_userID = dm_UserID m,
     to_handle = dm_Handle m, to_garden = dm_GardenName m\<rparr>"

fun send_reminders ::
  "env \<Rightarrow> gotime \<Rightarrow> waiting_reminder list \<Rightarrow> gotime \<Rightarrow> push_world \<Rightarrow> ((db_error + gotime) \<times> push_world) option" where
  "send_reminders env now [] next pw = Some (Inr next, pw)"
| "send_reminders env now (m # ms) next pw =
     (let at = wr_RemindAgainAt m in
      if After at now then send_reminders env now ms (soonest next at) pw
      else (case sendReminder env (reminder_to m) (locationOf (ev_LoadLocation env) (wr_Timezone m)) at now pw of
              None \<Rightarrow> None
            | Some (Inl e, pw) \<Rightarrow>
                (case ctx_done pw of (finished, pw) \<Rightarrow>
                   if finished then Some (Inl e, pw)
                   else send_reminders env now ms (soonest next (Add now retryAfter)) pw)
            | Some (Inr _, pw) \<Rightarrow> send_reminders env now ms next pw))"

text \<open>The loop over the members also keeps, per membership, the last instant passed over.\<close>

type_synonym skips = "uuid \<Rightarrow> gotime"

definition note_skip :: "uuid \<Rightarrow> gotime \<Rightarrow> skips \<Rightarrow> skips" where
  "note_skip membership skipped sk =
     (if \<not> IsZero skipped \<and> \<not> Equal (sk membership) skipped then sk(membership := skipped) else sk)"

fun send_digests ::
  "env \<Rightarrow> gotime \<Rightarrow> digest_member list \<Rightarrow> gotime \<Rightarrow> skips \<Rightarrow> push_world \<Rightarrow>
     ((db_error + gotime) \<times> skips \<times> push_world) option" where
  "send_digests env now [] next sk pw = Some (Inr next, sk, pw)"
| "send_digests env now (m # ms) next sk pw =
     (let l = locationOf (ev_LoadLocation env) (dm_Timezone m) in
      case nextDigest (dm_DigestHour m) l (dm_SentThrough m) now of
        None \<Rightarrow> None
      | Some (at, key, skipped) \<Rightarrow>
          (let sk = note_skip (dm_MembershipID m) skipped sk in
           if After at now then send_digests env now ms (soonest next at) sk pw
           else (case send_digest env (digest_to m) l key now pw of
                   None \<Rightarrow> None
                 | Some (Inl e, pw) \<Rightarrow>
                     (case ctx_done pw of (finished, pw) \<Rightarrow>
                        if finished then Some (Inl e, sk, pw)
                        else send_digests env now ms (soonest next (Add now retryAfter)) sk pw)
                 | Some (Inr _, pw) \<Rightarrow>
                     (case nextDigest (dm_DigestHour m) l key now of
                        None \<Rightarrow> None
                      | Some (at, _, _) \<Rightarrow> send_digests env now ms (soonest next at) sk pw))))"

definition sendDue ::
  "env \<Rightarrow> gotime \<Rightarrow> skips \<Rightarrow> push_world \<Rightarrow> ((db_error + gotime) \<times> skips \<times> push_world) option" where
  "sendDue env now sk pw =
     (case reads_db (ListWaitingReminders now) pw of
        (Inl e, pw) \<Rightarrow> Some (Inl e, sk, pw)
      | (Inr reminders, pw) \<Rightarrow>
          (case send_reminders env now reminders zero_time pw of
             None \<Rightarrow> None
           | Some (Inl e, pw) \<Rightarrow> Some (Inl e, sk, pw)
           | Some (Inr next, pw) \<Rightarrow>
               (case reads_db (ListDigestMembers now) pw of
                  (Inl e, pw) \<Rightarrow> Some (Inl e, sk, pw)
                | (Inr members, pw) \<Rightarrow> send_digests env now members next sk pw)))"

section \<open>What a send changes\<close>

lemma build_frame:
  assumes "build env to l now pw = Some (r, pw')"
  shows "pw_tables pw' = pw_tables pw" "pw_outbox pw' = pw_outbox pw"
proof -
  obtain s pw1 where 1: "reads_db (ListCareSchedules (ev_collate env) (to_gardenID to)) pw = (s, pw1)" by fastforce
  obtain e pw2 where 2: "reads_db (ListLatestCareEvents (to_gardenID to)) pw1 = (e, pw2)" by fastforce
  have "pw' = pw1 \<or> pw' = pw2"
    using assms 1 2 by (auto simp: build_def split: sum.splits option.splits prod.splits)
  then show "pw_tables pw' = pw_tables pw" "pw_outbox pw' = pw_outbox pw"
    using reads_db_frame [OF 1] reads_db_frame [OF 2] by auto
qed

lemma deliver_to_tables:
  assumes "deliver_to to n now pw = (r, pw')"
  shows "but_browsers (pw_tables pw') = but_browsers (pw_tables pw)"
proof -
  obtain s pw1 where 1: "reads_db (ListPushSubscriptions (to_userID to)) pw = (s, pw1)" by fastforce
  show ?thesis
    using assms 1 reads_db_frame(1) [OF 1] deliver_from_tables
    by (cases s) (auto simp: deliver_to_def deliver_def)
qed

lemma build_and_deliver_tables:
  assumes "build_and_deliver env to l now pw = Some (r, pw')"
  shows "but_browsers (pw_tables pw') = but_browsers (pw_tables pw)"
proof -
  obtain b pw1 where b: "build env to l now pw = Some (b, pw1)"
    using assms by (auto simp: build_and_deliver_def split: option.splits)
  note f = build_frame [OF b]
  show ?thesis
  proof (cases b)
    case (Inr x)
    obtain n items where x: "x = (n, items)" by (cases x)
    obtain y pw2 where 2: "deliver_to to n now pw1 = (y, pw2)" by fastforce
    show ?thesis
      using assms b f Inr x 2 deliver_to_tables [OF 2]
      by (auto simp: build_and_deliver_def split: if_splits sum.splits)
  qed (use assms b f in \<open>auto simp: build_and_deliver_def\<close>)
qed

lemma send_digest_claims:
  assumes "send_digest env to l key now pw = Some (r, pw')"
  defines "k \<equiv> (to_membershipID to, digestKind, key)"
  shows "send_claimed k (pw_tables pw) \<Longrightarrow> pw_outbox pw' = pw_outbox pw"
    "r = Inr u \<Longrightarrow> send_claimed k (pw_tables pw')"
    "send_claimed k' (pw_tables pw) \<Longrightarrow> send_claimed k' (pw_tables pw')"
    "r = Inl e \<Longrightarrow> pw_tables pw' = pw_tables pw"
  unfolding k_def
  by (rule claims_first_tx [OF assms(1) [unfolded send_digest_def] claims_first_claim [OF build_and_deliver_tables]];
    assumption)+

lemma ClearReminder_ledger: "ClearReminder g m at d = Inr (x, d') \<Longrightarrow> t_notification_send d' = t_notification_send d"
  by (auto simp: ClearReminder_def)

lemma sendReminder_claims:
  assumes "sendReminder env to l at now pw = Some (r, pw')"
  defines "k \<equiv> (to_membershipID to, reminderKind, Format_RFC3339 (In_loc at utc))"
  shows "send_claimed k (pw_tables pw) \<Longrightarrow> pw_outbox pw' = pw_outbox pw"
    "r = Inr u \<Longrightarrow> send_claimed k (pw_tables pw')"
    "send_claimed k' (pw_tables pw) \<Longrightarrow> send_claimed k' (pw_tables pw')"
    "r = Inl e \<Longrightarrow> pw_tables pw' = pw_tables pw"
proof -
  let ?work = "\<lambda>pw. if maxLate \<le> Sub now at then Some (Inr (), pw) else build_and_deliver env to l now pw"
  have work: "but_browsers (pw_tables pw2) = but_browsers (pw_tables pw1)" if "?work pw1 = Some (r1, pw2)" for pw1 r1 pw2
    using that build_and_deliver_tables by (auto split: if_splits)
  note first = claims_first_write [OF claims_first_claim [OF work] ClearReminder_ledger]
  show "send_claimed k (pw_tables pw) \<Longrightarrow> pw_outbox pw' = pw_outbox pw"
    "r = Inr u \<Longrightarrow> send_claimed k (pw_tables pw')"
    "send_claimed k' (pw_tables pw) \<Longrightarrow> send_claimed k' (pw_tables pw')"
    "r = Inl e \<Longrightarrow> pw_tables pw' = pw_tables pw"
    unfolding k_def
    by (rule claims_first_tx [OF assms(1) [unfolded sendReminder_def] first]; assumption)+
qed

end
