(* ===== verification/Go_Format.thy ===== *)
theory Go_Format
  imports Go_Time Go_Text
begin

text \<open>
  The layouts of \<open>time.Format\<close> the program writes sentences with, and the names of months and
  weekdays.
\<close>

definition month_names :: "string list" where
  "month_names = [''January'', ''February'', ''March'', ''April'', ''May'', ''June'', ''July'',
     ''August'', ''September'', ''October'', ''November'', ''December'']"

definition weekday_names :: "string list" where
  "weekday_names = [''Sunday'', ''Monday'', ''Tuesday'', ''Wednesday'', ''Thursday'', ''Friday'', ''Saturday'']"

text \<open>\<open>Month.String\<close>; a number that is no month is written as \<open>%!Month(n)\<close>.\<close>

definition Month_String :: "int \<Rightarrow> string" where
  "Month_String m =
     (if 1 \<le> m \<and> m \<le> 12 then month_names ! nat (m - 1) else ''%!Month('' @ Itoa m @ '')'')"

text \<open>1 January 1970 was a Thursday.\<close>

definition Weekday :: "gotime \<Rightarrow> int" where
  "Weekday t = (local_day (tloc t) (unix_sec t) + 4) mod 7"

definition Weekday_String :: "gotime \<Rightarrow> string" where
  "Weekday_String t = weekday_names ! nat (Weekday t)"

text \<open>\<open>"2 Jan"\<close>, \<open>"2 Jan 2006"\<close>, \<open>"2 January"\<close>, \<open>"2 January 2006"\<close>.\<close>

definition Format_day :: "gotime \<Rightarrow> string" where
  "Format_day t = decimal (nat (Day_of t)) @ '' '' @ take 3 (Month_String (Month t))"

definition Format_year :: "gotime \<Rightarrow> string" where
  "Format_year t = (if Year t < 0 then ''-'' else '''') @ pad 4 (nat \<bar>Year t\<bar>)"

definition Format_day_year :: "gotime \<Rightarrow> string" where
  "Format_day_year t = Format_day t @ '' '' @ Format_year t"

definition Format_long_day :: "gotime \<Rightarrow> string" where
  "Format_long_day t = decimal (nat (Day_of t)) @ '' '' @ Month_String (Month t)"

definition Format_long_day_year :: "gotime \<Rightarrow> string" where
  "Format_long_day_year t = Format_long_day t @ '' '' @ Format_year t"

text \<open>\<open>"3:04pm"\<close>.\<close>

definition Format_clock :: "gotime \<Rightarrow> string" where
  "Format_clock t =
     (case Clock t of (h, m, s) \<Rightarrow>
        decimal (nat (if h mod 12 = 0 then 12 else h mod 12)) @ '':'' @ pad 2 (nat m)
        @ (if 12 \<le> h then ''pm'' else ''am''))"

text \<open>\<open>"Mon 2 Jan, 3:04pm"\<close>.\<close>

definition Format_stamp :: "gotime \<Rightarrow> string" where
  "Format_stamp t = take 3 (Weekday_String t) @ '' '' @ Format_day t @ '', '' @ Format_clock t"

lemma weekday_known: "Weekday_String t \<in> set weekday_names"
proof -
  have "nat (Weekday t) < 7" by (simp add: Weekday_def)
  then show ?thesis unfolding Weekday_String_def by (intro nth_mem) (simp add: weekday_names_def)
qed

end
