(* ===== verification/Push_Deadlines.thy ===== *)
theory Push_Deadlines
  imports Push_Digest Go_Format Auth_Session
begin

text \<open>
  The job that sends at an instant stored on a row: \<open>src/internal/push/deadlines.go\<close>, with the
  texts of \<open>notifications.go\<close> it sends.  A token's creator is told a week before it expires and
  when it has; a sitter and whoever invited them are told when the sitting ends.

  The last section puts the sends of both jobs together and shows that they meet the contract of
  locale \<open>sends_once\<close>.
\<close>

section \<open>notifications.go\<close>

definition ellipsis :: string where
  "ellipsis = map char_of [226 :: nat, 128, 166]"

definition tokenNamed :: "api_token \<Rightarrow> string" where
  "tokenNamed t = at_Name t @ '' ('' @ at_Prefix t @ ellipsis @ '')''"

definition plain_notification :: "string \<Rightarrow> string \<Rightarrow> string \<Rightarrow> notification" where
  "plain_notification title body url =
     \<lparr>no_Title = title, no_Body = body, no_URL = url, no_Icon = '''', no_Tag = ''''\<rparr>"

definition tokenExpiringNotification :: "string \<Rightarrow> api_token \<Rightarrow> location \<Rightarrow> string \<Rightarrow> notification" where
  "tokenExpiringNotification garden t l url =
     plain_notification ''Token expires soon''
       (tokenNamed t @ '' in '' @ garden @ '' expires on '' @ Format_day (In_loc (at_ExpiresAt t) l) @ ''.'') url"

definition tokenExpiredNotification :: "string \<Rightarrow> api_token \<Rightarrow> string \<Rightarrow> notification" where
  "tokenExpiredNotification garden t url =
     plain_notification ''Token expired'' (tokenNamed t @ '' in '' @ garden @ '' has expired.'') url"

definition sittingEndedNotification :: "sitting_deadline \<Rightarrow> string \<Rightarrow> notification" where
  "sittingEndedNotification r url =
     (let garden = GardenNamed (sd_GardenName r) (sd_OwnerName r) (sd_RecipientOwns r) in
      if sd_IsSitter r
      then plain_notification ''Access ended'' (''Your access to '' @ garden @ '' has ended.'') ''''
      else plain_notification ''Access ended''
             (sd_SitterName r @ '' no longer has access to '' @ garden @ ''.'') url)"

definition InviteAcceptedNotification :: "string \<Rightarrow> app_user \<Rightarrow> string \<Rightarrow> string \<Rightarrow> notification" where
  "InviteAcceptedNotification garden member role peoplePath =
     plain_notification ''Invite accepted''
       (us_DisplayName member @ '' joined '' @ garden @ '' as a '' @ role @ ''.'') peoplePath"

definition RoleChangedNotification :: "string \<Rightarrow> string \<Rightarrow> string \<Rightarrow> notification" where
  "RoleChangedNotification garden role todayPath =
     plain_notification ''Role changed'' (''You'' @ apostrophe @ ''re now a '' @ role @ '' in '' @ garden @ ''.'') todayPath"

definition MemberRemovedNotification :: "string \<Rightarrow> notification" where
  "MemberRemovedNotification garden =
     plain_notification ''Removed from a garden'' (''You'' @ apostrophe @ ''ve been removed from '' @ garden @ ''.'') ''''"

definition TestNotification :: "string \<Rightarrow> notification" where
  "TestNotification notificationsPath =
     plain_notification ''Test notification'' ''Notifications are working.'' notificationsPath"

section \<open>deadlines.go\<close>

definition tokenExpiringKind :: string where "tokenExpiringKind = ''token_expiring''"
definition tokenExpiredKind :: string where "tokenExpiredKind = ''token_expired''"
definition sittingEndedKind :: string where "sittingEndedKind = ''sitting_ended''"

definition warnBefore :: int where "warnBefore = 7 * 24 * hour_ns"
definition maxDeadlineLate :: int where "maxDeadlineLate = 7 * 24 * hour_ns"

record deadlines =
  de_LoadLocation :: "string \<Rightarrow> location option"
  de_sentAt :: gotime
  de_tokensURL :: string
  de_peopleURL :: string

definition sittingKey :: "uuid \<Rightarrow> gotime \<Rightarrow> string" where
  "sittingKey membership endsAt = membership @ '' '' @ Format_RFC3339 (In_loc endsAt utc)"

definition send_deadline ::
  "gotime \<Rightarrow> recipient \<Rightarrow> string \<Rightarrow> string \<Rightarrow> notification \<Rightarrow> gotime \<Rightarrow> push_world \<Rightarrow> ((db_error + unit) \<times> push_world) option" where
  "send_deadline sentAt to kind key n now =
     InTx_push (\<lambda>pw.
       case writes_db (ClaimNotificationSend sentAt (to_membershipID to) kind key) pw of
         (Inl e, pw) \<Rightarrow> Some (Inl e, pw)
       | (Inr claimed, pw) \<Rightarrow>
           if claimed = 0 then Some (Inr (), pw)
           else (case deliver_to to n now pw of
                   (Inl e, pw) \<Rightarrow> Some (Inl e, pw)
                 | (Inr _, pw) \<Rightarrow> Some (Inr (), pw)))"

text \<open>A send and the closure \<open>failed\<close>: an error ends the look when the context is done, and
  otherwise has the job look again after \<open>retryAfter\<close>.\<close>

definition send_or_retry ::
  "gotime \<Rightarrow> recipient \<Rightarrow> string \<Rightarrow> string \<Rightarrow> notification \<Rightarrow> gotime \<Rightarrow> gotime \<Rightarrow> push_world \<Rightarrow>
     ((db_error + gotime) \<times> push_world) option" where
  "send_or_retry sentAt to kind key n now next pw =
     (case send_deadline sentAt to kind key n now pw of
        None \<Rightarrow> None
      | Some (Inr _, pw) \<Rightarrow> Some (Inr next, pw)
      | Some (Inl e, pw) \<Rightarrow>
          (case ctx_done pw of (finished, pw) \<Rightarrow>
             Some (if finished then (Inl e, pw) else (Inr (soonest next (Add now retryAfter)), pw))))"

definition token_to :: "token_deadline \<Rightarrow> recipient" where
  "token_to r = \<lparr>to_membershipID = td_MembershipID r, to_gardenID = nil_uuid, to_userID = td_UserID r,
     to_handle = td_Handle r, to_garden = td_GardenName r\<rparr>"

definition sitting_to :: "sitting_deadline \<Rightarrow> recipient" where
  "sitting_to r = \<lparr>to_membershipID = sd_MembershipID r, to_gardenID = nil_uuid, to_userID = sd_UserID r,
     to_handle = sd_Handle r, to_garden = sd_GardenName r\<rparr>"

text \<open>The warning of one token, and then its expiry.\<close>

definition token_warning ::
  "deadlines \<Rightarrow> gotime \<Rightarrow> token_deadline \<Rightarrow> gotime \<Rightarrow> push_world \<Rightarrow> ((db_error + gotime) \<times> push_world) option" where
  "token_warning de now r next pw =
     (let t = td_APIToken r; warnAt = Add (at_ExpiresAt t) (- warnBefore);
          garden = GardenNamed (td_GardenName r) (td_OwnerName r) (td_RecipientOwns r) in
      if After warnAt (at_CreatedAt t) then
        (if After warnAt now then Some (Inr (soonest next warnAt), pw)
         else if Before now (at_ExpiresAt t) then
           send_or_retry (de_sentAt de) (token_to r) tokenExpiringKind (at_ID t)
             (tokenExpiringNotification garden t (locationOf (de_LoadLocation de) (td_Timezone r)) (de_tokensURL de))
             now next pw
         else Some (Inr next, pw))
      else Some (Inr next, pw))"

definition token_expiry ::
  "deadlines \<Rightarrow> gotime \<Rightarrow> token_deadline \<Rightarrow> gotime \<Rightarrow> push_world \<Rightarrow> ((db_error + gotime) \<times> push_world) option" where
  "token_expiry de now r next pw =
     (let t = td_APIToken r in
      if After (at_ExpiresAt t) now then Some (Inr (soonest next (at_ExpiresAt t)), pw)
      else send_or_retry (de_sentAt de) (token_to r) tokenExpiredKind (at_ID t)
             (tokenExpiredNotification (GardenNamed (td_GardenName r) (td_OwnerName r) (td_RecipientOwns r)) t
                (de_tokensURL de)) now next pw)"

fun send_tokens ::
  "deadlines \<Rightarrow> gotime \<Rightarrow> token_deadline list \<Rightarrow> gotime \<Rightarrow> push_world \<Rightarrow> ((db_error + gotime) \<times> push_world) option" where
  "send_tokens de now [] next pw = Some (Inr next, pw)"
| "send_tokens de now (r # rs) next pw =
     (case token_warning de now r next pw of
        None \<Rightarrow> None
      | Some (Inl e, pw) \<Rightarrow> Some (Inl e, pw)
      | Some (Inr next, pw) \<Rightarrow>
          (case token_expiry de now r next pw of
             None \<Rightarrow> None
           | Some (Inl e, pw) \<Rightarrow> Some (Inl e, pw)
           | Some (Inr next, pw) \<Rightarrow> send_tokens de now rs next pw))"

fun send_sittings ::
  "deadlines \<Rightarrow> gotime \<Rightarrow> sitting_deadline list \<Rightarrow> gotime \<Rightarrow> push_world \<Rightarrow> ((db_error + gotime) \<times> push_world) option" where
  "send_sittings de now [] next pw = Some (Inr next, pw)"
| "send_sittings de now (r # rs) next pw =
     (if After (sd_EndsAt r) now then send_sittings de now rs (soonest next (sd_EndsAt r)) pw
      else (case send_or_retry (de_sentAt de) (sitting_to r) sittingEndedKind (sittingKey (sd_SittingID r) (sd_EndsAt r))
                   (sittingEndedNotification r (de_peopleURL de)) now next pw of
              None \<Rightarrow> None
            | Some (Inl e, pw) \<Rightarrow> Some (Inl e, pw)
            | Some (Inr next, pw) \<Rightarrow> send_sittings de now rs next pw))"

definition sendDue_deadlines ::
  "deadlines \<Rightarrow> gotime \<Rightarrow> push_world \<Rightarrow> ((db_error + gotime) \<times> push_world) option" where
  "sendDue_deadlines de now pw =
     (let since = Add now (- maxDeadlineLate) in
      case reads_db (ListTokenDeadlines now TokenManage since) pw of
        (Inl e, pw) \<Rightarrow> Some (Inl e, pw)
      | (Inr tokens, pw) \<Rightarrow>
          (case send_tokens de now tokens zero_time pw of
             None \<Rightarrow> None
           | Some (Inl e, pw) \<Rightarrow> Some (Inl e, pw)
           | Some (Inr next, pw) \<Rightarrow>
               (case reads_db (ListSittingDeadlines now since) pw of
                  (Inl e, pw) \<Rightarrow> Some (Inl e, pw)
                | (Inr sittings, pw) \<Rightarrow> send_sittings de now sittings next pw)))"

section \<open>The sends of both jobs\<close>

lemma send_deadline_claims:
  assumes "send_deadline sentAt to kind key n now pw = Some (r, pw')"
  defines "k \<equiv> (to_membershipID to, kind, key)"
  shows "send_claimed k (pw_tables pw) \<Longrightarrow> pw_outbox pw' = pw_outbox pw"
    "r = Inr u \<Longrightarrow> send_claimed k (pw_tables pw')"
    "send_claimed k' (pw_tables pw) \<Longrightarrow> send_claimed k' (pw_tables pw')"
    "r = Inl e \<Longrightarrow> pw_tables pw' = pw_tables pw"
proof -
  let ?work = "\<lambda>pw. case deliver_to to n now pw of (Inl e, pw) \<Rightarrow> Some (Inl e, pw) | (Inr _, pw) \<Rightarrow> Some (Inr (), pw)"
  have work: "but_browsers (pw_tables pw2) = but_browsers (pw_tables pw1)" if "?work pw1 = Some (r1, pw2)" for pw1 r1 pw2
    using that deliver_to_tables [of to n now pw1] by (auto split: sum.splits prod.splits)
  show "send_claimed k (pw_tables pw) \<Longrightarrow> pw_outbox pw' = pw_outbox pw"
    "r = Inr u \<Longrightarrow> send_claimed k (pw_tables pw')"
    "send_claimed k' (pw_tables pw) \<Longrightarrow> send_claimed k' (pw_tables pw')"
    "r = Inl e \<Longrightarrow> pw_tables pw' = pw_tables pw"
    unfolding k_def
    by (rule claims_first_tx [OF assms(1) [unfolded send_deadline_def] claims_first_claim [OF work]]; assumption)+
qed

datatype job_send =
    Digest_send env recipient location string gotime
  | Reminder_send env recipient location gotime gotime
  | Deadline_send gotime recipient string string notification gotime

fun job_attempt :: "job_send \<Rightarrow> push_world \<Rightarrow> ((db_error + unit) \<times> push_world) option" where
  "job_attempt (Digest_send ev to l key now) = send_digest ev to l key now"
| "job_attempt (Reminder_send ev to l at now) = sendReminder ev to l at now"
| "job_attempt (Deadline_send sentAt to kind key n now) = send_deadline sentAt to kind key n now"

fun job_key :: "job_send \<Rightarrow> uuid \<times> string \<times> string" where
  "job_key (Digest_send ev to l key now) = (to_membershipID to, digestKind, key)"
| "job_key (Reminder_send ev to l at now) =
     (to_membershipID to, reminderKind, Format_RFC3339 (In_loc at utc))"
| "job_key (Deadline_send sentAt to kind key n now) = (to_membershipID to, kind, key)"

lemma job_attempt_claims:
  assumes "job_attempt a pw = Some (r, pw')"
  shows "send_claimed (job_key a) (pw_tables pw) \<Longrightarrow> pw_outbox pw' = pw_outbox pw"
    "r = Inr u \<Longrightarrow> send_claimed (job_key a) (pw_tables pw')"
    "send_claimed k' (pw_tables pw) \<Longrightarrow> send_claimed k' (pw_tables pw')"
proof -
  note claims = send_digest_claims sendReminder_claims send_deadline_claims
  show "send_claimed (job_key a) (pw_tables pw) \<Longrightarrow> pw_outbox pw' = pw_outbox pw"
    using assms by (cases a) (simp_all add: claims(1) claims(5) claims(9))
  show "r = Inr u \<Longrightarrow> send_claimed (job_key a) (pw_tables pw')"
    using assms by (cases a) (simp_all add: claims(2) claims(6) claims(10))
  show "send_claimed k' (pw_tables pw) \<Longrightarrow> send_claimed k' (pw_tables pw')"
    using assms by (cases a) (simp_all, (blast intro: claims)+)
qed

interpretation job_sends: sends_once job_attempt job_key send_claimed
  by unfold_locales (use job_attempt_claims in blast)+

end
