(* ===== verification/Push_Jobs.thy ===== *)
theory Push_Jobs
  imports Push_Deadlines
begin

text \<open>
  What the notification jobs promise: a send that committed is never made again, a look leaves
  every send made, claimed or waited for, and a digest lists exactly the cares that are due.
\<close>

section \<open>At most one committed send\<close>

text \<open>
  (C19) Once an attempt at a send commits, later attempts for the same person, kind and
  key send nothing, whatever the jobs attempt, in any order, and whatever database call, push
  service answer or commit fails on the way.
\<close>

theorem committed_send_not_repeated:
  assumes "run job_attempt job_key as pw ! i = (k, True, ms)"
    "run job_attempt job_key as pw ! j = (k, committed, ns)"
    "i < j" "j < length (run job_attempt job_key as pw)"
  shows "ns = []"
  using assms by (rule job_sends.once)

text \<open>A garden with one member, who has a browser and set a reminder.\<close>

definition ex_browser :: push_subscription where
  "ex_browser = \<lparr>ps_ID = ''b1'', ps_UserID = ''u1'', ps_Endpoint = ''https://push.example/1'', ps_P256dhKey = ''k'',
     ps_AuthKey = ''a'', ps_UserAgent = None, ps_CreatedAt = zero_time, ps_LastSentAt = None\<rparr>"

definition ex_job_world :: "gotime option \<Rightarrow> push_world" where
  "ex_job_world remind = \<lparr>pw_world = \<lparr>tables = empty_db
       \<lparr>t_garden := [\<lparr>ga_ID = ''g1'', ga_Name = ''Rosewood'', ga_CreatedAt = zero_time\<rparr>],
        t_app_user := [\<lparr>us_ID = ''u1'', us_DisplayName = ''Ellie'', us_Handle = ''ellie'', us_Timezone = ''UTC'',
          us_CreatedAt = zero_time, us_LastGardenID = None, us_ClosedAt = None\<rparr>],
        t_membership := [\<lparr>me_ID = ''m1'', me_GardenID = ''g1'', me_UserID = ''u1'', me_Role = ''owner'',
          me_InvitedBy = None, me_CreatedAt = zero_time, me_ExpiresAt = None, me_DigestHour = 8,
          me_RemindAgainAt = remind\<rparr>],
        t_push_subscription := [ex_browser]\<rparr>, faults = []\<rparr>,
     pw_responses = [Status 201], pw_outbox = [], pw_done = []\<rparr>"

lemmas ex_job_defs = ex_job_world_def ex_browser_def empty_db_def

theorem committed_send_not_repeated_witness:
  "\<exists>a n. job_key a = (''m1'', tokenExpiredKind, ''t1'')
    \<and> run job_attempt job_key [a, a] (ex_job_world None)
      = [(job_key a, True, [(ex_browser, n)]), (job_key a, True, [])]"
proof -
  define n where "n = plain_notification ''Token expired'' ''It has expired.'' ''''"
  define a where "a = Deadline_send zero_time \<lparr>to_membershipID = ''m1'', to_gardenID = nil_uuid, to_userID = ''u1'',
    to_handle = ''ellie'', to_garden = ''Rosewood''\<rparr> tokenExpiredKind ''t1'' n zero_time"
  have k: "job_key a = (''m1'', tokenExpiredKind, ''t1'')" by (simp add: a_def)
  obtain c ns where r: "run job_attempt job_key [a, a] (ex_job_world None)
      = [(job_key a, True, [(ex_browser, n)]), (job_key a, c, ns)]" and c: c
    by (simp add: a_def send_deadline_def InTx_push_def on_world_def next_fault_def reading_def writing_def set_tables_def
        ClaimNotificationSend_def in_ledger_def has_membership_id_def known_kinds_def tokenExpiredKind_def
        deliver_to_def deliver_def ListPushSubscriptions_def SortStableFunc_def sendOne_def Send_def answer_def
        SetPushSubscriptionSent_def update_where_def ex_job_defs Let_def)
  have "ns = []"
    by (rule committed_send_not_repeated [of "[a, a]" "ex_job_world None" 0 "job_key a"
          "[(ex_browser, n)]" 1 c ns], unfold r) simp_all
  with r c k show ?thesis by auto
qed

section \<open>A look covers everything\<close>

text \<open>The instant a look returns is no later than \<open>t\<close>.\<close>

definition wakes_by :: "gotime \<Rightarrow> gotime \<Rightarrow> bool" where
  "wakes_by next t \<longleftrightarrow> \<not> IsZero next \<and> nsec next \<le> nsec t"

lemma wakes_by_soonest:
  "wakes_by next t \<Longrightarrow> \<not> IsZero at \<Longrightarrow> wakes_by (soonest next at) t"
  "\<not> IsZero at \<Longrightarrow> wakes_by (soonest next at) at"
  by (auto simp: wakes_by_def soonest_def Before_def)

text \<open>\<open>now\<close> is an instant a running server reads: more than an hour after the year 1.\<close>

definition running :: "gotime \<Rightarrow> bool" where
  "running now \<longleftrightarrow> nsec zero_time + maxLate < nsec now"

lemma not_IsZero: "nsec zero_time < nsec t \<Longrightarrow> \<not> IsZero t"
  by (auto simp: IsZero_def)

lemma running_waits:
  assumes "running now"
  shows "\<not> IsZero (Add now retryAfter)" "After at now \<Longrightarrow> \<not> IsZero at"
    "nsec now - nsec at < maxLate \<Longrightarrow> \<not> IsZero at"
  using assms by (auto intro!: not_IsZero simp: running_def maxLate_def retryAfter_def Add_def After_def)

lemma digest_loop_not_late:
  assumes "digest_loop hour l now day skipped = Some y"
  shows "nsec now - nsec (fst y) < maxLate"
  by (rule digest_loop.raw_induct [of "\<lambda>hour l now day skipped y. nsec now - nsec (fst y) < maxLate", OF _ assms])
    (auto simp: Let_def Sub_maxLate split: if_splits)

lemma nextDigest_not_zero: "nextDigest hour l sent now = Some (at, key, sk) \<Longrightarrow> running now \<Longrightarrow> \<not> IsZero at"
  unfolding nextDigest_def by (drule digest_loop_not_late) (simp add: running_waits(3))

text \<open>What a look owes a reminder and a digest: sent or being cleared, or waited for.\<close>

definition reminder_settled :: "gotime \<Rightarrow> gotime \<Rightarrow> db \<Rightarrow> waiting_reminder \<Rightarrow> bool" where
  "reminder_settled now next d m \<longleftrightarrow>
     (if After (wr_RemindAgainAt m) now then wakes_by next (wr_RemindAgainAt m)
      else send_claimed (wr_MembershipID m, reminderKind, Format_RFC3339 (In_loc (wr_RemindAgainAt m) utc)) d
         \<or> wakes_by next (Add now retryAfter))"

definition digest_settled :: "env \<Rightarrow> gotime \<Rightarrow> gotime \<Rightarrow> db \<Rightarrow> digest_member \<Rightarrow> bool" where
  "digest_settled ev now next d m \<longleftrightarrow>
     (\<exists>at key sk. nextDigest (dm_DigestHour m) (locationOf (ev_LoadLocation ev) (dm_Timezone m)) (dm_SentThrough m) now
          = Some (at, key, sk)
        \<and> (if After at now then wakes_by next at
           else send_claimed (dm_MembershipID m, digestKind, key) d
                \<and> (\<exists>at' key' sk'. nextDigest (dm_DigestHour m) (locationOf (ev_LoadLocation ev) (dm_Timezone m)) key now
                     = Some (at', key', sk') \<and> wakes_by next at')
              \<or> wakes_by next (Add now retryAfter)))"

lemma ctx_done_tables [simp]: "pw_tables (snd (ctx_done pw)) = pw_tables pw"
  by (simp add: ctx_done_def split: list.split)

lemma send_reminders_settles:
  assumes "send_reminders ev now ms next pw = Some (Inr next', pw')" "running now"
  shows "\<forall>m \<in> set ms. reminder_settled now next' (pw_tables pw') m"
    "wakes_by next t \<Longrightarrow> wakes_by next' t"
    "send_claimed k (pw_tables pw) \<Longrightarrow> send_claimed k (pw_tables pw')"
proof -
  have "(\<forall>m \<in> set ms. reminder_settled now next' (pw_tables pw') m)
      \<and> (\<forall>t. wakes_by next t \<longrightarrow> wakes_by next' t)
      \<and> (\<forall>k. send_claimed k (pw_tables pw) \<longrightarrow> send_claimed k (pw_tables pw'))"
    using assms(1)
  proof (induction ms arbitrary: "next" pw)
    case (Cons m ms)
    let ?at = "wr_RemindAgainAt m"
    note wait = wakes_by_soonest running_waits [OF assms(2)]
    show ?case
    proof (cases "After ?at now")
      case True
      with Cons.prems have "send_reminders ev now ms (soonest next ?at) pw = Some (Inr next', pw')" by simp
      note IH = Cons.IH [OF this]
      have "\<not> IsZero ?at" using True wait by blast
      with IH wait(1,2) have "wakes_by next' ?at" "\<forall>t. wakes_by next t \<longrightarrow> wakes_by next' t" by blast+
      with IH True show ?thesis by (simp add: reminder_settled_def)
    next
      case False
      let ?l = "locationOf (ev_LoadLocation ev) (wr_Timezone m)"
      from Cons.prems False obtain r pw1 where s: "sendReminder ev (reminder_to m) ?l ?at now pw = Some (r, pw1)"
        by (auto simp: Let_def split: option.splits)
      note claim = sendReminder_claims [OF s]
      show ?thesis
      proof (cases r)
        case (Inl e)
        obtain b pw2 where b: "ctx_done pw1 = (b, pw2)" by fastforce
        then have same: "pw_tables pw2 = pw_tables pw1" using ctx_done_tables [of pw1] by simp
        from Cons.prems False s Inl b
        have "send_reminders ev now ms (soonest next (Add now retryAfter)) pw2 = Some (Inr next', pw')"
          by (simp add: Let_def split: if_splits)
        note IH = Cons.IH [OF this]
        have "wakes_by next' (Add now retryAfter)" "\<forall>t. wakes_by next t \<longrightarrow> wakes_by next' t"
          using IH wait(1,2) running_waits(1) [OF assms(2)] by blast+
        with IH same claim(3) False show ?thesis by (auto simp: reminder_settled_def)
      next
        case (Inr u)
        with Cons.prems False s have "send_reminders ev now ms next pw1 = Some (Inr next', pw')"
          by (simp add: Let_def)
        note IH = Cons.IH [OF this]
        have "send_claimed (wr_MembershipID m, reminderKind, Format_RFC3339 (In_loc ?at utc)) (pw_tables pw1)"
          using claim(2) [OF Inr] by (simp add: reminder_to_def)
        with IH claim(3) False show ?thesis by (auto simp: reminder_settled_def)
      qed
    qed
  qed simp
  then show "\<forall>m \<in> set ms. reminder_settled now next' (pw_tables pw') m"
    "wakes_by next t \<Longrightarrow> wakes_by next' t"
    "send_claimed k (pw_tables pw) \<Longrightarrow> send_claimed k (pw_tables pw')"
    by blast+
qed

lemma send_digests_settles:
  assumes "send_digests ev now ms next sk pw = Some (Inr next', sk', pw')" "running now"
  shows "\<forall>m \<in> set ms. digest_settled ev now next' (pw_tables pw') m"
    "wakes_by next t \<Longrightarrow> wakes_by next' t"
    "send_claimed k (pw_tables pw) \<Longrightarrow> send_claimed k (pw_tables pw')"
proof -
  have "(\<forall>m \<in> set ms. digest_settled ev now next' (pw_tables pw') m)
      \<and> (\<forall>t. wakes_by next t \<longrightarrow> wakes_by next' t)
      \<and> (\<forall>k. send_claimed k (pw_tables pw) \<longrightarrow> send_claimed k (pw_tables pw'))"
    using assms(1)
  proof (induction ms arbitrary: "next" sk pw)
    case (Cons m ms)
    let ?l = "locationOf (ev_LoadLocation ev) (dm_Timezone m)"
    note wait = wakes_by_soonest running_waits [OF assms(2)] nextDigest_not_zero [OF _ assms(2)]
    from Cons.prems obtain at key skipped
      where n: "nextDigest (dm_DigestHour m) ?l (dm_SentThrough m) now = Some (at, key, skipped)"
      by (auto simp: Let_def split: option.splits)
    define sk1 where "sk1 = note_skip (dm_MembershipID m) skipped sk"
    show ?case
    proof (cases "After at now")
      case True
      with Cons.prems n have "send_digests ev now ms (soonest next at) sk1 pw = Some (Inr next', sk', pw')"
        by (simp add: Let_def sk1_def)
      note IH = Cons.IH [OF this]
      have "wakes_by next' at" "\<forall>t. wakes_by next t \<longrightarrow> wakes_by next' t"
        using IH wakes_by_soonest wait(6) [OF n] by blast+
      with IH n True show ?thesis by (auto simp: digest_settled_def)
    next
      case False
      from Cons.prems False n obtain r pw1 where s: "send_digest ev (digest_to m) ?l key now pw = Some (r, pw1)"
        by (auto simp: Let_def split: option.splits)
      note claim = send_digest_claims [OF s]
      show ?thesis
      proof (cases r)
        case (Inl e)
        obtain b pw2 where b: "ctx_done pw1 = (b, pw2)" by fastforce
        then have same: "pw_tables pw2 = pw_tables pw1" using ctx_done_tables [of pw1] by simp
        from Cons.prems False n s Inl b
        have "send_digests ev now ms (soonest next (Add now retryAfter)) sk1 pw2 = Some (Inr next', sk', pw')"
          by (simp add: Let_def sk1_def split: if_splits)
        note IH = Cons.IH [OF this]
        have "wakes_by next' (Add now retryAfter)" "\<forall>t. wakes_by next t \<longrightarrow> wakes_by next' t"
          using IH wakes_by_soonest running_waits(1) [OF assms(2)] by blast+
        with IH same claim(3) n False show ?thesis by (auto simp: digest_settled_def)
      next
        case (Inr u)
        from Cons.prems False n s Inr obtain at' key' skipped'
          where n': "nextDigest (dm_DigestHour m) ?l key now = Some (at', key', skipped')"
          by (auto simp: Let_def split: option.splits)
        from Cons.prems False n s Inr n' have "send_digests ev now ms (soonest next at') sk1 pw1 = Some (Inr next', sk', pw')"
          by (simp add: Let_def sk1_def)
        note IH = Cons.IH [OF this]
        have "send_claimed (dm_MembershipID m, digestKind, key) (pw_tables pw1)"
          using claim(2) [OF Inr] by (simp add: digest_to_def)
        moreover have "wakes_by next' at'" "\<forall>t. wakes_by next t \<longrightarrow> wakes_by next' t"
          using IH wakes_by_soonest wait(6) [OF n'] by blast+
        ultimately show ?thesis using IH claim(3) n n' False by (auto simp: digest_settled_def)
      qed
    qed
  qed simp
  then show "\<forall>m \<in> set ms. digest_settled ev now next' (pw_tables pw') m"
    "wakes_by next t \<Longrightarrow> wakes_by next' t"
    "send_claimed k (pw_tables pw) \<Longrightarrow> send_claimed k (pw_tables pw')"
    by blast+
qed

text \<open>
  (C20) When a look of the digest job returns an instant, every reminder and every member it listed
  is accounted for.  A reminder or digest still to come is no earlier than that instant; one whose
  time has come is in the ledger, or the job is back within \<open>retryAfter\<close>; and after a digest went
  out the job is back for the member's next one.
\<close>

theorem sendDue_settles:
  assumes "sendDue ev now sk pw = Some (Inr next, sk', pw')" "running now"
  shows "\<exists>reminders pw0 next1 pw1 members pw2.
      reads_db (ListWaitingReminders now) pw = (Inr reminders, pw0)
    \<and> send_reminders ev now reminders zero_time pw0 = Some (Inr next1, pw1)
    \<and> reads_db (ListDigestMembers now) pw1 = (Inr members, pw2)
    \<and> (\<forall>m \<in> set reminders. reminder_settled now next (pw_tables pw') m)
    \<and> (\<forall>m \<in> set members. digest_settled ev now next (pw_tables pw') m)"
proof -
  from assms(1) obtain reminders pw0 next1 pw1 members pw2 where
    run: "reads_db (ListWaitingReminders now) pw = (Inr reminders, pw0)"
      "send_reminders ev now reminders zero_time pw0 = Some (Inr next1, pw1)"
      "reads_db (ListDigestMembers now) pw1 = (Inr members, pw2)"
    and digests: "send_digests ev now members next1 sk pw2 = Some (Inr next, sk', pw')"
    by (auto simp: sendDue_def split: prod.splits sum.splits option.splits)
  note r = send_reminders_settles [OF run(2) assms(2)]
  note d = send_digests_settles [OF digests assms(2)]
  have same: "pw_tables pw2 = pw_tables pw1" using reads_db_frame(1) [OF run(3)] .
  have "\<forall>m \<in> set reminders. reminder_settled now next (pw_tables pw') m"
    using r(1) d(2,3) same by (auto simp: reminder_settled_def split: if_splits)
  with run d(1) show ?thesis by blast
qed

theorem sendDue_settles_witness:
  "\<exists>ev at now pw'. After at now \<and> sendDue ev now (\<lambda>_. zero_time) (ex_job_world (Some at)) = Some (Inr at, \<lambda>_. zero_time, pw')
    \<and> (\<exists>reminders pw0. reads_db (ListWaitingReminders now) (ex_job_world (Some at)) = (Inr reminders, pw0)
        \<and> length reminders = 1 \<and> (\<forall>m \<in> set reminders. reminder_settled now at (pw_tables pw') m))"
proof -
  define now where "now = mk_Date 2026 3 1 9 0 0 0 utc"
  define at where "at = mk_Date 2026 3 1 11 0 0 0 utc"
  have t: "After at now" "running now" "IsZero zero_time"
    by (simp_all add: at_def now_def After_def running_def maxLate_def zero_time_def IsZero_def nsec_wall_time
        days_of_date_def year_start_def days_before_def is_leap_def)
  define ev :: env where "ev = \<lparr>ev_LoadLocation = \<lambda>_. None, ev_ToUpper = \<lambda>r. r, ev_collate = strings_Compare,
    ev_sentAt = now, ev_todayURL = ''/today''\<rparr>"
  let ?w = "ex_job_world (Some at)"
  have rs: "\<exists>m. reads_db (ListWaitingReminders now) ?w = (Inr [m], ?w) \<and> wr_RemindAgainAt m = at"
    by (simp add: ListWaitingReminders_def joined_def null_or_after_def has_browser_def SortStableFunc_def
        on_world_def reading_def next_fault_def ex_job_defs)
  have ms: "reads_db (ListDigestMembers now) ?w = (Inr [], ?w)"
    by (simp add: ListDigestMembers_def joined_def preference_on_def SortStableFunc_def
        on_world_def reading_def next_fault_def ex_job_defs)
  from rs obtain m where m: "reads_db (ListWaitingReminders now) ?w = (Inr [m], ?w)" "wr_RemindAgainAt m = at" by blast
  have due: "sendDue ev now (\<lambda>_. zero_time) ?w = Some (Inr at, \<lambda>_. zero_time, ?w)"
    using t by (simp add: sendDue_def m ms soonest_def)
  from sendDue_settles [OF due t(2)] m have "reminder_settled now at (pw_tables ?w) m" by auto
  with t(1) due m show ?thesis by (intro exI [of _ ev] exI [of _ at] exI [of _ now] exI [of _ ?w]) simp
qed

section \<open>What a digest says\<close>

text \<open>The values of a list in the order they first come in.\<close>

definition firsts :: "'a list \<Rightarrow> 'a list" where
  "firsts xs = rev (remdups (rev xs))"

lemma firsts_snoc: "firsts (xs @ [x]) = (if x \<in> set xs then firsts xs else firsts xs @ [x])"
  by (simp add: firsts_def)

lemma firsts_set [simp]: "set (firsts xs) = set xs" "distinct (firsts xs)"
  by (simp_all add: firsts_def)

lemma add_to_group_map:
  "distinct cs \<Longrightarrow> add_to_group c p (map (\<lambda>x. (x, f x)) cs)
    = (if c \<in> set cs then map (\<lambda>x. (x, if x = c then f x @ [p] else f x)) cs
       else map (\<lambda>x. (x, f x)) cs @ [(c, [p])])"
  by (induction cs) auto

definition care_plants :: "line list \<Rightarrow> string \<Rightarrow> string list" where
  "care_plants ls care = map (\<lambda>l. DisplayName (ln_Plant l)) (filter (\<lambda>l. ct_Name (ln_CareType l) = care) ls)"

lemma foldl_add_to_group:
  "foldl (\<lambda>gs l. add_to_group (ct_Name (ln_CareType l)) (DisplayName (ln_Plant l)) gs) [] ls
    = map (\<lambda>c. (c, care_plants ls c)) (firsts (map (\<lambda>l. ct_Name (ln_CareType l)) ls))"
proof (induction ls rule: rev_induct)
  case (snoc l ls)
  show ?case
    by (auto simp: snoc.IH add_to_group_map firsts_snoc care_plants_def filter_empty_conv image_iff intro!: map_cong)
qed (simp add: firsts_def)

text \<open>
  A digest lists exactly the cares overdue or due today: one sentence for each care type
  among them, in the order they first come in, which names every plant it is due for in order;
  and the count is the number of those cares, so that it is zero exactly when the body is empty
  of sentences.
\<close>

theorem digestOf_lists_due:
  defines "due \<equiv> filter (\<lambda>l. ln_State l \<le> DueToday)"
    and "care \<equiv> \<lambda>l. ct_Name (ln_CareType l)"
  shows "digestOf ToUpper garden ls url =
    (plain_notification garden
       (Join (map (\<lambda>c. capitalise ToUpper c @ '' '' @ listOf (map (\<lambda>l. DisplayName (ln_Plant l)) (filter (\<lambda>l. care l = c) (due ls))) @ ''.'')
          (firsts (map care (due ls)))) '' '') url,
     int (length (due ls)))"
  by (simp add: digestOf_def digest_groups_def due_lines_def foldl_add_to_group care_plants_def due_def care_def
      plain_notification_def comp_def)

end
