(* ===== verification/Http_Words.thy ===== *)
theory Http_Words
  imports Schedule_Today Go_Format Auth_Principal
begin

text \<open>
  The sentences the pages write: \<open>src/internal/http/words.go\<close>.  Times are read in the reader's
  zone, the location of \<open>now\<close>.  \<open>strings.ToLower\<close> and \<open>unicode.ToUpper\<close> are the parameters
  \<open>lower\<close> and \<open>ToUpper\<close>.  Punctuation outside ASCII is written as its UTF-8 bytes.
\<close>

definition dash :: string where "dash = map char_of [226 :: nat, 128, 147]"
definition right_quote :: string where "right_quote = map char_of [226 :: nat, 128, 153]"

definition daysWord :: "int \<Rightarrow> string" where
  "daysWord n = (if n = 1 then ''1 day'' else Itoa n @ '' days'')"

definition lateWord :: "int \<Rightarrow> string" where
  "lateWord days = daysWord days @ '' late''"

definition photosWord :: "int \<Rightarrow> string" where
  "photosWord n = (if n = 1 then ''1 older photo'' else Itoa n @ '' older photos'')"

definition anchorWord :: "gotime \<Rightarrow> string \<Rightarrow> gotime \<Rightarrow> string" where
  "anchorWord due precision now =
     (let year = (if Year due \<noteq> Year now then '' '' @ Itoa (Year due) else '''') in
      if precision = ''month'' then ''in '' @ Month_String (Month due) @ year
      else Itoa (Day_of due) @ '' '' @ Month_String (Month due) @ year)"

definition TrimPrefix :: "string \<Rightarrow> string \<Rightarrow> string" where
  "TrimPrefix s p = (if take (length p) s = p then drop (length p) s else s)"

definition overdueWord :: "line \<Rightarrow> gotime \<Rightarrow> string" where
  "overdueWord l now =
     (if ln_Precision l = ''month''
      then ''overdue since '' @ TrimPrefix (anchorWord (ln_Due l) (ln_Precision l) now) ''in ''
      else lateWord (- ln_Days l))"

definition whenWord :: "int \<Rightarrow> gotime \<Rightarrow> string" where
  "whenWord days today =
     (if days = 1 then ''tomorrow''
      else if days \<le> 6 then Weekday_String (AddDate today 0 0 days)
      else if days \<le> 60 then ''in '' @ daysWord days
      else (let due = AddDate today 0 0 days in
            if Before due (AddDate today 1 0 0) then ''in '' @ Month_String (Month due)
            else ''in '' @ Month_String (Month due) @ '' '' @ Itoa (Year due)))"

definition comingWord :: "line \<Rightarrow> gotime \<Rightarrow> string" where
  "comingWord l now =
     (if ln_Precision l = ''month'' then anchorWord (ln_Due l) (ln_Precision l) now
      else whenWord (ln_Days l) now)"

text \<open>\<open>None\<close> is the panic of \<open>rows[0]\<close> on no rows.\<close>

definition nextLine :: "row list \<Rightarrow> gotime \<Rightarrow> string option" where
  "nextLine rs now =
     (case rs of
        [] \<Rightarrow> None
      | r # rest \<Rightarrow>
          (let when = comingWord (rw_Care r) now; first = DisplayName (rw_Plant r) in
           Some (case rest of
                   [] \<Rightarrow> first @ '' is next, '' @ when @ ''.''
                 | [r'] \<Rightarrow> first @ '' and '' @ DisplayName (rw_Plant r') @ '' are next, '' @ when @ ''.''
                 | _ \<Rightarrow> first @ '' and '' @ Itoa (int (length rs) - 1) @ '' more are next, '' @ when @ ''.'')))"

definition careWords :: "string \<Rightarrow> (string \<times> string) option" where
  "careWords = map_of
     [(''water'', ''watering'', ''watered''), (''feed'', ''feeding'', ''fed''),
      (''repot'', ''repotting'', ''repotted''), (''mist'', ''misting'', ''misted''),
      (''prune'', ''pruning'', ''pruned'')]"

definition careNoun :: "(string \<Rightarrow> string) \<Rightarrow> care_type \<Rightarrow> string" where
  "careNoun lower ct =
     (case careWords (ct_Slug ct) of Some (noun, past) \<Rightarrow> noun | None \<Rightarrow> lower (ct_Name ct))"

definition carePast :: "(string \<Rightarrow> string) \<Rightarrow> care_type \<Rightarrow> string" where
  "carePast lower ct =
     (case careWords (ct_Slug ct) of Some (noun, past) \<Rightarrow> past | None \<Rightarrow> ''logged '' @ lower (ct_Name ct))"

definition capitalise_word :: "(nat \<Rightarrow> nat) \<Rightarrow> string \<Rightarrow> string" where
  "capitalise_word ToUpper s =
     (case DecodeRune s of (r, width) \<Rightarrow>
        if r = RuneError then s else EncodeRune (ToUpper r) @ drop width s)"

definition stamp :: "gotime \<Rightarrow> string" where
  "stamp t = Format_stamp t"

definition clockWord :: "gotime \<Rightarrow> gotime \<Rightarrow> string" where
  "clockWord at now = Format_clock (In_loc at (tloc now))"

definition agoWord :: "gotime \<Rightarrow> gotime \<Rightarrow> string" where
  "agoWord at now =
     (let at = In_loc at (tloc now); days = DaysBetween at now in
      if days \<le> 0 then ''today'' else if days = 1 then ''yesterday''
      else if days \<le> 6 then Weekday_String at
      else Format_day at)"

definition feedWhen :: "gotime \<Rightarrow> gotime \<Rightarrow> string" where
  "feedWhen at now =
     (let when = agoWord at now in
      if DaysBetween at now \<le> 1 then when @ '', '' @ clockWord at now else when)"

definition didWord :: "(string \<Rightarrow> string) \<Rightarrow> bool \<Rightarrow> care_type \<Rightarrow> string" where
  "didWord lower finished ct = (if \<not> finished then ''skipped'' else carePast lower ct)"

definition whoDid ::
  "(string \<Rightarrow> string) \<Rightarrow> principal \<Rightarrow> string \<Rightarrow> care_event \<Rightarrow> care_type \<Rightarrow> string \<times> string" where
  "whoDid lower p performedBy e ct =
     (if ce_PerformedBy e = us_ID (pr_User p) then ''You'' else performedBy, didWord lower (ce_Done e) ct)"

definition dayHeading :: "gotime \<Rightarrow> gotime \<Rightarrow> string" where
  "dayHeading at now =
     (let at = In_loc at (tloc now); days = DaysBetween at now in
      if days \<le> 0 then ''Today'' else if days = 1 then ''Yesterday''
      else if days \<le> 6 then Weekday_String at
      else if Year at = Year now then Format_long_day at
      else Format_long_day_year at)"

definition everyWord :: "int \<Rightarrow> string \<Rightarrow> string" where
  "everyWord cnt unit = (if cnt = 1 then unit else Itoa cnt @ '' '' @ unit @ ''s'')"

definition shortMonth :: "int \<Rightarrow> string" where
  "shortMonth m = take 3 (Month_String m)"

definition seasonWord :: "int \<Rightarrow> int \<Rightarrow> string" where
  "seasonWord opens closes = shortMonth opens @ dash @ shortMonth closes"

definition acquiredWord :: "int option \<Rightarrow> int option \<Rightarrow> string" where
  "acquiredWord year month =
     (case year of
        None \<Rightarrow> ''''
      | Some y \<Rightarrow> (case month of None \<Rightarrow> Itoa y | Some m \<Rightarrow> Month_String m @ '' '' @ Itoa y))"

definition archivedWord :: "gotime \<Rightarrow> gotime \<Rightarrow> string" where
  "archivedWord at now =
     (let at = In_loc at (tloc now) in
      ''Archived '' @ (if Year at \<noteq> Year now then Format_day_year at else Format_day at))"

definition offNote :: "bool \<Rightarrow> string" where
  "offNote on = (if on then '''' else ''Off'')"

definition pendingNote :: "int \<Rightarrow> string" where
  "pendingNote invites =
     (if invites = 0 then '''' else if invites = 1 then ''1 invite pending'' else Itoa invites @ '' invites pending'')"

definition shortRevision :: "string \<Rightarrow> string" where
  "shortRevision revision = (if length revision < 7 then revision else take 7 revision)"

definition usedNote :: "gotime option \<Rightarrow> gotime \<Rightarrow> string" where
  "usedNote at now = (case at of None \<Rightarrow> ''Never used'' | Some t \<Rightarrow> ''Last used '' @ agoWord t now)"

definition hourLabel :: "int \<Rightarrow> string" where
  "hourLabel hour = Format_clock (mk_Date 2000 1 1 hour 0 0 0 utc)"

definition codesNote :: "bool \<Rightarrow> string" where
  "codesNote noneLeft = (if noneLeft then ''No recovery codes'' else '''')"

definition codesLeftWord :: "int \<Rightarrow> int \<Rightarrow> string" where
  "codesLeftWord unused batch = Itoa unused @ '' of '' @ Itoa batch @ '' left''"

definition roleWord :: "(nat \<Rightarrow> nat) \<Rightarrow> string \<Rightarrow> string" where
  "roleWord ToUpper role = capitalise_word ToUpper role"

definition dateWord :: "gotime \<Rightarrow> location \<Rightarrow> string" where
  "dateWord at l = Format_day (In_loc at l)"

definition inviteExpiryWord :: "gotime \<Rightarrow> gotime \<Rightarrow> string" where
  "inviteExpiryWord expiresAt now =
     (if \<not> Before now expiresAt then ''expired''
      else ''expires in '' @ daysWord (max 1 (DaysBetween now (In_loc expiresAt (tloc now)))))"

text \<open>\<open>roleWhat\<close> of \<open>people.go\<close>; a map lookup of an unknown role gives the empty string.\<close>

definition roleWhat :: "string \<Rightarrow> string" where
  "roleWhat role =
     (case map_of
        [(''owner'', ''Owners can do everything, including managing people.''),
         (''member'', ''Members can log care, add and edit plants, and add photos.''),
         (''sitter'', ''Sitters can log care and view everything, but not add plants or photos.'')] role of
        None \<Rightarrow> '''' | Some s \<Rightarrow> s)"

definition joiningSentence :: "string \<Rightarrow> gotime option \<Rightarrow> location \<Rightarrow> string" where
  "joiningSentence role endsAt l =
     ''You'' @ right_quote @ ''ll join as a '' @ role @ ''. '' @ roleWhat role
     @ (case endsAt of None \<Rightarrow> '''' | Some t \<Rightarrow> '' Your access ends on '' @ dateWord t l @ ''.'')"

end
