(* ===== verification/Http_Request.thy ===== *)
theory Http_Request
  imports Store_DB
begin

text \<open>
  What a handler answers and how it calls the store.  A handler runs in a \<open>world\<close>, the tables and
  which database calls fail; \<open>read_or\<close> and \<open>write_or\<close> are one call each, with the branch the
  handler takes on an error.  Templates and headers are not modelled: \<open>Page\<close> holds the data a
  page is rendered from.
\<close>

datatype ('a, 'u) page_answer =
    Page 'a
  | Redirect 'u
  | Not_found
  | Bad_request
  | Server_error
  | Refused string

definition read_or ::
  "(db \<Rightarrow> db_error + 'a) \<Rightarrow> (db_error \<Rightarrow> 'r) \<Rightarrow> ('a \<Rightarrow> world \<Rightarrow> 'r \<times> world) \<Rightarrow> world \<Rightarrow> 'r \<times> world" where
  "read_or query failed k w =
     (case reading query w of (Inl e, w) \<Rightarrow> (failed e, w) | (Inr x, w) \<Rightarrow> k x w)"

definition write_or ::
  "(db \<Rightarrow> db_error + 'a \<times> db) \<Rightarrow> (db_error \<Rightarrow> 'r) \<Rightarrow> ('a \<Rightarrow> world \<Rightarrow> 'r \<times> world) \<Rightarrow> world \<Rightarrow> 'r \<times> world" where
  "write_or query failed k w =
     (case writing query w of (Inl e, w) \<Rightarrow> (failed e, w) | (Inr x, w) \<Rightarrow> k x w)"

text \<open>A missing row is a 404; any other error is a 500.\<close>

definition missing :: "db_error \<Rightarrow> ('a, 'u) page_answer" where
  "missing e = (if e = NoRows then Not_found else Server_error)"

text \<open>A form or a query string: \<open>values.Get\<close>, which gives the empty string for an absent field.\<close>

type_synonym form = "string \<Rightarrow> string"

lemma read_or_cases:
  assumes "read_or query failed k w = (r, w')"
  obtains e where "r = failed e" "tables w' = tables w"
    | x w1 where "query (tables w) = Inr x" "tables w1 = tables w" "k x w1 = (r, w')"
proof -
  obtain b w0 where b: "next_fault w = (b, w0)" by fastforce
  then have t: "tables w0 = tables w" using next_fault_tables [of w] by simp
  show thesis
    using assms b t that by (cases "query (tables w)") (auto simp: read_or_def reading_def split: if_splits)
qed

lemma write_or_cases:
  assumes "write_or query failed k w = (r, w')"
  obtains e where "r = failed e" "tables w' = tables w"
    | x d w1 where "query (tables w) = Inr (x, d)" "tables w1 = d" "k x w1 = (r, w')"
proof -
  obtain b w0 where b: "next_fault w = (b, w0)" by fastforce
  then have t: "tables w0 = tables w" using next_fault_tables [of w] by simp
  show thesis
  proof (cases "b \<or> isl (query (tables w))")
    case True
    with assms b t that(1) show thesis
      by (cases "query (tables w)") (auto simp: write_or_def writing_def split: if_splits)
  next
    case False
    then obtain x d where q: "query (tables w) = Inr (x, d)" by (cases "query (tables w)") auto
    with False assms b t have "k x (w0\<lparr>tables := d\<rparr>) = (r, w')" by (auto simp: write_or_def writing_def)
    with q show thesis by (intro that(2) [of x d "w0\<lparr>tables := d\<rparr>"]) simp_all
  qed
qed

section \<open>What a request may change\<close>

text \<open>From tables \<open>d\<close>, a handler leaves them alone or makes one change allowed by \<open>R\<close>; \<open>quiet\<close> is
  a handler that only reads.\<close>

definition changes :: "(db \<Rightarrow> db \<Rightarrow> bool) \<Rightarrow> db \<Rightarrow> (world \<Rightarrow> 'r \<times> world) \<Rightarrow> bool" where
  "changes R d m \<longleftrightarrow> (\<forall>w r w'. tables w = d \<longrightarrow> m w = (r, w') \<longrightarrow> tables w' = d \<or> R d (tables w'))"

definition quiet :: "(world \<Rightarrow> 'r \<times> world) \<Rightarrow> bool" where
  "quiet m \<longleftrightarrow> (\<forall>w r w'. m w = (r, w') \<longrightarrow> tables w' = tables w)"

named_theorems request_rules \<open>how the calls of a handler compose\<close>

lemma quiet_answer [request_rules]: "quiet (\<lambda>w. (a, w))"
  by (simp add: quiet_def)

lemma quiet_read [request_rules]: "(\<And>x. quiet (k x)) \<Longrightarrow> quiet (read_or query failed k)"
  unfolding quiet_def by (metis read_or_cases)

lemma changes_quiet: "quiet m \<Longrightarrow> changes R d m"
  unfolding quiet_def changes_def by blast

lemma changes_answer: "changes R d (\<lambda>w. (a, w))"
  by (simp add: changes_def)

text \<open>Branches, in front of the state and behind it.\<close>

lemma quiet_branches [request_rules]:
  "(c \<Longrightarrow> quiet m) \<Longrightarrow> (\<not> c \<Longrightarrow> quiet n) \<Longrightarrow> quiet (if c then m else n)"
  "(c \<Longrightarrow> quiet (\<lambda>w. f w)) \<Longrightarrow> (\<not> c \<Longrightarrow> quiet (\<lambda>w. g w)) \<Longrightarrow> quiet (\<lambda>w. if c then f w else g w)"
  "quiet m \<Longrightarrow> (\<And>x. quiet (h x)) \<Longrightarrow> quiet (case v of None \<Rightarrow> m | Some x \<Rightarrow> h x)"
  "quiet (\<lambda>w. f w) \<Longrightarrow> (\<And>x. quiet (\<lambda>w. h x w)) \<Longrightarrow> quiet (\<lambda>w. case v of None \<Rightarrow> f w | Some x \<Rightarrow> h x w)"
  by ((cases c; simp), (cases c; simp), (cases v; simp), (cases v; simp))

lemma changes_branches:
  "(c \<Longrightarrow> changes R d m) \<Longrightarrow> (\<not> c \<Longrightarrow> changes R d n) \<Longrightarrow> changes R d (if c then m else n)"
  "(c \<Longrightarrow> changes R d (\<lambda>w. f w)) \<Longrightarrow> (\<not> c \<Longrightarrow> changes R d (\<lambda>w. g w)) \<Longrightarrow> changes R d (\<lambda>w. if c then f w else g w)"
  "(v = None \<Longrightarrow> changes R d m) \<Longrightarrow> (\<And>x. v = Some x \<Longrightarrow> changes R d (h x)) \<Longrightarrow>
     changes R d (case v of None \<Rightarrow> m | Some x \<Rightarrow> h x)"
  "(v = None \<Longrightarrow> changes R d (\<lambda>w. f w)) \<Longrightarrow> (\<And>x. v = Some x \<Longrightarrow> changes R d (\<lambda>w. h x w)) \<Longrightarrow>
     changes R d (\<lambda>w. case v of None \<Rightarrow> f w | Some x \<Rightarrow> h x w)"
  "(ls = [] \<Longrightarrow> changes R d (\<lambda>w. f w)) \<Longrightarrow> (\<And>x xs. ls = x # xs \<Longrightarrow> changes R d (\<lambda>w. h2 x xs w)) \<Longrightarrow>
     changes R d (\<lambda>w. case ls of [] \<Rightarrow> f w | x # xs \<Rightarrow> h2 x xs w)"
  "(\<And>x. s = Inl x \<Longrightarrow> changes R d (\<lambda>w. hl x w)) \<Longrightarrow> (\<And>x. s = Inr x \<Longrightarrow> changes R d (\<lambda>w. hr x w)) \<Longrightarrow>
     changes R d (\<lambda>w. case s of Inl x \<Rightarrow> hl x w | Inr x \<Rightarrow> hr x w)"
  by ((cases c; simp), (cases c; simp), (cases v; simp), (cases v; simp), (cases ls; simp), (cases s; simp))

lemma changes_read:
  assumes "\<And>x. query d = Inr x \<Longrightarrow> changes R d (k x)"
  shows "changes R d (read_or query failed k)"
  unfolding changes_def
proof (intro allI impI)
  fix w r w'
  assume "tables w = d" and run: "read_or query failed k w = (r, w')"
  from run show "tables w' = d \<or> R d (tables w')"
    by (rule read_or_cases) (use assms \<open>tables w = d\<close> in \<open>auto simp: changes_def\<close>)
qed

lemma changes_write:
  assumes "\<And>x d'. query d = Inr (x, d') \<Longrightarrow> R d d'" "\<And>x. quiet (k x)"
  shows "changes R d (write_or query failed k)"
  unfolding changes_def
proof (intro allI impI)
  fix w r w'
  assume "tables w = d" and run: "write_or query failed k w = (r, w')"
  from run show "tables w' = d \<or> R d (tables w')"
    by (rule write_or_cases) (use assms \<open>tables w = d\<close> in \<open>auto simp: quiet_def\<close>)
qed

lemmas changes_rules = changes_branches changes_read changes_write changes_answer

lemma changesD: "changes R (tables w) m \<Longrightarrow> m w = (r, w') \<Longrightarrow> tables w' = tables w \<or> R (tables w) (tables w')"
  unfolding changes_def by blast

end
