(* ===== verification/Paging.thy ===== *)
theory Paging
  imports Store_Integrity
begin

text \<open>
  Lists shown a page at a time.  A page holds the first rows past a cursor and a link to the next
  page, whose cursor is the last row shown (\<open>newActivityPage\<close> in
  \<open>src/internal/http/activity.go\<close>, \<open>photoGrid\<close> in \<open>photos.go\<close>).  The locale \<open>keyset\<close> is what such
  a page promises; its clients are the activity log and the photo grid.
\<close>

section \<open>Following the links\<close>

partial_function (option) follow :: "('q \<Rightarrow> 'p \<times> 'q option) \<Rightarrow> 'q \<Rightarrow> 'p list option" where
  "follow step q =
     (case step q of
        (p, None) \<Rightarrow> Some [p]
      | (p, Some q') \<Rightarrow> Option.bind (follow step q') (\<lambda>ps. Some (p # ps)))"

declare follow.simps [code]

locale keyset =
  fixes step :: "'q \<Rightarrow> 'p \<times> 'q option"
    and shown :: "'p \<Rightarrow> 'x list"
    and remaining :: "'q \<Rightarrow> 'x list"
    and ok :: "'q \<Rightarrow> bool"
  assumes last_page: "ok q \<Longrightarrow> step q = (p, None) \<Longrightarrow> shown p = remaining q"
    and older_page: "ok q \<Longrightarrow> step q = (p, Some q') \<Longrightarrow>
      ok q' \<and> shown p \<noteq> [] \<and> remaining q = shown p @ remaining q'"
begin

lemma follow_shows_all:
  "ok q \<Longrightarrow> \<exists>ps. follow step q = Some ps \<and> concat (map shown ps) = remaining q
     \<and> (\<forall>p \<in> set (butlast ps). shown p \<noteq> [])"
proof (induction "length (remaining q)" arbitrary: q rule: less_induct)
  case less
  obtain p n where s: "step q = (p, n)" by fastforce
  show ?case
  proof (cases n)
    case None
    with s have "follow step q = Some [p]" by (subst follow.simps) simp
    with last_page [OF less.prems] s None show ?thesis by auto
  next
    case (Some q')
    with older_page [OF less.prems] s have o: "ok q'" "shown p \<noteq> []" "remaining q = shown p @ remaining q'" by blast+
    then have "length (remaining q') < length (remaining q)" by simp
    from less.hyps [OF this o(1)] obtain ps where ps: "follow step q' = Some ps" "concat (map shown ps) = remaining q'"
      "\<forall>p \<in> set (butlast ps). shown p \<noteq> []" by blast
    have "follow step q = Some (p # ps)" using s Some ps(1) by (subst follow.simps) simp
    with ps o show ?thesis by (intro exI [of _ "p # ps"]) auto
  qed
qed

end

section \<open>A sorted table read past a cursor\<close>

context comparison
begin

lemma insert_by_least: "\<forall>z \<in> set zs. cmp x z \<le> 0 \<Longrightarrow> insert_by cmp x zs = x # zs"
  by (cases zs) auto

lemma filter_insert_sorted:
  "sorted_by cmp ys \<Longrightarrow> filter P (insert_by cmp x ys) = (if P x then insert_by cmp x (filter P ys) else filter P ys)"
proof (induction ys)
  case (Cons y ys)
  show ?case
  proof (cases "cmp x y \<le> 0")
    case True
    with Cons.prems have "\<forall>z \<in> set (filter P (y # ys)). cmp x z \<le> 0" using trans by auto
    from insert_by_least [OF this] True show ?thesis by simp
  qed (use Cons in auto)
qed simp

lemma SortStableFunc_filter: "SortStableFunc cmp (filter P xs) = filter P (SortStableFunc cmp xs)"
proof (induction xs)
  case (Cons x xs)
  from filter_insert_sorted [OF sorted_SortStableFunc, of P x xs] Cons show ?case by (simp add: SortStableFunc_def)
qed (simp add: SortStableFunc_def)

text \<open>In a list without equal rows, the rows past one of them are the rest of the sorted list.\<close>

lemma sorted_past:
  assumes "SortStableFunc cmp rs = xs @ r # ys" "distinct rs" "\<And>a b. a \<in> set rs \<Longrightarrow> b \<in> set rs \<Longrightarrow> cmp a b = 0 \<Longrightarrow> a = b"
  shows "SortStableFunc cmp (filter (\<lambda>x. cmp r x < 0) rs) = ys"
proof -
  have s: "sorted_by cmp (xs @ r # ys)" using sorted_SortStableFunc [of rs] assms(1) by simp
  have d: "distinct (xs @ r # ys)"
    using mset_eq_imp_distinct_iff [OF mset_SortStableFunc [of cmp rs]] assms(1,2) by simp
  have sub: "set (xs @ r # ys) = set rs" using set_SortStableFunc [of cmp rs] assms(1) by simp
  have "cmp r y < 0" if "y \<in> set ys" for y
  proof -
    have "cmp r y \<le> 0" using s that by (auto simp: sorted_wrt_append)
    moreover have "cmp r y \<noteq> 0" using assms(3) [of r y] d sub that by auto
    ultimately show ?thesis by simp
  qed
  moreover have "\<not> cmp r x < 0" if "x \<in> set xs" for x
    using s that not_less by (auto simp: sorted_wrt_append)
  ultimately show ?thesis using refl [of r] swap [of r r] unfolding SortStableFunc_filter assms(1)
    by (simp add: filter_empty_conv)
qed

end

text \<open>The step both handlers take with the rows past a cursor, one more than the page shows.\<close>

definition older_page :: "nat \<Rightarrow> 'r list \<Rightarrow> 'r list \<times> bool" where
  "older_page pageSize rs = (if pageSize < length rs then (take pageSize rs, True) else (rs, False))"

lemma older_page_take:
  assumes "older_page n (take (Suc n) rs) = (page, m)"
  shows "\<not> m \<Longrightarrow> page = rs" "m \<Longrightarrow> page = take n rs \<and> n < length rs"
  using assms by (auto simp: older_page_def split: if_splits)

end
