(* ===== verification/Http_Activity.thy ===== *)
theory Http_Activity
  imports Http_Words Http_Request Paging Push_Hour
begin

text \<open>
  The activity log: \<open>src/internal/http/activity.go\<close>, and the rows' links from \<open>correct.go\<close> and
  \<open>photo.go\<close>.  A URL of the log is the query it encodes (\<open>log_query\<close>); the encoding itself,
  \<open>net/url\<close>, and the HTML templates are not modelled.
\<close>

section \<open>The query\<close>

type_synonym cursor = "gotime \<times> uuid"

record log_query =
  lq_plant :: "uuid option"
  lq_care :: string
  lq_from :: string
  lq_to :: string
  lq_before :: "cursor option"

definition empty_query :: log_query where
  "empty_query = \<lparr>lq_plant = None, lq_care = '''', lq_from = '''', lq_to = '''', lq_before = None\<rparr>"

definition plantActivityPath :: "uuid \<Rightarrow> log_query" where
  "plantActivityPath plant = empty_query\<lparr>lq_plant := Some plant\<rparr>"

definition filtered :: "log_query \<Rightarrow> bool" where
  "filtered q \<longleftrightarrow> lq_care q \<noteq> '''' \<or> lq_from q \<noteq> '''' \<or> lq_to q \<noteq> ''''"

definition latest :: "log_query \<Rightarrow> log_query" where
  "latest q = q\<lparr>lq_before := None\<rparr>"

text \<open>\<open>time.ParseInLocation(time.DateOnly, s, loc)\<close> with its error ignored: a date that does not
  parse gives the zero time.\<close>

definition date_in :: "string \<Rightarrow> location \<Rightarrow> gotime" where
  "date_in s l =
     (case Parse_dateKey s of
        None \<Rightarrow> zero_time
      | Some t \<Rightarrow> (case Date_of t of (y, m, d) \<Rightarrow> mk_Date y m d 0 0 0 0 l))"

definition span :: "log_query \<Rightarrow> location \<Rightarrow> gotime option \<times> gotime option" where
  "span q l =
     (if lq_from q \<noteq> '''' then Some (date_in (lq_from q) l) else None,
      if lq_to q \<noteq> '''' then Some (AddDate (date_in (lq_to q) l) 0 0 1) else None)"

section \<open>The filters above the log\<close>

text \<open>An option of a select: its value, its label and whether it is the one selected.\<close>

type_synonym select_option = "string \<times> string \<times> bool"

record log_filters =
  lf_Plant :: string
  lf_Cares :: "select_option list"
  lf_From :: string
  lf_To :: string
  lf_Clear :: "log_query option"
  lf_Summary :: string

definition middle_dot :: string where "middle_dot = map char_of [32 :: nat, 194, 183, 32]"

definition filterDate :: "string \<Rightarrow> gotime \<Rightarrow> string" where
  "filterDate v now =
     (case Parse_dateKey v of
        None \<Rightarrow> v
      | Some at \<Rightarrow> if Year at \<noteq> Year now then Format_day_year at else Format_day at)"

definition newLogFilters :: "log_query \<Rightarrow> care_type list \<Rightarrow> gotime \<Rightarrow> log_filters" where
  "newLogFilters q types now =
     (let parts = map ct_Name (filter (\<lambda>t. ct_Slug t = lq_care q) types)
            @ (if lq_from q \<noteq> '''' then [''from '' @ filterDate (lq_from q) now] else [])
            @ (if lq_to q \<noteq> '''' then [''to '' @ filterDate (lq_to q) now] else [])
      in \<lparr>lf_Plant = (case lq_plant q of None \<Rightarrow> '''' | Some p \<Rightarrow> p),
          lf_Cares = ('''', ''Every care type'', lq_care q = '''')
            # map (\<lambda>t. (ct_Slug t, ct_Name t, ct_Slug t = lq_care q)) types,
          lf_From = lq_from q, lf_To = lq_to q,
          lf_Clear = (if filtered q then Some (empty_query\<lparr>lq_plant := lq_plant q\<rparr>) else None),
          lf_Summary = (if filtered q then Join parts middle_dot else '''')\<rparr>)"

section \<open>Rows\<close>

definition plantPath :: "uuid \<Rightarrow> string" where "plantPath plant = ''/plants/'' @ plant"

definition photoSquarePath :: "uuid \<Rightarrow> uuid \<Rightarrow> string" where
  "photoSquarePath plant photo = plantPath plant @ ''/photos/'' @ photo @ ''/square''"

definition squarePicturePath :: "plant \<Rightarrow> string" where
  "squarePicturePath p = (case pl_ProfilePhotoID p of None \<Rightarrow> '''' | Some h \<Rightarrow> photoSquarePath (pl_ID p) h)"

definition logPath :: "uuid \<Rightarrow> string" where "logPath plant = ''/plants/'' @ plant @ ''/log''"

text \<open>The URL of an event: its path, and the log's query kept on it.\<close>

definition eventPath :: "uuid \<Rightarrow> uuid \<Rightarrow> string \<Rightarrow> log_query \<Rightarrow> string \<times> log_query" where
  "eventPath plant eid suffix q = (logPath plant @ ''/'' @ eid @ suffix, q)"

definition mayCorrect :: "principal \<Rightarrow> care_event \<Rightarrow> bool" where
  "mayCorrect p e \<longleftrightarrow>
     Can p ''care.edit_any'' \<or> ce_PerformedBy e = us_ID (pr_User p) \<and> Can p ''care.edit_own''"

definition mayDelete :: "principal \<Rightarrow> care_event \<Rightarrow> bool" where
  "mayDelete p e \<longleftrightarrow>
     Can p ''care.delete_any'' \<or> ce_PerformedBy e = us_ID (pr_User p) \<and> Can p ''care.delete_own''"

definition correctHref :: "principal \<Rightarrow> log_query \<Rightarrow> care_event \<Rightarrow> (string \<times> log_query) option" where
  "correctHref p q e = (if \<not> mayCorrect p e then None else Some (eventPath (ce_PlantID e) (ce_ID e) '''' q))"

definition eventRowID :: "uuid \<Rightarrow> string" where "eventRowID eid = ''event-'' @ eid"

record log_row =
  ev_ID :: string
  ev_Href :: "(string \<times> log_query) option"
  ev_Act :: string
  ev_Icon :: string
  ev_Skipped :: bool
  ev_Name :: string
  ev_Botanical :: bool
  ev_Picture :: string
  ev_Who :: string
  ev_Did :: string
  ev_When :: string
  ev_Extra :: string

definition left_double :: string where "left_double = map char_of [226 :: nat, 128, 156]"
definition right_double :: string where "right_double = map char_of [226 :: nat, 128, 157]"

definition eventExtra :: "care_event \<Rightarrow> string" where
  "eventExtra e =
     Join ((case ce_OverrideIntervalDays e of
              Some days \<Rightarrow> if \<not> ce_Done e then [''Reminder in '' @ daysWord days] else []
            | None \<Rightarrow> [])
         @ (case ce_Note e of
              Some note \<Rightarrow> if note \<noteq> '''' then [left_double @ note @ right_double] else []
            | None \<Rightarrow> [])) middle_dot"

definition newEventRow :: "(string \<Rightarrow> string) \<Rightarrow> principal \<Rightarrow> log_query \<Rightarrow> event_row \<Rightarrow> gotime \<Rightarrow> log_row" where
  "newEventRow lower p q r now =
     (let e = er_CareEvent r in
      case whoDid lower p (er_PerformedByName r) e (er_CareType r) of (who, did) \<Rightarrow>
        \<lparr>ev_ID = eventRowID (ce_ID e), ev_Href = correctHref p q e, ev_Act = '''', ev_Icon = '''', ev_Skipped = False,
         ev_Name = DisplayName (er_Plant r), ev_Botanical = BotanicalOnly (er_Plant r),
         ev_Picture = squarePicturePath (er_Plant r), ev_Who = who, ev_Did = did,
         ev_When = clockWord (ce_PerformedAt e) now, ev_Extra = eventExtra e\<rparr>)"

definition newPlantEventRow ::
  "(string \<Rightarrow> string) \<Rightarrow> (nat \<Rightarrow> nat) \<Rightarrow> principal \<Rightarrow> log_query \<Rightarrow> event_row \<Rightarrow> gotime \<Rightarrow> log_row" where
  "newPlantEventRow lower ToUpper p q r now =
     (let e = er_CareEvent r in
      case whoDid lower p (er_PerformedByName r) e (er_CareType r) of (who, did) \<Rightarrow>
        \<lparr>ev_ID = eventRowID (ce_ID e), ev_Href = correctHref p q e, ev_Act = capitalise_word ToUpper did,
         ev_Icon = ct_Icon (er_CareType r), ev_Skipped = (\<not> ce_Done e), ev_Name = '''', ev_Botanical = False,
         ev_Picture = '''', ev_Who = who, ev_Did = '''',
         ev_When = agoWord (ce_PerformedAt e) now @ '', '' @ clockWord (ce_PerformedAt e) now,
         ev_Extra = eventExtra e\<rparr>)"

section \<open>The items of a page\<close>

datatype log_item = Day_marker string int | Silence string | Event log_row

definition gardenSilence :: int where "gardenSilence = 3"
definition shortestPlantSilence :: int where "shortestPlantSilence = 14"

definition silenceLabel :: "int \<Rightarrow> string" where
  "silenceLabel days = ''No activity for '' @ daysWord days"

definition event_day :: "gotime \<Rightarrow> event_row \<Rightarrow> int" where
  "event_day now r = DaysBetween (ce_PerformedAt (er_CareEvent r)) now"

text \<open>The loop of \<open>logItems\<close> over the runs of one day; \<open>prev\<close> is the day of the run before.\<close>

function log_runs ::
  "(string \<Rightarrow> string) \<Rightarrow> principal \<Rightarrow> log_query \<Rightarrow> gotime \<Rightarrow> int option \<Rightarrow> event_row list \<Rightarrow> log_item list" where
  "log_runs lower p q now prev [] = []"
| "log_runs lower p q now prev (r # rs) =
     (let d = event_day now r;
          run = takeWhile (\<lambda>x. event_day now x = d) rs;
          quiet = (case prev of
                     None \<Rightarrow> []
                   | Some d' \<Rightarrow> if gardenSilence \<le> d - d' - 1 then [Silence (silenceLabel (d - d' - 1))] else [])
      in quiet @ [Day_marker (dayHeading (ce_PerformedAt (er_CareEvent r)) now) (int (length run) + 1)]
         @ map (\<lambda>x. Event (newEventRow lower p q x now)) (r # run)
         @ log_runs lower p q now (Some d) (dropWhile (\<lambda>x. event_day now x = d) rs))"
  by pat_completeness auto
termination
  by (relation "measure (\<lambda>(lower, p, q, now, prev, rs). length rs)") (auto simp: le_imp_less_Suc length_dropWhile_le)

definition logItems ::
  "(string \<Rightarrow> string) \<Rightarrow> principal \<Rightarrow> log_query \<Rightarrow> event_row list \<Rightarrow> gotime \<Rightarrow> log_item list" where
  "logItems lower p q events now = log_runs lower p q now None events"

definition daysApart :: "event_row \<Rightarrow> event_row \<Rightarrow> gotime \<Rightarrow> int" where
  "daysApart newer older now = event_day now older - event_day now newer"

fun gaps_of :: "gotime \<Rightarrow> event_row list \<Rightarrow> int list" where
  "gaps_of now (a # b # rs) = daysApart a b now # gaps_of now (b # rs)"
| "gaps_of now _ = []"

definition plantSilenceFloor :: "event_row list \<Rightarrow> gotime \<Rightarrow> int" where
  "plantSilenceFloor events now =
     (let gaps = gaps_of now events in
      if gaps = [] then shortestPlantSilence
      else max shortestPlantSilence (sort gaps ! (length gaps div 2) * 2))"

fun plant_items ::
  "(string \<Rightarrow> string) \<Rightarrow> (nat \<Rightarrow> nat) \<Rightarrow> principal \<Rightarrow> log_query \<Rightarrow> gotime \<Rightarrow> int \<Rightarrow> event_row option \<Rightarrow> event_row list \<Rightarrow> log_item list" where
  "plant_items lower ToUpper p q now least prev [] = []"
| "plant_items lower ToUpper p q now least prev (r # rs) =
     (case prev of
        None \<Rightarrow> []
      | Some r' \<Rightarrow> if least \<le> daysApart r' r now then [Silence (silenceLabel (daysApart r' r now))] else [])
     @ Event (newPlantEventRow lower ToUpper p q r now) # plant_items lower ToUpper p q now least (Some r) rs"

definition plantLogItems ::
  "(string \<Rightarrow> string) \<Rightarrow> (nat \<Rightarrow> nat) \<Rightarrow> principal \<Rightarrow> log_query \<Rightarrow> event_row list \<Rightarrow> gotime \<Rightarrow> log_item list" where
  "plantLogItems lower ToUpper p q events now =
     plant_items lower ToUpper p q now (plantSilenceFloor events now) None events"

section \<open>The page\<close>

record log_pager =
  lp_Older :: "log_query option"
  lp_Latest :: "log_query option"

record activity_empty =
  ae_NoPlants :: bool
  ae_Title :: string
  ae_Line :: string
  ae_Action :: "(string \<times> string) option"

record activity_page =
  ap_Back :: "(string \<times> string) option"
  ap_Calendar :: string
  ap_Filters :: log_filters
  ap_Items :: "log_item list"
  ap_Pager :: "log_pager option"
  ap_Empty :: "activity_empty option"

definition newPager :: "log_query \<Rightarrow> care_event \<Rightarrow> bool \<Rightarrow> log_pager option" where
  "newPager q last_shown there_is_more =
     (let older = (if there_is_more
                   then Some (q\<lparr>lq_before := Some (ce_PerformedAt last_shown, ce_ID last_shown)\<rparr>) else None);
          newest = (if lq_before q \<noteq> None then Some (latest q) else None)
      in if older = None \<and> newest = None then None else Some \<lparr>lp_Older = older, lp_Latest = newest\<rparr>)"

definition newActivityEmpty :: "principal \<Rightarrow> int \<Rightarrow> bool \<Rightarrow> activity_empty" where
  "newActivityEmpty p plants by_filter =
     (if by_filter
      then \<lparr>ae_NoPlants = False, ae_Title = ''Nothing matches these filters'', ae_Line = '''', ae_Action = None\<rparr>
      else if plants = 0
      then \<lparr>ae_NoPlants = True, ae_Title = ''No plants yet'', ae_Line = ''Add a plant to see its tasks here.'',
            ae_Action = (if Can p ''plant.create'' then Some (''Add plant'', ''/plants/new'') else None)\<rparr>
      else \<lparr>ae_NoPlants = False, ae_Title = ''No activity yet'', ae_Line = ''Anything you log shows up here.'',
            ae_Action = None\<rparr>)"

definition logPageSize :: nat where "logPageSize = 20"

definition newActivityPage ::
  "(string \<Rightarrow> string) \<Rightarrow> (nat \<Rightarrow> nat) \<Rightarrow> principal \<Rightarrow> log_query \<Rightarrow> plant option \<Rightarrow> event_row list \<Rightarrow> int \<Rightarrow> gotime \<Rightarrow>
     log_filters \<Rightarrow> activity_page" where
  "newActivityPage lower ToUpper p q plant events plants now filters =
     (let page = \<lparr>ap_Back = map_option (\<lambda>pl. (DisplayName pl, plantPath (pl_ID pl))) plant,
            ap_Calendar = (if plant = None then ''/calendar'' else ''''),
            ap_Filters = filters, ap_Items = [], ap_Pager = None, ap_Empty = None\<rparr>
      in case older_page logPageSize events of (events, there_is_more) \<Rightarrow>
        if events = [] then page\<lparr>ap_Empty := Some (newActivityEmpty p plants (filtered q))\<rparr>
        else page\<lparr>ap_Items := (if plant = None then logItems lower p q events now
                               else plantLogItems lower ToUpper p q events now),
                  ap_Pager := newPager q (er_CareEvent (last events)) there_is_more\<rparr>)"

datatype page_error = Page_store db_error | Unknown_care

definition filter_plant :: "principal \<Rightarrow> log_query \<Rightarrow> db \<Rightarrow> page_error + plant option" where
  "filter_plant p q d =
     (case lq_plant q of
        None \<Rightarrow> Inr None
      | Some i \<Rightarrow> (case GetPlant (ga_ID (pr_Garden p)) i d of Inl e \<Rightarrow> Inl (Page_store e) | Inr pl \<Rightarrow> Inr (Some pl)))"

definition filter_care :: "log_query \<Rightarrow> care_type list \<Rightarrow> page_error + uuid option" where
  "filter_care q types =
     (if lq_care q = '''' then Inr None
      else (case find (\<lambda>t. ct_Slug t = lq_care q) types of
              None \<Rightarrow> Inl Unknown_care
            | Some t \<Rightarrow> Inr (Some (ct_ID t))))"

definition log_filter :: "principal \<Rightarrow> log_query \<Rightarrow> uuid option \<Rightarrow> location \<Rightarrow> log_params" where
  "log_filter p q care l =
     \<lparr>lp_GardenID = ga_ID (pr_Garden p), lp_PlantID = lq_plant q, lp_CareTypeID = care,
      lp_Since = fst (span q l), lp_Until = snd (span q l)\<rparr>"

definition activity_log ::
  "(string \<Rightarrow> string) \<Rightarrow> (nat \<Rightarrow> nat) \<Rightarrow> principal \<Rightarrow> gotime \<Rightarrow> db \<Rightarrow> log_query \<Rightarrow> page_error + activity_page" where
  "activity_log lower ToUpper p now d q =
     (case filter_plant p q d of
        Inl e \<Rightarrow> Inl e
      | Inr plant \<Rightarrow>
     (case ListAllCareTypes (ga_ID (pr_Garden p)) d of
        Inl e \<Rightarrow> Inl (Page_store e)
      | Inr types \<Rightarrow>
     (case filter_care q types of
        Inl e \<Rightarrow> Inl e
      | Inr care \<Rightarrow>
     (case ListCareEventLog (log_filter p q care (tloc now)) (lq_before q) (logPageSize + 1) d of
        Inl e \<Rightarrow> Inl (Page_store e)
      | Inr events \<Rightarrow>
     (case CountPlants (ga_ID (pr_Garden p)) d of
        Inl e \<Rightarrow> Inl (Page_store e)
      | Inr plants \<Rightarrow>
          Inr (newActivityPage lower ToUpper p q plant events plants now (newLogFilters q types now)))))))"

text \<open>What \<open>show\<close> answers: a page, the newest page when a cursor points past the end, a 404 or a
  500.\<close>

definition show_log ::
  "(string \<Rightarrow> string) \<Rightarrow> (nat \<Rightarrow> nat) \<Rightarrow> principal \<Rightarrow> gotime \<Rightarrow> db \<Rightarrow> log_query \<Rightarrow> (activity_page, log_query) page_answer" where
  "show_log lower ToUpper p now d q =
     (case activity_log lower ToUpper p now d q of
        Inl (Page_store NoRows) \<Rightarrow> Not_found
      | Inl Unknown_care \<Rightarrow> Not_found
      | Inl (Page_store _) \<Rightarrow> Server_error
      | Inr page \<Rightarrow>
          if ap_Empty page \<noteq> None \<and> lq_before q \<noteq> None then Redirect (latest q) else Page page)"

section \<open>Every event has one row\<close>

text \<open>With unique keys and references that hold, joining an event's plant, care type and performer
  gives exactly one row for each event.\<close>

lemma join_one:
  assumes "distinct (map k xs)" "x \<in> set xs" "P x" "\<And>y. y \<in> set xs \<Longrightarrow> P y \<Longrightarrow> k y = k x"
  shows "filter P xs = [x]"
  using assms
proof (induction xs)
  case (Cons y ys)
  have new: "k y \<noteq> k z" if "z \<in> set ys" for z using Cons.prems(1) that by auto
  show ?case
  proof (cases "y = x")
    case True
    with new Cons.prems(4) have "\<not> P z" if "z \<in> set ys" for z using that by fastforce
    with True Cons.prems(3) show ?thesis by (simp add: filter_empty_conv)
  next
    case False
    with Cons.prems(2) have x: "x \<in> set ys" by simp
    with new Cons.prems(4) have "\<not> P y" by fastforce
    moreover have "filter P ys = [x]" using Cons.prems(1,3) x by (intro Cons.IH Cons.prems(4)) simp_all
    ultimately show ?thesis by simp
  qed
qed simp

lemma concat_if: "concat (map (\<lambda>x. if P x then g x else []) xs) = concat (map g (filter P xs))"
  by (induction xs) auto

definition log_ok :: "db \<Rightarrow> bool" where
  "log_ok d \<longleftrightarrow> care_ok d \<and> distinct (map us_ID (t_app_user d))"

lemma event_rows_events:
  assumes "log_ok d"
  shows "map er_CareEvent (event_rows d) = t_care_event d"
proof -
  have ids: "distinct (map pl_ID (t_plant d))" "distinct (map ct_ID (t_care_type d))"
    "distinct (map us_ID (t_app_user d))"
    using assms by (auto simp: log_ok_def care_ok_def keys_ok_def view_defs comp_def)
  let ?row = "\<lambda>e p c u. \<lparr>er_CareEvent = e, er_Plant = p, er_CareType = c, er_PerformedByName = us_DisplayName u\<rparr>"
  let ?rows = "\<lambda>e. concat (map (\<lambda>p. concat (map (\<lambda>c. concat (map (\<lambda>u. [?row e p c u])
      (filter (\<lambda>u. us_ID u = ce_PerformedBy e) (t_app_user d))))
      (filter (\<lambda>c. ct_ID c = ce_CareTypeID e \<and> ct_GardenID c = ce_GardenID e) (t_care_type d))))
      (filter (\<lambda>p. pl_ID p = ce_PlantID e \<and> pl_GardenID p = ce_GardenID e) (t_plant d)))"
  have one: "map er_CareEvent (?rows e) = [e]" if "e \<in> set (t_care_event d)" for e
  proof -
    have "event_keys e d" using assms that care_ok_event(2) by (simp add: log_ok_def)
    then obtain p c u where "p \<in> set (t_plant d)" "pl_ID p = ce_PlantID e" "pl_GardenID p = ce_GardenID e"
      "c \<in> set (t_care_type d)" "ct_ID c = ce_CareTypeID e" "ct_GardenID c = ce_GardenID e"
      "u \<in> set (t_app_user d)" "us_ID u = ce_PerformedBy e"
      by (auto simp: event_keys_def has_plant_def has_care_type_def has_user_def list_ex_iff)
    then have "filter (\<lambda>p. pl_ID p = ce_PlantID e \<and> pl_GardenID p = ce_GardenID e) (t_plant d) = [p]"
      "filter (\<lambda>c. ct_ID c = ce_CareTypeID e \<and> ct_GardenID c = ce_GardenID e) (t_care_type d) = [c]"
      "filter (\<lambda>u. us_ID u = ce_PerformedBy e) (t_app_user d) = [u]"
      using ids by (auto intro: join_one)
    then show ?thesis by simp
  qed
  have "event_rows d = concat (map ?rows (t_care_event d))"
    unfolding event_rows_def concat_if ..
  then have "map er_CareEvent (event_rows d) = concat (map (\<lambda>e. map er_CareEvent (?rows e)) (t_care_event d))"
    by (simp only: map_concat map_map comp_def)
  also have "\<dots> = concat (map (\<lambda>e. [e]) (t_care_event d))"
    using one by (intro arg_cong [of _ _ concat] map_cong) auto
  finally show ?thesis by simp
qed

section \<open>Following the Older links\<close>

text \<open>The rows of the log past a cursor, without a limit.\<close>

definition rows_past :: "log_params \<Rightarrow> cursor option \<Rightarrow> db \<Rightarrow> event_row list" where
  "rows_past a before d =
     SortStableFunc newest_first
       (filter (\<lambda>r. log_matches a r
                    \<and> before_cursor before (ce_PerformedAt (er_CareEvent r)) (ce_ID (er_CareEvent r)))
         (event_rows d))"

lemma ListCareEventLog_rows: "ListCareEventLog a before n d = Inr (take n (rows_past a before d))"
  by (simp add: ListCareEventLog_def rows_past_def)

interpretation log_order: comparison newest_first
  by (rule comparison_by_time_id_desc)

abbreviation row_cursor :: "event_row \<Rightarrow> cursor" where
  "row_cursor r \<equiv> (ce_PerformedAt (er_CareEvent r), ce_ID (er_CareEvent r))"

lemma before_row_cursor:
  "before_cursor (Some (row_cursor r)) (ce_PerformedAt (er_CareEvent x)) (ce_ID (er_CareEvent x))
    \<longleftrightarrow> newest_first r x < 0"
  by (simp add: before_cursor_def by_time_id_desc_def by_time_id_def)

lemma before_cursor_trans:
  assumes "before_cursor before (ce_PerformedAt (er_CareEvent r)) (ce_ID (er_CareEvent r))" "newest_first r x < 0"
  shows "before_cursor before (ce_PerformedAt (er_CareEvent x)) (ce_ID (er_CareEvent x))"
proof (cases before)
  case (Some b)
  obtain bat bid where b: "b = (bat, bid)" by (cases b)
  define z :: event_row where "z = \<lparr>er_CareEvent = zero_CareEvent\<lparr>ce_PerformedAt := bat, ce_ID := bid\<rparr>,
    er_Plant = zero_Plant, er_CareType = zero_CareType, er_PerformedByName = ''''\<rparr>"
  have "before_cursor before (ce_PerformedAt (er_CareEvent y)) (ce_ID (er_CareEvent y)) \<longleftrightarrow> newest_first z y < 0" for y
    using before_row_cursor [of z y] by (simp add: Some b z_def)
  with assms show ?thesis using log_order.less_le_trans log_order.swap [of r x] log_order.total [of r x] by blast
qed (simp add: before_cursor_def)

lemma rows_past_rest:
  assumes "log_ok d" "rows_past a before d = xs @ r # ys"
  shows "rows_past a (Some (row_cursor r)) d = ys"
proof -
  let ?in = "\<lambda>x. log_matches a x \<and> before_cursor before (ce_PerformedAt (er_CareEvent x)) (ce_ID (er_CareEvent x))"
  let ?rs = "filter ?in (event_rows d)"
  have ids: "distinct (map (\<lambda>r. ce_ID (er_CareEvent r)) (event_rows d))"
    using event_rows_events [OF assms(1)] care_ok_event(1) assms(1)
    by (metis (no_types, lifting) log_ok_def map_map comp_def map_cong)
  then have inj: "a = b" if "a \<in> set ?rs" "b \<in> set ?rs" "newest_first a b = 0" for a b
    using that by (auto simp: by_time_id_desc_def by_time_id_def strings_Compare_eq distinct_map dest: inj_onD)
  have "r \<in> set (rows_past a before d)" using assms(2) by simp
  then have r: "?in r" by (simp add: rows_past_def)
  have "SortStableFunc newest_first (filter (\<lambda>x. newest_first r x < 0) ?rs) = ys"
    by (rule log_order.sorted_past [OF assms(2) [unfolded rows_past_def] _ inj])
      (use ids in \<open>auto simp: distinct_map\<close>)
  moreover have "filter (\<lambda>x. newest_first r x < 0) ?rs
      = filter (\<lambda>x. log_matches a x \<and> newest_first r x < 0) (event_rows d)"
    using before_cursor_trans r by (auto intro!: filter_cong)
  ultimately show ?thesis by (simp only: rows_past_def before_row_cursor)
qed

text \<open>The rows a page shows, by their ids.\<close>

definition item_ids :: "log_item list \<Rightarrow> string list" where
  "item_ids items = concat (map (\<lambda>i. case i of Event r \<Rightarrow> [ev_ID r] | _ \<Rightarrow> []) items)"

abbreviation row_id :: "event_row \<Rightarrow> string" where
  "row_id r \<equiv> eventRowID (ce_ID (er_CareEvent r))"

lemma item_ids_simps [simp]:
  "item_ids [] = []" "item_ids (xs @ ys) = item_ids xs @ item_ids ys"
  "item_ids (Event r # xs) = ev_ID r # item_ids xs" "item_ids (Day_marker t n # xs) = item_ids xs"
  "item_ids (Silence t # xs) = item_ids xs"
  by (simp_all add: item_ids_def)

lemma row_ids [simp]:
  "ev_ID (newEventRow lower p q r now) = row_id r" "ev_ID (newPlantEventRow lower ToUpper p q r now) = row_id r"
  by (simp_all add: newEventRow_def newPlantEventRow_def Let_def split: prod.split)

lemma item_ids_events: "(\<And>x. ev_ID (f x) = row_id x) \<Longrightarrow> item_ids (map (\<lambda>x. Event (f x)) rs) = map row_id rs"
  by (induction rs) simp_all

lemma log_runs_ids: "item_ids (log_runs lower p q now prev rs) = map row_id rs"
proof (induction lower p q now prev rs rule: log_runs.induct)
  case (2 lower p q now prev r rs)
  let ?d = "event_day now r"
  have "map row_id (takeWhile (\<lambda>x. event_day now x = ?d) rs) @ map row_id (dropWhile (\<lambda>x. event_day now x = ?d) rs)
      = map row_id rs"
    by (simp flip: map_append)
  then show ?case using 2 [OF refl refl refl]
    by (simp add: Let_def item_ids_events split: option.split)
qed simp

lemma plant_items_ids: "item_ids (plant_items lower ToUpper p q now least prev rs) = map row_id rs"
  by (induction rs arbitrary: prev) (simp_all split: option.split)

text \<open>One page and the query behind its Older link.\<close>

definition log_step ::
  "(string \<Rightarrow> string) \<Rightarrow> (nat \<Rightarrow> nat) \<Rightarrow> principal \<Rightarrow> gotime \<Rightarrow> db \<Rightarrow> log_query \<Rightarrow>
     (page_error + activity_page) \<times> log_query option" where
  "log_step lower ToUpper p now d q =
     (let r = activity_log lower ToUpper p now d q in
      (r, case r of Inl _ \<Rightarrow> None | Inr page \<Rightarrow> Option.bind (ap_Pager page) lp_Older))"

definition page_ids :: "page_error + activity_page \<Rightarrow> string list" where
  "page_ids r = (case r of Inl _ \<Rightarrow> [] | Inr page \<Rightarrow> item_ids (ap_Items page))"

text \<open>The filters name a plant and a care type of the garden.\<close>

definition names_page :: "principal \<Rightarrow> db \<Rightarrow> log_query \<Rightarrow> bool" where
  "names_page p d q \<longleftrightarrow>
     if_set (lq_plant q) (\<lambda>i. has_plant (ga_ID (pr_Garden p)) i d)
     \<and> (lq_care q = '''' \<or> list_ex (\<lambda>t. ct_GardenID t = ga_ID (pr_Garden p) \<and> ct_Slug t = lq_care q) (t_care_type d))"

text \<open>The rows the filters let through past the query's cursor.\<close>

definition log_remaining :: "principal \<Rightarrow> gotime \<Rightarrow> db \<Rightarrow> log_query \<Rightarrow> event_row list" where
  "log_remaining p now d q =
     (let types = SortStableFunc (by_time_id ct_CreatedAt ct_ID)
            (filter (\<lambda>c. ct_GardenID c = ga_ID (pr_Garden p)) (t_care_type d));
          care = (if lq_care q = '''' then None else map_option ct_ID (find (\<lambda>t. ct_Slug t = lq_care q) types))
      in rows_past (log_filter p q care (tloc now)) (lq_before q) d)"

lemma log_remaining_cursor:
  "log_remaining p now d (q\<lparr>lq_before := b\<rparr>)
    = rows_past (log_filter p q (if lq_care q = '''' then None else map_option ct_ID (find (\<lambda>t. ct_Slug t = lq_care q)
        (SortStableFunc (by_time_id ct_CreatedAt ct_ID)
            (filter (\<lambda>c. ct_GardenID c = ga_ID (pr_Garden p)) (t_care_type d))))) (tloc now)) b d"
  by (simp add: log_remaining_def log_filter_def span_def Let_def)

lemma activity_log_page:
  assumes "log_ok d" "names_page p d q"
  shows "\<exists>plant plants filters. activity_log lower ToUpper p now d q
    = Inr (newActivityPage lower ToUpper p q plant (take (logPageSize + 1) (log_remaining p now d q)) plants now filters)"
proof -
  let ?g = "ga_ID (pr_Garden p)"
  have "\<exists>plant. filter_plant p q d = Inr plant"
  proof (cases "lq_plant q")
    case (Some i)
    with assms(2) obtain pl where pl: "pl \<in> set (t_plant d)" "pl_ID pl = i" "pl_GardenID pl = ?g"
      by (auto simp: names_page_def if_set_def has_plant_def list_ex_iff)
    moreover have "distinct (map pl_ID (t_plant d))"
      using assms(1) by (auto simp: log_ok_def care_ok_def keys_ok_def view_defs comp_def)
    ultimately have "filter (\<lambda>p. pl_GardenID p = ?g \<and> pl_ID p = i) (t_plant d) = [pl]" by (auto intro: join_one)
    with Some show ?thesis by (simp add: filter_plant_def GetPlant_def one_row_def)
  qed (simp add: filter_plant_def)
  then obtain plant where plant: "filter_plant p q d = Inr plant" ..
  define types where "types = SortStableFunc (by_time_id ct_CreatedAt ct_ID)
    (filter (\<lambda>c. ct_GardenID c = ?g) (t_care_type d))"
  have care: "filter_care q types
      = Inr (if lq_care q = '''' then None else map_option ct_ID (find (\<lambda>t. ct_Slug t = lq_care q) types))"
  proof (cases "lq_care q = ''''")
    case False
    with assms(2) have "find (\<lambda>t. ct_Slug t = lq_care q) types \<noteq> None"
      by (auto simp: names_page_def list_ex_iff find_None_iff types_def)
    with False show ?thesis by (auto simp: filter_care_def)
  qed (simp add: filter_care_def)
  show ?thesis
    unfolding activity_log_def plant ListAllCareTypes_def ListCareEventLog_rows CountPlants_def log_remaining_def Let_def
      types_def [symmetric] sum.case care by blast
qed

lemma newActivityPage_older:
  fixes lower ToUpper p q plant plants now filters
  assumes "older_page logPageSize events = (shown, more_rows)"
  defines "page \<equiv> newActivityPage lower ToUpper p q plant events plants now filters"
  shows "item_ids (ap_Items page) = map row_id shown"
    "Option.bind (ap_Pager page) lp_Older
      = (if more_rows then Some (q\<lparr>lq_before := Some (row_cursor (last shown))\<rparr>) else None)"
proof -
  show "item_ids (ap_Items page) = map row_id shown"
    using assms(1)
    by (simp add: page_def newActivityPage_def logItems_def plantLogItems_def log_runs_ids plant_items_ids Let_def)
  have "more_rows \<Longrightarrow> shown \<noteq> []"
    using assms(1) by (auto simp: older_page_def logPageSize_def split: if_splits)
  then show "Option.bind (ap_Pager page) lp_Older
      = (if more_rows then Some (q\<lparr>lq_before := Some (row_cursor (last shown))\<rparr>) else None)"
    using assms(1) by (simp add: page_def newActivityPage_def newPager_def Let_def)
qed

interpretation log_pages: keyset "log_step lower ToUpper p now d" page_ids
  "\<lambda>q. map row_id (log_remaining p now d q)" "\<lambda>q. log_ok d \<and> names_page p d q" for lower ToUpper p now d
proof
  fix q page q'
  assume ok: "log_ok d \<and> names_page p d q"
  define rs where "rs = log_remaining p now d q"
  obtain shown m where o: "older_page logPageSize (take (logPageSize + 1) rs) = (shown, m)" by fastforce
  note page = older_page_take [OF o [simplified]]
  from activity_log_page [of d p q lower ToUpper now] ok newActivityPage_older [OF o]
  have step: "page_ids (fst (log_step lower ToUpper p now d q)) = map row_id shown"
    "snd (log_step lower ToUpper p now d q)
      = (if m then Some (q\<lparr>lq_before := Some (row_cursor (last shown))\<rparr>) else None)"
    by (auto simp: log_step_def page_ids_def Let_def rs_def)
  show "page_ids page = map row_id (log_remaining p now d q)"
    if "log_step lower ToUpper p now d q = (page, None)"
    using step that page by (auto simp: rs_def split: if_splits)
  show "(log_ok d \<and> names_page p d q') \<and> page_ids page \<noteq> [] \<and>
      map row_id (log_remaining p now d q) = page_ids page @ map row_id (log_remaining p now d q')"
    if "log_step lower ToUpper p now d q = (page, Some q')"
  proof -
    have m: m and q': "q' = q\<lparr>lq_before := Some (row_cursor (last shown))\<rparr>" and shown: "page_ids page = map row_id shown"
      using step that by (auto split: if_splits)
    have s: "shown = take logPageSize rs" "logPageSize < length rs" using page(2) [OF m] by auto
    then have "shown \<noteq> []" by (auto simp: logPageSize_def)
    then have split: "rs = butlast shown @ last shown # drop logPageSize rs"
      using s by (metis append_butlast_last_id append_Cons append_Nil append_assoc append_take_drop_id)
    have past: "rs = rows_past (log_filter p q (if lq_care q = '''' then None else map_option ct_ID
        (find (\<lambda>t. ct_Slug t = lq_care q) (SortStableFunc (by_time_id ct_CreatedAt ct_ID)
            (filter (\<lambda>c. ct_GardenID c = ga_ID (pr_Garden p)) (t_care_type d))))) (tloc now)) (lq_before q) d"
      using log_remaining_cursor [of p now d "lq_before q" q] by (simp add: rs_def)
    have "log_remaining p now d q' = drop logPageSize rs"
      unfolding q' log_remaining_cursor
      by (rule rows_past_rest [OF _ trans [OF past [symmetric] split]]) (use ok in simp)
    moreover have "names_page p d q'" using ok by (simp add: q' names_page_def)
    ultimately show ?thesis
      using ok shown s \<open>shown \<noteq> []\<close> by (simp add: rs_def flip: map_append)
  qed
qed

text \<open>The events a query asks for, whatever page it is on.\<close>

definition in_log :: "principal \<Rightarrow> gotime \<Rightarrow> db \<Rightarrow> log_query \<Rightarrow> care_event \<Rightarrow> bool" where
  "in_log p now d q e \<longleftrightarrow>
     ce_GardenID e = ga_ID (pr_Garden p)
     \<and> if_set (lq_plant q) (\<lambda>i. ce_PlantID e = i)
     \<and> (lq_care q = '''' \<or> list_ex (\<lambda>t. ct_ID t = ce_CareTypeID e \<and> ct_GardenID t = ga_ID (pr_Garden p)
                                      \<and> ct_Slug t = lq_care q) (t_care_type d))
     \<and> if_set (fst (span q (tloc now))) (\<lambda>t. \<not> Before (ce_PerformedAt e) t)
     \<and> if_set (snd (span q (tloc now))) (\<lambda>t. Before (ce_PerformedAt e) t)"

lemma slug_unique:
  assumes "care_ok d" "t \<in> set (t_care_type d)" "t' \<in> set (t_care_type d)" "ct_GardenID t = ct_GardenID t'"
    "ct_Slug t = ct_Slug t'"
  shows "ct_ID t = ct_ID t'"
proof -
  have "distinct (map (\<lambda>t. (ct_GardenID t, ct_Slug t)) (t_care_type d))"
    using assms(1) by (auto simp: care_ok_def keys_ok_def view_defs comp_def)
  with assms show ?thesis by (auto simp: distinct_map dest: inj_onD)
qed

lemma log_remaining_events:
  assumes "log_ok d" "names_page p d q" "lq_before q = None"
  shows "sorted_by (by_time_id_desc ce_PerformedAt ce_ID) (map er_CareEvent (log_remaining p now d q))"
    "mset (map er_CareEvent (log_remaining p now d q)) = mset (filter (in_log p now d q) (t_care_event d))"
proof -
  let ?g = "ga_ID (pr_Garden p)"
  define types where "types = SortStableFunc (by_time_id ct_CreatedAt ct_ID)
    (filter (\<lambda>c. ct_GardenID c = ?g) (t_care_type d))"
  define care where "care = (if lq_care q = '''' then None else map_option ct_ID (find (\<lambda>t. ct_Slug t = lq_care q) types))"
  have rem: "log_remaining p now d q
      = SortStableFunc newest_first (filter (log_matches (log_filter p q care (tloc now))) (event_rows d))"
    using assms(3) by (simp add: log_remaining_def rows_past_def before_cursor_def care_def types_def Let_def)
  have c: "if_set care (\<lambda>c. ce_CareTypeID e = c) \<longleftrightarrow> lq_care q = '''' \<or> list_ex (\<lambda>t. ct_ID t = ce_CareTypeID e
      \<and> ct_GardenID t = ?g \<and> ct_Slug t = lq_care q) (t_care_type d)" for e
  proof (cases "lq_care q = ''''")
    case False
    with assms(2) obtain t where t: "find (\<lambda>t. ct_Slug t = lq_care q) types = Some t"
      by (cases "find (\<lambda>t. ct_Slug t = lq_care q) types")
        (auto simp: names_page_def list_ex_iff find_None_iff types_def)
    then have "t \<in> set types" "ct_Slug t = lq_care q" by (auto simp: find_Some_iff)
    then have "t \<in> set (t_care_type d)" "ct_GardenID t = ?g" "ct_Slug t = lq_care q" by (auto simp: types_def)
    note in_d = this
    have "list_ex (\<lambda>t. ct_ID t = ce_CareTypeID e \<and> ct_GardenID t = ?g \<and> ct_Slug t = lq_care q) (t_care_type d)
        \<longleftrightarrow> ce_CareTypeID e = ct_ID t"
    proof
      assume "list_ex (\<lambda>t. ct_ID t = ce_CareTypeID e \<and> ct_GardenID t = ?g \<and> ct_Slug t = lq_care q) (t_care_type d)"
      then obtain t' where "t' \<in> set (t_care_type d)" "ct_ID t' = ce_CareTypeID e" "ct_GardenID t' = ct_GardenID t"
        "ct_Slug t' = ct_Slug t" using in_d by (auto simp: list_ex_iff)
      then show "ce_CareTypeID e = ct_ID t" using slug_unique [of d t' t] in_d(1) assms(1) by (simp add: log_ok_def)
    qed (use in_d in \<open>auto simp: list_ex_iff\<close>)
    with False t show ?thesis by (simp add: care_def if_set_def)
  qed (simp add: care_def if_set_def)
  have m: "log_matches (log_filter p q care (tloc now)) = in_log p now d q \<circ> er_CareEvent"
    by (rule ext) (simp add: log_matches_def log_filter_def in_log_def c Let_def)
  have "map er_CareEvent (filter (in_log p now d q \<circ> er_CareEvent) (event_rows d))
      = filter (in_log p now d q) (t_care_event d)"
    using event_rows_events [OF assms(1)] by (simp flip: filter_map)
  then show "mset (map er_CareEvent (log_remaining p now d q)) = mset (filter (in_log p now d q) (t_care_event d))"
    unfolding rem m by (metis mset_map mset_SortStableFunc)
  have "sorted_by newest_first (log_remaining p now d q)" unfolding rem by (rule log_order.sorted_SortStableFunc)
  then show "sorted_by (by_time_id_desc ce_PerformedAt ce_ID) (map er_CareEvent (log_remaining p now d q))"
    by (simp add: sorted_wrt_map by_time_id_desc_def by_time_id_def)
qed

text \<open>
  (C21) The Older links of the activity log end, and the pages they lead through show every event
  the filters ask for exactly once, newest first: none is skipped or repeated at a page's edge, not
  even among events logged at the same instant.
\<close>

theorem activity_pages_complete:
  assumes "log_ok d" "names_page p d q" "lq_before q = None"
  shows "\<exists>pages es. follow (log_step lower ToUpper p now d) q = Some pages
    \<and> concat (map page_ids pages) = map (\<lambda>e. eventRowID (ce_ID e)) es
    \<and> sorted_by (by_time_id_desc ce_PerformedAt ce_ID) es
    \<and> mset es = mset (filter (in_log p now d q) (t_care_event d))"
proof -
  from log_pages.follow_shows_all [of d p q lower ToUpper now] assms(1,2) obtain pages where
    "follow (log_step lower ToUpper p now d) q = Some pages"
    "concat (map page_ids pages) = map row_id (log_remaining p now d q)" by blast
  with log_remaining_events [OF assms] show ?thesis
    by (intro exI [of _ pages] exI [of _ "map er_CareEvent (log_remaining p now d q)"]) (simp add: comp_def)
qed

definition ex_reader :: principal where
  "ex_reader = zero_Principal\<lparr>pr_Garden := zero_Garden\<lparr>ga_ID := ''g1''\<rparr>\<rparr>"

theorem activity_pages_complete_witness:
  "\<exists>pages es. follow (log_step (\<lambda>s. s) (\<lambda>r. r) ex_reader (mk_Date 2026 3 9 9 0 0 0 utc) ex_care) empty_query = Some pages
    \<and> concat (map page_ids pages) = map (\<lambda>e. eventRowID (ce_ID e)) es
    \<and> mset es = mset (t_care_event ex_care)"
proof -
  have ok: "log_ok ex_care" using ex_care_ok by (simp add: log_ok_def ex_care_defs)
  have names: "names_page ex_reader ex_care empty_query" "lq_before empty_query = None"
    by (simp_all add: names_page_def empty_query_def if_set_def)
  have "filter (in_log ex_reader (mk_Date 2026 3 9 9 0 0 0 utc) ex_care empty_query) (t_care_event ex_care)
      = t_care_event ex_care"
    by (simp add: in_log_def empty_query_def if_set_def span_def ex_reader_def ex_care_def ex_event_def)
  with activity_pages_complete [OF ok names, of "\<lambda>s. s" "\<lambda>r. r" "mk_Date 2026 3 9 9 0 0 0 utc"] show ?thesis by auto
qed

end
