(* ===== verification/Http_Sheet.thy ===== *)
theory Http_Sheet
  imports Http_Activity
begin

text \<open>
  The log-care sheet: the first half of \<open>src/internal/http/care.go\<close>, with the parts of
  \<open>correct.go\<close> that open it over an event already logged.  A draft is what a form sent; a sheet is
  what the page renders and what a post is checked against.
\<close>

section \<open>Chips and drafts\<close>

record chip =
  ch_Value :: string
  ch_Label :: string
  ch_On :: bool

definition mk_chip :: "string \<Rightarrow> string \<Rightarrow> chip" where
  "mk_chip v l = \<lparr>ch_Value = v, ch_Label = l, ch_On = False\<rparr>"

definition chipsHave :: "chip list \<Rightarrow> string \<Rightarrow> bool" where
  "chipsHave chips v = list_ex (\<lambda>c. ch_Value c = v) chips"

definition whens :: "chip list" where
  "whens = [mk_chip ''now'' ''Just now'', mk_chip ''today'' ''Earlier today'',
            mk_chip ''yesterday'' ''Yesterday'', mk_chip ''other'' ''Another day'']"

record draft =
  dr_Row :: string
  dr_Over :: string
  dr_Care :: string
  dr_Shown :: string
  dr_Skipped :: bool
  dr_When :: string
  dr_Clock :: string
  dr_At :: string
  dr_Again :: int
  dr_Note :: string

definition defaultReminderDays :: int where "defaultReminderDays = 2"
definition fallbackReminderDays :: int where "fallbackReminderDays = 7"

text \<open>\<open>TrimSpace\<close> is \<open>strings.TrimSpace\<close>.  \<open>None\<close> is a value the sheet never offers.\<close>

definition readDraft :: "(string \<Rightarrow> string) \<Rightarrow> form \<Rightarrow> draft option" where
  "readDraft TrimSpace get =
     (let care = (if get ''care'' = '''' then get ''row'' else get ''care'');
          row' = (if get ''row'' = '''' then care else get ''row'');
          when = (if get ''when'' = '''' then ''now'' else get ''when'');
          again = (if get ''again'' = '''' then Some defaultReminderDays else ParseInt 32 (get ''again''))
      in if get ''over'' \<noteq> '''' \<and> get ''over'' \<noteq> ''plant'' then None
         else if get ''outcome'' \<notin> {'''', ''done'', ''skipped''} then None
         else if \<not> chipsHave whens when then None
         else (case again of
                 None \<Rightarrow> None
               | Some n \<Rightarrow> Some \<lparr>dr_Row = row', dr_Over = get ''over'', dr_Care = care, dr_Shown = get ''shown'',
                   dr_Skipped = (get ''outcome'' = ''skipped''), dr_When = when, dr_Clock = get ''time'',
                   dr_At = get ''at'', dr_Again = n, dr_Note = TrimSpace (get ''note'')\<rparr>))"

section \<open>When the care was given\<close>

text \<open>\<open>time.Parse\<close> with \<open>"15:04"\<close>: an hour of one or two digits and a minute of two.\<close>

definition Parse_clock :: "string \<Rightarrow> (nat \<times> nat) option" where
  "Parse_clock s =
     (let n = length s - 3 in
      if (n = 1 \<or> n = 2) \<and> s ! n = CHR '':'' then
        (case (number 0 (take n s), number 0 (drop (n + 1) s)) of
           (Some h, Some m) \<Rightarrow> if h < 24 \<and> m < 60 then Some (h, m) else None
         | _ \<Rightarrow> None)
      else None)"

text \<open>\<open>time.ParseInLocation\<close> with \<open>"2006-01-02T15:04"\<close>.\<close>

definition Parse_at :: "string \<Rightarrow> location \<Rightarrow> gotime option" where
  "Parse_at s l =
     (case (Parse_dateKey (take 10 s), drop 10 s) of
        (Some day, c # clock) \<Rightarrow>
          if c = CHR ''T'' then
            (case (Date_of day, Parse_clock clock) of
               ((y, m, d), Some (h, mi)) \<Rightarrow> Some (mk_Date y m d (int h) (int mi) 0 0 l)
             | _ \<Rightarrow> None)
          else None
      | _ \<Rightarrow> None)"

definition Format_clock24 :: "gotime \<Rightarrow> string" where
  "Format_clock24 t = (case Clock t of (h, m, s) \<Rightarrow> pad 2 (nat h) @ '':'' @ pad 2 (nat m))"

definition Format_at :: "gotime \<Rightarrow> string" where
  "Format_at t = Format_dateKey t @ ''T'' @ Format_clock24 t"

datatype sheet_error = When_refused string | Not_offered | Care_changed string

definition performedAt :: "draft \<Rightarrow> gotime \<Rightarrow> sheet_error + gotime" where
  "performedAt d now =
     (let checked = (\<lambda>at. if After at now then Inl (When_refused ''That time is in the future.'') else Inr at) in
      if dr_When d = ''now'' then Inr now
      else if dr_When d = ''today'' \<or> dr_When d = ''yesterday'' then
        (case Parse_clock (dr_Clock d) of
           None \<Rightarrow> Inl (When_refused ''Enter a time.'')
         | Some (h, m) \<Rightarrow>
             (let day' = (if dr_When d = ''yesterday'' then AddDate now 0 0 (- 1) else now) in
              checked (mk_Date (Year day') (Month day') (Day_of day') (int h) (int m) 0 0 (tloc now))))
      else if dr_When d = ''other'' then
        (case Parse_at (dr_At d) (tloc now) of
           None \<Rightarrow> Inl (When_refused ''Enter a day and time.'')
         | Some at \<Rightarrow> checked at)
      else checked zero_time)"

section \<open>Offers and reminders\<close>

record offer =
  of_CareType :: care_type
  of_Schedule :: care_schedule

definition offerOf :: "line \<Rightarrow> offer" where
  "offerOf l = \<lparr>of_CareType = ln_CareType l, of_Schedule = ln_Schedule l\<rparr>"

definition offersOf :: "line list \<Rightarrow> offer list" where
  "offersOf ls = map offerOf ls"

definition offerFor :: "offer list \<Rightarrow> string \<Rightarrow> offer option" where
  "offerFor offers slug = find (\<lambda>o'. ct_Slug (of_CareType o') = slug) offers"

text \<open>\<open>int32\<close> multiplication wraps.\<close>

definition wrap32 :: "int \<Rightarrow> int" where
  "wrap32 n = (n + 2 ^ 31) mod 2 ^ 32 - 2 ^ 31"

text \<open>\<open>None\<close> is the panic of a nil unit, which \<open>schedule_wf\<close> rules out.\<close>

definition usualDays :: "care_schedule \<Rightarrow> int option" where
  "usualDays s =
     (case cs_IntervalCount s of
        None \<Rightarrow> Some 0
      | Some c \<Rightarrow>
          (case cs_IntervalUnit s of
             None \<Rightarrow> None
           | Some u \<Rightarrow> Some (if u = ''day'' then c else if u = ''week'' then wrap32 (7 * c) else 0)))"

definition reminderChips :: "int \<Rightarrow> chip list" where
  "reminderChips usual =
     (let fourth = (if usual = 0 then fallbackReminderDays else usual);
          days = [1, 2, 3] @ (if fourth \<in> {1, 2, 3} then [] else [fourth])
      in map (\<lambda>n. mk_chip (Itoa n) (if n = usual then daysWord n @ '' (usual)'' else daysWord n)) days)"

definition select_chip :: "int \<Rightarrow> chip list \<Rightarrow> chip list" where
  "select_chip selected chips =
     (let v = (if chipsHave chips (Itoa selected) then Itoa selected else Itoa defaultReminderDays)
      in map (\<lambda>c. c\<lparr>ch_On := (ch_Value c = v)\<rparr>) chips)"

fun insert_chip :: "int \<Rightarrow> chip \<Rightarrow> chip list \<Rightarrow> chip list" where
  "insert_chip days new [] = [new]"
| "insert_chip days new (c # cs) =
     (case Atoi (ch_Value c) of
        Some n \<Rightarrow> if n > days then new # c # cs else c # insert_chip days new cs
      | None \<Rightarrow> c # insert_chip days new cs)"

section \<open>The sheet\<close>

record sheet_plant =
  sp_Href :: string
  sp_Name :: string
  sp_Botanical :: bool
  sp_Sub :: string
  sp_Italic :: bool
  sp_Room :: string
  sp_Picture :: string

record sheet =
  sh_Path :: "string \<times> log_query"
  sh_Target :: string
  sh_Over :: string
  sh_Label :: string
  sh_Plant :: sheet_plant
  sh_Cares :: "chip list"
  sh_Fetch :: "string \<times> log_query"
  sh_Row :: string
  sh_Care :: string
  sh_Skipped :: bool
  sh_Whens :: "chip list"
  sh_Clock :: string
  sh_At :: string
  sh_WhenError :: string
  sh_CareError :: string
  sh_Reminders :: "chip list"
  sh_Note :: string
  sh_Noun :: string
  sh_Correcting :: bool
  sh_Logged :: string
  sh_Delete :: "(string \<times> log_query) option"
  sh_DeleteTarget :: string
  sh_careTypeID :: uuid

definition newSheetPlant :: "plant \<Rightarrow> sheet_plant" where
  "newSheetPlant p =
     (case (if isSet (pl_Nickname p) \<and> isSet (pl_CommonName p) then (the (pl_CommonName p), False)
            else if \<not> BotanicalOnly p \<and> isSet (pl_BotanicalName p) then (the (pl_BotanicalName p), True)
            else ('''', False)) of (sub, italic) \<Rightarrow>
        \<lparr>sp_Href = plantPath (pl_ID p), sp_Name = DisplayName p, sp_Botanical = BotanicalOnly p,
         sp_Sub = sub, sp_Italic = italic,
         sp_Room = (case pl_Location p of None \<Rightarrow> '''' | Some r \<Rightarrow> r), sp_Picture = squarePicturePath p\<rparr>)"

definition careRowID :: "plant \<Rightarrow> care_type \<Rightarrow> string" where
  "careRowID p ct = ''care-'' @ pl_ID p @ ''-'' @ ct_Slug ct"

definition newSheet ::
  "(string \<Rightarrow> string) \<Rightarrow> plant \<Rightarrow> offer list \<Rightarrow> offer \<Rightarrow> draft \<Rightarrow> gotime \<Rightarrow> sheet option" where
  "newSheet lower p offers care d now =
     (case usualDays (of_Schedule care) of
        None \<Rightarrow> None
      | Some usual \<Rightarrow>
          Some \<lparr>sh_Path = (logPath (pl_ID p), empty_query),
            sh_Target = careRowID p (foldl (\<lambda>ct o'. if ct_Slug (of_CareType o') = dr_Row d then of_CareType o' else ct)
                          (of_CareType care) offers),
            sh_Over = dr_Over d, sh_Label = ''Log care for '' @ DisplayName p, sh_Plant = newSheetPlant p,
            sh_Cares = map (\<lambda>o'. \<lparr>ch_Value = ct_Slug (of_CareType o'), ch_Label = ct_Name (of_CareType o'),
                          ch_On = (ct_ID (of_CareType o') = ct_ID (of_CareType care))\<rparr>) offers,
            sh_Fetch = (logPath (pl_ID p), empty_query), sh_Row = dr_Row d, sh_Care = ct_Slug (of_CareType care),
            sh_Skipped = dr_Skipped d,
            sh_Whens = map (\<lambda>w. w\<lparr>ch_On := (ch_Value w = dr_When d)\<rparr>) whens,
            sh_Clock = (if dr_Clock d = '''' then Format_clock24 now else dr_Clock d),
            sh_At = (if dr_At d = '''' then Format_at now else dr_At d),
            sh_WhenError = '''', sh_CareError = '''',
            sh_Reminders = select_chip (dr_Again d) (reminderChips usual),
            sh_Note = dr_Note d, sh_Noun = careNoun lower (of_CareType care), sh_Correcting = False,
            sh_Logged = '''', sh_Delete = None, sh_DeleteTarget = '''', sh_careTypeID = ct_ID (of_CareType care)\<rparr>)"

definition forPlant :: "sheet \<Rightarrow> sheet" where
  "forPlant s = s\<lparr>sh_Target := ''plant-schedule'', sh_Plant := (sh_Plant s)\<lparr>sp_Href := ''''\<rparr>\<rparr>"

definition offerReminder :: "int option \<Rightarrow> sheet \<Rightarrow> sheet" where
  "offerReminder days s =
     (case days of
        None \<Rightarrow> s
      | Some n \<Rightarrow>
          if chipsHave (sh_Reminders s) (Itoa n) then s
          else s\<lparr>sh_Reminders := insert_chip n (mk_chip (Itoa n) (daysWord n)) (sh_Reminders s)\<rparr>)"

definition selectReminder :: "int \<Rightarrow> sheet \<Rightarrow> sheet" where
  "selectReminder selected s = s\<lparr>sh_Reminders := select_chip selected (sh_Reminders s)\<rparr>"

definition accept :: "sheet \<Rightarrow> draft \<Rightarrow> gotime \<Rightarrow> sheet_error + gotime" where
  "accept s d now =
     (if dr_Shown d \<noteq> '''' \<and> dr_Shown d \<noteq> dr_Care d \<and> (dr_Skipped d \<or> \<not> sh_Correcting s)
      then Inl (Care_changed (''Not '' @ (if sh_Correcting s then ''saved'' else ''logged'')
             @ '' yet. Check the options below for '' @ sh_Noun s @ ''.''))
      else if dr_Skipped d \<and> \<not> chipsHave (sh_Reminders s) (Itoa (dr_Again d)) then Inl Not_offered
      else performedAt d now)"

definition refuse :: "sheet_error \<Rightarrow> sheet \<Rightarrow> string \<times> sheet" where
  "refuse e s =
     (case e of
        When_refused m \<Rightarrow> (m, s\<lparr>sh_WhenError := m\<rparr>)
      | Care_changed m \<Rightarrow> (m, s\<lparr>sh_CareError := m\<rparr>)
      | Not_offered \<Rightarrow> ('''', s))"

section \<open>The sheet over an event\<close>

record logged_event =
  le_row :: event_row
  le_q :: log_query
  le_now :: gotime

abbreviation le_care :: "logged_event \<Rightarrow> care_event" where
  "le_care e \<equiv> er_CareEvent (le_row e)"

definition loggedLine :: "principal \<Rightarrow> logged_event \<Rightarrow> string" where
  "loggedLine p e =
     (let c = le_care e; now = le_now e;
          who = (if ce_PerformedBy c = us_ID (pr_User p) then ''you'' else er_PerformedByName (le_row e));
          performed = agoWord (ce_PerformedAt c) now @ '' at '' @ clockWord (ce_PerformedAt c) now
      in if DaysBetween (ce_RecordedAt c) now = DaysBetween (ce_PerformedAt c) now
         then ''Logged by '' @ who @ '' '' @ performed @ ''.''
         else ''Logged by '' @ who @ '' '' @ agoWord (ce_RecordedAt c) now @ '' for '' @ performed @ ''.'')"

definition forEvent :: "principal \<Rightarrow> logged_event \<Rightarrow> draft \<Rightarrow> sheet \<Rightarrow> sheet" where
  "forEvent p e d s =
     (let c = le_care e;
          s = s\<lparr>sh_Path := eventPath (ce_PlantID c) (ce_ID c) '''' (le_q e),
                sh_Fetch := eventPath (ce_PlantID c) (ce_ID c) '''' empty_query,
                sh_Target := ''log-body'', sh_Row := '''', sh_Correcting := True, sh_Logged := loggedLine p e,
                sh_Delete := (if mayDelete p c then Some (eventPath (ce_PlantID c) (ce_ID c) ''/delete'' (le_q e)) else None),
                sh_DeleteTarget := (if mayDelete p c then eventRowID (ce_ID c) else '''')\<rparr>
      in selectReminder (dr_Again d) (offerReminder (ce_OverrideIntervalDays c) s))"

text \<open>\<open>withEventCare\<close>: the event's care type keeps its place in creation order.\<close>

fun insert_offer :: "care_type \<Rightarrow> offer list \<Rightarrow> offer list" where
  "insert_offer ct [] = [\<lparr>of_CareType = ct, of_Schedule = zero_CareSchedule\<rparr>]"
| "insert_offer ct (o' # os) =
     (if After (ct_CreatedAt (of_CareType o')) (ct_CreatedAt ct)
      then \<lparr>of_CareType = ct, of_Schedule = zero_CareSchedule\<rparr> # o' # os
      else o' # insert_offer ct os)"

definition withEventCare :: "offer list \<Rightarrow> care_type \<Rightarrow> offer list" where
  "withEventCare offers ct = (if offerFor offers (ct_Slug ct) \<noteq> None then offers else insert_offer ct offers)"

definition draftOf :: "logged_event \<Rightarrow> draft" where
  "draftOf e =
     (let c = le_care e; at = In_loc (ce_PerformedAt c) (tloc (le_now e)); days = DaysBetween at (le_now e) in
      \<lparr>dr_Row = '''', dr_Over = '''', dr_Care = ct_Slug (er_CareType (le_row e)), dr_Shown = '''',
       dr_Skipped = (\<not> ce_Done c),
       dr_When = (if days \<le> 0 then ''today'' else if days = 1 then ''yesterday'' else ''other''),
       dr_Clock = Format_clock24 at, dr_At = Format_at at,
       dr_Again = (case ce_OverrideIntervalDays c of None \<Rightarrow> defaultReminderDays | Some n \<Rightarrow> n),
       dr_Note = (case ce_Note c of None \<Rightarrow> '''' | Some n \<Rightarrow> n)\<rparr>)"

end
