(* ===== verification/Http_Care.thy ===== *)
theory Http_Care
  imports Http_Sheet Push_Deliver
begin

text \<open>
  Logging, correcting, deleting and restoring care: the handlers of
  \<open>src/internal/http/care.go\<close> and \<open>correct.go\<close>, with what they load (\<open>today.go\<close>,
  \<open>plant.go\<close>).  Every call to the store can fail.  What a handler renders after its write is not
  modelled, only whether it renders, redirects or answers an error; a panic is answered like a
  failed call.

  \<open>time.LoadLocation\<close>, \<open>strings.ToLower\<close>, \<open>strings.TrimSpace\<close>, \<open>uuid.Parse\<close>, \<open>time.Parse\<close> of
  RFC 3339 and the database's collation are parameters, in the record \<open>site\<close>.
\<close>

record site =
  si_LoadLocation :: "string \<Rightarrow> location option"
  si_lower :: "string \<Rightarrow> string"
  si_ToUpper :: "nat \<Rightarrow> nat"
  si_TrimSpace :: "string \<Rightarrow> string"
  si_parse_uuid :: "string \<Rightarrow> uuid option"
  si_parse_time :: "string \<Rightarrow> gotime option"
  si_collate :: "string \<Rightarrow> string \<Rightarrow> int"
  si_pushKey :: string

type_synonym outcome = "(unit, log_query option) page_answer \<times> world"

definition locationFor :: "site \<Rightarrow> app_user \<Rightarrow> location" where
  "locationFor si user = (case si_LoadLocation si (us_Timezone user) of None \<Rightarrow> utc | Some l \<Rightarrow> l)"

section \<open>What the handlers load\<close>

definition plantLines :: "line list \<Rightarrow> uuid \<Rightarrow> line list" where
  "plantLines ls plant = filter (\<lambda>l. pl_ID (ln_Plant l) = plant) ls"

definition lineFor :: "line list \<Rightarrow> string \<Rightarrow> line option" where
  "lineFor ls slug = find (\<lambda>l. ct_Slug (ln_CareType l) = slug) ls"

abbreviation gid :: "principal \<Rightarrow> uuid" where "gid p \<equiv> ga_ID (pr_Garden p)"

definition feedLength :: nat where "feedLength = 5"
definition recentLength :: nat where "recentLength = 4"
definition stripLength :: nat where "stripLength = 6"

text \<open>\<open>load\<close> of \<open>today.go\<close>: the queries in their order, then the schedules resolved.\<close>

definition load_day ::
  "site \<Rightarrow> principal \<Rightarrow> gotime \<Rightarrow> (gotime \<Rightarrow> line list \<Rightarrow> world \<Rightarrow> outcome) \<Rightarrow> world \<Rightarrow> outcome" where
  "load_day si p clock k =
     (let now = In_loc clock (locationFor si (pr_User p)); failed = (\<lambda>e :: db_error. Server_error);
          resolved = (\<lambda>schedules latest w.
            case Resolve schedules latest now of None \<Rightarrow> (Server_error, w) | Some ls \<Rightarrow> k now ls w)
      in read_or (ListMembershipsWithGardensForUser (us_ID (pr_User p))) failed (\<lambda>_.
         read_or (ListCareSchedules (si_collate si) (gid p)) failed (\<lambda>schedules.
         read_or (ListLatestCareEvents (gid p)) failed (\<lambda>latest.
         read_or (ListRecentCareEvents (gid p) feedLength) failed (\<lambda>_.
         read_or (CountPlants (gid p)) failed (\<lambda>_.
           if si_pushKey si \<noteq> '''' then
             read_or (ListNotificationPreferences (me_ID (pr_Membership p))) failed (\<lambda>_.
             read_or (GetRemindLaterState (us_ID (pr_User p)) (gid p) (me_ID (pr_Membership p)) (Format_dateKey now)) failed
               (\<lambda>_. resolved schedules latest))
           else resolved schedules latest))))))"

record plant_detail =
  pd_plant :: plant
  pd_lines :: "line list"
  pd_cares :: "care_type list"
  pd_now :: gotime

definition detail_offers :: "plant_detail \<Rightarrow> offer list" where
  "detail_offers d = map (\<lambda>ct. \<lparr>of_CareType = ct, of_Schedule =
      (case lineFor (pd_lines d) (ct_Slug ct) of None \<Rightarrow> zero_CareSchedule | Some l \<Rightarrow> ln_Schedule l)\<rparr>) (pd_cares d)"

text \<open>\<open>loadPlant\<close>: a photo gone since the plant was read is no error.\<close>

definition loadPlant ::
  "site \<Rightarrow> principal \<Rightarrow> uuid \<Rightarrow> gotime \<Rightarrow> (db_error \<Rightarrow> (unit, log_query option) page_answer) \<Rightarrow>
     (plant_detail \<Rightarrow> world \<Rightarrow> outcome) \<Rightarrow> world \<Rightarrow> outcome" where
  "loadPlant si p plant clock failed k =
     (let now = In_loc clock (locationFor si (pr_User p));
          picture = (\<lambda>h d. case GetPhoto (gid p) h d of Inl e \<Rightarrow> if e = NoRows then Inr () else Inl e | Inr _ \<Rightarrow> Inr ());
          rest = (\<lambda>pl.
            read_or (ListCareSchedules (si_collate si) (gid p)) failed (\<lambda>schedules.
            read_or (ListLatestCareEvents (gid p)) failed (\<lambda>latest.
            read_or (ListCareTypes (gid p)) failed (\<lambda>cares.
            read_or (ListPlantCareEvents (gid p) plant recentLength) failed (\<lambda>_.
            read_or (ListPlantPhotos (gid p) plant None stripLength) failed (\<lambda>_.
            read_or (CountPlantPhotos (gid p) plant) failed (\<lambda>_ w.
              case Resolve schedules latest now of
                None \<Rightarrow> (Server_error, w)
              | Some ls \<Rightarrow> k \<lparr>pd_plant = pl, pd_lines = plantLines ls plant, pd_cares = cares, pd_now = now\<rparr> w)))))))
      in read_or (GetPlant (gid p) plant) failed (\<lambda>pl.
           case pl_ProfilePhotoID pl of
             None \<Rightarrow> rest pl
           | Some h \<Rightarrow> read_or (picture h) failed (\<lambda>_. rest pl)))"

section \<open>care.go\<close>

definition careEventParams :: "principal \<Rightarrow> uuid \<Rightarrow> uuid \<Rightarrow> draft \<Rightarrow> gotime \<Rightarrow> gotime \<Rightarrow> event_params" where
  "careEventParams p plant care d at recordedAt =
     \<lparr>ep_GardenID = gid p, ep_PlantID = plant, ep_CareTypeID = care, ep_PerformedBy = us_ID (pr_User p),
      ep_PerformedAt = at, ep_RecordedAt = recordedAt, ep_Done = (\<not> dr_Skipped d),
      ep_Note = (if dr_Note d \<noteq> '''' then Some (dr_Note d) else None),
      ep_OverrideIntervalDays = (if dr_Skipped d then Some (dr_Again d) else None)\<rparr>"

definition activityNotification :: "(string \<Rightarrow> string) \<Rightarrow> principal \<Rightarrow> plant \<Rightarrow> care_type \<Rightarrow> bool \<Rightarrow> notification" where
  "activityNotification lower p pl ct finished =
     \<lparr>no_Title = ga_Name (pr_Garden p),
      no_Body = us_DisplayName (pr_User p) @ '' ''
        @ (if finished then carePast lower ct else ''skipped '' @ careNoun lower ct) @ '' '' @ DisplayName pl @ ''.'',
      no_URL = plantPath (pl_ID pl), no_Icon = squarePicturePath pl, no_Tag = ''''\<rparr>"

text \<open>A refused post renders the sheet again; a refusal the sheet has no place for is a 400.\<close>

definition refused_answer :: "sheet_error \<Rightarrow> sheet \<Rightarrow> (unit, log_query option) page_answer" where
  "refused_answer e s = (if fst (refuse e s) \<noteq> '''' then Refused (fst (refuse e s)) else Bad_request)"

definition logOnPlant ::
  "site \<Rightarrow> principal \<Rightarrow> uuid \<Rightarrow> form \<Rightarrow> bool \<Rightarrow> gotime \<Rightarrow> uuid \<Rightarrow> world \<Rightarrow> outcome" where
  "logOnPlant si p plant get htmx clock newID =
     loadPlant si p plant clock missing (\<lambda>detail w.
       if pl_ArchivedAt (pd_plant detail) \<noteq> None then (Not_found, w)
       else (case readDraft (si_TrimSpace si) get of
          None \<Rightarrow> (Bad_request, w)
        | Some d \<Rightarrow>
            if dr_Care d = '''' then (Bad_request, w)
            else (case offerFor (detail_offers detail) (dr_Care d) of
               None \<Rightarrow> (Bad_request, w)
             | Some care \<Rightarrow>
            (case newSheet (si_lower si) (pd_plant detail) (detail_offers detail) care d (pd_now detail) of
               None \<Rightarrow> (Server_error, w)
             | Some s \<Rightarrow>
            (case accept (forPlant s) d (pd_now detail) of
               Inl e \<Rightarrow> (refused_answer e s, w)
             | Inr at \<Rightarrow>
                 write_or (CreateCareEvent newID
                     (careEventParams p (pl_ID (pd_plant detail)) (ct_ID (of_CareType care)) d at (pd_now detail)))
                   (\<lambda>_. Server_error)
                   (\<lambda>_. if \<not> htmx then (\<lambda>w. (Redirect None, w))
                        else loadPlant si p plant clock (\<lambda>_. Server_error) (\<lambda>_ w. (Page (), w))) w)))))"

definition log_care ::
  "site \<Rightarrow> principal \<Rightarrow> string \<Rightarrow> form \<Rightarrow> bool \<Rightarrow> gotime \<Rightarrow> uuid \<Rightarrow> world \<Rightarrow> outcome" where
  "log_care si p path get htmx clock newID =
     (case si_parse_uuid si path of
        None \<Rightarrow> (\<lambda>w. (Not_found, w))
      | Some plant \<Rightarrow>
          if get ''over'' = ''plant'' then logOnPlant si p plant get htmx clock newID
          else load_day si p clock (\<lambda>now ls w.
            case plantLines ls plant of
              [] \<Rightarrow> (Not_found, w)
            | l # ls' \<Rightarrow>
            (case readDraft (si_TrimSpace si) get of
               None \<Rightarrow> (Bad_request, w)
             | Some d \<Rightarrow>
                 if dr_Care d = '''' then (Bad_request, w)
                 else (case lineFor (l # ls') (dr_Care d) of
                    None \<Rightarrow> (Bad_request, w)
                  | Some care \<Rightarrow>
                 (case newSheet (si_lower si) (ln_Plant l) (offersOf (l # ls')) (offerOf care) d now of
                    None \<Rightarrow> (Server_error, w)
                  | Some s \<Rightarrow>
                 (case accept s d now of
                    Inl e \<Rightarrow> (refused_answer e s, w)
                  | Inr at \<Rightarrow>
                      write_or (CreateCareEvent newID
                          (careEventParams p (pl_ID (ln_Plant l)) (ct_ID (ln_CareType care)) d at now))
                        (\<lambda>_. Server_error)
                        (\<lambda>_. if \<not> htmx then (\<lambda>w. (Redirect None, w))
                             else load_day si p clock (\<lambda>_ _ w. (Page (), w))) w))))))"

definition undo ::
  "site \<Rightarrow> principal \<Rightarrow> string \<Rightarrow> string \<Rightarrow> bool \<Rightarrow> gotime \<Rightarrow> world \<Rightarrow> outcome" where
  "undo si p path epath htmx clock =
     (case (si_parse_uuid si path, si_parse_uuid si epath) of
        (Some plant, Some eid) \<Rightarrow>
          write_or (DeleteCareEvent eid (gid p) plant (Can p ''care.delete_any'') (us_ID (pr_User p))) missing
            (\<lambda>_. if \<not> htmx then (\<lambda>w. (Redirect None, w))
                 else load_day si p clock (\<lambda>_ ls w. (if plantLines ls plant = [] then Not_found else Page (), w)))
      | _ \<Rightarrow> (\<lambda>w. (Not_found, w)))"

section \<open>correct.go\<close>

text \<open>\<open>readEventPath\<close> and \<open>readEvent\<close>; \<open>q\<close> is what \<open>parseLogQuery\<close> read, if it could.\<close>

definition readEventPath ::
  "site \<Rightarrow> string \<Rightarrow> string \<Rightarrow> log_query option \<Rightarrow> (uuid \<times> uuid \<times> log_query) option" where
  "readEventPath si path epath q =
     (case (si_parse_uuid si path, si_parse_uuid si epath, q) of
        (Some plant, Some eid, Some q) \<Rightarrow> if if_set (lq_plant q) (\<lambda>i. i = plant) then Some (plant, eid, q) else None
      | _ \<Rightarrow> None)"

definition readEvent ::
  "site \<Rightarrow> principal \<Rightarrow> string \<Rightarrow> string \<Rightarrow> log_query option \<Rightarrow> gotime \<Rightarrow> (logged_event \<Rightarrow> world \<Rightarrow> outcome) \<Rightarrow> world \<Rightarrow> outcome" where
  "readEvent si p path epath q clock k =
     (case readEventPath si path epath q of
        None \<Rightarrow> (\<lambda>w. (Not_found, w))
      | Some (plant, eid, q) \<Rightarrow>
          read_or (GetCareEvent (gid p) plant eid) missing
            (\<lambda>r. k \<lparr>le_row = r, le_q = q, le_now = In_loc clock (locationFor si (pr_User p))\<rparr>))"

definition sheetOver ::
  "site \<Rightarrow> principal \<Rightarrow> logged_event \<Rightarrow> draft \<Rightarrow> gotime \<Rightarrow> (sheet \<Rightarrow> world \<Rightarrow> outcome) \<Rightarrow> world \<Rightarrow> outcome" where
  "sheetOver si p e d clock k =
     loadPlant si p (ce_PlantID (le_care e)) clock (\<lambda>_. Server_error) (\<lambda>detail w.
       let offers = withEventCare (detail_offers detail) (er_CareType (le_row e)) in
       case offerFor offers (dr_Care d) of
         None \<Rightarrow> (Bad_request, w)
       | Some care \<Rightarrow>
           (case newSheet (si_lower si) (pd_plant detail) offers care d (le_now e) of
              None \<Rightarrow> (Server_error, w)
            | Some s \<Rightarrow> k (forEvent p e d s) w))"

text \<open>The log rendered again under the sheet; its queries fail as one.\<close>

definition log_again ::
  "site \<Rightarrow> principal \<Rightarrow> logged_event \<Rightarrow> (unit, log_query option) page_answer \<Rightarrow> world \<Rightarrow> outcome" where
  "log_again si p e ans =
     read_or (\<lambda>d. case activity_log (si_lower si) (si_ToUpper si) p (le_now e) d (le_q e) of
                    Inl (Page_store err) \<Rightarrow> Inl err
                  | Inl Unknown_care \<Rightarrow> Inr Not_found
                  | Inr _ \<Rightarrow> Inr ans)
       (\<lambda>_. Server_error) (\<lambda>ans w. (ans, w))"

definition correction :: "sheet \<Rightarrow> draft \<Rightarrow> gotime \<Rightarrow> event_change" where
  "correction s d at =
     \<lparr>ec_CareTypeID = sh_careTypeID s, ec_PerformedAt = at, ec_Done = (\<not> dr_Skipped d),
      ec_Note = (if dr_Note d \<noteq> '''' then Some (dr_Note d) else None),
      ec_OverrideIntervalDays = (if dr_Skipped d then Some (dr_Again d) else None)\<rparr>"

definition save ::
  "site \<Rightarrow> principal \<Rightarrow> string \<Rightarrow> string \<Rightarrow> log_query option \<Rightarrow> form \<Rightarrow> bool \<Rightarrow> gotime \<Rightarrow> world \<Rightarrow> outcome" where
  "save si p path epath q get htmx clock =
     readEvent si p path epath q clock (\<lambda>e w.
       if \<not> mayCorrect p (le_care e) then (Not_found, w)
       else (case readDraft (si_TrimSpace si) get of
          None \<Rightarrow> (Bad_request, w)
        | Some d \<Rightarrow>
            sheetOver si p e d clock (\<lambda>s w.
              case accept s d (le_now e) of
                Inl err \<Rightarrow>
                  if fst (refuse err s) \<noteq> '''' then log_again si p e (refused_answer err s) w else (Bad_request, w)
              | Inr at \<Rightarrow>
                  write_or (UpdateCareEvent (correction s d at) (ce_ID (le_care e)) (gid p) (ce_PlantID (le_care e))
                      (Can p ''care.edit_any'') (us_ID (pr_User p))) missing
                    (\<lambda>_. if \<not> htmx then (\<lambda>w. (Redirect (Some (le_q e)), w)) else log_again si p e (Page ())) w) w))"

definition remove ::
  "site \<Rightarrow> principal \<Rightarrow> string \<Rightarrow> string \<Rightarrow> log_query option \<Rightarrow> bool \<Rightarrow> gotime \<Rightarrow> world \<Rightarrow> outcome" where
  "remove si p path epath q htmx clock =
     readEvent si p path epath q clock (\<lambda>e.
       write_or (DeleteCareEvent (ce_ID (le_care e)) (gid p) (ce_PlantID (le_care e))
           (Can p ''care.delete_any'') (us_ID (pr_User p))) missing
         (\<lambda>_ w. (if \<not> htmx then Redirect (Some (le_q e)) else Page (), w)))"

definition ParseBool :: "string \<Rightarrow> bool option" where
  "ParseBool s =
     (if s \<in> {''1'', ''t'', ''T'', ''true'', ''TRUE'', ''True''} then Some True
      else if s \<in> {''0'', ''f'', ''F'', ''false'', ''FALSE'', ''False''} then Some False
      else None)"

text \<open>The garden and the plant are filled in by \<open>restore\<close>.\<close>

definition restoreParams :: "site \<Rightarrow> form \<Rightarrow> gotime \<Rightarrow> event_params option" where
  "restoreParams si get now =
     (case (si_parse_uuid si (get ''care''), si_parse_uuid si (get ''by''), si_parse_time si (get ''at''),
            si_parse_time si (get ''recorded''), ParseBool (get ''done''),
            if get ''again'' = '''' then Some None else map_option Some (ParseInt 32 (get ''again''))) of
        (Some care, Some by, Some at, Some recorded, Some finished, Some again) \<Rightarrow>
          if After at now \<or> After recorded now then None
          else if \<not> finished \<and> again = None then None
          else Some \<lparr>ep_GardenID = nil_uuid, ep_PlantID = nil_uuid, ep_CareTypeID = care, ep_PerformedBy = by,
                 ep_PerformedAt = at, ep_RecordedAt = recorded, ep_Done = finished,
                 ep_Note = (if get ''note'' \<noteq> '''' then Some (get ''note'') else None),
                 ep_OverrideIntervalDays = again\<rparr>
      | _ \<Rightarrow> None)"

definition restore ::
  "site \<Rightarrow> principal \<Rightarrow> string \<Rightarrow> string \<Rightarrow> log_query option \<Rightarrow> form \<Rightarrow> bool \<Rightarrow> gotime \<Rightarrow> world \<Rightarrow> outcome" where
  "restore si p path epath q get htmx clock =
     (case readEventPath si path epath q of
        None \<Rightarrow> (\<lambda>w. (Not_found, w))
      | Some (plant, eid, lq) \<Rightarrow>
          read_or (GetPlant (gid p) plant) missing (\<lambda>_ w.
            case restoreParams si get clock of
              None \<Rightarrow> (Bad_request, w)
            | Some a \<Rightarrow>
                read_or (GetCareType (gid p) (ep_CareTypeID a)) missing (\<lambda>_.
                write_or (RestoreCareEvent eid (a\<lparr>ep_GardenID := gid p, ep_PlantID := plant\<rparr>)
                    (Can p ''care.delete_any'') (us_ID (pr_User p))) missing
                  (\<lambda>_. if \<not> htmx then (\<lambda>w. (Redirect (Some lq), w))
                       else readEvent si p path epath q clock (\<lambda>_ w. (Page (), w)))) w))"

section \<open>What the handlers may write\<close>

lemma performedAt_not_future: "performedAt d now = Inr at \<Longrightarrow> \<not> After at now"
  by (auto simp: performedAt_def Let_def After_def split: if_splits option.splits)

lemma accept_Inr:
  assumes "accept s d now = Inr at"
  shows "\<not> After at now" "dr_Skipped d \<Longrightarrow> chipsHave (sh_Reminders s) (Itoa (dr_Again d))"
  using assms by (auto simp: accept_def dest: performedAt_not_future split: if_splits)

lemma load_day_quiet [request_rules]: "(\<And>now ls. quiet (k now ls)) \<Longrightarrow> quiet (load_day si p clock k)"
  unfolding load_day_def Let_def by (intro request_rules)

lemma loadPlant_quiet [request_rules]: "(\<And>detail. quiet (k detail)) \<Longrightarrow> quiet (loadPlant si p plant clock failed k)"
  unfolding loadPlant_def Let_def by (intro request_rules)

lemma readEvent_quiet [request_rules]: "(\<And>e. quiet (k e)) \<Longrightarrow> quiet (readEvent si p path epath q clock k)"
  unfolding readEvent_def by (auto split: option.split intro!: request_rules)

lemma log_again_quiet [request_rules]: "quiet (log_again si p e ans)"
  unfolding log_again_def by (intro request_rules)

lemma load_day_changes:
  assumes "\<And>schedules latest ls. ListCareSchedules (si_collate si) (gid p) d = Inr schedules \<Longrightarrow>
      Resolve schedules latest (In_loc clock (locationFor si (pr_User p))) = Some ls \<Longrightarrow>
      changes R d (k (In_loc clock (locationFor si (pr_User p))) ls)"
  shows "changes R d (load_day si p clock k)"
  unfolding load_day_def Let_def
  by (intro changes_read changes_branches(1,4) changes_answer; rule assms; assumption)

lemma loadPlant_changes:
  assumes "\<And>pl schedules latest ls cares. GetPlant (gid p) plant d = Inr pl \<Longrightarrow>
      ListCareSchedules (si_collate si) (gid p) d = Inr schedules \<Longrightarrow>
      Resolve schedules latest (In_loc clock (locationFor si (pr_User p))) = Some ls \<Longrightarrow>
      changes R d (k \<lparr>pd_plant = pl, pd_lines = plantLines ls plant, pd_cares = cares,
        pd_now = In_loc clock (locationFor si (pr_User p))\<rparr>)"
  shows "changes R d (loadPlant si p plant clock failed k)"
  unfolding loadPlant_def Let_def
  by (intro changes_read changes_branches(3,4) changes_answer; rule assms; assumption)

datatype care_request =
    Log string form bool uuid
  | Undo string string bool
  | Save string string "log_query option" form bool
  | Remove string string "log_query option" bool
  | Restore string string "log_query option" form bool

fun handle :: "site \<Rightarrow> principal \<Rightarrow> gotime \<Rightarrow> care_request \<Rightarrow> world \<Rightarrow> outcome" where
  "handle si p clock (Log path get htmx newID) = log_care si p path get htmx clock newID"
| "handle si p clock (Undo path epath htmx) = undo si p path epath htmx clock"
| "handle si p clock (Save path epath q get htmx) = save si p path epath q get htmx clock"
| "handle si p clock (Remove path epath q htmx) = remove si p path epath q htmx clock"
| "handle si p clock (Restore path epath q get htmx) = restore si p path epath q get htmx clock"

text \<open>An event the reader may put in the tables, and one they may take out: of their garden, their
  own unless they may edit or delete anyone's, and not dated in the future.\<close>

definition own_event :: "principal \<Rightarrow> care_event \<Rightarrow> bool" where
  "own_event p e \<longleftrightarrow> ce_GardenID e = gid p
     \<and> (ce_PerformedBy e = us_ID (pr_User p) \<or> Can p ''care.edit_any'' \<or> Can p ''care.delete_any'')"

definition care_change :: "principal \<Rightarrow> gotime \<Rightarrow> (care_event \<Rightarrow> bool) \<Rightarrow> db \<Rightarrow> db \<Rightarrow> bool" where
  "care_change p clock extra d d' \<longleftrightarrow>
     d'\<lparr>t_care_event := t_care_event d\<rparr> = d
     \<and> (\<forall>e \<in> set (t_care_event d'). e \<in> set (t_care_event d)
          \<or> own_event p e \<and> \<not> After (ce_PerformedAt e) clock \<and> extra e)
     \<and> (\<forall>e \<in> set (t_care_event d). e \<in> set (t_care_event d') \<or> own_event p e)"

lemma CreateCareEvent_change:
  assumes "CreateCareEvent i a d = Inr (e, d')" "ep_GardenID a = gid p" "ep_PerformedBy a = us_ID (pr_User p)"
    "\<not> After (ep_PerformedAt a) clock" "extra (event_of i a)"
  shows "care_change p clock extra d d'"
  using assms by (auto simp: CreateCareEvent_def care_change_def own_event_def event_of_def Let_def split: if_splits)

lemma RestoreCareEvent_change:
  assumes "RestoreCareEvent i a (Can p ''care.delete_any'') (us_ID (pr_User p)) d = Inr (e, d')" "ep_GardenID a = gid p"
    "\<not> After (ep_PerformedAt a) clock" "extra (event_of i a)"
  shows "care_change p clock extra d d'"
  using assms by (auto simp: RestoreCareEvent_def care_change_def own_event_def event_of_def Let_def split: if_splits)

lemma DeleteCareEvent_change:
  assumes "DeleteCareEvent i (gid p) plant (Can p ''care.delete_any'') (us_ID (pr_User p)) d = Inr (e, d')"
  shows "care_change p clock extra d d'"
  using assms
  by (auto simp: DeleteCareEvent_def care_change_def own_event_def delete_returning_Inr delete_where_def may_touch_def
      split: sum.splits)

lemma UpdateCareEvent_change:
  assumes "UpdateCareEvent c i (gid p) plant (Can p ''care.edit_any'') (us_ID (pr_User p)) d = Inr (e, d')"
    "\<not> After (ec_PerformedAt c) clock" "\<And>e. extra (change_event c e)"
  shows "care_change p clock extra d d'"
proof -
  let ?p = "may_touch i (gid p) plant (Can p ''care.edit_any'') (us_ID (pr_User p))"
  have d': "d' = d\<lparr>t_care_event := update_where ?p (change_event c) (t_care_event d)\<rparr>"
    using assms(1) by (auto simp: UpdateCareEvent_def update_returning_Inr split: sum.splits if_splits)
  have touched: "own_event p e \<and> own_event p (change_event c e)" if "?p e" for e
    using that by (auto simp: may_touch_def own_event_def change_event_def)
  have at: "ce_PerformedAt (change_event c e) = ec_PerformedAt c" for e by (simp add: change_event_def)
  show ?thesis
    unfolding care_change_def d' using touched assms(2,3) by (fastforce simp: update_where_def at)
qed

lemma not_after_In_loc: "After at (In_loc clock l) \<longleftrightarrow> After at clock"
  by (simp add: After_def In_loc_def)

section \<open>The interval of a skip\<close>

lemma Itoa_inject: "Itoa m = Itoa n \<Longrightarrow> m = n"
proof -
  assume eq: "Itoa m = Itoa n"
  define k where "k = nat (\<bar>m\<bar> + \<bar>n\<bar>)"
  have "int k < int (2 ^ k)" using less_exp [of k] by (simp only: of_nat_less_iff)
  then have "\<bar>m\<bar> + \<bar>n\<bar> < 2 ^ k" by (simp add: k_def)
  then have r: "- (2 ^ (Suc k - 1)) \<le> m" "m < 2 ^ (Suc k - 1)" "- (2 ^ (Suc k - 1)) \<le> n" "n < 2 ^ (Suc k - 1)"
    unfolding diff_Suc_1 by linarith+
  have "Some m = Some n"
    unfolding ParseInt_Itoa [OF r(1,2), symmetric] ParseInt_Itoa [OF r(3,4), symmetric] eq ..
  then show "m = n" by simp
qed

lemma chipsHave_select [simp]: "chipsHave (select_chip n chips) v = chipsHave chips v"
  by (simp add: chipsHave_def select_chip_def Let_def list_ex_iff)

lemma chipsHave_insert: "chipsHave (insert_chip n c chips) v \<longleftrightarrow> ch_Value c = v \<or> chipsHave chips v"
  by (induction chips) (auto simp: chipsHave_def split: option.split)

text \<open>An interval of the Remind me in chips: of a schedule of the tables, or of one a care type
  without a schedule has.\<close>

definition offered :: "db \<Rightarrow> int \<Rightarrow> bool" where
  "offered d n \<longleftrightarrow> (\<exists>s u. (s = zero_CareSchedule \<or> s \<in> set (t_care_schedule d)) \<and> usualDays s = Some u
     \<and> chipsHave (reminderChips u) (Itoa n))"

definition kept :: "db \<Rightarrow> int \<Rightarrow> bool" where
  "kept d n \<longleftrightarrow> (\<exists>e \<in> set (t_care_event d). ce_OverrideIntervalDays e = Some n)"

definition skip_ok :: "db \<Rightarrow> care_event \<Rightarrow> bool" where
  "skip_ok d e \<longleftrightarrow> (case ce_OverrideIntervalDays e of
      None \<Rightarrow> ce_Done e
    | Some n \<Rightarrow> \<not> ce_Done e \<and> (offered d n \<or> kept d n))"

lemma newSheet_reminders:
  assumes "newSheet lower pl offers care dr now = Some s"
    "of_Schedule care = zero_CareSchedule \<or> of_Schedule care \<in> set (t_care_schedule d)"
    "chipsHave (sh_Reminders s) (Itoa n)"
  shows "offered d n"
  using assms by (auto simp: newSheet_def offered_def split: option.splits)

lemma forEvent_reminders:
  assumes "chipsHave (sh_Reminders (forEvent p e dr s)) (Itoa n)"
  shows "chipsHave (sh_Reminders s) (Itoa n) \<or> ce_OverrideIntervalDays (le_care e) = Some n"
  using assms
  by (auto simp: forEvent_def selectReminder_def offerReminder_def chipsHave_insert mk_chip_def Let_def
      dest: Itoa_inject split: option.splits if_splits)

lemma resolve_line_schedule: "resolve_line lst now r = Some l \<Longrightarrow> ln_Schedule l = sr_CareSchedule r"
  by (auto simp: resolve_line_def Let_def split: option.splits if_splits)

lemma those_Some: "those xs = Some ys \<Longrightarrow> y \<in> set ys \<Longrightarrow> Some y \<in> set xs"
  by (induction xs arbitrary: ys) (auto split: option.splits)

lemma lines_schedules:
  assumes "ListCareSchedules collate garden d = Inr schedules" "Resolve schedules events now = Some ls" "l \<in> set ls"
  shows "ln_Schedule l \<in> set (t_care_schedule d)"
proof -
  from those_Some [OF assms(2) [unfolded Resolve_def] assms(3)] obtain r where r: "r \<in> set schedules"
    "resolve_line (latest_map events) now r = Some l" by auto
  then have "sr_CareSchedule r \<in> set (t_care_schedule d)"
    using assms(1) by (auto simp: ListCareSchedules_def)
  with resolve_line_schedule [OF r(2)] show ?thesis by simp
qed

lemma find_in: "find P xs = Some x \<Longrightarrow> x \<in> set xs"
  by (auto simp: find_Some_iff)

lemma detail_offers_schedule:
  assumes "\<And>l. l \<in> set (pd_lines detail) \<Longrightarrow> ln_Schedule l \<in> set (t_care_schedule d)" "o' \<in> set (detail_offers detail)"
  shows "of_Schedule o' = zero_CareSchedule \<or> of_Schedule o' \<in> set (t_care_schedule d)"
proof -
  from assms(2) obtain ct where o': "o' = \<lparr>of_CareType = ct, of_Schedule =
      (case lineFor (pd_lines detail) (ct_Slug ct) of None \<Rightarrow> zero_CareSchedule | Some l \<Rightarrow> ln_Schedule l)\<rparr>"
    unfolding detail_offers_def set_map by blast
  show ?thesis
  proof (cases "lineFor (pd_lines detail) (ct_Slug ct)")
    case (Some l)
    then have "l \<in> set (pd_lines detail)" unfolding lineFor_def by (rule find_in)
    with assms(1) o' Some show ?thesis by simp
  qed (simp add: o')
qed

lemma withEventCare_schedule:
  assumes "o' \<in> set (withEventCare offers ct)"
  shows "o' \<in> set offers \<or> of_Schedule o' = zero_CareSchedule"
proof -
  have "set (insert_offer ct offers) = insert \<lparr>of_CareType = ct, of_Schedule = zero_CareSchedule\<rparr> (set offers)"
    by (induction offers) auto
  with assms show ?thesis by (auto simp: withEventCare_def split: if_splits)
qed

lemma careEventParams_skip:
  assumes "accept s dr now = Inr at" "chipsHave (sh_Reminders s) (Itoa (dr_Again dr)) \<Longrightarrow> offered d (dr_Again dr)"
  shows "skip_ok d (event_of i (careEventParams p plant care dr at now))"
  using accept_Inr(2) [OF assms(1)] assms(2) by (auto simp: skip_ok_def event_of_def careEventParams_def)

section \<open>Every handler's change\<close>

abbreviation skip_change :: "principal \<Rightarrow> gotime \<Rightarrow> db \<Rightarrow> db \<Rightarrow> bool" where
  "skip_change p clock d \<equiv> care_change p clock (skip_ok d) d"

lemma created_change:
  assumes "CreateCareEvent i (careEventParams p plant care dr at (In_loc clock l)) d = Inr (e, d')"
    "accept s dr (In_loc clock l) = Inr at"
    "chipsHave (sh_Reminders s) (Itoa (dr_Again dr)) \<Longrightarrow> offered d (dr_Again dr)"
  shows "skip_change p clock d d'"
  by (rule CreateCareEvent_change [OF assms(1)])
    (use accept_Inr(1) [OF assms(2)] careEventParams_skip [OF assms(2,3)] in
      \<open>auto simp: careEventParams_def not_after_In_loc\<close>)

lemma forPlant_reminders [simp]: "sh_Reminders (forPlant s) = sh_Reminders s"
  by (simp add: forPlant_def)

lemma logOnPlant_changes: "changes (skip_change p clock) d (logOnPlant si p plant get htmx clock newID)"
  unfolding logOnPlant_def
proof (rule loadPlant_changes, intro changes_branches changes_answer changes_write, goal_cases)
  case (1 pl schedules events ls cares dr care s at x d')
  let ?detail = "\<lparr>pd_plant = pl, pd_lines = plantLines ls plant, pd_cares = cares,
    pd_now = In_loc clock (locationFor si (pr_User p))\<rparr>"
  have "of_Schedule care = zero_CareSchedule \<or> of_Schedule care \<in> set (t_care_schedule d)"
    by (rule detail_offers_schedule [of ?detail])
      (use 1 lines_schedules find_in in \<open>auto simp: plantLines_def offerFor_def\<close>)
  from newSheet_reminders [OF 1(8) this] show ?case
    by (intro created_change [OF 1(10) [simplified] 1(9) [simplified]]) simp
next
  case (2 pl schedules events ls cares dr care s at x)
  show ?case by (intro request_rules)
qed

lemma log_care_changes: "changes (skip_change p clock) d (log_care si p path get htmx clock newID)"
  unfolding log_care_def
proof (intro changes_branches(1,3) changes_answer logOnPlant_changes, rule load_day_changes,
    intro changes_branches changes_answer changes_write, goal_cases)
  case (1 plant schedules events ls l ls' dr care s at x d')
  have "care \<in> set (plantLines ls plant)" using 1(5,8) find_in unfolding lineFor_def by metis
  then have "care \<in> set ls" by (simp add: plantLines_def)
  then have "of_Schedule (offerOf care) \<in> set (t_care_schedule d)"
    using lines_schedules [OF 1(3,4)] by (simp add: offerOf_def)
  with newSheet_reminders [OF 1(9)] show ?case by (intro created_change [OF 1(11,10)]) simp
next
  case 2
  show ?case by (intro request_rules)
qed

lemma undo_changes: "changes (care_change p clock extra) d (undo si p path epath htmx clock)"
  unfolding undo_def
  by (auto split: option.split intro!: changes_answer changes_write request_rules intro: DeleteCareEvent_change)

lemma readEvent_changes:
  assumes "\<And>plant eid lq r. GetCareEvent (gid p) plant eid d = Inr r \<Longrightarrow>
    changes R d (k \<lparr>le_row = r, le_q = lq, le_now = In_loc clock (locationFor si (pr_User p))\<rparr>)"
  shows "changes R d (readEvent si p path epath q clock k)"
  unfolding readEvent_def using assms by (auto split: option.split intro!: changes_answer changes_read)

lemma remove_changes: "changes (care_change p clock extra) d (remove si p path epath q htmx clock)"
  unfolding remove_def by (intro readEvent_changes changes_write request_rules DeleteCareEvent_change)

lemma one_row_filter:
  assumes "one_row (filter P xs) = Inr r"
  shows "r \<in> set xs" "P r"
proof -
  obtain rs where rs: "filter P xs = r # rs" using assms by (auto simp: one_row_Inr)
  have "r \<in> set (filter P xs)" unfolding rs by simp
  then show "r \<in> set xs" "P r" by simp_all
qed

lemma GetCareEvent_event: "GetCareEvent garden plant eid d = Inr r \<Longrightarrow> er_CareEvent r \<in> set (t_care_event d)"
  unfolding GetCareEvent_def by (drule one_row_filter(1)) (auto simp: event_rows_def)

lemma sheetOver_changes:
  assumes "\<And>care s pl offers. newSheet (si_lower si) pl offers care dr (le_now e) = Some s \<Longrightarrow>
      of_Schedule care = zero_CareSchedule \<or> of_Schedule care \<in> set (t_care_schedule d) \<Longrightarrow>
      changes R d (k (forEvent p e dr s))"
  shows "changes R d (sheetOver si p e dr clock k)"
  unfolding sheetOver_def Let_def
proof (rule loadPlant_changes, intro changes_branches changes_answer, goal_cases)
  case (1 pl schedules events ls cares care s)
  let ?detail = "\<lparr>pd_plant = pl, pd_lines = plantLines ls (ce_PlantID (le_care e)), pd_cares = cares,
    pd_now = In_loc clock (locationFor si (pr_User p))\<rparr>"
  have "of_Schedule o' = zero_CareSchedule \<or> of_Schedule o' \<in> set (t_care_schedule d)"
    if "o' \<in> set (detail_offers ?detail)" for o'
    by (rule detail_offers_schedule [OF _ that]) (use 1 lines_schedules in \<open>auto simp: plantLines_def\<close>)
  then have "of_Schedule care = zero_CareSchedule \<or> of_Schedule care \<in> set (t_care_schedule d)"
    using withEventCare_schedule [OF find_in [OF 1(4) [unfolded offerFor_def]]] by blast
  with 1 assms show ?case by blast
qed

lemma saved_change:
  assumes "UpdateCareEvent (correction (forEvent p e dr s) dr at) i (gid p) plant (Can p ''care.edit_any'')
      (us_ID (pr_User p)) d = Inr (x, d')"
    "accept (forEvent p e dr s) dr (le_now e) = Inr at" "newSheet lower pl offers care dr now = Some s"
    "of_Schedule care = zero_CareSchedule \<or> of_Schedule care \<in> set (t_care_schedule d)"
    "le_care e \<in> set (t_care_event d)" "le_now e = In_loc clock l"
  shows "skip_change p clock d d'"
proof -
  note acc = accept_Inr [OF assms(2)]
  have "offered d (dr_Again dr) \<or> kept d (dr_Again dr)" if "dr_Skipped dr"
    using forEvent_reminders [OF acc(2) [OF that]] newSheet_reminders [OF assms(3,4)] assms(5) by (auto simp: kept_def)
  then have "skip_ok d (change_event (correction (forEvent p e dr s) dr at) e')" for e'
    by (auto simp: skip_ok_def change_event_def correction_def)
  with acc(1) show ?thesis
    by (intro UpdateCareEvent_change [OF assms(1)]) (simp_all add: correction_def assms(6) not_after_In_loc)
qed

lemma save_changes: "changes (skip_change p clock) d (save si p path epath q get htmx clock)"
  unfolding save_def
proof (rule readEvent_changes, intro changes_branches changes_answer, rule sheetOver_changes,
    intro changes_branches changes_answer changes_write changes_quiet request_rules, goal_cases)
  case (1 plant eid lq r dr care s pl offers at x d')
  from saved_change [OF 1(7,6,4,5)] GetCareEvent_event [OF 1(1)] show ?case by simp
qed

lemma restore_changes:
  "changes (care_change p clock (\<lambda>e. ce_Done e \<or> ce_OverrideIntervalDays e \<noteq> None)) d
     (restore si p path epath q get htmx clock)"
proof (cases "readEventPath si path epath q")
  case (Some x)
  obtain plant eid lq where x: "x = (plant, eid, lq)" by (cases x)
  show ?thesis
    unfolding restore_def Some x option.case prod.case
  proof (intro changes_read changes_branches changes_answer changes_write, goal_cases)
    case (1 pl a ct x d')
    have a: "\<not> After (ep_PerformedAt a) clock" "ep_Done a \<or> ep_OverrideIntervalDays a \<noteq> None"
      using 1(2) by (auto simp: restoreParams_def split: option.splits if_splits)
    show ?case
      by (rule RestoreCareEvent_change [OF 1(4)]) (use a in \<open>auto simp: event_of_def\<close>)
  qed (intro request_rules)
qed (simp add: restore_def changes_answer)

lemma care_change_mono: "care_change p clock extra d d' \<Longrightarrow> (\<And>e. extra e \<Longrightarrow> extra' e) \<Longrightarrow> care_change p clock extra' d d'"
  unfolding care_change_def by blast

lemma changes_mono: "changes R d m \<Longrightarrow> (\<And>d'. R d d' \<Longrightarrow> R' d d') \<Longrightarrow> changes R' d m"
  unfolding changes_def by blast

lemma skip_ok_interval: "skip_ok d e \<Longrightarrow> ce_Done e \<or> ce_OverrideIntervalDays e \<noteq> None"
  by (auto simp: skip_ok_def split: option.splits)

lemma skip_changes_interval:
  "changes (skip_change p clock) d m \<Longrightarrow> changes (care_change p clock (\<lambda>e. ce_Done e \<or> ce_OverrideIntervalDays e \<noteq> None)) d m"
  by (erule changes_mono) (erule care_change_mono, erule skip_ok_interval)

lemma handle_changes:
  "changes (care_change p clock (\<lambda>e. ce_Done e \<or> ce_OverrideIntervalDays e \<noteq> None)) d (handle si p clock req)"
  by (cases req; simp only: handle.simps;
      rule skip_changes_interval [OF log_care_changes] skip_changes_interval [OF save_changes] undo_changes
        remove_changes restore_changes)

text \<open>
  (C4) Whatever a request to log, undo, correct, delete or restore care sends, and whatever
  database call fails, it changes nothing but care events; every event it writes is of the reader's
  garden, performed by the reader unless they may edit or delete anyone's care, not dated after
  the request, and has an interval if it is a skip; and every event it takes out is one the reader
  may touch.
\<close>

theorem care_requests_authorised:
  assumes "handle si p clock req w = (ans, w')"
  shows "tables w' = tables w
    \<or> care_change p clock (\<lambda>e. ce_Done e \<or> ce_OverrideIntervalDays e \<noteq> None) (tables w) (tables w')"
  using changesD [OF handle_changes assms] .

text \<open>A garden with one plant, its reader, and the Undo form of an event.\<close>

definition ex_site :: site where
  "ex_site = \<lparr>si_LoadLocation = (\<lambda>_. None), si_lower = (\<lambda>s. s), si_ToUpper = (\<lambda>r. r), si_TrimSpace = (\<lambda>s. s),
     si_parse_uuid = Some, si_parse_time = (\<lambda>_. Some zero_time), si_collate = strings_Compare, si_pushKey = ''''\<rparr>"

definition ex_sitter :: principal where
  "ex_sitter = zero_Principal\<lparr>pr_Garden := zero_Garden\<lparr>ga_ID := ''g1''\<rparr>, pr_User := zero_AppUser\<lparr>us_ID := ''u1''\<rparr>\<rparr>"

definition ex_undo_form :: "string \<Rightarrow> string \<Rightarrow> form" where
  "ex_undo_form finished again = (\<lambda>k. '''')(''care'' := ''c1'', ''by'' := ''u1'', ''at'' := ''t'', ''recorded'' := ''t'',
     ''done'' := finished, ''again'' := again)"

definition ex_restored :: "bool \<Rightarrow> int option \<Rightarrow> care_event" where
  "ex_restored finished again = \<lparr>ce_ID = ''e9'', ce_GardenID = ''g1'', ce_PlantID = ''p1'', ce_CareTypeID = ''c1'',
     ce_PerformedBy = ''u1'', ce_PerformedAt = zero_time, ce_RecordedAt = zero_time, ce_Done = finished, ce_Note = None,
     ce_OverrideIntervalDays = again\<rparr>"

lemma ex_restore:
  assumes "restoreParams ex_site (ex_undo_form finished again) zero_time
    = Some \<lparr>ep_GardenID = nil_uuid, ep_PlantID = nil_uuid, ep_CareTypeID = ''c1'', ep_PerformedBy = ''u1'',
        ep_PerformedAt = zero_time, ep_RecordedAt = zero_time, ep_Done = f, ep_Note = None, ep_OverrideIntervalDays = n\<rparr>"
  shows "handle ex_site ex_sitter zero_time (Restore ''p1'' ''e9'' (Some empty_query) (ex_undo_form finished again) False)
      \<lparr>tables = ex_tables, faults = []\<rparr>
    = (Redirect (Some empty_query), \<lparr>tables = ex_tables\<lparr>t_care_event := [ex_restored f n]\<rparr>, faults = []\<rparr>)"
  using assms
  by (simp add: restore_def readEventPath_def ex_site_def empty_query_def if_set_def read_or_def reading_def next_fault_def
      GetPlant_def GetCareType_def one_row_def ex_sitter_def write_or_def writing_def RestoreCareEvent_def has_user_def
      event_keys_def has_plant_def has_care_type_def event_of_def ex_restored_def ex_tables_def empty_db_def zero_Plant_def
      Let_def)

theorem care_requests_authorised_witness:
  "\<exists>w'. handle ex_site ex_sitter zero_time (Restore ''p1'' ''e9'' (Some empty_query) (ex_undo_form ''true'' '''') False)
      \<lparr>tables = ex_tables, faults = []\<rparr> = (Redirect (Some empty_query), w')
    \<and> t_care_event (tables w') = [ex_restored True None]
    \<and> care_change ex_sitter zero_time (\<lambda>e. ce_Done e \<or> ce_OverrideIntervalDays e \<noteq> None) ex_tables (tables w')"
proof -
  have "restoreParams ex_site (ex_undo_form ''true'' '''') zero_time
    = Some \<lparr>ep_GardenID = nil_uuid, ep_PlantID = nil_uuid, ep_CareTypeID = ''c1'', ep_PerformedBy = ''u1'',
        ep_PerformedAt = zero_time, ep_RecordedAt = zero_time, ep_Done = True, ep_Note = None, ep_OverrideIntervalDays = None\<rparr>"
    by (simp add: restoreParams_def ex_site_def ex_undo_form_def ParseBool_def After_def)
  note run = ex_restore [OF this]
  have "ex_tables\<lparr>t_care_event := [ex_restored True None]\<rparr> \<noteq> ex_tables" by (simp add: ex_tables_def empty_db_def)
  with care_requests_authorised [OF run] run show ?thesis by simp
qed

text \<open>
  \<open>restoreParams\<close> does not check the interval of a skip: a hand-made post to restore stores a
  skip with an interval of zero days, which the sheet would never accept.
\<close>

theorem restore_stores_zero_interval:
  "\<exists>w' e. handle ex_site ex_sitter zero_time (Restore ''p1'' ''e9'' (Some empty_query) (ex_undo_form ''false'' ''0'') False)
      \<lparr>tables = ex_tables, faults = []\<rparr> = (Redirect (Some empty_query), w')
    \<and> e \<in> set (t_care_event (tables w')) \<and> \<not> ce_Done e \<and> ce_OverrideIntervalDays e = Some 0"
proof -
  have "ParseInt 32 ''0'' = Some 0" by code_simp
  then have "restoreParams ex_site (ex_undo_form ''false'' ''0'') zero_time
    = Some \<lparr>ep_GardenID = nil_uuid, ep_PlantID = nil_uuid, ep_CareTypeID = ''c1'', ep_PerformedBy = ''u1'',
        ep_PerformedAt = zero_time, ep_RecordedAt = zero_time, ep_Done = False, ep_Note = None, ep_OverrideIntervalDays = Some 0\<rparr>"
    by (simp add: restoreParams_def ex_site_def ex_undo_form_def ParseBool_def After_def)
  from ex_restore [OF this] show ?thesis by (simp add: ex_restored_def)
qed

text \<open>What the tables hold of the intervals: none on care that was done, a positive one on a skip,
  and schedules the plant form accepts.\<close>

definition event_interval_ok :: "care_event \<Rightarrow> bool" where
  "event_interval_ok e \<longleftrightarrow> (case ce_OverrideIntervalDays e of None \<Rightarrow> ce_Done e | Some n \<Rightarrow> \<not> ce_Done e \<and> 0 < n)"

definition intervals_ok :: "db \<Rightarrow> bool" where
  "intervals_ok d \<longleftrightarrow> (\<forall>e \<in> set (t_care_event d). event_interval_ok e)
     \<and> (\<forall>s \<in> set (t_care_schedule d). care_schedule_checks s \<and> if_set (cs_IntervalCount s) (\<lambda>c. 7 * c < 2 ^ 31))"

lemma usualDays_nonneg:
  assumes "care_schedule_checks s" "if_set (cs_IntervalCount s) (\<lambda>c. 7 * c < 2 ^ 31)" "usualDays s = Some u"
  shows "0 \<le> u"
  using assms
  by (auto simp: usualDays_def care_schedule_checks_def if_set_def wrap32_def split: option.splits if_splits)

lemma offered_positive:
  assumes "intervals_ok d" "offered d n"
  shows "0 < n"
proof -
  obtain s u where s: "s = zero_CareSchedule \<or> s \<in> set (t_care_schedule d)" "usualDays s = Some u"
    "chipsHave (reminderChips u) (Itoa n)" using assms(2) by (auto simp: offered_def)
  have "0 \<le> u"
    using s(1,2) usualDays_nonneg assms(1)
    by (auto simp: intervals_ok_def usualDays_def zero_CareSchedule_def)
  moreover have "n \<in> {1, 2, 3, 7, u}" "u = 0 \<Longrightarrow> n \<in> {1, 2, 3, 7}"
    using s(3)
    by (auto simp: chipsHave_def reminderChips_def mk_chip_def Let_def fallbackReminderDays_def
        dest: Itoa_inject split: if_splits)
  ultimately show ?thesis by (cases "u = 0") auto
qed

lemma skip_ok_positive: "intervals_ok d \<Longrightarrow> skip_ok d e \<Longrightarrow> event_interval_ok e"
  using offered_positive
  by (fastforce simp: skip_ok_def event_interval_ok_def kept_def intervals_ok_def split: option.splits)

lemma care_change_intervals:
  assumes "intervals_ok d" "care_change p clock (skip_ok d) d d'"
  shows "intervals_ok d'"
proof -
  have "t_care_schedule (d'\<lparr>t_care_event := t_care_event d\<rparr>) = t_care_schedule d"
    using assms(2) unfolding care_change_def by (rule conjunct1 [THEN arg_cong])
  then have s: "t_care_schedule d' = t_care_schedule d" by simp
  have "event_interval_ok e" if "e \<in> set (t_care_event d')" for e
  proof -
    from assms(2) that have "e \<in> set (t_care_event d) \<or> skip_ok d e" unfolding care_change_def by blast
    then show ?thesis using skip_ok_positive [OF assms(1)] assms(1) unfolding intervals_ok_def by blast
  qed
  with assms(1) show ?thesis unfolding intervals_ok_def s by blast
qed

text \<open>
  Logging, correcting, undoing and deleting keep the intervals in order: care that was done
  has none and a skip has a positive one, because a post is checked against the chips the sheet
  offers.
\<close>

theorem skip_intervals_positive:
  assumes "intervals_ok (tables w)" "\<forall>path epath q get htmx. req \<noteq> Restore path epath q get htmx"
    "handle si p clock req w = (ans, w')"
  shows "intervals_ok (tables w')"
proof -
  have "changes (skip_change p clock) (tables w) (handle si p clock req)"
  proof (cases req)
    case (Restore path epath q get htmx)
    with assms(2) show ?thesis by blast
  qed (simp_all only: handle.simps log_care_changes save_changes changes_mono [OF undo_changes [of p clock "skip_ok (tables w)"]]
      changes_mono [OF remove_changes [of p clock "skip_ok (tables w)"]])
  from changesD [OF this assms(3)] show ?thesis using care_change_intervals [OF assms(1)] assms(1) by auto
qed

theorem skip_intervals_positive_witness:
  "\<exists>w'. handle ex_site ex_sitter zero_time (Undo ''p1'' ''e1'' False) \<lparr>tables = ex_care, faults = []\<rparr> = (Redirect None, w')
    \<and> length (t_care_event (tables w')) = 1 \<and> intervals_ok (tables w')"
proof -
  define t1 t2 where "t1 = mk_Date 2026 3 1 9 0 0 0 utc" and "t2 = mk_Date 2026 3 8 9 0 0 0 utc"
  define d where "d = ex_tables\<lparr>t_care_event := [ex_event ''e1'' t1, ex_event ''e2'' t2]\<rparr>"
  have d: "ex_care = d" by (simp add: ex_care_def d_def t1_def t2_def)
  have run: "handle ex_site ex_sitter zero_time (Undo ''p1'' ''e1'' False) \<lparr>tables = d, faults = []\<rparr>
      = (Redirect None, \<lparr>tables = d\<lparr>t_care_event := [ex_event ''e2'' t2]\<rparr>, faults = []\<rparr>)"
    by (simp add: undo_def ex_site_def write_or_def writing_def next_fault_def DeleteCareEvent_def delete_returning_def
        delete_where_def one_row_def may_touch_def ex_sitter_def d_def ex_event_def)
  have ok: "intervals_ok d"
    by (simp add: intervals_ok_def event_interval_ok_def d_def ex_event_def zero_CareEvent_def ex_tables_def
        care_schedule_checks_def if_set_def zero_CareSchedule_def)
  from skip_intervals_positive [OF _ _ run] ok run show ?thesis unfolding d by auto
qed

end
