(* ===== verification/Http_Schedule.thy ===== *)
theory Http_Schedule
  imports Http_Care
begin

text \<open>
  The schedule editor: the row's draft and what it accepts
  (\<open>src/internal/http/schedule_field.go\<close>), the rows of the plant's page (\<open>plant.go\<close>), and the
  handlers that open, save and remove a schedule (\<open>schedule.go\<close>).  The editor is the only writer
  of schedules that checks the months of a season, which the schema does not.
\<close>

section \<open>url.Values\<close>

text \<open>The fields of a query string or a form body in their order.\<close>

type_synonym "values" = "(string \<times> string) list"

definition Get :: "values \<Rightarrow> string \<Rightarrow> string" where
  "Get vs name = (case map_of vs name of None \<Rightarrow> '''' | Some v \<Rightarrow> v)"

definition Has :: "values \<Rightarrow> string \<Rightarrow> bool" where
  "Has vs name \<longleftrightarrow> name \<in> set (map fst vs)"

definition All :: "values \<Rightarrow> string \<Rightarrow> string list" where
  "All vs name = map snd (filter (\<lambda>v. fst v = name) vs)"

section \<open>The draft\<close>

definition shapeCadence :: string where "shapeCadence = ''cadence''"
definition shapeDate :: string where "shapeDate = ''date''"
definition shapeOnce :: string where "shapeOnce = ''once''"

record shape_option =
  so_value :: string
  so_label :: string
  so_hint :: string

definition shapes :: "shape_option list" where
  "shapes =
     [\<lparr>so_value = shapeCadence, so_label = ''Repeats'', so_hint = ''Counted from the last time it was logged''\<rparr>,
      \<lparr>so_value = shapeDate, so_label = ''On a fixed date'', so_hint = ''Due on the same date each time''\<rparr>,
      \<lparr>so_value = shapeOnce, so_label = ''Just once'', so_hint = ''A single date''\<rparr>]"

definition anyDay :: int where "anyDay = 0"
definition maxInterval :: int where "maxInterval = 999"
definition anchorSpan :: int where "anchorSpan = 7"

definition units :: "string list" where
  "units = [''day'', ''week'', ''month'', ''year'']"

record schedule_draft =
  sd_care :: care_type
  sd_open :: bool
  sd_shape :: string
  sd_every :: string
  sd_unit :: string
  sd_seasonal :: bool
  sd_from :: int
  sd_to :: int
  sd_day :: int
  sd_month :: int
  sd_year :: int
  sd_hasInterval :: bool
  sd_hasAnchor :: bool

definition newScheduleDraft :: "care_type \<Rightarrow> gotime \<Rightarrow> schedule_draft" where
  "newScheduleDraft care now =
     \<lparr>sd_care = care, sd_open = False, sd_shape = shapeCadence, sd_every = ''1'', sd_unit = ''week'',
      sd_seasonal = False, sd_from = 3, sd_to = 9, sd_day = anyDay, sd_month = Month now,
      sd_year = Year now + 1, sd_hasInterval = True, sd_hasAnchor = True\<rparr>"

definition days :: "int list" where
  "days = [anyDay..31]"

definition months :: "int list" where
  "months = [1..12]"

definition anchorYears :: "gotime \<Rightarrow> int \<Rightarrow> int list" where
  "anchorYears now y = (if y < Year now then [y] else []) @ map (\<lambda>i. Year now + i) [0..anchorSpan - 1]"

definition numberIn :: "string \<Rightarrow> int list \<Rightarrow> int option" where
  "numberIn v ns =
     (case Atoi v of None \<Rightarrow> None | Some n \<Rightarrow> if n \<in> set ns then Some n else None)"

definition monthIn :: "string \<Rightarrow> int option" where
  "monthIn v = numberIn v months"

text \<open>\<open>fill\<close> in its four groups of controls; each is \<open>None\<close> for a value no control offers.\<close>

abbreviation part :: "schedule_draft \<Rightarrow> string \<Rightarrow> string" where
  "part f name \<equiv> ct_Slug (sd_care f) @ ''-'' @ name"

definition fill_shape :: "values \<Rightarrow> schedule_draft \<Rightarrow> schedule_draft option" where
  "fill_shape vs f =
     (let picked = Get vs (part f ''shape'') in
      if picked = '''' then Some f
      else if picked \<notin> set (map so_value shapes) then None
      else Some (f\<lparr>sd_shape := picked\<rparr>))"

definition fill_interval :: "(string \<Rightarrow> string) \<Rightarrow> values \<Rightarrow> schedule_draft \<Rightarrow> schedule_draft option" where
  "fill_interval trim vs f =
     (if \<not> Has vs (part f ''every'') then Some (f\<lparr>sd_hasInterval := False\<rparr>)
      else if Get vs (part f ''unit'') \<notin> set units then None
      else Some (f\<lparr>sd_hasInterval := True, sd_every := trim (Get vs (part f ''every'')),
                   sd_unit := Get vs (part f ''unit'')\<rparr>))"

definition fill_season :: "values \<Rightarrow> schedule_draft \<Rightarrow> schedule_draft option" where
  "fill_season vs f =
     (let g = f\<lparr>sd_seasonal := Has vs (part f ''seasonal'')\<rparr> in
      if \<not> Has vs (part f ''from'') then Some g
      else (case monthIn (Get vs (part f ''from'')) of
         None \<Rightarrow> None
       | Some a \<Rightarrow>
           (case monthIn (Get vs (part f ''to'')) of None \<Rightarrow> None | Some b \<Rightarrow> Some (g\<lparr>sd_from := a, sd_to := b\<rparr>))))"

definition fill_anchor :: "values \<Rightarrow> int list \<Rightarrow> schedule_draft \<Rightarrow> schedule_draft option" where
  "fill_anchor vs years f =
     (if \<not> Has vs (part f ''month'') then Some (f\<lparr>sd_hasAnchor := False\<rparr>)
      else (case numberIn (Get vs (part f ''day'')) days of
         None \<Rightarrow> None
       | Some d \<Rightarrow>
      (case monthIn (Get vs (part f ''month'')) of
         None \<Rightarrow> None
       | Some m \<Rightarrow>
      (case numberIn (Get vs (part f ''year'')) years of
         None \<Rightarrow> None
       | Some y \<Rightarrow> Some (f\<lparr>sd_hasAnchor := True, sd_day := d, sd_month := m, sd_year := y\<rparr>)))))"

definition fill :: "(string \<Rightarrow> string) \<Rightarrow> values \<Rightarrow> gotime \<Rightarrow> schedule_draft \<Rightarrow> schedule_draft option" where
  "fill trim vs now f =
     Option.bind (fill_shape vs f) (\<lambda>f1. Option.bind (fill_interval trim vs f1) (\<lambda>f2.
     Option.bind (fill_season vs f2) (fill_anchor vs (anchorYears now (sd_year f)))))"

definition readScheduleDraft ::
  "(string \<Rightarrow> string) \<Rightarrow> values \<Rightarrow> care_type \<Rightarrow> gotime \<Rightarrow> schedule_draft option" where
  "readScheduleDraft trim vs care now =
     (let f = newScheduleDraft care now;
          opened = ct_Slug care \<in> set (All vs ''open'') \<and> ct_Slug care \<notin> set (All vs ''close'') in
      if \<not> opened then Some f else fill trim vs now (f\<lparr>sd_open := True\<rparr>))"

definition smallint :: "int \<Rightarrow> int option" where
  "smallint n = (if n < - (2 ^ 15) \<or> 2 ^ 15 - 1 < n then None else Some n)"

text \<open>\<open>params\<close>: the row to store, or the message under the field.\<close>

definition params :: "uuid \<Rightarrow> schedule_draft \<Rightarrow> string + schedule_params" where
  "params garden f =
     (let p = \<lparr>sp_GardenID = garden, sp_PlantID = nil_uuid, sp_CareTypeID = ct_ID (sd_care f), sp_IntervalCount = None,
               sp_IntervalUnit = None, sp_AnchorDate = None, sp_AnchorPrecision = None,
               sp_SeasonStartMonth = None, sp_SeasonEndMonth = None\<rparr>;
          dated = (\<lambda>p.
            if \<not> sd_hasAnchor f then Inl ''Choose a date.''
            else (let (d, precision) = (if sd_day f = anyDay then (1, ''month'') else (sd_day f, ''day''));
                      anchor = mk_Date (sd_year f) (sd_month f) d 0 0 0 0 utc in
                  if Day_of anchor \<noteq> d then Inl ''Invalid date.''
                  else Inr (p\<lparr>sp_AnchorDate := Some anchor, sp_AnchorPrecision := Some precision\<rparr>)));
          rest = (\<lambda>p.
            if sd_shape f = shapeCadence then
              Inr (if sd_seasonal f
                   then p\<lparr>sp_SeasonStartMonth := smallint (sd_from f), sp_SeasonEndMonth := smallint (sd_to f)\<rparr> else p)
            else dated p) in
      if sd_shape f \<noteq> shapeOnce then
        (if \<not> sd_hasInterval f then Inl ''Enter how often it repeats.''
         else (case ParseInt 32 (sd_every f) of
             None \<Rightarrow> Inl (''Enter a number between 1 and '' @ Itoa maxInterval @ ''.'')
           | Some n \<Rightarrow>
               if n < 1 \<or> maxInterval < n then Inl (''Enter a number between 1 and '' @ Itoa maxInterval @ ''.'')
               else rest (p\<lparr>sp_IntervalCount := Some n, sp_IntervalUnit := Some (sd_unit f)\<rparr>)))
      else rest p)"

text \<open>\<open>scheduleDraftOf\<close>; \<open>None\<close> is the panic of a nil dereference, which the schema rules out.\<close>

definition scheduleDraftOf :: "care_type \<Rightarrow> care_schedule \<Rightarrow> gotime \<Rightarrow> schedule_draft option" where
  "scheduleDraftOf care s now =
     (let f = newScheduleDraft care now;
          f = f\<lparr>sd_shape := (if cs_AnchorDate s = None then shapeCadence
                              else if cs_IntervalCount s = None then shapeOnce else shapeDate)\<rparr>;
          interval = (\<lambda>f. case cs_IntervalCount s of
              None \<Rightarrow> Some f
            | Some c \<Rightarrow> map_option (\<lambda>u. f\<lparr>sd_every := Itoa c, sd_unit := u\<rparr>) (cs_IntervalUnit s));
          season = (\<lambda>f. case cs_SeasonStartMonth s of
              None \<Rightarrow> Some f
            | Some a \<Rightarrow> map_option (\<lambda>b. f\<lparr>sd_seasonal := True, sd_from := a, sd_to := b\<rparr>) (cs_SeasonEndMonth s));
          anchor = (\<lambda>f. case cs_AnchorDate s of
              None \<Rightarrow> Some f
            | Some a \<Rightarrow> map_option (\<lambda>precision.
                f\<lparr>sd_day := (if precision = ''month'' then anyDay else Day_of a), sd_month := Month a, sd_year := Year a\<rparr>)
                (cs_AnchorPrecision s))
      in Option.bind (interval f) (\<lambda>f. Option.bind (season f) anchor))"

definition upsert :: "uuid \<Rightarrow> uuid \<Rightarrow> schedule_draft \<Rightarrow> string + schedule_params" where
  "upsert garden plant f =
     (case params garden f of Inl message \<Rightarrow> Inl message | Inr p \<Rightarrow> Inr (p\<lparr>sp_PlantID := plant\<rparr>))"

section \<open>The add form's rows\<close>

definition readScheduleRows ::
  "(string \<Rightarrow> string) \<Rightarrow> values \<Rightarrow> care_type list \<Rightarrow> gotime \<Rightarrow> schedule_draft list option" where
  "readScheduleRows trim vs cares now =
     those (map (\<lambda>care. readScheduleDraft trim vs care now) cares)"

definition waterSlug :: string where "waterSlug = ''water''"

definition openingRows :: "care_type list \<Rightarrow> gotime \<Rightarrow> schedule_draft list" where
  "openingRows cares now = map (\<lambda>care. (newScheduleDraft care now)\<lparr>sd_open := ct_Slug care = waterSlug\<rparr>) cares"

fun checkSchedules ::
  "uuid \<Rightarrow> schedule_draft list \<Rightarrow> schedule_params list \<times> (string \<rightharpoonup> string) \<times> bool" where
  "checkSchedules garden [] = ([], Map.empty, False)"
| "checkSchedules garden (f # fs) =
     (case checkSchedules garden fs of (schedules, messages, refused) \<Rightarrow>
        if \<not> sd_open f then (schedules, messages, refused)
        else (case params garden f of
                Inl message \<Rightarrow> (schedules,
                  (if ct_Slug (sd_care f) \<in> dom messages then messages else messages(ct_Slug (sd_care f) \<mapsto> message)), True)
              | Inr p \<Rightarrow> (p # schedules, messages, refused)))"

section \<open>The row as it is rendered\<close>

record sel_option =
  op_Value :: string
  op_Label :: string
  op_On :: bool

definition monthOptions :: "int \<Rightarrow> sel_option list" where
  "monthOptions selected = map (\<lambda>m. \<lparr>op_Value = Itoa m, op_Label = Month_String m, op_On = (m = selected)\<rparr>) [1..12]"

definition numberOptions :: "int list \<Rightarrow> int \<Rightarrow> sel_option list" where
  "numberOptions ns selected = map (\<lambda>n. \<lparr>op_Value = Itoa n, op_Label = Itoa n, op_On = (n = selected)\<rparr>) ns"

record schedule_field =
  sf_ID :: string
  sf_Care :: string
  sf_Slug :: string
  sf_Icon :: string
  sf_Open :: bool
  sf_Path :: string
  sf_Shapes :: "sel_option list"
  sf_Hint :: string
  sf_Repeats :: bool
  sf_Dated :: bool
  sf_Every :: string
  sf_Max :: int
  sf_Units :: "sel_option list"
  sf_Seasonal :: bool
  sf_From :: "sel_option list"
  sf_To :: "sel_option list"
  sf_Days :: "sel_option list"
  sf_Months :: "sel_option list"
  sf_Years :: "sel_option list"
  sf_Error :: string

definition scheduleRowPrefix :: string where "scheduleRowPrefix = ''sched-''"

definition scheduleRowID :: "care_type \<Rightarrow> string" where
  "scheduleRowID care = scheduleRowPrefix @ ct_Slug care"

definition scheduleRowSlug :: "string \<Rightarrow> string option" where
  "scheduleRowSlug target =
     (if take (length scheduleRowPrefix) target = scheduleRowPrefix
      then Some (drop (length scheduleRowPrefix) target) else None)"

definition newScheduleField :: "schedule_draft \<Rightarrow> string \<Rightarrow> gotime \<Rightarrow> schedule_field" where
  "newScheduleField f path now =
     \<lparr>sf_ID = scheduleRowID (sd_care f), sf_Care = ct_Name (sd_care f), sf_Slug = ct_Slug (sd_care f),
      sf_Icon = ct_Icon (sd_care f), sf_Open = sd_open f, sf_Path = path,
      sf_Shapes = map (\<lambda>s. \<lparr>op_Value = so_value s, op_Label = so_label s, op_On = (so_value s = sd_shape f)\<rparr>) shapes,
      sf_Hint = concat (map so_hint (filter (\<lambda>s. so_value s = sd_shape f) shapes)),
      sf_Repeats = (sd_shape f \<noteq> shapeOnce), sf_Dated = (sd_shape f \<noteq> shapeCadence), sf_Every = sd_every f,
      sf_Max = maxInterval,
      sf_Units = map (\<lambda>u. \<lparr>op_Value = u, op_Label = u @ ''(s)'', op_On = (u = sd_unit f)\<rparr>) units,
      sf_Seasonal = sd_seasonal f, sf_From = monthOptions (sd_from f), sf_To = monthOptions (sd_to f),
      sf_Days = \<lparr>op_Value = Itoa anyDay, op_Label = ''Any day'', op_On = (sd_day f = anyDay)\<rparr>
        # numberOptions (tl days) (sd_day f),
      sf_Months = monthOptions (sd_month f), sf_Years = numberOptions (anchorYears now (sd_year f)) (sd_year f),
      sf_Error = ''''\<rparr>"

definition andList :: "string list \<Rightarrow> string" where
  "andList names =
     (if length names \<le> 1 then Join names '''' else Join (butlast names) '', '' @ '' and '' @ last names)"

definition nowShows :: "schedule_field \<Rightarrow> string" where
  "nowShows f =
     (if \<not> sf_Open f then sf_Care f @ '' is not scheduled.''
      else sf_Care f @ '' now has ''
        @ andList ([''When''] @ (if sf_Repeats f then [''Every''] else [])
            @ (if sf_Dated f then [''Next due''] else [''Seasonal''])
            @ (if sf_Seasonal f then [''the months it runs in''] else [])) @ ''.'')"

section \<open>The rows of the plant's page\<close>

definition comingWeek :: int where "comingWeek = 7"

text \<open>\<open>None\<close> is the panic of a nil unit or a nil end month.\<close>

definition ruleWord :: "care_schedule \<Rightarrow> string option" where
  "ruleWord s =
     (case cs_IntervalCount s of
        None \<Rightarrow> Some ''Just once''
      | Some c \<Rightarrow> map_option (\<lambda>u. ''Every '' @ everyWord c u) (cs_IntervalUnit s))"

definition dueWord :: "(nat \<Rightarrow> nat) \<Rightarrow> line \<Rightarrow> gotime \<Rightarrow> string" where
  "dueWord upper l now =
     (let later = ''Due '' @ (if cs_AnchorDate (ln_Schedule l) \<noteq> None \<and> comingWeek < ln_Days l
                            then anchorWord (ln_Due l) (ln_Precision l) now else comingWord l now) in
      if ln_State l = Dormant then ''Out of season''
      else if ln_State l = Overdue then capitalise_word upper (overdueWord l now)
      else if ln_State l = DueToday \<and> ln_Precision l \<noteq> ''month'' then ''Due today'' else later)"

record schedule_row_view =
  rv_ID :: string
  rv_Care :: string
  rv_Slug :: string
  rv_Icon :: string
  rv_Rule :: string
  rv_When :: string
  rv_Season :: string
  rv_Scheduled :: bool
  rv_Late :: bool
  rv_Off :: bool
  rv_Open :: string

definition schedulePath :: "uuid \<Rightarrow> string \<Rightarrow> string" where
  "schedulePath plant slug = plantPath plant @ ''/schedule/'' @ slug"

definition removeSchedulePath :: "uuid \<Rightarrow> string \<Rightarrow> string" where
  "removeSchedulePath plant slug = schedulePath plant slug @ ''/remove''"

definition newScheduleRow :: "(nat \<Rightarrow> nat) \<Rightarrow> line \<Rightarrow> plant_detail \<Rightarrow> bool \<Rightarrow> schedule_row_view option" where
  "newScheduleRow upper l d edit =
     (case (ruleWord (ln_Schedule l), cs_SeasonStartMonth (ln_Schedule l), cs_SeasonEndMonth (ln_Schedule l)) of
        (None, _, _) \<Rightarrow> None
      | (Some _, Some _, None) \<Rightarrow> None
      | (Some rule, starts, ends) \<Rightarrow> Some
          \<lparr>rv_ID = scheduleRowID (ln_CareType l), rv_Care = ct_Name (ln_CareType l), rv_Slug = ct_Slug (ln_CareType l),
           rv_Icon = ct_Icon (ln_CareType l), rv_Rule = rule, rv_When = dueWord upper l (pd_now d),
           rv_Season = (case (starts, ends) of (Some a, Some b) \<Rightarrow> seasonWord a b | _ \<Rightarrow> ''''),
           rv_Scheduled = True, rv_Late = (ln_State l = Overdue), rv_Off = (ln_State l = Dormant),
           rv_Open = (if edit then schedulePath (pl_ID (pd_plant d)) (ct_Slug (ln_CareType l)) else '''')\<rparr>)"

definition scheduleRows :: "(nat \<Rightarrow> nat) \<Rightarrow> principal \<Rightarrow> plant_detail \<Rightarrow> schedule_row_view list option" where
  "scheduleRows upper p d =
     (let edit = (Can p ''schedule.edit'' \<and> pl_ArchivedAt (pd_plant d) = None);
          live = filter (\<lambda>l. ln_State l \<noteq> Spent) (pd_lines d);
          scheduled = map (\<lambda>l. ct_Slug (ln_CareType l)) live;
          bare = (\<lambda>care. \<lparr>rv_ID = scheduleRowID care, rv_Care = ct_Name care, rv_Slug = ct_Slug care,
             rv_Icon = ct_Icon care, rv_Rule = '''', rv_When = ''Not scheduled'', rv_Season = '''', rv_Scheduled = False,
             rv_Late = False, rv_Off = False, rv_Open = schedulePath (pl_ID (pd_plant d)) (ct_Slug care)\<rparr>)
      in map_option (\<lambda>rows. rows @ (if edit then map bare (filter (\<lambda>c. ct_Slug c \<notin> set scheduled) (pd_cares d)) else []))
           (those (map (\<lambda>l. newScheduleRow upper l d edit) live)))"

definition rowFor :: "schedule_row_view list \<Rightarrow> string \<Rightarrow> schedule_row_view option" where
  "rowFor rvs slug = find (\<lambda>r. rv_Slug r = slug) rvs"

section \<open>schedule.go\<close>

definition scheduledLine :: "line list \<Rightarrow> string \<Rightarrow> line option" where
  "scheduledLine ls slug =
     (case lineFor ls slug of None \<Rightarrow> None | Some l \<Rightarrow> if ln_State l = Spent then None else Some l)"

definition careFor :: "care_type list \<Rightarrow> string \<Rightarrow> care_type option" where
  "careFor cares slug = find (\<lambda>c. ct_Slug c = slug) cares"

text \<open>The outer option is the panic of \<open>scheduleDraftOf\<close>, the inner one a refused value.\<close>

definition scheduleDraftFor ::
  "(string \<Rightarrow> string) \<Rightarrow> values \<Rightarrow> plant_detail \<Rightarrow> care_type \<Rightarrow> schedule_draft option option" where
  "scheduleDraftFor trim vs d care =
     map_option (\<lambda>f. let f = f\<lparr>sd_open := True\<rparr> in if vs = [] then Some f else fill trim vs (pd_now d) f)
       (case scheduledLine (pd_lines d) (ct_Slug care) of
          None \<Rightarrow> Some (newScheduleDraft care (pd_now d))
        | Some l \<Rightarrow> scheduleDraftOf care (ln_Schedule l) (pd_now d))"

record schedule_editor =
  se_field :: schedule_field
  se_Cancel :: string
  se_Remove :: string
  se_Asking :: bool

definition newScheduleEditor :: "schedule_draft \<Rightarrow> plant_detail \<Rightarrow> bool \<Rightarrow> schedule_editor" where
  "newScheduleEditor f d asking =
     (let plant = pl_ID (pd_plant d); slug = ct_Slug (sd_care f) in
      \<lparr>se_field = newScheduleField f (schedulePath plant slug) (pd_now d), se_Cancel = plantPath plant,
       se_Remove = (if scheduledLine (pd_lines d) slug = None then '''' else removeSchedulePath plant slug),
       se_Asking = asking\<rparr>)"

definition plantAndCare ::
  "site \<Rightarrow> principal \<Rightarrow> string \<Rightarrow> string \<Rightarrow> gotime \<Rightarrow> (plant_detail \<Rightarrow> care_type \<Rightarrow> world \<Rightarrow> outcome) \<Rightarrow> world \<Rightarrow> outcome" where
  "plantAndCare si p path slug clock k =
     (case si_parse_uuid si path of
        None \<Rightarrow> (\<lambda>w. (Not_found, w))
      | Some plant \<Rightarrow>
          loadPlant si p plant clock missing (\<lambda>detail w.
            if pl_ArchivedAt (pd_plant detail) \<noteq> None then (Not_found, w)
            else (case careFor (pd_cares detail) slug of None \<Rightarrow> (Not_found, w) | Some care \<Rightarrow> k detail care w)))"

text \<open>The row a page shows, with its editor open or after a save.\<close>

definition row_answer ::
  "site \<Rightarrow> principal \<Rightarrow> plant_detail \<Rightarrow> string \<Rightarrow> (unit, log_query option) page_answer \<Rightarrow> (unit, log_query option) page_answer" where
  "row_answer si p detail slug shown =
     (case scheduleRows (si_ToUpper si) p detail of
        None \<Rightarrow> Server_error
      | Some rvs \<Rightarrow> if rowFor rvs slug = None then Not_found else shown)"

definition editor :: "site \<Rightarrow> principal \<Rightarrow> string \<Rightarrow> string \<Rightarrow> values \<Rightarrow> gotime \<Rightarrow> world \<Rightarrow> outcome" where
  "editor si p path slug vs clock =
     plantAndCare si p path slug clock (\<lambda>detail care w.
       case scheduleDraftFor (si_TrimSpace si) vs detail care of
         None \<Rightarrow> (Server_error, w)
       | Some None \<Rightarrow> (Bad_request, w)
       | Some (Some f) \<Rightarrow> (row_answer si p detail (ct_Slug care) (Page ()), w))"

definition settledRow :: "site \<Rightarrow> principal \<Rightarrow> uuid \<Rightarrow> string \<Rightarrow> bool \<Rightarrow> gotime \<Rightarrow> world \<Rightarrow> outcome" where
  "settledRow si p plant slug htmx clock =
     (if \<not> htmx then (\<lambda>w. (Redirect None, w))
      else loadPlant si p plant clock (\<lambda>_. Server_error) (\<lambda>detail w. (row_answer si p detail slug (Page ()), w)))"

text \<open>\<open>vs\<close> is the body, \<open>None\<close> when it does not parse; \<open>newID\<close> and \<open>tnow\<close> are the defaults the
  database fills in.\<close>

definition saveSchedule ::
  "site \<Rightarrow> principal \<Rightarrow> string \<Rightarrow> string \<Rightarrow> values option \<Rightarrow> bool \<Rightarrow> gotime \<Rightarrow> uuid \<Rightarrow> gotime \<Rightarrow> world \<Rightarrow> outcome" where
  "saveSchedule si p path slug body htmx clock newID tnow =
     plantAndCare si p path slug clock (\<lambda>detail care w.
       case body of
         None \<Rightarrow> (Bad_request, w)
       | Some vs \<Rightarrow>
       (case scheduleDraftFor (si_TrimSpace si) vs detail care of
          None \<Rightarrow> (Server_error, w)
        | Some None \<Rightarrow> (Bad_request, w)
        | Some (Some f) \<Rightarrow>
        (case upsert (gid p) (pl_ID (pd_plant detail)) f of
           Inl message \<Rightarrow> (row_answer si p detail (ct_Slug care) (Refused message), w)
         | Inr a \<Rightarrow>
             write_or (UpsertCareSchedule newID tnow a) (\<lambda>_. Server_error)
               (\<lambda>_. settledRow si p (pl_ID (pd_plant detail)) (ct_Slug care) htmx clock) w)))"

definition removeSchedule ::
  "site \<Rightarrow> principal \<Rightarrow> string \<Rightarrow> string \<Rightarrow> bool \<Rightarrow> gotime \<Rightarrow> world \<Rightarrow> outcome" where
  "removeSchedule si p path slug htmx clock =
     plantAndCare si p path slug clock (\<lambda>detail care.
       write_or (DeleteCareSchedule (gid p) (pl_ID (pd_plant detail)) (ct_ID care)) missing
         (\<lambda>_. settledRow si p (pl_ID (pd_plant detail)) (ct_Slug care) htmx clock))"

datatype schedule_request =
    Edit_schedule string string "values"
  | Save_schedule string string "values option" bool uuid gotime
  | Remove_schedule string string bool

fun handle_schedule :: "site \<Rightarrow> principal \<Rightarrow> gotime \<Rightarrow> schedule_request \<Rightarrow> world \<Rightarrow> outcome" where
  "handle_schedule si p clock (Edit_schedule path slug vs) = editor si p path slug vs clock"
| "handle_schedule si p clock (Save_schedule path slug body htmx newID tnow) =
     saveSchedule si p path slug body htmx clock newID tnow"
| "handle_schedule si p clock (Remove_schedule path slug htmx) = removeSchedule si p path slug htmx clock"

section \<open>What a stored schedule satisfies\<close>

text \<open>The schema's checks, and what only the editor makes sure of: months from 1 to 12, an interval
  up to \<open>maxInterval\<close>, an anchor at a UTC midnight, on the 1st where only the month counts.\<close>

definition stored_ok :: "care_schedule \<Rightarrow> bool" where
  "stored_ok s \<longleftrightarrow> schedule_wf s
     \<and> (case cs_IntervalCount s of None \<Rightarrow> True | Some c \<Rightarrow> c \<le> maxInterval)
     \<and> (case cs_AnchorDate s of None \<Rightarrow> True
        | Some a \<Rightarrow> (\<exists>n. a = midnight utc n) \<and> (cs_AnchorPrecision s = Some ''month'' \<longrightarrow> Day_of a = 1))"

definition schedules_ok :: "db \<Rightarrow> bool" where
  "schedules_ok d \<longleftrightarrow> (\<forall>s \<in> set (t_care_schedule d). stored_ok s)"

definition draft_ok :: "schedule_draft \<Rightarrow> bool" where
  "draft_ok f \<longleftrightarrow> sd_shape f \<in> {shapeCadence, shapeDate, shapeOnce} \<and> sd_unit f \<in> set units
     \<and> sd_from f \<in> {1..12} \<and> sd_to f \<in> {1..12} \<and> sd_month f \<in> {1..12} \<and> sd_day f \<in> {0..31}"

lemma Month_bounds: "1 \<le> Month t" "Month t \<le> 12"
  using civil_of_days_valid(1) [of "local_day (tloc t) (unix_sec t)" "Year t" "Month t" "Day_of t"]
  by (auto simp: Month_def Date_of_def Year_def Day_of_def valid_date_def)

lemma Day_of_bounds: "1 \<le> Day_of t" "Day_of t \<le> 31"
proof -
  have v: "valid_date (Year t) (Month t) (Day_of t)"
    by (rule civil_of_days_valid(1) [of "local_day (tloc t) (unix_sec t)"])
      (simp add: Month_def Date_of_def Year_def Day_of_def)
  then show "1 \<le> Day_of t" "Day_of t \<le> 31"
    using days_in_month_bounds [of "Month t" "Year t"] by (auto simp: valid_date_def)
qed

lemma newScheduleDraft_ok: "draft_ok (newScheduleDraft care now)"
  using Month_bounds [of now] by (auto simp: draft_ok_def newScheduleDraft_def units_def anyDay_def)

text \<open>The draft of a row the schema allows, field by field.\<close>

lemma scheduleDraftOf_fields:
  assumes "schedule_wf s"
  obtains f where "scheduleDraftOf care s now = Some f" "sd_care f = care" "sd_hasInterval f" "sd_hasAnchor f"
    "sd_shape f = (if cs_AnchorDate s = None then shapeCadence
       else if cs_IntervalCount s = None then shapeOnce else shapeDate)"
    "sd_every f = (case cs_IntervalCount s of None \<Rightarrow> ''1'' | Some c \<Rightarrow> Itoa c)"
    "sd_unit f = (case cs_IntervalUnit s of None \<Rightarrow> ''week'' | Some u \<Rightarrow> u)"
    "sd_seasonal f = (cs_SeasonStartMonth s \<noteq> None)"
    "sd_from f = (case cs_SeasonStartMonth s of None \<Rightarrow> 3 | Some m \<Rightarrow> m)"
    "sd_to f = (case cs_SeasonEndMonth s of None \<Rightarrow> 9 | Some m \<Rightarrow> m)"
    "sd_day f = (case cs_AnchorDate s of None \<Rightarrow> anyDay
       | Some a \<Rightarrow> if cs_AnchorPrecision s = Some ''month'' then anyDay else Day_of a)"
    "sd_month f = (case cs_AnchorDate s of None \<Rightarrow> Month now | Some a \<Rightarrow> Month a)"
    "sd_year f = (case cs_AnchorDate s of None \<Rightarrow> Year now + 1 | Some a \<Rightarrow> Year a)"
proof -
  have both: "(cs_IntervalCount s = None) = (cs_IntervalUnit s = None)"
    "(cs_AnchorDate s = None) = (cs_AnchorPrecision s = None)"
    "(cs_SeasonStartMonth s = None) = (cs_SeasonEndMonth s = None)"
    using assms by (simp_all add: schedule_wf_iff)
  let ?f = "\<lparr>sd_care = care, sd_open = False, sd_shape = (if cs_AnchorDate s = None then shapeCadence
       else if cs_IntervalCount s = None then shapeOnce else shapeDate),
     sd_every = (case cs_IntervalCount s of None \<Rightarrow> ''1'' | Some c \<Rightarrow> Itoa c),
     sd_unit = (case cs_IntervalUnit s of None \<Rightarrow> ''week'' | Some u \<Rightarrow> u), sd_seasonal = (cs_SeasonStartMonth s \<noteq> None),
     sd_from = (case cs_SeasonStartMonth s of None \<Rightarrow> 3 | Some m \<Rightarrow> m),
     sd_to = (case cs_SeasonEndMonth s of None \<Rightarrow> 9 | Some m \<Rightarrow> m),
     sd_day = (case cs_AnchorDate s of None \<Rightarrow> anyDay
       | Some a \<Rightarrow> if cs_AnchorPrecision s = Some ''month'' then anyDay else Day_of a),
     sd_month = (case cs_AnchorDate s of None \<Rightarrow> Month now | Some a \<Rightarrow> Month a),
     sd_year = (case cs_AnchorDate s of None \<Rightarrow> Year now + 1 | Some a \<Rightarrow> Year a), sd_hasInterval = True, sd_hasAnchor = True\<rparr>"
  have "scheduleDraftOf care s now = Some ?f"
    unfolding scheduleDraftOf_def newScheduleDraft_def Let_def using both
    by (cases "cs_IntervalCount s"; cases "cs_IntervalUnit s"; (simp only: option.distinct simp_thms)?;
        cases "cs_SeasonStartMonth s"; cases "cs_SeasonEndMonth s"; (simp only: option.distinct simp_thms)?;
        cases "cs_AnchorDate s"; cases "cs_AnchorPrecision s"; simp)
  then show thesis by (rule that) (simp_all only: schedule_draft.select_convs)
qed

lemma scheduleDraftOf_ok:
  assumes "schedule_wf s" "scheduleDraftOf care s now = Some f"
  shows "draft_ok f"
proof -
  obtain g where g: "scheduleDraftOf care s now = Some g" "draft_ok g"
  proof (rule scheduleDraftOf_fields [OF assms(1), of care now], goal_cases)
    case (1 f)
    have "sd_shape f \<in> {shapeCadence, shapeDate, shapeOnce}" by (simp add: 1(6))
    moreover have "sd_unit f \<in> set units" "sd_from f \<in> {1..12}" "sd_to f \<in> {1..12}"
      using assms(1) by (auto simp: 1(8,10,11) units_def schedule_wf_iff split: option.splits)
    moreover have "sd_month f \<in> {1..12}" "sd_day f \<in> {0..31}"
      using Month_bounds Day_of_bounds by (auto simp: 1(12,13) anyDay_def intro: order_trans [of 0 1] split: option.splits)
    ultimately show ?case using 1(1) [OF 1(2)] by (simp add: draft_ok_def)
  qed
  with assms(2) show ?thesis by simp
qed

lemma numberIn_Some: "numberIn v ns = Some n \<Longrightarrow> n \<in> set ns"
  by (auto simp: numberIn_def split: option.splits if_splits)

lemma monthIn_Some: "monthIn v = Some m \<Longrightarrow> m \<in> {1..12}"
  using numberIn_Some by (fastforce simp: monthIn_def months_def)

lemma fill_ok:
  assumes "draft_ok f" "fill trim vs now f = Some g"
  shows "draft_ok g"
proof -
  obtain f1 f2 f3 where f: "fill_shape vs f = Some f1" "fill_interval trim vs f1 = Some f2"
    "fill_season vs f2 = Some f3" "fill_anchor vs (anchorYears now (sd_year f)) f3 = Some g"
    using assms(2) by (auto simp: fill_def bind_eq_Some_iff)
  have "draft_ok f1" using f(1) assms(1) by (auto simp: fill_shape_def draft_ok_def shapes_def Let_def split: if_splits)
  then have "draft_ok f2" using f(2) by (auto simp: fill_interval_def draft_ok_def split: if_splits)
  then have "draft_ok f3" using f(3) by (auto simp: fill_season_def draft_ok_def Let_def dest!: monthIn_Some
      split: if_splits option.splits)
  then show ?thesis using f(4) by (auto simp: fill_anchor_def draft_ok_def days_def anyDay_def dest!: monthIn_Some numberIn_Some
      split: if_splits option.splits)
qed

section \<open>What the editor stores\<close>

lemma stored_ok_fields:
  assumes "cs_IntervalCount r = cs_IntervalCount s" "cs_IntervalUnit r = cs_IntervalUnit s"
    "cs_AnchorDate r = cs_AnchorDate s" "cs_AnchorPrecision r = cs_AnchorPrecision s"
    "cs_SeasonStartMonth r = cs_SeasonStartMonth s" "cs_SeasonEndMonth r = cs_SeasonEndMonth s"
  shows "stored_ok r = stored_ok s"
  unfolding stored_ok_def schedule_wf_iff assms ..

lemma params_ids:
  "params garden f = Inr a \<Longrightarrow> sp_GardenID a = garden \<and> sp_CareTypeID a = ct_ID (sd_care f)"
  by (auto simp: params_def Let_def split: if_splits option.splits)

lemma params_shape:
  assumes "params garden f = Inr a" "draft_ok f"
  shows "sd_shape f = shapeCadence \<and> sp_AnchorDate a = None \<and> sp_AnchorPrecision a = None
      \<and> (if sd_seasonal f then sp_SeasonStartMonth a = Some (sd_from f) \<and> sp_SeasonEndMonth a = Some (sd_to f)
         else sp_SeasonStartMonth a = None \<and> sp_SeasonEndMonth a = None)
    \<or> sd_shape f \<noteq> shapeCadence \<and> sp_SeasonStartMonth a = None \<and> sp_SeasonEndMonth a = None
      \<and> (\<exists>t. sp_AnchorDate a = Some t \<and> (\<exists>n. t = midnight utc n)
          \<and> (sp_AnchorPrecision a = Some ''day'' \<or> sp_AnchorPrecision a = Some ''month'' \<and> Day_of t = 1))"
  using assms
  by (auto simp: params_def Let_def draft_ok_def smallint_def mk_Date_midnight split: if_splits option.splits)

lemma params_interval:
  assumes "params garden f = Inr a" "draft_ok f"
  shows "sd_shape f = shapeOnce \<and> sp_IntervalCount a = None \<and> sp_IntervalUnit a = None
    \<or> sd_shape f \<noteq> shapeOnce \<and> sp_IntervalUnit a = Some (sd_unit f)
      \<and> (\<exists>n. sp_IntervalCount a = Some n \<and> 1 \<le> n \<and> n \<le> maxInterval)"
  using assms by (auto simp: params_def Let_def draft_ok_def split: if_splits option.splits)

lemma params_stored:
  assumes "params garden f = Inr a" "draft_ok f"
  shows "stored_ok (schedule_of i t a)"
proof -
  have interval: "sp_IntervalCount a = None \<and> sp_IntervalUnit a = None \<and> sp_AnchorDate a \<noteq> None
      \<or> (\<exists>n. sp_IntervalCount a = Some n \<and> 1 \<le> n \<and> n \<le> maxInterval) \<and> sp_IntervalUnit a = Some (sd_unit f)"
    using params_shape [OF assms] params_interval [OF assms] by (auto simp: shapeCadence_def shapeOnce_def)
  note draft = assms(2) [unfolded draft_ok_def units_def]
  from params_shape [OF assms] consider
      (cadence) "sp_AnchorDate a = None" "sp_AnchorPrecision a = None"
        "(if sd_seasonal f then sp_SeasonStartMonth a = Some (sd_from f) \<and> sp_SeasonEndMonth a = Some (sd_to f)
          else sp_SeasonStartMonth a = None \<and> sp_SeasonEndMonth a = None)"
    | (dated) u precision where "sp_SeasonStartMonth a = None" "sp_SeasonEndMonth a = None" "sp_AnchorDate a = Some u"
        "\<exists>n. u = midnight utc n" "sp_AnchorPrecision a = Some precision" "precision \<in> {''day'', ''month''}"
        "precision = ''month'' \<longrightarrow> Day_of u = 1"
    by auto
  then show ?thesis
  proof cases
    case cadence
    then obtain n where "sp_IntervalCount a = Some n" "1 \<le> n" "n \<le> maxInterval" "sp_IntervalUnit a = Some (sd_unit f)"
      using interval by auto
    with cadence draft show ?thesis
      by (cases "sd_seasonal f") (simp_all add: stored_ok_def schedule_wf_iff schedule_of_def)
  next
    case (dated u precision)
    from interval show ?thesis
    proof (elim disjE conjE exE)
      assume "sp_IntervalCount a = None" "sp_IntervalUnit a = None"
      with dated show ?thesis by (simp add: stored_ok_def schedule_wf_iff schedule_of_def)
    next
      fix n
      assume "sp_IntervalCount a = Some n" "1 \<le> n" "n \<le> maxInterval" "sp_IntervalUnit a = Some (sd_unit f)"
      with dated draft show ?thesis by (simp add: stored_ok_def schedule_wf_iff schedule_of_def)
    qed
  qed
qed

lemma upsert_stored:
  assumes "upsert garden plant f = Inr a" "draft_ok f"
  shows "stored_ok (schedule_of i t a)" "sp_GardenID a = garden" "sp_PlantID a = plant"
proof -
  obtain b where b: "params garden f = Inr b" "a = b\<lparr>sp_PlantID := plant\<rparr>"
    using assms(1) by (auto simp: upsert_def split: sum.splits)
  have "stored_ok (schedule_of i t a) = stored_ok (schedule_of i t b)"
    by (rule stored_ok_fields) (simp_all add: b(2) schedule_of_def)
  then show "stored_ok (schedule_of i t a)" using params_stored [OF b(1) assms(2)] by simp
  show "sp_GardenID a = garden" "sp_PlantID a = plant" using params_ids [OF b(1)] b(2) by simp_all
qed

lemma UpsertCareSchedule_ok:
  assumes "schedules_ok d" "\<And>i t. stored_ok (schedule_of i t a)" "UpsertCareSchedule i t a d = Inr (s, d')"
  shows "schedules_ok d'"
proof -
  have upd: "stored_ok ((schedule_of i t a)\<lparr>cs_ID := x, cs_GardenID := y\<rparr>)" for x y
    using assms(2) [of i t] stored_ok_fields [of "(schedule_of i t a)\<lparr>cs_ID := x, cs_GardenID := y\<rparr>" "schedule_of i t a"]
    by simp
  show ?thesis
    using assms(1,3) upd assms(2) [of i t]
    by (auto simp: UpsertCareSchedule_def schedules_ok_def Let_def update_returning_Inr update_where_def
        split: if_splits sum.splits)
qed

lemma DeleteCareSchedule_ok:
  "schedules_ok d \<Longrightarrow> DeleteCareSchedule g p c d = Inr (i, d') \<Longrightarrow> schedules_ok d'"
  by (auto simp: DeleteCareSchedule_def schedules_ok_def delete_returning_Inr delete_where_def split: sum.splits)

lemma scheduleDraftFor_ok:
  assumes "scheduleDraftFor trim vs detail care = Some (Some f)"
    "\<forall>l \<in> set (pd_lines detail). stored_ok (ln_Schedule l)"
  shows "draft_ok f"
proof -
  define base where "base = (case scheduledLine (pd_lines detail) (ct_Slug care) of
      None \<Rightarrow> Some (newScheduleDraft care (pd_now detail))
    | Some l \<Rightarrow> scheduleDraftOf care (ln_Schedule l) (pd_now detail))"
  obtain g where g: "base = Some g"
    "(if vs = [] then Some (g\<lparr>sd_open := True\<rparr>) else fill trim vs (pd_now detail) (g\<lparr>sd_open := True\<rparr>)) = Some f"
    using assms(1) by (auto simp: scheduleDraftFor_def base_def Let_def split: option.splits)
  have "draft_ok g"
  proof (cases "scheduledLine (pd_lines detail) (ct_Slug care)")
    case None
    with g(1) newScheduleDraft_ok show ?thesis by (auto simp: base_def)
  next
    case (Some l)
    then have "l \<in> set (pd_lines detail)"
      by (auto simp: scheduledLine_def lineFor_def split: option.splits if_splits dest: find_in)
    then have "schedule_wf (ln_Schedule l)" using assms(2) by (simp add: stored_ok_def)
    with g(1) Some scheduleDraftOf_ok show ?thesis by (simp add: base_def)
  qed
  then have "draft_ok (g\<lparr>sd_open := True\<rparr>)" by (simp add: draft_ok_def)
  with g(2) fill_ok show ?thesis by (auto split: if_splits)
qed

definition schedule_change :: "db \<Rightarrow> db \<Rightarrow> bool" where
  "schedule_change d d' \<longleftrightarrow> d'\<lparr>t_care_schedule := t_care_schedule d\<rparr> = d \<and> (schedules_ok d \<longrightarrow> schedules_ok d')"

lemma plantAndCare_changes:
  assumes "\<And>detail care. (\<forall>l \<in> set (pd_lines detail). ln_Schedule l \<in> set (t_care_schedule d)) \<Longrightarrow>
    changes R d (k detail care)"
  shows "changes R d (plantAndCare si p path slug clock k)"
proof (cases "si_parse_uuid si path")
  case (Some plant)
  show ?thesis
    unfolding plantAndCare_def Some option.case
  proof (rule loadPlant_changes, intro changes_branches changes_answer, goal_cases)
    case (1 pl schedules latest ls cares care)
    show ?case by (rule assms) (use 1 lines_schedules in \<open>auto simp: plantLines_def\<close>)
  qed
qed (simp add: plantAndCare_def changes_answer)

lemma settledRow_quiet [request_rules]: "quiet (settledRow si p plant slug htmx clock)"
  unfolding settledRow_def by (intro request_rules)

lemma saveSchedule_changes:
  "changes schedule_change d (saveSchedule si p path slug body htmx clock newID tnow)"
  unfolding saveSchedule_def
proof (rule plantAndCare_changes, intro changes_branches changes_answer changes_write request_rules, goal_cases)
  case (1 detail care vs f0 f a x d')
  have "schedules_ok d'" if "schedules_ok d"
  proof (rule UpsertCareSchedule_ok [OF that _ 1(6)])
    have "draft_ok f"
      by (rule scheduleDraftFor_ok) (use 1 that in \<open>auto simp: schedules_ok_def\<close>)
    then show "stored_ok (schedule_of i t a)" for i t using upsert_stored(1) 1(5) by blast
  qed
  moreover have "d'\<lparr>t_care_schedule := t_care_schedule d\<rparr> = d"
    using 1(6) by (auto simp: UpsertCareSchedule_def Let_def split: if_splits sum.splits)
  ultimately show ?case by (simp add: schedule_change_def)
qed

lemma removeSchedule_changes: "changes schedule_change d (removeSchedule si p path slug htmx clock)"
  unfolding removeSchedule_def
proof (rule plantAndCare_changes, intro changes_write request_rules, goal_cases)
  case (1 detail care x d')
  then show ?case
    using DeleteCareSchedule_ok [OF _ 1(2)]
    by (auto simp: schedule_change_def DeleteCareSchedule_def split: sum.splits)
qed

lemma handle_schedule_changes: "changes schedule_change d (handle_schedule si p clock req)"
proof (cases req)
  case (Edit_schedule path slug vs)
  show ?thesis
    unfolding Edit_schedule handle_schedule.simps editor_def
    by (rule plantAndCare_changes) (intro changes_branches changes_answer)
qed (simp_all add: saveSchedule_changes removeSchedule_changes)

section \<open>Editing a schedule and saving it unchanged\<close>

lemma mk_Date_parts:
  "mk_Date (Year (midnight utc n)) (Month (midnight utc n)) (Day_of (midnight utc n)) 0 0 0 0 utc = midnight utc n"
  using civil_of_days_valid(2) [of n "Year (midnight utc n)" "Month (midnight utc n)" "Day_of (midnight utc n)"]
  by (simp add: mk_Date_midnight Year_def Month_def Day_of_def Date_of_midnight utc_zone.keeps_dates_axioms)

lemma params_dated:
  assumes "sd_shape f \<noteq> shapeCadence" "sd_hasInterval f" "sd_hasAnchor f" "a = midnight utc n"
    "sd_day f = (if precision = ''month'' then anyDay else Day_of a)" "sd_month f = Month a" "sd_year f = Year a"
    "precision \<in> {''day'', ''month''}" "precision = ''month'' \<longrightarrow> Day_of a = 1"
    "sd_shape f \<noteq> shapeOnce \<longrightarrow> sd_every f = Itoa c \<and> 0 < c \<and> c \<le> maxInterval"
  shows "params garden f = Inr \<lparr>sp_GardenID = garden, sp_PlantID = nil_uuid, sp_CareTypeID = ct_ID (sd_care f),
    sp_IntervalCount = (if sd_shape f = shapeOnce then None else Some c),
    sp_IntervalUnit = (if sd_shape f = shapeOnce then None else Some (sd_unit f)),
    sp_AnchorDate = Some a, sp_AnchorPrecision = Some precision, sp_SeasonStartMonth = None, sp_SeasonEndMonth = None\<rparr>"
proof -
  have "Day_of a \<noteq> anyDay" using Day_of_bounds [of a] by (simp add: anyDay_def)
  then have d: "(if sd_day f = anyDay then (1, ''month'') else (sd_day f, ''day'')) = (Day_of a, precision)"
    using assms(5,8,9) by auto
  have anchor: "mk_Date (sd_year f) (sd_month f) (Day_of a) 0 0 0 0 utc = a"
    using mk_Date_parts [of n] by (simp only: assms(4,6,7))
  have every: "ParseInt 32 (Itoa c) = Some c" if "0 < c" "c \<le> maxInterval"
    using that by (intro ParseInt_Itoa) (simp_all add: maxInterval_def)
  show ?thesis
    using assms(1,2,3,10) every
    by (cases "sd_shape f = shapeOnce") (simp_all add: params_def Let_def d anchor)
qed

lemma params_cadence:
  assumes "sd_shape f = shapeCadence" "sd_hasInterval f" "sd_every f = Itoa c" "0 < c" "c \<le> maxInterval"
    "sd_seasonal f \<longrightarrow> sd_from f \<in> {1..12} \<and> sd_to f \<in> {1..12}"
  shows "params garden f = Inr \<lparr>sp_GardenID = garden, sp_PlantID = nil_uuid, sp_CareTypeID = ct_ID (sd_care f),
    sp_IntervalCount = Some c, sp_IntervalUnit = Some (sd_unit f), sp_AnchorDate = None, sp_AnchorPrecision = None,
    sp_SeasonStartMonth = (if sd_seasonal f then Some (sd_from f) else None),
    sp_SeasonEndMonth = (if sd_seasonal f then Some (sd_to f) else None)\<rparr>"
proof -
  have "ParseInt 32 (Itoa c) = Some c"
    using assms by (intro ParseInt_Itoa) (simp_all add: maxInterval_def)
  with assms show ?thesis by (auto simp: params_def Let_def smallint_def shapeCadence_def shapeOnce_def)
qed

definition params_of :: "care_schedule \<Rightarrow> schedule_params" where
  "params_of s =
     \<lparr>sp_GardenID = cs_GardenID s, sp_PlantID = cs_PlantID s, sp_CareTypeID = cs_CareTypeID s,
      sp_IntervalCount = cs_IntervalCount s, sp_IntervalUnit = cs_IntervalUnit s,
      sp_AnchorDate = cs_AnchorDate s, sp_AnchorPrecision = cs_AnchorPrecision s,
      sp_SeasonStartMonth = cs_SeasonStartMonth s, sp_SeasonEndMonth = cs_SeasonEndMonth s\<rparr>"

lemma stored_params:
  assumes "stored_ok s" "cs_CareTypeID s = ct_ID care" "scheduleDraftOf care s now = Some f"
  shows "upsert (cs_GardenID s) (cs_PlantID s) f = Inr (params_of s)"
proof -
  have checks: "schedule_wf s" using assms(1) by (simp add: stored_ok_def)
  have names: "shapeCadence \<noteq> shapeOnce" "shapeDate \<noteq> shapeOnce" "shapeDate \<noteq> shapeCadence"
    by (simp_all add: shapeCadence_def shapeOnce_def shapeDate_def)
  show ?thesis
  proof (rule scheduleDraftOf_fields [OF checks, of care now], goal_cases)
    case (1 g)
    with assms(3) have g: "g = f" by simp
    note f = 1 [unfolded g]
    show ?case
    proof (cases "cs_AnchorDate s")
      case None
      then obtain c where c: "cs_IntervalCount s = Some c" "0 < c" "c \<le> maxInterval"
        using assms(1) by (auto simp: stored_ok_def schedule_wf_iff)
      obtain u where u: "cs_IntervalUnit s = Some u" using checks c by (auto simp: schedule_wf_iff)
      have "sd_seasonal f \<longrightarrow> sd_from f \<in> {1..12} \<and> sd_to f \<in> {1..12}"
        using checks f by (auto simp: schedule_wf_iff)
      from params_cadence [OF _ f(3) _ c(2,3) this, of "cs_GardenID s"] f c u None checks assms(2)
      show ?thesis by (auto simp: upsert_def params_of_def schedule_wf_iff)
    next
      case (Some a)
      obtain precision n where p: "cs_AnchorPrecision s = Some precision" "precision \<in> {''day'', ''month''}"
        "a = midnight utc n" "precision = ''month'' \<longrightarrow> Day_of a = 1" "cs_SeasonStartMonth s = None" "cs_SeasonEndMonth s = None"
        using assms(1) Some by (auto simp: stored_ok_def schedule_wf_iff)
      show ?thesis
      proof (cases "cs_IntervalCount s")
        case None
        from params_dated [OF _ f(3,4) p(3) _ _ _ p(2,4), of _ "cs_GardenID s"] f p(1,5,6) Some None names checks assms(2)
        show ?thesis by (simp add: upsert_def params_of_def schedule_wf_iff)
      next
        case c: (Some c)
        then have "0 < c" "c \<le> maxInterval" using assms(1) by (auto simp: stored_ok_def schedule_wf_iff)
        moreover obtain u where "cs_IntervalUnit s = Some u" using checks c by (auto simp: schedule_wf_iff)
        ultimately show ?thesis
          using params_dated [OF _ f(3,4) p(3) _ _ _ p(2,4), of c "cs_GardenID s"] f p(1,5,6) Some c names assms(2)
          by (simp add: upsert_def params_of_def)
      qed
    qed
  qed
qed

section \<open>Properties\<close>

text \<open>
  (C5) Whatever a request to the schedule editor sends, and whatever database call fails, only
  schedules change, and if every stored schedule satisfied the schema's checks and the editor's
  own limits before, every one does after; so \<open>Next\<close> returns for what the editor stored, in every
  location that keeps dates or has bounded offsets.
\<close>

theorem schedule_requests_wellformed:
  assumes "schedules_ok (tables w)" "handle_schedule si p clock req w = (ans, w')"
  shows "schedules_ok (tables w')
    \<and> (tables w')\<lparr>t_care_schedule := t_care_schedule (tables w)\<rparr> = tables w
    \<and> (\<forall>s lst now. s \<in> set (t_care_schedule (tables w')) \<and> (keeps_dates (tloc now) \<or> finite_offsets (tloc now))
         \<longrightarrow> Next s lst now \<noteq> None)"
proof -
  have ok: "schedules_ok (tables w') \<and> (tables w')\<lparr>t_care_schedule := t_care_schedule (tables w)\<rparr> = tables w"
    using changesD [OF handle_schedule_changes assms(2)] assms(1) by (auto simp: schedule_change_def)
  have "Next s lst now \<noteq> None"
    if "s \<in> set (t_care_schedule (tables w'))" "keeps_dates (tloc now) \<or> finite_offsets (tloc now)" for s lst now
  proof -
    have "schedule_wf s" using ok that(1) by (auto simp: schedules_ok_def stored_ok_def)
    then show ?thesis using that(2) Next_defined [of now s lst] Next_returns [of now s lst] by (auto simp: schedule_wf_def)
  qed
  with ok show ?thesis by blast
qed

definition ex_unscheduled :: db where
  "ex_unscheduled = ex_tables\<lparr>t_care_schedule := []\<rparr>"

definition ex_weekly :: care_schedule where
  "ex_weekly = zero_CareSchedule\<lparr>cs_ID := ''s9'', cs_GardenID := ''g1'', cs_PlantID := ''p1'', cs_CareTypeID := ''c1'',
     cs_IntervalCount := Some 1, cs_IntervalUnit := Some ''week'', cs_SetAt := zero_time\<rparr>"

lemma ex_load:
  "loadPlant ex_site ex_sitter ''p1'' zero_time failed k \<lparr>tables = ex_unscheduled, faults = []\<rparr>
     = k \<lparr>pd_plant = zero_Plant\<lparr>pl_ID := ''p1'', pl_GardenID := ''g1'', pl_Nickname := Some ''Doris''\<rparr>, pd_lines = [],
          pd_cares = t_care_type ex_tables, pd_now = In_loc zero_time utc\<rparr> \<lparr>tables = ex_unscheduled, faults = []\<rparr>"
  by (simp add: loadPlant_def Let_def read_or_def reading_def next_fault_def GetPlant_def one_row_def ex_unscheduled_def
      ex_tables_def ex_sitter_def ex_site_def locationFor_def zero_Plant_def ListCareSchedules_def ListLatestCareEvents_def
      ListCareTypes_def ListPlantCareEvents_def ListPlantPhotos_def CountPlantPhotos_def empty_db_def Resolve_def
      plantLines_def SortStableFunc_def event_rows_def)

theorem schedule_requests_wellformed_witness:
  "\<exists>w'. handle_schedule ex_site ex_sitter zero_time (Save_schedule ''p1'' ''water'' (Some []) False ''s9'' zero_time)
        \<lparr>tables = ex_unscheduled, faults = []\<rparr> = (Redirect None, w')
     \<and> t_care_schedule (tables w') = [ex_weekly] \<and> schedules_ok (tables w')"
proof -
  have draft: "scheduleDraftFor trim [] d care = Some (Some ((newScheduleDraft care (pd_now d))\<lparr>sd_open := True\<rparr>))"
    if "pd_lines d = []" for trim d care
    by (simp add: scheduleDraftFor_def scheduledLine_def lineFor_def that Let_def)
  have every: "ParseInt 32 ''1'' = Some 1" by (simp add: ParseInt_def signed_def digit_value_def)
  have ex_parse: "si_parse_uuid ex_site ''p1'' = Some ''p1''" by (simp add: ex_site_def)
  define care where "care = \<lparr>ct_ID = ''c1'', ct_GardenID = ''g1'', ct_Name = ''Water'', ct_Slug = ''water'',
        ct_Icon = ''water'', ct_CreatedAt = zero_time, ct_ArchivedAt = None\<rparr>"
  have care: "t_care_type ex_tables = [care]" "ct_Slug care = ''water''" by (simp_all add: ex_tables_def care_def)
  define a where "a = \<lparr>sp_GardenID = ''g1'', sp_PlantID = ''p1'', sp_CareTypeID = ''c1'', sp_IntervalCount = Some 1,
     sp_IntervalUnit = Some ''week'', sp_AnchorDate = None, sp_AnchorPrecision = None, sp_SeasonStartMonth = None,
     sp_SeasonEndMonth = None\<rparr>"
  have run_params: "upsert (gid ex_sitter) ''p1'' ((newScheduleDraft care now)\<lparr>sd_open := True\<rparr>) = Inr a" for now
    by (simp add: upsert_def params_def newScheduleDraft_def Let_def every shapeCadence_def shapeOnce_def maxInterval_def
        ex_sitter_def care_def a_def)
  have stored: "UpsertCareSchedule ''s9'' zero_time a ex_unscheduled
      = Inr (ex_weekly, ex_unscheduled\<lparr>t_care_schedule := [ex_weekly]\<rparr>)"
    by (simp add: UpsertCareSchedule_def a_def schedule_of_def care_schedule_checks_def update_returning_def one_row_def
        ex_unscheduled_def ex_tables_def ex_weekly_def zero_CareSchedule_def schedule_keys_def has_plant_def
        has_care_type_def empty_db_def zero_Plant_def Let_def)
  have run: "handle_schedule ex_site ex_sitter zero_time (Save_schedule ''p1'' ''water'' (Some []) False ''s9'' zero_time)
        \<lparr>tables = ex_unscheduled, faults = []\<rparr>
      = (Redirect None, \<lparr>tables = ex_unscheduled\<lparr>t_care_schedule := [ex_weekly]\<rparr>, faults = []\<rparr>)"
    unfolding handle_schedule.simps saveSchedule_def plantAndCare_def
    by (simp add: ex_parse ex_load zero_Plant_def careFor_def care draft run_params write_or_def writing_def next_fault_def
        stored settledRow_def)
  have "schedules_ok ex_unscheduled" by (simp add: schedules_ok_def ex_unscheduled_def)
  from schedule_requests_wellformed [OF _ run] this run show ?thesis by auto
qed

text \<open>
  Opening the editor on a stored schedule and saving it unchanged writes the same
  interval, anchor and season back: the draft built from a row converts to that row's columns.
\<close>

theorem schedule_editor_roundtrip:
  assumes "stored_ok s" "cs_CareTypeID s = ct_ID care"
  shows "\<exists>f. scheduleDraftOf care s now = Some f \<and> upsert (cs_GardenID s) (cs_PlantID s) f = Inr (params_of s)"
proof -
  have "schedule_wf s" using assms(1) by (simp add: stored_ok_def)
  then obtain f where "scheduleDraftOf care s now = Some f" by (rule scheduleDraftOf_fields)
  with stored_params [OF assms] show ?thesis by blast
qed

definition ex_repot :: care_schedule where
  "ex_repot = ex_weekly\<lparr>cs_IntervalCount := Some 2, cs_IntervalUnit := Some ''year'',
     cs_AnchorDate := Some (midnight utc 20513), cs_AnchorPrecision := Some ''month''\<rparr>"

theorem schedule_editor_roundtrip_witness:
  "Date_of (midnight utc 20513) = (2026, 3, 1)
    \<and> (\<exists>f. scheduleDraftOf (hd (t_care_type ex_tables)) ex_repot zero_time = Some f
        \<and> upsert ''g1'' ''p1'' f = Inr (params_of ex_repot))"
proof
  have "civil_of_days (days_of_date 2026 3 1) = (2026, 3, 1)"
    by (rule civil_of_days_of_date) (simp add: valid_date_def days_in_month_def go_simps)
  then show date: "Date_of (midnight utc 20513) = (2026, 3, 1)"
    by (simp add: Date_of_midnight utc_zone.keeps_dates_axioms days_of_date_def year_start_def go_simps is_leap_def Let_def)
  have row: "stored_ok ex_repot" "cs_CareTypeID ex_repot = ct_ID (hd (t_care_type ex_tables))"
      "cs_GardenID ex_repot = ''g1''" "cs_PlantID ex_repot = ''p1''"
    using date by (auto simp: stored_ok_def schedule_wf_iff ex_repot_def ex_weekly_def zero_CareSchedule_def
        maxInterval_def Day_of_def ex_tables_def)
  show "\<exists>f. scheduleDraftOf (hd (t_care_type ex_tables)) ex_repot zero_time = Some f
      \<and> upsert ''g1'' ''p1'' f = Inr (params_of ex_repot)"
    using schedule_editor_roundtrip [OF row(1,2), of zero_time] by (simp only: row(3,4))
qed

end
