(* ===== verification/Http_Limit.thy ===== *)
theory Http_Limit
  imports Complex_Main Go_Time
begin

text \<open>
  The rate limiter of \<open>src/internal/http/ratelimit.go\<close>: one token bucket per key, and a sweep that
  deletes idle buckets.  A bucket is \<open>rate.Limiter\<close> of package \<open>golang.org/x/time/rate\<close>, which is
  not in the repository: \<open>buckets\<close> is what the code calls of it, a parameter, and \<open>bucket_laws\<close>
  states what its documentation promises.  A \<open>rate.Limit\<close> is a rational number of tokens a second;
  the division of \<open>NewLimiter\<close> is exact here, and so it is in 64-bit floats for every constant the
  program gives it (6, 8, 10, 30, 120 and 300 a minute all refill in 60 seconds).  The mutex makes
  \<open>Allow\<close> one step.
\<close>

record 'b buckets =
  bk_NewLimiter :: "rat \<Rightarrow> int \<Rightarrow> 'b"
  bk_ReserveN :: "'b \<Rightarrow> gotime \<Rightarrow> int \<times> 'b"
  bk_CancelAt :: "'b \<Rightarrow> gotime \<Rightarrow> 'b"

record 'b bucket =
  bu_limiter :: 'b
  bu_lastSeen :: gotime

record 'b limiter =
  li_limit :: rat
  li_burst :: int
  li_refill :: int
  li_buckets :: "string \<rightharpoonup> 'b bucket"
  li_lastSweep :: gotime

text \<open>A conversion to \<open>time.Duration\<close> truncates; the numbers here are positive.  \<open>None\<close> is the panic.\<close>

definition NewLimiter :: "rat \<Rightarrow> int \<Rightarrow> 'b limiter option" where
  "NewLimiter limit burst =
     (if limit \<le> 0 \<or> burst < 1 then None
      else Some \<lparr>li_limit = limit, li_burst = burst, li_refill = \<lfloor>of_int burst / limit * of_int sec_ns\<rfloor>,
        li_buckets = Map.empty, li_lastSweep = zero_time\<rparr>)"

definition sweep :: "gotime \<Rightarrow> 'b limiter \<Rightarrow> 'b limiter" where
  "sweep now l = l\<lparr>li_lastSweep := now,
     li_buckets := (\<lambda>key. case li_buckets l key of
        None \<Rightarrow> None
      | Some b \<Rightarrow> if Sub now (bu_lastSeen b) \<ge> li_refill l then None else Some b)\<rparr>"

text \<open>One attempt on one key: \<open>0\<close> when it is allowed, else the time to wait.\<close>

definition spend :: "'b buckets \<Rightarrow> string \<Rightarrow> gotime \<Rightarrow> 'b limiter \<Rightarrow> (bool \<times> int) \<times> 'b limiter" where
  "spend bk key now l =
     (let b = (case li_buckets l key of None \<Rightarrow> \<lparr>bu_limiter = bk_NewLimiter bk (li_limit l) (li_burst l), bu_lastSeen = now\<rparr> | Some b \<Rightarrow> b);
          (delay, lim) = bk_ReserveN bk (bu_limiter b) now;
          keep = (\<lambda>lim. l\<lparr>li_buckets := (li_buckets l)(key \<mapsto> \<lparr>bu_limiter = lim, bu_lastSeen = now\<rparr>)\<rparr>) in
      if 0 < delay then ((False, delay), keep (bk_CancelAt bk lim now)) else ((True, 0), keep lim))"

definition Allow :: "'b buckets \<Rightarrow> string \<Rightarrow> gotime \<Rightarrow> 'b limiter \<Rightarrow> (bool \<times> int) \<times> 'b limiter" where
  "Allow bk key now l = spend bk key now (if Sub now (li_lastSweep l) \<ge> li_refill l then sweep now l else l)"

text \<open>\<open>Retry-After\<close>: whole seconds, at least one.\<close>

definition retry_after :: "int \<Rightarrow> int" where
  "retry_after delay = max (- (- delay div sec_ns)) 1"

section \<open>Deleting idle buckets changes no result\<close>

text \<open>What the limiter relies on: after an attempt at time \<open>t\<close>, allowed or cancelled, a bucket owes
  at most its burst; so once it has stood for as long as \<open>limit\<close> tokens a second take to fill \<open>burst\<close>,
  it is full and answers as a new one does.\<close>

definition bucket_laws :: "'b buckets \<Rightarrow> rat \<Rightarrow> int \<Rightarrow> ('b \<Rightarrow> gotime \<Rightarrow> bool) \<Rightarrow> bool" where
  "bucket_laws bk limit burst settled \<longleftrightarrow>
     (\<forall>b t delay b'. (b = bk_NewLimiter bk limit burst \<or> (\<exists>t0. settled b t0 \<and> nsec t0 \<le> nsec t))
          \<and> bk_ReserveN bk b t = (delay, b') \<longrightarrow>
        settled (if 0 < delay then bk_CancelAt bk b' t else b') t)
     \<and> (\<forall>b t now. settled b t \<and> of_int burst * of_int sec_ns \<le> of_int (nsec now - nsec t) * limit \<longrightarrow>
        bk_ReserveN bk b now = bk_ReserveN bk (bk_NewLimiter bk limit burst) now)"

fun attempts ::
  "(string \<Rightarrow> gotime \<Rightarrow> 'l \<Rightarrow> (bool \<times> int) \<times> 'l) \<Rightarrow> (string \<times> gotime) list \<Rightarrow> 'l \<Rightarrow> (bool \<times> int) list" where
  "attempts step [] l = []"
| "attempts step ((key, now) # rs) l = (case step key now l of (r, l') \<Rightarrow> r # attempts step rs l')"

definition in_order :: "(string \<times> gotime) list \<Rightarrow> bool" where
  "in_order rs \<longleftrightarrow> sorted (map (\<lambda>r. nsec (snd r)) rs)"

text \<open>The swept limiter against one that keeps every bucket: they agree on a bucket, or it is gone
  from the first and idle for a refill in the second.\<close>

fun agree_on :: "int \<Rightarrow> ('b \<Rightarrow> gotime \<Rightarrow> bool) \<Rightarrow> gotime \<Rightarrow> 'b bucket option \<Rightarrow> 'b bucket option \<Rightarrow> bool" where
  "agree_on refill settled now x None \<longleftrightarrow> x = None"
| "agree_on refill settled now x (Some b) \<longleftrightarrow>
     settled (bu_limiter b) (bu_lastSeen b) \<and> nsec (bu_lastSeen b) \<le> nsec now
     \<and> (x = Some b \<or> x = None \<and> refill \<le> nsec now - nsec (bu_lastSeen b))"

definition agrees ::
  "rat \<Rightarrow> int \<Rightarrow> int \<Rightarrow> ('b \<Rightarrow> gotime \<Rightarrow> bool) \<Rightarrow> gotime \<Rightarrow> 'b limiter \<Rightarrow> 'b limiter \<Rightarrow> bool" where
  "agrees limit burst refill settled now l m \<longleftrightarrow> li_refill l = refill
     \<and> li_limit l = limit \<and> li_burst l = burst \<and> li_limit m = limit \<and> li_burst m = burst
     \<and> (\<forall>key. agree_on refill settled now (li_buckets l key) (li_buckets m key))"

lemma Sub_ge: "refill \<le> max_duration \<Longrightarrow> refill \<le> Sub a b \<Longrightarrow> min_duration < refill \<Longrightarrow> refill \<le> nsec a - nsec b"
  by (auto simp: Sub_def split: if_splits)

lemma agree_on_later: "agree_on refill settled now x y \<Longrightarrow> nsec now \<le> nsec later \<Longrightarrow> agree_on refill settled later x y"
  by (cases y) auto

lemma agrees_later: "agrees limit burst refill settled now l m \<Longrightarrow> nsec now \<le> nsec later \<Longrightarrow> agrees limit burst refill settled later l m"
  unfolding agrees_def using agree_on_later by blast

lemma agrees_sweep:
  assumes "agrees limit burst refill settled now l m" "0 < refill" "refill \<le> max_duration"
  shows "agrees limit burst refill settled now (sweep now l) m"
proof -
  have "min_duration < refill" using assms(2) by (simp add: min_duration_def)
  note idle = Sub_ge [OF assms(3) _ this]
  have "agree_on refill settled now (li_buckets (sweep now l) key) (li_buckets m key)" for key
  proof -
    have "agree_on refill settled now (li_buckets l key) (li_buckets m key)" "li_refill l = refill"
      using assms(1) by (auto simp: agrees_def)
    with idle show ?thesis by (cases "li_buckets m key") (auto simp: sweep_def split: if_splits)
  qed
  with assms(1) show ?thesis by (simp add: agrees_def) (simp add: sweep_def)
qed

lemma idle_fresh:
  assumes "bucket_laws bk limit burst settled" "of_int burst * of_int sec_ns \<le> of_int refill * limit" "0 < limit"
    and "settled b t" "refill \<le> nsec now - nsec t"
  shows "bk_ReserveN bk b now = bk_ReserveN bk (bk_NewLimiter bk limit burst) now"
proof -
  have "of_int refill * limit \<le> of_int (nsec now - nsec t) * limit"
    using assms(3,5) by (intro mult_right_mono) (simp_all only: of_int_le_iff order.strict_implies_order)
  with assms(2) have "of_int burst * of_int sec_ns \<le> of_int (nsec now - nsec t) * limit" by (rule order_trans)
  with assms(1,4) show ?thesis unfolding bucket_laws_def by blast
qed

lemma agrees_spend:
  assumes laws: "bucket_laws bk limit burst settled" "of_int burst * of_int sec_ns \<le> of_int refill * limit" "0 < limit"
    and agree: "agrees limit burst refill settled now l m"
    and run: "spend bk key now l = (r, l')" "spend bk key now m = (r', m')"
  shows "r = r' \<and> agrees limit burst refill settled now l' m'"
proof -
  define lb where "lb = (case li_buckets l key of None \<Rightarrow> bk_NewLimiter bk limit burst | Some b \<Rightarrow> bu_limiter b)"
  define mb where "mb = (case li_buckets m key of None \<Rightarrow> bk_NewLimiter bk limit burst | Some b \<Rightarrow> bu_limiter b)"
  have new: "li_limit l = limit" "li_burst l = burst" "li_limit m = limit" "li_burst m = burst"
    using agree by (simp_all add: agrees_def)
  have same: "bk_ReserveN bk lb now = bk_ReserveN bk mb now"
  proof (cases "li_buckets m key")
    case None
    with agree have "li_buckets l key = None" unfolding agrees_def by (metis agree_on.simps(1))
    with None show ?thesis by (simp add: lb_def mb_def)
  next
    case (Some b)
    with agree have b: "settled (bu_limiter b) (bu_lastSeen b)"
      "li_buckets l key = Some b \<or> li_buckets l key = None \<and> refill \<le> nsec now - nsec (bu_lastSeen b)"
      unfolding agrees_def by (metis agree_on.simps(2))+
    with Some idle_fresh [OF laws b(1), of now] show ?thesis by (auto simp: lb_def mb_def)
  qed
  obtain delay b' where res: "bk_ReserveN bk mb now = (delay, b')" by fastforce
  define lim where "lim = (if 0 < delay then bk_CancelAt bk b' now else b')"
  have "mb = bk_NewLimiter bk limit burst \<or> (\<exists>t0. settled mb t0 \<and> nsec t0 \<le> nsec now)"
  proof (cases "li_buckets m key")
    case (Some b)
    with agree have "settled (bu_limiter b) (bu_lastSeen b)" "nsec (bu_lastSeen b) \<le> nsec now"
      unfolding agrees_def by (metis agree_on.simps(2))+
    with Some show ?thesis by (auto simp: mb_def)
  qed (simp add: mb_def)
  with laws(1) res have settled: "settled lim now" unfolding bucket_laws_def lim_def by blast
  have "r = (\<not> 0 < delay, if 0 < delay then delay else 0)"
      "l' = l\<lparr>li_buckets := (li_buckets l)(key \<mapsto> \<lparr>bu_limiter = lim, bu_lastSeen = now\<rparr>)\<rparr>"
    using run(1) same res
    by (auto simp: spend_def lb_def lim_def new Let_def split: option.splits if_splits prod.splits)
  moreover have "r' = (\<not> 0 < delay, if 0 < delay then delay else 0)"
      "m' = m\<lparr>li_buckets := (li_buckets m)(key \<mapsto> \<lparr>bu_limiter = lim, bu_lastSeen = now\<rparr>)\<rparr>"
    using run(2) res
    by (auto simp: spend_def mb_def lim_def new Let_def split: option.splits if_splits prod.splits)
  ultimately show ?thesis using agree settled by (auto simp: agrees_def)
qed

lemma attempts_agree:
  assumes laws: "bucket_laws bk limit burst settled" "of_int burst * of_int sec_ns \<le> of_int refill * limit" "0 < limit"
    and refill: "0 < refill" "refill \<le> max_duration"
    and "agrees limit burst refill settled now l m" "in_order rs" "\<forall>r \<in> set rs. nsec now \<le> nsec (snd r)"
  shows "attempts (Allow bk) rs l = attempts (spend bk) rs m"
  using assms(6-8)
proof (induction rs arbitrary: now l m)
  case (Cons x rs)
  obtain key t where x: "x = (key, t)" by (cases x)
  define l1 where "l1 = (if Sub t (li_lastSweep l) \<ge> li_refill l then sweep t l else l)"
  have "agrees limit burst refill settled t l m" using agrees_later Cons.prems(1,3) x by fastforce
  then have agree: "agrees limit burst refill settled t l1 m" using agrees_sweep refill by (auto simp: l1_def)
  obtain r l' r' m' where s: "spend bk key t l1 = (r, l')" "spend bk key t m = (r', m')" by fastforce
  note step = agrees_spend [OF laws agree s]
  have "attempts (Allow bk) rs l' = attempts (spend bk) rs m'"
    using step Cons.prems(2) by (intro Cons.IH [of t]) (auto simp: in_order_def x)
  moreover have "Allow bk key t l = (r, l')" using s(1) by (simp add: Allow_def l1_def)
  ultimately show ?case using step s(2) by (simp add: x)
qed simp

text \<open>The refill of a new limiter, where it is a whole number of nanoseconds.\<close>

lemma NewLimiter_refill:
  assumes "NewLimiter limit burst = Some l" "of_int burst * of_int sec_ns = of_int n * limit"
  shows "li_refill l = n" "0 < limit" "0 < n"
proof -
  have l: "0 < limit" "1 \<le> burst" "li_refill l = \<lfloor>of_int burst / limit * of_int sec_ns\<rfloor>"
    using assms(1) by (auto simp: NewLimiter_def split: if_splits)
  have "of_int burst / limit * of_int sec_ns = (of_int n :: rat)"
    using assms(2) l(1) by (simp add: field_simps)
  then show "li_refill l = n" using l(3) by simp
  show "0 < limit" by (rule l(1))
  have "0 < of_int n * limit" unfolding assms(2) [symmetric] using l(2) by simp
  with l(1) show "0 < n" by (simp add: zero_less_mult_iff)
qed

text \<open>
  (C22) Deleting idle buckets changes no answer.  For a positive rate and a burst of at least one, whose
  refill (the burst over the rate) is a whole number of nanoseconds that a \<open>time.Duration\<close> holds: over
  any sequence of attempts in the order of their times, the limiter \<open>NewLimiter\<close> makes, which sweeps,
  allows and refuses exactly what one that keeps every bucket does, with the same waits.  Of the
  buckets it uses that one which has stood for as long as the rate takes to fill the burst answers
  as a new one.
\<close>

theorem sweep_transparent:
  assumes "NewLimiter limit burst = Some l" "bucket_laws bk limit burst settled"
    and "of_int burst * of_int sec_ns = of_int n * limit" "n \<le> max_duration" "in_order rs"
  shows "attempts (Allow bk) rs l = attempts (spend bk) rs l"
proof (cases rs)
  case (Cons r rs')
  note refill = NewLimiter_refill [OF assms(1,3)]
  have "agrees limit burst n settled (snd r) l l"
    using assms(1) refill(1) by (auto simp: agrees_def NewLimiter_def split: if_splits)
  moreover have "\<forall>x \<in> set rs. nsec (snd r) \<le> nsec (snd x)" using Cons assms(5) by (auto simp: in_order_def)
  moreover have "of_int burst * of_int sec_ns \<le> of_int n * limit" by (simp only: assms(3) order_refl)
  ultimately show ?thesis
    using attempts_agree [OF assms(2) _ refill(2,3) assms(4) _ assms(5)] by blast
qed simp

text \<open>A token bucket in whole nanoseconds: one token every \<open>every\<close>, at most \<open>burst\<close>.  It holds the
  nanoseconds it owes and since when; a cancelled attempt gives its token back.\<close>

definition owed :: "int \<times> int \<Rightarrow> int \<Rightarrow> int" where
  "owed b now = max 0 (fst b - max 0 (now - snd b))"

definition ex_buckets :: "int \<Rightarrow> int \<Rightarrow> (int \<times> int) buckets" where
  "ex_buckets every burst = \<lparr>bk_NewLimiter = (\<lambda>_ _. (0, 0)),
     bk_ReserveN = (\<lambda>b t. (max 0 (owed b (nsec t) + every - burst * every), (owed b (nsec t) + every, nsec t))),
     bk_CancelAt = (\<lambda>b t. (fst b - every, snd b))\<rparr>"

definition ex_settled :: "int \<Rightarrow> int \<Rightarrow> int \<times> int \<Rightarrow> gotime \<Rightarrow> bool" where
  "ex_settled every burst b t \<longleftrightarrow> fst b \<le> burst * every \<and> snd b = nsec t"

text \<open>A token every ten nanoseconds, two at most: a refill of twenty.\<close>

definition ex_limiter :: "(int \<times> int) limiter" where
  "ex_limiter = \<lparr>li_limit = 100000000, li_burst = 2, li_refill = 20, li_buckets = Map.empty, li_lastSweep = zero_time\<rparr>"

lemma ex_NewLimiter: "NewLimiter 100000000 2 = Some ex_limiter"
  by (simp add: NewLimiter_def ex_limiter_def)

lemma ex_bucket_laws: "bucket_laws (ex_buckets 10 2) 100000000 2 (ex_settled 10 2)"
proof -
  have "20 \<le> nsec now - nsec t" if "(of_int 2 :: rat) * of_int sec_ns \<le> of_int (nsec now - nsec t) * 100000000" for now t
  proof -
    have "(of_int 2000000000 :: rat) \<le> of_int ((nsec now - nsec t) * 100000000)" using that by simp
    then show ?thesis unfolding of_int_le_iff by simp
  qed
  then show ?thesis
    by (auto simp: bucket_laws_def ex_buckets_def ex_settled_def owed_def max_def)
qed

theorem sweep_transparent_witness:
  "attempts (Allow (ex_buckets 10 2))
     [(''a'', Add zero_time 5), (''a'', Add zero_time 6), (''a'', Add zero_time 7), (''b'', Add zero_time 8),
      (''a'', Add zero_time 40), (''b'', Add zero_time 41)] ex_limiter
   = [(True, 0), (True, 0), (False, 8), (True, 0), (True, 0), (True, 0)]"
proof -
  define rs where "rs = [(''a'', Add zero_time 5), (''a'', Add zero_time 6), (''a'', Add zero_time 7), (''b'', Add zero_time 8),
      (''a'', Add zero_time 40), (''b'', Add zero_time 41)]"
  have "in_order rs" by (simp add: in_order_def rs_def Add_def)
  from sweep_transparent [OF ex_NewLimiter ex_bucket_laws _ _ this, of 20] show ?thesis
    unfolding rs_def
    by (simp add: max_duration_def ex_limiter_def spend_def ex_buckets_def owed_def Add_def zero_time_def)
qed

end
