(* ===== verification/Http_Routes.thy ===== *)
theory Http_Routes
  imports Http_Limit Auth_Principal
begin

text \<open>
  The route table and what stands in front of a handler: \<open>src/internal/http/mux.go\<close> (\<open>routes\<close>,
  \<open>publicRoutes\<close>, \<open>New\<close>), \<open>authn.go\<close> (\<open>Authenticate\<close>, \<open>requireToken\<close>, \<open>requireGarden\<close>,
  \<open>require\<close>) and the key functions of \<open>ratelimit.go\<close>.  A handler is its name; \<open>run\<close> is what it
  does.  The request is what the middleware reads of it: the pattern \<open>ServeMux\<close> matched, the
  session cookie, two headers and the address; one reading of the clock serves the whole request.
  The routes of the development build are not modelled, nor is what surrounds \<open>Authenticate\<close> in
  \<open>New\<close>: the cross-origin check, recovery from panics, logging, headers and tracing.
\<close>

section \<open>Requests, routes and answers\<close>

record request =
  rq_pattern :: string
  rq_cookie :: string
  rq_Authorization :: string
  rq_trustedIP :: string
  rq_RemoteAddr :: string
  rq_remoteHost :: "string option"
  rq_htmx :: bool
  rq_now :: gotime

datatype limit_key = ClientAddress | AnySource | ByToken | ByAccount

record limit =
  lm_budget :: string
  lm_burst :: nat
  lm_key :: limit_key

record route =
  rt_pattern :: string
  rt_capability :: string
  rt_withoutGarden :: bool
  rt_bearer :: bool
  rt_limits :: "limit list"
  rt_handler :: string

text \<open>\<open>Ran\<close> is the handler's own answer, with the principal it ran for.\<close>

datatype 'r response =
    Ran string "principal option" 'r
  | To_sign_in
  | Sign_in_cleared
  | No_such_page
  | No_garden_page
  | To_today
  | Unauthorized
  | Failed
  | Too_many int
  | Panicked

record 'b server =
  sv_world :: world
  sv_limits :: "string \<Rightarrow> 'b limiter"

type_synonym ('b, 'r) handler = "principal option \<Rightarrow> 'b server \<Rightarrow> 'r response \<times> 'b server"

section \<open>The middleware\<close>

text \<open>\<open>PrincipalFrom\<close> panics on a request no principal was put on.\<close>

definition require :: "string \<Rightarrow> ('b, 'r) handler \<Rightarrow> ('b, 'r) handler" where
  "require capability h p sv =
     (case p of
        None \<Rightarrow> (Panicked, sv)
      | Some q \<Rightarrow> if \<not> Can q capability then (No_such_page, sv) else h p sv)"

definition requireGarden :: "bool \<Rightarrow> ('b, 'r) handler \<Rightarrow> ('b, 'r) handler" where
  "requireGarden htmx h p sv =
     (case p of
        None \<Rightarrow> (Panicked, sv)
      | Some q \<Rightarrow> if InGarden q then h p sv else if htmx then (To_today, sv) else (No_garden_page, sv))"

definition cut_space :: "string \<Rightarrow> (string \<times> string) option" where
  "cut_space s =
     (if CHR '' '' \<notin> set s then None
      else Some (takeWhile (\<lambda>c. c \<noteq> CHR '' '') s, tl (dropWhile (\<lambda>c. c \<noteq> CHR '' '') s)))"

definition ascii_lower :: "char \<Rightarrow> char" where
  "ascii_lower c = (if of_char c \<in> {65..90 :: nat} then char_of (of_char c + 32 :: nat) else c)"

definition bearerToken :: "(string \<Rightarrow> string) \<Rightarrow> request \<Rightarrow> string" where
  "bearerToken trim rq =
     (case cut_space (rq_Authorization rq) of
        None \<Rightarrow> ''''
      | Some (scheme, token) \<Rightarrow> if map ascii_lower scheme \<noteq> ''bearer'' then '''' else trim token)"

definition requireToken ::
  "(string \<Rightarrow> string) \<Rightarrow> (string \<Rightarrow> string) \<Rightarrow> request \<Rightarrow> ('b, 'r) handler \<Rightarrow> ('b, 'r) handler" where
  "requireToken hashToken trim rq h p sv =
     (if bearerToken trim rq = '''' then (Unauthorized, sv)
      else (case Resolve_token hashToken (rq_now rq) (bearerToken trim rq) (sv_world sv) of
         (Inl e, w) \<Rightarrow> (if e = ErrNoAPIToken then Unauthorized else Failed, sv\<lparr>sv_world := w\<rparr>)
       | (Inr q, w) \<Rightarrow> h (Some q) (sv\<lparr>sv_world := w\<rparr>)))"

text \<open>The key of a budget; \<open>None\<close> is a panic of \<open>PrincipalFrom\<close>.\<close>

fun limit_key_of ::
  "(string \<Rightarrow> string) \<Rightarrow> (string \<Rightarrow> string) \<Rightarrow> request \<Rightarrow> principal option \<Rightarrow> limit_key \<Rightarrow> string option" where
  "limit_key_of hashToken trim rq p ClientAddress =
     Some (if trim (rq_trustedIP rq) \<noteq> '''' then trim (rq_trustedIP rq)
           else (case rq_remoteHost rq of None \<Rightarrow> rq_RemoteAddr rq | Some host \<Rightarrow> host))"
| "limit_key_of hashToken trim rq p AnySource = Some ''''"
| "limit_key_of hashToken trim rq p ByToken =
     Some (if bearerToken trim rq = '''' then '''' else hashToken (bearerToken trim rq))"
| "limit_key_of hashToken trim rq p ByAccount = map_option (\<lambda>q. us_ID (pr_User q)) p"

definition Limit ::
  "(nat \<Rightarrow> 'b buckets) \<Rightarrow> (string \<Rightarrow> string) \<Rightarrow> (string \<Rightarrow> string) \<Rightarrow> request \<Rightarrow> limit \<Rightarrow> ('b, 'r) handler \<Rightarrow> ('b, 'r) handler" where
  "Limit bk hashToken trim rq lm h p sv =
     (case limit_key_of hashToken trim rq p (lm_key lm) of
        None \<Rightarrow> (Panicked, sv)
      | Some key \<Rightarrow>
          (case Allow (bk (lm_burst lm)) key (rq_now rq) (sv_limits sv (lm_budget lm)) of
             ((ok, delay), l) \<Rightarrow>
               (let sv = sv\<lparr>sv_limits := (sv_limits sv)(lm_budget lm := l)\<rparr> in
                if \<not> ok then (Too_many (retry_after delay), sv) else h p sv)))"

datatype credential = sessionCookie | noCredential | apiToken

definition Authenticate ::
  "(string \<Rightarrow> string) \<Rightarrow> sessions \<Rightarrow> (string \<Rightarrow> credential) \<Rightarrow> request \<Rightarrow> ('b, 'r) handler \<Rightarrow> ('b, 'r) handler" where
  "Authenticate hashToken s credentials rq h p sv =
     (if credentials (rq_pattern rq) \<noteq> sessionCookie then h p sv
      else if rq_cookie rq = '''' then (To_sign_in, sv)
      else (case Resolve_session hashToken s (rq_now rq) (rq_cookie rq) (sv_world sv) of
         (Inl e, w) \<Rightarrow> (if e = ErrNoSession then Sign_in_cleared else Failed, sv\<lparr>sv_world := w\<rparr>)
       | (Inr q, w) \<Rightarrow> h (Some q) (sv\<lparr>sv_world := w\<rparr>)))"

section \<open>The table\<close>

definition open_route :: "string \<Rightarrow> string \<Rightarrow> route" where
  "open_route pattern h = \<lparr>rt_pattern = pattern, rt_capability = '''', rt_withoutGarden = False, rt_bearer = False,
     rt_limits = [], rt_handler = h\<rparr>"

definition guarded_route :: "string \<Rightarrow> string \<Rightarrow> string \<Rightarrow> route" where
  "guarded_route pattern capability h = (open_route pattern h)\<lparr>rt_capability := capability\<rparr>"

definition limits_of :: "string \<Rightarrow> nat \<Rightarrow> nat \<Rightarrow> limit list" where
  "limits_of name address shared =
     [\<lparr>lm_budget = name @ '' address'', lm_burst = address, lm_key = ClientAddress\<rparr>,
      \<lparr>lm_budget = name @ '' shared'', lm_burst = shared, lm_key = AnySource\<rparr>]"

definition signInLimits :: "string \<Rightarrow> limit list" where "signInLimits name = limits_of name 6 120"
definition inviteLimits :: "string \<Rightarrow> limit list" where "inviteLimits name = limits_of name 6 120"
definition handleLimits :: "string \<Rightarrow> limit list" where "handleLimits name = limits_of name 30 300"
definition recoverLimits :: "limit list" where "recoverLimits = limits_of ''recover'' 8 10"

definition pushLimits :: "string \<Rightarrow> limit list" where
  "pushLimits name = [\<lparr>lm_budget = name, lm_burst = 6, lm_key = ByAccount\<rparr>]"

definition choresLimits :: "string \<Rightarrow> limit list" where
  "choresLimits name = [\<lparr>lm_budget = name, lm_burst = 6, lm_key = ByToken\<rparr>]"

definition routes :: "route list" where
  "routes =
     [
      open_route ''GET /healthz'' ''handleHealthz'',
      open_route ''GET /static/{path...}'' ''assets'',
      open_route ''GET /service-worker.js'' ''serviceWorker'',
      open_route ''GET /offline'' ''offline'',
      open_route ''GET /{$}'' ''todayHandler.show'',
      open_route ''GET /remind-later'' ''todayHandler.showRemindLater'',
      open_route ''POST /remind-later'' ''todayHandler.setReminder'',
      open_route ''POST /remind-later/remove'' ''todayHandler.removeReminder'',
      open_route ''GET /plants'' ''plantsHandler.show'',
      open_route ''GET /plants/archived'' ''plantsHandler.archived'',
      guarded_route ''GET /plants/new'' ''plant.create'' ''plantsHandler.newPlant'',
      guarded_route ''POST /plants/new'' ''plant.create'' ''plantsHandler.create'',
      open_route ''GET /plants/{plant}'' ''plantsHandler.plant'',
      guarded_route ''GET /plants/{plant}/edit'' ''plant.edit'' ''plantsHandler.edit'',
      guarded_route ''POST /plants/{plant}/edit'' ''plant.edit'' ''plantsHandler.update'',
      guarded_route ''GET /plants/{plant}/archive'' ''plant.archive'' ''plantsHandler.confirmArchive'',
      guarded_route ''POST /plants/{plant}/archive'' ''plant.archive'' ''plantsHandler.archive'',
      guarded_route ''POST /plants/{plant}/restore'' ''plant.archive'' ''plantsHandler.restore'',
      guarded_route ''GET /plants/{plant}/schedule/{care}'' ''schedule.edit'' ''plantsHandler.editSchedule'',
      guarded_route ''POST /plants/{plant}/schedule/{care}'' ''schedule.edit'' ''plantsHandler.saveSchedule'',
      guarded_route ''GET /plants/{plant}/schedule/{care}/remove'' ''schedule.edit'' ''plantsHandler.confirmRemoveSchedule'',
      guarded_route ''POST /plants/{plant}/schedule/{care}/remove'' ''schedule.edit'' ''plantsHandler.removeSchedule'',
      open_route ''GET /plants/{plant}/photos/{photo}/full'' ''plantsHandler.photoFull'',
      open_route ''GET /plants/{plant}/photos/{photo}/square'' ''plantsHandler.photoSquare'',
      open_route ''GET /plants/{plant}/photos'' ''plantsHandler.photoGrid'',
      guarded_route ''GET /plants/{plant}/photos/new'' ''photo.add'' ''plantsHandler.newPhoto'',
      guarded_route ''POST /plants/{plant}/photos/new'' ''photo.add'' ''plantsHandler.addPhoto'',
      open_route ''GET /plants/{plant}/photos/{photo}'' ''plantsHandler.photo'',
      guarded_route ''GET /plants/{plant}/photos/{photo}/delete'' ''photo.delete_own'' ''plantsHandler.confirmDelete'',
      guarded_route ''POST /plants/{plant}/photos/{photo}/delete'' ''photo.delete_own'' ''plantsHandler.deletePhoto'',
      open_route ''GET /activity'' ''activityHandler.show'',
      open_route ''GET /activity/calendar'' ''activityHandler.calendar'',
      guarded_route ''GET /activity/calendar/notes/new'' ''calendar_note.manage'' ''activityHandler.newNote'',
      guarded_route ''POST /activity/calendar/notes'' ''calendar_note.manage'' ''activityHandler.createNote'',
      guarded_route ''GET /activity/calendar/notes/{note}'' ''calendar_note.manage'' ''activityHandler.editNote'',
      guarded_route ''POST /activity/calendar/notes/{note}'' ''calendar_note.manage'' ''activityHandler.saveNote'',
      guarded_route ''POST /activity/calendar/notes/{note}/delete'' ''calendar_note.manage'' ''activityHandler.deleteNote'',
      guarded_route ''GET /plants/{plant}/log'' ''care.log'' ''todayHandler.sheet'',
      guarded_route ''POST /plants/{plant}/log'' ''care.log'' ''todayHandler.log'',
      guarded_route ''DELETE /plants/{plant}/log/{event}'' ''care.delete_own'' ''todayHandler.undo'',
      guarded_route ''POST /plants/{plant}/log/{event}/undo'' ''care.delete_own'' ''todayHandler.undo'',
      guarded_route ''GET /plants/{plant}/log/{event}'' ''care.edit_own'' ''activityHandler.correct'',
      guarded_route ''POST /plants/{plant}/log/{event}'' ''care.edit_own'' ''activityHandler.save'',
      guarded_route ''POST /plants/{plant}/log/{event}/delete'' ''care.delete_own'' ''activityHandler.remove'',
      guarded_route ''POST /plants/{plant}/log/{event}/restore'' ''care.delete_own'' ''activityHandler.restore'',
      open_route ''GET /more'' ''moreHandler.show'',
      (open_route ''POST /signout'' ''moreHandler.signOut'')\<lparr>rt_withoutGarden := True\<rparr>,
      open_route ''GET /more/account'' ''accountHandler.show'',
      open_route ''GET /more/account/edit'' ''accountHandler.edit'',
      open_route ''POST /more/account'' ''accountHandler.saveAccount'',
      (open_route ''GET /more/account/close'' ''closeAccountHandler.confirm'')\<lparr>rt_withoutGarden := True\<rparr>,
      (open_route ''POST /more/account/close'' ''closeAccountHandler.close'')\<lparr>rt_withoutGarden := True\<rparr>,
      open_route ''GET /more/account/recovery'' ''recoveryCodesHandler.show'',
      open_route ''POST /more/account/recovery'' ''recoveryCodesHandler.createCodes'',
      open_route ''GET /more/passkeys'' ''passkeysHandler.show'',
      open_route ''POST /more/passkeys/{key}/remove'' ''passkeysHandler.removePasskey'',
      open_route ''POST /more/passkeys/challenge'' ''passkeyHandler.registerChallenge'',
      open_route ''POST /more/passkeys'' ''passkeyHandler.register'',
      open_route ''GET /signin'' ''passkeyHandler.showSignIn'',
      (open_route ''POST /signin/challenge'' ''passkeyHandler.signInChallenge'')\<lparr>rt_limits := signInLimits ''POST /signin/challenge''\<rparr>,
      (open_route ''POST /signin'' ''passkeyHandler.signIn'')\<lparr>rt_limits := signInLimits ''POST /signin''\<rparr>,
      open_route ''GET /setup'' ''setupHandler.show'',
      open_route ''POST /setup/challenge'' ''setupHandler.challenge'',
      open_route ''POST /setup'' ''setupHandler.create'',
      (open_route ''GET /handle'' ''handleHandler.suggest'')\<lparr>rt_limits := handleLimits ''GET /handle''\<rparr>,
      (open_route ''GET /setup/signed-in'' ''setupHandler.showSignedIn'')\<lparr>rt_withoutGarden := True\<rparr>,
      (open_route ''POST /setup/signed-in'' ''setupHandler.createSignedIn'')\<lparr>rt_withoutGarden := True\<rparr>,
      open_route ''GET /setup/reminders'' ''setupHandler.reminders'',
      open_route ''GET /setup/{token}'' ''setupHandler.show'',
      open_route ''POST /setup/{token}/challenge'' ''setupHandler.challenge'',
      open_route ''POST /setup/{token}'' ''setupHandler.create'',
      (open_route ''GET /setup/{token}/signed-in'' ''setupHandler.showSignedIn'')\<lparr>rt_withoutGarden := True\<rparr>,
      (open_route ''POST /setup/{token}/signed-in'' ''setupHandler.createSignedIn'')\<lparr>rt_withoutGarden := True\<rparr>,
      open_route ''GET /invite/{token}'' ''invitedHandler.show'',
      (open_route ''POST /invite/{token}/challenge'' ''invitedHandler.challenge'')\<lparr>rt_limits := inviteLimits ''POST /invite/{token}/challenge''\<rparr>,
      (open_route ''POST /invite/{token}'' ''invitedHandler.redeem'')\<lparr>rt_limits := inviteLimits ''POST /invite/{token}''\<rparr>,
      open_route ''GET /recover'' ''recoverHandler.show'',
      (open_route ''POST /recover'' ''recoverHandler.check'')\<lparr>rt_limits := recoverLimits\<rparr>,
      (open_route ''POST /recover/challenge'' ''recoverHandler.challenge'')\<lparr>rt_limits := recoverLimits\<rparr>,
      (open_route ''POST /recover/passkey'' ''recoverHandler.register'')\<lparr>rt_limits := recoverLimits\<rparr>,
      (open_route ''GET /invite/{token}/accept'' ''invitedHandler.showAccept'')\<lparr>rt_withoutGarden := True\<rparr>,
      (open_route ''POST /invite/{token}/accept'' ''invitedHandler.accept'')\<lparr>rt_withoutGarden := True\<rparr>,
      open_route ''GET /more/notifications'' ''notificationsHandler.show'',
      open_route ''POST /more/notifications'' ''notificationsHandler.saveNotifications'',
      (open_route ''POST /more/notifications/browsers'' ''notificationsHandler.subscribeBrowser'')\<lparr>rt_limits := pushLimits ''POST /more/notifications/browsers''\<rparr>,
      (open_route ''POST /more/notifications/test'' ''notificationsHandler.sendTestNotification'')\<lparr>rt_limits := pushLimits ''POST /more/notifications/test''\<rparr>,
      open_route ''POST /more/notifications/browsers/{browser}/remove'' ''notificationsHandler.removeBrowser'',
      open_route ''GET /install'' ''install'',
      open_route ''GET /more/appearance'' ''appearance'',
      open_route ''GET /gardens'' ''todayHandler.gardenSheet'',
      open_route ''POST /gardens'' ''todayHandler.switchGarden'',
      guarded_route ''GET /more/garden'' ''garden.edit'' ''gardenHandler.show'',
      guarded_route ''POST /more/garden'' ''garden.edit'' ''gardenHandler.saveGardenName'',
      guarded_route ''GET /more/garden/delete'' ''garden.delete'' ''deleteGardenHandler.confirm'',
      guarded_route ''POST /more/garden/delete'' ''garden.delete'' ''deleteGardenHandler.delete'',
      guarded_route ''GET /more/garden/types'' ''care_type.manage'' ''gardenHandler.newCareType'',
      guarded_route ''POST /more/garden/types'' ''care_type.manage'' ''gardenHandler.createCareType'',
      guarded_route ''GET /more/garden/types/{care}'' ''care_type.manage'' ''gardenHandler.editCareType'',
      guarded_route ''POST /more/garden/types/{care}'' ''care_type.manage'' ''gardenHandler.saveCareType'',
      guarded_route ''POST /more/garden/types/{care}/off'' ''care_type.manage'' ''gardenHandler.turnOffCareType'',
      guarded_route ''POST /more/garden/types/{care}/on'' ''care_type.manage'' ''gardenHandler.turnOnCareType'',
      guarded_route ''POST /more/garden/types/{care}/delete'' ''care_type.manage'' ''gardenHandler.deleteCareType'',
      guarded_route ''GET /more/people'' ''member.manage'' ''peopleHandler.show'',
      guarded_route ''POST /more/people'' ''member.manage'' ''peopleHandler.saveMembers'',
      guarded_route ''GET /more/people/invite'' ''member.invite'' ''inviteHandler.show'',
      guarded_route ''POST /more/people/invite'' ''member.invite'' ''inviteHandler.createInviteLink'',
      guarded_route ''POST /more/people/invites/{invite}/revoke'' ''member.manage'' ''peopleHandler.revokeInvite'',
      guarded_route ''GET /more/people/{member}/remove'' ''member.manage'' ''peopleHandler.confirmRemoveMember'',
      guarded_route ''POST /more/people/{member}/remove'' ''member.manage'' ''peopleHandler.removeMember'',
      guarded_route ''GET /more/tokens'' ''token.manage'' ''tokensHandler.show'',
      guarded_route ''POST /more/tokens'' ''token.manage'' ''tokensHandler.createToken'',
      guarded_route ''POST /more/tokens/{token}/revoke'' ''token.manage'' ''tokensHandler.revokeToken'',
      (open_route ''GET /api/chores'' ''choresHandler.show'')\<lparr>rt_bearer := True, rt_limits := choresLimits ''GET /api/chores''\<rparr>,
      (open_route ''/'' ''notFound'')\<lparr>rt_withoutGarden := True\<rparr>]"

definition publicRoutes :: "string list" where
  "publicRoutes =
     [''GET /healthz'',
      ''GET /static/{path...}'',
      ''GET /service-worker.js'',
      ''GET /offline'',
      ''GET /signin'',
      ''POST /signin/challenge'',
      ''POST /signin'',
      ''GET /setup'',
      ''POST /setup/challenge'',
      ''POST /setup'',
      ''GET /setup/{token}'',
      ''POST /setup/{token}/challenge'',
      ''POST /setup/{token}'',
      ''GET /handle'',
      ''GET /invite/{token}'',
      ''POST /invite/{token}/challenge'',
      ''POST /invite/{token}'',
      ''GET /recover'',
      ''POST /recover'',
      ''POST /recover/challenge'',
      ''POST /recover/passkey'']"

definition credentialsFor :: "route list \<Rightarrow> string \<Rightarrow> credential" where
  "credentialsFor table pattern =
     (if pattern \<in> set publicRoutes \<and> pattern \<in> set (map rt_pattern table) then noCredential
      else if pattern \<in> set (map rt_pattern (filter rt_bearer table)) then apiToken
      else sessionCookie)"

section \<open>New\<close>

text \<open>A route's handler in its wrappers, innermost first as \<open>New\<close> builds them.  \<open>ServeMux\<close> answers
  a request no pattern matched itself.\<close>

definition wrapped ::
  "(nat \<Rightarrow> 'b buckets) \<Rightarrow> (string \<Rightarrow> string) \<Rightarrow> (string \<Rightarrow> string) \<Rightarrow> request \<Rightarrow> route \<Rightarrow> ('b, 'r) handler \<Rightarrow> ('b, 'r) handler" where
  "wrapped bk hashToken trim rq rt h =
     (let h = (if rt_capability rt \<noteq> '''' then require (rt_capability rt) h else h);
          h = (if rt_pattern rt \<notin> set publicRoutes \<and> \<not> rt_withoutGarden rt then requireGarden (rq_htmx rq) h else h);
          h = (if rt_bearer rt then requireToken hashToken trim rq h else h)
      in foldr (Limit bk hashToken trim rq) (rt_limits rt) h)"

definition serve ::
  "(nat \<Rightarrow> 'b buckets) \<Rightarrow> (string \<Rightarrow> string) \<Rightarrow> (string \<Rightarrow> string) \<Rightarrow> sessions
     \<Rightarrow> (string \<Rightarrow> principal option \<Rightarrow> 'b server \<Rightarrow> 'r \<times> 'b server) \<Rightarrow> request \<Rightarrow> 'b server \<Rightarrow> 'r response \<times> 'b server" where
  "serve bk hashToken trim s run rq =
     Authenticate hashToken s (credentialsFor routes) rq
       (case find (\<lambda>rt. rt_pattern rt = rq_pattern rq) routes of
          None \<Rightarrow> (\<lambda>p sv. (No_such_page, sv))
        | Some rt \<Rightarrow> wrapped bk hashToken trim rq rt
            (\<lambda>p sv. case run (rt_handler rt) p sv of (x, sv) \<Rightarrow> (Ran (rt_handler rt) p x, sv)))
       None"

section \<open>What a handler runs for\<close>

lemma require_Ran:
  assumes "require capability h p sv = (Ran name q x, sv')"
  obtains a where "p = Some a" "Can a capability" "h p sv = (Ran name q x, sv')"
  using assms by (auto simp: require_def split: option.splits if_splits)

lemma requireGarden_Ran:
  assumes "requireGarden htmx h p sv = (Ran name q x, sv')"
  obtains a where "p = Some a" "InGarden a" "h p sv = (Ran name q x, sv')"
  using assms by (auto simp: requireGarden_def split: option.splits if_splits)

lemma requireToken_Ran:
  assumes "requireToken hashToken trim rq h p sv = (Ran name q x, sv')"
  obtains a w where "Resolve_token hashToken (rq_now rq) (bearerToken trim rq) (sv_world sv) = (Inr a, w)"
    "h (Some a) (sv\<lparr>sv_world := w\<rparr>) = (Ran name q x, sv')"
  using assms by (auto simp: requireToken_def split: if_splits sum.splits prod.splits)

lemma Limit_cases:
  assumes "Limit bk hashToken trim rq lm h p sv = (r, sv')"
  obtains delay where "r = Too_many delay"
    | "r = Panicked" "lm_key lm = ByAccount" "p = None"
    | sv1 where "sv_world sv1 = sv_world sv" "h p sv1 = (r, sv')"
proof (cases "limit_key_of hashToken trim rq p (lm_key lm)")
  case None
  then have "lm_key lm = ByAccount \<and> p = None" by (cases "lm_key lm") auto
  with None assms that(2) show thesis by (simp add: Limit_def)
next
  case (Some key)
  obtain ok delay l where al: "Allow (bk (lm_burst lm)) key (rq_now rq) (sv_limits sv (lm_budget lm)) = ((ok, delay), l)"
    by (metis surj_pair)
  define sv1 where "sv1 = sv\<lparr>sv_limits := (sv_limits sv)(lm_budget lm := l)\<rparr>"
  have "sv_world sv1 = sv_world sv" by (simp add: sv1_def)
  moreover have "(r, sv') = (if \<not> ok then (Too_many (retry_after delay), sv1) else h p sv1)"
    using assms Some al by (cases ok) (simp_all add: Limit_def sv1_def Let_def)
  ultimately show thesis using that(1) [of "retry_after delay"] that(3) [of sv1] by (cases ok) auto
qed

lemma Limits_Ran:
  "foldr (Limit bk hashToken trim rq) lms h p sv = (Ran name q x, sv') \<Longrightarrow>
     \<exists>sv1. sv_world sv1 = sv_world sv \<and> h p sv1 = (Ran name q x, sv')"
proof (induction lms arbitrary: sv)
  case (Cons lm lms)
  then have run: "Limit bk hashToken trim rq lm (foldr (Limit bk hashToken trim rq) lms h) p sv = (Ran name q x, sv')"
    by simp
  show ?case
  proof (rule Limit_cases [OF run])
    fix sv1
    assume "sv_world sv1 = sv_world sv" "foldr (Limit bk hashToken trim rq) lms h p sv1 = (Ran name q x, sv')"
    with Cons.IH [of sv1] show ?thesis by auto
  qed simp_all
qed auto

lemma Authenticate_Ran:
  assumes "Authenticate hashToken s credentials rq h p sv = (Ran name q x, sv')"
  obtains "credentials (rq_pattern rq) \<noteq> sessionCookie" "h p sv = (Ran name q x, sv')"
    | a w where "credentials (rq_pattern rq) = sessionCookie"
        "Resolve_session hashToken s (rq_now rq) (rq_cookie rq) (sv_world sv) = (Inr a, w)"
        "h (Some a) (sv\<lparr>sv_world := w\<rparr>) = (Ran name q x, sv')"
  using assms by (auto simp: Authenticate_def split: if_splits sum.splits prod.splits)

text \<open>What a route promises of the principal its handler gets.\<close>

definition admits :: "route \<Rightarrow> principal option \<Rightarrow> bool" where
  "admits rt p \<longleftrightarrow> (rt_capability rt \<noteq> '''' \<longrightarrow> (\<exists>a. p = Some a \<and> Can a (rt_capability rt)))
     \<and> (rt_pattern rt \<notin> set publicRoutes \<and> \<not> rt_withoutGarden rt \<longrightarrow> (\<exists>a. p = Some a \<and> InGarden a))"

lemma wrapped_Ran:
  fixes run :: "principal option \<Rightarrow> 'b server \<Rightarrow> 'r \<times> 'b server"
  assumes "wrapped bk hashToken trim rq rt (\<lambda>p sv. case run p sv of (x, sv) \<Rightarrow> (Ran nm p x, sv)) p sv = (Ran name q x, sv')"
  shows "name = nm \<and> admits rt q \<and> (if rt_bearer rt then
      (\<exists>a w. q = Some a \<and> Resolve_token hashToken (rq_now rq) (bearerToken trim rq) (sv_world sv) = (Inr a, w)) else q = p)"
proof -
  define h0 :: "('b, 'r) handler" where "h0 = (\<lambda>p sv. case run p sv of (x, sv) \<Rightarrow> (Ran nm p x, sv))"
  define h1 where "h1 = (if rt_capability rt \<noteq> '''' then require (rt_capability rt) h0 else h0)"
  define h2 where "h2 = (if rt_pattern rt \<notin> set publicRoutes \<and> \<not> rt_withoutGarden rt
    then requireGarden (rq_htmx rq) h1 else h1)"
  define h3 where "h3 = (if rt_bearer rt then requireToken hashToken trim rq h2 else h2)"
  have inner: "name = nm \<and> admits rt q \<and> q = a" if "h2 a sv1 = (Ran name q x, sv')" for a sv1
  proof -
    have "h1 a sv1 = (Ran name q x, sv')"
        "rt_pattern rt \<notin> set publicRoutes \<and> \<not> rt_withoutGarden rt \<Longrightarrow> \<exists>b. a = Some b \<and> InGarden b"
      using that requireGarden_Ran [of "rq_htmx rq" h1 a sv1 name q x sv'] by (auto simp: h2_def split: if_splits)
    moreover from this(1) have "h0 a sv1 = (Ran name q x, sv')"
        "rt_capability rt \<noteq> '''' \<Longrightarrow> \<exists>b. a = Some b \<and> Can b (rt_capability rt)"
      using require_Ran [of "rt_capability rt" h0 a sv1 name q x sv'] by (auto simp: h1_def split: if_splits)
    moreover from this(1) have "name = nm" "q = a" by (auto simp: h0_def split: prod.splits)
    ultimately show ?thesis by (auto simp: admits_def)
  qed
  have "foldr (Limit bk hashToken trim rq) (rt_limits rt) h3 p sv = (Ran name q x, sv')"
    using assms unfolding wrapped_def Let_def h0_def [symmetric] h1_def [symmetric] h2_def [symmetric] h3_def [symmetric] .
  from Limits_Ran [OF this] obtain sv1 where sv1: "sv_world sv1 = sv_world sv" "h3 p sv1 = (Ran name q x, sv')" by blast
  show ?thesis
  proof (cases "rt_bearer rt")
    case True
    with sv1(2) have "requireToken hashToken trim rq h2 p sv1 = (Ran name q x, sv')" by (simp add: h3_def)
    then show ?thesis using inner sv1(1) True by (elim requireToken_Ran) auto
  next
    case False
    with sv1(2) inner show ?thesis by (simp add: h3_def)
  qed
qed

section \<open>The table is consistent\<close>

text \<open>A public route reads no principal, and a bearer route is a read that asks for no capability.\<close>

definition route_ok :: "route \<Rightarrow> bool" where
  "route_ok rt \<longleftrightarrow>
     (if rt_capability rt = '''' then True else rt_pattern rt \<notin> set publicRoutes \<and> \<not> rt_bearer rt)
     \<and> (if rt_bearer rt then rt_pattern rt \<notin> set publicRoutes \<and> take 4 (rt_pattern rt) = ''GET '' else True)
     \<and> (if ByAccount \<in> set (map lm_key (rt_limits rt)) then rt_pattern rt \<notin> set publicRoutes \<and> \<not> rt_bearer rt else True)"

lemmas limit_defs = signInLimits_def inviteLimits_def handleLimits_def recoverLimits_def pushLimits_def choresLimits_def
  limits_of_def

lemma routes_ok: "list_all route_ok routes"
  by code_simp

lemma bearer_routes: "map rt_pattern (filter rt_bearer routes) = [''GET /api/chores'']"
  by code_simp

lemma chores_bearer: "list_all (\<lambda>rt. rt_pattern rt = ''GET /api/chores'' \<longrightarrow> rt_bearer rt) routes"
  by code_simp

lemma credentials_of:
  assumes "rt \<in> set routes"
  shows "credentialsFor routes (rt_pattern rt) =
    (if rt_pattern rt \<in> set publicRoutes then noCredential else if rt_bearer rt then apiToken else sessionCookie)"
proof -
  have bearer: "set (map rt_pattern (filter rt_bearer routes)) = {''GET /api/chores''}" by (simp only: bearer_routes list.set)
  have "rt_pattern rt \<in> set (map rt_pattern (filter rt_bearer routes)) \<longleftrightarrow> rt_bearer rt"
  proof
    assume "rt_pattern rt \<in> set (map rt_pattern (filter rt_bearer routes))"
    then have "rt_pattern rt = ''GET /api/chores''" unfolding bearer by simp
    with chores_bearer assms show "rt_bearer rt" by (simp add: list_all_iff)
  qed (use assms in auto)
  with assms show ?thesis unfolding credentialsFor_def by auto
qed

section \<open>No guard panics\<close>

text \<open>A handler that does not panic for a request with a principal, or for any request.\<close>

definition calm :: "('b, 'r) handler \<Rightarrow> principal option \<Rightarrow> bool" where
  "calm h p \<longleftrightarrow> (\<forall>sv. fst (h p sv) \<noteq> Panicked)"

named_theorems calm_rules \<open>wrappers that keep a handler from panicking\<close>

lemma calm_require [calm_rules]: "calm h (Some a) \<Longrightarrow> calm (require c h) (Some a)"
  by (simp add: calm_def require_def)

lemma calm_requireGarden [calm_rules]: "calm h (Some a) \<Longrightarrow> calm (requireGarden htmx h) (Some a)"
  by (simp add: calm_def requireGarden_def)

lemma calm_requireToken: "(\<And>a. calm h (Some a)) \<Longrightarrow> calm (requireToken hashToken trim rq h) p"
  by (auto simp: calm_def requireToken_def split: sum.split prod.split)

lemma calm_Limit: "calm h p \<Longrightarrow> lm_key lm \<noteq> ByAccount \<or> p \<noteq> None \<Longrightarrow> calm (Limit bk hashToken trim rq lm h) p"
  unfolding calm_def
proof
  fix sv
  assume h: "\<forall>sv. fst (h p sv) \<noteq> Panicked" and key: "lm_key lm \<noteq> ByAccount \<or> p \<noteq> None"
  obtain r sv' where run: "Limit bk hashToken trim rq lm h p sv = (r, sv')" by fastforce
  show "fst (Limit bk hashToken trim rq lm h p sv) \<noteq> Panicked"
    unfolding run fst_conv
  proof (rule Limit_cases [OF run])
    fix sv1
    assume "h p sv1 = (r, sv')"
    with h [rule_format, of sv1] show "r \<noteq> Panicked" by simp
  qed (use key in auto)
qed

lemma calm_Limits:
  "calm h p \<Longrightarrow> ByAccount \<notin> set (map lm_key lms) \<or> p \<noteq> None \<Longrightarrow> calm (foldr (Limit bk hashToken trim rq) lms h) p"
  by (induction lms) (auto intro: calm_Limit)

lemma calm_wrapped:
  assumes "route_ok rt" "rt_pattern rt \<in> set publicRoutes \<or> rt_bearer rt \<or> p \<noteq> None" "\<And>a. calm h a"
  shows "calm (wrapped bk hashToken trim rq rt h) p"
proof -
  define h1 where "h1 = (if rt_capability rt \<noteq> '''' then require (rt_capability rt) h else h)"
  define h2 where "h2 = (if rt_pattern rt \<notin> set publicRoutes \<and> \<not> rt_withoutGarden rt then requireGarden (rq_htmx rq) h1 else h1)"
  define h3 where "h3 = (if rt_bearer rt then requireToken hashToken trim rq h2 else h2)"
  have some: "calm h2 (Some a)" for a
    using assms(3) by (auto simp: h2_def h1_def intro: calm_rules)
  have "calm h2 p" if "rt_pattern rt \<in> set publicRoutes"
    using that assms(1,3) by (auto simp: h2_def h1_def route_ok_def split: if_splits)
  with some assms(2) have "calm h3 p"
    by (cases p) (auto simp: h3_def intro: calm_requireToken)
  moreover have "ByAccount \<notin> set (map lm_key (rt_limits rt)) \<or> p \<noteq> None"
    using assms(1,2) unfolding route_ok_def by (auto split: if_splits)
  ultimately have "calm (foldr (Limit bk hashToken trim rq) (rt_limits rt) h3) p" by (rule calm_Limits)
  then show ?thesis unfolding wrapped_def Let_def h1_def [symmetric] h2_def [symmetric] h3_def [symmetric] .
qed

section \<open>Properties\<close>

text \<open>
  (C3) A handler runs only for a request its route admits, whatever database calls fail: unless the
  route is public it runs for a principal, who holds the route's capability and is in a garden
  where the route asks for either; a cookie route's principal comes from a live session of the
  request's cookie, on a membership that has not ended, and a bearer route's from the token.
\<close>

theorem handlers_run_authorised:
  assumes "people_ok (tables (sv_world sv))" "serve bk hashToken trim s run rq sv = (Ran name p x, sv')"
  shows "\<exists>rt \<in> set routes. rt_pattern rt = rq_pattern rq \<and> rt_handler rt = name \<and> admits rt p
    \<and> (if rt_pattern rt \<in> set publicRoutes then p = None
       else if rt_bearer rt then \<exists>a w. p = Some a \<and> Resolve_token hashToken (rq_now rq) (bearerToken trim rq) (sv_world sv) = (Inr a, w)
       else \<exists>a row w. p = Some a \<and> Resolve_session hashToken s (rq_now rq) (rq_cookie rq) (sv_world sv) = (Inr a, w)
         \<and> live_session s (rq_now rq) (hashToken (rq_cookie rq)) (tables (sv_world sv)) row
         \<and> resolved (tables (sv_world sv)) (tables w) (rq_now rq) (hashToken (rq_cookie rq)) (se_UserID row) a)"
proof -
  obtain rt where rt: "find (\<lambda>rt. rt_pattern rt = rq_pattern rq) routes = Some rt"
    using assms(2) by (auto simp: serve_def Authenticate_def split: option.splits if_splits sum.splits prod.splits)
  then have mem: "rt \<in> set routes" "rt_pattern rt = rq_pattern rq" by (auto simp: find_Some_iff)
  have ok: "route_ok rt" using routes_ok mem(1) by (simp add: list_all_iff)
  let ?h = "wrapped bk hashToken trim rq rt (\<lambda>p sv. case run (rt_handler rt) p sv of (x, sv) \<Rightarrow> (Ran (rt_handler rt) p x, sv))"
  have run: "Authenticate hashToken s (credentialsFor routes) rq ?h None sv = (Ran name p x, sv')"
    using assms(2) rt by (simp add: serve_def)
  note cred = credentials_of [OF mem(1), unfolded mem(2)]
  from run show ?thesis
  proof (rule Authenticate_Ran)
    assume c: "credentialsFor routes (rq_pattern rq) \<noteq> sessionCookie" and h: "?h None sv = (Ran name p x, sv')"
    from wrapped_Ran [OF h] c cred ok mem show ?thesis
      by (intro bexI [OF _ mem(1)]) (auto simp: route_ok_def split: if_splits)
  next
    fix a w
    assume c: "credentialsFor routes (rq_pattern rq) = sessionCookie"
      and r: "Resolve_session hashToken s (rq_now rq) (rq_cookie rq) (sv_world sv) = (Inr a, w)"
      and h: "?h (Some a) (sv\<lparr>sv_world := w\<rparr>) = (Ran name p x, sv')"
    obtain row where "live_session s (rq_now rq) (hashToken (rq_cookie rq)) (tables (sv_world sv)) row"
        "resolved (tables (sv_world sv)) (tables w) (rq_now rq) (hashToken (rq_cookie rq)) (se_UserID row) a"
      using Resolve_session_resolved [OF assms(1) r] by blast
    moreover have "rt_pattern rt \<notin> set publicRoutes" "\<not> rt_bearer rt" using c cred mem(2) by (auto split: if_splits)
    ultimately show ?thesis using wrapped_Ran [OF h] mem r by (intro bexI [OF _ mem(1)]) auto
  qed
qed

definition ex_rq :: request where
  "ex_rq = \<lparr>rq_pattern = ''GET /more/tokens'', rq_cookie = ''t'', rq_Authorization = '''', rq_trustedIP = '''',
     rq_RemoteAddr = '''', rq_remoteHost = None, rq_htmx = False, rq_now = mk_Date 2026 3 2 0 0 0 0 utc\<rparr>"

lemma ex_resolves:
  obtains a w where "Resolve_session ex_hash ex_sessions (rq_now ex_rq) ''t'' ex_request = (Inr a, w)"
    "InGarden a" "Can a ''token.manage''"
proof -
  define now where "now = mk_Date 2026 3 2 0 0 0 0 utc"
  note live = ex_request_live [folded now_def]
  obtain a w where r: "Resolve_session ex_hash ex_sessions now ''t'' ex_request = (Inr a, w)"
    using Resolve_session_ok [where hashToken = ex_hash, OF ex_people_ok(2,1) live] by blast
  obtain row where row: "live_session ex_sessions now (ex_hash ''t'') (tables ex_request) row"
    "resolved (tables ex_request) (tables w) now (ex_hash ''t'') (se_UserID row) a"
    using Resolve_session_resolved [OF ex_people_ok(1) r] by blast
  have "row = ex_session" using row(1) live by (simp add: live_session_def)
  with row(2) have auth: "authorised ex_db now ''u1'' a" by (simp add: resolved_def ex_request_def ex_session_def)
  have "MembershipEnded ex_membership now = False" by (simp add: MembershipEnded_def ex_membership_def)
  with auth have garden: "InGarden a"
    by (auto simp: authorised_def ex_db_def split: if_splits) (simp_all add: ex_membership_def)
  with auth have "Can a ''token.manage'' = role_grants ex_db (me_Role ex_membership) ''token.manage''"
    by (simp add: authorised_def ex_db_def)
  then have "Can a ''token.manage''" by (simp add: role_grants_def ex_db_def ex_membership_def)
  with r garden show thesis by (intro that [of a w]) (simp_all add: ex_rq_def now_def)
qed

theorem handlers_run_authorised_witness:
  "\<exists>a sv'. serve (\<lambda>_. ex_buckets 10 2) ex_hash (\<lambda>x. x) ex_sessions (\<lambda>name p sv. ((), sv)) ex_rq
        \<lparr>sv_world = ex_request, sv_limits = \<lambda>_. ex_limiter\<rparr> = (Ran ''tokensHandler.show'' (Some a) (), sv')
     \<and> Can a ''token.manage'' \<and> (\<exists>rt \<in> set routes. rt_pattern rt = rq_pattern ex_rq \<and> admits rt (Some a))"
proof -
  obtain a w where r: "Resolve_session ex_hash ex_sessions (rq_now ex_rq) ''t'' ex_request = (Inr a, w)"
    "InGarden a" "Can a ''token.manage''" by (rule ex_resolves)
  define rt where "rt = guarded_route ''GET /more/tokens'' ''token.manage'' ''tokensHandler.show''"
  have find: "find (\<lambda>rt. rt_pattern rt = rq_pattern ex_rq) routes = Some rt" unfolding rt_def by code_simp
  then have mem: "rt \<in> set routes" by (auto simp: find_Some_iff)
  have public: "''GET /more/tokens'' \<notin> set publicRoutes" by (simp add: publicRoutes_def)
  have cred: "credentialsFor routes ''GET /more/tokens'' = sessionCookie"
    using credentials_of [OF mem] public by (simp add: rt_def guarded_route_def open_route_def)
  define sv where "sv = \<lparr>sv_world = ex_request, sv_limits = \<lambda>_ :: string. ex_limiter\<rparr>"
  have run: "serve (\<lambda>_. ex_buckets 10 2) ex_hash (\<lambda>x. x) ex_sessions (\<lambda>name p sv. ((), sv)) ex_rq sv
      = (Ran ''tokensHandler.show'' (Some a) (), sv\<lparr>sv_world := w\<rparr>)"
    using r(1)
    unfolding serve_def find option.case
    by (simp add: Authenticate_def ex_rq_def cred sv_def wrapped_def rt_def guarded_route_def open_route_def Let_def
        public require_def requireGarden_def r(2,3))
  have "people_ok (tables (sv_world sv))" using ex_people_ok(1) by (simp add: sv_def)
  from handlers_run_authorised [OF this run]
  have "\<exists>rt \<in> set routes. rt_pattern rt = rq_pattern ex_rq \<and> admits rt (Some a)" by blast
  with run r(3) show ?thesis unfolding sv_def by blast
qed

text \<open>
  (C40) The route table never lets a guard panic: whatever the request and the database, no wrapper
  asks for a principal that was not put on the request, because a public or bearer route asks for
  no capability, no garden before its token, and no budget per account.
\<close>

theorem guards_never_panic: "fst (serve bk hashToken trim s run rq sv) \<noteq> Panicked"
proof (cases "find (\<lambda>rt. rt_pattern rt = rq_pattern rq) routes")
  case None
  then show ?thesis by (auto simp: serve_def Authenticate_def split: sum.split prod.split)
next
  case (Some rt)
  then have mem: "rt \<in> set routes" "rt_pattern rt = rq_pattern rq" by (auto simp: find_Some_iff)
  let ?h = "wrapped bk hashToken trim rq rt (\<lambda>p sv. case run (rt_handler rt) p sv of (x, sv) \<Rightarrow> (Ran (rt_handler rt) p x, sv))"
  have ok: "route_ok rt" using routes_ok mem(1) by (simp add: list_all_iff)
  have calm: "calm ?h p" if "rt_pattern rt \<in> set publicRoutes \<or> rt_bearer rt \<or> p \<noteq> None" for p
    by (rule calm_wrapped [OF ok that]) (simp add: calm_def split: prod.split)
  have "fst (?h (Some a) sv') \<noteq> Panicked" for a sv' using calm [of "Some a"] by (simp add: calm_def)
  moreover have "fst (?h None sv') \<noteq> Panicked" if "credentialsFor routes (rq_pattern rq) \<noteq> sessionCookie" for sv'
    using that calm [of None] credentials_of [OF mem(1)] mem(2) by (simp add: calm_def split: if_splits)
  ultimately show ?thesis using Some by (auto simp: serve_def Authenticate_def split: sum.split prod.split)
qed

end
