(* ===== verification/Store_Passkeys.thy ===== *)
theory Store_Passkeys
  imports Store_People
begin

text \<open>
  The queries on passkeys, on the challenges of a WebAuthn ceremony and on calendar notes:
  \<open>passkey_credential.sql.go\<close>, \<open>webauthn_ceremony.sql.go\<close> and \<open>calendar_note.sql.go\<close> under
  \<open>src/internal/store\<close>.  Deleting a passkey deletes the sessions it signed in.  \<open>LockUser\<close> takes
  a row lock and returns no row of the account, so over the tables it changes nothing.
\<close>

section \<open>passkey_credential.sql.go\<close>

record passkey_params =
  kp_UserID :: uuid
  kp_CredentialID :: string
  kp_Name :: string
  kp_PublicKey :: string
  kp_SignCount :: int
  kp_Flags :: int
  kp_Transports :: "string list"
  kp_Aaguid :: "uuid option"

definition CreatePasskey ::
  "uuid \<Rightarrow> gotime \<Rightarrow> passkey_params \<Rightarrow> db \<Rightarrow> db_error + passkey_credential \<times> db" where
  "CreatePasskey newID created a d =
     (if list_ex (\<lambda>k. pk_CredentialID k = kp_CredentialID a) (t_passkey d) then Inl UniqueViolation
      else if \<not> has_user (kp_UserID a) d then Inl ForeignKeyViolation
      else (let k = \<lparr>pk_ID = newID, pk_UserID = kp_UserID a, pk_CredentialID = kp_CredentialID a,
                     pk_Name = kp_Name a, pk_PublicKey = kp_PublicKey a, pk_SignCount = kp_SignCount a,
                     pk_Flags = kp_Flags a, pk_Transports = kp_Transports a, pk_Aaguid = kp_Aaguid a,
                     pk_CreatedAt = created, pk_LastUsedAt = None\<rparr>
            in Inr (k, d\<lparr>t_passkey := t_passkey d @ [k]\<rparr>)))"

definition drop_passkeys :: "(passkey_credential \<Rightarrow> bool) \<Rightarrow> db \<Rightarrow> db" where
  "drop_passkeys p d =
     (let gone = filter p (t_passkey d)
      in d\<lparr>t_passkey := delete_where p (t_passkey d),
           t_session := delete_where
             (\<lambda>s. list_ex (\<lambda>k. se_UserID s = pk_UserID k \<and> se_PasskeyCredentialID s = Some (pk_ID k)) gone)
             (t_session d)\<rparr>)"

text \<open>The subselect: the account's last passkey is not deleted.\<close>

definition DeletePasskey :: "uuid \<Rightarrow> uuid \<Rightarrow> db \<Rightarrow> db_error + int \<times> db" where
  "DeletePasskey user passkeyID d =
     (let p = (\<lambda>k. pk_UserID k = user \<and> pk_ID k = passkeyID
                   \<and> 1 < count_where (\<lambda>held. pk_UserID held = pk_UserID k) (t_passkey d))
      in Inr (count_where p (t_passkey d), drop_passkeys p d))"

definition DeleteUserPasskeys :: "uuid \<Rightarrow> db \<Rightarrow> db_error + unit \<times> db" where
  "DeleteUserPasskeys user d = Inr ((), drop_passkeys (\<lambda>k. pk_UserID k = user) d)"

definition GetPasskeyByCredentialID :: "string \<Rightarrow> db \<Rightarrow> db_error + passkey_credential \<times> app_user" where
  "GetPasskeyByCredentialID credentialID d =
     one_row [(k, u). k \<leftarrow> t_passkey d, u \<leftarrow> t_app_user d, us_ID u = pk_UserID k,
                      pk_CredentialID k = credentialID]"

definition ListPasskeys :: "uuid \<Rightarrow> db \<Rightarrow> db_error + passkey_credential list" where
  "ListPasskeys user d =
     Inr (SortStableFunc (by_time_id pk_CreatedAt pk_ID) (filter (\<lambda>k. pk_UserID k = user) (t_passkey d)))"

definition LockUser :: "uuid \<Rightarrow> db \<Rightarrow> db_error + unit" where
  "LockUser user d = Inr ()"

definition advances :: "int \<Rightarrow> int \<Rightarrow> bool" where
  "advances stored returned \<longleftrightarrow> stored < returned \<or> stored = 0 \<and> returned = 0"

definition RecordPasskeyUse :: "int \<Rightarrow> gotime option \<Rightarrow> uuid \<Rightarrow> db \<Rightarrow> db_error + int \<times> db" where
  "RecordPasskeyUse signCount usedAt passkeyID d =
     (let p = (\<lambda>k. pk_ID k = passkeyID \<and> advances (pk_SignCount k) signCount)
      in Inr (count_where p (t_passkey d),
              d\<lparr>t_passkey := update_where p (\<lambda>k. k\<lparr>pk_SignCount := signCount, pk_LastUsedAt := usedAt\<rparr>)
                  (t_passkey d)\<rparr>))"

section \<open>webauthn_ceremony.sql.go\<close>

definition CreateCeremony ::
  "uuid \<Rightarrow> gotime \<Rightarrow> string \<Rightarrow> uuid option \<Rightarrow> string \<Rightarrow> gotime \<Rightarrow> db \<Rightarrow> db_error + webauthn_ceremony \<times> db" where
  "CreateCeremony newID created tokenHash user session expiresAt d =
     (if list_ex (\<lambda>c. wc_TokenHash c = tokenHash) (t_ceremony d) then Inl UniqueViolation
      else if (case user of None \<Rightarrow> False | Some u \<Rightarrow> \<not> has_user u d) then Inl ForeignKeyViolation
      else (let c = \<lparr>wc_ID = newID, wc_TokenHash = tokenHash, wc_UserID = user, wc_Session = session,
                     wc_CreatedAt = created, wc_ExpiresAt = expiresAt\<rparr>
            in Inr (c, d\<lparr>t_ceremony := t_ceremony d @ [c]\<rparr>)))"

definition DeleteExpiredCeremonies :: "gotime \<Rightarrow> db \<Rightarrow> db_error + unit \<times> db" where
  "DeleteExpiredCeremonies now d =
     Inr ((), d\<lparr>t_ceremony := delete_where (\<lambda>c. \<not> After (wc_ExpiresAt c) now) (t_ceremony d)\<rparr>)"

definition DeleteUserCeremonies :: "uuid \<Rightarrow> db \<Rightarrow> db_error + unit \<times> db" where
  "DeleteUserCeremonies user d =
     Inr ((), d\<lparr>t_ceremony := delete_where (\<lambda>c. wc_UserID c = Some user) (t_ceremony d)\<rparr>)"

definition TakeCeremony :: "string \<Rightarrow> gotime \<Rightarrow> db \<Rightarrow> db_error + webauthn_ceremony \<times> db" where
  "TakeCeremony tokenHash now d =
     (case delete_returning (\<lambda>c. wc_TokenHash c = tokenHash \<and> After (wc_ExpiresAt c) now) (t_ceremony d) of
        Inl e \<Rightarrow> Inl e
      | Inr (c, cs) \<Rightarrow> Inr (c, d\<lparr>t_ceremony := cs\<rparr>))"

section \<open>calendar_note.sql.go\<close>

text \<open>\<open>starts_on\<close> and \<open>ends_on\<close> are dates: of a posted instant Postgres keeps the calendar day, and
  a read gives that day's midnight in UTC.\<close>

definition date_column :: "gotime \<Rightarrow> gotime" where
  "date_column t = (case Date_of t of (y, m, d) \<Rightarrow> mk_Date y m d 0 0 0 0 utc)"

definition CreateCalendarNote ::
  "uuid \<Rightarrow> gotime \<Rightarrow> uuid \<Rightarrow> gotime \<Rightarrow> gotime \<Rightarrow> string \<Rightarrow> uuid \<Rightarrow> db \<Rightarrow> db_error + calendar_note \<times> db" where
  "CreateCalendarNote newID created garden startsOn endsOn text createdBy d =
     (if \<not> has_garden garden d \<or> \<not> has_user createdBy d then Inl ForeignKeyViolation
      else (let n = \<lparr>cn_ID = newID, cn_GardenID = garden, cn_StartsOn = date_column startsOn,
                     cn_EndsOn = date_column endsOn, cn_Text = text, cn_CreatedBy = createdBy, cn_CreatedAt = created\<rparr>
            in Inr (n, d\<lparr>t_calendar_note := t_calendar_note d @ [n]\<rparr>)))"

definition DeleteCalendarNote :: "uuid \<Rightarrow> uuid \<Rightarrow> db \<Rightarrow> db_error + uuid \<times> db" where
  "DeleteCalendarNote garden noteID d =
     (case delete_returning (\<lambda>n. cn_GardenID n = garden \<and> cn_ID n = noteID) (t_calendar_note d) of
        Inl e \<Rightarrow> Inl e
      | Inr (n, ns) \<Rightarrow> Inr (cn_ID n, d\<lparr>t_calendar_note := ns\<rparr>))"

definition GetCalendarNote :: "uuid \<Rightarrow> uuid \<Rightarrow> db \<Rightarrow> db_error + calendar_note" where
  "GetCalendarNote garden noteID d =
     one_row (filter (\<lambda>n. cn_GardenID n = garden \<and> cn_ID n = noteID) (t_calendar_note d))"

text \<open>Dates of the column are compared by their day.\<close>

definition ListCalendarNotesBetween :: "uuid \<Rightarrow> gotime \<Rightarrow> gotime \<Rightarrow> db \<Rightarrow> db_error + calendar_note list" where
  "ListCalendarNotesBetween garden until since d =
     Inr (SortStableFunc
            (\<lambda>a b. cmp_Or (cmp_Compare (nsec (cn_StartsOn a)) (nsec (cn_StartsOn b))) (by_time_id cn_CreatedAt cn_ID a b))
            (filter (\<lambda>n. cn_GardenID n = garden \<and> \<not> After (cn_StartsOn n) (date_column until)
                         \<and> \<not> Before (cn_EndsOn n) (date_column since)) (t_calendar_note d)))"

definition UpdateCalendarNote ::
  "gotime \<Rightarrow> gotime \<Rightarrow> string \<Rightarrow> uuid \<Rightarrow> uuid \<Rightarrow> db \<Rightarrow> db_error + calendar_note \<times> db" where
  "UpdateCalendarNote startsOn endsOn text garden noteID d =
     (case update_returning (\<lambda>n. cn_GardenID n = garden \<and> cn_ID n = noteID)
             (\<lambda>n. n\<lparr>cn_StartsOn := date_column startsOn, cn_EndsOn := date_column endsOn, cn_Text := text\<rparr>)
             (t_calendar_note d) of
        Inl e \<Rightarrow> Inl e
      | Inr (n, ns) \<Rightarrow> Inr (n, d\<lparr>t_calendar_note := ns\<rparr>))"

end
