(* ===== verification/Store_Calls.thy ===== *)
theory Store_Calls
  imports Http_Request
begin

text \<open>
  Code that calls the store several times and gives up at the first error: the calls as functions
  of the \<open>world\<close> that return an error or a value, chained by \<open>and_then\<close>, and what is proved of such
  code: \<open>triple P m Q E\<close>, from tables with \<open>P\<close> a run of \<open>m\<close> ends in \<open>Q\<close> of its value or in \<open>E\<close> of its
  error.  \<open>ends\<close> says the same of a handler, which always has an answer.  The rules are in
  \<open>call_rules\<close>.
\<close>

type_synonym ('e, 'a) call = "world \<Rightarrow> ('e + 'a) \<times> world"

definition return :: "'a \<Rightarrow> ('e, 'a) call" where
  "return x w = (Inr x, w)"

definition fail :: "'e \<Rightarrow> ('e, 'a) call" where
  "fail e w = (Inl e, w)"

definition and_then :: "('e, 'a) call \<Rightarrow> ('a \<Rightarrow> ('e, 'b) call) \<Rightarrow> ('e, 'b) call" where
  "and_then m k w = (case m w of (Inl e, w) \<Rightarrow> (Inl e, w) | (Inr x, w) \<Rightarrow> k x w)"

definition on_error :: "('d \<Rightarrow> 'e) \<Rightarrow> ('d, 'a) call \<Rightarrow> ('e, 'a) call" where
  "on_error f m w = (case m w of (Inl e, w) \<Rightarrow> (Inl (f e), w) | (Inr x, w) \<Rightarrow> (Inr x, w))"

text \<open>A handler's call: an error ends the handler with an answer.\<close>

definition answering :: "('e, 'a) call \<Rightarrow> ('e \<Rightarrow> 'r) \<Rightarrow> ('a \<Rightarrow> world \<Rightarrow> 'r \<times> world) \<Rightarrow> world \<Rightarrow> 'r \<times> world" where
  "answering m failed k w = (case m w of (Inl e, w) \<Rightarrow> (failed e, w) | (Inr x, w) \<Rightarrow> k x w)"

text \<open>A query whose missing row is not an error.\<close>

definition optional :: "(db_error, 'a) call \<Rightarrow> (db_error, 'a option) call" where
  "optional m w =
     (case m w of
        (Inl e, w) \<Rightarrow> if e = NoRows then (Inr None, w) else (Inl e, w)
      | (Inr x, w) \<Rightarrow> (Inr (Some x), w))"

text \<open>A loop that stops at the first error.\<close>

fun each :: "('a \<Rightarrow> ('e, unit) call) \<Rightarrow> 'a list \<Rightarrow> ('e, unit) call" where
  "each f [] = return ()"
| "each f (x # xs) = and_then (f x) (\<lambda>_. each f xs)"

section \<open>What a run guarantees\<close>

definition triple :: "(db \<Rightarrow> bool) \<Rightarrow> ('e, 'a) call \<Rightarrow> ('a \<Rightarrow> db \<Rightarrow> bool) \<Rightarrow> ('e \<Rightarrow> db \<Rightarrow> bool) \<Rightarrow> bool" where
  "triple P m Q E \<longleftrightarrow>
     (\<forall>w. P (tables w) \<longrightarrow> (case m w of (Inl e, w') \<Rightarrow> E e (tables w') | (Inr x, w') \<Rightarrow> Q x (tables w')))"

definition ends :: "(db \<Rightarrow> bool) \<Rightarrow> (world \<Rightarrow> 'r \<times> world) \<Rightarrow> ('r \<Rightarrow> db \<Rightarrow> bool) \<Rightarrow> bool" where
  "ends P m R \<longleftrightarrow> (\<forall>w. P (tables w) \<longrightarrow> (case m w of (r, w') \<Rightarrow> R r (tables w')))"

named_theorems call_rules \<open>how the calls of a run compose\<close>

lemma triple_return [call_rules]: "(\<And>d. P d \<Longrightarrow> Q x d) \<Longrightarrow> triple P (return x) Q E"
  by (simp add: triple_def return_def)

lemma triple_fail [call_rules]: "(\<And>d. P d \<Longrightarrow> E e d) \<Longrightarrow> triple P (fail e) Q E"
  by (simp add: triple_def fail_def)

lemma triple_and_then [call_rules]:
  assumes "triple P m Q E" "\<And>x. triple (Q x) (k x) R E"
  shows "triple P (and_then m k) R E"
  using assms unfolding triple_def and_then_def by (fastforce split: prod.splits sum.splits)

lemma triple_on_error [call_rules]:
  "triple P m Q (\<lambda>e. E (f e)) \<Longrightarrow> triple P (on_error f m) Q E"
  unfolding triple_def on_error_def by (fastforce split: prod.splits sum.splits)

lemma triple_reading [call_rules]:
  assumes "\<And>e d. P d \<Longrightarrow> e = Failure \<or> query d = Inl e \<Longrightarrow> E e d" "\<And>x d. P d \<Longrightarrow> query d = Inr x \<Longrightarrow> Q x d"
  shows "triple P (reading query) Q E"
  unfolding triple_def
proof (intro allI impI)
  fix w :: world
  assume "P (tables w)"
  moreover obtain b w0 where "next_fault w = (b, w0)" by fastforce
  moreover from this have "tables w0 = tables w" using next_fault_tables [of w] by simp
  ultimately show "case reading query w of (Inl e, w') \<Rightarrow> E e (tables w') | (Inr x, w') \<Rightarrow> Q x (tables w')"
    using assms by (cases "query (tables w)") (auto simp: reading_def)
qed

lemma triple_writing [call_rules]:
  assumes "\<And>e d. P d \<Longrightarrow> e = Failure \<or> query d = Inl e \<Longrightarrow> E e d" "\<And>x d d'. P d \<Longrightarrow> query d = Inr (x, d') \<Longrightarrow> Q x d'"
  shows "triple P (writing query) Q E"
  unfolding triple_def
proof (intro allI impI)
  fix w :: world
  assume "P (tables w)"
  moreover obtain b w0 where "next_fault w = (b, w0)" by fastforce
  moreover from this have "tables w0 = tables w" using next_fault_tables [of w] by simp
  ultimately show "case writing query w of (Inl e, w') \<Rightarrow> E e (tables w') | (Inr x, w') \<Rightarrow> Q x (tables w')"
    using assms by (cases "query (tables w)") (auto simp: writing_def)
qed

lemma triple_optional [call_rules]:
  assumes "triple P m (\<lambda>x. Q (Some x)) (\<lambda>e d. if e = NoRows then Q None d else E e d)"
  shows "triple P (optional m) Q E"
  using assms unfolding triple_def optional_def by (fastforce split: prod.splits sum.splits if_splits)

text \<open>A transaction that fails leaves the tables it found.\<close>

lemma triple_InTx [call_rules]:
  assumes "triple P m Q (\<lambda>e d. F e)" "\<And>e d. P d \<Longrightarrow> e = failure \<or> F e \<Longrightarrow> E e d"
  shows "triple P (InTx m failure) Q E"
  unfolding triple_def
proof (intro allI impI)
  fix w :: world
  assume P: "P (tables w)"
  obtain b w0 where f: "next_fault w = (b, w0)" by fastforce
  then have t: "tables w0 = tables w" using next_fault_tables [of w] by simp
  obtain r w1 where m: "m w0 = (r, w1)" by fastforce
  obtain c w2 where f1: "next_fault w1 = (c, w2)" by fastforce
  then have t1: "tables w2 = tables w1" using next_fault_tables [of w1] by simp
  have "case r of Inl e \<Rightarrow> F e | Inr x \<Rightarrow> Q x (tables w1)"
    using assms(1) P t m unfolding triple_def by (metis (no_types, lifting) case_prod_conv sum.case_eq_if)
  then show "case InTx m failure w of (Inl e, w') \<Rightarrow> E e (tables w') | (Inr x, w') \<Rightarrow> Q x (tables w')"
    using assms(2) P t t1 f f1 m by (cases r) (auto simp: InTx_def)
qed

lemma triple_branches [call_rules]:
  "(c \<Longrightarrow> triple P m Q E) \<Longrightarrow> (\<not> c \<Longrightarrow> triple P n Q E) \<Longrightarrow> triple P (if c then m else n) Q E"
  "(v = None \<Longrightarrow> triple P m Q E) \<Longrightarrow> (\<And>x. v = Some x \<Longrightarrow> triple P (h x) Q E) \<Longrightarrow>
     triple P (case v of None \<Rightarrow> m | Some x \<Rightarrow> h x) Q E"
  "(\<And>x. s = Inl x \<Longrightarrow> triple P (hl x) Q E) \<Longrightarrow> (\<And>x. s = Inr x \<Longrightarrow> triple P (hr x) Q E) \<Longrightarrow>
     triple P (case s of Inl x \<Rightarrow> hl x | Inr x \<Rightarrow> hr x) Q E"
  "(\<And>x y. p = (x, y) \<Longrightarrow> triple P (g x y) Q E) \<Longrightarrow> triple P (case p of (x, y) \<Rightarrow> g x y) Q E"
  by ((cases c; simp), (cases v; simp), (cases s; simp), (cases p; simp))

lemma triple_mono:
  "triple P m Q E \<Longrightarrow> (\<And>d. P' d \<Longrightarrow> P d) \<Longrightarrow> (\<And>x d. Q x d \<Longrightarrow> Q' x d) \<Longrightarrow> (\<And>e d. E e d \<Longrightarrow> E' e d) \<Longrightarrow>
     triple P' m Q' E'"
  unfolding triple_def by (fastforce split: prod.splits sum.splits)

lemma triple_each:
  assumes "\<And>x. x \<in> set xs \<Longrightarrow> triple I (f x) (\<lambda>_. I) E"
  shows "triple I (each f xs) (\<lambda>_. I) E"
  using assms by (induction xs) (auto intro!: call_rules)

lemma tripleD:
  assumes "triple P m Q E" "P (tables w)"
  shows "m w = (Inr x, w') \<Longrightarrow> Q x (tables w')" "m w = (Inl e, w') \<Longrightarrow> E e (tables w')"
  using assms unfolding triple_def by fastforce+

lemma ends_answer [call_rules]: "(\<And>d. P d \<Longrightarrow> R r d) \<Longrightarrow> ends P (\<lambda>w. (r, w)) R"
  by (simp add: ends_def)

lemma ends_answering [call_rules]:
  assumes "triple P m Q E" "\<And>e d. E e d \<Longrightarrow> R (failed e) d" "\<And>x. ends (Q x) (k x) R"
  shows "ends P (answering m failed k) R"
  using assms unfolding triple_def ends_def answering_def by (fastforce split: prod.splits sum.splits)

lemma read_or_answering: "read_or query failed k = answering (reading query) failed k"
  by (simp add: fun_eq_iff read_or_def answering_def)

lemma write_or_answering: "write_or query failed k = answering (writing query) failed k"
  by (simp add: fun_eq_iff write_or_def answering_def)

lemma ends_read [call_rules]:
  assumes "\<And>e d. P d \<Longrightarrow> R (failed e) d" "\<And>x. ends (\<lambda>d. P d \<and> query d = Inr x) (k x) R"
  shows "ends P (read_or query failed k) R"
  unfolding read_or_answering
  by (rule ends_answering [where E = "\<lambda>e. P" and Q = "\<lambda>x d. P d \<and> query d = Inr x"])
     (auto intro!: call_rules assms)

lemma ends_branches [call_rules]:
  "(c \<Longrightarrow> ends P m R) \<Longrightarrow> (\<not> c \<Longrightarrow> ends P n R) \<Longrightarrow> ends P (if c then m else n) R"
  "(v = None \<Longrightarrow> ends P m R) \<Longrightarrow> (\<And>x. v = Some x \<Longrightarrow> ends P (h x) R) \<Longrightarrow>
     ends P (case v of None \<Rightarrow> m | Some x \<Rightarrow> h x) R"
  "(\<And>x. s = Inl x \<Longrightarrow> ends P (hl x) R) \<Longrightarrow> (\<And>x. s = Inr x \<Longrightarrow> ends P (hr x) R) \<Longrightarrow>
     ends P (case s of Inl x \<Rightarrow> hl x | Inr x \<Rightarrow> hr x) R"
  "(\<And>x y. p = (x, y) \<Longrightarrow> ends P (g x y) R) \<Longrightarrow> ends P (case p of (x, y) \<Rightarrow> g x y) R"
  by ((cases c; simp), (cases v; simp), (cases s; simp), (cases p; simp))

lemma ends_mono: "ends P m R \<Longrightarrow> (\<And>d. P' d \<Longrightarrow> P d) \<Longrightarrow> (\<And>r d. R r d \<Longrightarrow> R' r d) \<Longrightarrow> ends P' m R'"
  unfolding ends_def by (fastforce split: prod.splits)

lemma endsD: "ends P m R \<Longrightarrow> P (tables w) \<Longrightarrow> m w = (r, w') \<Longrightarrow> R r (tables w')"
  unfolding ends_def by fastforce

lemma ends_run: "ends (\<lambda>d. d = tables w) m R \<Longrightarrow> case m w of (r, w') \<Rightarrow> R r (tables w')"
  by (simp add: ends_def)

text \<open>It is enough to start from one table at a time.\<close>

lemma ends_pointwise: "(\<And>d0. P d0 \<Longrightarrow> ends (\<lambda>d. d = d0) m R) \<Longrightarrow> ends P m R"
  by (simp add: ends_def)

lemma triple_pointwise: "(\<And>d0. P d0 \<Longrightarrow> triple (\<lambda>d. d = d0) m Q E) \<Longrightarrow> triple P m Q E"
  by (simp add: triple_def)

lemma triple_conj:
  "triple P m Q E \<Longrightarrow> triple P m Q' E' \<Longrightarrow> triple P m (\<lambda>x d. Q x d \<and> Q' x d) (\<lambda>e d. E e d \<and> E' e d)"
  unfolding triple_def by (fastforce split: prod.splits sum.splits)

lemma and_then_Inr:
  assumes "and_then m k w = (Inr y, w')"
  obtains x w1 where "m w = (Inr x, w1)" "k x w1 = (Inr y, w')"
  using assms by (auto simp: and_then_def split: prod.splits sum.splits)

lemma on_error_Inr: "on_error f m w = (Inr x, w') \<longleftrightarrow> m w = (Inr x, w')"
  by (auto simp: on_error_def split: prod.splits sum.splits)

end
