(* ===== verification/Go_Base64.thy ===== *)
theory Go_Base64
  imports Go_Text
begin

text \<open>
  \<open>base64.RawURLEncoding\<close> of the standard library: the URL alphabet without padding.  Decoding
  skips carriage returns and newlines and ignores the bits left over in the last character.
\<close>

definition base64_alphabet :: string where
  "base64_alphabet = ''ABCDEFGHIJKLMNOPQRSTUVWXYZabcdefghijklmnopqrstuvwxyz0123456789-_''"

fun sextets :: "nat list \<Rightarrow> nat list" where
  "sextets [] = []"
| "sextets [a] = [a div 4, a mod 4 * 16]"
| "sextets [a, b] = [a div 4, a mod 4 * 16 + b div 16, b mod 16 * 4]"
| "sextets (a # b # c # rest) =
     a div 4 # (a mod 4 * 16 + b div 16) # (b mod 16 * 4 + c div 64) # c mod 64 # sextets rest"

fun octets :: "nat list \<Rightarrow> nat list option" where
  "octets [] = Some []"
| "octets [x] = None"
| "octets [x, y] = Some [x * 4 + y div 16]"
| "octets [x, y, z] = Some [x * 4 + y div 16, y mod 16 * 16 + z div 4]"
| "octets (x # y # z # v # rest) =
     map_option (\<lambda>bs. (x * 4 + y div 16) # (y mod 16 * 16 + z div 4) # (z mod 4 * 64 + v) # bs) (octets rest)"

fun positions :: "string \<Rightarrow> nat list option" where
  "positions [] = Some []"
| "positions (c # cs) =
     (if c \<in> set base64_alphabet
      then map_option ((#) (length (takeWhile (\<lambda>a. a \<noteq> c) base64_alphabet))) (positions cs)
      else None)"

definition EncodeToString :: "string \<Rightarrow> string" where
  "EncodeToString bytes = map (\<lambda>k. base64_alphabet ! k) (sextets (map of_char bytes))"

definition DecodeString :: "string \<Rightarrow> string option" where
  "DecodeString s =
     (case positions (filter (\<lambda>c. c \<noteq> CHR 0x0D \<and> c \<noteq> CHR 0x0A) s) of
        None \<Rightarrow> None
      | Some ks \<Rightarrow> map_option (map char_of) (octets ks))"

lemma base64_alphabet_facts:
  "length base64_alphabet = 64" "distinct base64_alphabet"
  "CHR 0x0D \<notin> set base64_alphabet" "CHR 0x0A \<notin> set base64_alphabet"
  by (simp_all add: base64_alphabet_def)

lemma byte_parts: "(b::nat) < 256 \<Longrightarrow> b div 16 < 16" "(b::nat) < 256 \<Longrightarrow> b div 64 < 4" "(b::nat) < 256 \<Longrightarrow> b div 4 < 64"
  by (simp_all add: div_less_iff_less_mult)

lemma octets_sextets: "\<forall>b \<in> set bs. b < 256 \<Longrightarrow> octets (sextets bs) = Some bs"
proof (induction bs rule: sextets.induct)
  case (2 a)
  have "a div 4 * 4 + a mod 4 * 16 div 16 = a" by simp
  then show ?case by simp
next
  case (3 a b)
  then have b: "b div 16 < 16" by (simp add: byte_parts)
  have "(a mod 4 * 16 + b div 16) div 16 = a mod 4" "(a mod 4 * 16 + b div 16) mod 16 = b div 16"
    using b by simp_all
  then show ?case by simp
next
  case (4 a b c rest)
  then have b: "b div 16 < 16" and c: "c div 64 < 4" by (simp_all add: byte_parts)
  have "(a mod 4 * 16 + b div 16) div 16 = a mod 4" "(a mod 4 * 16 + b div 16) mod 16 = b div 16"
    "(b mod 16 * 4 + c div 64) div 4 = b mod 16" "(b mod 16 * 4 + c div 64) mod 4 = c div 64"
    using b c by simp_all
  with 4 show ?case by simp
qed simp

lemma sextets_below: "\<forall>b \<in> set bs. b < 256 \<Longrightarrow> \<forall>k \<in> set (sextets bs). k < 64"
proof (induction bs rule: sextets.induct)
  case (4 a b c rest)
  have "b div 16 < 16" "c div 64 < 4" "a div 4 < 64" using 4 by (simp_all add: byte_parts)
  moreover have "a mod 4 < 4" "b mod 16 < 16" by simp_all
  ultimately have "a mod 4 * 16 + b div 16 < 64" "b mod 16 * 4 + c div 64 < 64" by linarith+
  with 4 \<open>a div 4 < 64\<close> show ?case by simp
next
  case (3 a b)
  have "b div 16 < 16" "a div 4 < 64" using 3 by (simp_all add: byte_parts)
  moreover have "a mod 4 < 4" "b mod 16 < 16" by simp_all
  ultimately have "a mod 4 * 16 + b div 16 < 64" "b mod 16 * 4 < 64" by linarith+
  with \<open>a div 4 < 64\<close> show ?case by simp
next
  case (2 a)
  have "a mod 4 < 4" by simp
  then have "a mod 4 * 16 < 64" by linarith
  with 2 show ?case by simp
qed simp

lemma position_nth:
  assumes "distinct xs" "k < length xs"
  shows "length (takeWhile (\<lambda>a. a \<noteq> xs ! k) xs) = k"
proof -
  have "takeWhile (\<lambda>a. a \<noteq> xs ! k) xs = take k xs"
    using assms by (intro takeWhile_eq_take_P_nth) (auto simp: nth_eq_iff_index_eq)
  with assms(2) show ?thesis by simp
qed

lemma positions_encoded: "\<forall>k \<in> set ks. k < 64 \<Longrightarrow> positions (map (\<lambda>k. base64_alphabet ! k) ks) = Some ks"
  by (induction ks) (auto simp: base64_alphabet_facts position_nth)

lemma DecodeString_EncodeToString: "DecodeString (EncodeToString bytes) = Some bytes"
proof -
  let ?bs = "map of_char bytes :: nat list"
  have small: "\<forall>b \<in> set ?bs. b < 256" by simp
  have "c \<noteq> CHR 0x0D \<and> c \<noteq> CHR 0x0A" if "c \<in> set (EncodeToString bytes)" for c
  proof -
    from that obtain k where "k \<in> set (sextets ?bs)" "c = base64_alphabet ! k" by (auto simp: EncodeToString_def)
    then have "c \<in> set base64_alphabet" using sextets_below [OF small] by (auto simp: base64_alphabet_facts)
    then show ?thesis using base64_alphabet_facts(3,4) by auto
  qed
  then have "filter (\<lambda>c. c \<noteq> CHR 0x0D \<and> c \<noteq> CHR 0x0A) (EncodeToString bytes) = EncodeToString bytes"
    by (simp add: filter_id_conv)
  then show ?thesis
    using positions_encoded [OF sextets_below [OF small]] octets_sextets [OF small]
    by (simp add: DecodeString_def EncodeToString_def comp_def)
qed

end
