(* ===== verification/Auth_Passkey.thy ===== *)
theory Auth_Passkey
  imports Auth_Principal Store_Passkeys Store_Calls Go_Base64 "HOL-Library.Word"
begin

text \<open>
  The two WebAuthn ceremonies, registering a device and signing in: \<open>src/internal/auth/passkey.go\<close>.
  The library go-webauthn is a parameter, the record \<open>webauthn\<close>: what it makes of an account, of a
  stored session and of the browser's answer.  \<open>ValidateDiscoverableLogin\<close> calls back for the
  credential the answer names, so it is two functions, what it asks for and what it says of the
  account it is given.  JSON encoding of its session data is part of the record; tokens drawn and
  ids the database fills in are arguments.  Byte slices are strings.
\<close>

section \<open>What go-webauthn is given and gives\<close>

record credential =
  cr_ID :: string
  cr_PublicKey :: string
  cr_Flags :: "8 word"
  cr_SignCount :: "32 word"
  cr_Transport :: "string list"

record webauthn_account =
  wu_ID :: string
  wu_Name :: string
  wu_DisplayName :: string
  wu_Credentials :: "credential list"

record new_credential =
  nc_ID :: string
  nc_PublicKey :: string
  nc_SignCount :: "32 word"
  nc_Flags :: "8 word"
  nc_Transport :: "string list"
  nc_AAGUID :: string
  nc_RK :: "bool option"

datatype registration_option =
    Authenticator_selection string bool string
  | Cred_props
  | Exclusions "credential list"

datatype webauthn_failure = Protocol_error | Other_error

record ('s, 'c, 'a, 'o) webauthn =
  wa_BeginRegistration :: "webauthn_account \<Rightarrow> registration_option list \<Rightarrow> ('o \<times> 's) option"
  wa_BeginLogin :: "string \<Rightarrow> ('o \<times> 's) option"
  wa_Marshal :: "'s \<Rightarrow> string option"
  wa_Unmarshal :: "string \<Rightarrow> 's option"
  wa_SessionUserID :: "'s \<Rightarrow> string"
  wa_ParseCreation :: "string \<Rightarrow> 'c option"
  wa_CreationVerified :: "'c \<Rightarrow> bool"
  wa_CreateCredential :: "webauthn_account \<Rightarrow> 's \<Rightarrow> 'c \<Rightarrow> webauthn_failure + new_credential"
  wa_ParseAssertion :: "string \<Rightarrow> 'a option"
  wa_AssertionVerified :: "'a \<Rightarrow> bool"
  wa_Counter :: "'a \<Rightarrow> 32 word"
  wa_Asked :: "'s \<Rightarrow> 'a \<Rightarrow> webauthn_failure + string"
  wa_Validate :: "'s \<Rightarrow> 'a \<Rightarrow> webauthn_account \<Rightarrow> webauthn_failure option"

datatype passkey_error =
    ErrCeremonyGone
  | ErrNotVerified
  | ErrNotDiscoverable
  | ErrUnknownCredential
  | ErrAlreadyRegistered
  | ErrBadCredential
  | ErrClonedCredential uuid uuid
  | ErrFailedVerification
  | Passkey_store db_error
  | Passkey_other

section \<open>Columns and their values in WebAuthn\<close>

definition ceremonyLife :: int where "ceremonyLife = 5 * minute_ns"

definition ceremonyCookieName :: "bool \<Rightarrow> string" where
  "ceremonyCookieName secure = (if secure then ''__Host-sprig_ceremony'' else ''sprig_ceremony'')"

record passkeys =
  pa_cookieName :: string
  pa_secure :: bool

definition NewPasskeys :: "cookie_settings \<Rightarrow> passkeys" where
  "NewPasskeys cookie = \<lparr>pa_cookieName = ceremonyCookieName (co_Secure cookie), pa_secure = co_Secure cookie\<rparr>"

text \<open>A \<open>uuid.UUID\<close> is 16 bytes; the model holds its canonical text.\<close>

definition hex_text :: "string \<Rightarrow> string" where
  "hex_text bytes = concat (map (\<lambda>c. [hex_digit (of_char c div 16), hex_digit (of_char c mod 16)]) bytes)"

definition uuid_of_bytes :: "string \<Rightarrow> uuid" where
  "uuid_of_bytes bytes =
     (let h = hex_text bytes
      in take 8 h @ ''-'' @ take 4 (drop 8 h) @ ''-'' @ take 4 (drop 12 h) @ ''-'' @ take 4 (drop 16 h)
         @ ''-'' @ drop 20 h)"

definition hex_value :: "char \<Rightarrow> nat" where
  "hex_value c = length (takeWhile (\<lambda>a. a \<noteq> c) ''0123456789abcdef'')"

fun hex_bytes :: "string \<Rightarrow> string" where
  "hex_bytes (a # b # rest) = char_of (hex_value a * 16 + hex_value b) # hex_bytes rest"
| "hex_bytes _ = ''''"

definition uuid_bytes :: "uuid \<Rightarrow> string" where
  "uuid_bytes u = hex_bytes (filter (\<lambda>c. c \<noteq> CHR ''-'') u)"

definition aaguidOf :: "string \<Rightarrow> uuid option" where
  "aaguidOf raw =
     (if length raw \<noteq> 16 then None
      else (let i = uuid_of_bytes raw in if i = nil_uuid then None else Some i))"

definition Cloned :: "32 word \<Rightarrow> 32 word \<Rightarrow> bool" where
  "Cloned stored returned = (if stored = 0 \<and> returned = 0 then False else returned \<le> stored)"

definition storedCount :: "int \<Rightarrow> 32 word" where
  "storedCount n = (if n < 0 \<or> 2 ^ 32 - 1 < n then - 1 else word_of_int n)"

definition storedFlags :: "int \<Rightarrow> 8 word" where
  "storedFlags flags = (if flags < 0 \<or> 255 < flags then 0 else word_of_int flags)"

definition storedCredential :: "passkey_credential \<Rightarrow> credential option" where
  "storedCredential row =
     (case DecodeString (pk_CredentialID row) of
        None \<Rightarrow> None
      | Some i \<Rightarrow> Some \<lparr>cr_ID = i, cr_PublicKey = pk_PublicKey row, cr_Flags = storedFlags (pk_Flags row),
          cr_SignCount = storedCount (pk_SignCount row), cr_Transport = pk_Transports row\<rparr>)"

text \<open>A row whose id does not decode is left out.\<close>

definition WebAuthnCredentials :: "passkey_credential list \<Rightarrow> credential list" where
  "WebAuthnCredentials held = List.map_filter storedCredential held"

definition webauthnUser :: "app_user \<Rightarrow> passkey_credential list \<Rightarrow> webauthn_account" where
  "webauthnUser user held =
     \<lparr>wu_ID = uuid_bytes (us_ID user), wu_Name = us_Handle user, wu_DisplayName = us_DisplayName user,
      wu_Credentials = WebAuthnCredentials held\<rparr>"

definition verificationFailure :: "webauthn_failure \<Rightarrow> passkey_error" where
  "verificationFailure f = (case f of Protocol_error \<Rightarrow> ErrFailedVerification | Other_error \<Rightarrow> Passkey_other)"

section \<open>The ceremony row\<close>

definition ceremonyCookie :: "passkeys \<Rightarrow> string \<Rightarrow> http_cookie" where
  "ceremonyCookie p token =
     \<lparr>ck_Name = pa_cookieName p, ck_Value = token, ck_Path = ''/'', ck_MaxAge = quot ceremonyLife sec_ns,
      ck_HttpOnly = True, ck_Secure = pa_secure p, ck_SameSiteLax = True\<rparr>"

definition ClearedCeremonyCookie :: "passkeys \<Rightarrow> http_cookie" where
  "ClearedCeremonyCookie p = (ceremonyCookie p '''')\<lparr>ck_MaxAge := - 1\<rparr>"

text \<open>What a new row is given: its id, its creation time and the token drawn for the cookie.\<close>

record fresh_row =
  fr_ID :: uuid
  fr_CreatedAt :: gotime
  fr_Token :: string

definition startCeremony ::
  "('s, 'c, 'a, 'o) webauthn \<Rightarrow> passkeys \<Rightarrow> (string \<Rightarrow> string) \<Rightarrow> fresh_row \<Rightarrow> gotime \<Rightarrow> uuid option \<Rightarrow> 's
     \<Rightarrow> (passkey_error, http_cookie) call" where
  "startCeremony wa p hashToken fr now user session =
     (case wa_Marshal wa session of
        None \<Rightarrow> fail Passkey_other
      | Some encoded \<Rightarrow>
          and_then (on_error Passkey_store (writing (DeleteExpiredCeremonies now))) (\<lambda>_.
          and_then (on_error Passkey_store (writing (CreateCeremony (fr_ID fr) (fr_CreatedAt fr)
              (hashToken (fr_Token fr)) user encoded (Add now ceremonyLife)))) (\<lambda>_.
          return (ceremonyCookie p (fr_Token fr)))))"

definition takeCeremony ::
  "('s, 'c, 'a, 'o) webauthn \<Rightarrow> passkeys \<Rightarrow> (string \<Rightarrow> string) \<Rightarrow> gotime \<Rightarrow> request_cookies
     \<Rightarrow> (passkey_error, webauthn_ceremony \<times> 's) call" where
  "takeCeremony wa p hashToken now r =
     (case map_of r (pa_cookieName p) of
        None \<Rightarrow> fail ErrCeremonyGone
      | Some token \<Rightarrow>
          and_then (on_error (\<lambda>e. if e = NoRows then ErrCeremonyGone else Passkey_store e)
              (writing (TakeCeremony (hashToken token) now))) (\<lambda>row.
          case wa_Unmarshal wa (wc_Session row) of
            None \<Rightarrow> fail Passkey_other
          | Some session \<Rightarrow> return (row, session)))"

section \<open>Registering a device\<close>

definition registrationOptions :: "registration_option list" where
  "registrationOptions = [Authenticator_selection ''required'' True ''required'', Cred_props]"

definition BeginRegistration ::
  "('s, 'c, 'a, 'o) webauthn \<Rightarrow> passkeys \<Rightarrow> (string \<Rightarrow> string) \<Rightarrow> fresh_row \<Rightarrow> gotime \<Rightarrow> app_user
     \<Rightarrow> passkey_credential list \<Rightarrow> (passkey_error, 'o \<times> http_cookie) call" where
  "BeginRegistration wa p hashToken fr now user held =
     (let account = webauthnUser user held in
      case wa_BeginRegistration wa account (registrationOptions @ [Exclusions (wu_Credentials account)]) of
        None \<Rightarrow> fail Passkey_other
      | Some (creation, session) \<Rightarrow>
          and_then (startCeremony wa p hashToken fr now (Some (us_ID user)) session) (\<lambda>cookie.
          return (creation, cookie)))"

definition saveRegistration ::
  "('s, 'c, 'a, 'o) webauthn \<Rightarrow> uuid \<Rightarrow> gotime \<Rightarrow> 's \<Rightarrow> app_user \<Rightarrow> string \<Rightarrow> string
     \<Rightarrow> (passkey_error, passkey_credential) call" where
  "saveRegistration wa newID created session user body name =
     (case wa_ParseCreation wa body of
        None \<Rightarrow> fail ErrBadCredential
      | Some response \<Rightarrow>
          if \<not> wa_CreationVerified wa response then fail ErrNotVerified
          else (case wa_CreateCredential wa (webauthnUser user []) session response of
             Inl f \<Rightarrow> fail (verificationFailure f)
           | Inr c \<Rightarrow>
               if nc_RK c = Some False then fail ErrNotDiscoverable
               else on_error (\<lambda>e. if e = UniqueViolation then ErrAlreadyRegistered else Passkey_store e)
                 (writing (CreatePasskey newID created
                    \<lparr>kp_UserID = us_ID user, kp_CredentialID = EncodeToString (nc_ID c), kp_Name = name,
                     kp_PublicKey = nc_PublicKey c, kp_SignCount = uint (nc_SignCount c),
                     kp_Flags = uint (nc_Flags c), kp_Transports = nc_Transport c,
                     kp_Aaguid = aaguidOf (nc_AAGUID c)\<rparr>))))"

definition FinishRegistration ::
  "('s, 'c, 'a, 'o) webauthn \<Rightarrow> passkeys \<Rightarrow> (string \<Rightarrow> string) \<Rightarrow> uuid \<Rightarrow> gotime \<Rightarrow> gotime \<Rightarrow> request_cookies
     \<Rightarrow> app_user \<Rightarrow> string \<Rightarrow> string \<Rightarrow> (passkey_error, passkey_credential) call" where
  "FinishRegistration wa p hashToken newID created now r user body name =
     and_then (takeCeremony wa p hashToken now r) (\<lambda>(row, session).
       if wc_UserID row \<noteq> Some (us_ID user) then fail ErrCeremonyGone
       else saveRegistration wa newID created session user body name)"

definition BeginSetup ::
  "('s, 'c, 'a, 'o) webauthn \<Rightarrow> passkeys \<Rightarrow> (string \<Rightarrow> string) \<Rightarrow> fresh_row \<Rightarrow> gotime \<Rightarrow> app_user
     \<Rightarrow> (passkey_error, 'o \<times> http_cookie) call" where
  "BeginSetup wa p hashToken fr now user =
     (case wa_BeginRegistration wa (webauthnUser user []) registrationOptions of
        None \<Rightarrow> fail Passkey_other
      | Some (creation, session) \<Rightarrow>
          and_then (startCeremony wa p hashToken fr now None session) (\<lambda>cookie. return (creation, cookie)))"

text \<open>A \<open>SetupCeremony\<close> is the account id the browser was given and the session data.\<close>

definition TakeSetup ::
  "('s, 'c, 'a, 'o) webauthn \<Rightarrow> passkeys \<Rightarrow> (string \<Rightarrow> string) \<Rightarrow> gotime \<Rightarrow> request_cookies
     \<Rightarrow> (passkey_error, uuid \<times> 's) call" where
  "TakeSetup wa p hashToken now r =
     and_then (takeCeremony wa p hashToken now r) (\<lambda>(row, session).
       if wc_UserID row \<noteq> None then fail ErrCeremonyGone
       else if length (wa_SessionUserID wa session) \<noteq> 16 then fail ErrCeremonyGone
       else return (uuid_of_bytes (wa_SessionUserID wa session), session))"

definition FinishSetup ::
  "('s, 'c, 'a, 'o) webauthn \<Rightarrow> uuid \<Rightarrow> gotime \<Rightarrow> uuid \<times> 's \<Rightarrow> app_user \<Rightarrow> string \<Rightarrow> string
     \<Rightarrow> (passkey_error, passkey_credential) call" where
  "FinishSetup wa newID created ceremony user body name =
     (if fst ceremony \<noteq> us_ID user then fail Passkey_other
      else saveRegistration wa newID created (snd ceremony) user body name)"

section \<open>Signing in\<close>

definition BeginAssertion ::
  "('s, 'c, 'a, 'o) webauthn \<Rightarrow> passkeys \<Rightarrow> (string \<Rightarrow> string) \<Rightarrow> fresh_row \<Rightarrow> gotime
     \<Rightarrow> (passkey_error, 'o \<times> http_cookie) call" where
  "BeginAssertion wa p hashToken fr now =
     (case wa_BeginLogin wa ''required'' of
        None \<Rightarrow> fail Passkey_other
      | Some (assertion, session) \<Rightarrow>
          and_then (startCeremony wa p hashToken fr now None session) (\<lambda>cookie. return (assertion, cookie)))"

text \<open>The checks after the credential was read, and the write.\<close>

definition check_assertion ::
  "('s, 'c, 'a, 'o) webauthn \<Rightarrow> gotime \<Rightarrow> 's \<Rightarrow> 'a \<Rightarrow> passkey_credential \<times> app_user
     \<Rightarrow> (passkey_error, app_user \<times> passkey_credential) call" where
  "check_assertion wa now session response stored =
     (case stored of (key, user) \<Rightarrow>
        (case wa_Validate wa session response (webauthnUser user [key]) of
           Some f \<Rightarrow> fail (verificationFailure f)
         | None \<Rightarrow>
             (let returned = wa_Counter wa response; cloned = ErrClonedCredential (pk_ID key) (us_ID user) in
              if Cloned (storedCount (pk_SignCount key)) returned then fail cloned
              else and_then (on_error Passkey_store
                     (writing (RecordPasskeyUse (uint returned) (Some now) (pk_ID key)))) (\<lambda>rows.
                   if rows = 0 then fail cloned else return (user, key)))))"

definition FinishAssertion ::
  "('s, 'c, 'a, 'o) webauthn \<Rightarrow> passkeys \<Rightarrow> (string \<Rightarrow> string) \<Rightarrow> gotime \<Rightarrow> request_cookies \<Rightarrow> string
     \<Rightarrow> (passkey_error, app_user \<times> passkey_credential) call" where
  "FinishAssertion wa p hashToken now r body =
     and_then (takeCeremony wa p hashToken now r) (\<lambda>(_, session).
       case wa_ParseAssertion wa body of
         None \<Rightarrow> fail ErrBadCredential
       | Some response \<Rightarrow>
           if \<not> wa_AssertionVerified wa response then fail ErrNotVerified
           else (case wa_Asked wa session response of
              Inl f \<Rightarrow> fail (verificationFailure f)
            | Inr rawID \<Rightarrow>
                and_then (on_error (\<lambda>e. if e = NoRows then ErrUnknownCredential else Passkey_store e)
                    (reading (GetPasskeyByCredentialID (EncodeToString rawID))))
                  (check_assertion wa now session response)))"

end
