(* ===== verification/Auth_Ceremonies.thy ===== *)
theory Auth_Ceremonies
  imports Auth_Passkey
begin

text \<open>
  What the ceremonies of \<open>Auth_Passkey\<close> guarantee: a challenge is answered at most once, a sign-in
  stands on a checked answer for a registered passkey whose counter advanced, copies of a key are
  told apart, and what a registration saves reads back as the credential it verified.
\<close>

section \<open>A challenge is answered once\<close>

lemma delete_returning_mem:
  assumes "delete_returning p xs = Inr (r, rs)"
  shows "r \<in> set xs \<and> p r"
proof -
  from assms obtain t where "filter p xs = r # t" by (auto simp: delete_returning_Inr)
  then have "r \<in> set (filter p xs)" by simp
  then show ?thesis by simp
qed

definition take_challenge :: "gotime \<Rightarrow> string \<Rightarrow> db \<Rightarrow> bool \<times> db" where
  "take_challenge now hash d = (case TakeCeremony hash now d of Inl _ \<Rightarrow> (False, d) | Inr (_, d') \<Rightarrow> (True, d'))"

interpretation challenges: single_use take_challenge
  "\<lambda>d. distinct (map wc_TokenHash (t_ceremony d))" "\<lambda>k d. \<forall>c \<in> set (t_ceremony d). wc_TokenHash c \<noteq> k"
proof
  fix d now k k'
  let ?p = "\<lambda>c. wc_TokenHash c = k \<and> After (wc_ExpiresAt c) now"
  note defs = take_challenge_def TakeCeremony_def
  show "\<forall>c \<in> set (t_ceremony (snd (take_challenge now k d))). wc_TokenHash c \<noteq> k"
    if inv: "distinct (map wc_TokenHash (t_ceremony d))" and ok: "fst (take_challenge now k d)"
  proof -
    from ok obtain c rs where r: "delete_returning ?p (t_ceremony d) = Inr (c, rs)"
      by (auto simp: defs split: sum.splits)
    have c: "c \<in> set (t_ceremony d)" "?p c" using delete_returning_mem [OF r] by simp_all
    have "x = c" if "x \<in> set (t_ceremony d)" "wc_TokenHash x = k" for x
      using inj_onD [of wc_TokenHash "set (t_ceremony d)" x c] inv c that by (simp add: distinct_map)
    moreover have "t_ceremony (snd (take_challenge now k d)) = delete_where ?p (t_ceremony d)"
      using r by (simp add: defs) (simp add: delete_returning_Inr)
    ultimately show ?thesis using c(2) by auto
  qed
  show "\<not> fst (take_challenge now k d)" if "\<forall>c \<in> set (t_ceremony d). wc_TokenHash c \<noteq> k"
  proof -
    have "filter ?p (t_ceremony d) = []" using that by (auto simp: filter_empty_conv)
    then show ?thesis by (simp add: defs delete_returning_def one_row_def)
  qed
  show "\<forall>c \<in> set (t_ceremony (snd (take_challenge now k' d))). wc_TokenHash c \<noteq> k"
    if "\<forall>c \<in> set (t_ceremony d). wc_TokenHash c \<noteq> k"
    using that by (auto simp: defs delete_returning_Inr split: sum.split)
  show "distinct (map wc_TokenHash (t_ceremony (snd (take_challenge now k d))))"
    if "distinct (map wc_TokenHash (t_ceremony d))"
    using that by (auto simp: defs delete_returning_Inr distinct_delete_where split: sum.split)
qed

section \<open>The calls of a ceremony\<close>

lemma TakeCeremony_Inr:
  assumes "TakeCeremony h now d = Inr (c, d')"
  shows "c \<in> set (t_ceremony d) \<and> wc_TokenHash c = h \<and> After (wc_ExpiresAt c) now \<and>
    d' = d\<lparr>t_ceremony := delete_where (\<lambda>c. wc_TokenHash c = h \<and> After (wc_ExpiresAt c) now) (t_ceremony d)\<rparr>"
proof -
  obtain rs where r: "delete_returning (\<lambda>c. wc_TokenHash c = h \<and> After (wc_ExpiresAt c) now) (t_ceremony d) = Inr (c, rs)"
    "d' = d\<lparr>t_ceremony := rs\<rparr>"
    using assms by (auto simp: TakeCeremony_def split: sum.splits)
  then show ?thesis using delete_returning_mem [OF r(1)] by (simp add: delete_returning_Inr)
qed

text \<open>The challenge of a request: the live row its cookie names, with the session data in it.\<close>

definition challenge_of ::
  "('s, 'c, 'a, 'o) webauthn \<Rightarrow> passkeys \<Rightarrow> (string \<Rightarrow> string) \<Rightarrow> gotime \<Rightarrow> request_cookies \<Rightarrow> db
     \<Rightarrow> webauthn_ceremony \<times> 's \<Rightarrow> bool" where
  "challenge_of wa p hashToken now r d rs \<longleftrightarrow>
     (\<exists>token. map_of r (pa_cookieName p) = Some token \<and> fst rs \<in> set (t_ceremony d)
        \<and> wc_TokenHash (fst rs) = hashToken token \<and> After (wc_ExpiresAt (fst rs)) now
        \<and> wa_Unmarshal wa (wc_Session (fst rs)) = Some (snd rs))"

definition but_ceremonies :: "db \<Rightarrow> db" where
  "but_ceremonies d = d\<lparr>t_ceremony := []\<rparr>"

lemma takeCeremony_triple:
  "triple (\<lambda>d. d = d0) (takeCeremony wa p hashToken now r)
     (\<lambda>rs d. challenge_of wa p hashToken now r d0 rs \<and> but_ceremonies d = but_ceremonies d0
        \<and> (\<forall>c \<in> set (t_ceremony d). wc_TokenHash c \<noteq> wc_TokenHash (fst rs) \<or> \<not> After (wc_ExpiresAt c) now))
     (\<lambda>e d. but_ceremonies d = but_ceremonies d0)"
proof (cases "map_of r (pa_cookieName p)")
  case None
  then show ?thesis by (auto simp: takeCeremony_def intro!: call_rules)
next
  case (Some token)
  let ?Q = "\<lambda>row d. row \<in> set (t_ceremony d0) \<and> wc_TokenHash row = hashToken token \<and> After (wc_ExpiresAt row) now
    \<and> but_ceremonies d = but_ceremonies d0
    \<and> (\<forall>c \<in> set (t_ceremony d). wc_TokenHash c \<noteq> wc_TokenHash row \<or> \<not> After (wc_ExpiresAt c) now)"
  have "triple (\<lambda>d. d = d0) (on_error (\<lambda>e. if e = NoRows then ErrCeremonyGone else Passkey_store e)
      (writing (TakeCeremony (hashToken token) now))) ?Q (\<lambda>e d. but_ceremonies d = but_ceremonies d0)"
    by (intro triple_on_error triple_writing) (auto simp: but_ceremonies_def dest!: TakeCeremony_Inr)
  then show ?thesis
    unfolding takeCeremony_def using Some
    by (auto intro!: triple_and_then [of _ _ ?Q] triple_branches(2) triple_return triple_fail simp: challenge_of_def)
qed

lemma takeCeremony_weak:
  "triple (\<lambda>d. d = d0) (takeCeremony wa p hashToken now r)
     (\<lambda>rs d. challenge_of wa p hashToken now r d0 rs \<and> but_ceremonies d = but_ceremonies d0)
     (\<lambda>e d. but_ceremonies d = but_ceremonies d0)"
  by (rule triple_mono [OF takeCeremony_triple]) auto

lemma but_ceremonies_tables:
  assumes "but_ceremonies d = but_ceremonies d0"
  shows "t_passkey d = t_passkey d0" "t_app_user d = t_app_user d0" "t_session d = t_session d0"
  using arg_cong [OF assms, of t_passkey] arg_cong [OF assms, of t_app_user] arg_cong [OF assms, of t_session]
  by (simp_all add: but_ceremonies_def)

lemma GetPasskey_same:
  "but_ceremonies d = but_ceremonies d0 \<Longrightarrow> GetPasskeyByCredentialID i d = GetPasskeyByCredentialID i d0"
  by (simp add: GetPasskeyByCredentialID_def but_ceremonies_tables [of d d0])

lemma GetPasskey_Inr:
  assumes "GetPasskeyByCredentialID i d = Inr (k, u)"
  shows "k \<in> set (t_passkey d)" "u \<in> set (t_app_user d)" "us_ID u = pk_UserID k" "pk_CredentialID k = i"
  using one_row_mem [OF assms [unfolded GetPasskeyByCredentialID_def]] by (auto split: if_splits)

section \<open>Signing in\<close>

text \<open>What a sign-in as \<open>u\<close> with the passkey \<open>k\<close> stands on: a live challenge of this browser, an
  answer in which the device checked the person, and go-webauthn's check of the answer against the
  registered key.\<close>

definition sign_in_checked ::
  "('s, 'c, 'a, 'o) webauthn \<Rightarrow> passkeys \<Rightarrow> (string \<Rightarrow> string) \<Rightarrow> gotime \<Rightarrow> request_cookies \<Rightarrow> 'a \<Rightarrow> db
     \<Rightarrow> app_user \<Rightarrow> passkey_credential \<Rightarrow> bool" where
  "sign_in_checked wa p hashToken now r response d u k \<longleftrightarrow>
     (\<exists>rs rawID. challenge_of wa p hashToken now r d rs \<and> wa_AssertionVerified wa response
        \<and> wa_Asked wa (snd rs) response = Inr rawID \<and> pk_CredentialID k = EncodeToString rawID
        \<and> wa_Validate wa (snd rs) response (webauthnUser u [k]) = None
        \<and> k \<in> set (t_passkey d) \<and> u \<in> set (t_app_user d) \<and> us_ID u = pk_UserID k)"

definition used_at :: "gotime \<Rightarrow> uuid \<Rightarrow> int \<Rightarrow> passkey_credential list \<Rightarrow> passkey_credential list" where
  "used_at now i c ks = update_where (\<lambda>k. pk_ID k = i \<and> advances (pk_SignCount k) c)
     (\<lambda>k. k\<lparr>pk_SignCount := c, pk_LastUsedAt := Some now\<rparr>) ks"

text \<open>The tables without the ceremonies and the passkeys.\<close>

definition but_passkeys :: "db \<Rightarrow> db" where
  "but_passkeys d = d\<lparr>t_ceremony := [], t_passkey := []\<rparr>"

definition signed_in ::
  "('s, 'c, 'a, 'o) webauthn \<Rightarrow> passkeys \<Rightarrow> (string \<Rightarrow> string) \<Rightarrow> gotime \<Rightarrow> request_cookies \<Rightarrow> string \<Rightarrow> db
     \<Rightarrow> app_user \<Rightarrow> passkey_credential \<Rightarrow> db \<Rightarrow> bool" where
  "signed_in wa p hashToken now r body d u k d' \<longleftrightarrow>
     (\<exists>response. wa_ParseAssertion wa body = Some response
        \<and> sign_in_checked wa p hashToken now r response d u k
        \<and> \<not> Cloned (storedCount (pk_SignCount k)) (wa_Counter wa response)
        \<and> list_ex (\<lambda>x. pk_ID x = pk_ID k \<and> advances (pk_SignCount x) (uint (wa_Counter wa response))) (t_passkey d)
        \<and> t_passkey d' = used_at now (pk_ID k) (uint (wa_Counter wa response)) (t_passkey d)
        \<and> but_passkeys d' = but_passkeys d)"

lemma but_passkeys_ceremonies: "but_ceremonies d = but_ceremonies d0 \<Longrightarrow> but_passkeys d = but_passkeys d0"
  using arg_cong [of "but_ceremonies d" "but_ceremonies d0" "\<lambda>d. d\<lparr>t_passkey := []\<rparr>"]
  by (simp add: but_ceremonies_def but_passkeys_def)

lemma but_passkeys_tables:
  assumes "but_passkeys d = but_passkeys d0"
  shows "t_session d = t_session d0" "t_recovery_code d = t_recovery_code d0" "t_app_user d = t_app_user d0"
  using arg_cong [OF assms, of t_session] arg_cong [OF assms, of t_recovery_code] arg_cong [OF assms, of t_app_user]
  by (simp_all add: but_passkeys_def)

lemma but_passkeys_update [simp]: "but_passkeys (d\<lparr>t_passkey := ks\<rparr>) = but_passkeys d"
  by (simp add: but_passkeys_def)

lemma check_assertion_triple:
  assumes "challenge_of wa p hashToken now r d0 rs" "wa_ParseAssertion wa body = Some response"
    "wa_AssertionVerified wa response" "wa_Asked wa (snd rs) response = Inr rawID"
    "GetPasskeyByCredentialID (EncodeToString rawID) d0 = Inr (k, u)"
  shows "triple (\<lambda>d. but_ceremonies d = but_ceremonies d0) (check_assertion wa now (snd rs) response (k, u))
     (\<lambda>(u, k) d. signed_in wa p hashToken now r body d0 u k d) (\<lambda>e d. but_ceremonies d = but_ceremonies d0)"
proof -
  let ?c = "uint (wa_Counter wa response)"
  let ?p = "\<lambda>x. pk_ID x = pk_ID k \<and> advances (pk_SignCount x) ?c"
  let ?Q = "\<lambda>n d. if n = 0 then but_ceremonies d = but_ceremonies d0
      else list_ex ?p (t_passkey d0) \<and> t_passkey d = used_at now (pk_ID k) ?c (t_passkey d0) \<and> but_passkeys d = but_passkeys d0"
  have use: "triple (\<lambda>d. but_ceremonies d = but_ceremonies d0)
      (on_error Passkey_store (writing (RecordPasskeyUse ?c (Some now) (pk_ID k)))) ?Q
      (\<lambda>e d. but_ceremonies d = but_ceremonies d0)"
  proof (intro triple_on_error triple_writing)
    fix n d d'
    assume d: "but_ceremonies d = but_ceremonies d0" and run: "RecordPasskeyUse ?c (Some now) (pk_ID k) d = Inr (n, d')"
    have d': "d' = d\<lparr>t_passkey := used_at now (pk_ID k) ?c (t_passkey d)\<rparr>" "n = count_where ?p (t_passkey d)"
      using run by (auto simp: RecordPasskeyUse_def used_at_def Let_def)
    have same: "t_passkey d = t_passkey d0" by (rule but_ceremonies_tables [OF d])
    show "?Q n d'"
    proof (cases "n = 0")
      case True
      then have "\<forall>x \<in> set (t_passkey d). \<not> ?p x" using d'(2) by (simp add: count_where_0)
      then have "used_at now (pk_ID k) ?c (t_passkey d) = t_passkey d"
        unfolding used_at_def update_where_def by (intro map_idI) auto
      with True d d'(1) show ?thesis by simp
    next
      case False
      then have "list_ex ?p (t_passkey d)" using d'(2) by (auto simp: count_where_0 list_ex_iff)
      with False show ?thesis by (simp add: d'(1) same but_passkeys_ceremonies [OF d])
    qed
  qed simp
  note got = GetPasskey_Inr [OF assms(5)]
  have checked: "sign_in_checked wa p hashToken now r response d0 u k"
    if "wa_Validate wa (snd rs) response (webauthnUser u [k]) = None"
    unfolding sign_in_checked_def using assms got that by blast
  show ?thesis
  proof (cases "wa_Validate wa (snd rs) response (webauthnUser u [k]) = None
      \<and> \<not> Cloned (storedCount (pk_SignCount k)) (wa_Counter wa response)")
    case True
    then have valid: "wa_Validate wa (snd rs) response (webauthnUser u [k]) = None"
      and advanced: "\<not> Cloned (storedCount (pk_SignCount k)) (wa_Counter wa response)" by simp_all
    have "triple (\<lambda>d. but_ceremonies d = but_ceremonies d0)
      (and_then (on_error Passkey_store (writing (RecordPasskeyUse ?c (Some now) (pk_ID k))))
        (\<lambda>rows. if rows = 0 then fail (ErrClonedCredential (pk_ID k) (us_ID u)) else return (u, k)))
      (\<lambda>(u, k) d. signed_in wa p hashToken now r body d0 u k d) (\<lambda>e d. but_ceremonies d = but_ceremonies d0)"
      by (rule triple_and_then [OF use])
        (auto intro!: call_rules simp: signed_in_def assms(2) checked [OF valid] advanced)
    then show ?thesis by (simp add: check_assertion_def valid advanced)
  next
    case False
    then show ?thesis
      by (cases "wa_Validate wa (snd rs) response (webauthnUser u [k])") (auto simp: check_assertion_def triple_def fail_def)
  qed
qed

lemma FinishAssertion_triple:
  "triple (\<lambda>d. d = d0) (FinishAssertion wa p hashToken now r body)
     (\<lambda>(u, k) d. signed_in wa p hashToken now r body d0 u k d) (\<lambda>e d. but_ceremonies d = but_ceremonies d0)"
  unfolding FinishAssertion_def
proof (rule triple_and_then [OF takeCeremony_weak])
  let ?E = "\<lambda>(e :: passkey_error) d. but_ceremonies d = but_ceremonies d0"
  fix rs
  show "triple (\<lambda>d. challenge_of wa p hashToken now r d0 rs \<and> but_ceremonies d = but_ceremonies d0)
     (case rs of (_, session) \<Rightarrow>
       (case wa_ParseAssertion wa body of None \<Rightarrow> fail ErrBadCredential
        | Some response \<Rightarrow> if \<not> wa_AssertionVerified wa response then fail ErrNotVerified
           else (case wa_Asked wa session response of Inl f \<Rightarrow> fail (verificationFailure f)
            | Inr rawID \<Rightarrow> and_then (on_error (\<lambda>e. if e = NoRows then ErrUnknownCredential else Passkey_store e)
                 (reading (GetPasskeyByCredentialID (EncodeToString rawID)))) (check_assertion wa now session response))))
     (\<lambda>(u, k) d. signed_in wa p hashToken now r body d0 u k d) ?E"
  proof (intro triple_branches triple_fail; (elim conjE, assumption)?)
    fix row session response rawID
    assume rs: "rs = (row, session)" and b: "wa_ParseAssertion wa body = Some response"
      "\<not> \<not> wa_AssertionVerified wa response" "wa_Asked wa session response = Inr rawID"
    show "triple (\<lambda>d. challenge_of wa p hashToken now r d0 rs \<and> but_ceremonies d = but_ceremonies d0)
      (and_then (on_error (\<lambda>e. if e = NoRows then ErrUnknownCredential else Passkey_store e)
        (reading (GetPasskeyByCredentialID (EncodeToString rawID)))) (check_assertion wa now session response))
      (\<lambda>(u, k) d. signed_in wa p hashToken now r body d0 u k d) ?E"
    proof (rule triple_and_then [where Q = "\<lambda>stored d. challenge_of wa p hashToken now r d0 rs
          \<and> but_ceremonies d = but_ceremonies d0 \<and> GetPasskeyByCredentialID (EncodeToString rawID) d0 = Inr stored"])
      show "triple (\<lambda>d. challenge_of wa p hashToken now r d0 rs \<and> but_ceremonies d = but_ceremonies d0)
        (on_error (\<lambda>e. if e = NoRows then ErrUnknownCredential else Passkey_store e)
          (reading (GetPasskeyByCredentialID (EncodeToString rawID))))
        (\<lambda>stored d. challenge_of wa p hashToken now r d0 rs \<and> but_ceremonies d = but_ceremonies d0
           \<and> GetPasskeyByCredentialID (EncodeToString rawID) d0 = Inr stored) ?E"
        by (intro triple_on_error triple_reading) (blast, metis GetPasskey_same)
    next
      fix stored :: "passkey_credential \<times> app_user"
      obtain k u where stored: "stored = (k, u)" by fastforce
      show "triple (\<lambda>d. challenge_of wa p hashToken now r d0 rs \<and> but_ceremonies d = but_ceremonies d0
          \<and> GetPasskeyByCredentialID (EncodeToString rawID) d0 = Inr stored)
        (check_assertion wa now session response stored) (\<lambda>(u, k) d. signed_in wa p hashToken now r body d0 u k d) ?E"
      proof (cases "challenge_of wa p hashToken now r d0 rs \<and> GetPasskeyByCredentialID (EncodeToString rawID) d0 = Inr (k, u)")
        case True
        have "triple (\<lambda>d. but_ceremonies d = but_ceremonies d0) (check_assertion wa now (snd rs) response (k, u))
            (\<lambda>(u, k) d. signed_in wa p hashToken now r body d0 u k d) ?E"
          using check_assertion_triple [OF conjunct1 [OF True] b(1) notnotD [OF b(2)] _ conjunct2 [OF True]] b(3) rs by simp
        then show ?thesis unfolding stored rs by (auto elim: triple_mono)
      qed (auto simp: triple_def stored)
    qed
  qed
qed

section \<open>Counters\<close>

text \<open>The rows of a passkey hold the counter \<open>c\<close>.\<close>

definition counter_at :: "uuid \<Rightarrow> int \<Rightarrow> db \<Rightarrow> bool" where
  "counter_at i c d \<longleftrightarrow> (\<forall>k \<in> set (t_passkey d). pk_ID k = i \<longrightarrow> pk_SignCount k = c)"

text \<open>A list of sign-in requests, and the passkey and counter of each that is accepted.\<close>

fun sign_ins ::
  "('s, 'c, 'a, 'o) webauthn \<Rightarrow> passkeys \<Rightarrow> (string \<Rightarrow> string) \<Rightarrow> (gotime \<times> request_cookies \<times> string) list
     \<Rightarrow> world \<Rightarrow> (uuid \<times> int) list" where
  "sign_ins wa p hashToken [] w = []"
| "sign_ins wa p hashToken ((now, r, body) # requests) w =
     (case FinishAssertion wa p hashToken now r body w of
        (Inl e, w) \<Rightarrow> sign_ins wa p hashToken requests w
      | (Inr (u, k), w) \<Rightarrow>
          (pk_ID k, uint (wa_Counter wa (the (wa_ParseAssertion wa body)))) # sign_ins wa p hashToken requests w)"

lemma advances_trans: "advances a b \<Longrightarrow> advances b c \<Longrightarrow> advances a c"
  by (auto simp: advances_def)

lemma counter_at_used:
  assumes "counter_at i s d" "t_passkey d' = used_at now j c (t_passkey d)"
    "list_ex (\<lambda>x. pk_ID x = j \<and> advances (pk_SignCount x) c) (t_passkey d)"
  shows "if j = i then advances s c \<and> counter_at i c d' else counter_at i s d'"
proof -
  have rows: "counter_at i c' d' \<longleftrightarrow> (\<forall>k \<in> set (t_passkey d). pk_ID k = i \<longrightarrow>
      (if pk_ID k = j \<and> advances (pk_SignCount k) c then c else pk_SignCount k) = c')" for c'
    unfolding counter_at_def assms(2) used_at_def set_update_where ball_simps by (intro ball_cong refl) simp
  from assms(3) obtain x where x: "x \<in> set (t_passkey d)" "pk_ID x = j" "advances (pk_SignCount x) c"
    by (auto simp: list_ex_iff)
  show ?thesis
  proof (cases "j = i")
    case True
    then have "advances s c" using assms(1) x by (simp add: counter_at_def)
    with True assms(1) show ?thesis unfolding rows by (simp add: counter_at_def)
  next
    case False
    with assms(1) show ?thesis unfolding rows by (simp add: counter_at_def)
  qed
qed

lemma counters_from:
  "counter_at i s (tables w) \<Longrightarrow>
     sorted_wrt advances (s # map snd (filter (\<lambda>x. fst x = i) (sign_ins wa p hashToken requests w)))"
proof (induction requests arbitrary: s w)
  case (Cons a requests)
  obtain now r body where a: "a = (now, r, body)" by (cases a)
  obtain res w1 where run: "FinishAssertion wa p hashToken now r body w = (res, w1)" by fastforce
  show ?case
  proof (cases res)
    case (Inl e)
    have same: "but_ceremonies (tables w1) = but_ceremonies (tables w)"
      using tripleD(2) [OF FinishAssertion_triple refl run [unfolded Inl]] by simp
    then have "counter_at i s (tables w1)"
      using Cons.prems but_ceremonies_tables(1) [OF same] by (simp add: counter_at_def)
    then show ?thesis using Cons.IH [of s w1] by (simp add: a run Inl)
  next
    case (Inr x)
    obtain u k where x: "x = (u, k)" by (cases x)
    let ?c = "uint (wa_Counter wa (the (wa_ParseAssertion wa body)))"
    have "signed_in wa p hashToken now r body (tables w) u k (tables w1)"
      using tripleD(1) [OF FinishAssertion_triple refl run [unfolded Inr x]] by simp
    then have "list_ex (\<lambda>x. pk_ID x = pk_ID k \<and> advances (pk_SignCount x) ?c) (t_passkey (tables w))"
      "t_passkey (tables w1) = used_at now (pk_ID k) ?c (t_passkey (tables w))"
      by (auto simp: signed_in_def)
    from counter_at_used [OF Cons.prems this(2,1)]
    have step: "if pk_ID k = i then advances s ?c \<and> counter_at i ?c (tables w1) else counter_at i s (tables w1)" .
    show ?thesis
    proof (cases "pk_ID k = i")
      case True
      with step have "advances s ?c" "counter_at i ?c (tables w1)" by simp_all
      with Cons.IH [of ?c w1] True show ?thesis by (auto simp: a run Inr x intro: advances_trans)
    next
      case False
      with step Cons.IH [of s w1] show ?thesis by (simp add: a run Inr x)
    qed
  qed
qed simp

section \<open>What a registration saves\<close>

lemma column_values: "storedCount (uint c) = c" "storedFlags (uint f) = f"
  using uint_lt2p [of c] uint_lt2p [of f] by (auto simp: storedCount_def storedFlags_def)

lemma concat_map_nil: "concat (map (\<lambda>_. []) xs) = []"
  by (induction xs) simp_all

lemma CreatePasskey_found:
  assumes "CreatePasskey newID created a d = Inr (k, d')"
  shows "\<exists>u. GetPasskeyByCredentialID (kp_CredentialID a) d' = Inr (k, u) \<and> us_ID u = kp_UserID a"
proof -
  have new: "\<forall>x \<in> set (t_passkey d). pk_CredentialID x \<noteq> kp_CredentialID a" and "has_user (kp_UserID a) d"
    and d': "d' = d\<lparr>t_passkey := t_passkey d @ [k]\<rparr>" and k: "pk_CredentialID k = kp_CredentialID a" "pk_UserID k = kp_UserID a"
    using assms by (auto simp: CreatePasskey_def Let_def list_ex_iff split: if_splits)
  then obtain u us where us: "filter (\<lambda>u. us_ID u = pk_UserID k) (t_app_user d) = u # us"
    by (cases "filter (\<lambda>u. us_ID u = pk_UserID k) (t_app_user d)") (auto simp: has_user_def list_ex_iff filter_empty_conv)
  have joined: "concat (map (\<lambda>u. if us_ID u = pk_UserID k then [(k, u)] else []) xs)
      = map (Pair k) (filter (\<lambda>u. us_ID u = pk_UserID k) xs)" for xs :: "app_user list"
    by (induction xs) auto
  have "us_ID u = pk_UserID k"
    using arg_cong [OF us, of set] by auto
  moreover have "GetPasskeyByCredentialID (kp_CredentialID a) d' = Inr (k, u)"
  proof -
    define f where "f x = [(x, u). u \<leftarrow> t_app_user d, us_ID u = pk_UserID x, pk_CredentialID x = kp_CredentialID a]" for x :: passkey_credential
    have "map f (t_passkey d) = map (\<lambda>_. []) (t_passkey d)" using new by (intro map_cong) (auto simp: f_def)
    then have none: "concat (map f (t_passkey d)) = []" by (simp only: concat_map_nil)
    moreover have "f k = (k, u) # map (Pair k) us" by (simp add: f_def k(1) joined us cong: if_cong)
    moreover have "GetPasskeyByCredentialID (kp_CredentialID a) d' = one_row (concat (map f (t_passkey d @ [k])))"
      by (simp add: GetPasskeyByCredentialID_def d' f_def [abs_def])
    ultimately show ?thesis unfolding one_row_def map_append concat_append none by simp
  qed
  ultimately show ?thesis using k(2) by auto
qed

definition registered ::
  "('s, 'c, 'a, 'o) webauthn \<Rightarrow> 's \<Rightarrow> app_user \<Rightarrow> string \<Rightarrow> passkey_credential \<Rightarrow> db \<Rightarrow> bool" where
  "registered wa session user body k d \<longleftrightarrow>
     (\<exists>response c. wa_ParseCreation wa body = Some response \<and> wa_CreationVerified wa response
        \<and> wa_CreateCredential wa (webauthnUser user []) session response = Inr c \<and> nc_RK c \<noteq> Some False
        \<and> (\<exists>u. GetPasskeyByCredentialID (EncodeToString (nc_ID c)) d = Inr (k, u) \<and> us_ID u = us_ID user)
        \<and> storedCredential k = Some \<lparr>cr_ID = nc_ID c, cr_PublicKey = nc_PublicKey c, cr_Flags = nc_Flags c,
             cr_SignCount = nc_SignCount c, cr_Transport = nc_Transport c\<rparr>)"

lemma saveRegistration_triple:
  "triple (\<lambda>d. t_passkey d = ks) (saveRegistration wa newID created session user body name)
     (\<lambda>k d. registered wa session user body k d) (\<lambda>e d. t_passkey d = ks)"
  unfolding saveRegistration_def
proof (intro triple_branches triple_fail triple_on_error triple_writing; assumption?)
  fix response k d d' and c :: new_credential
  let ?a = "\<lparr>kp_UserID = us_ID user, kp_CredentialID = EncodeToString (nc_ID c), kp_Name = name,
       kp_PublicKey = nc_PublicKey c, kp_SignCount = uint (nc_SignCount c), kp_Flags = uint (nc_Flags c),
       kp_Transports = nc_Transport c, kp_Aaguid = aaguidOf (nc_AAGUID c)\<rparr>"
  assume ok: "wa_ParseCreation wa body = Some response" "\<not> \<not> wa_CreationVerified wa response"
    "wa_CreateCredential wa (webauthnUser user []) session response = Inr c" "nc_RK c \<noteq> Some False"
    and run: "CreatePasskey newID created ?a d = Inr (k, d')"
  have "storedCredential k = Some \<lparr>cr_ID = nc_ID c, cr_PublicKey = nc_PublicKey c, cr_Flags = nc_Flags c,
             cr_SignCount = nc_SignCount c, cr_Transport = nc_Transport c\<rparr>"
    using run by (auto simp: CreatePasskey_def Let_def storedCredential_def DecodeString_EncodeToString column_values split: if_splits)
  with ok CreatePasskey_found [OF run] show "registered wa session user body k d'"
    by (auto simp: registered_def)
qed

lemma FinishRegistration_triple:
  fixes wa :: "('s, 'c, 'a, 'o) webauthn"
  shows "triple (\<lambda>d. d = d0) (FinishRegistration wa p hashToken newID created now r user body name)
     (\<lambda>k d. \<exists>row session. challenge_of wa p hashToken now r d0 (row, session)
        \<and> wc_UserID row = Some (us_ID user) \<and> registered wa session user body k d) (\<lambda>e d. True)"
  unfolding FinishRegistration_def
proof (rule triple_and_then)
  show "triple (\<lambda>d. d = d0) (takeCeremony wa p hashToken now r)
      (\<lambda>rs d. challenge_of wa p hashToken now r d0 rs \<and> t_passkey d = t_passkey d0) (\<lambda>e d. True)"
    by (rule triple_mono [OF takeCeremony_weak]) (auto dest: but_ceremonies_tables(1))
next
  fix rs :: "webauthn_ceremony \<times> 's"
  obtain row session where rs: "rs = (row, session)" by fastforce
  let ?P = "\<lambda>d. challenge_of wa p hashToken now r d0 rs \<and> t_passkey d = t_passkey d0"
  let ?Q = "\<lambda>k d. \<exists>row session. challenge_of wa p hashToken now r d0 (row, session)
      \<and> wc_UserID row = Some (us_ID user) \<and> registered wa session user body k d"
  have "triple ?P (saveRegistration wa newID created session user body name) ?Q (\<lambda>e d. True)"
    if "wc_UserID row = Some (us_ID user)" "challenge_of wa p hashToken now r d0 rs"
    by (rule triple_mono [OF saveRegistration_triple]) (use that rs in auto)
  then show "triple ?P (case rs of (row, session) \<Rightarrow>
      if wc_UserID row \<noteq> Some (us_ID user) then fail ErrCeremonyGone
      else saveRegistration wa newID created session user body name) ?Q (\<lambda>e d. True)"
    unfolding rs prod.case by (cases "wc_UserID row = Some (us_ID user)
      \<and> challenge_of wa p hashToken now r d0 (row, session)") (auto simp: triple_def fail_def)
qed

text \<open>A registration touches only the challenges and the passkeys.\<close>

lemma saveRegistration_frame:
  "triple (\<lambda>d. but_passkeys d = x) (saveRegistration wa newID created session user body name)
     (\<lambda>_ d. but_passkeys d = x) (\<lambda>_ d. but_passkeys d = x)"
  unfolding saveRegistration_def
  by (intro triple_branches triple_fail triple_on_error triple_writing)
    (auto simp: CreatePasskey_def Let_def split: if_splits)

lemma FinishRegistration_frame:
  "triple (\<lambda>d. but_passkeys d = x) (FinishRegistration wa p hashToken newID created now r user body name)
     (\<lambda>_ d. but_passkeys d = x) (\<lambda>_ d. but_passkeys d = x)"
  unfolding FinishRegistration_def
proof (rule triple_and_then)
  show "triple (\<lambda>d. but_passkeys d = x) (takeCeremony wa p hashToken now r)
      (\<lambda>_ d. but_passkeys d = x) (\<lambda>_ d. but_passkeys d = x)"
    by (rule triple_pointwise, rule triple_mono [OF takeCeremony_weak]) (auto dest: but_passkeys_ceremonies)
qed (auto intro!: triple_branches triple_fail saveRegistration_frame)

section \<open>Rows for the witnesses\<close>

definition ex_new :: new_credential where
  "ex_new = \<lparr>nc_ID = ''id'', nc_PublicKey = ''key'', nc_SignCount = 0, nc_Flags = 5, nc_Transport = [],
     nc_AAGUID = '''', nc_RK = None\<rparr>"

definition ex_wa :: "(string, string, string, unit) webauthn" where
  "ex_wa = \<lparr>wa_BeginRegistration = (\<lambda>u _. Some ((), wu_ID u)), wa_BeginLogin = (\<lambda>_. Some ((), '''')),
     wa_Marshal = Some, wa_Unmarshal = Some, wa_SessionUserID = (\<lambda>s. s), wa_ParseCreation = Some,
     wa_CreationVerified = (\<lambda>_. True), wa_CreateCredential = (\<lambda>_ _ _. Inr ex_new), wa_ParseAssertion = Some,
     wa_AssertionVerified = (\<lambda>_. True), wa_Counter = (\<lambda>_. 7), wa_Asked = (\<lambda>_ a. Inr a),
     wa_Validate = (\<lambda>_ _ _. None)\<rparr>"

definition ex_passkeys :: passkeys where
  "ex_passkeys = NewPasskeys \<lparr>co_Name = ''__Host-sprig'', co_Secure = True\<rparr>"

definition ex_key :: passkey_credential where
  "ex_key = \<lparr>pk_ID = ''k1'', pk_UserID = ''u1'', pk_CredentialID = EncodeToString ''id'', pk_Name = ''Mac'',
     pk_PublicKey = ''key'', pk_SignCount = 6, pk_Flags = 5, pk_Transports = [], pk_Aaguid = None,
     pk_CreatedAt = zero_time, pk_LastUsedAt = None\<rparr>"

definition ex_challenge :: "uuid option \<Rightarrow> webauthn_ceremony" where
  "ex_challenge user = \<lparr>wc_ID = ''c1'', wc_TokenHash = ''h1'', wc_UserID = user, wc_Session = ''s'',
     wc_CreatedAt = zero_time, wc_ExpiresAt = Add zero_time ceremonyLife\<rparr>"

definition ex_signing_in :: world where
  "ex_signing_in = \<lparr>tables = empty_db\<lparr>t_app_user := [ex_user], t_passkey := [ex_key],
     t_ceremony := [ex_challenge None]\<rparr>, faults = []\<rparr>"

definition ex_registering :: world where
  "ex_registering = \<lparr>tables = empty_db\<lparr>t_app_user := [ex_user], t_ceremony := [ex_challenge (Some ''u1'')]\<rparr>,
     faults = []\<rparr>"

abbreviation ex_cookies :: request_cookies where
  "ex_cookies \<equiv> [(''__Host-sprig_ceremony'', ''t'')]"

lemma ex_challenge_live: "After (wc_ExpiresAt (ex_challenge user)) zero_time" "wc_TokenHash (ex_challenge user) = ''h1''"
  "wc_UserID (ex_challenge user) = user"
  by (simp_all add: ex_challenge_def After_def Add_def ceremonyLife_def)

lemma ex_taken:
  assumes "t_ceremony (tables w) = [ex_challenge user]" "faults w = []"
  shows "takeCeremony ex_wa ex_passkeys ex_hash zero_time ex_cookies w
    = (Inr (ex_challenge user, ''s''), w\<lparr>tables := (tables w)\<lparr>t_ceremony := []\<rparr>\<rparr>)"
proof -
  have "writing (TakeCeremony ''h1'' zero_time) w = (Inr (ex_challenge user), w\<lparr>tables := (tables w)\<lparr>t_ceremony := []\<rparr>\<rparr>)"
    using assms by (simp add: writing_def TakeCeremony_def delete_returning_def delete_where_def one_row_def ex_challenge_live)
  moreover have "wc_Session (ex_challenge user) = ''s''" by (simp add: ex_challenge_def)
  ultimately show ?thesis
    by (simp add: takeCeremony_def ex_passkeys_def NewPasskeys_def ceremonyCookieName_def on_error_def and_then_def
        ex_wa_def return_def)
qed

lemma ex_sign_in:
  "\<exists>w'. FinishAssertion ex_wa ex_passkeys ex_hash zero_time ex_cookies ''id'' ex_signing_in = (Inr (ex_user, ex_key), w')"
proof -
  let ?w = "ex_signing_in\<lparr>tables := (tables ex_signing_in)\<lparr>t_ceremony := []\<rparr>\<rparr>"
  have taken: "takeCeremony ex_wa ex_passkeys ex_hash zero_time ex_cookies ex_signing_in = (Inr (ex_challenge None, ''s''), ?w)"
    by (rule ex_taken) (simp_all add: ex_signing_in_def)
  have read: "reading (GetPasskeyByCredentialID (EncodeToString ''id'')) ?w = (Inr (ex_key, ex_user), ?w)"
    by (simp add: ex_signing_in_def GetPasskeyByCredentialID_def ex_key_def ex_user_def one_row_def)
  have "\<exists>w'. check_assertion ex_wa zero_time ''s'' ''id'' (ex_key, ex_user) ?w = (Inr (ex_user, ex_key), w')"
    by (simp add: check_assertion_def ex_wa_def Let_def and_then_def on_error_def writing_def RecordPasskeyUse_def
        ex_signing_in_def Cloned_def storedCount_def ex_key_def advances_def count_where_def return_def)
  then show ?thesis
    unfolding FinishAssertion_def and_then_def taken on_error_def prod.case sum.case
    using read by (simp add: ex_wa_def)
qed

section \<open>Properties\<close>

text \<open>
  (C14) A sign-in succeeds only on a live challenge of the browser's own cookie, with an answer in
  which the device checked the person and that go-webauthn accepts for a registered passkey; the
  account is the passkey's, the counter the device sent has advanced and is what the row then
  holds, and nothing but the challenge and that passkey's row has changed.
\<close>

theorem FinishAssertion_sound:
  assumes "FinishAssertion wa p hashToken now r body w = (Inr (u, k), w')"
  shows "signed_in wa p hashToken now r body (tables w) u k (tables w')"
  using tripleD(1) [OF FinishAssertion_triple refl assms] by simp

theorem FinishAssertion_sound_witness:
  "\<exists>w'. FinishAssertion ex_wa ex_passkeys ex_hash zero_time ex_cookies ''id'' ex_signing_in = (Inr (ex_user, ex_key), w')
     \<and> signed_in ex_wa ex_passkeys ex_hash zero_time ex_cookies ''id'' (tables ex_signing_in) ex_user ex_key (tables w')"
proof -
  obtain w' where run: "FinishAssertion ex_wa ex_passkeys ex_hash zero_time ex_cookies ''id'' ex_signing_in
      = (Inr (ex_user, ex_key), w')"
    using ex_sign_in by blast
  from run FinishAssertion_sound [OF run] show ?thesis by blast
qed

text \<open>
  (C15) Copies of a key are told apart: of the sign-ins accepted for one passkey, whatever is posted
  and in whatever order, the counters only go up, or are all zero on a device that keeps none.
\<close>

theorem clones_refused:
  assumes "distinct (map pk_ID (t_passkey (tables w)))"
  shows "sorted_wrt advances (map snd (filter (\<lambda>x. fst x = i) (sign_ins wa p hashToken requests w)))"
proof (cases "\<exists>k \<in> set (t_passkey (tables w)). pk_ID k = i")
  case True
  then obtain k where k: "k \<in> set (t_passkey (tables w))" "pk_ID k = i" by blast
  have "counter_at i (pk_SignCount k) (tables w)"
    unfolding counter_at_def
  proof (intro ballI impI)
    fix x
    assume "x \<in> set (t_passkey (tables w))" "pk_ID x = i"
    then have "x = k" using assms k inj_onD [of pk_ID "set (t_passkey (tables w))" x k] by (simp add: distinct_map)
    then show "pk_SignCount x = pk_SignCount k" by simp
  qed
  from counters_from [OF this, of wa p hashToken requests] show ?thesis by simp
next
  case False
  then have "counter_at i 0 (tables w)" by (auto simp: counter_at_def)
  from counters_from [OF this, of wa p hashToken requests] show ?thesis by simp
qed

theorem clones_refused_witness:
  "sorted_wrt advances (map snd (filter (\<lambda>x. fst x = ''k1'')
     (sign_ins ex_wa ex_passkeys ex_hash [(zero_time, ex_cookies, ''id'')] ex_signing_in)))
   \<and> sign_ins ex_wa ex_passkeys ex_hash [(zero_time, ex_cookies, ''id'')] ex_signing_in = [(''k1'', 7)]"
proof -
  have "distinct (map pk_ID (t_passkey (tables ex_signing_in)))" by (simp add: ex_signing_in_def)
  from clones_refused [OF this] ex_sign_in show ?thesis by (auto simp: ex_key_def ex_wa_def)
qed

text \<open>
  (C33) What a registration saves reads back as the credential it verified: the device checked the
  person and did not refuse to store the key, the row is found by the credential's id, and the
  credential go-webauthn is later given has the id, key, flags and counter it returned.
\<close>

theorem FinishRegistration_roundtrip:
  assumes "FinishRegistration wa p hashToken newID created now r user body name w = (Inr k, w')"
  shows "\<exists>row session. challenge_of wa p hashToken now r (tables w) (row, session)
     \<and> wc_UserID row = Some (us_ID user) \<and> registered wa session user body k (tables w')"
  using tripleD(1) [OF FinishRegistration_triple refl assms] .

theorem FinishRegistration_roundtrip_witness:
  "\<exists>k w'. FinishRegistration ex_wa ex_passkeys ex_hash ''k1'' zero_time zero_time ex_cookies ex_user ''body'' ''Mac''
      ex_registering = (Inr k, w') \<and> (\<exists>session. registered ex_wa session ex_user ''body'' k (tables w'))"
proof -
  let ?w = "ex_registering\<lparr>tables := (tables ex_registering)\<lparr>t_ceremony := []\<rparr>\<rparr>"
  have taken: "takeCeremony ex_wa ex_passkeys ex_hash zero_time ex_cookies ex_registering
      = (Inr (ex_challenge (Some ''u1''), ''s''), ?w)"
    by (rule ex_taken) (simp_all add: ex_registering_def)
  obtain k w' where "saveRegistration ex_wa ''k1'' zero_time ''s'' ex_user ''body'' ''Mac'' ?w = (Inr k, w')"
    by (simp add: saveRegistration_def ex_wa_def ex_new_def on_error_def writing_def CreatePasskey_def
        ex_registering_def empty_db_def has_user_def ex_user_def Let_def)
  then have run: "FinishRegistration ex_wa ex_passkeys ex_hash ''k1'' zero_time zero_time ex_cookies ex_user ''body'' ''Mac''
      ex_registering = (Inr k, w')"
    by (simp add: FinishRegistration_def and_then_def taken ex_challenge_live) (simp add: ex_user_def)
  with FinishRegistration_roundtrip [OF run] show ?thesis by blast
qed

text \<open>A challenge is answered at most once, whatever is sent with its cookie and when.\<close>

theorem challenges_single_use:
  assumes "distinct (map wc_TokenHash (t_ceremony d))"
  shows "length (filter (\<lambda>a. a = (hash, True)) (attempts take_challenge tries d)) \<le> 1"
  by (rule challenges.at_most_once [OF assms])

theorem challenges_single_use_witness:
  "attempts take_challenge [(zero_time, ''h1''), (zero_time, ''h1'')] (tables ex_signing_in) = [(''h1'', True), (''h1'', False)]
   \<and> length (filter (\<lambda>a. a = (''h1'', True))
       (attempts take_challenge [(zero_time, ''h1''), (zero_time, ''h1'')] (tables ex_signing_in))) \<le> 1"
proof -
  have "distinct (map wc_TokenHash (t_ceremony (tables ex_signing_in)))" by (simp add: ex_signing_in_def)
  from challenges_single_use [OF this] show ?thesis
    by (simp add: take_challenge_def TakeCeremony_def delete_returning_def delete_where_def one_row_def
        ex_signing_in_def ex_challenge_live)
qed

end
