(* ===== verification/Go_Runes.thy ===== *)
theory Go_Runes
  imports Go_Text
begin

text \<open>
  A string as the sequence of its runes, as \<open>range\<close> over a string and \<open>string(runes)\<close> give it, and
  that decoding the encoding of Unicode scalar values gives them back.
\<close>

function runes_in :: "string \<Rightarrow> nat list" where
  "runes_in s = (if s = [] then [] else (case DecodeRune s of (r, width) \<Rightarrow> r # runes_in (drop (max 1 width) s)))"
  by auto
termination by (relation "measure length") auto

declare runes_in.simps [simp del]

definition string_of_runes :: "nat list \<Rightarrow> string" where
  "string_of_runes rs = concat (map EncodeRune rs)"

definition scalar :: "nat \<Rightarrow> bool" where
  "scalar r \<longleftrightarrow> r \<le> 1114111 \<and> \<not> in_range 55296 57343 r"

lemma runes_in_Nil [simp]: "runes_in [] = []"
  by (simp add: runes_in.simps)

lemma EncodeRune_bytes: "scalar r \<Longrightarrow> map of_char (EncodeRune r) = rune_bytes r"
proof -
  assume r: "scalar r"
  have parts: "r div 64 < 17408" "r div 4096 < 272" "r div 262144 < 5"
    using r by (auto simp: scalar_def div_less_iff_less_mult)
  have "\<forall>b \<in> set (rune_bytes r). b < 256"
  proof (cases "r < 128")
    case False
    show ?thesis
    proof (cases "r < 2048")
      case True
      then have "r div 64 < 32" by (simp add: div_less_iff_less_mult)
      with True False show ?thesis by (auto simp: rune_bytes_def)
    next
      case big: False
      show ?thesis
      proof (cases "r < 65536")
        case True
        then have "r div 4096 < 16" by (simp add: div_less_iff_less_mult)
        moreover have "r div 64 mod 64 < 64" "r mod 64 < 64" by simp_all
        ultimately show ?thesis using True False big r by (auto simp: rune_bytes_def scalar_def)
      next
        case huge: False
        have "r div 4096 mod 64 < 64" "r div 64 mod 64 < 64" "r mod 64 < 64" by simp_all
        with parts huge False big r show ?thesis by (auto simp: rune_bytes_def scalar_def)
      qed
    qed
  qed (simp add: rune_bytes_def)
  then show ?thesis by (simp add: EncodeRune_def comp_def map_idI)
qed

lemma split_64: "(r::nat) div 4096 * 4096 + r div 64 mod 64 * 64 + r mod 64 = r"
proof -
  have c: "r div 64 div 64 = r div 4096" by (simp add: div_mult2_eq [symmetric])
  show ?thesis using div_mult_mod_eq [of "r div 64" 64] div_mult_mod_eq [of r 64] unfolding c by linarith
qed

lemma split_4096: "(r::nat) div 262144 * 262144 + r div 4096 mod 64 * 4096 = r div 4096 * 4096"
proof -
  have c: "r div 4096 div 64 = r div 262144" by (simp add: div_mult2_eq [symmetric])
  show ?thesis using div_mult_mod_eq [of "r div 4096" 64] unfolding c by linarith
qed

lemma take4: "take 4 (a # xs) = a # take 3 xs" "take 3 (a # xs) = a # take 2 xs"
  "take 2 (a # xs) = a # take 1 xs" "take (Suc 0) (a # xs) = [a]"
  by (simp_all add: numeral_eq_Suc)

text \<open>The first rune of an encoding and its width.\<close>

lemma DecodeRune_EncodeRune:
  assumes "scalar r"
  shows "DecodeRune (EncodeRune r @ s) = (r, length (EncodeRune r))"
proof -
  have bytes: "map of_char (take 4 (EncodeRune r @ s)) = take 4 (rune_bytes r @ map of_char s)"
    using EncodeRune_bytes [OF assms] by (metis map_append take_map)
  have width: "length (EncodeRune r) = length (rune_bytes r)" by (simp add: EncodeRune_def)
  have low: "r div 64 mod 64 \<le> 63" "r mod 64 \<le> 63" "r div 4096 mod 64 \<le> 63"
    using mod_less_divisor [of 64] by (simp_all add: less_Suc_eq_le [symmetric])
  consider "r < 128" | "128 \<le> r" "r < 2048" | "2048 \<le> r" "r < 65536" | "65536 \<le> r" by linarith
  then show ?thesis
  proof cases
    case 1
    then show ?thesis by (simp add: DecodeRune_def bytes width rune_bytes_def take4 del: take_append)
  next
    case 2
    have "2 \<le> r div 64" using 2 by (simp add: less_eq_div_iff_mult_less_eq)
    moreover have "r div 64 < 32" using 2 by (simp add: div_less_iff_less_mult)
    ultimately show ?thesis
      using 2 low by (simp add: DecodeRune_def bytes width rune_bytes_def take4 in_range_def del: take_append)
  next
    case 3
    have hi: "r div 4096 < 16" using 3 by (simp add: div_less_iff_less_mult)
    have s: "\<not> in_range 55296 57343 r" using assms by (simp add: scalar_def)
    have zero: "r div 4096 = 0 \<Longrightarrow> 32 \<le> r div 64 mod 64"
      using 3 split_64 [of r] low by linarith
    have d: "r div 4096 = 13 \<Longrightarrow> r div 64 mod 64 \<le> 31"
      using 3 split_64 [of r] low s by (auto simp: in_range_def)
    show ?thesis
      using 3 low hi s zero d split_64 [of r]
      by (auto simp: DecodeRune_def bytes width rune_bytes_def take4 in_range_def simp del: take_append)
  next
    case 4
    have le: "r \<le> 1114111" using assms by (simp add: scalar_def)
    have hi: "r div 262144 < 5" using le by (simp add: div_less_iff_less_mult)
    have s: "\<not> in_range 55296 57343 r" using assms by (simp add: scalar_def)
    have zero: "r div 262144 = 0 \<Longrightarrow> 16 \<le> r div 4096 mod 64"
      using 4 split_64 [of r] split_4096 [of r] low by linarith
    have four: "r div 262144 = 4 \<Longrightarrow> r div 4096 mod 64 \<le> 15"
      using le split_64 [of r] split_4096 [of r] low by linarith
    show ?thesis
      using 4 low hi s le zero four split_64 [of r] split_4096 [of r]
      by (auto simp: DecodeRune_def bytes width rune_bytes_def take4 in_range_def simp del: take_append)
  qed
qed

lemma EncodeRune_length: "0 < length (EncodeRune r)"
  by (simp add: EncodeRune_def rune_bytes_def)

lemma runes_in_string: "list_all scalar rs \<Longrightarrow> runes_in (string_of_runes rs) = rs"
proof (induction rs)
  case (Cons r rs)
  have "runes_in (EncodeRune r @ string_of_runes rs) = r # runes_in (string_of_runes rs)"
    using Cons.prems EncodeRune_length [of r]
    by (subst runes_in.simps) (simp add: DecodeRune_EncodeRune max_absorb2 Suc_leI)
  then show ?case using Cons by (simp add: string_of_runes_def)
qed (simp add: string_of_runes_def)

end
