(* ===== verification/Http_SignIn.thy ===== *)
theory Http_SignIn
  imports Http_Care Auth_Ceremonies Auth_Recovery Go_Runes
begin

text \<open>
  The pages that put a passkey to use: signing in, enrolling and removing a device
  (\<open>passkey_ceremony.go\<close>, \<open>passkeys.go\<close>, \<open>signin.go\<close>), recovering an account with a code and
  making the codes (\<open>recover.go\<close>, \<open>recovery.go\<close>), under \<open>src/internal/http\<close>.  Of a page only what
  decides the response is kept: the refusal above the form, the rows of the list, the codes shown.
  \<open>strings.ToLower\<close> on the runes of a typed code is a parameter.
\<close>

section \<open>Where a sign-in lands\<close>

definition todayPath :: string where "todayPath = ''/''"
definition signInPath :: string where "signInPath = ''/signin''"
definition passkeysPath :: string where "passkeysPath = ''/more/passkeys''"
definition remindersPath :: string where "remindersPath = ''/setup/reminders''"
definition nextField :: string where "nextField = ''next''"
definition credentialField :: string where "credentialField = ''credential''"
definition codeField :: string where "codeField = ''code''"

definition HasPrefix :: "string \<Rightarrow> string \<Rightarrow> bool" where
  "HasPrefix s prefix = (take (length prefix) s = prefix)"

definition returnPath :: "string \<Rightarrow> string" where
  "returnPath next =
     (if list_ex (\<lambda>c. c \<in> {CHR 0x09, CHR 0x0D, CHR 0x0A}) next then todayPath
      else if HasPrefix next ''/'' \<and> \<not> HasPrefix next ''//'' \<and> \<not> HasPrefix next [CHR ''/'', CHR 0x5C]
        then next
      else todayPath)"

section \<open>What a device is called\<close>

definition contains :: "string \<Rightarrow> string \<Rightarrow> bool" where
  "contains s sub = list_ex (\<lambda>i. HasPrefix (drop i s) sub) [0..<Suc (length s)]"

definition deviceNames :: "(string \<times> string) list" where
  "deviceNames = [(''iPhone'', ''iPhone''), (''iPad'', ''iPad''), (''Android'', ''Android''),
     (''Macintosh'', ''Mac''), (''Windows'', ''Windows''), (''Linux'', ''Linux'')]"

definition browserNames :: "(string \<times> string) list" where
  "browserNames = [(''Edg/'', ''Edge''), (''Firefox'', ''Firefox''), (''Chrome'', ''Chrome''), (''Safari'', ''Safari'')]"

definition first_named :: "(string \<times> string) list \<Rightarrow> string \<Rightarrow> string list" where
  "first_named names agent =
     (case find (\<lambda>(token, name). contains agent token) names of None \<Rightarrow> [] | Some (token, name) \<Rightarrow> [name])"

definition browserName :: "string option \<Rightarrow> string" where
  "browserName agent =
     (case agent of
        None \<Rightarrow> ''Unknown device''
      | Some a \<Rightarrow>
          (let parts = first_named deviceNames a @ first_named browserNames a in
           if parts = [] then ''Unknown device'' else Join parts middle_dot))"

definition userAgentOf :: "string \<Rightarrow> string option" where
  "userAgentOf agent = (if agent = '''' then None else Some agent)"

definition passkeyProviders :: "(uuid \<times> string) list" where
  "passkeyProviders =
     [(''fbfc3007-154e-4ecc-8c0b-6e020557d7bd'', ''iCloud Keychain''),
      (''bada5566-a7aa-401f-bd96-45619a55120d'', ''1Password''),
      (''ea9b8d66-4d01-1d21-3ce4-b6b48cb575d4'', ''Google Password Manager''),
      (''adce0002-35bc-c60a-648b-0b25f1f05503'', ''Chrome on Mac''),
      (''d548826e-79b4-db40-a3d8-11116f7e8349'', ''Bitwarden''),
      (''531126d6-e717-415c-9320-3d9aa6981239'', ''Dashlane''),
      (''08987058-cadc-4b81-b6e1-30de50dcbe96'', ''Windows Hello''),
      (''9ddd1817-af5a-4672-a2b9-3e3dd95000a9'', ''Windows Hello''),
      (''6028b017-b1d4-4c02-b4b3-afcdafc96bb2'', ''Windows Hello''),
      (''50726f74-6f6e-5061-7373-50726f746f6e'', ''Proton Pass''),
      (''53414d53-554e-4700-0000-000000000000'', ''Samsung Pass''),
      (''fdb141b2-5d84-443e-8a35-4698c205a502'', ''KeePassXC''),
      (''0ea242b4-43c4-4a1b-8b17-dd6d0b6baec6'', ''Keeper''),
      (''b84e4048-15dc-4dd0-8640-f4f60813c8af'', ''NordPass''),
      (''f3809540-7f14-49c1-a8b3-8f813b225541'', ''Enpass'')]"

definition passkeyLabel :: "passkey_credential \<Rightarrow> string" where
  "passkeyLabel key =
     (case pk_Aaguid key of
        None \<Rightarrow> pk_Name key
      | Some a \<Rightarrow> (case map_of passkeyProviders a of Some provider \<Rightarrow> provider | None \<Rightarrow> pk_Name key))"

section \<open>The Passkeys page\<close>

record passkey_row =
  kr_Name :: string
  kr_Used :: string
  kr_Remove :: string

record passkeys_page =
  kg_Keys :: "passkey_row list"
  kg_OnlyOne :: bool

definition removePasskeyPath :: "uuid \<Rightarrow> string" where
  "removePasskeyPath passkeyID = passkeysPath @ ''/'' @ passkeyID @ ''/remove''"

definition newPasskeysPage :: "passkey_credential list \<Rightarrow> gotime \<Rightarrow> passkeys_page" where
  "newPasskeysPage keys now =
     (let onlyOne = length keys = 1
      in \<lparr>kg_Keys = map (\<lambda>key. \<lparr>kr_Name = passkeyLabel key, kr_Used = usedNote (pk_LastUsedAt key) now,
            kr_Remove = (if onlyOne then '''' else removePasskeyPath (pk_ID key))\<rparr>) keys,
          kg_OnlyOne = onlyOne\<rparr>)"

type_synonym passkeys_answer = "(passkeys_page, string) page_answer"

definition renderPasskeys :: "site \<Rightarrow> principal \<Rightarrow> gotime \<Rightarrow> world \<Rightarrow> passkeys_answer \<times> world" where
  "renderPasskeys si p clock =
     read_or (ListPasskeys (us_ID (pr_User p))) (\<lambda>_. Server_error)
       (\<lambda>keys w. (Page (newPasskeysPage keys (In_loc clock (locationFor si (pr_User p)))), w))"

definition removal :: "uuid \<Rightarrow> uuid \<Rightarrow> (db_error, int) call" where
  "removal user passkeyID =
     InTx (and_then (reading (LockUser user)) (\<lambda>_. writing (DeletePasskey user passkeyID))) Failure"

definition removePasskey ::
  "site \<Rightarrow> principal \<Rightarrow> string \<Rightarrow> bool \<Rightarrow> gotime \<Rightarrow> world \<Rightarrow> passkeys_answer \<times> world" where
  "removePasskey si p path htmx clock =
     (case si_parse_uuid si path of
        None \<Rightarrow> (\<lambda>w. (Not_found, w))
      | Some passkeyID \<Rightarrow>
          answering (removal (us_ID (pr_User p)) passkeyID) (\<lambda>_. Server_error) (\<lambda>removed.
            if removed = 0 then (\<lambda>w. (Not_found, w))
            else if se_PasskeyCredentialID (pr_Session p) = Some passkeyID then (\<lambda>w. (Redirect signInPath, w))
            else if htmx then renderPasskeys si p clock
            else (\<lambda>w. (Redirect passkeysPath, w))))"

section \<open>Enrolling a device\<close>

text \<open>What the handlers hold: go-webauthn, the ceremony cookie, the session store and the hash of
  tokens.\<close>

record ('s, 'c, 'a, 'o) front =
  fo_wa :: "('s, 'c, 'a, 'o) webauthn"
  fo_passkeys :: passkeys
  fo_sessions :: sessions
  fo_hash :: "string \<Rightarrow> string"

definition registrationRefusal :: "passkey_error \<Rightarrow> ('x, 'u) page_answer" where
  "registrationRefusal e =
     (case e of
        ErrNotVerified \<Rightarrow> Refused (''This device didn'' @ right_quote
            @ ''t verify you. Turn on its screen lock or set a PIN, then try again.'')
      | ErrNotDiscoverable \<Rightarrow> Refused (''This device can'' @ right_quote
            @ ''t store a passkey. Try another device or a security key.'')
      | ErrCeremonyGone \<Rightarrow> Refused ''The request timed out. Try again.''
      | ErrAlreadyRegistered \<Rightarrow> Refused ''This device already has a passkey for sprig.''
      | ErrFailedVerification \<Rightarrow> Refused (''The passkey couldn'' @ right_quote @ ''t be verified and wasn''
            @ right_quote @ ''t added. Try again.'')
      | ErrBadCredential \<Rightarrow> Bad_request
      | _ \<Rightarrow> Server_error)"

definition registerChallenge ::
  "('s, 'c, 'a, 'o) front \<Rightarrow> fresh_row \<Rightarrow> principal \<Rightarrow> gotime \<Rightarrow> world \<Rightarrow> ('o \<times> http_cookie, string) page_answer \<times> world" where
  "registerChallenge f fr p clock =
     read_or (ListPasskeys (us_ID (pr_User p))) (\<lambda>_. Server_error) (\<lambda>held.
     answering (BeginRegistration (fo_wa f) (fo_passkeys f) (fo_hash f) fr clock (pr_User p) held)
       (\<lambda>_. Server_error) (\<lambda>creation w. (Page creation, w)))"

definition register_passkey ::
  "('s, 'c, 'a, 'o) front \<Rightarrow> site \<Rightarrow> principal \<Rightarrow> uuid \<Rightarrow> gotime \<Rightarrow> request_cookies \<Rightarrow> form \<Rightarrow> string \<Rightarrow> bool
     \<Rightarrow> gotime \<Rightarrow> world \<Rightarrow> passkeys_answer \<times> world" where
  "register_passkey f si p newID created cookies get agent htmx clock =
     read_or (ListPasskeys (us_ID (pr_User p))) (\<lambda>_. Server_error) (\<lambda>_.
     answering (FinishRegistration (fo_wa f) (fo_passkeys f) (fo_hash f) newID created clock cookies
         (pr_User p) (get credentialField) (browserName (userAgentOf agent)))
       registrationRefusal (\<lambda>_.
     if \<not> htmx then (\<lambda>w. (Redirect passkeysPath, w)) else renderPasskeys si p clock))"

section \<open>Signing in\<close>

definition signInChallenge ::
  "('s, 'c, 'a, 'o) front \<Rightarrow> fresh_row \<Rightarrow> gotime \<Rightarrow> world \<Rightarrow> ('o \<times> http_cookie, string) page_answer \<times> world" where
  "signInChallenge f fr clock =
     answering (BeginAssertion (fo_wa f) (fo_passkeys f) (fo_hash f) fr clock) (\<lambda>_. Server_error)
       (\<lambda>assertion w. (Page assertion, w))"

definition refuseSignIn :: "passkey_error \<Rightarrow> (unit, string) page_answer" where
  "refuseSignIn e =
     (case e of
        ErrNotVerified \<Rightarrow> Refused (''This device didn'' @ right_quote @ ''t verify you. Unlock it and try again.'')
      | ErrUnknownCredential \<Rightarrow> Refused (''This passkey isn'' @ right_quote
            @ ''t registered. It may have been removed on the Passkeys page.'')
      | ErrClonedCredential _ _ \<Rightarrow> Refused (''This passkey can'' @ right_quote
            @ ''t be used. Ask the person who runs this server for a sign-in link.'')
      | ErrFailedVerification \<Rightarrow> Refused (''This passkey couldn'' @ right_quote @ ''t be verified. Try again.'')
      | ErrCeremonyGone \<Rightarrow> Refused ''Sign-in timed out. Try again.''
      | ErrBadCredential \<Rightarrow> Bad_request
      | _ \<Rightarrow> Server_error)"

text \<open>A browser that was signed in gets a new session in place of the one it arrived with.  The
  redirect sets the session cookie.\<close>

definition replace_session ::
  "('s, 'c, 'a, 'o) front \<Rightarrow> request_cookies \<Rightarrow> string \<Rightarrow> uuid \<Rightarrow> gotime \<Rightarrow> uuid \<Rightarrow> uuid option \<Rightarrow> uuid \<Rightarrow> string
     \<Rightarrow> string \<Rightarrow> world \<Rightarrow> ('x, string) page_answer \<times> world" where
  "replace_session f cookies token newID clock user garden passkey agent landing =
     answering (DeleteFromRequest (fo_hash f) (fo_sessions f) cookies) (\<lambda>_. Server_error) (\<lambda>_.
     answering (Create (fo_hash f) token newID clock user garden (Some passkey) agent) (\<lambda>_. Server_error)
       (\<lambda>_ w. (Redirect landing, w)))"

definition signIn ::
  "('s, 'c, 'a, 'o) front \<Rightarrow> string \<Rightarrow> uuid \<Rightarrow> request_cookies \<Rightarrow> form \<Rightarrow> string \<Rightarrow> gotime
     \<Rightarrow> world \<Rightarrow> (unit, string) page_answer \<times> world" where
  "signIn f token newID cookies get agent clock =
     answering (FinishAssertion (fo_wa f) (fo_passkeys f) (fo_hash f) clock cookies (get credentialField))
       refuseSignIn (\<lambda>(user, passkey).
     replace_session f cookies token newID clock (us_ID user) None (pk_ID passkey) agent
       (returnPath (get nextField)))"

section \<open>Recovering an account\<close>

definition RecoveryBatchSize :: nat where "RecoveryBatchSize = 10"

text \<open>The posted code in the form it is stored under.\<close>

definition posted_code :: "(nat \<Rightarrow> nat) \<Rightarrow> form \<Rightarrow> string option" where
  "posted_code toLower get = CanonicalRecoveryCode toLower (runes_in (get codeField))"

definition lookUp ::
  "(string \<Rightarrow> string) \<Rightarrow> string option \<Rightarrow> (db_error, (string \<times> app_user) option) call" where
  "lookUp hashToken code =
     (case code of
        None \<Rightarrow> return None
      | Some c \<Rightarrow> (\<lambda>w.
          (case reading (GetLiveRecoveryCode (hashToken c)) w of
             (Inl NoRows, w) \<Rightarrow> (Inr None, w)
           | (Inl e, w) \<Rightarrow> (Inl e, w)
           | (Inr user, w) \<Rightarrow> and_then (reading (GetUser user)) (\<lambda>u. return (Some (c, u))) w)))"

definition codeCannotBeUsed :: string where
  "codeCannotBeUsed = ''It may have been used already or replaced by a newer set. Try another code, or ask the person who runs this server for a sign-in link.''"

definition check_code ::
  "('s, 'c, 'a, 'o) front \<Rightarrow> (nat \<Rightarrow> nat) \<Rightarrow> form \<Rightarrow> world \<Rightarrow> (string, string) page_answer \<times> world" where
  "check_code f toLower get =
     answering (lookUp (fo_hash f) (posted_code toLower get)) (\<lambda>_. Server_error) (\<lambda>found w.
       (case found of None \<Rightarrow> Refused codeCannotBeUsed | Some (c, _) \<Rightarrow> Page c, w))"

definition recover_challenge ::
  "('s, 'c, 'a, 'o) front \<Rightarrow> fresh_row \<Rightarrow> (nat \<Rightarrow> nat) \<Rightarrow> form \<Rightarrow> gotime
     \<Rightarrow> world \<Rightarrow> ('o \<times> http_cookie, string) page_answer \<times> world" where
  "recover_challenge f fr toLower get clock =
     answering (lookUp (fo_hash f) (posted_code toLower get)) (\<lambda>_. Server_error) (\<lambda>found.
       case found of
         None \<Rightarrow> (\<lambda>w. (Refused '''', w))
       | Some (_, user) \<Rightarrow>
           read_or (ListPasskeys (us_ID user)) (\<lambda>_. Server_error) (\<lambda>held.
           answering (BeginRegistration (fo_wa f) (fo_passkeys f) (fo_hash f) fr clock user held)
             (\<lambda>_. Server_error) (\<lambda>creation w. (Page creation, w))))"

datatype recover_error = CodeUsed | Recover_store db_error | Recover_passkey passkey_error

definition redemption ::
  "('s, 'c, 'a, 'o) front \<Rightarrow> uuid \<Rightarrow> gotime \<Rightarrow> request_cookies \<Rightarrow> form \<Rightarrow> string \<Rightarrow> gotime \<Rightarrow> string
     \<Rightarrow> (recover_error, passkey_credential) call" where
  "redemption f newID created cookies get agent clock code =
     InTx (and_then (on_error (\<lambda>e. if e = NoRows then CodeUsed else Recover_store e)
             (writing (RedeemRecoveryCode clock (fo_hash f code)))) (\<lambda>userID.
           and_then (on_error Recover_store (reading (GetUser userID))) (\<lambda>user.
           on_error Recover_passkey (FinishRegistration (fo_wa f) (fo_passkeys f) (fo_hash f) newID created clock
             cookies user (get credentialField) (browserName (userAgentOf agent))))))
       (Recover_store Failure)"

definition refuse_recovery :: "recover_error \<Rightarrow> (unit, string) page_answer" where
  "refuse_recovery e =
     (case e of
        CodeUsed \<Rightarrow> Refused codeCannotBeUsed
      | Recover_store _ \<Rightarrow> Server_error
      | Recover_passkey e \<Rightarrow> registrationRefusal e)"

definition register_recovered ::
  "('s, 'c, 'a, 'o) front \<Rightarrow> uuid \<Rightarrow> gotime \<Rightarrow> request_cookies \<Rightarrow> form \<Rightarrow> string \<Rightarrow> (nat \<Rightarrow> nat) \<Rightarrow> gotime
     \<Rightarrow> world \<Rightarrow> (unit, string) page_answer \<times> world" where
  "register_recovered f newID created cookies get agent toLower clock =
     (case posted_code toLower get of
        None \<Rightarrow> (\<lambda>w. (Refused codeCannotBeUsed, w))
      | Some c \<Rightarrow> answering (redemption f newID created cookies get agent clock c) refuse_recovery
                   (\<lambda>_ w. (Redirect signInPath, w)))"

section \<open>The Recovery codes page\<close>

record recovery_page =
  rp_Codes :: "string list"
  rp_Live :: bool
  rp_Left :: string
  rp_Made :: string

definition recoveryBatch :: "uuid \<Rightarrow> (db_error, (int \<times> int \<times> gotime) option) call" where
  "recoveryBatch user w =
     (case reading (GetRecoveryBatch user) w of
        (Inl NoRows, w) \<Rightarrow> (Inr None, w)
      | (Inl e, w) \<Rightarrow> (Inl e, w)
      | (Inr batch, w) \<Rightarrow> (Inr (Some batch), w))"

definition show_recovery ::
  "site \<Rightarrow> principal \<Rightarrow> gotime \<Rightarrow> world \<Rightarrow> (recovery_page, string) page_answer \<times> world" where
  "show_recovery si p clock =
     answering (recoveryBatch (us_ID (pr_User p))) (\<lambda>_. Server_error) (\<lambda>batch w.
       (Page (case batch of
          None \<Rightarrow> \<lparr>rp_Codes = [], rp_Live = False, rp_Left = '''', rp_Made = ''''\<rparr>
        | Some (n, unused, made) \<Rightarrow>
            \<lparr>rp_Codes = [], rp_Live = True, rp_Left = codesLeftWord unused n,
             rp_Made = ''Made '' @ agoWord made (In_loc clock (locationFor si (pr_User p)))\<rparr>), w))"

text \<open>The random bytes of the ten codes and the ids of their rows are arguments.\<close>

definition createCodes ::
  "(string \<Rightarrow> string) \<Rightarrow> principal \<Rightarrow> nat list list \<Rightarrow> uuid list \<Rightarrow> gotime
     \<Rightarrow> world \<Rightarrow> (recovery_page, string) page_answer \<times> world" where
  "createCodes hashToken p raws ids clock =
     (let codes = map NewRecoveryCode (take RecoveryBatchSize raws) in
      answering (InTx (and_then (writing (DeleteRecoveryCodes (us_ID (pr_User p)))) (\<lambda>_.
            writing (CreateRecoveryBatch ids (us_ID (pr_User p)) (map hashToken codes) clock))) Failure)
        (\<lambda>_. Server_error)
        (\<lambda>_ w. (Page \<lparr>rp_Codes = codes, rp_Live = False, rp_Left = '''', rp_Made = ''''\<rparr>, w)))"

section \<open>What the handlers may write\<close>

definition local_path :: "string \<Rightarrow> bool" where
  "local_path s \<longleftrightarrow> HasPrefix s ''/'' \<and> \<not> HasPrefix s ''//'' \<and> \<not> HasPrefix s [CHR ''/'', CHR 0x5C]
     \<and> list_all (\<lambda>c. c \<notin> {CHR 0x09, CHR 0x0D, CHR 0x0A}) s"

lemma returnPath_local: "local_path (returnPath next)"
  by (auto simp: returnPath_def local_path_def todayPath_def HasPrefix_def list_all_iff list_ex_iff)

text \<open>The session a sign-in starts, and the table with it in place of an earlier one.\<close>

definition new_session :: "uuid \<Rightarrow> string \<Rightarrow> uuid \<Rightarrow> uuid option \<Rightarrow> uuid \<Rightarrow> string \<Rightarrow> gotime \<Rightarrow> session" where
  "new_session newID hash user garden passkey agent now =
     \<lparr>se_ID = newID, se_TokenHash = hash, se_UserID = user, se_GardenID = garden,
      se_PasskeyCredentialID = Some passkey, se_UserAgent = (if agent \<noteq> '''' then Some agent else None),
      se_CreatedAt = now, se_LastSeenAt = now\<rparr>"

definition session_started :: "session \<Rightarrow> session list \<Rightarrow> session list \<Rightarrow> bool" where
  "session_started s before ss \<longleftrightarrow> s \<in> set ss \<and> set ss \<subseteq> insert s (set before)"

lemma Delete_call: "Delete hashToken token = on_error ErrStore (writing (DeleteSession (hashToken token)))"
  by (simp add: fun_eq_iff Delete_def on_error_def split: prod.split sum.split)

lemma Create_call: "Create hashToken token newID now user garden passkey agent
    = and_then (on_error ErrStore (writing (CreateSession newID (hashToken token) user garden passkey
        (if agent \<noteq> '''' then Some agent else None) now))) (\<lambda>session. return (token, session))"
  by (simp add: fun_eq_iff Create_def on_error_def and_then_def return_def split: prod.split sum.split)

definition but_sessions :: "db \<Rightarrow> db" where
  "but_sessions d = d\<lparr>t_session := []\<rparr>"

lemma DeleteFromRequest_triple:
  "triple (\<lambda>d. d = d1) (DeleteFromRequest hashToken s cookies)
     (\<lambda>_ d. but_sessions d = but_sessions d1 \<and> set (t_session d) \<subseteq> set (t_session d1)) (\<lambda>e d. d = d1)"
proof -
  have "triple (\<lambda>d. d = d1) (Delete hashToken token)
      (\<lambda>_ d. but_sessions d = but_sessions d1 \<and> set (t_session d) \<subseteq> set (t_session d1)) (\<lambda>e d. d = d1)" for token
    unfolding Delete_call
    by (intro triple_on_error triple_writing) (auto simp: DeleteSession_def but_sessions_def)
  then show ?thesis
    by (auto simp: DeleteFromRequest_def [abs_def] Let_def triple_def)
qed

lemma CreateSession_started:
  "CreateSession newID hash user garden (Some passkey) (if agent \<noteq> '''' then Some agent else None) now d = Inr (s, d')
     \<Longrightarrow> d' = d\<lparr>t_session := t_session d @ [new_session newID hash user garden passkey agent now]\<rparr>"
  by (auto simp: CreateSession_def Let_def new_session_def split: if_splits)

lemma Create_triple:
  "triple (\<lambda>d. d = d1) (Create hashToken token newID now user garden (Some passkey) agent)
     (\<lambda>_ d. but_sessions d = but_sessions d1
        \<and> session_started (new_session newID (hashToken token) user garden passkey agent now) (t_session d1) (t_session d))
     (\<lambda>e d. d = d1)"
proof -
  let ?s = "new_session newID (hashToken token) user garden passkey agent now"
  let ?Q = "\<lambda>d. but_sessions d = but_sessions d1 \<and> session_started ?s (t_session d1) (t_session d)"
  have "triple (\<lambda>d. d = d1) (on_error ErrStore (writing (CreateSession newID (hashToken token) user garden (Some passkey)
        (if agent \<noteq> '''' then Some agent else None) now))) (\<lambda>_. ?Q) (\<lambda>e d. d = d1)"
    by (intro triple_on_error triple_writing) (auto simp: but_sessions_def session_started_def dest: CreateSession_started)
  then show ?thesis
    unfolding Create_call by (rule triple_and_then) (auto intro: triple_return)
qed

lemma session_started_fewer:
  "session_started s before ss \<Longrightarrow> set before \<subseteq> set earlier \<Longrightarrow> session_started s earlier ss"
  by (auto simp: session_started_def)

text \<open>What \<open>replace_session\<close> answers, and the sessions it leaves.\<close>

definition replaced ::
  "session \<Rightarrow> string \<Rightarrow> db \<Rightarrow> ('x, string) page_answer \<Rightarrow> db \<Rightarrow> bool" where
  "replaced s landing d1 r d \<longleftrightarrow> but_sessions d = but_sessions d1
     \<and> (r = Redirect landing \<and> session_started s (t_session d1) (t_session d)
        \<or> r = Server_error \<and> set (t_session d) \<subseteq> set (t_session d1))"

lemma replace_session_ends:
  "ends (\<lambda>d. d = d1) (replace_session f cookies token newID now user garden passkey agent landing)
     (replaced (new_session newID (fo_hash f token) user garden passkey agent now) landing d1)"
  unfolding replace_session_def
proof (rule ends_answering [OF DeleteFromRequest_triple])
  let ?s = "new_session newID (fo_hash f token) user garden passkey agent now"
  let ?m = "answering (Create (fo_hash f) token newID now user garden (Some passkey) agent) (\<lambda>_. Server_error)
      (\<lambda>_ w. (Redirect landing, w))"
  fix x :: unit
  show "ends (\<lambda>d. but_sessions d = but_sessions d1 \<and> set (t_session d) \<subseteq> set (t_session d1)) ?m (replaced ?s landing d1)"
  proof (rule ends_pointwise, rule ends_answering [OF Create_triple])
    fix d2
    assume d2: "but_sessions d2 = but_sessions d1 \<and> set (t_session d2) \<subseteq> set (t_session d1)"
    show "d = d2 \<Longrightarrow> replaced ?s landing d1 Server_error d" for d
      using d2 by (simp add: replaced_def)
    show "ends (\<lambda>d. but_sessions d = but_sessions d2 \<and> session_started ?s (t_session d2) (t_session d))
        (\<lambda>w. (Redirect landing, w)) (replaced ?s landing d1)"
      by (intro ends_answer) (metis d2 replaced_def session_started_fewer)
  qed
qed (simp add: replaced_def)

section \<open>Removing a passkey\<close>

text \<open>The account's passkey \<open>i\<close> is gone and so are the sessions it signed in.\<close>

definition passkey_removed :: "uuid \<Rightarrow> uuid \<Rightarrow> db \<Rightarrow> db \<Rightarrow> bool" where
  "passkey_removed user i d d' \<longleftrightarrow>
     d' = d\<lparr>t_passkey := delete_where (\<lambda>k. pk_UserID k = user \<and> pk_ID k = i) (t_passkey d),
            t_session := delete_where (\<lambda>s. se_UserID s = user \<and> se_PasskeyCredentialID s = Some i) (t_session d)\<rparr>
     \<and> pk_UserID ` set (t_passkey d') = pk_UserID ` set (t_passkey d)"

lemma owners_left:
  assumes "distinct (map pk_ID ks)" "1 < count_where (\<lambda>h. pk_UserID h = user) ks"
  shows "pk_UserID ` {k \<in> set ks. \<not> (pk_UserID k = user \<and> pk_ID k = i)} = pk_UserID ` set ks"
proof -
  let ?mine = "filter (\<lambda>h. pk_UserID h = user) ks"
  have "distinct (map pk_ID ?mine)" using assms(1) by (rule distinct_map_filter)
  moreover have "1 < length ?mine" using assms(2) by (simp add: count_where_def)
  ultimately obtain a b rest where ab: "?mine = a # b # rest" "pk_ID a \<noteq> pk_ID b"
    by (cases ?mine; cases "tl ?mine") auto
  have mem: "a \<in> set ?mine" "b \<in> set ?mine" unfolding ab(1) by simp_all
  then obtain c where c: "c \<in> set ks" "pk_UserID c = user" "pk_ID c \<noteq> i"
    using ab(2) by (cases "pk_ID a = i") auto
  show ?thesis
  proof
    show "pk_UserID ` set ks \<subseteq> pk_UserID ` {k \<in> set ks. \<not> (pk_UserID k = user \<and> pk_ID k = i)}"
    proof
      fix x
      assume "x \<in> pk_UserID ` set ks"
      then obtain k where "k \<in> set ks" "x = pk_UserID k" by blast
      then show "x \<in> pk_UserID ` {k \<in> set ks. \<not> (pk_UserID k = user \<and> pk_ID k = i)}"
        using c image_eqI [of x pk_UserID c] by (cases "x = user") auto
    qed
  qed auto
qed

lemma DeletePasskey_removed:
  assumes "distinct (map pk_ID (t_passkey d))" "DeletePasskey user i d = Inr (n, d')"
  shows "if n = 0 then d' = d else passkey_removed user i d d'"
proof -
  let ?many = "1 < count_where (\<lambda>h. pk_UserID h = user) (t_passkey d)"
  let ?p = "\<lambda>k. pk_UserID k = user \<and> pk_ID k = i \<and> 1 < count_where (\<lambda>held. pk_UserID held = pk_UserID k) (t_passkey d)"
  have d': "d' = drop_passkeys ?p d" and n: "n = count_where ?p (t_passkey d)"
    using assms(2) by (simp_all add: DeletePasskey_def Let_def)
  show ?thesis
  proof (cases "n = 0")
    case True
    then have none: "\<forall>k \<in> set (t_passkey d). \<not> ?p k" by (simp add: n count_where_0)
    then have "filter ?p (t_passkey d) = []" "filter (\<lambda>k. \<not> ?p k) (t_passkey d) = t_passkey d"
      by (simp_all add: filter_empty_conv filter_id_conv)
    then show ?thesis using True by (simp add: d' drop_passkeys_def delete_where_def Let_def)
  next
    case False
    then obtain k where k: "k \<in> set (t_passkey d)" "?p k" by (auto simp: n count_where_0)
    have p: "?p = (\<lambda>k. pk_UserID k = user \<and> pk_ID k = i)" using k(2) by (auto simp: fun_eq_iff)
    have gone: "list_ex (\<lambda>k. se_UserID s = pk_UserID k \<and> se_PasskeyCredentialID s = Some (pk_ID k))
        (filter (\<lambda>k. pk_UserID k = user \<and> pk_ID k = i) (t_passkey d))
      \<longleftrightarrow> se_UserID s = user \<and> se_PasskeyCredentialID s = Some i" for s :: session
      using k by (auto simp: list_ex_iff)
    have many: ?many using k(2) by auto
    have "d' = d\<lparr>t_passkey := delete_where (\<lambda>k. pk_UserID k = user \<and> pk_ID k = i) (t_passkey d),
        t_session := delete_where (\<lambda>s. se_UserID s = user \<and> se_PasskeyCredentialID s = Some i) (t_session d)\<rparr>"
      unfolding d' drop_passkeys_def Let_def p gone ..
    with False owners_left [OF assms(1) many, of i] show ?thesis by (simp add: passkey_removed_def)
  qed
qed

lemma removal_triple:
  assumes "distinct (map pk_ID (t_passkey d0))"
  shows "triple (\<lambda>d. d = d0) (removal user i)
     (\<lambda>n d. if n = 0 then d = d0 else passkey_removed user i d0 d) (\<lambda>e d. d = d0)"
  unfolding removal_def
proof (intro triple_InTx [where F = "\<lambda>_. True"] triple_and_then)
  show "triple (\<lambda>d. d = d0) (reading (LockUser user)) (\<lambda>_ d. d = d0) (\<lambda>e d. True)"
    by (intro triple_reading) simp_all
  show "triple (\<lambda>d. d = d0) (writing (DeletePasskey user i))
      (\<lambda>n d. if n = 0 then d = d0 else passkey_removed user i d0 d) (\<lambda>e d. True)" for x :: unit
    by (intro triple_writing) (use DeletePasskey_removed [OF assms, of user i] in \<open>auto split: if_splits\<close>)
qed simp

lemma renderPasskeys_ends: "(\<And>r d. P d \<Longrightarrow> R r d) \<Longrightarrow> ends P (renderPasskeys si p clock) R"
  unfolding renderPasskeys_def by (intro ends_read ends_answer) auto

section \<open>Properties\<close>

text \<open>
  (C2) A session starts only for an account a passkey proved: \<open>POST /signin\<close> redirects only after
  a checked assertion, to a path on this site, and the one session added is of that account, with
  the passkey that proved it, no garden and the time of the request; any other answer adds no
  session.
\<close>

theorem signIn_only_proven:
  "case signIn f token newID cookies get agent clock w of (r, w') \<Rightarrow>
     (case r of
        Redirect landing \<Rightarrow> local_path landing
          \<and> (\<exists>u k d. signed_in (fo_wa f) (fo_passkeys f) (fo_hash f) clock cookies (get credentialField) (tables w) u k d
               \<and> but_sessions (tables w') = but_sessions d
               \<and> session_started (new_session newID (fo_hash f token) (us_ID u) None (pk_ID k) agent clock)
                   (t_session (tables w)) (t_session (tables w')))
      | _ \<Rightarrow> set (t_session (tables w')) \<subseteq> set (t_session (tables w)))"
proof -
  let ?landing = "returnPath (get nextField)"
  let ?R = "\<lambda>r d'. (case r of
        Redirect landing \<Rightarrow> local_path landing
          \<and> (\<exists>u k d. signed_in (fo_wa f) (fo_passkeys f) (fo_hash f) clock cookies (get credentialField) (tables w) u k d
               \<and> but_sessions d' = but_sessions d
               \<and> session_started (new_session newID (fo_hash f token) (us_ID u) None (pk_ID k) agent clock)
                   (t_session (tables w)) (t_session d'))
      | _ \<Rightarrow> set (t_session d') \<subseteq> set (t_session (tables w)))"
  have "ends (\<lambda>d. d = tables w) (signIn f token newID cookies get agent clock) ?R"
    unfolding signIn_def
  proof (rule ends_answering [OF FinishAssertion_triple])
    fix e d
    assume "but_ceremonies d = but_ceremonies (tables w)"
    then have "t_session d = t_session (tables w)" by (rule but_ceremonies_tables)
    then show "?R (refuseSignIn e) d" by (cases e) (simp_all add: refuseSignIn_def)
  next
    fix x :: "app_user \<times> passkey_credential"
    obtain u k where x: "x = (u, k)" by fastforce
    show "ends (case x of (u, k) \<Rightarrow> signed_in (fo_wa f) (fo_passkeys f) (fo_hash f) clock cookies
          (get credentialField) (tables w) u k)
      (case x of (user, passkey) \<Rightarrow> replace_session f cookies token newID clock (us_ID user) None (pk_ID passkey) agent ?landing) ?R"
      unfolding x prod.case
    proof (rule ends_pointwise, rule ends_mono [OF replace_session_ends])
      fix d1 r d
      let ?s = "new_session newID (fo_hash f token) (us_ID u) None (pk_ID k) agent clock"
      assume in1: "signed_in (fo_wa f) (fo_passkeys f) (fo_hash f) clock cookies (get credentialField) (tables w) u k d1"
      show "d = d1 \<Longrightarrow> d = d1" for d .
      from in1 have s: "t_session d1 = t_session (tables w)"
        by (auto simp: signed_in_def dest: but_passkeys_tables)
      assume "replaced ?s ?landing d1 r d"
      then consider "set (t_session d) \<subseteq> set (t_session d1)" "r = Server_error"
        | "r = Redirect ?landing" "but_sessions d = but_sessions d1" "session_started ?s (t_session d1) (t_session d)"
        unfolding replaced_def by blast
      then show "?R r d"
      proof cases
        case 1
        then show ?thesis using s by simp
      next
        case 2
        then show ?thesis using in1 returnPath_local s by auto
      qed
    qed
  qed
  from ends_run [OF this] show ?thesis .
qed

text \<open>
  (C16) Removing a passkey leaves every account that had one with one: a removal deletes that passkey
  of the reader's account and the sessions it signed in, and nothing else, or it changes nothing.
\<close>

theorem removePasskey_keeps_one:
  assumes "distinct (map pk_ID (t_passkey (tables w)))"
  shows "case removePasskey si p path htmx clock w of (r, w') \<Rightarrow>
     pk_UserID ` set (t_passkey (tables w')) = pk_UserID ` set (t_passkey (tables w))
     \<and> (tables w' = tables w
         \<or> (\<exists>i. si_parse_uuid si path = Some i \<and> passkey_removed (us_ID (pr_User p)) i (tables w) (tables w')))"
proof -
  let ?R = "\<lambda>r d. d = tables w
      \<or> (\<exists>i. si_parse_uuid si path = Some i \<and> passkey_removed (us_ID (pr_User p)) i (tables w) d)"
  have "ends (\<lambda>d. d = tables w) (removePasskey si p path htmx clock) ?R"
    unfolding removePasskey_def
  proof (intro ends_branches(2) ends_answer)
    fix i
    assume i: "si_parse_uuid si path = Some i"
    show "ends (\<lambda>d. d = tables w) (answering (removal (us_ID (pr_User p)) i) (\<lambda>_. Server_error) (\<lambda>removed.
        if removed = 0 then \<lambda>w. (Not_found, w)
        else if se_PasskeyCredentialID (pr_Session p) = Some i then \<lambda>w. (Redirect signInPath, w)
        else if htmx then renderPasskeys si p clock else (\<lambda>w. (Redirect passkeysPath, w)))) ?R"
      by (rule ends_answering [OF removal_triple [OF assms]])
        (use i in \<open>auto intro!: ends_branches(1) ends_answer renderPasskeys_ends split: if_splits\<close>)
  qed simp
  from ends_run [OF this] show ?thesis
    by (cases "removePasskey si p path htmx clock w") (auto simp: passkey_removed_def)
qed

definition ex_two_keys :: world where
  "ex_two_keys = \<lparr>tables = empty_db\<lparr>t_passkey := [ex_key, ex_key\<lparr>pk_ID := ''k2''\<rparr>]\<rparr>, faults = []\<rparr>"

theorem removePasskey_keeps_one_witness:
  "\<exists>w' w''. removePasskey ex_site ex_sitter ''k1'' False zero_time ex_two_keys = (Redirect passkeysPath, w')
     \<and> removePasskey ex_site ex_sitter ''k2'' False zero_time w' = (Not_found, w'')
     \<and> pk_UserID ` set (t_passkey (tables w')) = pk_UserID ` set (t_passkey (tables ex_two_keys))"
proof -
  let ?w' = "ex_two_keys\<lparr>tables := empty_db\<lparr>t_passkey := [ex_key\<lparr>pk_ID := ''k2''\<rparr>]\<rparr>\<rparr>"
  note defs = removePasskey_def ex_site_def ex_sitter_def ex_two_keys_def ex_key_def answering_def removal_def InTx_def
    and_then_def writing_def reading_def LockUser_def DeletePasskey_def drop_passkeys_def count_where_def delete_where_def
    empty_db_def zero_Principal_def zero_Session_def zero_AppUser_def
  have one: "removePasskey ex_site ex_sitter ''k1'' False zero_time ex_two_keys = (Redirect passkeysPath, ?w')"
    by (simp add: defs)
  have two: "\<exists>w''. removePasskey ex_site ex_sitter ''k2'' False zero_time ?w' = (Not_found, w'')"
    by (simp add: defs)
  have "distinct (map pk_ID (t_passkey (tables ex_two_keys)))" by (simp add: ex_two_keys_def ex_key_def)
  from removePasskey_keeps_one [OF this, where si = ex_site and p = ex_sitter and path = "''k1''" and htmx = False
      and clock = zero_time] one two show ?thesis by simp
qed

definition recovered ::
  "('s, 'c, 'a, 'o) front \<Rightarrow> request_cookies \<Rightarrow> string \<Rightarrow> string \<Rightarrow> gotime \<Rightarrow> db \<Rightarrow> db \<Rightarrow> bool" where
  "recovered f cookies body code clock d d' \<longleftrightarrow>
     (\<exists>userID d1 user row session k. RedeemRecoveryCode clock (fo_hash f code) d = Inr (userID, d1)
        \<and> GetUser userID d1 = Inr user \<and> challenge_of (fo_wa f) (fo_passkeys f) (fo_hash f) clock cookies d1 (row, session)
        \<and> wc_UserID row = Some (us_ID user) \<and> registered (fo_wa f) session user body k d'
        \<and> but_passkeys d' = but_passkeys d1)"

lemma redemption_triple:
  "triple (\<lambda>d. d = d0) (redemption f newID created cookies get agent clock code)
     (\<lambda>_ d. recovered f cookies (get credentialField) code clock d0 d) (\<lambda>e d. d = d0)"
  unfolding redemption_def
proof (intro triple_InTx [where F = "\<lambda>_. True"] triple_and_then)
  let ?P1 = "\<lambda>userID d. RedeemRecoveryCode clock (fo_hash f code) d0 = Inr (userID, d)"
  let ?P2 = "\<lambda>userID user d. ?P1 userID d \<and> GetUser userID d = Inr user"
  show "triple (\<lambda>d. d = d0) (on_error (\<lambda>e. if e = NoRows then CodeUsed else Recover_store e)
      (writing (RedeemRecoveryCode clock (fo_hash f code)))) ?P1 (\<lambda>e d. True)"
    by (intro triple_on_error triple_writing) auto
  show "triple (?P1 userID) (on_error Recover_store (reading (GetUser userID))) (?P2 userID) (\<lambda>e d. True)" for userID
    by (intro triple_on_error triple_reading) auto
  show "triple (?P2 userID user) (on_error Recover_passkey (FinishRegistration (fo_wa f) (fo_passkeys f) (fo_hash f)
      newID created clock cookies user (get credentialField) (browserName (userAgentOf agent))))
      (\<lambda>_ d. recovered f cookies (get credentialField) code clock d0 d) (\<lambda>e d. True)" for userID user
  proof (intro triple_on_error, rule triple_pointwise)
    fix d1
    assume d1: "?P2 userID user d1"
    let ?finish = "FinishRegistration (fo_wa f) (fo_passkeys f) (fo_hash f) newID created clock cookies user
        (get credentialField) (browserName (userAgentOf agent))"
    have "triple (\<lambda>d. d = d1) ?finish (\<lambda>_ d. but_passkeys d = but_passkeys d1) (\<lambda>_ d. but_passkeys d = but_passkeys d1)"
      by (rule triple_mono [OF FinishRegistration_frame]) auto
    from triple_conj [OF FinishRegistration_triple this]
    show "triple (\<lambda>d. d = d1) ?finish (\<lambda>_ d. recovered f cookies (get credentialField) code clock d0 d) (\<lambda>e d. True)"
      by (rule triple_mono) (use d1 in \<open>auto simp: recovered_def\<close>)
  qed
qed simp

text \<open>
  (C17) Recovery is all or nothing: the post redirects only when an unused code was spent and a passkey
  was registered, by a challenge of the code's own account, and no session starts; any other answer
  leaves the tables as they were, the code unused and the challenge still there.
\<close>

theorem recovery_all_or_nothing:
  "case register_recovered f newID created cookies get agent toLower clock w of (r, w') \<Rightarrow>
     (case r of
        Redirect landing \<Rightarrow> landing = signInPath \<and> t_session (tables w') = t_session (tables w)
          \<and> (\<exists>code. posted_code toLower get = Some code
               \<and> recovered f cookies (get credentialField) code clock (tables w) (tables w'))
      | _ \<Rightarrow> tables w' = tables w)"
proof -
  let ?R = "\<lambda>r d'. (case r of
        Redirect landing \<Rightarrow> landing = signInPath \<and> t_session d' = t_session (tables w)
          \<and> (\<exists>code. posted_code toLower get = Some code
               \<and> recovered f cookies (get credentialField) code clock (tables w) d')
      | _ \<Rightarrow> d' = tables w)"
  have same: "t_session d' = t_session (tables w)"
    if "recovered f cookies (get credentialField) code clock (tables w) d'" for code d'
  proof -
    from that obtain userID d1 where r: "RedeemRecoveryCode clock (fo_hash f code) (tables w) = Inr (userID, d1)"
      and b: "but_passkeys d' = but_passkeys d1" by (auto simp: recovered_def)
    from r have "t_session d1 = t_session (tables w)" by (auto simp: RedeemRecoveryCode_def Let_def split: sum.splits)
    with but_passkeys_tables(1) [OF b] show ?thesis by simp
  qed
  have "ends (\<lambda>d. d = tables w) (register_recovered f newID created cookies get agent toLower clock) ?R"
    unfolding register_recovered_def
  proof (intro ends_branches(2) ends_answer)
    fix code
    assume code: "posted_code toLower get = Some code"
    show "ends (\<lambda>d. d = tables w) (answering (redemption f newID created cookies get agent clock code) refuse_recovery
        (\<lambda>_ w. (Redirect signInPath, w))) ?R"
    proof (rule ends_answering [OF redemption_triple])
      show "d = tables w \<Longrightarrow> ?R (refuse_recovery e) d" for e d
        by (cases e) (auto simp: refuse_recovery_def registrationRefusal_def split: passkey_error.split)
    qed (use code same in \<open>auto intro!: ends_answer\<close>)
  qed simp
  from ends_run [OF this] show ?thesis .
qed

end
