(* ===== verification/Store_Handle.thy ===== *)
theory Store_Handle
  imports Store_People Store_Calls Go_Runes
begin

text \<open>
  Handles: \<open>src/internal/store/handle.go\<close>.  \<open>unicode.ToLower\<close>, \<open>unicode.IsLetter\<close> and
  \<open>unicode.IsDigit\<close> are the record \<open>unicode\<close>; \<open>rand.Text\<close> is an argument, one text per attempt.
\<close>

record unicode =
  un_ToLower :: "nat \<Rightarrow> nat"
  un_IsLetter :: "nat \<Rightarrow> bool"
  un_IsDigit :: "nat \<Rightarrow> bool"

definition handleSuffixLength :: nat where "handleSuffixLength = 4"
definition maxHandleLength :: nat where "maxHandleLength = 32"
definition handleAttempts :: nat where "handleAttempts = 10"

definition alnum :: "unicode \<Rightarrow> nat \<Rightarrow> bool" where
  "alnum u r \<longleftrightarrow> un_IsLetter u r \<or> un_IsDigit u r"

definition underscore :: nat where "underscore = 95"

text \<open>The loop of \<open>slugify\<close>: the runes so far and whether a separator was passed since.\<close>

fun slug_loop :: "unicode \<Rightarrow> bool \<Rightarrow> nat list \<Rightarrow> nat list \<Rightarrow> nat list" where
  "slug_loop u separated runes [] = runes"
| "slug_loop u separated runes (r # rs) =
     (if \<not> alnum u r then slug_loop u True runes rs
      else slug_loop u False
        ((if separated \<and> 0 < length runes then runes @ [underscore] else runes) @ [r]) rs)"

definition trim_right :: "'a \<Rightarrow> 'a list \<Rightarrow> 'a list" where
  "trim_right c rs = rev (dropWhile (\<lambda>r. r = c) (rev rs))"

definition slug_runes :: "unicode \<Rightarrow> nat list \<Rightarrow> nat \<Rightarrow> nat list" where
  "slug_runes u name limit =
     (let runes = slug_loop u False [] (map (un_ToLower u) name);
          runes = (if limit < length runes then take limit runes else runes)
      in trim_right underscore runes)"

definition slugify :: "unicode \<Rightarrow> string \<Rightarrow> nat \<Rightarrow> string" where
  "slugify u name limit = string_of_runes (slug_runes u (runes_in name) limit)"

definition ToLower_base32 :: "string \<Rightarrow> string" where
  "ToLower_base32 s = map (\<lambda>c. let k = of_char c :: nat in if 65 \<le> k \<and> k \<le> 90 then char_of (k + 32) else c) s"

definition handleCandidate :: "unicode \<Rightarrow> (nat \<Rightarrow> string) \<Rightarrow> string \<Rightarrow> nat \<Rightarrow> string" where
  "handleCandidate u rand displayName attempt =
     (let limit = (if 1 < attempt then maxHandleLength - (handleSuffixLength + 1) else maxHandleLength);
          slug = slugify u displayName limit;
          slug = (if slug = '''' then ''gardener'' else slug)
      in if attempt \<le> 1 then slug
         else slug @ ''_'' @ ToLower_base32 (take handleSuffixLength (rand attempt)))"

definition HandleFor :: "unicode \<Rightarrow> string \<Rightarrow> string" where
  "HandleFor u displayName = handleCandidate u (\<lambda>_. '''') displayName 1"

definition NormaliseHandle :: "unicode \<Rightarrow> string \<Rightarrow> string" where
  "NormaliseHandle u handle = slugify u handle maxHandleLength"

text \<open>\<open>LockUsers\<close> of \<open>app_user.sql.go\<close> blocks other inserts until the transaction ends, and writes
  nothing.\<close>

definition LockUsers :: "db \<Rightarrow> db_error + unit" where
  "LockUsers d = Inr ()"

datatype handle_error = ErrHandleTaken | NoFreeHandle | Handle_store db_error

definition CreateAccountWithHandle ::
  "gotime \<Rightarrow> uuid \<Rightarrow> string \<Rightarrow> string \<Rightarrow> string \<Rightarrow> (handle_error, app_user) call" where
  "CreateAccountWithHandle created user displayName handle timezone =
     on_error (\<lambda>e. if e = NoRows then ErrHandleTaken else Handle_store e)
       (writing (CreateUser created user displayName handle timezone))"

text \<open>The loop over the attempts from \<open>attempt\<close> on, \<open>left\<close> of them.\<close>

fun create_from ::
  "unicode \<Rightarrow> (nat \<Rightarrow> string) \<Rightarrow> gotime \<Rightarrow> uuid \<Rightarrow> string \<Rightarrow> string \<Rightarrow> nat \<Rightarrow> nat
     \<Rightarrow> (handle_error, app_user) call" where
  "create_from u rand created user displayName timezone attempt 0 w = (Inl NoFreeHandle, w)"
| "create_from u rand created user displayName timezone attempt (Suc left) w =
     (case writing (CreateUser created user displayName (handleCandidate u rand displayName attempt) timezone) w of
        (Inl NoRows, w) \<Rightarrow> create_from u rand created user displayName timezone (attempt + 1) left w
      | (Inl e, w) \<Rightarrow> (Inl (Handle_store e), w)
      | (Inr row, w) \<Rightarrow> (Inr row, w))"

definition CreateAccount ::
  "unicode \<Rightarrow> (nat \<Rightarrow> string) \<Rightarrow> gotime \<Rightarrow> uuid \<Rightarrow> string \<Rightarrow> string \<Rightarrow> (handle_error, app_user) call" where
  "CreateAccount u rand created user displayName timezone =
     create_from u rand created user displayName timezone 1 handleAttempts"

fun free_from :: "unicode \<Rightarrow> (nat \<Rightarrow> string) \<Rightarrow> string \<Rightarrow> nat \<Rightarrow> nat \<Rightarrow> (handle_error, string) call" where
  "free_from u rand displayName attempt 0 w = (Inl NoFreeHandle, w)"
| "free_from u rand displayName attempt (Suc left) w =
     (let candidate = handleCandidate u rand displayName attempt in
      case reading (HandleExists candidate) w of
        (Inl e, w) \<Rightarrow> (Inl (Handle_store e), w)
      | (Inr taken, w) \<Rightarrow>
          if \<not> taken then (Inr candidate, w) else free_from u rand displayName (attempt + 1) left w)"

definition FreeHandle :: "unicode \<Rightarrow> (nat \<Rightarrow> string) \<Rightarrow> string \<Rightarrow> (handle_error, string) call" where
  "FreeHandle u rand displayName = free_from u rand displayName 1 handleAttempts"

section \<open>The shape of a slug\<close>

text \<open>What the code relies on of the Unicode tables: a letter or digit is a scalar value, lowering
  twice is lowering once, and an underscore is neither.\<close>

definition tables_ok :: "unicode \<Rightarrow> bool" where
  "tables_ok u \<longleftrightarrow> (\<forall>r. alnum u r \<longrightarrow> scalar r) \<and> (\<forall>r. un_ToLower u (un_ToLower u r) = un_ToLower u r)
     \<and> \<not> alnum u underscore \<and> un_ToLower u underscore = underscore"

text \<open>Words of letters and digits with one underscore between them.\<close>

fun spaced :: "unicode \<Rightarrow> nat list \<Rightarrow> bool" where
  "spaced u [] = True"
| "spaced u [r] = alnum u r"
| "spaced u (r # s # rs) = (alnum u r \<and> (if s = underscore then rs \<noteq> [] \<and> spaced u rs else spaced u (s # rs)))"

definition lowered :: "unicode \<Rightarrow> nat list \<Rightarrow> bool" where
  "lowered u rs \<longleftrightarrow> (\<forall>r \<in> set rs. un_ToLower u r = r)"

lemma spaced_snoc:
  "\<not> alnum u underscore \<Longrightarrow> spaced u rs \<Longrightarrow> alnum u r \<Longrightarrow> spaced u (rs @ [r])"
  by (induction u rs rule: spaced.induct) (auto split: if_splits)

lemma spaced_snoc_sep:
  "\<not> alnum u underscore \<Longrightarrow> spaced u rs \<Longrightarrow> rs \<noteq> [] \<Longrightarrow> alnum u r \<Longrightarrow> spaced u (rs @ [underscore, r])"
  by (induction u rs rule: spaced.induct) (auto split: if_splits)

lemma slug_loop_spaced:
  "\<not> alnum u underscore \<Longrightarrow> spaced u acc \<Longrightarrow> spaced u (slug_loop u sep acc rs)"
  by (induction u sep acc rs rule: slug_loop.induct) (simp_all add: spaced_snoc spaced_snoc_sep)

lemma slug_loop_set: "set (slug_loop u sep acc rs) \<subseteq> insert underscore (set acc \<union> set rs)"
  by (induction u sep acc rs rule: slug_loop.induct) auto

text \<open>A spaced text is its own slug, and cutting it leaves one once a last underscore is trimmed.\<close>

lemma slug_loop_id:
  "\<not> alnum u underscore \<Longrightarrow> spaced u rs \<Longrightarrow> slug_loop u False acc rs = acc @ rs"
proof (induction u rs arbitrary: acc rule: spaced.induct)
  case (3 u r s rs)
  show ?case
  proof (cases "s = underscore")
    case True
    with 3(3,4) have tail: "rs \<noteq> []" "spaced u rs" "alnum u r" by simp_all
    then obtain x ys where rs: "rs = x # ys" by (cases rs) simp_all
    have x: "alnum u x" using tail(2) rs by (cases ys) simp_all
    have "slug_loop u False (acc @ [r, underscore]) rs = (acc @ [r, underscore]) @ rs"
      using 3(1) [OF _ 3(3) tail(2)] True by simp
    then show ?thesis using 3(3) tail(3) x by (simp add: True rs)
  next
    case False
    with 3(4) have "spaced u (s # rs)" "alnum u r" by simp_all
    with 3(2) [OF False 3(3)] show ?thesis by simp
  qed
qed auto

lemma trim_right_Cons:
  "trim_right c (r # xs) = (if trim_right c xs = [] \<and> r = c then [] else r # trim_right c xs)"
  by (auto simp: trim_right_def dropWhile_append)

lemma spaced_cut:
  "\<not> alnum u underscore \<Longrightarrow> spaced u rs \<Longrightarrow> spaced u (trim_right underscore (take n rs))"
proof (induction u rs arbitrary: n rule: spaced.induct)
  case (1 u)
  then show ?case by (simp add: trim_right_def)
next
  case (2 u r)
  then show ?case by (cases n) (auto simp: trim_right_Cons, auto simp: trim_right_def)
next
  case (3 u r s rs)
  show ?case
  proof (cases n)
    case 0
    then show ?thesis by (simp add: trim_right_def)
  next
    case (Suc m)
    have r: "alnum u r" "r \<noteq> underscore" using 3(3,4) by (auto split: if_splits)
    show ?thesis
    proof (cases "s = underscore")
      case True
      then have "spaced u (trim_right underscore (take k rs))" for k
        using 3(1) [OF True 3(3)] 3(4) by simp
      then show ?thesis
        using r by (cases m) (auto simp: Suc True trim_right_Cons trim_right_def [of _ "[]"])
    next
      case False
      then have "spaced u (trim_right underscore (take m (s # rs)))" using 3(2) [OF False 3(3)] 3(4) by simp
      then show ?thesis
        using r False by (cases m) (auto simp: Suc trim_right_Cons trim_right_def [of _ "[]"])
    qed
  qed
qed

lemma trim_right_spaced: "\<not> alnum u underscore \<Longrightarrow> spaced u rs \<Longrightarrow> trim_right underscore rs = rs"
proof (induction u rs rule: spaced.induct)
  case (2 u r)
  then show ?case by (auto simp: trim_right_def)
next
  case (3 u r s rs)
  then show ?case
    by (cases "s = underscore") (auto simp: trim_right_Cons)
qed (simp add: trim_right_def)

lemma trim_right_set: "set (trim_right c xs) \<subseteq> set xs" "length (trim_right c xs) \<le> length xs"
  using set_dropWhileD length_dropWhile_le [of "\<lambda>r. r = c" "rev xs"] by (fastforce simp: trim_right_def)+

lemma slug_shape:
  assumes "tables_ok u"
  shows "spaced u (slug_runes u name limit)" "lowered u (slug_runes u name limit)"
    "length (slug_runes u name limit) \<le> limit" "list_all scalar (slug_runes u name limit)"
proof -
  let ?loop = "slug_loop u False [] (map (un_ToLower u) name)"
  have no: "\<not> alnum u underscore" using assms by (simp add: tables_ok_def)
  have cut: "slug_runes u name limit = trim_right underscore (take limit ?loop)"
    by (simp add: slug_runes_def Let_def)
  show spaced: "spaced u (slug_runes u name limit)"
    unfolding cut by (intro spaced_cut slug_loop_spaced no) simp
  have sub: "set (slug_runes u name limit) \<subseteq> insert underscore (set (map (un_ToLower u) name))"
    unfolding cut using trim_right_set(1) [of underscore "take limit ?loop"] set_take_subset [of limit ?loop]
      slug_loop_set [of u False "[]" "map (un_ToLower u) name"] by auto
  then show "lowered u (slug_runes u name limit)"
    using assms by (auto simp: lowered_def tables_ok_def)
  show "length (slug_runes u name limit) \<le> limit"
    unfolding cut using trim_right_set(2) [of underscore "take limit ?loop"] by simp
  have "\<forall>r \<in> set rs. alnum u r \<or> r = underscore" if "spaced u rs" for rs
    using that by (induction u rs rule: spaced.induct) (auto split: if_splits)
  from this [OF spaced] show "list_all scalar (slug_runes u name limit)"
    using assms by (auto simp: list_all_iff tables_ok_def scalar_def in_range_def underscore_def)
qed

lemma slug_again:
  assumes "tables_ok u" "spaced u rs" "lowered u rs" "length rs \<le> limit"
  shows "slug_runes u rs limit = rs"
proof -
  have no: "\<not> alnum u underscore" using assms(1) by (simp add: tables_ok_def)
  have "map (un_ToLower u) rs = rs" using assms(3) by (simp add: lowered_def map_idI)
  then show ?thesis
    using slug_loop_id [OF no assms(2), of "[]"] trim_right_spaced [OF no assms(2)] assms(4)
    by (simp add: slug_runes_def)
qed

text \<open>An account made with a handle of its own holds one no account held.\<close>

lemma CreateUser_Inr:
  assumes "CreateUser created i name handle zone d = Inr (u, d')"
  shows "\<forall>x \<in> set (t_app_user d). us_Handle x \<noteq> handle" "\<not> has_user i d" "us_ID u = i" "us_Handle u = handle"
    "us_ClosedAt u = None" "d' = d\<lparr>t_app_user := t_app_user d @ [u]\<rparr>"
  using assms by (auto simp: CreateUser_def Let_def list_ex_iff split: if_splits)

definition account_added :: "uuid \<Rightarrow> db \<Rightarrow> app_user \<Rightarrow> db \<Rightarrow> bool" where
  "account_added i d u d' \<longleftrightarrow> us_ID u = i \<and> us_ClosedAt u = None \<and> \<not> has_user i d
     \<and> (\<forall>x \<in> set (t_app_user d). us_Handle x \<noteq> us_Handle u) \<and> d' = d\<lparr>t_app_user := t_app_user d @ [u]\<rparr>"

lemma CreateUser_added: "CreateUser created i name handle zone d = Inr (u, d') \<Longrightarrow> account_added i d u d'"
  using CreateUser_Inr [of created i name handle zone d u d'] by (simp add: account_added_def)

lemma CreateAccountWithHandle_triple:
  "triple (\<lambda>d. d = d0) (CreateAccountWithHandle created i name handle zone)
     (\<lambda>u d. account_added i d0 u d) (\<lambda>e d. d = d0)"
  unfolding CreateAccountWithHandle_def
  by (intro triple_on_error triple_writing) (auto dest: CreateUser_added)

lemma create_from_triple:
  "triple (\<lambda>d. d = d0) (create_from u rand created i name zone attempt left)
     (\<lambda>u d. account_added i d0 u d) (\<lambda>e d. d = d0)"
proof (induction "left" arbitrary: attempt)
  case 0
  then show ?case by (simp add: triple_def)
next
  case (Suc l)
  let ?call = "writing (CreateUser created i name (handleCandidate u rand name attempt) zone)"
  have step: "triple (\<lambda>d. d = d0) ?call (\<lambda>u d. account_added i d0 u d) (\<lambda>e d. d = d0)"
    by (intro triple_writing) (auto dest: CreateUser_added)
  show ?case
    unfolding triple_def
  proof (intro allI impI)
    fix w :: world
    assume w: "tables w = d0"
    obtain r w1 where run: "?call w = (r, w1)" by fastforce
    then show "case create_from u rand created i name zone attempt (Suc l) w of
        (Inl e, w') \<Rightarrow> tables w' = d0 | (Inr x, w') \<Rightarrow> account_added i d0 x (tables w')"
      using tripleD(1) [OF step w, of _ w1] tripleD(2) [OF step w, of _ w1] Suc.IH [of "attempt + 1"]
      by (cases r) (auto simp: triple_def split: db_error.splits)
  qed
qed

definition ex_unicode :: unicode where
  "ex_unicode = \<lparr>un_ToLower = (\<lambda>k. if 65 \<le> k \<and> k \<le> 90 then k + 32 else k),
     un_IsLetter = (\<lambda>k. 65 \<le> k \<and> k \<le> 90 \<or> 97 \<le> k \<and> k \<le> 122), un_IsDigit = (\<lambda>k. 48 \<le> k \<and> k \<le> 57)\<rparr>"

lemma ex_unicode_ok: "tables_ok ex_unicode"
  by (auto simp: tables_ok_def ex_unicode_def alnum_def scalar_def in_range_def underscore_def)

section \<open>Properties\<close>

text \<open>
  A handle in its stored form is words of lower-case letters and digits with single
  underscores between them, at most 32 runes, and normalising it again leaves it as it is.
\<close>

theorem NormaliseHandle_normal_form:
  assumes "tables_ok u"
  shows "(\<exists>rs. NormaliseHandle u handle = string_of_runes rs \<and> spaced u rs \<and> lowered u rs
      \<and> length rs \<le> maxHandleLength)
    \<and> NormaliseHandle u (NormaliseHandle u handle) = NormaliseHandle u handle"
proof -
  let ?rs = "slug_runes u (runes_in handle) maxHandleLength"
  note shape = slug_shape [OF assms, of "runes_in handle" maxHandleLength]
  have n: "NormaliseHandle u handle = string_of_runes ?rs" by (simp add: NormaliseHandle_def slugify_def)
  moreover have "NormaliseHandle u (NormaliseHandle u handle) = NormaliseHandle u handle"
    unfolding n by (simp add: NormaliseHandle_def slugify_def runes_in_string [OF shape(4)] slug_again [OF assms shape(1-3)])
  ultimately show ?thesis using shape by blast
qed

theorem NormaliseHandle_normal_form_witness:
  "NormaliseHandle ex_unicode '' Emma  Fletcher!'' = ''emma_fletcher''
   \<and> NormaliseHandle ex_unicode (NormaliseHandle ex_unicode '' Emma  Fletcher!'')
       = NormaliseHandle ex_unicode '' Emma  Fletcher!''"
proof -
  have "NormaliseHandle ex_unicode '' Emma  Fletcher!'' = ''emma_fletcher''" by code_simp
  then show ?thesis using NormaliseHandle_normal_form [OF ex_unicode_ok, of "'' Emma  Fletcher!''"] by blast
qed

end
