(* ===== verification/Http_People.thy ===== *)
theory Http_People
  imports Http_SignIn Http_Schedule Push_Deadlines Store_Handle
begin

text \<open>
  The People page and what it writes (\<open>people.go\<close>), the membership a person is given
  (\<open>membership.go\<close>) and the invite link made for one (\<open>invite.go\<close>), under \<open>src/internal/http\<close>.
  A handler's answer comes with what it hands on after its writes: the pushes it asks the
  notifier to send, the wake-up of the jobs and a garden's photo directory to remove.
\<close>

datatype signal = Notify app_user notification | Wake | Remove_photos uuid

type_synonym ('a, 'u) told = "('a, 'u) page_answer \<times> signal list"

definition memberManage :: string where "memberManage = ''member.manage''"
definition memberInvite :: string where "memberInvite = ''member.invite''"
definition gardenDelete :: string where "gardenDelete = ''garden.delete''"

section \<open>Paths\<close>

text \<open>\<open>url.PathEscape\<close>.\<close>

definition unreserved :: "char \<Rightarrow> bool" where
  "unreserved c \<longleftrightarrow>
     (let n = of_char c :: nat in 48 \<le> n \<and> n \<le> 57 \<or> 65 \<le> n \<and> n \<le> 90 \<or> 97 \<le> n \<and> n \<le> 122)
     \<or> c \<in> set ''-_.~$&+:=@''"

definition upper_hex :: "nat \<Rightarrow> char" where
  "upper_hex n = (if n < 10 then digit n else char_of (55 + n))"

definition PathEscape :: "string \<Rightarrow> string" where
  "PathEscape s =
     concat (map (\<lambda>c. if unreserved c then [c]
       else (let n = of_char c :: nat in [CHR ''%'', upper_hex (n div 16), upper_hex (n mod 16)])) s)"

definition PeoplePath :: string where "PeoplePath = ''/more/people''"
definition invitePath :: string where "invitePath = PeoplePath @ ''/invite''"

definition memberPath :: "string \<Rightarrow> string" where
  "memberPath h = PeoplePath @ ''/'' @ PathEscape h"

definition removeMemberPath :: "string \<Rightarrow> string" where
  "removeMemberPath h = memberPath h @ ''/remove''"

definition revokeInvitePath :: "uuid \<Rightarrow> string" where
  "revokeInvitePath inviteID = PeoplePath @ ''/invites/'' @ inviteID @ ''/revoke''"

definition InvitedPath :: "string \<Rightarrow> string" where
  "InvitedPath token = ''/invite/'' @ token"

section \<open>membership.go\<close>

definition digestHourDefault :: int where "digestHourDefault = 8"

record new_membership =
  nm_GardenID :: uuid
  nm_UserID :: uuid
  nm_Role :: string
  nm_InvitedBy :: "uuid option"
  nm_ExpiresAt :: "gotime option"

definition createMembership ::
  "uuid \<Rightarrow> gotime \<Rightarrow> new_membership \<Rightarrow> (db_error, membership) call" where
  "createMembership newID created m =
     and_then (writing (CreateMembership newID created (nm_GardenID m) (nm_UserID m) (nm_Role m)
         (nm_InvitedBy m) (nm_ExpiresAt m) digestHourDefault)) (\<lambda>membership.
     and_then (each (\<lambda>(kind, enabled). writing (SetNotificationPreference (me_ID membership) kind enabled))
         [(digestKind, True), (''activity'', False)]) (\<lambda>_.
     return membership))"

definition renewMembership :: "new_membership \<Rightarrow> (db_error, membership) call" where
  "renewMembership m =
     writing (RenewMembership (nm_Role m) (nm_InvitedBy m) (nm_ExpiresAt m) (nm_GardenID m) (nm_UserID m))"

section \<open>The members of a garden\<close>

definition offeredRoles :: "string list" where
  "offeredRoles = [''member'', ''sitter'']"

definition roleField :: "string \<Rightarrow> string" where "roleField h = ''role.'' @ h"
definition untilField :: "string \<Rightarrow> string" where "untilField h = ''until.'' @ h"

text \<open>The membership has an end date, \<open>at\<close>.\<close>

definition accessEndValue :: "site \<Rightarrow> app_user \<Rightarrow> gotime \<Rightarrow> string" where
  "accessEndValue si u at = Format_dateKey (In_loc at (locationFor si u))"

definition accessUntilWord :: "site \<Rightarrow> membership \<Rightarrow> app_user \<Rightarrow> gotime \<Rightarrow> gotime \<Rightarrow> string" where
  "accessUntilWord si m u at now =
     (let l = locationFor si u in
      if MembershipEnded m now then ''Access ended '' @ agoWord (In_loc at l) (In_loc now l)
      else ''until '' @ dateWord (In_loc at l) l)"

definition parseAccessEnd :: "site \<Rightarrow> string \<Rightarrow> location \<Rightarrow> gotime option" where
  "parseAccessEnd si posted l =
     map_option (\<lambda>day. mk_Date (Year day) (Month day) (Day_of day) 0 0 0 0 l) (Parse_dateKey (si_TrimSpace si posted))"

definition collides :: "(membership \<times> app_user) list \<Rightarrow> string \<Rightarrow> bool" where
  "collides members name \<longleftrightarrow> 1 < length (filter (\<lambda>(m, u). us_DisplayName u = name) members)"

definition whoWord :: "app_user \<Rightarrow> (string \<Rightarrow> bool) \<Rightarrow> string" where
  "whoWord u colliding =
     (if colliding (us_DisplayName u) then us_DisplayName u @ '' ('' @ us_Handle u @ '')'' else us_DisplayName u)"

definition roleOptions :: "(nat \<Rightarrow> nat) \<Rightarrow> string \<Rightarrow> sel_option list" where
  "roleOptions ToUpper role =
     map (\<lambda>offered. \<lparr>op_Value = offered, op_Label = roleWord ToUpper offered, op_On = (offered = role)\<rparr>) offeredRoles"

record remove_question =
  rq_Ask :: string
  rq_Action :: string
  rq_Form :: string
  rq_Keep :: string

record member_row =
  mb_Name :: string
  mb_Handle :: string
  mb_You :: bool
  mb_Role :: string
  mb_What :: string
  mb_Until :: string
  mb_Ended :: bool
  mb_Roles :: "sel_option list"
  mb_RoleField :: string
  mb_UntilField :: string
  mb_UntilValue :: string
  mb_RoleLabel :: string
  mb_UntilLabel :: string
  mb_Who :: string
  mb_Remove :: string
  mb_Asking :: "remove_question option"

definition newMemberRow ::
  "site \<Rightarrow> principal \<Rightarrow> (string \<Rightarrow> bool) \<Rightarrow> string \<Rightarrow> gotime \<Rightarrow> membership \<times> app_user \<Rightarrow> member_row" where
  "newMemberRow si p colliding asking now =
     (\<lambda>(m, u). let h = us_Handle u; who = whoWord u colliding; you = (us_ID u = us_ID (pr_User p));
         ended = MembershipEnded m now;
         row = \<lparr>mb_Name = us_DisplayName u, mb_Handle = (if colliding (us_DisplayName u) then h else ''''),
                mb_You = you, mb_Role = '''', mb_What = '''', mb_Until = '''', mb_Ended = False, mb_Roles = [],
                mb_RoleField = '''', mb_UntilField = '''', mb_UntilValue = '''', mb_RoleLabel = '''',
                mb_UntilLabel = '''', mb_Who = '''', mb_Remove = '''', mb_Asking = None\<rparr>
       in if you then row\<lparr>mb_Role := roleWord (si_ToUpper si) (me_Role m)\<rparr>
          else
            (let row = row\<lparr>mb_Who := who, mb_Remove := removeMemberPath h, mb_RoleField := roleField h,
                   mb_UntilField := untilField h, mb_RoleLabel := who @ right_quote @ ''s role'',
                   mb_UntilLabel := who @ right_quote @ ''s access ends on''\<rparr>;
                 row = (case me_ExpiresAt m of
                   Some at \<Rightarrow> row\<lparr>mb_Ended := ended, mb_Role := roleWord (si_ToUpper si) (me_Role m),
                     mb_Until := accessUntilWord si m u at now, mb_UntilValue := accessEndValue si u at\<rparr>
                 | None \<Rightarrow> row\<lparr>mb_What := roleWhat (me_Role m)\<rparr>)
             in row\<lparr>mb_Roles := (if mb_Ended row then [] else roleOptions (si_ToUpper si) (me_Role m)),
                   mb_Asking := (if h = asking
                     then Some \<lparr>rq_Ask = ''Remove '' @ who @ ''?'', rq_Action = removeMemberPath h,
                            rq_Form = ''remove-'' @ h, rq_Keep = PeoplePath\<rparr>
                     else None)\<rparr>))"

record invite_row =
  iv_Role :: string
  iv_Sent :: string
  iv_Expires :: string
  iv_Revoke :: string

definition inviteRows :: "(nat \<Rightarrow> nat) \<Rightarrow> invite list \<Rightarrow> gotime \<Rightarrow> invite_row list" where
  "inviteRows ToUpper invites now =
     map (\<lambda>i. \<lparr>iv_Role = roleWord ToUpper (in_Role i), iv_Sent = ''Sent '' @ agoWord (in_CreatedAt i) now,
           iv_Expires = inviteExpiryWord (in_ExpiresAt i) now, iv_Revoke = revokeInvitePath (in_ID i)\<rparr>) invites"

record people_page =
  pe_Action :: string
  pe_Members :: "member_row list"
  pe_Save :: bool
  pe_Invites :: "invite_row list"
  pe_InviteSomeone :: string
  pe_Announce :: string

type_synonym people_told = "(people_page, string) told"

definition renderPeople ::
  "site \<Rightarrow> principal \<Rightarrow> gotime \<Rightarrow> string \<Rightarrow> string \<Rightarrow> signal list \<Rightarrow> world \<Rightarrow> people_told \<times> world" where
  "renderPeople si p clock asking announce signals =
     read_or (ListMembers (ga_ID (pr_Garden p))) (\<lambda>_. (Server_error, signals)) (\<lambda>members.
     read_or (ListPendingInvites (ga_ID (pr_Garden p))) (\<lambda>_. (Server_error, signals)) (\<lambda>invites w.
       ((Page \<lparr>pe_Action = PeoplePath,
          pe_Members = map (newMemberRow si p (collides members) asking clock) members,
          pe_Save = (1 < length members),
          pe_Invites = inviteRows (si_ToUpper si) invites (In_loc clock (locationFor si (pr_User p))),
          pe_InviteSomeone = (if Can p memberInvite then invitePath else ''''),
          pe_Announce = announce\<rparr>, signals), w)))"

definition peopleSaved ::
  "site \<Rightarrow> principal \<Rightarrow> gotime \<Rightarrow> bool \<Rightarrow> string \<Rightarrow> signal list \<Rightarrow> world \<Rightarrow> people_told \<times> world" where
  "peopleSaved si p clock htmx announce signals =
     (if htmx then renderPeople si p clock '''' announce signals else (\<lambda>w. ((Redirect PeoplePath, signals), w)))"

section \<open>Saving the members\<close>

record member_change =
  mc_user :: app_user
  mc_role :: string
  mc_ends :: "gotime option"

text \<open>The role and the end date posted on one row: \<open>None\<close> for a value the page does not offer.\<close>

definition posted_role :: "membership \<Rightarrow> string \<Rightarrow> gotime \<Rightarrow> string option" where
  "posted_role m role now =
     (if role \<noteq> '''' \<and> role \<noteq> me_Role m \<and> \<not> MembershipEnded m now
      then if role \<in> set offeredRoles then Some role else None
      else Some '''')"

definition posted_end :: "site \<Rightarrow> membership \<Rightarrow> app_user \<Rightarrow> string \<Rightarrow> gotime option option" where
  "posted_end si m u until =
     (case me_ExpiresAt m of
        None \<Rightarrow> Some None
      | Some at \<Rightarrow>
          if until \<noteq> '''' \<and> until \<noteq> accessEndValue si u at
          then map_option Some (parseAccessEnd si until (locationFor si u))
          else Some None)"

fun postedChanges ::
  "site \<Rightarrow> (membership \<times> app_user) list \<Rightarrow> principal \<Rightarrow> form \<Rightarrow> gotime \<Rightarrow> member_change list option" where
  "postedChanges si [] p get now = Some []"
| "postedChanges si ((m, u) # members) p get now =
     (if us_ID u = us_ID (pr_User p) then postedChanges si members p get now
      else
        (case posted_role m (get (roleField (us_Handle u))) now of
           None \<Rightarrow> None
         | Some role \<Rightarrow>
             (case posted_end si m u (get (untilField (us_Handle u))) of
                None \<Rightarrow> None
              | Some until_at \<Rightarrow>
                  (case postedChanges si members p get now of
                     None \<Rightarrow> None
                   | Some cs \<Rightarrow>
                       Some (if role \<noteq> '''' \<or> until_at \<noteq> None
                             then \<lparr>mc_user = u, mc_role = role, mc_ends = until_at\<rparr> # cs else cs)))))"

definition gardenNamer :: "garden \<Rightarrow> (db_error, uuid \<Rightarrow> string) call" where
  "gardenNamer g w =
     (case reading (GetGardenOwner (ga_ID g)) w of
        (Inl NoRows, w) \<Rightarrow> (Inr (\<lambda>_. ga_Name g), w)
      | (Inl e, w) \<Rightarrow> (Inl e, w)
      | (Inr (owner, ownerName), w) \<Rightarrow> (Inr (\<lambda>recipient. GardenNamed (ga_Name g) ownerName (owner = recipient)), w))"

definition write_change :: "uuid \<Rightarrow> member_change \<Rightarrow> (db_error, unit) call" where
  "write_change garden c =
     and_then (if mc_role c \<noteq> '''' then and_then (writing (SetMemberRole (mc_role c) garden (us_ID (mc_user c)))) (\<lambda>_. return ())
               else return ()) (\<lambda>_.
     case mc_ends c of
       None \<Rightarrow> return ()
     | Some at \<Rightarrow> and_then (writing (SetMembershipEnd (Some at) garden (us_ID (mc_user c)))) (\<lambda>_. return ()))"

definition role_signals :: "(uuid \<Rightarrow> string) \<Rightarrow> member_change list \<Rightarrow> signal list" where
  "role_signals gardenNamed cs =
     [Notify (mc_user c) (RoleChangedNotification (gardenNamed (us_ID (mc_user c))) (mc_role c) todayPath).
        c \<leftarrow> cs, mc_role c \<noteq> '''']"

definition savedAnnouncement :: string where "savedAnnouncement = ''Saved.''"

definition saveMembers ::
  "site \<Rightarrow> principal \<Rightarrow> form \<Rightarrow> bool \<Rightarrow> gotime \<Rightarrow> world \<Rightarrow> people_told \<times> world" where
  "saveMembers si p get htmx clock =
     read_or (ListMembers (ga_ID (pr_Garden p))) (\<lambda>_. (Server_error, [])) (\<lambda>members.
     case postedChanges si members p get clock of
       None \<Rightarrow> (\<lambda>w. ((Bad_request, []), w))
     | Some cs \<Rightarrow>
         answering (gardenNamer (pr_Garden p)) (\<lambda>_. (Server_error, [])) (\<lambda>gardenNamed.
         answering (InTx (each (write_change (ga_ID (pr_Garden p))) cs) Failure) (\<lambda>_. (Server_error, [])) (\<lambda>_.
         peopleSaved si p clock htmx savedAnnouncement
           (role_signals gardenNamed cs @ (if cs \<noteq> [] then [Wake] else [])))))"

section \<open>Removing a member, revoking an invite\<close>

definition memberFromPath ::
  "principal \<Rightarrow> string \<Rightarrow> (membership \<times> app_user \<Rightarrow> world \<Rightarrow> people_told \<times> world) \<Rightarrow> world \<Rightarrow> people_told \<times> world" where
  "memberFromPath p h k =
     read_or (GetMemberByHandle (ga_ID (pr_Garden p)) h) (\<lambda>e. (missing e, [])) (\<lambda>(m, u).
       if us_ID u = us_ID (pr_User p) then (\<lambda>w. ((Not_found, []), w)) else k (m, u))"

definition confirmRemoveMember :: "site \<Rightarrow> principal \<Rightarrow> string \<Rightarrow> gotime \<Rightarrow> world \<Rightarrow> people_told \<times> world" where
  "confirmRemoveMember si p h clock =
     memberFromPath p h (\<lambda>(m, u).
       renderPeople si p clock (us_Handle u) (''Remove '' @ us_DisplayName u @ ''? Cancel or Remove.'') [])"

definition removeMember :: "site \<Rightarrow> principal \<Rightarrow> string \<Rightarrow> bool \<Rightarrow> gotime \<Rightarrow> world \<Rightarrow> people_told \<times> world" where
  "removeMember si p h htmx clock =
     memberFromPath p h (\<lambda>(m, u).
     answering (gardenNamer (pr_Garden p)) (\<lambda>_. (Server_error, [])) (\<lambda>gardenNamed.
     write_or (DeleteMembership (me_GardenID m) (us_ID u)) (\<lambda>_. (Server_error, [])) (\<lambda>removed.
       if removed = 0 then (\<lambda>w. ((Not_found, []), w))
       else peopleSaved si p clock htmx (us_DisplayName u @ '' removed.'')
              [Notify u (MemberRemovedNotification (gardenNamed (us_ID u)))])))"

definition revokeInvite :: "site \<Rightarrow> principal \<Rightarrow> string \<Rightarrow> bool \<Rightarrow> gotime \<Rightarrow> world \<Rightarrow> people_told \<times> world" where
  "revokeInvite si p path htmx clock =
     (case si_parse_uuid si path of
        None \<Rightarrow> (\<lambda>w. ((Not_found, []), w))
      | Some inviteID \<Rightarrow>
          write_or (DeletePendingInvite (ga_ID (pr_Garden p)) inviteID) (\<lambda>_. (Server_error, [])) (\<lambda>revoked.
            if revoked = 0 then (\<lambda>w. ((Not_found, []), w))
            else peopleSaved si p clock htmx ''Invite revoked.'' []))"

section \<open>invite.go\<close>

definition defaultInviteRole :: string where "defaultInviteRole = ''sitter''"
definition untilUnusable :: string where "untilUnusable = ''Enter a date or leave it empty.''"
definition untilTooEarly :: string where
  "untilTooEarly = ''Choose a date after today. Access ends at the start of that day.''"

record invite_page =
  ip_Secret :: "string option"
  ip_Roles :: "chip list"
  ip_Chosen :: string
  ip_What :: string
  ip_Until :: string
  ip_UntilMin :: string
  ip_UntilError :: string
  ip_Made :: string
  ip_Done :: string

definition earliestAccessEnd :: "site \<Rightarrow> principal \<Rightarrow> gotime \<Rightarrow> string" where
  "earliestAccessEnd si p clock = Format_dateKey (AddDate (In_loc clock (locationFor si (pr_User p))) 0 0 1)"

definition newInvitePage :: "(nat \<Rightarrow> nat) \<Rightarrow> string \<Rightarrow> string \<Rightarrow> string \<Rightarrow> string \<Rightarrow> invite_page" where
  "newInvitePage ToUpper role until message earliest =
     (let role = (if role \<in> set offeredRoles then role else defaultInviteRole)
      in \<lparr>ip_Secret = None,
          ip_Roles = map (\<lambda>offered. \<lparr>ch_Value = offered, ch_Label = roleWord ToUpper offered, ch_On = (offered = role)\<rparr>) offeredRoles,
          ip_Chosen = role, ip_What = roleWhat role, ip_Until = until, ip_UntilMin = earliest,
          ip_UntilError = message, ip_Made = '''', ip_Done = ''''\<rparr>)"

definition madeInvitePage :: "string \<Rightarrow> gotime option \<Rightarrow> location \<Rightarrow> invite_page" where
  "madeInvitePage link until_at l =
     \<lparr>ip_Secret = Some link, ip_Roles = [], ip_Chosen = '''', ip_What = '''', ip_Until = '''', ip_UntilMin = '''',
      ip_UntilError = '''',
      ip_Made = ''It works once and expires in 7 days. Until it'' @ right_quote
        @ ''s used, you can revoke it from People.''
        @ (case until_at of None \<Rightarrow> '''' | Some at \<Rightarrow> '' Their access ends on '' @ dateWord at l @ ''.''),
      ip_Done = PeoplePath\<rparr>"

definition show_invite :: "site \<Rightarrow> principal \<Rightarrow> form \<Rightarrow> gotime \<Rightarrow> world \<Rightarrow> (invite_page, string) page_answer \<times> world" where
  "show_invite si p query clock w =
     (Page (newInvitePage (si_ToUpper si) (query ''role'') (query ''until'') '''' (earliestAccessEnd si p clock)), w)"

definition inviteLink :: "string \<Rightarrow> string \<Rightarrow> string" where
  "inviteLink host token = host @ InvitedPath token"

definition createInvite ::
  "(string \<Rightarrow> string) \<Rightarrow> principal \<Rightarrow> string \<Rightarrow> uuid \<Rightarrow> gotime \<Rightarrow> gotime \<Rightarrow> string \<Rightarrow> gotime option
     \<Rightarrow> (db_error, string) call" where
  "createInvite hashToken p token newID created now role until_at =
     and_then (writing (CreateInvite newID created (ga_ID (pr_Garden p)) (hashToken token) role None
         (us_ID (pr_User p)) (Add now InviteLifetime) until_at)) (\<lambda>_. return token)"

text \<open>The end date posted: the message under the field, or the date.\<close>

definition posted_access_end :: "site \<Rightarrow> principal \<Rightarrow> string \<Rightarrow> gotime \<Rightarrow> string + gotime option" where
  "posted_access_end si p posted clock =
     (if posted = '''' then Inr None
      else (case parseAccessEnd si posted (locationFor si (pr_User p)) of
              None \<Rightarrow> Inl untilUnusable
            | Some at \<Rightarrow> if \<not> After at clock then Inl untilTooEarly else Inr (Some at)))"

definition createInviteLink ::
  "(string \<Rightarrow> string) \<Rightarrow> site \<Rightarrow> principal \<Rightarrow> string \<Rightarrow> uuid \<Rightarrow> gotime \<Rightarrow> string \<Rightarrow> form \<Rightarrow> gotime
     \<Rightarrow> world \<Rightarrow> (invite_page, string) page_answer \<times> world" where
  "createInviteLink hashToken si p token newID created host get clock =
     (let role = get ''role''; posted = get ''until'' in
      if role \<notin> set offeredRoles then (\<lambda>w. (Bad_request, w))
      else
        (case posted_access_end si p posted clock of
           Inl message \<Rightarrow> (\<lambda>w. (Refused message, w))
         | Inr until_at \<Rightarrow>
             answering (createInvite hashToken p token newID created clock role until_at) (\<lambda>_. Server_error) (\<lambda>token w.
               (Page (madeInvitePage (inviteLink host token) until_at (locationFor si (pr_User p))), w))))"

end
