(* ===== verification/Http_Zones.thy ===== *)
theory Http_Zones
  imports Http_Request
begin

text \<open>
  The Timezone select: the zones it offers, the names browsers report some of them under, and its
  options (\<open>src/internal/http/zones.go\<close>).
\<close>

section \<open>The zones offered\<close>

definition zones_Africa :: "string list" where
  "zones_Africa =
    [''Africa/Abidjan'', ''Africa/Accra'', ''Africa/Addis_Ababa'', ''Africa/Algiers'', ''Africa/Asmara'',
     ''Africa/Bamako'', ''Africa/Bangui'', ''Africa/Banjul'', ''Africa/Bissau'', ''Africa/Blantyre'',
     ''Africa/Brazzaville'', ''Africa/Bujumbura'', ''Africa/Cairo'', ''Africa/Casablanca'', ''Africa/Ceuta'',
     ''Africa/Conakry'', ''Africa/Dakar'', ''Africa/Dar_es_Salaam'', ''Africa/Djibouti'', ''Africa/Douala'',
     ''Africa/El_Aaiun'', ''Africa/Freetown'', ''Africa/Gaborone'', ''Africa/Harare'',
     ''Africa/Johannesburg'', ''Africa/Juba'', ''Africa/Kampala'', ''Africa/Khartoum'', ''Africa/Kigali'',
     ''Africa/Kinshasa'', ''Africa/Lagos'', ''Africa/Libreville'', ''Africa/Lome'', ''Africa/Luanda'',
     ''Africa/Lubumbashi'', ''Africa/Lusaka'', ''Africa/Malabo'', ''Africa/Maputo'', ''Africa/Maseru'',
     ''Africa/Mbabane'', ''Africa/Mogadishu'', ''Africa/Monrovia'', ''Africa/Nairobi'', ''Africa/Ndjamena'',
     ''Africa/Niamey'', ''Africa/Nouakchott'', ''Africa/Ouagadougou'', ''Africa/Porto-Novo'',
     ''Africa/Sao_Tome'', ''Africa/Tripoli'', ''Africa/Tunis'', ''Africa/Windhoek'']"

definition zones_America1 :: "string list" where
  "zones_America1 =
    [''America/Adak'', ''America/Anchorage'', ''America/Anguilla'', ''America/Antigua'',
     ''America/Araguaina'', ''America/Argentina/Buenos_Aires'', ''America/Argentina/Catamarca'',
     ''America/Argentina/Cordoba'', ''America/Argentina/Jujuy'', ''America/Argentina/La_Rioja'',
     ''America/Argentina/Mendoza'', ''America/Argentina/Rio_Gallegos'', ''America/Argentina/Salta'',
     ''America/Argentina/San_Juan'', ''America/Argentina/San_Luis'', ''America/Argentina/Tucuman'',
     ''America/Argentina/Ushuaia'', ''America/Aruba'', ''America/Asuncion'', ''America/Atikokan'',
     ''America/Bahia'', ''America/Bahia_Banderas'', ''America/Barbados'', ''America/Belem'',
     ''America/Belize'', ''America/Blanc-Sablon'', ''America/Boa_Vista'', ''America/Bogota'',
     ''America/Boise'', ''America/Cambridge_Bay'', ''America/Campo_Grande'', ''America/Cancun'',
     ''America/Caracas'', ''America/Cayenne'', ''America/Cayman'', ''America/Chicago'',
     ''America/Chihuahua'', ''America/Ciudad_Juarez'', ''America/Costa_Rica'', ''America/Coyhaique'',
     ''America/Creston'', ''America/Cuiaba'', ''America/Curacao'', ''America/Danmarkshavn'',
     ''America/Dawson'', ''America/Dawson_Creek'', ''America/Denver'', ''America/Detroit'',
     ''America/Dominica'', ''America/Edmonton'', ''America/Eirunepe'', ''America/El_Salvador'',
     ''America/Fort_Nelson'', ''America/Fortaleza'', ''America/Glace_Bay'', ''America/Goose_Bay'',
     ''America/Grand_Turk'', ''America/Grenada'', ''America/Guadeloupe'', ''America/Guatemala'',
     ''America/Guayaquil'', ''America/Guyana'', ''America/Halifax'', ''America/Havana'',
     ''America/Hermosillo'', ''America/Indiana/Indianapolis'', ''America/Indiana/Knox'',
     ''America/Indiana/Marengo'', ''America/Indiana/Petersburg'', ''America/Indiana/Tell_City'',
     ''America/Indiana/Vevay'', ''America/Indiana/Vincennes'', ''America/Indiana/Winamac'',
     ''America/Inuvik'', ''America/Iqaluit'', ''America/Jamaica'', ''America/Juneau'',
     ''America/Kentucky/Louisville'', ''America/Kentucky/Monticello'', ''America/Kralendijk'',
     ''America/La_Paz'', ''America/Lima'', ''America/Los_Angeles'', ''America/Lower_Princes'',
     ''America/Maceio'', ''America/Managua'', ''America/Manaus'', ''America/Marigot'',
     ''America/Martinique'', ''America/Matamoros'']"

definition zones_America2 :: "string list" where
  "zones_America2 =
    [''America/Mazatlan'', ''America/Menominee'', ''America/Merida'', ''America/Metlakatla'',
     ''America/Mexico_City'', ''America/Miquelon'', ''America/Moncton'', ''America/Monterrey'',
     ''America/Montevideo'', ''America/Montserrat'', ''America/Nassau'', ''America/New_York'',
     ''America/Nome'', ''America/Noronha'', ''America/North_Dakota/Beulah'', ''America/North_Dakota/Center'',
     ''America/North_Dakota/New_Salem'', ''America/Nuuk'', ''America/Ojinaga'', ''America/Panama'',
     ''America/Paramaribo'', ''America/Phoenix'', ''America/Port_of_Spain'', ''America/Port-au-Prince'',
     ''America/Porto_Velho'', ''America/Puerto_Rico'', ''America/Punta_Arenas'', ''America/Rankin_Inlet'',
     ''America/Recife'', ''America/Regina'', ''America/Resolute'', ''America/Rio_Branco'',
     ''America/Santarem'', ''America/Santiago'', ''America/Santo_Domingo'', ''America/Sao_Paulo'',
     ''America/Scoresbysund'', ''America/Sitka'', ''America/St_Barthelemy'', ''America/St_Johns'',
     ''America/St_Kitts'', ''America/St_Lucia'', ''America/St_Thomas'', ''America/St_Vincent'',
     ''America/Swift_Current'', ''America/Tegucigalpa'', ''America/Thule'', ''America/Tijuana'',
     ''America/Toronto'', ''America/Tortola'', ''America/Vancouver'', ''America/Whitehorse'',
     ''America/Winnipeg'', ''America/Yakutat'']"

definition zones_Antarctica :: "string list" where
  "zones_Antarctica =
    [''Antarctica/Casey'', ''Antarctica/Davis'', ''Antarctica/DumontDUrville'', ''Antarctica/Macquarie'',
     ''Antarctica/Mawson'', ''Antarctica/McMurdo'', ''Antarctica/Palmer'', ''Antarctica/Rothera'',
     ''Antarctica/Syowa'', ''Antarctica/Troll'', ''Antarctica/Vostok'']"

definition zones_Arctic :: "string list" where
  "zones_Arctic =
    [''Arctic/Longyearbyen'']"

definition zones_Asia :: "string list" where
  "zones_Asia =
    [''Asia/Aden'', ''Asia/Almaty'', ''Asia/Amman'', ''Asia/Anadyr'', ''Asia/Aqtau'', ''Asia/Aqtobe'',
     ''Asia/Ashgabat'', ''Asia/Atyrau'', ''Asia/Baghdad'', ''Asia/Bahrain'', ''Asia/Baku'', ''Asia/Bangkok'',
     ''Asia/Barnaul'', ''Asia/Beirut'', ''Asia/Bishkek'', ''Asia/Brunei'', ''Asia/Chita'', ''Asia/Colombo'',
     ''Asia/Damascus'', ''Asia/Dhaka'', ''Asia/Dili'', ''Asia/Dubai'', ''Asia/Dushanbe'', ''Asia/Famagusta'',
     ''Asia/Gaza'', ''Asia/Hebron'', ''Asia/Ho_Chi_Minh'', ''Asia/Hong_Kong'', ''Asia/Hovd'',
     ''Asia/Irkutsk'', ''Asia/Jakarta'', ''Asia/Jayapura'', ''Asia/Jerusalem'', ''Asia/Kabul'',
     ''Asia/Kamchatka'', ''Asia/Karachi'', ''Asia/Kathmandu'', ''Asia/Khandyga'', ''Asia/Kolkata'',
     ''Asia/Krasnoyarsk'', ''Asia/Kuala_Lumpur'', ''Asia/Kuching'', ''Asia/Kuwait'', ''Asia/Macau'',
     ''Asia/Magadan'', ''Asia/Makassar'', ''Asia/Manila'', ''Asia/Muscat'', ''Asia/Nicosia'',
     ''Asia/Novokuznetsk'', ''Asia/Novosibirsk'', ''Asia/Omsk'', ''Asia/Oral'', ''Asia/Phnom_Penh'',
     ''Asia/Pontianak'', ''Asia/Pyongyang'', ''Asia/Qatar'', ''Asia/Qostanay'', ''Asia/Qyzylorda'',
     ''Asia/Riyadh'', ''Asia/Sakhalin'', ''Asia/Samarkand'', ''Asia/Seoul'', ''Asia/Shanghai'',
     ''Asia/Singapore'', ''Asia/Srednekolymsk'', ''Asia/Taipei'', ''Asia/Tashkent'', ''Asia/Tbilisi'',
     ''Asia/Tehran'', ''Asia/Thimphu'', ''Asia/Tokyo'', ''Asia/Tomsk'', ''Asia/Ulaanbaatar'',
     ''Asia/Urumqi'', ''Asia/Ust-Nera'', ''Asia/Vientiane'', ''Asia/Vladivostok'', ''Asia/Yakutsk'',
     ''Asia/Yangon'', ''Asia/Yekaterinburg'', ''Asia/Yerevan'']"

definition zones_Atlantic :: "string list" where
  "zones_Atlantic =
    [''Atlantic/Azores'', ''Atlantic/Bermuda'', ''Atlantic/Canary'', ''Atlantic/Cape_Verde'',
     ''Atlantic/Faroe'', ''Atlantic/Madeira'', ''Atlantic/Reykjavik'', ''Atlantic/South_Georgia'',
     ''Atlantic/St_Helena'', ''Atlantic/Stanley'']"

definition zones_Australia :: "string list" where
  "zones_Australia =
    [''Australia/Adelaide'', ''Australia/Brisbane'', ''Australia/Broken_Hill'', ''Australia/Darwin'',
     ''Australia/Eucla'', ''Australia/Hobart'', ''Australia/Lindeman'', ''Australia/Lord_Howe'',
     ''Australia/Melbourne'', ''Australia/Perth'', ''Australia/Sydney'']"

definition zones_Europe :: "string list" where
  "zones_Europe =
    [''Europe/Amsterdam'', ''Europe/Andorra'', ''Europe/Astrakhan'', ''Europe/Athens'', ''Europe/Belgrade'',
     ''Europe/Berlin'', ''Europe/Bratislava'', ''Europe/Brussels'', ''Europe/Bucharest'',
     ''Europe/Budapest'', ''Europe/Busingen'', ''Europe/Chisinau'', ''Europe/Copenhagen'', ''Europe/Dublin'',
     ''Europe/Gibraltar'', ''Europe/Guernsey'', ''Europe/Helsinki'', ''Europe/Isle_of_Man'',
     ''Europe/Istanbul'', ''Europe/Jersey'', ''Europe/Kaliningrad'', ''Europe/Kirov'', ''Europe/Kyiv'',
     ''Europe/Lisbon'', ''Europe/Ljubljana'', ''Europe/London'', ''Europe/Luxembourg'', ''Europe/Madrid'',
     ''Europe/Malta'', ''Europe/Mariehamn'', ''Europe/Minsk'', ''Europe/Monaco'', ''Europe/Moscow'',
     ''Europe/Oslo'', ''Europe/Paris'', ''Europe/Podgorica'', ''Europe/Prague'', ''Europe/Riga'',
     ''Europe/Rome'', ''Europe/Samara'', ''Europe/San_Marino'', ''Europe/Sarajevo'', ''Europe/Saratov'',
     ''Europe/Simferopol'', ''Europe/Skopje'', ''Europe/Sofia'', ''Europe/Stockholm'', ''Europe/Tallinn'',
     ''Europe/Tirane'', ''Europe/Ulyanovsk'', ''Europe/Vaduz'', ''Europe/Vatican'', ''Europe/Vienna'',
     ''Europe/Vilnius'', ''Europe/Volgograd'', ''Europe/Warsaw'', ''Europe/Zagreb'', ''Europe/Zurich'']"

definition zones_Indian :: "string list" where
  "zones_Indian =
    [''Indian/Antananarivo'', ''Indian/Chagos'', ''Indian/Christmas'', ''Indian/Cocos'', ''Indian/Comoro'',
     ''Indian/Kerguelen'', ''Indian/Mahe'', ''Indian/Maldives'', ''Indian/Mauritius'', ''Indian/Mayotte'',
     ''Indian/Reunion'']"

definition zones_Pacific :: "string list" where
  "zones_Pacific =
    [''Pacific/Apia'', ''Pacific/Auckland'', ''Pacific/Bougainville'', ''Pacific/Chatham'',
     ''Pacific/Chuuk'', ''Pacific/Easter'', ''Pacific/Efate'', ''Pacific/Fakaofo'', ''Pacific/Fiji'',
     ''Pacific/Funafuti'', ''Pacific/Galapagos'', ''Pacific/Gambier'', ''Pacific/Guadalcanal'',
     ''Pacific/Guam'', ''Pacific/Honolulu'', ''Pacific/Kanton'', ''Pacific/Kiritimati'', ''Pacific/Kosrae'',
     ''Pacific/Kwajalein'', ''Pacific/Majuro'', ''Pacific/Marquesas'', ''Pacific/Midway'', ''Pacific/Nauru'',
     ''Pacific/Niue'', ''Pacific/Norfolk'', ''Pacific/Noumea'', ''Pacific/Pago_Pago'', ''Pacific/Palau'',
     ''Pacific/Pitcairn'', ''Pacific/Pohnpei'', ''Pacific/Port_Moresby'', ''Pacific/Rarotonga'',
     ''Pacific/Saipan'', ''Pacific/Tahiti'', ''Pacific/Tarawa'', ''Pacific/Tongatapu'', ''Pacific/Wake'',
     ''Pacific/Wallis'']"

definition zones :: "string list" where
  "zones = zones_Africa @ zones_America1 @ zones_America2 @ zones_Antarctica @ zones_Arctic @ zones_Asia @ zones_Atlantic @ zones_Australia @ zones_Europe @ zones_Indian @ zones_Pacific"

definition zoneAlias :: "(string \<times> string) list" where
  "zoneAlias =
    [(''Africa/Asmara'', ''Africa/Asmera''), (''America/Argentina/Buenos_Aires'', ''America/Buenos_Aires''),
     (''America/Argentina/Catamarca'', ''America/Catamarca''),
     (''America/Argentina/Cordoba'', ''America/Cordoba''), (''America/Argentina/Jujuy'', ''America/Jujuy''),
     (''America/Argentina/Mendoza'', ''America/Mendoza''), (''America/Atikokan'', ''America/Coral_Harbour''),
     (''America/Indiana/Indianapolis'', ''America/Indianapolis''),
     (''America/Kentucky/Louisville'', ''America/Louisville''), (''America/Nuuk'', ''America/Godthab''),
     (''Asia/Ho_Chi_Minh'', ''Asia/Saigon''), (''Asia/Kathmandu'', ''Asia/Katmandu''),
     (''Asia/Kolkata'', ''Asia/Calcutta''), (''Asia/Yangon'', ''Asia/Rangoon''),
     (''Atlantic/Faroe'', ''Atlantic/Faeroe''), (''Europe/Kyiv'', ''Europe/Kiev''),
     (''Pacific/Chuuk'', ''Pacific/Truk''), (''Pacific/Kanton'', ''Pacific/Enderbury''),
     (''Pacific/Pohnpei'', ''Pacific/Ponape'')]"

section \<open>The options\<close>

record zone_option =
  zo_Value :: string
  zo_Label :: string
  zo_On :: bool
  zo_Also :: string

definition zonesFor :: "string \<Rightarrow> string list" where
  "zonesFor held = (if held = '''' \<or> held \<in> set zones then zones else zones @ [held])"

definition zoneLabel :: "string \<Rightarrow> string" where
  "zoneLabel zone = map (\<lambda>c. if c = CHR ''_'' then CHR '' '' else c) zone"

definition zoneOptions :: "string \<Rightarrow> zone_option list" where
  "zoneOptions held =
     (if held = '''' then [\<lparr>zo_Value = '''', zo_Label = ''Timezone'', zo_On = True, zo_Also = ''''\<rparr>] else [])
     @ map (\<lambda>zone. \<lparr>zo_Value = zone, zo_Label = zoneLabel zone, zo_On = (zone = held),
              zo_Also = (case map_of zoneAlias zone of None \<Rightarrow> '''' | Some also \<Rightarrow> also)\<rparr>) (zonesFor held)"

section \<open>The order of the list\<close>

fun ascending :: "string list \<Rightarrow> bool" where
  "ascending (a # b # rest) \<longleftrightarrow> strings_Compare a b < 0 \<and> ascending (b # rest)"
| "ascending _ \<longleftrightarrow> True"

lemma ascending_tl: "ascending (x # xs) \<Longrightarrow> ascending xs"
  by (cases xs) simp_all

lemma ascending_sorted: "ascending xs \<Longrightarrow> sorted_wrt (\<lambda>a b. strings_Compare a b < 0) xs"
proof (induction xs rule: ascending.induct)
  case (1 a b rest)
  then have ab: "strings_Compare a b < 0" and s: "sorted_wrt (\<lambda>a b. strings_Compare a b < 0) (b # rest)" by simp_all
  have "strings_Compare a z < 0" if "z \<in> set (b # rest)" for z
  proof (cases "z = b")
    case False
    with that s have "strings_Compare b z \<le> 0" by auto
    with ab show ?thesis by (rule strings_cmp.less_le_trans)
  qed (use ab in simp)
  with s show ?case by simp
qed simp_all

text \<open>Each region by itself, then the regions one after another.\<close>

lemma ascending_distinct: "sorted_wrt (\<lambda>a b. strings_Compare a b < 0) xs \<Longrightarrow> distinct xs"
proof (induction xs)
  case (Cons x xs)
  have "\<not> strings_Compare x x < 0" using strings_cmp.swap [of x x] strings_cmp.total [of x x] by blast
  with Cons show ?case by auto
qed simp

lemma zones_Africa_ascending: "ascending (map zoneLabel zones_Africa)"
  by (simp add: zones_Africa_def zoneLabel_def)

lemma zones_America1_ascending: "ascending (map zoneLabel zones_America1)"
  by (simp add: zones_America1_def zoneLabel_def)

lemma zones_America2_ascending: "ascending (map zoneLabel zones_America2)"
  by (simp add: zones_America2_def zoneLabel_def)

lemma zones_Antarctica_ascending: "ascending (map zoneLabel zones_Antarctica)"
  by (simp add: zones_Antarctica_def zoneLabel_def)

lemma zones_Arctic_ascending: "ascending (map zoneLabel zones_Arctic)"
  by (simp add: zones_Arctic_def zoneLabel_def)

lemma zones_Asia_ascending: "ascending (map zoneLabel zones_Asia)"
  by (simp add: zones_Asia_def zoneLabel_def)

lemma zones_Atlantic_ascending: "ascending (map zoneLabel zones_Atlantic)"
  by (simp add: zones_Atlantic_def zoneLabel_def)

lemma zones_Australia_ascending: "ascending (map zoneLabel zones_Australia)"
  by (simp add: zones_Australia_def zoneLabel_def)

lemma zones_Europe_ascending: "ascending (map zoneLabel zones_Europe)"
  by (simp add: zones_Europe_def zoneLabel_def)

lemma zones_Indian_ascending: "ascending (map zoneLabel zones_Indian)"
  by (simp add: zones_Indian_def zoneLabel_def)

lemma zones_Pacific_ascending: "ascending (map zoneLabel zones_Pacific)"
  by (simp add: zones_Pacific_def zoneLabel_def)

lemma ascending_append:
  "ascending xs \<Longrightarrow> ascending ys \<Longrightarrow> xs \<noteq> [] \<Longrightarrow> ys \<noteq> [] \<Longrightarrow> strings_Compare (last xs) (hd ys) < 0 \<Longrightarrow>
     ascending (xs @ ys)"
proof (induction xs)
  case (Cons x xs)
  show ?case
  proof (cases xs)
    case Nil
    with Cons.prems show ?thesis by (cases ys) auto
  next
    case c: (Cons b rest)
    with Cons have "ascending (xs @ ys)" by auto
    with c Cons.prems(1) show ?thesis by simp
  qed
qed simp

text \<open>Where each region starts and ends.\<close>

lemma zones_ends:
  "zones_Africa \<noteq> []" "hd zones_Africa = ''Africa/Abidjan''" "last zones_Africa = ''Africa/Windhoek''"
  "zones_America1 \<noteq> []" "hd zones_America1 = ''America/Adak''" "last zones_America1 = ''America/Matamoros''"
  "zones_America2 \<noteq> []" "hd zones_America2 = ''America/Mazatlan''" "last zones_America2 = ''America/Yakutat''"
  "zones_Antarctica \<noteq> []" "hd zones_Antarctica = ''Antarctica/Casey''" "last zones_Antarctica = ''Antarctica/Vostok''"
  "zones_Arctic \<noteq> []" "hd zones_Arctic = ''Arctic/Longyearbyen''" "last zones_Arctic = ''Arctic/Longyearbyen''"
  "zones_Asia \<noteq> []" "hd zones_Asia = ''Asia/Aden''" "last zones_Asia = ''Asia/Yerevan''"
  "zones_Atlantic \<noteq> []" "hd zones_Atlantic = ''Atlantic/Azores''" "last zones_Atlantic = ''Atlantic/Stanley''"
  "zones_Australia \<noteq> []" "hd zones_Australia = ''Australia/Adelaide''" "last zones_Australia = ''Australia/Sydney''"
  "zones_Europe \<noteq> []" "hd zones_Europe = ''Europe/Amsterdam''" "last zones_Europe = ''Europe/Zurich''"
  "zones_Indian \<noteq> []" "hd zones_Indian = ''Indian/Antananarivo''" "last zones_Indian = ''Indian/Reunion''"
  "zones_Pacific \<noteq> []" "hd zones_Pacific = ''Pacific/Apia''" "last zones_Pacific = ''Pacific/Wallis''"
  by (simp_all add: zones_Africa_def zones_America1_def zones_America2_def zones_Antarctica_def zones_Arctic_def zones_Asia_def zones_Atlantic_def zones_Australia_def zones_Europe_def zones_Indian_def zones_Pacific_def)

lemma zones_ascending: "ascending (map zoneLabel zones)"
  unfolding zones_def map_append
  by (intro ascending_append zones_Africa_ascending zones_America1_ascending zones_America2_ascending zones_Antarctica_ascending zones_Arctic_ascending zones_Asia_ascending zones_Atlantic_ascending zones_Australia_ascending zones_Europe_ascending zones_Indian_ascending zones_Pacific_ascending)
    (simp_all add: zones_ends hd_append hd_map last_map, simp_all add: zoneLabel_def)

lemma zones_distinct: "distinct zones"
proof -
  have "sorted_wrt (\<lambda>a b. strings_Compare a b < 0) (map zoneLabel zones)" by (rule ascending_sorted [OF zones_ascending])
  then have "distinct (map zoneLabel zones)" by (rule ascending_distinct)
  then show ?thesis by (simp add: distinct_map)
qed

lemma empty_not_zone: "'''' \<notin> set zones"
proof
  assume empty: "'''' \<in> set zones"
  have first: "zones \<noteq> []" "hd zones = ''Africa/Abidjan''" by (simp_all add: zones_def zones_ends hd_append)
  then obtain rest where rest: "zones = ''Africa/Abidjan'' # rest" by (metis list.exhaust_sel)
  from empty have "'''' \<in> set rest" unfolding rest by simp
  then have "strings_Compare (zoneLabel ''Africa/Abidjan'') (zoneLabel '''') < 0"
    using ascending_sorted [OF zones_ascending] unfolding rest by simp
  then show False by (simp add: zoneLabel_def)
qed

section \<open>Properties\<close>

lemma filter_one: "distinct xs \<Longrightarrow> filter (\<lambda>x. x = y) xs = (if y \<in> set xs then [y] else [])"
  by (induction xs) auto

text \<open>
  The Timezone select has exactly one option selected, and posting it unchanged posts the zone
  held, which the save accepts; the zones offered are in the order of their labels, each once.
\<close>

theorem zone_select:
  "map zo_Value (filter zo_On (zoneOptions held)) = [held]
     \<and> (held = '''' \<or> held \<in> set (zonesFor held))
     \<and> sorted_wrt (\<lambda>a b. strings_Compare a b < 0) (map zoneLabel zones)"
proof -
  have f: "map zo_Value (filter zo_On (map (\<lambda>zone. \<lparr>zo_Value = zone, zo_Label = l zone, zo_On = (zone = held), zo_Also = a zone\<rparr>) zs))
      = filter (\<lambda>x. x = held) zs" for l a zs
    by (induction zs) auto
  have "map zo_Value (filter zo_On (zoneOptions held)) = [held]"
    unfolding zoneOptions_def zonesFor_def
    using zones_distinct empty_not_zone by (simp add: f filter_one)
  moreover have "held = '''' \<or> held \<in> set (zonesFor held)" by (simp add: zonesFor_def)
  ultimately show ?thesis using ascending_sorted [OF zones_ascending] by blast
qed

end
