(* ===== verification/Http_Joining.thy ===== *)
theory Http_Joining
  imports Http_People Http_Zones
begin

text \<open>
  How a person comes into a garden, under \<open>src/internal/http\<close>: an invite link redeemed by somebody
  new or by a new device (\<open>invited.go\<close>), accepted as the account signed in (\<open>accept.go\<close>), and a
  garden set up by somebody new (\<open>setup.go\<close>) or as the account signed in
  (\<open>setup_signed_in.go\<close>).  The ids, creation times and random bytes the writes draw are a record of
  arguments.
\<close>

section \<open>Paths\<close>

text \<open>\<open>url.QueryEscape\<close>.\<close>

definition QueryEscape :: "string \<Rightarrow> string" where
  "QueryEscape s =
     concat (map (\<lambda>c. if c = CHR '' '' then ''+'' else if unreserved c \<and> c \<notin> set ''$&+:=@'' then [c]
       else (let n = of_char c :: nat in [CHR ''%'', upper_hex (n div 16), upper_hex (n mod 16)])) s)"

definition setupPath :: string where "setupPath = ''/setup''"
definition gardensPath :: string where "gardensPath = ''/gardens''"
definition gardenField :: string where "gardenField = ''garden''"

definition acceptPath :: "string \<Rightarrow> string" where
  "acceptPath token = InvitedPath token @ ''/accept''"

definition signInToAcceptPath :: "string \<Rightarrow> string" where
  "signInToAcceptPath token = signInPath @ ''?'' @ nextField @ ''='' @ QueryEscape (acceptPath token)"

definition SetupLinkPath :: "string \<Rightarrow> string" where
  "SetupLinkPath token = setupPath @ ''/'' @ token"

definition setupSignedInPathFor :: "string \<Rightarrow> string" where
  "setupSignedInPathFor token = (if token = '''' then setupPath else SetupLinkPath token) @ ''/signed-in''"

definition signInToSetUpPath :: "string \<Rightarrow> string" where
  "signInToSetUpPath token = signInPath @ ''?'' @ nextField @ ''='' @ QueryEscape (setupSignedInPathFor token)"

section \<open>What a request brings\<close>

record birth =
  bi_Membership :: uuid
  bi_Garden :: uuid
  bi_Care :: "string \<Rightarrow> uuid"
  bi_Passkey :: uuid
  bi_Session :: uuid
  bi_Token :: string
  bi_Random :: "nat \<Rightarrow> string"
  bi_CreatedAt :: gotime

datatype joining_error =
    InviteUsed
  | SetupClosed
  | Joining_handle handle_error
  | Joining_store db_error
  | Joining_passkey passkey_error

record join_form =
  jf_name :: string
  jf_handle :: string
  jf_zone :: string

definition readJoinForm :: "site \<Rightarrow> unicode \<Rightarrow> form \<Rightarrow> join_form" where
  "readJoinForm si u get =
     \<lparr>jf_name = si_TrimSpace si (get ''name''), jf_handle = NormaliseHandle u (get ''handle''),
      jf_zone = get ''timezone''\<rparr>"

definition handleOrDefault :: "unicode \<Rightarrow> join_form \<Rightarrow> string" where
  "handleOrDefault u f = (if jf_handle f \<noteq> '''' then jf_handle f else HandleFor u (jf_name f))"

definition join_valid :: "join_form \<Rightarrow> bool" where
  "join_valid f \<longleftrightarrow> jf_name f \<noteq> '''' \<and> jf_zone f \<noteq> ''''"

definition handleTaken :: "string \<Rightarrow> (db_error, bool) call" where
  "handleTaken h = (if h = '''' then return False else reading (HandleExists h))"

definition handleTakenMessage :: "string \<Rightarrow> string" where
  "handleTakenMessage h = h @ '' is already taken.''"

section \<open>An invite that can still be redeemed\<close>

record open_invite =
  oi_Invite :: invite
  oi_Garden :: garden
  oi_By :: app_user
  oi_member :: app_user

definition reenrol :: "open_invite \<Rightarrow> bool" where
  "reenrol oi = (in_UserID (oi_Invite oi) \<noteq> None)"

definition openInviteToken ::
  "(string \<Rightarrow> string) \<Rightarrow> gotime \<Rightarrow> string \<Rightarrow> (db_error, open_invite option) call" where
  "openInviteToken hashToken now token =
     and_then (optional (reading (GetInviteByTokenHash (hashToken token)))) (\<lambda>row.
     case row of
       None \<Rightarrow> return None
     | Some (i, g, by) \<Rightarrow>
         if in_RedeemedAt i \<noteq> None \<or> \<not> Before now (in_ExpiresAt i) then return None
         else (case in_UserID i of
             None \<Rightarrow>
               return (if (case in_MembershipExpiresAt i of None \<Rightarrow> False | Some at \<Rightarrow> \<not> Before now at) then None
                       else Some \<lparr>oi_Invite = i, oi_Garden = g, oi_By = by, oi_member = zero_AppUser\<rparr>)
           | Some user \<Rightarrow>
               and_then (optional (reading (GetMembershipWithUserAndGarden (in_GardenID i) user))) (\<lambda>row.
               return (case row of
                   None \<Rightarrow> None
                 | Some (m, u, _, _) \<Rightarrow>
                     if MembershipEnded m now then None
                     else Some \<lparr>oi_Invite = i, oi_Garden = g, oi_By = by, oi_member = u\<rparr>))))"

definition openToAccept ::
  "(string \<Rightarrow> string) \<Rightarrow> gotime \<Rightarrow> string \<Rightarrow> (db_error, open_invite option) call" where
  "openToAccept hashToken now token =
     and_then (openInviteToken hashToken now token) (\<lambda>opened.
       return (case opened of None \<Rightarrow> None | Some oi \<Rightarrow> if reenrol oi then None else Some oi))"

definition markRedeemed :: "gotime \<Rightarrow> invite \<Rightarrow> (joining_error, unit) call" where
  "markRedeemed now i =
     and_then (on_error Joining_store (writing (RedeemInvite now (in_GardenID i) (in_ID i)))) (\<lambda>n.
       if n = 0 then fail InviteUsed else return ())"

definition invited_membership :: "invite \<Rightarrow> uuid \<Rightarrow> new_membership" where
  "invited_membership i user =
     \<lparr>nm_GardenID = in_GardenID i, nm_UserID = user, nm_Role = in_Role i, nm_InvitedBy = Some (in_CreatedBy i),
      nm_ExpiresAt = in_MembershipExpiresAt i\<rparr>"

section \<open>Accepting as the account signed in\<close>

text \<open>The membership an account holds, and whether it is live.\<close>

definition existingMembership :: "gotime \<Rightarrow> uuid \<Rightarrow> uuid \<Rightarrow> (db_error, membership option \<times> bool) call" where
  "existingMembership now garden user =
     and_then (optional (reading (GetMembershipWithUserAndGarden garden user))) (\<lambda>row.
       return (case row of None \<Rightarrow> (None, False) | Some (m, _, _, _) \<Rightarrow> (Some m, \<not> MembershipEnded m now)))"

definition writeAcceptance ::
  "birth \<Rightarrow> gotime \<Rightarrow> invite \<Rightarrow> membership option \<Rightarrow> uuid \<Rightarrow> (joining_error, membership) call" where
  "writeAcceptance b now i existing user =
     and_then (markRedeemed now i) (\<lambda>_.
     on_error Joining_store
       (if existing \<noteq> None then renewMembership (invited_membership i user)
        else createMembership (bi_Membership b) (bi_CreatedAt b) (invited_membership i user)))"

text \<open>The session moves onto a garden, and the account remembers it.\<close>

definition move_to_garden :: "principal \<Rightarrow> uuid \<Rightarrow> (db_error, unit) call" where
  "move_to_garden p garden =
     and_then (writing (SetSessionGarden (Some garden) (se_TokenHash (pr_Session p)))) (\<lambda>_.
     writing (SetLastGarden (Some garden) (us_ID (pr_User p))))"

definition acceptance ::
  "principal \<Rightarrow> birth \<Rightarrow> gotime \<Rightarrow> invite \<Rightarrow> membership option \<Rightarrow> (joining_error, unit) call" where
  "acceptance p b now i existing =
     InTx (and_then (writeAcceptance b now i existing (us_ID (pr_User p))) (\<lambda>_.
         on_error Joining_store (move_to_garden p (in_GardenID i))))
       (Joining_store Failure)"

record accept_page =
  ac_Current :: string
  ac_AlreadyIn :: bool
  ac_Garden :: string
  ac_By :: string
  ac_Name :: string
  ac_Joining :: string
  ac_Action :: string
  ac_Switch :: string
  ac_Field :: string
  ac_GardenID :: uuid
  ac_SignIn :: string

definition newAcceptPage :: "site \<Rightarrow> string \<Rightarrow> principal \<Rightarrow> open_invite \<Rightarrow> bool \<Rightarrow> accept_page" where
  "newAcceptPage si token p oi alreadyIn =
     \<lparr>ac_Current = ga_Name (pr_Garden p), ac_AlreadyIn = alreadyIn, ac_Garden = ga_Name (oi_Garden oi),
      ac_By = us_DisplayName (oi_By oi), ac_Name = us_DisplayName (pr_User p),
      ac_Joining = joiningSentence (in_Role (oi_Invite oi)) (in_MembershipExpiresAt (oi_Invite oi))
        (locationFor si (pr_User p)),
      ac_Action = acceptPath token, ac_Switch = gardensPath, ac_Field = gardenField,
      ac_GardenID = in_GardenID (oi_Invite oi), ac_SignIn = signInToAcceptPath token\<rparr>"

type_synonym accept_told = "(accept_page, string) told"

text \<open>A link that cannot be accepted gets its page with a 404; the page for an account already in the
  garden is sent with a 422 after a post.\<close>

definition showAccept ::
  "(string \<Rightarrow> string) \<Rightarrow> site \<Rightarrow> principal \<Rightarrow> string \<Rightarrow> gotime \<Rightarrow> world \<Rightarrow> accept_told \<times> world" where
  "showAccept hashToken si p token clock =
     answering (openToAccept hashToken clock token) (\<lambda>_. (Server_error, [])) (\<lambda>opened.
     case opened of
       None \<Rightarrow> (\<lambda>w. ((Not_found, []), w))
     | Some oi \<Rightarrow>
         answering (existingMembership clock (in_GardenID (oi_Invite oi)) (us_ID (pr_User p))) (\<lambda>_. (Server_error, []))
           (\<lambda>(_, live) w. ((Page (newAcceptPage si token p oi live), []), w)))"

definition accept_invite ::
  "(string \<Rightarrow> string) \<Rightarrow> site \<Rightarrow> principal \<Rightarrow> birth \<Rightarrow> string \<Rightarrow> gotime \<Rightarrow> world \<Rightarrow> accept_told \<times> world" where
  "accept_invite hashToken si p b token clock =
     answering (openToAccept hashToken clock token) (\<lambda>_. (Server_error, [])) (\<lambda>opened.
     case opened of
       None \<Rightarrow> (\<lambda>w. ((Not_found, []), w))
     | Some oi \<Rightarrow>
         answering (existingMembership clock (in_GardenID (oi_Invite oi)) (us_ID (pr_User p))) (\<lambda>_. (Server_error, []))
           (\<lambda>(existing, live).
         if live then (\<lambda>w. ((Page (newAcceptPage si token p oi True), []), w))
         else
           answering (gardenNamer (oi_Garden oi)) (\<lambda>_. (Server_error, [])) (\<lambda>gardenNamed.
           answering (acceptance p b clock (oi_Invite oi) existing)
             (\<lambda>e. (if e = InviteUsed then Not_found else Server_error, [])) (\<lambda>_ w.
             ((Redirect todayPath,
               [Notify (oi_By oi) (InviteAcceptedNotification (gardenNamed (us_ID (oi_By oi))) (pr_User p)
                  (in_Role (oi_Invite oi)) PeoplePath), Wake]), w)))))"

section \<open>Redeeming as somebody new, or on a new device\<close>

record invited_page =
  ed_Reenrol :: bool
  ed_By :: string
  ed_Garden :: string
  ed_Name :: string
  ed_Handle :: string
  ed_Zones :: "zone_option list"
  ed_Action :: string
  ed_Joining :: string
  ed_SignInToJoin :: string

definition newInvitedPage :: "site \<Rightarrow> string \<Rightarrow> open_invite \<Rightarrow> join_form \<Rightarrow> invited_page" where
  "newInvitedPage si token oi f =
     (let joins = \<not> reenrol oi; i = oi_Invite oi
      in \<lparr>ed_Reenrol = reenrol oi, ed_By = (if joins then us_DisplayName (oi_By oi) else ''''),
          ed_Garden = ga_Name (oi_Garden oi), ed_Name = jf_name f, ed_Handle = jf_handle f,
          ed_Zones = zoneOptions (jf_zone f), ed_Action = InvitedPath token,
          ed_Joining = (if joins then joiningSentence (in_Role i) (in_MembershipExpiresAt i) (locationFor si (oi_By oi))
             else ''''),
          ed_SignInToJoin = (if joins then signInToAcceptPath token else '''')\<rparr>)"

definition freshJoinForm :: "open_invite \<Rightarrow> join_form" where
  "freshJoinForm oi = \<lparr>jf_name = '''', jf_handle = '''', jf_zone = us_Timezone (oi_By oi)\<rparr>"

text \<open>\<open>hasSession\<close> of \<open>authn.go\<close>: whether the request's session cookie resolves to an account.\<close>

definition hasSession ::
  "('s, 'c, 'a, 'o) front \<Rightarrow> gotime \<Rightarrow> request_cookies \<Rightarrow> world \<Rightarrow> bool \<times> world" where
  "hasSession f now cookies w =
     (let token = TokenFromRequest (fo_sessions f) cookies in
      if token = '''' then (False, w)
      else (case Resolve_session (fo_hash f) (fo_sessions f) now token w of
              (Inl _, w) \<Rightarrow> (False, w)
            | (Inr _, w) \<Rightarrow> (True, w)))"

definition show_invited ::
  "('s, 'c, 'a, 'o) front \<Rightarrow> site \<Rightarrow> string \<Rightarrow> request_cookies \<Rightarrow> gotime
     \<Rightarrow> world \<Rightarrow> (invited_page, string) page_answer \<times> world" where
  "show_invited f si token cookies clock =
     answering (openInviteToken (fo_hash f) clock token) (\<lambda>_. Server_error) (\<lambda>opened.
     case opened of
       None \<Rightarrow> (\<lambda>w. (Not_found, w))
     | Some oi \<Rightarrow> (\<lambda>w.
         case (if reenrol oi then (False, w) else hasSession f clock cookies w) of
           (True, w) \<Rightarrow> (Redirect (acceptPath token), w)
         | (False, w) \<Rightarrow> (Page (newInvitedPage si token oi (freshJoinForm oi)), w)))"

text \<open>The account a challenge is begun for has no row yet.\<close>

definition new_account :: "unicode \<Rightarrow> uuid \<Rightarrow> join_form \<Rightarrow> app_user" where
  "new_account u newID f =
     zero_AppUser\<lparr>us_ID := newID, us_DisplayName := jf_name f, us_Handle := handleOrDefault u f, us_Timezone := jf_zone f\<rparr>"

definition begin_account ::
  "('s, 'c, 'a, 'o) front \<Rightarrow> fresh_row \<Rightarrow> unicode \<Rightarrow> uuid \<Rightarrow> join_form \<Rightarrow> gotime
     \<Rightarrow> world \<Rightarrow> ('o \<times> http_cookie, string) page_answer \<times> world" where
  "begin_account f fr u newID form clock =
     answering (handleTaken (jf_handle form)) (\<lambda>_. Server_error) (\<lambda>taken.
       if taken then (\<lambda>w. (Refused '''', w))
       else answering (BeginSetup (fo_wa f) (fo_passkeys f) (fo_hash f) fr clock (new_account u newID form))
              (\<lambda>_. Server_error) (\<lambda>creation w. (Page creation, w)))"

definition invited_challenge ::
  "('s, 'c, 'a, 'o) front \<Rightarrow> fresh_row \<Rightarrow> site \<Rightarrow> unicode \<Rightarrow> uuid \<Rightarrow> string \<Rightarrow> form \<Rightarrow> gotime
     \<Rightarrow> world \<Rightarrow> ('o \<times> http_cookie, string) page_answer \<times> world" where
  "invited_challenge f fr si u newID token get clock =
     answering (openInviteToken (fo_hash f) clock token) (\<lambda>_. Server_error) (\<lambda>opened.
     case opened of
       None \<Rightarrow> (\<lambda>w. (Refused '''', w))
     | Some oi \<Rightarrow>
         if reenrol oi then
           read_or (ListPasskeys (us_ID (oi_member oi))) (\<lambda>_. Server_error) (\<lambda>held.
           answering (BeginRegistration (fo_wa f) (fo_passkeys f) (fo_hash f) fr clock (oi_member oi) held)
             (\<lambda>_. Server_error) (\<lambda>creation w. (Page creation, w)))
         else
           (let form = readJoinForm si u get in
            if \<not> join_valid form then (\<lambda>w. (Refused '''', w))
            else if jf_zone form \<notin> set zones then (\<lambda>w. (Bad_request, w))
            else begin_account f fr u newID form clock))"

text \<open>The account of a form: with the handle typed, or with one made from the name.\<close>

definition create_account :: "unicode \<Rightarrow> birth \<Rightarrow> uuid \<Rightarrow> join_form \<Rightarrow> (joining_error, app_user) call" where
  "create_account u b accountID form =
     on_error Joining_handle
       (if jf_handle form \<noteq> '''' then CreateAccountWithHandle (bi_CreatedAt b) accountID (jf_name form) (jf_handle form) (jf_zone form)
        else CreateAccount u (bi_Random b) (bi_CreatedAt b) accountID (jf_name form) (jf_zone form))"

definition join_garden ::
  "('s, 'c, 'a, 'o) front \<Rightarrow> unicode \<Rightarrow> birth \<Rightarrow> request_cookies \<Rightarrow> form \<Rightarrow> string \<Rightarrow> gotime \<Rightarrow> open_invite \<Rightarrow> join_form
     \<Rightarrow> (joining_error, app_user \<times> passkey_credential) call" where
  "join_garden f u b cookies get agent clock oi form =
     and_then (on_error Joining_passkey (TakeSetup (fo_wa f) (fo_passkeys f) (fo_hash f) clock cookies)) (\<lambda>ceremony.
     InTx (and_then (markRedeemed clock (oi_Invite oi)) (\<lambda>_.
           and_then (create_account u b (fst ceremony) form) (\<lambda>user.
           and_then (on_error Joining_store (createMembership (bi_Membership b) (bi_CreatedAt b)
               (invited_membership (oi_Invite oi) (us_ID user)))) (\<lambda>_.
           and_then (on_error Joining_passkey (FinishSetup (fo_wa f) (bi_Passkey b) (bi_CreatedAt b) ceremony user
               (get credentialField) (browserName (userAgentOf agent)))) (\<lambda>passkey.
           return (user, passkey))))))
       (Joining_store Failure))"

definition addDevice ::
  "('s, 'c, 'a, 'o) front \<Rightarrow> birth \<Rightarrow> request_cookies \<Rightarrow> form \<Rightarrow> string \<Rightarrow> gotime \<Rightarrow> open_invite
     \<Rightarrow> (joining_error, app_user \<times> passkey_credential) call" where
  "addDevice f b cookies get agent clock oi =
     InTx (and_then (markRedeemed clock (oi_Invite oi)) (\<lambda>_.
         and_then (on_error Joining_passkey (FinishRegistration (fo_wa f) (fo_passkeys f) (fo_hash f) (bi_Passkey b)
             (bi_CreatedAt b) clock cookies (oi_member oi) (get credentialField) (browserName (userAgentOf agent)))) (\<lambda>passkey.
         return (oi_member oi, passkey))))
       (Joining_store Failure)"

definition refuse_joining :: "string \<Rightarrow> joining_error \<Rightarrow> ('x, string) page_answer" where
  "refuse_joining h e =
     (case e of
        InviteUsed \<Rightarrow> Not_found
      | SetupClosed \<Rightarrow> Not_found
      | Joining_handle ErrHandleTaken \<Rightarrow> Refused (handleTakenMessage h)
      | Joining_passkey e \<Rightarrow> registrationRefusal e
      | _ \<Rightarrow> Server_error)"

type_synonym joining_told = "(unit, string) told"

text \<open>A handler's answer, with what it tells the notifier and the jobs.\<close>

definition telling :: "signal list \<Rightarrow> (world \<Rightarrow> 'r \<times> world) \<Rightarrow> world \<Rightarrow> ('r \<times> signal list) \<times> world" where
  "telling signals m w = (case m w of (r, w) \<Rightarrow> ((r, signals), w))"

definition redeem ::
  "('s, 'c, 'a, 'o) front \<Rightarrow> site \<Rightarrow> unicode \<Rightarrow> birth \<Rightarrow> string \<Rightarrow> request_cookies \<Rightarrow> form \<Rightarrow> string \<Rightarrow> gotime
     \<Rightarrow> world \<Rightarrow> joining_told \<times> world" where
  "redeem f si u b token cookies get agent clock =
     answering (openInviteToken (fo_hash f) clock token) (\<lambda>_. (Server_error, [])) (\<lambda>opened.
     case opened of
       None \<Rightarrow> (\<lambda>w. ((Not_found, []), w))
     | Some oi \<Rightarrow>
         (let form = readJoinForm si u get; i = oi_Invite oi;
              start = (\<lambda>user passkey. replace_session f cookies (bi_Token b) (bi_Session b) clock (us_ID user)
                 (Some (in_GardenID i)) (pk_ID passkey) agent)
          in if reenrol oi then
               answering (addDevice f b cookies get agent clock oi) (\<lambda>e. (refuse_joining (jf_handle form) e, []))
                 (\<lambda>(user, passkey). telling [] (start user passkey todayPath))
             else if jf_zone form \<noteq> '''' \<and> jf_zone form \<notin> set zones then (\<lambda>w. ((Bad_request, []), w))
             else if \<not> join_valid form then (\<lambda>w. ((Refused '''', []), w))
             else
               answering (handleTaken (jf_handle form)) (\<lambda>_. (Server_error, [])) (\<lambda>taken.
               if taken then (\<lambda>w. ((Refused (handleTakenMessage (jf_handle form)), []), w))
               else
                 answering (gardenNamer (oi_Garden oi)) (\<lambda>_. (Server_error, [])) (\<lambda>gardenNamed.
                 answering (join_garden f u b cookies get agent clock oi form) (\<lambda>e. (refuse_joining (jf_handle form) e, []))
                   (\<lambda>(user, passkey).
                   telling [Notify (oi_By oi) (InviteAcceptedNotification (gardenNamed (us_ID (oi_By oi))) user (in_Role i) PeoplePath), Wake]
                     (start user passkey remindersPath))))))"

section \<open>Setting up a garden\<close>

definition seededCareTypes :: "(string \<times> string \<times> string) list" where
  "seededCareTypes = [(''Water'', ''water'', ''water''), (''Feed'', ''feed'', ''feed''), (''Repot'', ''repot'', ''repot'')]"

definition createGardenOwnedBy :: "birth \<Rightarrow> string \<Rightarrow> uuid \<Rightarrow> (db_error, garden \<times> membership) call" where
  "createGardenOwnedBy b name user =
     and_then (writing (CreateGarden (bi_Garden b) (bi_CreatedAt b) name)) (\<lambda>g.
     and_then (createMembership (bi_Membership b) (bi_CreatedAt b)
         \<lparr>nm_GardenID = ga_ID g, nm_UserID = user, nm_Role = ''owner'', nm_InvitedBy = None, nm_ExpiresAt = None\<rparr>) (\<lambda>m.
     and_then (each (\<lambda>(name, slug, icon). and_then (writing (CreateCareType (bi_Care b slug) (bi_CreatedAt b) (ga_ID g) name slug icon))
         (\<lambda>_. return ())) seededCareTypes) (\<lambda>_.
     return (g, m))))"

text \<open>\<open>open\<close> and \<open>claim\<close> of \<open>setup\<close>: an empty token is the URL without a setup link, \<open>enabled\<close> the
  install's sign-up flag.\<close>

definition setup_served :: "(string \<Rightarrow> string) \<Rightarrow> bool \<Rightarrow> string \<Rightarrow> gotime \<Rightarrow> (db_error, bool) call" where
  "setup_served hashToken enabled token now =
     (if token \<noteq> '''' then reading (SetupLinkOpen (hashToken token) now)
      else if enabled then return True
      else and_then (reading AnyUsers) (\<lambda>some. return (\<not> some)))"

definition claim :: "(string \<Rightarrow> string) \<Rightarrow> bool \<Rightarrow> string \<Rightarrow> gotime \<Rightarrow> (joining_error, unit) call" where
  "claim hashToken enabled token now =
     (if token \<noteq> '''' then
        and_then (on_error Joining_store (writing (UseSetupLink now (hashToken token)))) (\<lambda>n.
          if n = 0 then fail SetupClosed else return ())
      else if enabled then return ()
      else
        and_then (on_error Joining_store (reading LockUsers)) (\<lambda>_.
        and_then (on_error Joining_store (reading AnyUsers)) (\<lambda>some.
          if some then fail SetupClosed else return ())))"

record setup_page =
  su_Zones :: "zone_option list"
  su_SignIn :: string

definition newSetupPage :: "string \<Rightarrow> bool \<Rightarrow> setup_page" where
  "newSetupPage token enabled =
     \<lparr>su_Zones = zoneOptions '''', su_SignIn = (if token \<noteq> '''' \<or> enabled then signInToSetUpPath token else '''')\<rparr>"

definition show_setup ::
  "('s, 'c, 'a, 'o) front \<Rightarrow> bool \<Rightarrow> string \<Rightarrow> request_cookies \<Rightarrow> gotime
     \<Rightarrow> world \<Rightarrow> (setup_page, string) page_answer \<times> world" where
  "show_setup f enabled token cookies clock =
     answering (setup_served (fo_hash f) enabled token clock) (\<lambda>_. Server_error) (\<lambda>served.
     if \<not> served then (\<lambda>w. (Not_found, w))
     else (\<lambda>w. case hasSession f clock cookies w of
         (True, w) \<Rightarrow> (Redirect (setupSignedInPathFor token), w)
       | (False, w) \<Rightarrow> (Page (newSetupPage token enabled), w)))"

text \<open>The setup form is the join form and the garden's name.\<close>

definition setup_challenge ::
  "('s, 'c, 'a, 'o) front \<Rightarrow> fresh_row \<Rightarrow> site \<Rightarrow> unicode \<Rightarrow> uuid \<Rightarrow> bool \<Rightarrow> string \<Rightarrow> form \<Rightarrow> gotime
     \<Rightarrow> world \<Rightarrow> ('o \<times> http_cookie, string) page_answer \<times> world" where
  "setup_challenge f fr si u newID enabled token get clock =
     answering (setup_served (fo_hash f) enabled token clock) (\<lambda>_. Server_error) (\<lambda>served.
     if \<not> served then (\<lambda>w. (Not_found, w))
     else
       (let form = readJoinForm si u get in
        if si_TrimSpace si (get ''garden'') = '''' \<or> \<not> join_valid form then (\<lambda>w. (Refused '''', w))
        else if jf_zone form \<notin> set zones then (\<lambda>w. (Bad_request, w))
        else begin_account f fr u newID form clock))"

definition set_up ::
  "('s, 'c, 'a, 'o) front \<Rightarrow> unicode \<Rightarrow> birth \<Rightarrow> bool \<Rightarrow> string \<Rightarrow> form \<Rightarrow> string \<Rightarrow> gotime \<Rightarrow> string \<Rightarrow> join_form \<Rightarrow> uuid \<times> 's
     \<Rightarrow> (joining_error, app_user \<times> membership \<times> passkey_credential) call" where
  "set_up f u b enabled token get agent clock name form ceremony =
     InTx (and_then (claim (fo_hash f) enabled token clock) (\<lambda>_.
           and_then (create_account u b (fst ceremony) form) (\<lambda>user.
           and_then (on_error Joining_store (createGardenOwnedBy b name (us_ID user))) (\<lambda>(g, m).
           and_then (on_error Joining_passkey (FinishSetup (fo_wa f) (bi_Passkey b) (bi_CreatedAt b) ceremony user
               (get credentialField) (browserName (userAgentOf agent)))) (\<lambda>passkey.
           return (user, m, passkey))))))
       (Joining_store Failure)"

definition create_setup ::
  "('s, 'c, 'a, 'o) front \<Rightarrow> site \<Rightarrow> unicode \<Rightarrow> birth \<Rightarrow> bool \<Rightarrow> string \<Rightarrow> request_cookies \<Rightarrow> form \<Rightarrow> string \<Rightarrow> gotime
     \<Rightarrow> world \<Rightarrow> (unit, string) page_answer \<times> world" where
  "create_setup f si u b enabled token cookies get agent clock =
     answering (setup_served (fo_hash f) enabled token clock) (\<lambda>_. Server_error) (\<lambda>served.
     if \<not> served then (\<lambda>w. (Not_found, w))
     else
       (let form = readJoinForm si u get; name = si_TrimSpace si (get ''garden'') in
        if jf_zone form \<noteq> '''' \<and> jf_zone form \<notin> set zones then (\<lambda>w. (Bad_request, w))
        else if name = '''' \<or> \<not> join_valid form then (\<lambda>w. (Refused '''', w))
        else
          answering (handleTaken (jf_handle form)) (\<lambda>_. Server_error) (\<lambda>taken.
          if taken then (\<lambda>w. (Refused (handleTakenMessage (jf_handle form)), w))
          else
            answering (TakeSetup (fo_wa f) (fo_passkeys f) (fo_hash f) clock cookies) registrationRefusal (\<lambda>ceremony.
            answering (set_up f u b enabled token get agent clock name form ceremony) (refuse_joining (jf_handle form))
              (\<lambda>(user, m, passkey).
              replace_session f cookies (bi_Token b) (bi_Session b) clock (us_ID user) (Some (me_GardenID m)) (pk_ID passkey)
                agent remindersPath)))))"

section \<open>A garden of one's own, signed in\<close>

record setup_signed_in_page =
  ss_Garden :: string
  ss_Name :: string
  ss_Action :: string
  ss_SignIn :: string

definition newSetupSignedInPage :: "string \<Rightarrow> principal \<Rightarrow> string \<Rightarrow> setup_signed_in_page" where
  "newSetupSignedInPage token p garden =
     \<lparr>ss_Garden = garden, ss_Name = us_DisplayName (pr_User p), ss_Action = setupSignedInPathFor token,
      ss_SignIn = signInToSetUpPath token\<rparr>"

definition signedInOpen :: "(string \<Rightarrow> string) \<Rightarrow> bool \<Rightarrow> string \<Rightarrow> gotime \<Rightarrow> (db_error, bool) call" where
  "signedInOpen hashToken enabled token now =
     (if token \<noteq> '''' then reading (SetupLinkOpen (hashToken token) now) else return enabled)"

definition showSignedIn ::
  "(string \<Rightarrow> string) \<Rightarrow> principal \<Rightarrow> bool \<Rightarrow> string \<Rightarrow> gotime
     \<Rightarrow> world \<Rightarrow> (setup_signed_in_page, string) page_answer \<times> world" where
  "showSignedIn hashToken p enabled token clock =
     answering (signedInOpen hashToken enabled token clock) (\<lambda>_. Server_error) (\<lambda>served w.
       (if \<not> served then Not_found else Page (newSetupSignedInPage token p ''''), w))"

definition set_up_signed_in ::
  "(string \<Rightarrow> string) \<Rightarrow> principal \<Rightarrow> birth \<Rightarrow> bool \<Rightarrow> string \<Rightarrow> gotime \<Rightarrow> string \<Rightarrow> (joining_error, unit) call" where
  "set_up_signed_in hashToken p b enabled token clock name =
     InTx (and_then (claim hashToken enabled token clock) (\<lambda>_.
         and_then (on_error Joining_store (createGardenOwnedBy b name (us_ID (pr_User p)))) (\<lambda>(g, _).
         on_error Joining_store (move_to_garden p (ga_ID g)))))
       (Joining_store Failure)"

definition createSignedIn ::
  "(string \<Rightarrow> string) \<Rightarrow> site \<Rightarrow> principal \<Rightarrow> birth \<Rightarrow> bool \<Rightarrow> string \<Rightarrow> form \<Rightarrow> gotime
     \<Rightarrow> world \<Rightarrow> joining_told \<times> world" where
  "createSignedIn hashToken si p b enabled token get clock =
     answering (signedInOpen hashToken enabled token clock) (\<lambda>_. (Server_error, [])) (\<lambda>served.
     if \<not> served then (\<lambda>w. ((Not_found, []), w))
     else
       (let name = si_TrimSpace si (get ''garden'') in
        if name = '''' then (\<lambda>w. ((Refused ''Enter a name for your garden.'', []), w))
        else
          answering (set_up_signed_in hashToken p b enabled token clock name)
            (\<lambda>e. (if e = SetupClosed then Not_found else Server_error, []))
            (\<lambda>_ w. ((Redirect todayPath, [Wake]), w))))"

end
