(* ===== verification/Http_Leaving.thy ===== *)
theory Http_Leaving
  imports Http_Joining
begin

text \<open>
  How an account and a garden end: closing an account (\<open>close_account.go\<close>), which is refused while
  the account is the only owner of a garden, and deleting a garden (\<open>delete_garden.go\<close>), under
  \<open>src/internal/http\<close>.
\<close>

definition accountPath :: string where "accountPath = ''/more/account''"
definition closeAccountPath :: string where "closeAccountPath = accountPath @ ''/close''"
definition gardenPath :: string where "gardenPath = ''/more/garden''"
definition deleteGardenPath :: string where "deleteGardenPath = gardenPath @ ''/delete''"

section \<open>close_account.go\<close>

datatype close_error = SoleOwner | AlreadyClosed | Close_store db_error

definition closeAccountMismatch :: string where
  "closeAccountMismatch = ''That isn'' @ right_quote @ ''t your handle. Type it exactly as shown.''"

record close_account_page =
  cl_Href :: string
  cl_InGarden :: bool
  cl_SoleOwnerNotice :: string
  cl_Handle :: string
  cl_Typed :: string
  cl_Error :: string

definition soleOwnerNotice :: "garden list \<Rightarrow> string" where
  "soleOwnerNotice gardens =
     (if gardens = [] then ''''
      else ''You'' @ right_quote @ ''re the only owner of '' @ andList (map ga_Name gardens) @ ''. Delete ''
        @ (if 1 < length gardens then ''them'' else ''it'') @ '' before closing your account.'')"

definition newCloseAccountPage :: "site \<Rightarrow> principal \<Rightarrow> string \<Rightarrow> string \<Rightarrow> gotime \<Rightarrow> (db_error, close_account_page) call" where
  "newCloseAccountPage si p typed message clock =
     and_then (reading (ListGardensOnlyThisUserOwns (si_collate si) (us_ID (pr_User p)) clock)) (\<lambda>owned.
       return \<lparr>cl_Href = (if InGarden p then accountPath else todayPath), cl_InGarden = InGarden p,
         cl_SoleOwnerNotice = soleOwnerNotice owned, cl_Handle = us_Handle (pr_User p), cl_Typed = typed, cl_Error = message\<rparr>)"

type_synonym close_told = "(close_account_page, string) told"

definition confirm_close :: "site \<Rightarrow> principal \<Rightarrow> gotime \<Rightarrow> world \<Rightarrow> close_told \<times> world" where
  "confirm_close si p clock =
     answering (newCloseAccountPage si p '''' '''' clock) (\<lambda>_. (Server_error, [])) (\<lambda>page w. ((Page page, []), w))"

text \<open>What a close deletes, in the order of the list the code ranges over.\<close>

definition account_deletes :: "(uuid \<Rightarrow> db \<Rightarrow> db_error + unit \<times> db) list" where
  "account_deletes =
     [DeleteUserPasskeys, DeleteRecoveryCodes, DeleteUserPushSubscriptions, DeleteUserSessions, DeleteUserCeremonies,
      DeleteUserReenrolmentInvites, DeleteUserMemberships]"

definition closeUserAccount :: "(string \<Rightarrow> string \<Rightarrow> int) \<Rightarrow> uuid \<Rightarrow> gotime \<Rightarrow> (close_error, unit) call" where
  "closeUserAccount collate user now =
     and_then (on_error Close_store (reading (ListGardensOnlyThisUserOwns collate user now))) (\<lambda>owned.
     if owned \<noteq> [] then fail SoleOwner
     else
       and_then (each (\<lambda>del. on_error Close_store (writing (del user))) account_deletes) (\<lambda>_.
       and_then (on_error Close_store (writing (CloseAccount now user))) (\<lambda>closed.
       if closed = 0 then fail AlreadyClosed else return ())))"

text \<open>A refused post renders the page again: for a handle that does not match, and for a sole owner.\<close>

definition close_account :: "site \<Rightarrow> principal \<Rightarrow> form \<Rightarrow> gotime \<Rightarrow> world \<Rightarrow> close_told \<times> world" where
  "close_account si p get clock =
     (let typed = si_TrimSpace si (get ''handle'');
          again = (\<lambda>typed message. answering (newCloseAccountPage si p typed message clock) (\<lambda>_. (Server_error, []))
            (\<lambda>page w. ((Page page, []), w)))
      in if typed \<noteq> us_Handle (pr_User p) then again typed closeAccountMismatch
         else (\<lambda>w. case InTx (closeUserAccount (si_collate si) (us_ID (pr_User p)) clock) (Close_store Failure) w of
             (Inl SoleOwner, w) \<Rightarrow> again '''' '''' w
           | (Inl _, w) \<Rightarrow> ((Server_error, []), w)
           | (Inr _, w) \<Rightarrow> ((Redirect signInPath, [Wake]), w)))"

section \<open>delete_garden.go\<close>

definition deleteGardenMismatch :: string where
  "deleteGardenMismatch = ''That isn'' @ right_quote @ ''t the garden'' @ right_quote @ ''s name. Type it exactly as shown.''"

record delete_garden_page =
  dg_Name :: string
  dg_Typed :: string
  dg_Error :: string

definition confirm_delete :: "principal \<Rightarrow> world \<Rightarrow> (delete_garden_page, string) told \<times> world" where
  "confirm_delete p w = ((Page \<lparr>dg_Name = ga_Name (pr_Garden p), dg_Typed = '''', dg_Error = ''''\<rparr>, []), w)"

definition garden_deletion :: "uuid \<Rightarrow> (db_error, int) call" where
  "garden_deletion garden =
     InTx (and_then (writing (DeleteGardenCareEvents garden)) (\<lambda>_. writing (DeleteGarden garden))) Failure"

definition delete_garden :: "site \<Rightarrow> principal \<Rightarrow> form \<Rightarrow> world \<Rightarrow> (delete_garden_page, string) told \<times> world" where
  "delete_garden si p get =
     (let typed = si_TrimSpace si (get ''name''); garden = ga_ID (pr_Garden p) in
      if typed \<noteq> ga_Name (pr_Garden p) then
        (\<lambda>w. ((Page \<lparr>dg_Name = ga_Name (pr_Garden p), dg_Typed = typed, dg_Error = deleteGardenMismatch\<rparr>, []), w))
      else answering (garden_deletion garden) (\<lambda>_. (Server_error, []))
             (\<lambda>_ w. ((Redirect todayPath, [Remove_photos garden, Wake]), w)))"

end
