(* ===== verification/Http_Owners.thy ===== *)
theory Http_Owners
  imports Http_Leaving
begin

text \<open>
  Every garden has one owner.  The requests that write gardens, memberships and invites
  (\<open>Http_People\<close>, \<open>Http_Joining\<close>, \<open>Http_Leaving\<close>) as a step relation on the tables, and the invariant
  they keep: each garden has exactly one owner membership, without an end date, and no open invite
  grants ownership.
\<close>

section \<open>The invariant\<close>

definition owns :: "uuid \<Rightarrow> membership \<Rightarrow> bool" where
  "owns g m \<longleftrightarrow> me_GardenID m = g \<and> me_Role m = ''owner''"

definition owner_only :: "string \<Rightarrow> bool" where
  "owner_only c \<longleftrightarrow> c \<in> {memberManage, memberInvite, gardenDelete}"

text \<open>The part of the tables the invariant is about.\<close>

definition people :: "db \<Rightarrow> garden list \<times> membership list \<times> invite list \<times> role_capability list" where
  "people d = (t_garden d, t_membership d, t_invite d, t_role_capability d)"

definition owned :: "db \<Rightarrow> bool" where
  "owned d \<longleftrightarrow>
     (\<forall>g \<in> set (t_garden d). length (filter (owns (ga_ID g)) (t_membership d)) = 1)
     \<and> (\<forall>m \<in> set (t_membership d). has_garden (me_GardenID m) d \<and> (me_Role m = ''owner'' \<longrightarrow> me_ExpiresAt m = None))
     \<and> distinct (map (\<lambda>m. (me_GardenID m, me_UserID m)) (t_membership d))
     \<and> (\<forall>i \<in> set (t_invite d). in_UserID i = None \<longrightarrow> in_Role i \<noteq> ''owner'')
     \<and> (\<forall>r \<in> set (t_role_capability d). owner_only (ro_Capability r) \<longrightarrow> ro_Role r = ''owner'')"

lemma owned_people: "people d' = people d \<Longrightarrow> owned d' = owned d"
  by (simp add: owned_def people_def has_garden_def)

lemma ownedD:
  assumes "owned d"
  shows "g \<in> set (t_garden d) \<Longrightarrow> \<exists>m. filter (owns (ga_ID g)) (t_membership d) = [m]"
    "m \<in> set (t_membership d) \<Longrightarrow> has_garden (me_GardenID m) d"
    "m \<in> set (t_membership d) \<Longrightarrow> me_Role m = ''owner'' \<Longrightarrow> me_ExpiresAt m = None"
    "i \<in> set (t_invite d) \<Longrightarrow> in_UserID i = None \<Longrightarrow> in_Role i \<noteq> ''owner''"
    "role_grants d role c \<Longrightarrow> owner_only c \<Longrightarrow> role = ''owner''"
  using assms by (auto simp: owned_def length_Suc_conv role_grants_def list_ex_iff)

text \<open>Two owners of a garden are the same row.\<close>

lemma one_owner:
  assumes "owned d" "m \<in> set (t_membership d)" "n \<in> set (t_membership d)" "owns g m" "owns g n"
  shows "m = n"
proof -
  obtain gd where gd: "gd \<in> set (t_garden d)" "ga_ID gd = g"
    using ownedD(2) [OF assms(1,2)] assms(4) by (auto simp: has_garden_def owns_def list_ex_iff)
  then obtain x where x: "filter (owns g) (t_membership d) = [x]" using ownedD(1) [OF assms(1)] by blast
  have "m \<in> set (filter (owns g) (t_membership d))" "n \<in> set (filter (owns g) (t_membership d))" using assms by simp_all
  then show ?thesis unfolding x by simp
qed

text \<open>The account owns nothing in the garden, or anywhere.\<close>

definition no_owner :: "(membership \<Rightarrow> bool) \<Rightarrow> db \<Rightarrow> bool" where
  "no_owner p d \<longleftrightarrow> (\<forall>m \<in> set (t_membership d). p m \<longrightarrow> me_Role m \<noteq> ''owner'')"

abbreviation of_pair :: "uuid \<Rightarrow> uuid \<Rightarrow> membership \<Rightarrow> bool" where
  "of_pair garden user \<equiv> \<lambda>m. me_GardenID m = garden \<and> me_UserID m = user"

section \<open>The writes\<close>

lemma filter_map_same:
  assumes "\<And>x. x \<in> set xs \<Longrightarrow> q (f x) = q x" "\<And>x. x \<in> set xs \<Longrightarrow> q x \<Longrightarrow> f x = x"
  shows "filter q (map f xs) = filter q xs"
  using assms by (induction xs) auto

lemma owned_update:
  assumes "owned d" "no_owner p d" "\<And>m. me_GardenID (f m) = me_GardenID m" "\<And>m. me_UserID (f m) = me_UserID m"
    "\<And>m. m \<in> set (t_membership d) \<Longrightarrow> p m \<Longrightarrow> me_Role (f m) \<noteq> ''owner''"
  shows "owned (d\<lparr>t_membership := update_where p f (t_membership d)\<rparr>)"
proof -
  have f: "filter (owns g) (update_where p f (t_membership d)) = filter (owns g) (t_membership d)" for g
    unfolding update_where_def
    by (rule filter_map_same) (use assms(2-5) in \<open>auto simp: owns_def no_owner_def split: if_splits\<close>)
  have k: "map (\<lambda>m. (me_GardenID m, me_UserID m)) (update_where p f (t_membership d))
      = map (\<lambda>m. (me_GardenID m, me_UserID m)) (t_membership d)"
    by (rule map_update_where) (simp add: assms(3,4))
  show ?thesis using assms(1,3,5) unfolding owned_def by (auto simp: f k has_garden_def)
qed

lemma owned_drop:
  assumes "owned d" "no_owner p d"
  shows "owned (drop_memberships p d)"
proof -
  have f: "filter (owns g) (delete_where p (t_membership d)) = filter (owns g) (t_membership d)" for g
    using assms(2) by (auto simp: delete_where_def no_owner_def owns_def intro: filter_cong)
  show ?thesis using assms(1) unfolding owned_def
    by (auto simp: f drop_memberships_def Let_def has_garden_def intro: distinct_delete_where)
qed

lemma owned_member:
  assumes "owned d" "CreateMembership i at garden user role by until_at hour d = Inr (m, d')" "role \<noteq> ''owner''"
  shows "owned d'"
proof -
  have d': "d' = d\<lparr>t_membership := t_membership d @ [m]\<rparr>" "\<not> owns g m" "me_Role m \<noteq> ''owner''"
      "has_garden (me_GardenID m) d" "\<not> has_membership (me_GardenID m) (me_UserID m) d" for g
    using assms(2,3) by (auto simp: CreateMembership_def Let_def owns_def split: if_splits)
  show ?thesis using assms(1) d' unfolding owned_def
    by (auto simp: has_garden_def has_membership_def list_ex_iff)
qed

definition with_garden :: "garden \<Rightarrow> db \<Rightarrow> bool" where
  "with_garden g d \<longleftrightarrow> (\<exists>d0. owned d0 \<and> \<not> has_garden (ga_ID g) d0 \<and> people d = people (d0\<lparr>t_garden := t_garden d0 @ [g]\<rparr>))"

lemma owned_garden:
  assumes "with_garden g d" "CreateMembership i at (ga_ID g) user ''owner'' by None hour d = Inr (m, d')"
  shows "owned d'"
proof -
  obtain d0 where d0: "owned d0" "\<not> has_garden (ga_ID g) d0" "people d = people (d0\<lparr>t_garden := t_garden d0 @ [g]\<rparr>)"
    using assms(1) by (auto simp: with_garden_def)
  have t: "t_garden d = t_garden d0 @ [g]" "t_membership d = t_membership d0" "t_invite d = t_invite d0"
      "t_role_capability d = t_role_capability d0" using d0(3) by (simp_all add: people_def)
  have m: "d' = d\<lparr>t_membership := t_membership d @ [m]\<rparr>" "me_GardenID m = ga_ID g" "me_Role m = ''owner''"
      "me_ExpiresAt m = None" "\<not> has_membership (ga_ID g) (me_UserID m) d"
    using assms(2) by (auto simp: CreateMembership_def Let_def split: if_splits)
  have none: "me_GardenID x \<noteq> ga_ID g" if "x \<in> set (t_membership d0)" for x
    using ownedD(2) [OF d0(1) that] d0(2) by auto
  have other: "ga_ID x \<noteq> ga_ID g" if "x \<in> set (t_garden d0)" for x
    using d0(2) that by (auto simp: has_garden_def list_ex_iff)
  have "filter (owns (ga_ID g)) (t_membership d0) = []" using none by (auto simp: filter_empty_conv owns_def)
  then show ?thesis
    using d0(1) m none other unfolding owned_def by (auto simp: t owns_def has_garden_def has_membership_def list_ex_iff)
qed

lemma owned_invites:
  assumes "owned d" "\<And>i. i \<in> set is \<Longrightarrow> in_UserID i = None \<Longrightarrow> in_Role i \<noteq> ''owner''"
  shows "owned (d\<lparr>t_invite := is\<rparr>)"
  using assms by (simp add: owned_def has_garden_def)

lemma owned_drop_garden:
  assumes "owned d"
  shows "owned (drop_garden g d)"
proof -
  have f: "filter (owns x) (delete_where (\<lambda>m. me_GardenID m = g) (t_membership d)) = filter (owns x) (t_membership d)"
    if "x \<noteq> g" for x using that by (auto simp: delete_where_def owns_def intro: filter_cong)
  show ?thesis using assms unfolding owned_def
    by (auto simp: f drop_garden_def drop_memberships_def Let_def has_garden_def list_ex_iff intro: distinct_delete_where)
      metis
qed

section \<open>Calls that leave gardens, memberships and invites alone\<close>

definition spares :: "(world \<Rightarrow> 'r \<times> world) \<Rightarrow> bool" where
  "spares m \<longleftrightarrow> (\<forall>w. people (tables (snd (m w))) = people (tables w))"

named_theorems sparing \<open>calls that leave gardens, memberships and invites alone\<close>

lemma sparesI: "(\<And>w r w'. m w = (r, w') \<Longrightarrow> people (tables w') = people (tables w)) \<Longrightarrow> spares m"
  unfolding spares_def by (metis prod.collapse)

lemma sparesD: "spares m \<Longrightarrow> m w = (r, w') \<Longrightarrow> people (tables w') = people (tables w)"
  unfolding spares_def by (metis snd_conv)

lemma spares_answers [sparing]: "spares (return x)" "spares (fail e)" "spares (\<lambda>w. (r, w))" "spares (reading query)"
  by (simp_all add: spares_def return_def fail_def)

lemma spares_and_then [sparing]:
  assumes "spares m" "\<And>x. spares (k x)"
  shows "spares (and_then m k)"
proof (rule sparesI)
  fix w r w'
  assume run: "and_then m k w = (r, w')"
  obtain s w1 where m: "m w = (s, w1)" by fastforce
  with run sparesD [OF assms(1) m] sparesD [OF assms(2)] show "people (tables w') = people (tables w)"
    by (cases s) (auto simp: and_then_def)
qed

lemma spares_answering [sparing]:
  assumes "spares m" "\<And>x. spares (k x)"
  shows "spares (answering m failed k)"
proof (rule sparesI)
  fix w r w'
  assume run: "answering m failed k w = (r, w')"
  obtain s w1 where m: "m w = (s, w1)" by fastforce
  with run sparesD [OF assms(1) m] sparesD [OF assms(2)] show "people (tables w') = people (tables w)"
    by (cases s) (auto simp: answering_def)
qed

lemma spares_on_error [sparing]: "spares m \<Longrightarrow> spares (on_error f m)"
  unfolding spares_def on_error_def by (auto split: prod.split sum.split) (metis snd_conv)+

lemma spares_optional [sparing]: "spares m \<Longrightarrow> spares (optional m)"
  unfolding spares_def optional_def by (auto split: prod.split sum.split) (metis snd_conv)+

lemma spares_each [sparing]: "(\<And>x. x \<in> set xs \<Longrightarrow> spares (c x)) \<Longrightarrow> spares (each c xs)"
  by (induction xs) (auto intro!: sparing)

lemma spares_read [sparing]: "(\<And>x. spares (k x)) \<Longrightarrow> spares (read_or query failed k)"
  unfolding read_or_answering by (intro sparing)

lemma spares_branches [sparing]:
  "(c \<Longrightarrow> spares m) \<Longrightarrow> (\<not> c \<Longrightarrow> spares n) \<Longrightarrow> spares (if c then m else n)"
  "(v = None \<Longrightarrow> spares m) \<Longrightarrow> (\<And>x. v = Some x \<Longrightarrow> spares (h x)) \<Longrightarrow> spares (case v of None \<Rightarrow> m | Some x \<Rightarrow> h x)"
  "(\<And>x y. p = (x, y) \<Longrightarrow> spares (g x y)) \<Longrightarrow> spares (case p of (x, y) \<Rightarrow> g x y)"
  by ((cases c; simp), (cases v; simp), (cases p; simp))

lemma spares_writing:
  assumes "\<And>d x d'. query d = Inr (x, d') \<Longrightarrow> people d' = people d"
  shows "spares (writing query)"
proof (rule sparesI)
  fix w r w'
  assume "writing query w = (r, w')"
  moreover have "triple (\<lambda>d. people d = people (tables w)) (writing query) (\<lambda>_ d. people d = people (tables w))
      (\<lambda>_ d. people d = people (tables w))"
    by (intro triple_writing) (auto dest: assms)
  ultimately show "people (tables w') = people (tables w)"
    using tripleD [of _ "writing query" _ _ w] by (cases r) fastforce+
qed

lemma spares_InTx [sparing]:
  assumes "spares m"
  shows "spares (InTx m failure)"
  unfolding spares_def
proof
  fix w :: world
  obtain b w0 where f: "next_fault w = (b, w0)" by fastforce
  obtain r w1 where m: "m w0 = (r, w1)" by fastforce
  obtain c w2 where f1: "next_fault w1 = (c, w2)" by fastforce
  show "people (tables (snd (InTx m failure w))) = people (tables w)"
    using f f1 m sparesD [OF assms m] next_fault_tables [of w] next_fault_tables [of w1]
    by (cases r) (simp_all add: InTx_def)
qed

lemma spares_owned:
  assumes "spares m" "m w = (r, w')"
  shows "owned (tables w') \<longleftrightarrow> owned (tables w)"
  by (rule owned_people [OF sparesD [OF assms]])

lemma spares_triple:
  assumes "spares m"
  shows "triple owned m (\<lambda>_. owned) (\<lambda>_. owned)"
  unfolding triple_def
proof (intro allI impI)
  fix w :: world
  assume "owned (tables w)"
  moreover obtain r w' where "m w = (r, w')" by fastforce
  ultimately show "case m w of (Inl e, w') \<Rightarrow> owned (tables w') | (Inr x, w') \<Rightarrow> owned (tables w')"
    using spares_owned [OF assms, of w r w'] by (cases r) simp_all
qed

lemma spares_ends:
  assumes "spares m"
  shows "ends owned m (\<lambda>_. owned)"
  unfolding ends_def
proof (intro allI impI)
  fix w :: world
  assume "owned (tables w)"
  moreover obtain r w' where "m w = (r, w')" by fastforce
  ultimately show "case m w of (r, w') \<Rightarrow> owned (tables w')" using spares_owned [OF assms, of w r w'] by simp
qed

text \<open>The ceremonies, the accounts and the sessions are elsewhere.\<close>

lemma people_updates [simp]:
  "people (d\<lparr>t_ceremony := cs\<rparr>) = people d" "people (d\<lparr>t_passkey := ks\<rparr>) = people d"
  "people (d\<lparr>t_session := ss\<rparr>) = people d" "people (d\<lparr>t_app_user := us\<rparr>) = people d"
  "people (d\<lparr>t_notification_preference := ps\<rparr>) = people d" "people (d\<lparr>t_setup_link := ls\<rparr>) = people d"
  "people (d\<lparr>t_care_type := ts\<rparr>) = people d" "people (d\<lparr>t_recovery_code := rs\<rparr>) = people d"
  "people (d\<lparr>t_push_subscription := bs\<rparr>) = people d" "people (d\<lparr>t_care_event := es\<rparr>) = people d"
  by (simp_all add: people_def)

lemmas quiet_writes = TakeCeremony_def CreatePasskey_def SetNotificationPreference_def UseSetupLink_def CreateCareType_def
  DeleteSession_def CreateSession_def SetSessionGarden_def SetLastGarden_def DeleteUserPasskeys_def drop_passkeys_def
  DeleteRecoveryCodes_def DeleteUserPushSubscriptions_def DeleteUserSessions_def DeleteUserCeremonies_def CloseAccount_def
  DeleteGardenCareEvents_def CreateUser_def

lemma spares_writes [sparing]:
  "spares (writing (TakeCeremony h now))" "spares (writing (CreatePasskey i at a))"
  "spares (writing (SetNotificationPreference i kind on))" "spares (writing (UseSetupLink now h))"
  "spares (writing (CreateCareType i at g name slug icon))" "spares (writing (DeleteSession h))"
  "spares (writing (CreateSession i h u garden passkey agent now))" "spares (writing (SetSessionGarden garden h))"
  "spares (writing (SetLastGarden garden u))" "spares (writing (CloseAccount now u))"
  "spares (writing (DeleteUserPasskeys u))" "spares (writing (DeleteRecoveryCodes u))"
  "spares (writing (DeleteUserPushSubscriptions u))" "spares (writing (DeleteUserSessions u))"
  "spares (writing (DeleteUserCeremonies u))" "spares (writing (DeleteGardenCareEvents g))"
  "spares (writing (CreateUser at i name h zone))"
  by (rule spares_writing, auto simp: quiet_writes Let_def split: if_splits sum.splits prod.splits)+

lemma spares_takeCeremony [sparing]: "spares (takeCeremony wa p hashToken now r)"
  unfolding takeCeremony_def by (intro sparing)

lemma spares_TakeSetup [sparing]: "spares (TakeSetup wa p hashToken now r)"
  unfolding TakeSetup_def by (intro sparing)

lemma spares_saveRegistration [sparing]: "spares (saveRegistration wa newID created session user body name)"
  unfolding saveRegistration_def by (auto intro!: sparing split: option.split sum.split)

lemma spares_FinishSetup [sparing]: "spares (FinishSetup wa newID created ceremony user body name)"
  unfolding FinishSetup_def by (intro sparing)

lemma spares_FinishRegistration [sparing]: "spares (FinishRegistration wa p hashToken newID created now r user body name)"
  unfolding FinishRegistration_def by (intro sparing)

lemma spares_create_from [sparing]: "spares (create_from u rand created i name zone attempt left)"
proof (induction "left" arbitrary: attempt)
  case (Suc l)
  let ?call = "writing (CreateUser created i name (handleCandidate u rand name attempt) zone)"
  show ?case
  proof (rule sparesI)
    fix w r w'
    assume run: "create_from u rand created i name zone attempt (Suc l) w = (r, w')"
    obtain s w1 where c: "?call w = (s, w1)" by fastforce
    with run sparesD [OF spares_writes(17) c] sparesD [OF Suc.IH]
    show "people (tables w') = people (tables w)"
      by (auto split: sum.splits db_error.splits)
  qed
qed (simp add: spares_def)

lemma spares_create_account [sparing]: "spares (create_account u b accountID form)"
  unfolding create_account_def CreateAccount_def CreateAccountWithHandle_def by (intro sparing)

lemma spares_claim [sparing]: "spares (claim hashToken enabled token now)"
  unfolding claim_def by (intro sparing)

lemma spares_move [sparing]: "spares (move_to_garden p garden)"
  unfolding move_to_garden_def by (intro sparing)

lemma spares_Delete: "spares (Delete hashToken token)"
  unfolding Delete_call by (intro sparing)

lemma spares_replace_session [sparing]: "spares (replace_session f cookies token newID now user garden passkey agent landing)"
proof -
  have "spares (DeleteFromRequest hashToken ss cookies)" for hashToken and ss :: sessions
    unfolding spares_def DeleteFromRequest_def
    using spares_Delete by (simp add: Let_def spares_def)
  moreover have "spares (Create hashToken token newID now user garden (Some passkey) agent)" for hashToken
    unfolding Create_call by (intro sparing)
  ultimately show ?thesis unfolding replace_session_def by (intro sparing)
qed

lemma spares_telling [sparing]: "spares m \<Longrightarrow> spares (telling signals m)"
  unfolding spares_def telling_def by (auto split: prod.split) (metis snd_conv)

section \<open>Calls that keep one owner\<close>

definition keeps :: "('e, 'a) call \<Rightarrow> bool" where
  "keeps m \<longleftrightarrow> triple owned m (\<lambda>_. owned) (\<lambda>_ _. True)"

lemma keeps_spares: "spares m \<Longrightarrow> keeps m"
  unfolding keeps_def by (rule triple_mono [OF spares_triple]) simp_all

lemma keeps_and_then: "keeps m \<Longrightarrow> (\<And>x. keeps (k x)) \<Longrightarrow> keeps (and_then m k)"
  unfolding keeps_def by (rule triple_and_then)

lemma keeps_InTx: "keeps m \<Longrightarrow> triple owned (InTx m failure) (\<lambda>_. owned) (\<lambda>_. owned)"
  unfolding keeps_def by (rule triple_InTx [where F = "\<lambda>_. True"]) simp_all

lemma markRedeemed_keeps: "keeps (markRedeemed now i)"
  unfolding keeps_def markRedeemed_def
proof (intro triple_and_then triple_branches triple_fail triple_return)
  show "triple owned (on_error Joining_store (writing (RedeemInvite now (in_GardenID i) (in_ID i)))) (\<lambda>_. owned) (\<lambda>_ _. True)"
    by (intro triple_on_error triple_writing) (auto simp: RedeemInvite_def intro!: owned_invites, (metis ownedD(4))+)
qed simp_all

lemma createMembership_keeps: "nm_Role m \<noteq> ''owner'' \<Longrightarrow> keeps (createMembership i at m)"
  unfolding createMembership_def
proof (rule keeps_and_then)
  assume "nm_Role m \<noteq> ''owner''"
  then show "keeps (writing (CreateMembership i at (nm_GardenID m) (nm_UserID m) (nm_Role m) (nm_InvitedBy m)
      (nm_ExpiresAt m) digestHourDefault))"
    unfolding keeps_def by (intro triple_writing) (auto dest: owned_member)
qed (intro keeps_spares sparing)

lemma createGardenOwnedBy_keeps: "keeps (createGardenOwnedBy b name user)"
  unfolding keeps_def createGardenOwnedBy_def createMembership_def
proof (intro triple_and_then)
  show "triple owned (writing (CreateGarden (bi_Garden b) (bi_CreatedAt b) name)) with_garden (\<lambda>_ _. True)"
    by (intro triple_writing) (auto simp: CreateGarden_def with_garden_def Let_def split: if_splits)
  let ?nm = "\<lambda>g. \<lparr>nm_GardenID = ga_ID g, nm_UserID = user, nm_Role = ''owner'', nm_InvitedBy = None, nm_ExpiresAt = None\<rparr>"
  show "triple (with_garden g) (writing (CreateMembership (bi_Membership b) (bi_CreatedAt b) (nm_GardenID (?nm g))
      (nm_UserID (?nm g)) (nm_Role (?nm g)) (nm_InvitedBy (?nm g)) (nm_ExpiresAt (?nm g)) digestHourDefault))
      (\<lambda>_. owned) (\<lambda>_ _. True)" for g
    by (intro triple_writing) (auto dest: owned_garden)
qed (rule keeps_spares [unfolded keeps_def], intro sparing)+

section \<open>Joining\<close>

text \<open>An open invite grants no ownership, and an account with no live membership of a garden does not
  own it.\<close>

lemma openInviteToken_triple:
  "triple (\<lambda>d. d = d0) (openInviteToken hashToken now token)
     (\<lambda>opened d. d = d0 \<and> (\<forall>oi. opened = Some oi \<longrightarrow> oi_Invite oi \<in> set (t_invite d0))) (\<lambda>e d. d = d0)"
  unfolding openInviteToken_def
proof (rule triple_and_then)
  let ?Q = "\<lambda>row d. d = d0 \<and> (\<forall>i g u. row = Some (i, g, u) \<longrightarrow> i \<in> set (t_invite d0))"
  show "triple (\<lambda>d. d = d0) (optional (reading (GetInviteByTokenHash (hashToken token)))) ?Q (\<lambda>e d. d = d0)"
    by (intro triple_optional triple_reading) (auto simp: GetInviteByTokenHash_def dest!: one_row_mem split: if_splits)
  fix row
  show "triple (?Q row) (case row of None \<Rightarrow> return None
     | Some (i, g, by) \<Rightarrow>
         if in_RedeemedAt i \<noteq> None \<or> \<not> Before now (in_ExpiresAt i) then return None
         else (case in_UserID i of
             None \<Rightarrow>
               return (if (case in_MembershipExpiresAt i of None \<Rightarrow> False | Some at \<Rightarrow> \<not> Before now at) then None
                       else Some \<lparr>oi_Invite = i, oi_Garden = g, oi_By = by, oi_member = zero_AppUser\<rparr>)
           | Some user \<Rightarrow>
               and_then (optional (reading (GetMembershipWithUserAndGarden (in_GardenID i) user))) (\<lambda>row.
               return (case row of
                   None \<Rightarrow> None
                 | Some (m, u, _, _) \<Rightarrow>
                     if MembershipEnded m now then None
                     else Some \<lparr>oi_Invite = i, oi_Garden = g, oi_By = by, oi_member = u\<rparr>))))
     (\<lambda>opened d. d = d0 \<and> (\<forall>oi. opened = Some oi \<longrightarrow> oi_Invite oi \<in> set (t_invite d0))) (\<lambda>e d. d = d0)"
    by (intro triple_branches triple_return triple_and_then [where Q = "\<lambda>_. ?Q row"] triple_optional triple_reading)
      (auto split: option.splits if_splits)
qed

lemma openToAccept_triple:
  "triple (\<lambda>d. d = d0) (openToAccept hashToken now token)
     (\<lambda>opened d. d = d0 \<and> (\<forall>oi. opened = Some oi \<longrightarrow> oi_Invite oi \<in> set (t_invite d0) \<and> in_UserID (oi_Invite oi) = None))
     (\<lambda>e d. d = d0)"
  unfolding openToAccept_def
  by (rule triple_and_then [OF openInviteToken_triple], rule triple_return)
    (auto simp: reenrol_def split: option.splits if_splits)

lemma ended_no_owner:
  assumes "owned d" "GetMembershipWithUserAndGarden garden user d = Inr (m, u, g, names)" "MembershipEnded m now"
  shows "no_owner (of_pair garden user) d"
  unfolding no_owner_def
proof (intro ballI impI)
  note m = GetMembership_Inr [OF assms(2)]
  fix x
  assume x: "x \<in> set (t_membership d)" "of_pair garden user x"
  have "distinct (map (\<lambda>m. (me_GardenID m, me_UserID m)) (t_membership d))" using assms(1) by (simp add: owned_def)
  then have "x = m"
    using inj_onD [of "\<lambda>m. (me_GardenID m, me_UserID m)" "set (t_membership d)" x m] m(1-3) x by (simp add: distinct_map)
  then show "me_Role x \<noteq> ''owner''"
    using assms(3) ownedD(3) [OF assms(1) m(1)] by (auto simp: MembershipEnded_def)
qed

lemma existingMembership_triple:
  assumes "owned d0"
  shows "triple (\<lambda>d. d = d0) (existingMembership now garden user)
     (\<lambda>(existing, live) d. d = d0 \<and> (existing \<noteq> None \<and> \<not> live \<longrightarrow> no_owner (of_pair garden user) d0)) (\<lambda>e d. d = d0)"
  unfolding existingMembership_def
proof (rule triple_and_then)
  let ?Q = "\<lambda>row d. d = d0 \<and> (\<forall>r. row = Some r \<longrightarrow> GetMembershipWithUserAndGarden garden user d0 = Inr r)"
  show "triple (\<lambda>d. d = d0) (optional (reading (GetMembershipWithUserAndGarden garden user))) ?Q (\<lambda>e d. d = d0)"
    by (intro triple_optional triple_reading) auto
  show "triple (?Q row) (return (case row of None \<Rightarrow> (None, False) | Some (m, _, _, _) \<Rightarrow> (Some m, \<not> MembershipEnded m now)))
      (\<lambda>(existing, live) d. d = d0 \<and> (existing \<noteq> None \<and> \<not> live \<longrightarrow> no_owner (of_pair garden user) d0)) (\<lambda>e d. d = d0)" for row
    by (intro triple_return) (auto split: option.split dest: ended_no_owner [OF assms])
qed

lemma markRedeemed_keeps_no_owner:
  "triple (\<lambda>d. owned d \<and> no_owner p d) (markRedeemed now i) (\<lambda>_ d. owned d \<and> no_owner p d) (\<lambda>_ _. True)"
proof -
  have "triple (no_owner p) (markRedeemed now i) (\<lambda>_. no_owner p) (\<lambda>_ _. True)"
    unfolding markRedeemed_def
  proof (intro triple_and_then triple_branches triple_fail triple_return)
    show "triple (no_owner p) (on_error Joining_store (writing (RedeemInvite now (in_GardenID i) (in_ID i))))
        (\<lambda>_. no_owner p) (\<lambda>_ _. True)"
      by (intro triple_on_error triple_writing) (auto simp: RedeemInvite_def no_owner_def)
  qed simp_all
  then have "triple (\<lambda>d. owned d \<and> no_owner p d) (markRedeemed now i) (\<lambda>_. no_owner p) (\<lambda>_ _. True)"
    by (rule triple_mono) simp_all
  moreover have "triple (\<lambda>d. owned d \<and> no_owner p d) (markRedeemed now i) (\<lambda>_. owned) (\<lambda>_ _. True)"
    by (rule triple_mono [OF markRedeemed_keeps [unfolded keeps_def]]) simp_all
  ultimately show ?thesis by (rule triple_mono [OF triple_conj]) simp_all
qed

lemma renewMembership_triple:
  assumes "nm_Role m \<noteq> ''owner''"
  shows "triple (\<lambda>d. owned d \<and> no_owner (of_pair (nm_GardenID m) (nm_UserID m)) d) (renewMembership m)
     (\<lambda>_. owned) (\<lambda>_ _. True)"
  unfolding renewMembership_def
proof (intro triple_writing)
  fix x d d'
  assume "owned d \<and> no_owner (of_pair (nm_GardenID m) (nm_UserID m)) d"
    and run: "RenewMembership (nm_Role m) (nm_InvitedBy m) (nm_ExpiresAt m) (nm_GardenID m) (nm_UserID m) d = Inr (x, d')"
  moreover from run have "d' = d\<lparr>t_membership := update_where (of_pair (nm_GardenID m) (nm_UserID m))
      (\<lambda>x. x\<lparr>me_Role := nm_Role m, me_InvitedBy := nm_InvitedBy m, me_ExpiresAt := nm_ExpiresAt m\<rparr>) (t_membership d)\<rparr>"
    by (auto simp: RenewMembership_def Let_def split: sum.splits if_splits)
  ultimately show "owned d'" using assms by (auto intro!: owned_update)
qed simp

lemma acceptance_keeps:
  assumes "in_Role i \<noteq> ''owner''"
  shows "triple (\<lambda>d. owned d \<and> (existing \<noteq> None \<longrightarrow> no_owner (of_pair (in_GardenID i) (us_ID (pr_User p))) d))
     (acceptance p b now i existing) (\<lambda>_. owned) (\<lambda>_. owned)"
  unfolding acceptance_def writeAcceptance_def
proof (intro triple_InTx [where F = "\<lambda>_. True"] triple_and_then)
  let ?pair = "of_pair (in_GardenID i) (us_ID (pr_User p))"
  let ?I = "\<lambda>d. owned d \<and> (existing \<noteq> None \<longrightarrow> no_owner ?pair d)"
  show "triple ?I (markRedeemed now i) (\<lambda>_. ?I) (\<lambda>_ _. True)"
  proof (cases "existing = None")
    case True
    then show ?thesis using markRedeemed_keeps by (simp add: keeps_def)
  next
    case False
    then show ?thesis using markRedeemed_keeps_no_owner [of ?pair] by simp
  qed
  show "triple ?I (on_error Joining_store
       (if existing \<noteq> None then renewMembership (invited_membership i (us_ID (pr_User p)))
        else createMembership (bi_Membership b) (bi_CreatedAt b) (invited_membership i (us_ID (pr_User p)))))
     (\<lambda>_. owned) (\<lambda>_ _. True)"
  proof (intro triple_on_error triple_branches)
    show "triple ?I (renewMembership (invited_membership i (us_ID (pr_User p)))) (\<lambda>_. owned) (\<lambda>_ _. True)"
      if "existing \<noteq> None"
      by (rule triple_mono [OF renewMembership_triple]) (use that assms in \<open>simp_all add: invited_membership_def\<close>)
    show "triple ?I (createMembership (bi_Membership b) (bi_CreatedAt b) (invited_membership i (us_ID (pr_User p))))
        (\<lambda>_. owned) (\<lambda>_ _. True)"
      by (rule triple_mono [OF createMembership_keeps [unfolded keeps_def]]) (use assms in \<open>simp_all add: invited_membership_def\<close>)
  qed
  show "triple owned (on_error Joining_store (move_to_garden p (in_GardenID i))) (\<lambda>_. owned) (\<lambda>_ _. True)"
    by (rule keeps_spares [unfolded keeps_def]) (intro sparing)
qed simp_all

text \<open>Handlers that keep one owner.\<close>

abbreviation keeping :: "(world \<Rightarrow> 'r \<times> world) \<Rightarrow> bool" where
  "keeping m \<equiv> ends owned m (\<lambda>_. owned)"

lemma keeping_then:
  assumes "triple owned m (\<lambda>_. owned) (\<lambda>_. owned)" "\<And>x. spares (k x)"
  shows "keeping (answering m failed k)"
  by (rule ends_answering [OF assms(1)]) (use assms(2) in \<open>auto intro: spares_ends\<close>)

lemma gardenNamer_tables: "gardenNamer g w = (r, w') \<Longrightarrow> tables w' = tables w"
  using reading_tables [of "GetGardenOwner (ga_ID g)" w]
  by (cases "reading (GetGardenOwner (ga_ID g)) w") (auto simp: gardenNamer_def split: sum.splits db_error.splits)

lemma gardenNamer_triple: "triple P (gardenNamer g) (\<lambda>_. P) (\<lambda>_. P)"
  unfolding triple_def using gardenNamer_tables by (fastforce split: sum.split)

lemma spares_gardenNamer [sparing]: "spares (gardenNamer g)"
  by (rule sparesI) (simp add: gardenNamer_tables)

lemma spares_handleTaken [sparing]: "spares (handleTaken h)"
  unfolding handleTaken_def by (intro sparing)

lemma spares_openInviteToken [sparing]: "spares (openInviteToken hashToken now token)"
  unfolding openInviteToken_def by (intro sparing)

lemma spares_setup_served [sparing]: "spares (setup_served hashToken enabled token now)"
  "spares (signedInOpen hashToken enabled token now)"
  unfolding setup_served_def signedInOpen_def by (intro sparing)+

lemma ends_spared: "spares m \<Longrightarrow> (\<And>x. keeping (k x)) \<Longrightarrow> keeping (answering m failed k)"
  by (rule ends_answering [OF spares_triple]) simp_all

lemma accepted_keeps:
  assumes "in_Role (oi_Invite oi) \<noteq> ''owner''"
  shows "ends (\<lambda>d. owned d \<and> (existing \<noteq> None \<longrightarrow> no_owner (of_pair (in_GardenID (oi_Invite oi)) (us_ID (pr_User p))) d))
     (answering (gardenNamer (oi_Garden oi)) server_error (\<lambda>gardenNamed.
        answering (acceptance p b clock (oi_Invite oi) existing) refused (\<lambda>_ w. (said gardenNamed, w))))
     (\<lambda>_. owned)"
  by (rule ends_answering [OF gardenNamer_triple], simp, rule ends_answering [OF acceptance_keeps [OF assms]])
    (simp_all add: ends_answer)

lemma accept_invite_keeps: "keeping (accept_invite hashToken si p b token clock)"
proof (rule ends_pointwise)
  fix d0
  assume d0: "owned d0"
  show "ends (\<lambda>d. d = d0) (accept_invite hashToken si p b token clock) (\<lambda>_. owned)"
    unfolding accept_invite_def
  proof (rule ends_answering [OF openToAccept_triple], goal_cases)
    case (1 e d)
    then show ?case using d0 by simp
  next
    case (2 opened)
    show ?case
    proof (cases opened)
      case None
      then show ?thesis using d0 by (simp add: ends_def)
    next
      case (Some oi)
      let ?P = "oi_Invite oi \<in> set (t_invite d0) \<and> in_UserID (oi_Invite oi) = None"
      show ?thesis
      proof (cases ?P)
        case False
        then show ?thesis using Some by (auto simp: ends_def)
      next
        case True
        then have role: "in_Role (oi_Invite oi) \<noteq> ''owner''" using ownedD(4) [OF d0] by blast
        show ?thesis
          unfolding Some option.case
        proof (rule ends_mono [OF ends_answering [OF existingMembership_triple [OF d0], where R = "\<lambda>_. owned"]], goal_cases)
          case (2 x)
          obtain existing live where x: "x = (existing, live)" by fastforce
          show ?case
            unfolding x prod.case
            by (intro ends_branches(1) ends_answer ends_mono [OF accepted_keeps [OF role]]) (use d0 in auto)
        qed (use d0 in auto)
      qed
    qed
  qed
qed

lemma addDevice_keeps: "triple owned (addDevice f b cookies get agent clock oi) (\<lambda>_. owned) (\<lambda>_. owned)"
  unfolding addDevice_def
  by (intro keeps_InTx keeps_and_then markRedeemed_keeps keeps_spares sparing)

lemma join_garden_keeps:
  assumes "in_Role (oi_Invite oi) \<noteq> ''owner''"
  shows "triple owned (join_garden f u b cookies get agent clock oi form) (\<lambda>_. owned) (\<lambda>_. owned)"
  unfolding join_garden_def
proof (intro triple_and_then [where Q = "\<lambda>_. owned"] keeps_InTx keeps_and_then markRedeemed_keeps)
  show "triple owned (on_error Joining_passkey (TakeSetup (fo_wa f) (fo_passkeys f) (fo_hash f) clock cookies))
      (\<lambda>_. owned) (\<lambda>_. owned)"
    by (intro spares_triple sparing)
  show "keeps (on_error Joining_store (createMembership (bi_Membership b) (bi_CreatedAt b)
      (invited_membership (oi_Invite oi) (us_ID user))))" for user
    unfolding keeps_def
    by (intro triple_on_error createMembership_keeps [unfolded keeps_def]) (use assms in \<open>simp add: invited_membership_def\<close>)
qed (intro keeps_spares sparing)+

lemma keeping_branches:
  "(c \<Longrightarrow> keeping m) \<Longrightarrow> (\<not> c \<Longrightarrow> keeping n) \<Longrightarrow> keeping (if c then m else n)"
  "(\<And>x y. p = (x, y) \<Longrightarrow> keeping (g x y)) \<Longrightarrow> keeping (case p of (x, y) \<Rightarrow> g x y)"
  by (rule ends_branches; simp)+

lemma redeem_keeps: "keeping (redeem f si u b token cookies get agent clock)"
proof (rule ends_pointwise)
  fix d0
  assume d0: "owned d0"
  show "ends (\<lambda>d. d = d0) (redeem f si u b token cookies get agent clock) (\<lambda>_. owned)"
    unfolding redeem_def
  proof (rule ends_answering [OF openInviteToken_triple], goal_cases)
    case (1 e d)
    then show ?case using d0 by simp
  next
    case (2 opened)
    show ?case
    proof (cases "\<exists>oi. opened = Some oi \<and> oi_Invite oi \<in> set (t_invite d0)")
      case False
      then show ?thesis using d0 by (cases opened) (auto simp: ends_def)
    next
      case True
      then obtain oi where oi: "opened = Some oi" "oi_Invite oi \<in> set (t_invite d0)" by blast
      then have role: "\<not> reenrol oi \<Longrightarrow> in_Role (oi_Invite oi) \<noteq> ''owner''"
        using ownedD(4) [OF d0] by (simp add: reenrol_def)
      show ?thesis
        unfolding oi(1) option.case Let_def
        by (rule ends_mono [where P = owned and R = "\<lambda>_. owned"],
            intro keeping_branches keeping_then [OF addDevice_keeps] keeping_then [OF join_garden_keeps] ends_spared sparing
              spares_ends role)
          (use d0 in simp_all)
    qed
  qed
qed

lemma set_up_keeps: "triple owned (set_up f u b enabled token get agent clock name form ceremony) (\<lambda>_. owned) (\<lambda>_. owned)"
  unfolding set_up_def
proof (intro keeps_InTx keeps_and_then)
  show "keeps (on_error Joining_store (createGardenOwnedBy b name i))" for i
    unfolding keeps_def by (intro triple_on_error createGardenOwnedBy_keeps [unfolded keeps_def])
qed (intro keeps_spares sparing)+

lemma create_setup_keeps: "keeping (create_setup f si u b enabled token cookies get agent clock)"
  unfolding create_setup_def Let_def
  by (intro keeping_branches ends_spared keeping_then set_up_keeps sparing spares_ends)

lemma set_up_signed_in_keeps:
  "triple owned (set_up_signed_in hashToken p b enabled token clock name) (\<lambda>_. owned) (\<lambda>_. owned)"
  unfolding set_up_signed_in_def
proof (intro keeps_InTx keeps_and_then)
  show "keeps (on_error Joining_store (createGardenOwnedBy b name i))" for i
    unfolding keeps_def by (intro triple_on_error createGardenOwnedBy_keeps [unfolded keeps_def])
qed (intro keeps_spares sparing)+

lemma createSignedIn_keeps: "keeping (createSignedIn hashToken si p b enabled token get clock)"
  unfolding createSignedIn_def Let_def
  by (intro keeping_branches ends_spared keeping_then set_up_signed_in_keeps sparing spares_ends)

section \<open>Leaving\<close>

lemma SortStableFunc_Nil: "SortStableFunc c xs = [] \<longleftrightarrow> xs = []"
  by (metis length_0_conv length_SortStableFunc)

text \<open>Under the invariant a sole owner is what any owner is, so closing an account that may go leaves
  no garden without its owner.\<close>

lemma sole_owner:
  assumes "owned d" "ListGardensOnlyThisUserOwns collate user now d = Inr []"
  shows "no_owner (\<lambda>m. me_UserID m = user) d"
  unfolding no_owner_def
proof (intro ballI impI notI)
  fix m
  assume m: "m \<in> set (t_membership d)" "me_UserID m = user" "me_Role m = ''owner''"
  then obtain g where g: "g \<in> set (t_garden d)" "ga_ID g = me_GardenID m"
    using ownedD(2) [OF assms(1)] by (auto simp: has_garden_def list_ex_iff)
  let ?owns = "\<lambda>m g. me_GardenID m = ga_ID g \<and> me_Role m = ''owner'' \<and> null_or_after (me_ExpiresAt m) now"
  have only: "other = m" if "other \<in> set (t_membership d)" "?owns other g" for other
    by (rule one_owner [OF assms(1) that(1) m(1), of "ga_ID g"]) (use that(2) m g in \<open>simp_all add: owns_def\<close>)
  have none: "\<not> list_ex (\<lambda>other. ?owns other g \<and> me_UserID other \<noteq> me_UserID m) (t_membership d)"
    unfolding list_ex_iff using only by blast
  have mine: "?owns m g" using g m ownedD(3) [OF assms(1) m(1,3)] by (simp add: null_or_after_def)
  let ?rows = "[g. g \<leftarrow> t_garden d, m \<leftarrow> t_membership d, me_UserID m = user \<and> ?owns m g,
      \<not> list_ex (\<lambda>other. ?owns other g \<and> me_UserID other \<noteq> me_UserID m) (t_membership d)]"
  have found: "g \<in> set ?rows" using g(1) m none mine by auto
  have empty: "?rows = []"
    using assms(2) unfolding ListGardensOnlyThisUserOwns_def Let_def sum.inject SortStableFunc_Nil .
  show False using found unfolding empty by simp
qed

lemma no_owner_people: "people d' = people d \<Longrightarrow> no_owner p d' = no_owner p d"
  by (simp add: people_def no_owner_def)

lemma quiet_deletes:
  assumes "del \<in> {DeleteUserPasskeys, DeleteRecoveryCodes, DeleteUserPushSubscriptions, DeleteUserSessions, DeleteUserCeremonies}"
    "del user d = Inr (x, d')"
  shows "people d' = people d"
  using assms by (elim insertE) (auto simp: quiet_writes Let_def)

lemma delete_keeps:
  assumes "del \<in> set account_deletes"
  shows "triple (\<lambda>d. owned d \<and> no_owner (\<lambda>m. me_UserID m = user) d) (on_error Close_store (writing (del user)))
     (\<lambda>_ d. owned d \<and> no_owner (\<lambda>m. me_UserID m = user) d) (\<lambda>_ _. True)"
proof (intro triple_on_error triple_writing)
  fix x d d'
  assume d: "owned d \<and> no_owner (\<lambda>m. me_UserID m = user) d" and run: "del user d = Inr (x, d')"
  from assms consider "del \<in> {DeleteUserPasskeys, DeleteRecoveryCodes, DeleteUserPushSubscriptions, DeleteUserSessions,
      DeleteUserCeremonies}" | "del = DeleteUserReenrolmentInvites" | "del = DeleteUserMemberships"
    by (auto simp: account_deletes_def)
  then show "owned d' \<and> no_owner (\<lambda>m. me_UserID m = user) d'"
  proof cases
    case 1
    from quiet_deletes [OF this run] d show ?thesis using owned_people no_owner_people by blast
  next
    case 2
    let ?is = "delete_where (\<lambda>i. in_UserID i = Some user \<and> in_RedeemedAt i = None) (t_invite d)"
    have "d' = d\<lparr>t_invite := ?is\<rparr>" using run 2 by (simp add: DeleteUserReenrolmentInvites_def)
    moreover have "owned (d\<lparr>t_invite := ?is\<rparr>)" by (rule owned_invites) (use d ownedD(4) in auto)
    ultimately show ?thesis using d by (simp add: no_owner_def)
  next
    case 3
    then have "d' = drop_memberships (\<lambda>m. me_UserID m = user) d" using run by (simp add: DeleteUserMemberships_def)
    with d show ?thesis by (simp add: owned_drop) (simp add: no_owner_def drop_memberships_def Let_def)
  qed
qed simp

lemma closeUserAccount_keeps: "keeps (closeUserAccount collate user now)"
  unfolding keeps_def closeUserAccount_def
proof (rule triple_and_then)
  let ?P = "\<lambda>owned_by d. owned d \<and> (owned_by = [] \<longrightarrow> no_owner (\<lambda>m. me_UserID m = user) d)"
  let ?I = "\<lambda>d. owned d \<and> no_owner (\<lambda>m. me_UserID m = user) d"
  show "triple owned (on_error Close_store (reading (ListGardensOnlyThisUserOwns collate user now))) ?P (\<lambda>_ _. True)"
    by (intro triple_on_error triple_reading) (auto dest: sole_owner)
  fix mine :: "garden list"
  have "triple ?I (and_then (each (\<lambda>del. on_error Close_store (writing (del user))) account_deletes) (\<lambda>_.
       and_then (on_error Close_store (writing (CloseAccount now user))) (\<lambda>closed.
       if closed = 0 then fail AlreadyClosed else return ()))) (\<lambda>_. owned) (\<lambda>_ _. True)"
  proof (rule triple_and_then)
    show "triple ?I (each (\<lambda>del. on_error Close_store (writing (del user))) account_deletes) (\<lambda>_. ?I) (\<lambda>_ _. True)"
      by (intro triple_each delete_keeps)
    show "triple ?I (and_then (on_error Close_store (writing (CloseAccount now user))) (\<lambda>closed.
       if closed = 0 then fail AlreadyClosed else return ())) (\<lambda>_. owned) (\<lambda>_ _. True)" for x :: unit
      by (rule triple_mono [OF keeps_spares [unfolded keeps_def]]) (intro sparing | simp)+
  qed
  then show "triple (?P mine) (if mine \<noteq> [] then fail SoleOwner
     else
       and_then (each (\<lambda>del. on_error Close_store (writing (del user))) account_deletes) (\<lambda>_.
       and_then (on_error Close_store (writing (CloseAccount now user))) (\<lambda>closed.
       if closed = 0 then fail AlreadyClosed else return ()))) (\<lambda>_. owned) (\<lambda>_ _. True)"
    by (cases "mine = []") (simp_all add: triple_fail)
qed

lemma delete_garden_keeps: "keeping (delete_garden si p get)"
  unfolding delete_garden_def Let_def garden_deletion_def
proof (intro keeping_branches keeping_then keeps_InTx keeps_and_then sparing spares_ends)
  show "keeps (writing (DeleteGardenCareEvents (ga_ID (pr_Garden p))))" by (intro keeps_spares sparing)
  show "keeps (writing (DeleteGarden (ga_ID (pr_Garden p))))" for x :: unit
    unfolding keeps_def by (intro triple_writing) (auto simp: DeleteGarden_def owned_drop_garden split: if_splits)
qed

section \<open>The People page\<close>

text \<open>Who a request acts as: a reader the tables still authorise, with the capability its route asks
  for.  With an owner's capability it is the garden's owner.\<close>

definition acting :: "db \<Rightarrow> gotime \<Rightarrow> string \<Rightarrow> principal \<Rightarrow> bool" where
  "acting d now c p \<longleftrightarrow> InGarden p \<and> authorised d now (us_ID (pr_User p)) p \<and> Can p c"

definition owner_here :: "principal \<Rightarrow> db \<Rightarrow> bool" where
  "owner_here p d \<longleftrightarrow> (\<exists>m \<in> set (t_membership d). owns (ga_ID (pr_Garden p)) m \<and> me_UserID m = us_ID (pr_User p))"

lemma acting_owner:
  assumes "owned d" "acting d now c p" "owner_only c"
  shows "owner_here p d"
proof -
  have "me_Role (pr_Membership p) = ''owner''"
    using ownedD(5) [OF assms(1) _ assms(3)] assms(2) by (auto simp: acting_def authorised_def)
  then show ?thesis using assms(2) by (auto simp: acting_def authorised_def owner_here_def owns_def)
qed

lemma others_no_owner:
  assumes "owned d" "owner_here p d" "u \<noteq> us_ID (pr_User p)"
  shows "no_owner (of_pair (ga_ID (pr_Garden p)) u) d"
  unfolding no_owner_def
proof (intro ballI impI notI)
  fix x
  assume x: "x \<in> set (t_membership d)" "of_pair (ga_ID (pr_Garden p)) u x" "me_Role x = ''owner''"
  obtain m where m: "m \<in> set (t_membership d)" "owns (ga_ID (pr_Garden p)) m" "me_UserID m = us_ID (pr_User p)"
    using assms(2) by (auto simp: owner_here_def)
  have "x = m" by (rule one_owner [OF assms(1) x(1) m(1) _ m(2)]) (use x in \<open>simp add: owns_def\<close>)
  then show False using x m assms(3) by simp
qed

lemma owner_here_update:
  assumes "owner_here p d" "u \<noteq> us_ID (pr_User p)"
  shows "owner_here p (d\<lparr>t_membership := update_where (of_pair garden u) f (t_membership d)\<rparr>)"
proof -
  obtain m where m: "m \<in> set (t_membership d)" "owns (ga_ID (pr_Garden p)) m" "me_UserID m = us_ID (pr_User p)"
    using assms(1) by (auto simp: owner_here_def)
  then have "m \<in> set (update_where (of_pair garden u) f (t_membership d))" using assms(2) by force
  with m show ?thesis by (auto simp: owner_here_def simp del: set_update_where)
qed

definition polite :: "principal \<Rightarrow> member_change \<Rightarrow> bool" where
  "polite p c \<longleftrightarrow> us_ID (mc_user c) \<noteq> us_ID (pr_User p) \<and> (mc_role c = '''' \<or> mc_role c \<in> set offeredRoles)"

lemma postedChanges_polite: "postedChanges si members p get now = Some cs \<Longrightarrow> c \<in> set cs \<Longrightarrow> polite p c"
  by (induction members arbitrary: cs)
    (auto simp: polite_def posted_role_def split: if_splits option.splits)

lemma offered_not_owner: "role \<in> set offeredRoles \<Longrightarrow> role \<noteq> ''owner''"
  by (auto simp: offeredRoles_def)

lemma write_change_keeps:
  assumes "polite p c"
  shows "triple (\<lambda>d. owned d \<and> owner_here p d) (write_change (ga_ID (pr_Garden p)) c)
     (\<lambda>_ d. owned d \<and> owner_here p d) (\<lambda>_ _. True)"
proof -
  let ?g = "ga_ID (pr_Garden p)"
  let ?u = "us_ID (mc_user c)"
  let ?J = "\<lambda>d. owned d \<and> owner_here p d"
  have u: "?u \<noteq> us_ID (pr_User p)" using assms by (simp add: polite_def)
  have step: "?J (d\<lparr>t_membership := update_where (of_pair ?g ?u) f (t_membership d)\<rparr>)"
    if "?J d" "\<And>m. me_GardenID (f m) = me_GardenID m" "\<And>m. me_UserID (f m) = me_UserID m"
      "\<And>m. m \<in> set (t_membership d) \<Longrightarrow> of_pair ?g ?u m \<Longrightarrow> me_Role (f m) \<noteq> ''owner''" for d f
    using that u by (auto intro!: owned_update owner_here_update others_no_owner)
  show ?thesis
    unfolding write_change_def
  proof (intro triple_and_then [where Q = "\<lambda>_. ?J"] triple_branches triple_return triple_writing)
    fix x d d'
    assume "mc_role c \<noteq> ''''" and d: "?J d" and run: "SetMemberRole (mc_role c) ?g ?u d = Inr (x, d')"
    then have "mc_role c \<noteq> ''owner''" using assms offered_not_owner by (auto simp: polite_def)
    moreover have "d' = d\<lparr>t_membership := update_where (of_pair ?g ?u) (\<lambda>m. m\<lparr>me_Role := mc_role c\<rparr>) (t_membership d)\<rparr>"
      using run by (simp add: SetMemberRole_def Let_def split: if_splits)
    ultimately show "?J d'" using d step by simp
  next
    fix x d d' at
    assume d: "?J d" and run: "SetMembershipEnd (Some at) ?g ?u d = Inr (x, d')"
    have "me_Role m \<noteq> ''owner''" if "m \<in> set (t_membership d)" "of_pair ?g ?u m" for m
      using others_no_owner [of d p ?u] d u that by (simp add: no_owner_def)
    moreover have "d' = d\<lparr>t_membership := update_where (of_pair ?g ?u) (\<lambda>m. m\<lparr>me_ExpiresAt := Some at\<rparr>) (t_membership d)\<rparr>"
      using run by (simp add: SetMembershipEnd_def Let_def)
    ultimately show "?J d'" using d step by simp
  qed simp_all
qed

lemma spares_renderPeople [sparing]: "spares (renderPeople si p clock asking announce signals)"
  "spares (peopleSaved si p clock htmx announce signals)"
  unfolding renderPeople_def peopleSaved_def by (intro sparing)+

lemma saveMembers_keeps: "ends (\<lambda>d. owned d \<and> owner_here p d) (saveMembers si p get htmx clock) (\<lambda>_. owned)"
  unfolding saveMembers_def
proof (intro ends_read ends_branches(2) ends_answer)
  let ?J = "\<lambda>d. owned d \<and> owner_here p d"
  fix members cs
  assume cs: "postedChanges si members p get clock = Some cs"
  have tx: "triple ?J (InTx (each (write_change (ga_ID (pr_Garden p))) cs) Failure) (\<lambda>_. owned) (\<lambda>_. owned)"
    by (rule triple_InTx [where F = "\<lambda>_. True"],
        rule triple_mono [OF triple_each [where I = ?J and E = "\<lambda>_ _. True"]])
      (use write_change_keeps postedChanges_polite [OF cs] in auto)
  have "ends ?J (answering (gardenNamer (pr_Garden p)) (\<lambda>_. (Server_error, [])) (\<lambda>gardenNamed.
         answering (InTx (each (write_change (ga_ID (pr_Garden p))) cs) Failure) (\<lambda>_. (Server_error, [])) (\<lambda>_.
         peopleSaved si p clock htmx savedAnnouncement
           (role_signals gardenNamed cs @ (if cs \<noteq> [] then [Wake] else []))))) (\<lambda>_. owned)"
    by (intro ends_answering [OF gardenNamer_triple] ends_answering [OF tx] spares_ends sparing) simp_all
  then show "ends (\<lambda>d. ?J d \<and> ListMembers (ga_ID (pr_Garden p)) d = Inr members)
      (answering (gardenNamer (pr_Garden p)) (\<lambda>_. (Server_error, [])) (\<lambda>gardenNamed.
         answering (InTx (each (write_change (ga_ID (pr_Garden p))) cs) Failure) (\<lambda>_. (Server_error, [])) (\<lambda>_.
         peopleSaved si p clock htmx savedAnnouncement
           (role_signals gardenNamed cs @ (if cs \<noteq> [] then [Wake] else []))))) (\<lambda>_. owned)"
    by (rule ends_mono) simp_all
qed simp_all

lemma removeMember_keeps: "ends (\<lambda>d. owned d \<and> owner_here p d) (removeMember si p h htmx clock) (\<lambda>_. owned)"
  unfolding removeMember_def memberFromPath_def write_or_answering prod.case
proof (intro ends_read ends_branches(4) ends_branches(1) ends_answer)
  fix mu :: "membership \<times> app_user" and m :: membership and u :: app_user
  assume mu: "mu = (m, u)" "us_ID u \<noteq> us_ID (pr_User p)" 
  let ?P = "\<lambda>d. (owned d \<and> owner_here p d) \<and> GetMemberByHandle (ga_ID (pr_Garden p)) h d = Inr mu"
  have del: "triple ?P (writing (DeleteMembership (me_GardenID m) (us_ID u))) (\<lambda>_. owned) (\<lambda>_. owned)"
  proof (intro triple_writing)
    fix x d d'
    assume d: "?P d" and run: "DeleteMembership (me_GardenID m) (us_ID u) d = Inr (x, d')"
    then have "me_GardenID m = ga_ID (pr_Garden p)"
      using mu(1) by (auto simp: GetMemberByHandle_def dest!: one_row_mem split: if_splits)
    then have "d' = drop_memberships (of_pair (ga_ID (pr_Garden p)) (us_ID u)) d"
      using run by (simp add: DeleteMembership_def Let_def)
    with d mu(2) show "owned d'" by (simp add: owned_drop others_no_owner)
  qed simp
  show "ends ?P (answering (gardenNamer (pr_Garden p)) (\<lambda>_. (Server_error, [])) (\<lambda>gardenNamed.
      answering (writing (DeleteMembership (me_GardenID m) (us_ID u))) (\<lambda>_. (Server_error, [])) (\<lambda>removed.
       if removed = 0 then (\<lambda>w. ((Not_found, []), w))
       else peopleSaved si p clock htmx (us_DisplayName u @ '' removed.'')
              [Notify u (MemberRemovedNotification (gardenNamed (us_ID u)))]))) (\<lambda>_. owned)"
    by (intro ends_answering [OF gardenNamer_triple] ends_answering [OF del] spares_ends sparing) simp_all
qed auto

lemma revokeInvite_keeps: "keeping (revokeInvite si p path htmx clock)"
  unfolding revokeInvite_def write_or_answering
proof (intro ends_branches(2) ends_answer keeping_then sparing)
  fix i
  show "triple owned (writing (DeletePendingInvite (ga_ID (pr_Garden p)) i)) (\<lambda>_. owned) (\<lambda>_. owned)"
    by (intro triple_writing) (auto simp: DeletePendingInvite_def Let_def intro!: owned_invites dest: ownedD(4))
qed simp

lemma createInviteLink_keeps: "keeping (createInviteLink hashToken si p token newID created host get clock)"
  unfolding createInviteLink_def Let_def createInvite_def
proof (intro ends_branches(1) ends_branches(3) ends_answer ends_answering triple_and_then triple_return)
  fix until_at
  assume "\<not> get ''role'' \<notin> set offeredRoles"
  then have role: "get ''role'' \<noteq> ''owner''" by (auto dest: offered_not_owner)
  show "triple owned (writing (CreateInvite newID created (ga_ID (pr_Garden p)) (hashToken token) (get ''role'') None
         (us_ID (pr_User p)) (Add clock InviteLifetime) until_at)) (\<lambda>_. owned) (\<lambda>_. owned)"
  proof (intro triple_writing)
    fix i d d'
    assume "owned d" "CreateInvite newID created (ga_ID (pr_Garden p)) (hashToken token) (get ''role'') None
         (us_ID (pr_User p)) (Add clock InviteLifetime) until_at d = Inr (i, d')"
    then show "owned d'"
      using role ownedD(4) [of d] by (auto simp: CreateInvite_def Let_def intro!: owned_invites split: if_splits)
  qed simp
qed simp_all

lemma close_account_keeps: "keeping (close_account si p get clock)"
proof -
  have page: "spares (newCloseAccountPage si p typed message clock)" for typed message
    unfolding newCloseAccountPage_def by (intro sparing)
  let ?again = "\<lambda>typed message. answering (newCloseAccountPage si p typed message clock) (\<lambda>_. (Server_error, []))
      (\<lambda>page w. ((Page page, []) :: close_told, w))"
  have again: "spares (?again typed message)" for typed message by (intro sparing page)
  let ?tx = "InTx (closeUserAccount (si_collate si) (us_ID (pr_User p)) clock) (Close_store Failure)"
  have "keeping (\<lambda>w. case ?tx w of
             (Inl SoleOwner, w) \<Rightarrow> ?again '''' '''' w
           | (Inl _, w) \<Rightarrow> ((Server_error, []), w)
           | (Inr _, w) \<Rightarrow> ((Redirect signInPath, [Wake]), w))"
    unfolding ends_def
  proof (intro allI impI)
    fix w :: world
    assume w: "owned (tables w)"
    obtain r w1 where run: "?tx w = (r, w1)" by fastforce
    have w1: "owned (tables w1)"
      using tripleD [OF keeps_InTx [OF closeUserAccount_keeps] w] run by (cases r) blast+
    have "owned (tables (snd (?again '''' '''' w1)))"
      using again w1 owned_people unfolding spares_def by blast
    with w1 show "case (case ?tx w of
             (Inl SoleOwner, w) \<Rightarrow> ?again '''' '''' w
           | (Inl _, w) \<Rightarrow> ((Server_error, []), w)
           | (Inr _, w) \<Rightarrow> ((Redirect signInPath, [Wake]), w)) of (r, w') \<Rightarrow> owned (tables w')"
      unfolding run by (simp add: case_prod_unfold split: sum.split close_error.split)
  qed
  then show ?thesis unfolding close_account_def Let_def
    by (intro keeping_branches) (assumption | rule spares_ends [OF again])+
qed

section \<open>The requests as steps\<close>

text \<open>What the other handlers and jobs leave alone: the gardens by id, who sits in them with what role
  and until when, the grants, and the open invites, which they may only delete.\<close>

definition seat :: "membership \<Rightarrow> uuid \<times> uuid \<times> string \<times> gotime option" where
  "seat m = (me_GardenID m, me_UserID m, me_Role m, me_ExpiresAt m)"

inductive people_step :: "('s, 'c, 'a, 'o) front \<Rightarrow> site \<Rightarrow> unicode \<Rightarrow> bool \<Rightarrow> db \<Rightarrow> db \<Rightarrow> bool"
  for f :: "('s, 'c, 'a, 'o) front" and si :: site and u :: unicode and enabled :: bool where
  saves_members: "acting (tables w) clock memberManage p \<Longrightarrow> saveMembers si p get htmx clock w = (r, w') \<Longrightarrow>
    people_step f si u enabled (tables w) (tables w')"
| removes_member: "acting (tables w) clock memberManage p \<Longrightarrow> removeMember si p h htmx clock w = (r, w') \<Longrightarrow>
    people_step f si u enabled (tables w) (tables w')"
| revokes_invite: "acting (tables w) clock memberManage p \<Longrightarrow> revokeInvite si p path htmx clock w = (r2, w') \<Longrightarrow>
    people_step f si u enabled (tables w) (tables w')"
| makes_invite: "acting (tables w) clock memberInvite p \<Longrightarrow>
    createInviteLink (fo_hash f) si p token newID created host get clock w = (r3, w') \<Longrightarrow>
    people_step f si u enabled (tables w) (tables w')"
| accepts_invite: "accept_invite (fo_hash f) si p b token clock w = (r4, w') \<Longrightarrow>
    people_step f si u enabled (tables w) (tables w')"
| redeems_invite: "redeem f si u b token cookies get agent clock w = (r5, w') \<Longrightarrow>
    people_step f si u enabled (tables w) (tables w')"
| sets_up: "create_setup f si u b enabled token cookies get agent clock w = (r6, w') \<Longrightarrow>
    people_step f si u enabled (tables w) (tables w')"
| sets_up_signed_in: "createSignedIn (fo_hash f) si p b enabled token get clock w = (r7, w') \<Longrightarrow>
    people_step f si u enabled (tables w) (tables w')"
| closes_account: "close_account si p get clock w = (r8, w') \<Longrightarrow> people_step f si u enabled (tables w) (tables w')"
| deletes_garden: "acting (tables w) clock gardenDelete p \<Longrightarrow> delete_garden si p get w = (r9, w') \<Longrightarrow>
    people_step f si u enabled (tables w) (tables w')"
| elsewhere: "map ga_ID (t_garden d') = map ga_ID (t_garden d) \<Longrightarrow> map seat (t_membership d') = map seat (t_membership d) \<Longrightarrow>
    (\<And>i. i \<in> set (t_invite d') \<Longrightarrow> in_UserID i = None \<Longrightarrow> i \<in> set (t_invite d)) \<Longrightarrow>
    t_role_capability d' = t_role_capability d \<Longrightarrow> people_step f si u enabled d d'"

text \<open>The invariant in terms of what stays.\<close>

lemma owned_seats:
  assumes "map ga_ID (t_garden d') = map ga_ID (t_garden d)" "map seat (t_membership d') = map seat (t_membership d)"
    "\<And>i. i \<in> set (t_invite d') \<Longrightarrow> in_UserID i = None \<Longrightarrow> i \<in> set (t_invite d)"
    "t_role_capability d' = t_role_capability d" "owned d"
  shows "owned d'"
proof -
  have n: "length (filter (owns g) ms) = length (filter (\<lambda>(garden, user, role, e). garden = g \<and> role = ''owner'') (map seat ms))" for g ms
    by (simp add: filter_map comp_def seat_def owns_def [abs_def])
  have k: "map (\<lambda>m. (me_GardenID m, me_UserID m)) ms = map (\<lambda>(garden, user, _). (garden, user)) (map seat ms)" for ms
    by (simp add: seat_def)
  have gardens: "ga_ID ` set (t_garden d') = ga_ID ` set (t_garden d)"
    using arg_cong [OF assms(1), of set] by simp
  have seats: "seat ` set (t_membership d') = seat ` set (t_membership d)"
    using arg_cong [OF assms(2), of set] by simp
  have h: "has_garden g d' = has_garden g d" for g
    using gardens by (auto simp: has_garden_def list_ex_iff) (metis (no_types, lifting) imageE imageI)+
  have "length (filter (owns (ga_ID g)) (t_membership d')) = 1" if "g \<in> set (t_garden d')" for g
  proof -
    from that gardens obtain g0 where "g0 \<in> set (t_garden d)" "ga_ID g = ga_ID g0" by blast
    then show ?thesis using assms(5) unfolding owned_def n assms(2) by simp
  qed
  moreover have "has_garden (me_GardenID m) d' \<and> (me_Role m = ''owner'' \<longrightarrow> me_ExpiresAt m = None)"
    if "m \<in> set (t_membership d')" for m
  proof -
    from that seats obtain m0 where "m0 \<in> set (t_membership d)" "seat m = seat m0" by blast
    then show ?thesis using ownedD(2,3) [OF assms(5)] unfolding h by (simp add: seat_def)
  qed
  ultimately show ?thesis
    using assms(3,5) unfolding owned_def k assms(2,4) by blast
qed

lemma keepingD: "keeping m \<Longrightarrow> m w = (r, w') \<Longrightarrow> owned (tables w) \<Longrightarrow> owned (tables w')"
  using endsD [of owned m "\<lambda>_. owned"] by blast

lemma people_step_owned: "people_step f si u enabled d d' \<Longrightarrow> owned d \<Longrightarrow> owned d'"
proof (induction rule: people_step.induct)
  case (saves_members w clock p get htmx r w')
  from endsD [OF saveMembers_keeps _ saves_members(2)] acting_owner [OF saves_members(3,1)] saves_members(3)
  show ?case by (simp add: owner_only_def)
next
  case (removes_member w clock p h htmx r w')
  from endsD [OF removeMember_keeps _ removes_member(2)] acting_owner [OF removes_member(3,1)] removes_member(3)
  show ?case by (simp add: owner_only_def)
next
  case elsewhere
  then show ?case by (blast intro: owned_seats)
qed (erule (1) keepingD [rotated], rule revokeInvite_keeps createInviteLink_keeps accept_invite_keeps redeem_keeps
  create_setup_keeps createSignedIn_keeps close_account_keeps delete_garden_keeps)+

section \<open>Properties\<close>

text \<open>
  (C1) Every garden has exactly one owner, without an end date, from an empty install on: whatever is
  posted to the People page, the invite and setup forms, Close account and Delete garden, in any order
  and whatever database calls fail, provided the grants give the owner's capabilities to owners only.
  A step runs a whole handler; People and Delete garden run for a reader the tables authorise when the
  handler starts, and the program's other writes keep seats, roles and gardens as they are.
\<close>

theorem every_garden_has_one_owner:
  assumes "rtranclp (people_step f si u enabled) (empty_db\<lparr>t_role_capability := grants\<rparr>) d"
    "\<And>r. r \<in> set grants \<Longrightarrow> owner_only (ro_Capability r) \<Longrightarrow> ro_Role r = ''owner''"
    "g \<in> set (t_garden d)"
  shows "\<exists>m. filter (owns (ga_ID g)) (t_membership d) = [m] \<and> me_ExpiresAt m = None"
proof -
  have "owned (empty_db\<lparr>t_role_capability := grants\<rparr>)" using assms(2) by (simp add: owned_def empty_db_def)
  with assms(1) have d: "owned d" by (induction rule: rtranclp_induct) (auto dest: people_step_owned)
  then obtain m where m: "filter (owns (ga_ID g)) (t_membership d) = [m]" using ownedD(1) assms(3) by blast
  then have "m \<in> set (t_membership d)" "me_Role m = ''owner''" by (auto simp: filter_eq_Cons_iff owns_def)
  with m show ?thesis using ownedD(3) [OF d] by blast
qed

definition ex_front :: "(string, string, string, unit) front" where
  "ex_front = \<lparr>fo_wa = ex_wa, fo_passkeys = ex_passkeys, fo_sessions = ex_sessions, fo_hash = (\<lambda>s. s)\<rparr>"

definition ex_birth :: birth where
  "ex_birth = \<lparr>bi_Membership = ''m1'', bi_Garden = ''g1'', bi_Care = (\<lambda>s. s), bi_Passkey = ''k1'', bi_Session = ''s1'',
     bi_Token = ''t'', bi_Random = (\<lambda>_. ''''), bi_CreatedAt = zero_time\<rparr>"

definition ex_grants :: "role_capability list" where
  "ex_grants = [\<lparr>ro_Role = ''owner'', ro_Capability = memberManage\<rparr>]"

definition ex_joined :: world where
  "ex_joined = \<lparr>tables = empty_db\<lparr>t_role_capability := ex_grants, t_app_user := [ex_user]\<rparr>, faults = []\<rparr>"

lemma ex_set_up:
  "\<exists>r w. createSignedIn (\<lambda>s. s) ex_site ex_sitter ex_birth True '''' (\<lambda>_. ''Home'') zero_time ex_joined = (r, w)
     \<and> map ga_ID (t_garden (tables w)) = [''g1'']"
  by (simp add: createSignedIn_def signedInOpen_def answering_def return_def ex_site_def set_up_signed_in_def InTx_def claim_def
      createGardenOwnedBy_def and_then_def writing_def CreateGarden_def ex_birth_def createMembership_def CreateMembership_def
      seededCareTypes_def CreateCareType_def on_error_def move_to_garden_def SetSessionGarden_def SetLastGarden_def
      ex_joined_def ex_sitter_def ex_user_def ex_grants_def empty_db_def zero_Principal_def zero_Garden_def zero_AppUser_def
      zero_Session_def has_garden_def has_user_def has_membership_def next_fault_def count_where_def update_where_def
      Let_def SetNotificationPreference_def has_membership_id_def known_kinds_def known_roles_def digestKind_def)

theorem every_garden_has_one_owner_witness:
  "\<exists>d. rtranclp (people_step ex_front ex_site ex_unicode True) (empty_db\<lparr>t_role_capability := ex_grants\<rparr>) d
     \<and> (\<exists>m. filter (owns ''g1'') (t_membership d) = [m] \<and> me_ExpiresAt m = None)"
proof -
  obtain r w where run: "createSignedIn (fo_hash ex_front) ex_site ex_sitter ex_birth True '''' (\<lambda>_. ''Home'') zero_time
      ex_joined = (r, w)" and g: "map ga_ID (t_garden (tables w)) = [''g1'']"
    using ex_set_up by (auto simp: ex_front_def)
  let ?step = "people_step ex_front ex_site ex_unicode True"
  have "?step (empty_db\<lparr>t_role_capability := ex_grants\<rparr>) (tables ex_joined)"
    by (rule elsewhere) (simp_all add: ex_joined_def empty_db_def)
  moreover have "?step (tables ex_joined) (tables w)" by (rule sets_up_signed_in [OF run])
  ultimately have steps: "rtranclp ?step (empty_db\<lparr>t_role_capability := ex_grants\<rparr>) (tables w)"
    by (meson rtranclp.rtrancl_into_rtrancl rtranclp.rtrancl_refl)
  obtain g where g: "g \<in> set (t_garden (tables w))" "ga_ID g = ''g1''" using g by auto
  have "ro_Role r = ''owner''" if "r \<in> set ex_grants" for r using that by (simp add: ex_grants_def)
  from every_garden_has_one_owner [OF steps this g(1)] steps show ?thesis unfolding g(2) by blast
qed

definition account_closed :: "(string \<Rightarrow> string \<Rightarrow> int) \<Rightarrow> uuid \<Rightarrow> gotime \<Rightarrow> db \<Rightarrow> db \<Rightarrow> bool" where
  "account_closed collate user now d d' \<longleftrightarrow>
     ListGardensOnlyThisUserOwns collate user now d = Inr []
     \<and> t_session d' = filter (\<lambda>s. se_UserID s \<noteq> user) (t_session d)
     \<and> t_passkey d' = filter (\<lambda>k. pk_UserID k \<noteq> user) (t_passkey d)
     \<and> t_recovery_code d' = filter (\<lambda>c. rc_UserID c \<noteq> user) (t_recovery_code d)
     \<and> t_push_subscription d' = filter (\<lambda>s. ps_UserID s \<noteq> user) (t_push_subscription d)
     \<and> t_ceremony d' = filter (\<lambda>c. wc_UserID c \<noteq> Some user) (t_ceremony d)
     \<and> t_membership d' = filter (\<lambda>m. me_UserID m \<noteq> user) (t_membership d)
     \<and> list_ex (\<lambda>u. us_ID u = user \<and> us_ClosedAt u = None) (t_app_user d)
     \<and> t_app_user d' = map (\<lambda>u. if us_ID u = user \<and> us_ClosedAt u = None
         then u\<lparr>us_ClosedAt := Some now, us_LastGardenID := None\<rparr> else u) (t_app_user d)"

lemma and_then_flat:
  "and_then (and_then m k) h = and_then m (\<lambda>x. and_then (k x) h)" "and_then (return x) k = k x"
  by (simp_all add: fun_eq_iff and_then_def return_def split: prod.split sum.split)

lemma written_then:
  assumes "\<And>x. triple (\<lambda>d'. \<exists>d. P d \<and> query d = Inr (x, d')) (k x) R (\<lambda>_ _. True)"
  shows "triple P (and_then (on_error f (writing query)) k) R (\<lambda>_ _. True)"
  by (rule triple_and_then [OF _ assms]) (intro triple_on_error triple_writing; auto)

lemma sessions_left:
  "update_where (\<lambda>s. list_ex (\<lambda>m. a s m \<and> se_UserID s = me_UserID m) (filter (\<lambda>m. me_UserID m = user) ms)) f
     (filter (\<lambda>s. \<not> list_ex (\<lambda>k. se_UserID s = pk_UserID k \<and> b s k) (filter (\<lambda>k. pk_UserID k = user) ks)
        \<and> se_UserID s \<noteq> user) ss)
   = filter (\<lambda>s. se_UserID s \<noteq> user) ss"
  by (induction ss) (auto simp: list_ex_iff)

lemma closeUserAccount_closes:
  "triple (\<lambda>d. d = d0) (closeUserAccount collate user now) (\<lambda>_. account_closed collate user now d0) (\<lambda>_ _. True)"
  unfolding closeUserAccount_def account_deletes_def each.simps and_then_flat
proof (rule triple_and_then)
  show "triple (\<lambda>d. d = d0) (on_error Close_store (reading (ListGardensOnlyThisUserOwns collate user now)))
      (\<lambda>mine d. d = d0 \<and> ListGardensOnlyThisUserOwns collate user now d0 = Inr mine) (\<lambda>_ _. True)"
    by (intro triple_on_error triple_reading) auto
  show "triple (\<lambda>d. d = d0 \<and> ListGardensOnlyThisUserOwns collate user now d0 = Inr mine)
      (if mine \<noteq> [] then fail SoleOwner
       else and_then (on_error Close_store (writing (DeleteUserPasskeys user))) (\<lambda>_.
         and_then (on_error Close_store (writing (DeleteRecoveryCodes user))) (\<lambda>_.
         and_then (on_error Close_store (writing (DeleteUserPushSubscriptions user))) (\<lambda>_.
         and_then (on_error Close_store (writing (DeleteUserSessions user))) (\<lambda>_.
         and_then (on_error Close_store (writing (DeleteUserCeremonies user))) (\<lambda>_.
         and_then (on_error Close_store (writing (DeleteUserReenrolmentInvites user))) (\<lambda>_.
         and_then (on_error Close_store (writing (DeleteUserMemberships user))) (\<lambda>_.
         and_then (on_error Close_store (writing (CloseAccount now user))) (\<lambda>closed.
           if closed = 0 then fail AlreadyClosed else return ())))))))))
      (\<lambda>_. account_closed collate user now d0) (\<lambda>_ _. True)" for mine
    by (intro triple_branches triple_fail written_then triple_return)
      (clarsimp simp: account_closed_def quiet_writes DeleteUserReenrolmentInvites_def DeleteUserMemberships_def
         drop_memberships_def Let_def delete_where_def sessions_left;
       auto simp: count_where_def update_where_def list_ex_iff filter_empty_conv)+
qed

text \<open>
  (C13) Closing an account is all or nothing: the reader is sent to sign-in only when every garden they
  own has another owner and exactly the account's sessions, passkeys, recovery codes, subscriptions,
  challenges and memberships are gone, its row marked closed; otherwise the tables are as they were.
\<close>

theorem close_account_whole:
  "case close_account si p get clock w of (r, w') \<Rightarrow>
     if fst r = Redirect signInPath
     then si_TrimSpace si (get ''handle'') = us_Handle (pr_User p)
        \<and> account_closed (si_collate si) (us_ID (pr_User p)) clock (tables w) (tables w')
     else tables w' = tables w"
proof -
  let ?P = "\<lambda>d. d = tables w"
  let ?R = "\<lambda>r d. if fst r = Redirect signInPath
     then si_TrimSpace si (get ''handle'') = us_Handle (pr_User p)
        \<and> account_closed (si_collate si) (us_ID (pr_User p)) clock (tables w) d
     else d = tables w"
  let ?again = "\<lambda>typed message. answering (newCloseAccountPage si p typed message clock) (\<lambda>_. (Server_error, []))
      (\<lambda>page w. ((Page page, []) :: close_told, w))"
  let ?tx = "InTx (closeUserAccount (si_collate si) (us_ID (pr_User p)) clock) (Close_store Failure)"
  have page: "triple ?P (newCloseAccountPage si p typed message clock) (\<lambda>_. ?P) (\<lambda>_. ?P)" for typed message
    unfolding newCloseAccountPage_def
    by (rule triple_and_then [where Q = "\<lambda>_. ?P"]; intro triple_reading triple_return; assumption)
  have again: "ends ?P (?again typed message) ?R" for typed message
  proof (rule ends_answering [OF page])
    show "?R (Server_error, []) d" if "d = tables w" for d unfolding that by simp
    show "ends ?P (\<lambda>v. ((Page x, []) :: close_told, v)) ?R" for x
    proof (rule ends_answer)
      show "?R (Page x, []) d" if "d = tables w" for d unfolding that by simp
    qed
  qed
  have tx: "triple ?P ?tx (\<lambda>_. account_closed (si_collate si) (us_ID (pr_User p)) clock (tables w)) (\<lambda>_. ?P)"
    by (rule triple_InTx [OF closeUserAccount_closes]) simp
  obtain r1 w1 where run: "?tx w = (r1, w1)" by fastforce
  have failed: "tables w1 = tables w" if "r1 = Inl e" for e
    by (rule tripleD(2) [OF tx refl run [unfolded that]])
  have shown: "case ?again typed message v of (r, w') \<Rightarrow> ?R r (tables w')" if "tables v = tables w" for typed message v
    using again [of typed message] that unfolding ends_def by simp
  show ?thesis
  proof (cases "si_TrimSpace si (get ''handle'') = us_Handle (pr_User p)")
    case True
    then have answer: "close_account si p get clock w = (case ?tx w of
        (Inl SoleOwner, w) \<Rightarrow> ?again '''' '''' w
      | (Inl _, w) \<Rightarrow> ((Server_error, []), w)
      | (Inr _, w) \<Rightarrow> ((Redirect signInPath, [Wake]), w))" by (simp add: close_account_def)
    show ?thesis
    proof (cases r1)
      case (Inl e)
      with failed have w1: "tables w1 = tables w" by blast
      show ?thesis unfolding answer run Inl using shown [OF w1] w1 by (cases e) simp_all
    next
      case (Inr x)
      then have "account_closed (si_collate si) (us_ID (pr_User p)) clock (tables w) (tables w1)"
        using tripleD(1) [OF tx refl] run by blast
      with True show ?thesis unfolding answer run Inr by simp
    qed
  next
    case False
    with shown [of w] show ?thesis by (simp add: close_account_def)
  qed
qed

end
