(* ===== verification/Http_Account.thy ===== *)
theory Http_Account
  imports Http_Leaving
begin

text \<open>
  The reader's own pages under More: the account form (\<open>account.go\<close>) and the handle it suggests
  (\<open>handle.go\<close>), the API tokens (\<open>tokens.go\<close>), the garden sheet (\<open>gardens.go\<close>), the index and signing
  out (\<open>more.go\<close>).  Rendering Today behind the garden sheet is left out.
\<close>

definition morePath :: string where "morePath = ''/more''"
definition accountEditPath :: string where "accountEditPath = accountPath @ ''/edit''"
definition recoveryPath :: string where "recoveryPath = accountPath @ ''/recovery''"
definition notificationsPath :: string where "notificationsPath = morePath @ ''/notifications''"
definition appearancePath :: string where "appearancePath = morePath @ ''/appearance''"
definition TokensPath :: string where "TokensPath = morePath @ ''/tokens''"
definition savedParam :: string where "savedParam = ''saved''"

definition savedURL :: "string \<Rightarrow> string" where
  "savedURL path = path @ ''?'' @ savedParam"

section \<open>account.go\<close>

definition nameMissing :: string where "nameMissing = ''Enter a display name.''"
definition handleMissing :: string where "handleMissing = ''Enter a handle.''"
definition accountCodesNote :: string where "accountCodesNote = ''None yet''"
definition accountCodesNoneLeftNote :: string where "accountCodesNoneLeftNote = ''None left''"

record account_form =
  af_name :: string
  af_handle :: string
  af_zone :: string

record account_page =
  ap_Editing :: bool
  ap_Name :: string
  ap_NameError :: string
  ap_Handle :: string
  ap_HandleError :: string
  ap_Zones :: "zone_option list"
  ap_ZoneName :: string
  ap_CodesNote :: string
  ap_Saved :: bool

definition nameErrorFor :: "string \<Rightarrow> string" where
  "nameErrorFor name = (if name = '''' then nameMissing else '''')"

definition handleErrorFor :: "string \<Rightarrow> string" where
  "handleErrorFor h = (if h = '''' then handleMissing else '''')"

definition newAccountPage :: "principal \<Rightarrow> account_form \<Rightarrow> (db_error, account_page) call" where
  "newAccountPage p form =
     and_then (recoveryBatch (us_ID (pr_User p))) (\<lambda>batch.
       return \<lparr>ap_Editing = False, ap_Name = af_name form, ap_NameError = '''', ap_Handle = af_handle form,
         ap_HandleError = '''', ap_Zones = zoneOptions (af_zone form), ap_ZoneName = zoneLabel (af_zone form),
         ap_CodesNote = (case batch of
            None \<Rightarrow> accountCodesNote
          | Some (n, unused, made) \<Rightarrow> if unused = 0 then accountCodesNoneLeftNote else ''''),
         ap_Saved = False\<rparr>)"

definition storedAccountPage :: "principal \<Rightarrow> (db_error, account_page) call" where
  "storedAccountPage p =
     newAccountPage p \<lparr>af_name = us_DisplayName (pr_User p), af_handle = us_Handle (pr_User p), af_zone = us_Timezone (pr_User p)\<rparr>"

type_synonym account_told = "(account_page, string) told"

text \<open>\<open>saved\<close> is whether the URL carries \<open>savedParam\<close>.\<close>

definition show_account :: "principal \<Rightarrow> bool \<Rightarrow> world \<Rightarrow> account_told \<times> world" where
  "show_account p saved =
     answering (storedAccountPage p) (\<lambda>_. (Server_error, [])) (\<lambda>page w. ((Page (page\<lparr>ap_Saved := saved\<rparr>), []), w))"

definition edit_account :: "principal \<Rightarrow> world \<Rightarrow> account_told \<times> world" where
  "edit_account p =
     answering (storedAccountPage p) (\<lambda>_. (Server_error, [])) (\<lambda>page w. ((Page (page\<lparr>ap_Editing := True\<rparr>), []), w))"

definition saveAccount ::
  "site \<Rightarrow> unicode \<Rightarrow> principal \<Rightarrow> form \<Rightarrow> bool \<Rightarrow> world \<Rightarrow> account_told \<times> world" where
  "saveAccount si u p get htmx =
     (let form = \<lparr>af_name = si_TrimSpace si (get ''name''), af_handle = NormaliseHandle u (get ''handle''),
            af_zone = get ''timezone''\<rparr>
      in if af_zone form \<notin> set (zonesFor (us_Timezone (pr_User p))) then (\<lambda>w. ((Bad_request, []), w))
         else
           answering (newAccountPage p form) (\<lambda>_. (Server_error, [])) (\<lambda>page.
           (let page = page\<lparr>ap_Editing := True, ap_NameError := nameErrorFor (af_name form),
                  ap_HandleError := handleErrorFor (af_handle form)\<rparr>
            in if ap_NameError page \<noteq> '''' \<or> ap_HandleError page \<noteq> '''' then (\<lambda>w. ((Page page, []), w))
               else
                 answering (writing (UpdateAccount (af_name form) (af_handle form) (af_zone form) (us_ID (pr_User p))))
                   (\<lambda>e. (if e = UniqueViolation
                        then Page (page\<lparr>ap_HandleError := handleTakenMessage (af_handle form)\<rparr>) else Server_error, []))
                   (\<lambda>_ w. ((if htmx then Page (page\<lparr>ap_Editing := False, ap_Saved := True\<rparr>)
                           else Redirect (savedURL accountPath), [Wake]), w)))))"

text \<open>\<open>handle.go\<close>; a blank name is refused with no body.\<close>

definition suggest ::
  "site \<Rightarrow> unicode \<Rightarrow> (nat \<Rightarrow> string) \<Rightarrow> form \<Rightarrow> world \<Rightarrow> (string, unit) page_answer \<times> world" where
  "suggest si u rand query =
     (let name = si_TrimSpace si (query ''name'') in
      if name = '''' then (\<lambda>w. (Refused '''', w))
      else answering (FreeHandle u rand name) (\<lambda>_. Server_error) (\<lambda>h w. (Page h, w)))"

section \<open>tokens.go\<close>

definition revokeTokenPath :: "uuid \<Rightarrow> string" where
  "revokeTokenPath tokenID = TokensPath @ ''/'' @ tokenID @ ''/revoke''"

definition tokenNameMissing :: string where "tokenNameMissing = ''Enter a name.''"
definition tokenLives :: "int list" where "tokenLives = [7, 30, 60, 90]"
definition defaultTokenLife :: int where "defaultTokenLife = 30"

record token_row =
  tr_Name :: string
  tr_Prefix :: string
  tr_Used :: string
  tr_Life :: string
  tr_Expired :: bool
  tr_Drop :: string
  tr_Revoke :: string

definition tokenRows :: "api_token list \<Rightarrow> gotime \<Rightarrow> token_row list" where
  "tokenRows tokens now =
     map (\<lambda>token.
       (let expired = \<not> APITokenLive token now
        in \<lparr>tr_Name = at_Name token, tr_Prefix = at_Prefix token, tr_Used = usedNote (at_LastUsedAt token) now,
            tr_Life = (if expired then ''Expired '' @ agoWord (at_ExpiresAt token) now
               else ''Expires '' @ dateWord (at_ExpiresAt token) (tloc now)),
            tr_Expired = expired, tr_Drop = (if expired then ''Remove'' else ''Revoke''),
            tr_Revoke = revokeTokenPath (at_ID token)\<rparr>)) tokens"

definition lifeOptions :: "int \<Rightarrow> sel_option list" where
  "lifeOptions chosen =
     map (\<lambda>days. \<lparr>op_Value = Itoa days, op_Label = ''In '' @ daysWord days, op_On = (days = chosen)\<rparr>) tokenLives"

text \<open>\<open>tp_Secret\<close> is the token just created with the sentence beside it.\<close>

record tokens_page =
  tp_Secret :: "(string \<times> string) option"
  tp_Tokens :: "token_row list"
  tp_AnyExpired :: bool
  tp_Name :: string
  tp_NameError :: string
  tp_Lives :: "sel_option list"

type_synonym tokens_told = "(tokens_page, string) told"

definition renderTokens ::
  "site \<Rightarrow> principal \<Rightarrow> gotime \<Rightarrow> (string \<times> string) option \<Rightarrow> string \<Rightarrow> int \<Rightarrow> signal list \<Rightarrow> world \<Rightarrow> tokens_told \<times> world" where
  "renderTokens si p clock secret nameError life signals =
     read_or (ListAPITokens (ga_ID (pr_Garden p)) (us_ID (pr_User p))) (\<lambda>_. (Server_error, signals)) (\<lambda>tokens w.
       (let rows = tokenRows tokens (In_loc clock (locationFor si (pr_User p)))
        in ((Page \<lparr>tp_Secret = secret, tp_Tokens = rows, tp_AnyExpired = list_ex tr_Expired rows, tp_Name = '''',
              tp_NameError = nameError, tp_Lives = lifeOptions life\<rparr>, signals), w)))"

definition show_tokens :: "site \<Rightarrow> principal \<Rightarrow> gotime \<Rightarrow> world \<Rightarrow> tokens_told \<times> world" where
  "show_tokens si p clock = renderTokens si p clock None '''' defaultTokenLife []"

text \<open>A posted lifetime: one the select offers, and what \<open>TokenExpiry\<close> makes of it.\<close>

definition posted_life :: "form \<Rightarrow> gotime \<Rightarrow> (int \<times> gotime) option" where
  "posted_life get clock =
     (case Atoi (get ''expiry'') of
        None \<Rightarrow> None
      | Some n \<Rightarrow>
          if n \<notin> set tokenLives then None
          else (case TokenExpiry clock (n * 24 * hour_ns) of Inl _ \<Rightarrow> None | Inr expires \<Rightarrow> Some (n, expires)))"

definition createToken ::
  "(string \<Rightarrow> string) \<Rightarrow> site \<Rightarrow> principal \<Rightarrow> nat list \<Rightarrow> nat list \<Rightarrow> uuid \<Rightarrow> gotime \<Rightarrow> form \<Rightarrow> gotime
     \<Rightarrow> world \<Rightarrow> tokens_told \<times> world" where
  "createToken hashToken si p labelBytes secretBytes newID created get clock =
     (case posted_life get clock of
        None \<Rightarrow> (\<lambda>w. ((Bad_request, []), w))
      | Some (n, expires) \<Rightarrow>
          (let name = si_TrimSpace si (get ''name'') in
           if name = '''' then renderTokens si p clock None tokenNameMissing n []
           else
             (case NewAPIToken labelBytes secretBytes of (token, prefix) \<Rightarrow>
                answering (writing (CreateAPIToken newID created (ga_ID (pr_Garden p)) name (hashToken token) prefix
                    (us_ID (pr_User p)) expires)) (\<lambda>_. (Server_error, [])) (\<lambda>_.
                renderTokens si p clock
                  (Some (token, ''This token is shown only once. Copy it now. It expires on ''
                     @ dateWord expires (locationFor si (pr_User p)) @ ''.'')) '''' defaultTokenLife [Wake]))))"

definition revokeToken ::
  "site \<Rightarrow> principal \<Rightarrow> string \<Rightarrow> bool \<Rightarrow> gotime \<Rightarrow> world \<Rightarrow> tokens_told \<times> world" where
  "revokeToken si p path htmx clock =
     (case si_parse_uuid si path of
        None \<Rightarrow> (\<lambda>w. ((Not_found, []), w))
      | Some tokenID \<Rightarrow>
          answering (writing (RevokeAPIToken clock (ga_ID (pr_Garden p)) (us_ID (pr_User p)) tokenID))
            (\<lambda>_. (Server_error, [])) (\<lambda>revoked.
            if revoked = 0 then (\<lambda>w. ((Not_found, []), w))
            else if htmx then renderTokens si p clock None '''' defaultTokenLife [Wake]
            else (\<lambda>w. ((Redirect TokensPath, [Wake]), w))))"

section \<open>gardens.go\<close>

definition liveGardens ::
  "uuid \<Rightarrow> gotime \<Rightarrow> (db_error, (membership \<times> garden \<times> string \<times> bool) list) call" where
  "liveGardens user now =
     and_then (reading (ListMembershipsWithGardensForUser user)) (\<lambda>rows.
       return (filter (\<lambda>(m, _). \<not> MembershipEnded m now) rows))"

record garden_row =
  gr_Name :: string
  gr_Owner :: string
  gr_Role :: string
  gr_Until :: string
  gr_Current :: bool
  gr_ID :: uuid

definition ownerWord :: "string \<Rightarrow> bool \<Rightarrow> string" where
  "ownerWord ownerName readerOwns =
     (if readerOwns then ''Your garden'' else if ownerName \<noteq> '''' then ownerName @ right_quote @ ''s garden'' else '''')"

definition gardenRows :: "site \<Rightarrow> principal \<Rightarrow> (membership \<times> garden \<times> string \<times> bool) list \<Rightarrow> garden_row list" where
  "gardenRows si p memberships =
     map (\<lambda>(m, g, ownerName, readerOwns).
       \<lparr>gr_Name = ga_Name g, gr_Owner = ownerWord ownerName readerOwns, gr_Role = roleWord (si_ToUpper si) (me_Role m),
        gr_Until = (case me_ExpiresAt m of None \<Rightarrow> '''' | Some at \<Rightarrow> ''until '' @ dateWord at (locationFor si (pr_User p))),
        gr_Current = (ga_ID g = ga_ID (pr_Garden p)), gr_ID = ga_ID g\<rparr>) memberships"

definition switch_to :: "principal \<Rightarrow> uuid \<Rightarrow> (db_error, unit) call" where
  "switch_to p garden = InTx (move_to_garden p garden) Failure"

definition switchGarden :: "site \<Rightarrow> principal \<Rightarrow> form \<Rightarrow> gotime \<Rightarrow> world \<Rightarrow> (unit, string) page_answer \<times> world" where
  "switchGarden si p get clock =
     (case si_parse_uuid si (get gardenField) of
        None \<Rightarrow> (\<lambda>w. (Not_found, w))
      | Some garden \<Rightarrow>
          read_or (GetMembershipWithUserAndGarden garden (us_ID (pr_User p))) missing (\<lambda>(m, _).
            if MembershipEnded m clock then (\<lambda>w. (Not_found, w))
            else answering (switch_to p garden) (\<lambda>_. Server_error) (\<lambda>_ w. (Redirect ''/'', w))))"

section \<open>more.go\<close>

definition notificationOn :: "notification_preference list \<Rightarrow> string \<Rightarrow> bool" where
  "notificationOn preferences kind =
     (case find (\<lambda>n. np_Kind n = kind) preferences of None \<Rightarrow> False | Some n \<Rightarrow> np_Enabled n)"

definition anyNotificationOn :: "notification_preference list \<Rightarrow> bool" where
  "anyNotificationOn preferences = (notificationOn preferences digestKind \<or> notificationOn preferences ''activity'')"

record more_state =
  ms_notificationsOn :: bool
  ms_pendingInvites :: int
  ms_noCodesLeft :: bool

definition more_of :: "principal \<Rightarrow> gotime \<Rightarrow> (db_error, more_state) call" where
  "more_of p clock =
     and_then (reading (ListNotificationPreferences (me_ID (pr_Membership p)))) (\<lambda>preferences.
     and_then (recoveryBatch (us_ID (pr_User p))) (\<lambda>batch.
     and_then (if Can p memberManage then reading (CountPendingInvites (ga_ID (pr_Garden p)) clock) else return 0) (\<lambda>pending.
     return \<lparr>ms_notificationsOn = anyNotificationOn preferences, ms_pendingInvites = pending,
       ms_noCodesLeft = (case batch of None \<Rightarrow> True | Some (n, unused, made) \<Rightarrow> unused = 0)\<rparr>)))"

record link_row =
  lr_Label :: string
  lr_Href :: string
  lr_Note :: string

definition newMorePage :: "principal \<Rightarrow> more_state \<Rightarrow> link_row list" where
  "newMorePage p s =
     (let row = (\<lambda>label href note. \<lparr>lr_Label = label, lr_Href = href, lr_Note = note\<rparr>)
      in [row ''Account'' accountPath (codesNote (ms_noCodesLeft s)), row ''Appearance'' appearancePath '''',
          row ''Passkeys'' passkeysPath '''', row ''Notifications'' notificationsPath (offNote (ms_notificationsOn s))]
         @ (if Can p ''garden.edit'' then [row ''Garden'' gardenPath ''''] else [])
         @ (if Can p memberManage then [row ''People'' PeoplePath (pendingNote (ms_pendingInvites s))] else [])
         @ (if Can p ''token.manage'' then [row ''Tokens'' TokensPath ''''] else []))"

definition show_more :: "principal \<Rightarrow> gotime \<Rightarrow> world \<Rightarrow> (link_row list, unit) page_answer \<times> world" where
  "show_more p clock = answering (more_of p clock) (\<lambda>_. Server_error) (\<lambda>s w. (Page (newMorePage p s), w))"

definition signOut ::
  "(string \<Rightarrow> string) \<Rightarrow> sessions \<Rightarrow> request_cookies \<Rightarrow> world
     \<Rightarrow> ((unit, string) page_answer \<times> http_cookie option) \<times> world" where
  "signOut hashToken s cookies =
     answering (Delete hashToken (TokenFromRequest s cookies)) (\<lambda>_. (Server_error, None))
       (\<lambda>_ w. ((Redirect signInPath, Some (ClearedCookie s)), w))"

section \<open>Reading a page writes nothing\<close>

lemma ends_quiet:
  assumes "triple (\<lambda>d. d = d0) m (\<lambda>_ d. d = d0) (\<lambda>_ d. d = d0)" "\<And>e. R (failed e) d0" "\<And>x. ends (\<lambda>d. d = d0) (k x) R"
  shows "ends (\<lambda>d. d = d0) (answering m failed k) R"
  by (rule ends_answering [OF assms(1) _ assms(3)]) (use assms(2) in simp)

lemma reading_quiet: "tables (snd (reading query w)) = tables w"
  using next_fault_tables [of w] by (cases "next_fault w") (auto simp: reading_def split: sum.splits)

lemma recoveryBatch_quiet: "triple (\<lambda>d. d = d0) (recoveryBatch user) (\<lambda>_ d. d = d0) (\<lambda>_ d. d = d0)"
  unfolding triple_def
proof (intro allI impI)
  fix w :: world
  assume "tables w = d0"
  then show "case recoveryBatch user w of (Inl e, w') \<Rightarrow> tables w' = d0 | (Inr x, w') \<Rightarrow> tables w' = d0"
    using reading_quiet [of "GetRecoveryBatch user" w]
    by (cases "reading (GetRecoveryBatch user) w"; cases "fst (reading (GetRecoveryBatch user) w)")
       (auto simp: recoveryBatch_def split: db_error.splits)
qed

lemma newAccountPage_quiet:
  "triple (\<lambda>d. d = d0) (newAccountPage p form) (\<lambda>page d. d = d0) (\<lambda>_ d. d = d0)"
  unfolding newAccountPage_def
  by (rule triple_and_then [OF recoveryBatch_quiet], rule triple_return) assumption

lemma renderTokens_ends: "(\<And>r. R r d0) \<Longrightarrow> ends (\<lambda>d. d = d0) (renderTokens si p clock secret msg life signals) R"
  unfolding renderTokens_def by (intro ends_read ends_answer) (simp_all add: Let_def ends_def)

section \<open>What the account form and the token form store\<close>

definition account_saved :: "site \<Rightarrow> unicode \<Rightarrow> principal \<Rightarrow> form \<Rightarrow> db \<Rightarrow> db \<Rightarrow> bool" where
  "account_saved si u p get d d' \<longleftrightarrow>
     (let reader = us_ID (pr_User p); name = si_TrimSpace si (get ''name''); h = NormaliseHandle u (get ''handle'');
          zone = get ''timezone''
      in name \<noteq> '''' \<and> h \<noteq> '''' \<and> zone \<in> set (zonesFor (us_Timezone (pr_User p)))
        \<and> (has_user reader d \<longrightarrow> filter (\<lambda>x. us_Handle x = h \<and> us_ID x \<noteq> reader) (t_app_user d') = [])
        \<and> d' = d\<lparr>t_app_user := map (\<lambda>x. if us_ID x = reader
             then x\<lparr>us_DisplayName := name, us_Handle := h, us_Timezone := zone\<rparr> else x) (t_app_user d)\<rparr>)"

definition token_created :: "principal \<Rightarrow> gotime \<Rightarrow> db \<Rightarrow> db \<Rightarrow> bool" where
  "token_created p clock d d' \<longleftrightarrow>
     (\<exists>t. d' = d\<lparr>t_api_token := t_api_token d @ [t]\<rparr> \<and> at_GardenID t = ga_ID (pr_Garden p)
        \<and> at_CreatedBy t = us_ID (pr_User p) \<and> at_Name t \<noteq> ''''
        \<and> Before clock (at_ExpiresAt t) \<and> \<not> APITokenLive t (Add clock (90 * 24 * hour_ns)))"

lemma UpdateAccount_saved:
  assumes "UpdateAccount name h zone (us_ID (pr_User p)) d = Inr ((), d')" "name \<noteq> ''''" "h \<noteq> ''''"
    "zone \<in> set (zonesFor (us_Timezone (pr_User p)))"
    "name = si_TrimSpace si (get ''name'')" "h = NormaliseHandle u (get ''handle'')" "zone = get ''timezone''"
  shows "account_saved si u p get d d'"
proof -
  have d': "d' = d\<lparr>t_app_user := map (\<lambda>x. if us_ID x = us_ID (pr_User p)
             then x\<lparr>us_DisplayName := name, us_Handle := h, us_Timezone := zone\<rparr> else x) (t_app_user d)\<rparr>"
    and free: "has_user (us_ID (pr_User p)) d \<Longrightarrow> us_Handle x = h \<Longrightarrow> x \<in> set (t_app_user d) \<Longrightarrow> us_ID x = us_ID (pr_User p)" for x
    using assms(1) by (auto simp: UpdateAccount_def update_where_def list_ex_iff split: if_splits)
  have "filter (\<lambda>x. us_Handle x = h \<and> us_ID x \<noteq> us_ID (pr_User p)) (t_app_user d') = []" if "has_user (us_ID (pr_User p)) d"
    unfolding filter_empty_conv
  proof (intro ballI notI)
    fix x
    assume x: "x \<in> set (t_app_user d')" "us_Handle x = h \<and> us_ID x \<noteq> us_ID (pr_User p)"
    then obtain y where y: "y \<in> set (t_app_user d)" "x = (if us_ID y = us_ID (pr_User p)
        then y\<lparr>us_DisplayName := name, us_Handle := h, us_Timezone := zone\<rparr> else y)"
      by (auto simp: d')
    show False using x(2) y free [OF that] by (cases "us_ID y = us_ID (pr_User p)") simp_all
  qed
  then show ?thesis using d' assms(2-4) unfolding account_saved_def Let_def assms(5-7) by blast
qed

lemma posted_life_bounds:
  assumes "posted_life get clock = Some (n, expires)"
  shows "Before clock expires" "\<not> Before (Add clock (90 * 24 * hour_ns)) expires"
  using assms
  by (auto simp: posted_life_def TokenExpiry_def MaxTokenLifetime_def Before_def Add_def split: option.splits if_splits)

text \<open>
  (C24) API tokens are bounded: a post of the form creates at most one token, the reader's own in
  their garden, named, accepted from now and for no longer than ninety days from now; nothing else
  in the database changes.
\<close>

theorem createToken_bounded:
  "case createToken hashToken si p labelBytes secretBytes newID created get clock w of (r, w') \<Rightarrow>
     tables w' = tables w \<or> token_created p clock (tables w) (tables w')"
proof -
  let ?R = "\<lambda>r d. d = tables w \<or> token_created p clock (tables w) d"
  have "ends (\<lambda>d. d = tables w) (createToken hashToken si p labelBytes secretBytes newID created get clock) ?R"
    unfolding createToken_def Let_def
  proof (intro ends_branches(1,2,4) ends_answer)
    fix x n expires token prefix
    assume x: "posted_life get clock = Some x" "x = (n, expires)" and name: "si_TrimSpace si (get ''name'') \<noteq> ''''"
    let ?create = "CreateAPIToken newID created (ga_ID (pr_Garden p)) (si_TrimSpace si (get ''name'')) (hashToken token) prefix
        (us_ID (pr_User p)) expires"
    show "ends (\<lambda>d. d = tables w) (answering (writing ?create) (\<lambda>_. (Server_error, [])) (\<lambda>_.
        renderTokens si p clock (Some (token, ''This token is shown only once. Copy it now. It expires on ''
           @ dateWord expires (locationFor si (pr_User p)) @ ''.'')) '''' defaultTokenLife [Wake])) ?R"
    proof (rule ends_answering)
      show "triple (\<lambda>d. d = tables w) (writing ?create) (\<lambda>_. token_created p clock (tables w)) (\<lambda>_ d. d = tables w)"
        by (intro triple_writing)
          (use posted_life_bounds [OF x(1) [unfolded x(2)]] name in
            \<open>auto simp: CreateAPIToken_def Let_def token_created_def APITokenLive_def split: if_splits\<close>)
      show "ends (token_created p clock (tables w)) (renderTokens si p clock secret '''' defaultTokenLife [Wake]) ?R" for secret
        by (rule ends_pointwise, rule renderTokens_ends) blast
    qed simp
  qed (auto intro: renderTokens_ends)
  then show ?thesis by (rule ends_run)
qed

text \<open>
  (C25) What the account form stores: the reader's own row and no other, under a display name, a
  handle in its normal form that no other account holds, and a zone the select offers; otherwise
  nothing changes.
\<close>

theorem saveAccount_normal:
  "case saveAccount si u p get htmx w of (r, w') \<Rightarrow>
     tables w' = tables w \<or> account_saved si u p get (tables w) (tables w')"
proof -
  let ?R = "\<lambda>r d. d = tables w \<or> account_saved si u p get (tables w) d"
  let ?name = "si_TrimSpace si (get ''name'')" and ?h = "NormaliseHandle u (get ''handle'')"
  let ?update = "UpdateAccount ?name ?h (get ''timezone'') (us_ID (pr_User p))"
  have update: "ends (\<lambda>d. d = tables w) (answering (writing ?update) failed (\<lambda>_ w. (f, w))) ?R"
    if zone: "get ''timezone'' \<in> set (zonesFor (us_Timezone (pr_User p)))" and ok: "?name \<noteq> ''''" "?h \<noteq> ''''" for failed f
  proof (rule ends_answering)
    show "triple (\<lambda>d. d = tables w) (writing ?update) (\<lambda>_. account_saved si u p get (tables w)) (\<lambda>_ d. d = tables w)"
      by (intro triple_writing) (use UpdateAccount_saved [OF _ ok zone] in auto)
  qed (auto intro: ends_answer)
  have "ends (\<lambda>d. d = tables w) (saveAccount si u p get htmx) ?R"
    unfolding saveAccount_def Let_def account_form.simps
    by (intro ends_branches(1) ends_answer ends_quiet [OF newAccountPage_quiet] update)
       (auto simp: nameErrorFor_def handleErrorFor_def nameMissing_def handleMissing_def split: if_splits)
  then show ?thesis by (rule ends_run)
qed

section \<open>Switching gardens\<close>

lemma SetLastGarden_keeps:
  assumes "SetLastGarden garden user d = Inr ((), d')" "people_ok d"
  shows "people_ok d'" "t_membership d' = t_membership d" "t_session d' = t_session d" "has_membership g v d' = has_membership g v d"
proof -
  have d': "d' = d\<lparr>t_app_user := update_where (\<lambda>u. us_ID u = user) (\<lambda>u. u\<lparr>us_LastGardenID := garden\<rparr>) (t_app_user d)\<rparr>"
    using assms(1) by (auto simp: SetLastGarden_def split: if_splits)
  have ids: "map us_ID (t_app_user d') = map us_ID (t_app_user d)" by (simp add: d' map_update_where)
  then have "us_ID ` set (t_app_user d') = us_ID ` set (t_app_user d)" by (metis list.set_map)
  then have "has_user v d' = has_user v d" for v by (auto simp: has_user_def list_ex_iff image_iff) (metis image_iff)+
  moreover have "has_garden v d' = has_garden v d" for v by (simp add: d' has_garden_def)
  ultimately show "people_ok d'" using assms(2) ids unfolding people_ok_def by (simp add: d')
  show "t_membership d' = t_membership d" "t_session d' = t_session d" "has_membership g v d' = has_membership g v d"
    by (simp_all add: d' has_membership_def)
qed

lemma one_membership:
  assumes "people_ok d" "m \<in> set (t_membership d)" "me_GardenID m = g" "me_UserID m = u"
    "GetMembershipWithUserAndGarden g u d = Inr (m', row)"
  shows "m' = m"
  using GetMembership_Inr(1-3) [where d = d and garden = g and user = u] assms
  by (cases row) (auto simp: people_ok_def distinct_map dest: inj_onD)

lemma switchGarden_writes:
  assumes ok: "faults w = []" "people_ok (tables w)"
    and session: "GetSessionByTokenHash (se_TokenHash (pr_Session p)) (tables w) = Inr row" "se_UserID row = us_ID (pr_User p)"
    and m: "si_parse_uuid si (get gardenField) = Some garden" "m \<in> set (t_membership (tables w))" "me_GardenID m = garden"
      "me_UserID m = us_ID (pr_User p)" "\<not> MembershipEnded m clock"
  obtains d where "switchGarden si p get clock w = (Redirect ''/'', w\<lparr>tables := d\<rparr>)" "people_ok d"
    "t_membership d = t_membership (tables w)"
    "GetSessionByTokenHash (se_TokenHash (pr_Session p)) d = Inr (row\<lparr>se_GardenID := Some garden\<rparr>)"
proof -
  let ?u = "us_ID (pr_User p)" and ?h = "se_TokenHash (pr_Session p)"
  have has: "has_membership garden ?u (tables w)" "has_garden garden (tables w)"
    using m ok(2) by (auto simp: has_membership_def people_ok_def list_ex_iff list_all_iff)
  obtain m' us ga names where found: "GetMembershipWithUserAndGarden garden ?u (tables w) = Inr (m', us, ga, names)"
    using GetMembership_found [OF ok(2) has(1)] by (metis prod_cases4)
  then have live: "\<not> MembershipEnded m' clock" using one_membership [OF ok(2) m(2-4) found] m(5) by simp
  obtain n d1 where d1: "SetSessionGarden (Some garden) ?h (tables w) = Inr (n, d1)"
    using SetSessionGarden_ok [OF ok(2) session(1), of "Some garden"] has session(2) by auto
  note frame = session_frame_tables [OF SetSessionGarden_result(1) [OF d1]]
  have "has_garden garden d1" using has(2) frame by (simp add: has_garden_def)
  then obtain d2 where d2: "SetLastGarden (Some garden) ?u d1 = Inr ((), d2)" by (auto simp: SetLastGarden_def)
  note keeps = SetLastGarden_keeps [OF d2]
  have "switchGarden si p get clock w = (Redirect ''/'', w\<lparr>tables := d2\<rparr>)"
    using ok(1) m(1) found live d1 d2
    by (simp add: switchGarden_def switch_to_def move_to_garden_def InTx_def and_then_def answering_def read_or_def reading_def
        writing_def next_fault_def)
  then show thesis
    using that [of d2] keeps(1-3) frame(1,5) ok(2) SetSessionGarden_result(2) [OF d1 session(1)]
    by (simp add: GetSessionByTokenHash_def)
qed

text \<open>
  (C26) Switching gardens takes effect: for a live session whose reader has a live membership of the
  posted garden, the switch redirects to Today and the next request of that session resolves to the
  same account on that garden.
\<close>

theorem switchGarden_then_Resolve:
  assumes ok: "faults w = []" "people_ok (tables w)"
    and session: "live_session s later (hashToken token) (tables w) row" "se_TokenHash (pr_Session p) = hashToken token"
      "se_UserID row = us_ID (pr_User p)"
    and m: "si_parse_uuid si (get gardenField) = Some garden" "m \<in> set (t_membership (tables w))" "me_GardenID m = garden"
      "me_UserID m = us_ID (pr_User p)" "\<not> MembershipEnded m clock" "\<not> MembershipEnded m later"
  shows "\<exists>w1 q w2. switchGarden si p get clock w = (Redirect ''/'', w1) \<and> Resolve_session hashToken s later token w1 = (Inr q, w2)
     \<and> ga_ID (pr_Garden q) = garden \<and> us_ID (pr_User q) = us_ID (pr_User p) \<and> pr_Membership q = m"
proof -
  have row: "GetSessionByTokenHash (se_TokenHash (pr_Session p)) (tables w) = Inr row"
    using session(1,2) by (simp add: live_session_def)
  obtain d where d: "switchGarden si p get clock w = (Redirect ''/'', w\<lparr>tables := d\<rparr>)" "people_ok d"
      "t_membership d = t_membership (tables w)" "GetSessionByTokenHash (hashToken token) d = Inr (row\<lparr>se_GardenID := Some garden\<rparr>)"
    using switchGarden_writes [where si = si and get = get and p = p, OF ok row session(3) m(1-5)] session(2) by metis
  let ?w = "w\<lparr>tables := d\<rparr>"
  have live: "live_session s later (hashToken token) (tables ?w) (row\<lparr>se_GardenID := Some garden\<rparr>)"
    using session(1) d(4) by (simp add: live_session_def)
  obtain x touched w1 where look: "Lookup hashToken s later token ?w = (Inr (x, touched), w1)" "faults w1 = []"
    using Lookup_live [where hashToken = hashToken and w = ?w, OF _ live] ok(1) by auto
  have x: "se_GardenID x = Some garden" "se_UserID x = us_ID (pr_User p)"
    by (rule Lookup_Inr [OF look(1)], use d(4) session(3) in \<open>simp add: live_session_def\<close>)+
  note frame = session_frame_tables [OF Lookup_frame [OF look(1)]]
  have m1: "m \<in> set (t_membership (tables w1))" using m(2) d(3) frame(1) by simp
  then have has: "has_membership garden (us_ID (pr_User p)) (tables w1)" using m(3,4) by (auto simp: has_membership_def list_ex_iff)
  have ok1: "people_ok (tables w1)" using d(2) frame(5) by simp
  obtain m' us ga names where found: "GetMembershipWithUserAndGarden garden (us_ID (pr_User p)) (tables w1) = Inr (m', us, ga, names)"
    using GetMembership_found [OF ok1 has] by (metis prod_cases4)
  have "m' = m" using one_membership [OF ok1 m1 m(3,4) found] .
  then have "Resolve_session hashToken s later token ?w = (Inr (principalOf x touched (m, us, ga, names)), w1)"
    using look x found m(6) by (simp add: Resolve_session_def reading_def next_fault_def)
  then show ?thesis using d(1) GetMembership_Inr(5,7) [OF found] by (auto simp: principalOf_def)
qed

theorem switchGarden_then_Resolve_witness:
  "\<exists>w1 q w2. switchGarden ex_site (zero_Principal\<lparr>pr_Session := ex_session, pr_User := ex_user\<rparr>) (\<lambda>_. ''g1'')
        (mk_Date 2026 3 2 0 0 0 0 utc) ex_request = (Redirect ''/'', w1)
     \<and> Resolve_session ex_hash ex_sessions (mk_Date 2026 3 2 0 0 0 0 utc) ''t'' w1 = (Inr q, w2)
     \<and> ga_ID (pr_Garden q) = ''g1'' \<and> us_ID (pr_User q) = ''u1'' \<and> pr_Membership q = ex_membership"
  using switchGarden_then_Resolve [where hashToken = ex_hash and si = ex_site and get = "\<lambda>_. ''g1''" and m = ex_membership
      and garden = "''g1''" and p = "zero_Principal\<lparr>pr_Session := ex_session, pr_User := ex_user\<rparr>"
      and clock = "mk_Date 2026 3 2 0 0 0 0 utc", OF ex_people_ok(2,1) ex_request_live]
  by (simp add: ex_site_def ex_defs MembershipEnded_def)

end
