(* ===== verification/Http_Notifications.thy ===== *)
theory Http_Notifications
  imports Http_Account "HOL-Library.Word"
begin

text \<open>
  The Notifications page (\<open>notifications.go\<close>): the two switches and the digest's hour, the browsers
  subscribed to push and the test message (\<open>push/test_message.go\<close>), with the addresses the server
  refuses to send to (\<open>push/address.go\<close>).  Parsing a URL or an address, the resolver and the curve
  P-256 are a parameter, the record \<open>net\<close>.
\<close>

unbundle bit_operations_syntax

section \<open>push/address.go\<close>

text \<open>\<open>netip.Addr\<close>: not valid, an IPv4 address, or an IPv6 address with its zone.\<close>

datatype netip_addr = Addr_none | Addr4 "32 word" | Addr6 "128 word" string

definition Unmap :: "netip_addr \<Rightarrow> netip_addr" where
  "Unmap a =
     (case a of Addr6 x zone \<Rightarrow> if drop_bit 32 x = 0xFFFF then Addr4 (ucast x) else a | _ \<Rightarrow> a)"

definition IsValid :: "netip_addr \<Rightarrow> bool" where
  "IsValid a \<longleftrightarrow> a \<noteq> Addr_none"

definition IsLoopback :: "netip_addr \<Rightarrow> bool" where
  "IsLoopback a =
     (case Unmap a of Addr_none \<Rightarrow> False | Addr4 x \<Rightarrow> drop_bit 24 x = 127 | Addr6 x zone \<Rightarrow> x = 1)"

definition IsPrivate :: "netip_addr \<Rightarrow> bool" where
  "IsPrivate a =
     (case Unmap a of
        Addr_none \<Rightarrow> False
      | Addr4 x \<Rightarrow> drop_bit 24 x = 10 \<or> drop_bit 24 x = 172 \<and> drop_bit 16 x AND 0xF0 = 16 \<or> drop_bit 16 x = 0xC0A8
      | Addr6 x zone \<Rightarrow> drop_bit 120 x AND 0xFE = 0xFC)"

definition IsLinkLocalUnicast :: "netip_addr \<Rightarrow> bool" where
  "IsLinkLocalUnicast a =
     (case Unmap a of
        Addr_none \<Rightarrow> False | Addr4 x \<Rightarrow> drop_bit 16 x = 0xA9FE | Addr6 x zone \<Rightarrow> drop_bit 112 x AND 0xFFC0 = 0xFE80)"

definition IsMulticast :: "netip_addr \<Rightarrow> bool" where
  "IsMulticast a =
     (case Unmap a of
        Addr_none \<Rightarrow> False | Addr4 x \<Rightarrow> drop_bit 24 x AND 0xF0 = 0xE0 | Addr6 x zone \<Rightarrow> drop_bit 120 x = 0xFF)"

text \<open>A comparison with the two unspecified addresses, which have no zone.\<close>

definition IsUnspecified :: "netip_addr \<Rightarrow> bool" where
  "IsUnspecified a \<longleftrightarrow> a = Addr4 0 \<or> a = Addr6 0 ''''"

text \<open>\<open>sharedAddressSpace.Contains\<close>: 100.64.0.0/10.\<close>

definition sharedAddressSpace :: "netip_addr \<Rightarrow> bool" where
  "sharedAddressSpace a = (case a of Addr4 x \<Rightarrow> drop_bit 22 x = drop_bit 22 0x64400000 | _ \<Rightarrow> False)"

definition RefusedAddress :: "netip_addr \<Rightarrow> bool" where
  "RefusedAddress addr =
     (let addr = Unmap addr in
      \<not> IsValid addr \<or> IsLoopback addr \<or> IsPrivate addr \<or> IsLinkLocalUnicast addr \<or> IsMulticast addr
        \<or> IsUnspecified addr \<or> sharedAddressSpace addr)"

section \<open>The endpoint and keys of a subscription\<close>

datatype looked_up = Addresses "netip_addr list" | Host_not_found | Lookup_failed

text \<open>\<open>nt_ParseURL\<close> gives a URL's scheme and host name, \<open>nt_lookup\<close> what the resolver answers while
  the request runs, and \<open>nt_on_curve\<close> whether \<open>ecdh.P256\<close> takes the bytes as a public key.\<close>

record net =
  nt_ParseURL :: "string \<Rightarrow> (string \<times> string) option"
  nt_ParseAddr :: "string \<Rightarrow> netip_addr option"
  nt_lookup :: "string \<Rightarrow> looked_up"
  nt_on_curve :: "string \<Rightarrow> bool"

definition pushEndpointHost :: "net \<Rightarrow> string \<Rightarrow> string option" where
  "pushEndpointHost n v =
     (case nt_ParseURL n v of
        None \<Rightarrow> None
      | Some (scheme, host) \<Rightarrow> if scheme \<noteq> ''https'' \<or> host = '''' then None else Some host)"

definition addressesOf :: "net \<Rightarrow> string \<Rightarrow> looked_up" where
  "addressesOf n host = (case nt_ParseAddr n host of Some addr \<Rightarrow> Addresses [addr] | None \<Rightarrow> nt_lookup n host)"

text \<open>\<open>None\<close> is an error of the lookup.\<close>

definition publicHost :: "net \<Rightarrow> string \<Rightarrow> bool option" where
  "publicHost n host =
     (case addressesOf n host of
        Host_not_found \<Rightarrow> Some False
      | Lookup_failed \<Rightarrow> None
      | Addresses addrs \<Rightarrow> if list_ex RefusedAddress addrs then Some False else Some (0 < length addrs))"

definition decodePushKey :: "string \<Rightarrow> string option" where
  "decodePushKey v = DecodeString (trim_right (CHR ''='') v)"

definition isPushPoint :: "net \<Rightarrow> string \<Rightarrow> bool" where
  "isPushPoint n v = (case decodePushKey v of None \<Rightarrow> False | Some decoded \<Rightarrow> nt_on_curve n decoded)"

definition isPushKey :: "string \<Rightarrow> nat \<Rightarrow> bool" where
  "isPushKey v len = (case decodePushKey v of None \<Rightarrow> False | Some decoded \<Rightarrow> length decoded = len)"

definition authLength :: nat where "authLength = 16"
definition maxPushSubscriptions :: int where "maxPushSubscriptions = 10"

section \<open>The page\<close>

definition activityKind :: string where "activityKind = ''activity''"
definition subscribePath :: string where "subscribePath = notificationsPath @ ''/browsers''"
definition sendTestPath :: string where "sendTestPath = notificationsPath @ ''/test''"
definition testResultParam :: string where "testResultParam = ''test''"
definition testSent :: string where "testSent = ''sent''"
definition testGone :: string where "testGone = ''gone''"
definition testFailed :: string where "testFailed = ''failed''"
definition testNone :: string where "testNone = ''none''"

definition removeBrowserPath :: "uuid \<Rightarrow> string" where
  "removeBrowserPath subscriptionID = notificationsPath @ ''/browsers/'' @ subscriptionID @ ''/remove''"

definition testResultLines :: "string \<Rightarrow> string" where
  "testResultLines result =
     (if result = testSent then
        ''Test sent. If it didn'' @ right_quote @ ''t arrive, check this device'' @ right_quote @ ''s notification settings.''
      else if result = testGone then
        ''This device'' @ right_quote @ ''s subscription had expired and has been removed. Add this device to subscribe it again.''
      else if result = testFailed then ''The test couldn'' @ right_quote @ ''t be sent. Try again in a minute.''
      else if result = testNone then ''This device isn'' @ right_quote @ ''t subscribed.''
      else '''')"

definition tooManyDevices :: string where
  "tooManyDevices = ''You have '' @ Itoa maxPushSubscriptions @ '' devices subscribed. Remove one, then add this device.''"

definition tooManyDevicesElsewhere :: string where
  "tooManyDevicesElsewhere = ''You have '' @ Itoa maxPushSubscriptions
     @ '' devices subscribed. Remove one on the Notifications page, then try again.''"

record browser_row =
  br_Name :: string
  br_Used :: string
  br_Endpoint :: string
  br_Remove :: string

record notifications_page =
  nf_Key :: string
  nf_Digest :: bool
  nf_Activity :: bool
  nf_Hours :: "sel_option list"
  nf_Zone :: string
  nf_Browsers :: "browser_row list"
  nf_TestResult :: string
  nf_Saved :: bool
  nf_FocusSendTest :: bool
  nf_FocusAdd :: bool
  nf_AddError :: string

definition hours :: "int list" where
  "hours = map int [0..<24]"

text \<open>\<open>None\<close> for an hour the select does not hold.\<close>

definition offeredHour :: "string \<Rightarrow> int option" where
  "offeredHour posted = find (\<lambda>hour. posted = Itoa hour) hours"

definition newNotificationsPage ::
  "string \<Rightarrow> bool \<Rightarrow> bool \<Rightarrow> int \<Rightarrow> push_subscription list \<Rightarrow> gotime \<Rightarrow> notifications_page" where
  "newNotificationsPage zone digest activity hour subscriptions now =
     \<lparr>nf_Key = '''', nf_Digest = digest, nf_Activity = activity,
      nf_Hours = (if digest
        then map (\<lambda>choice. \<lparr>op_Value = Itoa choice, op_Label = hourLabel choice, op_On = (choice = hour)\<rparr>) hours else []),
      nf_Zone = zoneLabel zone,
      nf_Browsers = map (\<lambda>s. \<lparr>br_Name = browserName (ps_UserAgent s), br_Used = usedNote (ps_LastSentAt s) now,
        br_Endpoint = ps_Endpoint s, br_Remove = removeBrowserPath (ps_ID s)\<rparr>) subscriptions,
      nf_TestResult = '''', nf_Saved = False, nf_FocusSendTest = False, nf_FocusAdd = False, nf_AddError = ''''\<rparr>"

text \<open>\<open>notificationsState\<close>, without the status code and the announcement.\<close>

record notifications_state =
  nx_testResult :: string
  nx_saved :: bool
  nx_focusSendTest :: bool
  nx_focusAdd :: bool
  nx_addError :: string

definition plain_state :: notifications_state where
  "plain_state = \<lparr>nx_testResult = '''', nx_saved = False, nx_focusSendTest = False, nx_focusAdd = False, nx_addError = ''''\<rparr>"

text \<open>A page, an empty 204, a refusal in plain text, or where the browser is sent.\<close>

datatype devices_page = Devices notifications_page | No_content | Plain_refusal string

type_synonym devices_told = "(devices_page, string) told"

definition renderNotifications ::
  "site \<Rightarrow> principal \<Rightarrow> gotime \<Rightarrow> int \<Rightarrow> notifications_state \<Rightarrow> signal list \<Rightarrow> world \<Rightarrow> devices_told \<times> world" where
  "renderNotifications si p clock hour st signals =
     read_or (ListNotificationPreferences (me_ID (pr_Membership p))) (\<lambda>_. (Server_error, signals)) (\<lambda>preferences.
     read_or (ListPushSubscriptions (us_ID (pr_User p))) (\<lambda>_. (Server_error, signals)) (\<lambda>subscriptions w.
       (let page = newNotificationsPage (us_Timezone (pr_User p)) (notificationOn preferences digestKind)
              (notificationOn preferences activityKind) hour subscriptions (In_loc clock (locationFor si (pr_User p)))
        in ((Page (Devices (page\<lparr>nf_Key := si_pushKey si, nf_TestResult := nx_testResult st, nf_Saved := nx_saved st,
               nf_FocusSendTest := nx_focusSendTest st, nf_FocusAdd := nx_focusAdd st,
               nf_AddError := nx_addError st\<rparr>)), signals), w))))"

text \<open>\<open>result\<close> is the \<open>testResultParam\<close> of the URL, and \<open>saved\<close> whether it carries \<open>savedParam\<close>.\<close>

definition show_notifications :: "site \<Rightarrow> principal \<Rightarrow> gotime \<Rightarrow> string \<Rightarrow> bool \<Rightarrow> world \<Rightarrow> devices_told \<times> world" where
  "show_notifications si p clock result saved =
     renderNotifications si p clock (me_DigestHour (pr_Membership p))
       (plain_state\<lparr>nx_testResult := testResultLines result, nx_saved := saved\<rparr>) []"

section \<open>test_message.go and the handlers\<close>

text \<open>\<open>TestMessage.Send\<close>, with what the push service answers; what is sent is in the outbox.\<close>

definition TestNotification :: "string \<Rightarrow> notification" where
  "TestNotification path =
     \<lparr>no_Title = ''Test notification'', no_Body = ''Notifications are working.'', no_URL = path, no_Icon = '''', no_Tag = ''''\<rparr>"

definition send_test ::
  "string \<Rightarrow> push_subscription \<Rightarrow> notification \<Rightarrow> gotime \<Rightarrow> push_world \<Rightarrow> push_error option \<times> push_world" where
  "send_test baseURL sub n now =
     sendOne sub (n\<lparr>no_URL := absolute baseURL (no_URL n), no_Icon := absolute baseURL (no_Icon n)\<rparr>) now"

text \<open>\<open>on\<close> is whether push is on, \<open>clock\<close> also the time the send is recorded at; the last part of the
  result is what was sent.\<close>

definition test_result :: "push_error option \<Rightarrow> string" where
  "test_result outcome =
     (case outcome of None \<Rightarrow> testSent | Some ErrGone \<Rightarrow> testGone | Some _ \<Rightarrow> testFailed)"

definition test_to :: "string \<Rightarrow> push_subscription \<Rightarrow> gotime \<Rightarrow> response \<Rightarrow> world
     \<Rightarrow> (string \<times> (push_subscription \<times> notification) list) \<times> world" where
  "test_to baseURL sub clock resp w =
     (case send_test baseURL sub (TestNotification notificationsPath) clock
        \<lparr>pw_world = w, pw_responses = [resp], pw_outbox = [], pw_done = []\<rparr> of
        (outcome, pw) \<Rightarrow> ((test_result outcome, pw_outbox pw), pw_world pw))"

definition sendTestNotification ::
  "site \<Rightarrow> bool \<Rightarrow> string \<Rightarrow> principal \<Rightarrow> form \<Rightarrow> bool \<Rightarrow> gotime \<Rightarrow> response \<Rightarrow> world
     \<Rightarrow> (devices_told \<times> (push_subscription \<times> notification) list) \<times> world" where
  "sendTestNotification si on baseURL p get htmx clock resp =
     (if si_pushKey si = '''' \<or> \<not> on then (\<lambda>w. (((Not_found, []), []), w))
      else
        answering (optional (reading (GetPushSubscriptionByEndpoint (us_ID (pr_User p)) (get ''endpoint''))))
          (\<lambda>_. ((Server_error, []), [])) (\<lambda>found w.
          (case (case found of None \<Rightarrow> ((testNone, []), w) | Some sub \<Rightarrow> test_to baseURL sub clock resp w) of
             ((result, sent), w) \<Rightarrow>
               if htmx then
                 (case renderNotifications si p clock (me_DigestHour (pr_Membership p))
                    (plain_state\<lparr>nx_testResult := testResultLines result\<rparr>) [] w of (r, w) \<Rightarrow> ((r, sent), w))
               else (((Redirect (notificationsPath @ ''?'' @ testResultParam @ ''='' @ result), []), sent), w))))"

text \<open>The transaction of \<open>subscribeBrowser\<close>: true when the account has no room.\<close>

definition subscription_stored ::
  "uuid \<Rightarrow> gotime \<Rightarrow> uuid \<Rightarrow> string \<Rightarrow> string \<Rightarrow> string \<Rightarrow> string option \<Rightarrow> (db_error, bool) call" where
  "subscription_stored newID tnow user endpoint p256dh authKey userAgent =
     InTx
       (and_then (reading (LockUser user)) (\<lambda>_.
        and_then (reading (CountOtherPushSubscriptions user endpoint)) (\<lambda>others.
        if maxPushSubscriptions \<le> others then return True
        else and_then (writing (UpsertPushSubscription newID tnow user endpoint p256dh authKey userAgent)) (\<lambda>_.
             return False)))) Failure"

definition subscribeBrowser ::
  "site \<Rightarrow> net \<Rightarrow> principal \<Rightarrow> form \<Rightarrow> string \<Rightarrow> bool \<Rightarrow> uuid \<Rightarrow> gotime \<Rightarrow> gotime \<Rightarrow> world \<Rightarrow> devices_told \<times> world" where
  "subscribeBrowser si n p get agent htmx newID tnow clock =
     (if si_pushKey si = '''' then (\<lambda>w. ((Not_found, []), w))
      else
        (let endpoint = get ''endpoint''; p256dh = get ''p256dh''; authKey = get ''auth''; hour = me_DigestHour (pr_Membership p)
         in case pushEndpointHost n endpoint of
              None \<Rightarrow> (\<lambda>w. ((Bad_request, []), w))
            | Some host \<Rightarrow>
                if \<not> isPushPoint n p256dh \<or> \<not> isPushKey authKey authLength then (\<lambda>w. ((Bad_request, []), w))
                else
                  (case publicHost n host of
                     None \<Rightarrow> (\<lambda>w. ((Server_error, []), w))
                   | Some public \<Rightarrow>
                       if \<not> public then (\<lambda>w. ((Bad_request, []), w))
                       else
                         answering (subscription_stored newID tnow (us_ID (pr_User p)) endpoint p256dh authKey (userAgentOf agent))
                           (\<lambda>_. (Server_error, [])) (\<lambda>full.
                           if full then
                             if htmx then renderNotifications si p clock hour
                               (plain_state\<lparr>nx_addError := tooManyDevices, nx_focusAdd := True\<rparr>) []
                             else (\<lambda>w. ((Page (Plain_refusal tooManyDevicesElsewhere), []), w))
                           else if htmx then renderNotifications si p clock hour
                             (plain_state\<lparr>nx_focusSendTest := True\<rparr>) [Wake]
                           else (\<lambda>w. ((Page No_content, [Wake]), w))))))"

text \<open>\<open>has\<close> is the fields the form carries.\<close>

definition settings_stored :: "principal \<Rightarrow> bool \<Rightarrow> bool \<Rightarrow> int \<Rightarrow> (db_error, unit) call" where
  "settings_stored p digest activity hour =
     InTx
       (and_then (each (\<lambda>(name, enabled). writing (SetNotificationPreference (me_ID (pr_Membership p)) name enabled))
          [(digestKind, digest), (activityKind, activity)]) (\<lambda>_.
        writing (SetDigestHour hour (ga_ID (pr_Garden p)) (us_ID (pr_User p))))) Failure"

definition saveNotifications ::
  "site \<Rightarrow> principal \<Rightarrow> (string \<Rightarrow> bool) \<Rightarrow> form \<Rightarrow> bool \<Rightarrow> gotime \<Rightarrow> world \<Rightarrow> devices_told \<times> world" where
  "saveNotifications si p has get htmx clock =
     (case (if has ''hour'' then offeredHour (get ''hour'') else Some (me_DigestHour (pr_Membership p))) of
        None \<Rightarrow> (\<lambda>w. ((Bad_request, []), w))
      | Some hour \<Rightarrow>
          answering (settings_stored p (has digestKind) (has activityKind) hour) (\<lambda>_. (Server_error, [])) (\<lambda>_.
            if htmx then renderNotifications si p clock hour plain_state [Wake]
            else (\<lambda>w. ((Redirect (savedURL notificationsPath), [Wake]), w))))"

definition removeBrowser ::
  "site \<Rightarrow> principal \<Rightarrow> string \<Rightarrow> bool \<Rightarrow> gotime \<Rightarrow> world \<Rightarrow> devices_told \<times> world" where
  "removeBrowser si p path htmx clock =
     (case si_parse_uuid si path of
        None \<Rightarrow> (\<lambda>w. ((Not_found, []), w))
      | Some subscriptionID \<Rightarrow>
          answering (writing (DeletePushSubscription (us_ID (pr_User p)) subscriptionID)) (\<lambda>_. (Server_error, [])) (\<lambda>removed.
            if removed = 0 then (\<lambda>w. ((Not_found, []), w))
            else if htmx then renderNotifications si p clock (me_DigestHour (pr_Membership p)) plain_state []
            else (\<lambda>w. ((Redirect notificationsPath, []), w))))"

section \<open>The addresses refused\<close>

lemma unat_drop_bit: "unat (drop_bit n (x :: 'a::len word)) = unat x div 2 ^ n"
  unfolding unsigned_drop_bit_eq by (simp add: drop_bit_eq_div take_bit_nat_eq_self)

lemma drop_bit_block: "drop_bit n (x :: 'a::len word) = c \<longleftrightarrow> unat x div 2 ^ n = unat c"
  unfolding word_unat_eq_iff unat_drop_bit ..

lemma div_block: "0 < k \<Longrightarrow> (m :: nat) div k = c \<longleftrightarrow> c * k \<le> m \<and> m < c * k + k"
  using div_nat_eqI [of k c m] div_times_less_eq_dividend [of m k] dividend_less_div_times [of k m]
  by (auto simp: ac_simps)

lemma block: "0 < k \<Longrightarrow> (m :: nat) div k = c \<longleftrightarrow> c * k \<le> m \<and> m \<le> c * k + (k - 1)"
  by (auto simp: div_block)

lemma and_block:
  assumes "k + n \<le> LENGTH('a)" "unat c < 2 ^ n"
  shows "(y :: 'a::len word) AND push_bit k (mask n) = push_bit k c \<longleftrightarrow> unat y div 2 ^ k mod 2 ^ n = unat c"
proof -
  have y: "y AND push_bit k (mask n) = push_bit k (take_bit n (drop_bit k y))"
    by (rule bit_word_eqI) (auto simp: bit_simps)
  have less: "m * 2 ^ k < 2 ^ LENGTH('a)" if "m < 2 ^ n" for m :: nat
  proof -
    have "m * 2 ^ k < 2 ^ n * 2 ^ k" using that by simp
    also have "\<dots> \<le> 2 ^ LENGTH('a)" using assms(1) by (simp flip: power_add)
    finally show ?thesis .
  qed
  have c: "unat (push_bit k v) = unat v * 2 ^ k" if "unat v < 2 ^ n" for v :: "'a word"
    using less [OF that] unfolding unsigned_push_bit_eq by (simp add: push_bit_eq_mult take_bit_nat_eq_self)
  have t: "unat (take_bit n (drop_bit k y)) = unat y div 2 ^ k mod 2 ^ n"
    unfolding unsigned_take_bit_eq unsigned_drop_bit_eq by (simp add: drop_bit_eq_div take_bit_eq_mod)
  then show ?thesis unfolding y using c assms(2) by (simp add: word_unat_eq_iff)
qed

definition within :: "(nat \<times> nat) list \<Rightarrow> nat \<Rightarrow> bool" where
  "within blocks x = list_ex (\<lambda>(first, last). first \<le> x \<and> x \<le> last) blocks"

definition private_blocks4 :: "(nat \<times> nat) list" where
  "private_blocks4 =
     [(0, 0), (0x0A000000, 0x0AFFFFFF), (0x64400000, 0x647FFFFF), (0x7F000000, 0x7FFFFFFF), (0xA9FE0000, 0xA9FEFFFF),
      (0xAC100000, 0xAC1FFFFF), (0xC0A80000, 0xC0A8FFFF), (0xE0000000, 0xEFFFFFFF)]"

definition private_blocks6 :: "(nat \<times> nat) list" where
  "private_blocks6 = [(1, 1), (0xFC * 2 ^ 120, 0xFE * 2 ^ 120 - 1), (0xFE80 * 2 ^ 112, 0xFEC0 * 2 ^ 112 - 1),
     (0xFF * 2 ^ 120, 2 ^ 128 - 1)]"

lemma F0_32: "(y :: 32 word) AND 0xF0 = 16 \<longleftrightarrow> unat y div 16 mod 16 = 1" "(y :: 32 word) AND 0xF0 = 0xE0 \<longleftrightarrow> unat y div 16 mod 16 = 14"
  using and_block [of 4 4 "1 :: 32 word" y] and_block [of 4 4 "14 :: 32 word" y] by (simp_all add: mask_eq_exp_minus_1 push_bit_eq_mult)

lemma refused4: "RefusedAddress (Addr4 x) \<longleftrightarrow> within private_blocks4 (unat x)"
proof -
  define m where "m = unat x"
  have m: "m < 4294967296" using unsigned_less [of x, where ?'a = nat] by (simp add: m_def)
  have *: "drop_bit 24 x = 127 \<longleftrightarrow> m div 16777216 = 127" "drop_bit 24 x = 10 \<longleftrightarrow> m div 16777216 = 10"
    "drop_bit 24 x = 172 \<longleftrightarrow> m div 16777216 = 172" "drop_bit 16 x = 0xC0A8 \<longleftrightarrow> m div 65536 = 0xC0A8"
    "drop_bit 16 x = 0xA9FE \<longleftrightarrow> m div 65536 = 0xA9FE" "drop_bit 22 x = drop_bit 22 0x64400000 \<longleftrightarrow> m div 4194304 = 401"
    "x = 0 \<longleftrightarrow> m = 0"
    by (simp_all add: drop_bit_block m_def unat_eq_0 del: drop_bit_numeral_minus_bit1)
  have **: "drop_bit 16 x AND 0xF0 = 16 \<longleftrightarrow> m div 1048576 mod 16 = 1" "drop_bit 24 x AND 0xF0 = 0xE0 \<longleftrightarrow> m div 268435456 mod 16 = 14"
    unfolding F0_32 unat_drop_bit by (simp_all add: m_def div_mult2_eq [symmetric])
  have "RefusedAddress (Addr4 x) \<longleftrightarrow> m = 0 \<or> m div 16777216 = 127 \<or> m div 16777216 = 10
      \<or> m div 16777216 = 172 \<and> m div 1048576 mod 16 = 1 \<or> m div 65536 = 0xC0A8 \<or> m div 65536 = 0xA9FE
      \<or> m div 268435456 mod 16 = 14 \<or> m div 4194304 = 401"
    unfolding RefusedAddress_def Let_def IsValid_def IsLoopback_def IsPrivate_def IsLinkLocalUnicast_def IsMulticast_def
      IsUnspecified_def sharedAddressSpace_def Unmap_def netip_addr.case netip_addr.inject netip_addr.distinct * **
    by blast
  moreover have "m div 16777216 = 172 \<and> m div 1048576 mod 16 = 1 \<longleftrightarrow> m div 1048576 = 2753"
  proof -
    have "m div 16777216 = m div 1048576 div 16" using div_mult2_eq [of m 1048576 16] by simp
    moreover have "k div 16 = 172 \<and> k mod 16 = 1 \<longleftrightarrow> k = 2753" for k :: nat by presburger
    ultimately show ?thesis by (simp only:)
  qed
  moreover have "m div 268435456 mod 16 = 14 \<longleftrightarrow> m div 268435456 = 14" using m by (simp add: div_less_iff_less_mult)
  ultimately have "RefusedAddress (Addr4 x) \<longleftrightarrow> within private_blocks4 m"
    unfolding within_def private_blocks4_def by (simp add: block) blast
  then show ?thesis by (simp add: m_def)
qed
lemma masks_128: "(y :: 128 word) AND 0xFE = 0xFC \<longleftrightarrow> unat y div 2 mod 128 = 126"
  "(y :: 128 word) AND 0xFFC0 = 0xFE80 \<longleftrightarrow> unat y div 64 mod 1024 = 1018"
  using and_block [of 1 7 "126 :: 128 word" y] and_block [of 6 10 "1018 :: 128 word" y]
  by (simp_all add: mask_eq_exp_minus_1 push_bit_eq_mult)

lemma refused6:
  assumes "drop_bit 32 x \<noteq> 0xFFFF"
  shows "RefusedAddress (Addr6 x zone) \<longleftrightarrow> x = 0 \<and> zone = '''' \<or> within private_blocks6 (unat x)"
proof -
  define m where "m = unat x"
  have m: "m < 2 ^ 128" using unsigned_less [of x, where ?'a = nat] by (simp add: m_def)
  have *: "x = 1 \<longleftrightarrow> m = 1" "drop_bit 120 x = 0xFF \<longleftrightarrow> m div 2 ^ 120 = 0xFF"
    by (simp_all only: drop_bit_block m_def) (simp_all add: word_unat_eq_iff)
  have **: "drop_bit 120 x AND 0xFE = 0xFC \<longleftrightarrow> m div 2 ^ 121 mod 128 = 126"
    "drop_bit 112 x AND 0xFFC0 = 0xFE80 \<longleftrightarrow> m div 2 ^ 118 mod 1024 = 1018"
    unfolding masks_128 unat_drop_bit by (simp_all add: m_def div_mult2_eq [symmetric])
  have "RefusedAddress (Addr6 x zone) \<longleftrightarrow> x = 0 \<and> zone = '''' \<or> m = 1 \<or> m div 2 ^ 121 mod 128 = 126
      \<or> m div 2 ^ 118 mod 1024 = 1018 \<or> m div 2 ^ 120 = 0xFF"
    using assms by (auto simp: RefusedAddress_def Let_def IsValid_def IsLoopback_def IsPrivate_def IsLinkLocalUnicast_def
        IsMulticast_def IsUnspecified_def sharedAddressSpace_def Unmap_def * **)
  also have "\<dots> \<longleftrightarrow> x = 0 \<and> zone = '''' \<or> within private_blocks6 m"
    using m unfolding within_def private_blocks6_def by (auto simp: div_block)
  finally show ?thesis by (simp add: m_def)
qed

text \<open>
  (C29) The addresses the server refuses to send to, for every IPv4 and IPv6 address: the private,
  loopback, link-local, shared and multicast blocks, with an IPv4 address written as IPv6 refused
  where the IPv4 address is.  The unspecified IPv6 address is refused only without a zone.
\<close>

theorem RefusedAddress_blocks:
  "RefusedAddress a \<longleftrightarrow>
     (case a of
        Addr_none \<Rightarrow> True
      | Addr4 x \<Rightarrow> within private_blocks4 (unat x)
      | Addr6 x zone \<Rightarrow>
          if unat x div 2 ^ 32 = 0xFFFF then within private_blocks4 (unat x mod 2 ^ 32)
          else x = 0 \<and> zone = '''' \<or> within private_blocks6 (unat x))"
proof (cases a)
  case Addr_none
  then show ?thesis by (simp add: RefusedAddress_def Unmap_def IsValid_def)
next
  case (Addr4 x)
  then show ?thesis by (simp add: refused4)
next
  case (Addr6 x zone)
  have mapped: "drop_bit 32 x = 0xFFFF \<longleftrightarrow> unat x div 2 ^ 32 = 0xFFFF" by (simp add: drop_bit_block)
  show ?thesis
  proof (cases "drop_bit 32 x = 0xFFFF")
    case True
    have "unat (ucast x :: 32 word) = unat x mod 2 ^ 32" by (simp add: unsigned_ucast_eq take_bit_eq_mod)
    moreover have "RefusedAddress a = RefusedAddress (Addr4 (ucast x))"
      using Addr6 True by (simp add: RefusedAddress_def Unmap_def)
    ultimately show ?thesis using Addr6 True mapped by (simp add: refused4)
  next
    case False
    then show ?thesis using Addr6 mapped refused6 [OF False] by simp
  qed
qed

lemma zoned_unspecified_accepted: "\<not> RefusedAddress (Addr6 0 ''lo'')"
  by (simp add: RefusedAddress_blocks within_def private_blocks6_def)

section \<open>What the page stores\<close>

lemma renderNotifications_ends: "(\<And>r. R r d0) \<Longrightarrow> ends (\<lambda>d. d = d0) (renderNotifications si p clock hour st signals) R"
  unfolding renderNotifications_def by (intro ends_read) (simp_all add: Let_def ends_def)

lemma renderNotifications_any:
  assumes "\<And>r d. P d \<Longrightarrow> R r d"
  shows "ends P (renderNotifications si p clock hour st signals) R"
  by (rule ends_pointwise, rule renderNotifications_ends) (use assms in blast)

definition stored_devices :: "net \<Rightarrow> db \<Rightarrow> bool" where
  "stored_devices n d \<longleftrightarrow>
     distinct (map ps_Endpoint (t_push_subscription d))
     \<and> (\<forall>s \<in> set (t_push_subscription d).
          count_where (\<lambda>x. ps_UserID x = ps_UserID s) (t_push_subscription d) \<le> maxPushSubscriptions
          \<and> pushEndpointHost n (ps_Endpoint s) \<noteq> None \<and> isPushPoint n (ps_P256dhKey s)
          \<and> isPushKey (ps_AuthKey s) authLength)
     \<and> (\<forall>m \<in> set (t_membership d). 0 \<le> me_DigestHour m \<and> me_DigestHour m < 24)"

lemma count_where_Cons: "count_where p (x # xs) = (if p x then 1 else 0) + count_where p xs"
  by (simp add: count_where_def)

lemma count_where_Nil: "count_where p [] = 0"
  by (simp add: count_where_def)

lemma count_where_append: "count_where p (xs @ ys) = count_where p xs + count_where p ys"
  by (simp add: count_where_def)

lemma count_where_mono: "(\<And>x. x \<in> set xs \<Longrightarrow> p x \<Longrightarrow> q x) \<Longrightarrow> count_where p xs \<le> count_where q xs"
  by (induction xs) (auto simp: count_where_Cons count_where_Nil)

lemma count_key: "distinct (map k xs) \<Longrightarrow> count_where (\<lambda>x. k x = e) xs \<le> 1"
proof (induction xs)
  case (Cons x xs)
  then have "k x = e \<Longrightarrow> count_where (\<lambda>x. k x = e) xs = 0" unfolding count_where_def
    by (simp add: filter_empty_conv) (metis imageI)
  with Cons show ?case by (auto simp: count_where_Cons)
qed (simp add: count_where_Nil)

lemma count_update:
  assumes "\<And>x. p x \<Longrightarrow> u (f x) = v"
  shows "count_where (\<lambda>x. u x = v) (update_where p f xs) = count_where (\<lambda>x. u x = v \<and> \<not> p x) xs + count_where p xs"
    "w \<noteq> v \<Longrightarrow> count_where (\<lambda>x. u x = w) (update_where p f xs) \<le> count_where (\<lambda>x. u x = w) xs"
  using assms by (induction xs) (auto simp: count_where_Cons count_where_Nil)

lemma count_all: "(\<forall>s \<in> set xs. count_where (\<lambda>x. u x = u s) xs \<le> k) \<longleftrightarrow> (\<forall>v. count_where (\<lambda>x. u x = v) xs \<le> k)" if "0 \<le> k"
proof safe
  fix v
  assume a: "\<forall>s \<in> set xs. count_where (\<lambda>x. u x = u s) xs \<le> k"
  show "count_where (\<lambda>x. u x = v) xs \<le> k"
  proof (cases "\<exists>s \<in> set xs. u s = v")
    case False
    then have "filter (\<lambda>x. u x = v) xs = []" by (auto simp: filter_empty_conv)
    then show ?thesis using that by (simp add: count_where_def)
  qed (use a in blast)
qed auto

text \<open>A row upserted for an account with fewer than ten others.\<close>

lemma subscription_upserted:
  assumes ok: "stored_devices n d"
    and room: "CountOtherPushSubscriptions user endpoint d = Inr others" "others < maxPushSubscriptions"
    and up: "UpsertPushSubscription newID tnow user endpoint p256dh authKey agent d = Inr ((), d')"
    and keys: "pushEndpointHost n endpoint \<noteq> None" "isPushPoint n p256dh" "isPushKey authKey authLength"
  shows "stored_devices n d'"
proof -
  let ?subs = "t_push_subscription d"
  let ?same = "\<lambda>s :: push_subscription. ps_Endpoint s = endpoint"
  define subs' where "subs' = t_push_subscription d'"
  have counts: "count_where (\<lambda>x. ps_UserID x = v) ?subs \<le> 10" for v
    using ok count_all [of 10 ?subs ps_UserID] by (auto simp: stored_devices_def maxPushSubscriptions_def)
  have others: "count_where (\<lambda>s. ps_UserID s = user \<and> \<not> ?same s) ?subs < 10"
    using room by (simp add: CountOtherPushSubscriptions_def maxPushSubscriptions_def)
  have one: "count_where ?same ?subs \<le> 1" using ok count_key by (auto simp: stored_devices_def)
  have m: "t_membership d' = t_membership d" using up by (auto simp: UpsertPushSubscription_def split: if_splits)
  have "distinct (map ps_Endpoint subs') \<and> (\<forall>v. count_where (\<lambda>x. ps_UserID x = v) subs' \<le> 10)
      \<and> (\<forall>s \<in> set subs'. pushEndpointHost n (ps_Endpoint s) \<noteq> None \<and> isPushPoint n (ps_P256dhKey s)
           \<and> isPushKey (ps_AuthKey s) authLength)"
  proof (cases "list_ex ?same ?subs")
    case True
    define f where "f = (\<lambda>s :: push_subscription. s\<lparr>ps_UserID := user, ps_P256dhKey := p256dh, ps_AuthKey := authKey, ps_UserAgent := agent,
        ps_CreatedAt := (if ps_UserID s = user then ps_CreatedAt s else tnow),
        ps_LastSentAt := (if ps_UserID s = user then ps_LastSentAt s else None)\<rparr>)"
    have s': "subs' = update_where ?same f ?subs"
      using up True by (auto simp: UpsertPushSubscription_def subs'_def f_def split: if_splits)
    have "count_where (\<lambda>x. ps_UserID x = v) subs' \<le> 10" for v
      using count_update [where p = ?same and u = ps_UserID and f = f and v = user and xs = ?subs] others one counts [of v] unfolding s'
      by (cases "v = user") (force simp: f_def)+
    moreover have "map ps_Endpoint subs' = map ps_Endpoint ?subs" unfolding s' by (rule map_update_where) (simp add: f_def)
    ultimately show ?thesis using ok keys by (auto simp: stored_devices_def s' f_def)
  next
    case False
    then have s': "subs' = ?subs @ [\<lparr>ps_ID = newID, ps_UserID = user, ps_Endpoint = endpoint, ps_P256dhKey = p256dh,
        ps_AuthKey = authKey, ps_UserAgent = agent, ps_CreatedAt = tnow, ps_LastSentAt = None\<rparr>]"
      using up by (auto simp: UpsertPushSubscription_def subs'_def split: if_splits)
    have "count_where (\<lambda>x. ps_UserID x = user) ?subs \<le> count_where (\<lambda>s. ps_UserID s = user \<and> \<not> ?same s) ?subs"
      using False by (intro count_where_mono) (auto simp: list_ex_iff)
    then have "count_where (\<lambda>x. ps_UserID x = v) subs' \<le> 10" for v
      using others counts [of v] by (auto simp: s' count_where_append count_where_Cons count_where_Nil)
    then show ?thesis using ok keys False by (auto simp: stored_devices_def s' list_ex_iff)
  qed
  then show ?thesis
    using ok m count_all [of 10 subs' ps_UserID] by (auto simp: stored_devices_def maxPushSubscriptions_def subs'_def)
qed
lemma stored_devices_browsers:
  assumes "stored_devices n d" "t_membership d' = t_membership d"
    and "map ps_Endpoint (t_push_subscription d') = map ps_Endpoint (t_push_subscription d)"
    and "map ps_UserID (t_push_subscription d') = map ps_UserID (t_push_subscription d)"
    and "\<And>s. s \<in> set (t_push_subscription d') \<Longrightarrow> \<exists>t \<in> set (t_push_subscription d). ps_Endpoint t = ps_Endpoint s
       \<and> ps_P256dhKey t = ps_P256dhKey s \<and> ps_AuthKey t = ps_AuthKey s"
  shows "stored_devices n d'"
proof -
  have "count_where (\<lambda>x. ps_UserID x = v) (t_push_subscription d') = count_where (\<lambda>x. ps_UserID x = v) (t_push_subscription d)" for v
    using arg_cong [OF assms(4), of "\<lambda>us. length (filter (\<lambda>u. u = v) us)"] by (simp add: count_where_def filter_map comp_def)
  then show ?thesis
    using assms(1-3,5) count_all [of 10 "t_push_subscription d" ps_UserID] count_all [of 10 "t_push_subscription d'" ps_UserID]
    by (fastforce simp: stored_devices_def maxPushSubscriptions_def)
qed

lemma count_filter: "count_where p (filter q xs) \<le> count_where p xs"
  by (induction xs) (auto simp: count_where_def)

lemma delete_stored:
  assumes "stored_devices n d" "DeletePushSubscription user i d = Inr (k, d')"
  shows "stored_devices n d'"
proof -
  let ?p = "\<lambda>s. ps_UserID s = user \<and> ps_ID s = i"
  have d': "t_push_subscription d' = filter (\<lambda>s. \<not> ?p s) (t_push_subscription d)" "t_membership d' = t_membership d"
    using assms(2) by (auto simp: DeletePushSubscription_def Let_def delete_where_def)
  have "count_where (\<lambda>x. ps_UserID x = v) (t_push_subscription d) \<le> 10" for v
    using assms(1) count_all [of 10 "t_push_subscription d" ps_UserID] by (simp add: stored_devices_def maxPushSubscriptions_def)
  moreover have "count_where (\<lambda>x. ps_UserID x = v) (t_push_subscription d') \<le> count_where (\<lambda>x. ps_UserID x = v) (t_push_subscription d)" for v
    unfolding d' by (rule count_filter)
  ultimately have "count_where (\<lambda>x. ps_UserID x = v) (t_push_subscription d') \<le> 10" for v by (meson order_trans)
  moreover have "distinct (map ps_Endpoint (t_push_subscription d'))"
    using assms(1) unfolding d' stored_devices_def by (blast intro: distinct_map_filter)
  ultimately show ?thesis
    using assms(1) unfolding stored_devices_def d'(2) maxPushSubscriptions_def by (simp add: d'(1))
qed

lemma sent_stored:
  assumes "stored_devices n d" "SetPushSubscriptionSent at user i d = Inr ((), d')"
  shows "stored_devices n d'"
proof (rule stored_devices_browsers [OF assms(1)])
  fix s
  assume "s \<in> set (t_push_subscription d')"
  then obtain t where "t \<in> set (t_push_subscription d)" "s = (if ps_UserID t = user \<and> ps_ID t = i then t\<lparr>ps_LastSentAt := at\<rparr> else t)"
    using assms(2) by (auto simp: SetPushSubscriptionSent_def)
  then show "\<exists>t \<in> set (t_push_subscription d). ps_Endpoint t = ps_Endpoint s \<and> ps_P256dhKey t = ps_P256dhKey s \<and> ps_AuthKey t = ps_AuthKey s"
    by (intro bexI [of _ t]) simp_all
qed (use assms(2) in \<open>auto simp: SetPushSubscriptionSent_def map_update_where\<close>)

lemma sendOne_stored:
  assumes "sendOne sub msg now pw = (r, pw')" "stored_devices n (pw_tables pw)"
  shows "stored_devices n (pw_tables pw')"
proof -
  obtain a pw1 where s: "Send sub msg pw = (a, pw1)" by fastforce
  have 1: "stored_devices n (pw_tables pw1)" using Send_tables [of sub msg pw] s assms(2) by simp
  have w: "stored_devices n (pw_tables pw2)"
    if "writes_db q pw1 = (x, pw2)" "\<And>d y d'. stored_devices n d \<Longrightarrow> q d = Inr (y, d') \<Longrightarrow> stored_devices n d'"
    for q :: "db \<Rightarrow> db_error + 'x \<times> db" and x pw2
    by (rule writes_db_cases [OF that(1)]) (use that(2) 1 in auto)
  obtain x pw2 where sent: "writes_db (SetPushSubscriptionSent (Some now) (ps_UserID sub) (ps_ID sub)) pw1 = (x, pw2)" by fastforce
  obtain y pw3 where gone: "writes_db (DeletePushSubscription (ps_UserID sub) (ps_ID sub)) pw1 = (y, pw3)" by fastforce
  have "stored_devices n (pw_tables pw2)" by (rule w [OF sent]) (auto intro: sent_stored)
  moreover have "stored_devices n (pw_tables pw3)" by (rule w [OF gone]) (auto intro: delete_stored)
  moreover have "pw' \<in> {pw1, pw2, pw3}"
    using assms(1) s sent gone by (cases a; cases "the a"; cases x; cases y) (simp_all add: sendOne_def)
  ultimately show ?thesis using 1 by auto
qed

text \<open>A request to the page, with the resolver's answers while it runs, and a day of requests.\<close>

datatype devices_request =
    Show_devices string bool
  | Save_devices "string \<Rightarrow> bool" form bool
  | Subscribe "string \<Rightarrow> looked_up" form string bool uuid gotime
  | Test bool string form bool response
  | Remove_browser string bool

fun handle_devices :: "site \<Rightarrow> net \<Rightarrow> principal \<Rightarrow> gotime \<Rightarrow> devices_request \<Rightarrow> world \<Rightarrow> devices_told \<times> world" where
  "handle_devices si n p clock (Show_devices result saved) w = show_notifications si p clock result saved w"
| "handle_devices si n p clock (Save_devices has get htmx) w = saveNotifications si p has get htmx clock w"
| "handle_devices si n p clock (Subscribe lookup get agent htmx newID tnow) w =
     subscribeBrowser si (n\<lparr>nt_lookup := lookup\<rparr>) p get agent htmx newID tnow clock w"
| "handle_devices si n p clock (Test on baseURL get htmx resp) w =
     (case sendTestNotification si on baseURL p get htmx clock resp w of ((r, sent), w) \<Rightarrow> (r, w))"
| "handle_devices si n p clock (Remove_browser path htmx) w = removeBrowser si p path htmx clock w"

fun run_devices :: "site \<Rightarrow> net \<Rightarrow> (principal \<times> gotime \<times> devices_request) list \<Rightarrow> world \<Rightarrow> world" where
  "run_devices si n [] w = w"
| "run_devices si n ((p, clock, r) # rs) w = run_devices si n rs (snd (handle_devices si n p clock r w))"

abbreviation keeps_devices :: "net \<Rightarrow> (world \<Rightarrow> 'r \<times> world) \<Rightarrow> bool" where
  "keeps_devices n h \<equiv> ends (stored_devices n) h (\<lambda>_. stored_devices n)"

lemma hour_in_day: "offeredHour posted = Some h \<Longrightarrow> 0 \<le> h \<and> h < 24"
  by (auto simp: offeredHour_def hours_def find_Some_iff nth_map)

lemma saveNotifications_keeps:
  assumes "0 \<le> me_DigestHour (pr_Membership p)" "me_DigestHour (pr_Membership p) < 24"
  shows "keeps_devices n (saveNotifications si p has get htmx clock)"
proof -
  have hour: "0 \<le> h \<and> h < 24" if "(if has ''hour'' then offeredHour (get ''hour'') else Some (me_DigestHour (pr_Membership p))) = Some h" for h
    using that assms hour_in_day by (auto split: if_splits)
  have pref: "triple (stored_devices n) (writing (SetNotificationPreference m k e)) (\<lambda>_. stored_devices n) (\<lambda>_ _. True)" for m k e
    by (intro triple_writing) (auto simp: SetNotificationPreference_def Let_def stored_devices_def split: if_splits)
  have digest: "triple (stored_devices n) (writing (SetDigestHour h g u)) (\<lambda>_. stored_devices n) (\<lambda>_ _. True)"
    if "0 \<le> h \<and> h < 24" for h g u
    by (intro triple_writing) (use that in \<open>auto simp: SetDigestHour_def stored_devices_def\<close>)
  have "triple (stored_devices n) (settings_stored p a b h) (\<lambda>_. stored_devices n) (\<lambda>_. stored_devices n)"
    if "0 \<le> h \<and> h < 24" for a b h
    unfolding settings_stored_def
    by (rule triple_InTx [where F = "\<lambda>_. True"], rule triple_and_then [OF triple_each]) (use pref digest [OF that] in auto)
  then show ?thesis
    unfolding saveNotifications_def
    by (intro ends_branches(1,2) ends_answer ends_answering renderNotifications_any) (use hour in auto)
qed

lemma subscription_stored_result:
  "triple (\<lambda>d. d = d0) (subscription_stored newID tnow user endpoint p256dh authKey agent)
     (\<lambda>full d. d = d0 \<or> (\<exists>others. CountOtherPushSubscriptions user endpoint d0 = Inr others \<and> others < maxPushSubscriptions
        \<and> UpsertPushSubscription newID tnow user endpoint p256dh authKey agent d0 = Inr ((), d)))
     (\<lambda>_ d. d = d0)"
  (is "triple _ _ ?Q _")
proof -
  let ?up = "UpsertPushSubscription newID tnow user endpoint p256dh authKey agent"
  have up: "triple (\<lambda>d. d = d0 \<and> CountOtherPushSubscriptions user endpoint d = Inr others)
      (if maxPushSubscriptions \<le> others then return True else and_then (writing ?up) (\<lambda>_. return False)) ?Q (\<lambda>_ _. True)" for others
  proof (intro triple_branches(1) triple_return triple_and_then [where Q = "\<lambda>_. ?Q False"] triple_writing)
  qed auto
  have count: "triple (\<lambda>d. d = d0) (reading (CountOtherPushSubscriptions user endpoint))
      (\<lambda>others d. d = d0 \<and> CountOtherPushSubscriptions user endpoint d = Inr others) (\<lambda>_ _. True)"
    by (intro triple_reading) auto
  have lock: "triple (\<lambda>d. d = d0) (reading (LockUser user)) (\<lambda>_ d. d = d0) (\<lambda>_ _. True)"
    by (intro triple_reading) auto
  show ?thesis
    unfolding subscription_stored_def
    by (rule triple_InTx [where F = "\<lambda>_. True"], rule triple_and_then [OF lock], rule triple_and_then [OF count up]) auto
qed

lemma subscribeBrowser_keeps: "keeps_devices n (subscribeBrowser si (n\<lparr>nt_lookup := lookup\<rparr>) p get agent htmx newID tnow clock)"
proof -
  let ?n = "n\<lparr>nt_lookup := lookup\<rparr>"
  have same: "pushEndpointHost ?n = pushEndpointHost n" "isPushPoint ?n = isPushPoint n"
    by (auto simp: pushEndpointHost_def isPushPoint_def fun_eq_iff split: option.split)
  have "triple (stored_devices n) (subscription_stored newID tnow user endpoint p256dh authKey a) (\<lambda>_. stored_devices n) (\<lambda>_. stored_devices n)"
    if "pushEndpointHost n endpoint \<noteq> None" "isPushPoint n p256dh" "isPushKey authKey authLength" for user endpoint p256dh authKey a
    by (rule triple_pointwise, rule triple_mono [OF subscription_stored_result]) (auto intro: subscription_upserted [OF _ _ _ _ that])
  then show ?thesis
    unfolding subscribeBrowser_def Let_def same
    by (intro ends_branches(1,2) ends_answer ends_answering renderNotifications_any) auto
qed

lemma removeBrowser_keeps: "keeps_devices n (removeBrowser si p path htmx clock)"
  unfolding removeBrowser_def
  by (intro ends_branches(1,2) ends_answer ends_answering [where Q = "\<lambda>_. stored_devices n" and E = "\<lambda>_. stored_devices n"]
      triple_writing renderNotifications_any) (auto intro: delete_stored)

lemma sendTestNotification_keeps: "keeps_devices n (sendTestNotification si on baseURL p get htmx clock resp)"
proof -
  have test: "stored_devices n (tables w')" if "test_to baseURL sub clock resp w = (x, w')" "stored_devices n (tables w)" for sub w x w'
    using that sendOne_stored [where n = n] by (auto simp: test_to_def send_test_def split: prod.splits)
  have render: "stored_devices n (tables w')"
    if "renderNotifications si p clock h st [] w = (r, w')" "stored_devices n (tables w)" for h st w r w'
    using endsD [where R = "\<lambda>_. stored_devices n", OF renderNotifications_any [where P = "stored_devices n"]] that by blast
  have "ends (stored_devices n) (answering (optional (reading q)) failed (\<lambda>found w.
      (case (case found of None \<Rightarrow> ((testNone, []), w) | Some sub \<Rightarrow> test_to baseURL sub clock resp w) of
         ((result, sent), w) \<Rightarrow>
           if htmx then
             (case renderNotifications si p clock h (plain_state\<lparr>nx_testResult := testResultLines result\<rparr>) [] w of (r, w) \<Rightarrow> ((r, sent), w))
           else (((Redirect (notificationsPath @ ''?'' @ testResultParam @ ''='' @ result), []), sent), w))))
      (\<lambda>_. stored_devices n)" for q failed h
    by (rule ends_answering, rule triple_optional, rule triple_reading [where Q = "\<lambda>_. stored_devices n"])
       (auto simp: ends_def split: prod.splits option.splits intro: render test dest: test render)
  then show ?thesis unfolding sendTestNotification_def by (intro ends_branches(1) ends_answer)
qed

lemma handle_devices_keeps:
  assumes "0 \<le> me_DigestHour (pr_Membership p) \<and> me_DigestHour (pr_Membership p) < 24"
  shows "keeps_devices n (handle_devices si n p clock r)"
proof (cases r)
  case (Show_devices result saved)
  have "handle_devices si n p clock r = show_notifications si p clock result saved" using Show_devices by (simp add: fun_eq_iff)
  then show ?thesis by (simp add: show_notifications_def) (rule renderNotifications_any)
next
  case (Save_devices has get htmx)
  have "handle_devices si n p clock r = saveNotifications si p has get htmx clock" using Save_devices by (simp add: fun_eq_iff)
  then show ?thesis using saveNotifications_keeps assms by simp
next
  case (Subscribe lookup get agent htmx newID tnow)
  have "handle_devices si n p clock r = subscribeBrowser si (n\<lparr>nt_lookup := lookup\<rparr>) p get agent htmx newID tnow clock"
    using Subscribe by (simp add: fun_eq_iff)
  then show ?thesis using subscribeBrowser_keeps by simp
next
  case (Test on baseURL get htmx resp)
  then show ?thesis
    using sendTestNotification_keeps [where n = n and si = si and on = on and baseURL = baseURL and p = p and get = get
        and htmx = htmx and clock = clock and resp = resp]
    by (auto simp: ends_def split: prod.splits)
next
  case (Remove_browser path htmx)
  have "handle_devices si n p clock r = removeBrowser si p path htmx clock" using Remove_browser by (simp add: fun_eq_iff)
  then show ?thesis using removeBrowser_keeps by simp
qed

text \<open>
  (C7) Whatever is posted to the Notifications page, by anyone and in any order, whatever the
  resolver and the push service answer and whatever database calls fail: every stored subscription
  has an https endpoint no other has, a point of P-256 and a secret of sixteen bytes, no account has
  more than ten, and every digest hour is an hour of the day.
\<close>

theorem devices_wellformed:
  assumes "stored_devices n (tables w)"
    and "list_all (\<lambda>(p, clock, r). 0 \<le> me_DigestHour (pr_Membership p) \<and> me_DigestHour (pr_Membership p) < 24) rs"
  shows "stored_devices n (tables (run_devices si n rs w))"
  using assms
proof (induction rs arbitrary: w)
  case (Cons x rs)
  obtain p clock r where x: "x = (p, clock, r)" by (rule prod_cases3)
  have hour: "0 \<le> me_DigestHour (pr_Membership p) \<and> me_DigestHour (pr_Membership p) < 24" using Cons.prems(2) x by simp
  obtain r1 w1 where h: "handle_devices si n p clock r w = (r1, w1)" by fastforce
  have "stored_devices n (tables w1)" by (rule endsD [OF handle_devices_keeps [OF hour] Cons.prems(1) h])
  then show ?case using Cons x h by simp
qed simp

text \<open>An account that subscribes one browser.\<close>

definition ex_net :: net where
  "ex_net = \<lparr>nt_ParseURL = (\<lambda>_. Some (''https'', ''push.example'')), nt_ParseAddr = (\<lambda>_. None),
     nt_lookup = (\<lambda>_. Addresses [Addr4 0x08080808]), nt_on_curve = (\<lambda>_. True)\<rparr>"

theorem devices_wellformed_witness:
  "stored_devices ex_net (tables (run_devices (ex_site\<lparr>si_pushKey := ''k''\<rparr>) ex_net
     [(zero_Principal\<lparr>pr_User := ex_user, pr_Membership := ex_membership\<rparr>, zero_time,
       Subscribe (nt_lookup ex_net) (\<lambda>_. ''AAAAAAAAAAAAAAAAAAAAAA'') '''' False ''s1'' zero_time)] ex_request))"
  by (rule devices_wellformed) (simp_all add: stored_devices_def ex_defs)

definition browser_subscribed :: "net \<Rightarrow> principal \<Rightarrow> form \<Rightarrow> string \<Rightarrow> uuid \<Rightarrow> gotime \<Rightarrow> db \<Rightarrow> db \<Rightarrow> bool" where
  "browser_subscribed n p get agent newID tnow d d' \<longleftrightarrow>
     (case pushEndpointHost n (get ''endpoint'') of
        None \<Rightarrow> False
      | Some host \<Rightarrow>
          (case addressesOf n host of
             Addresses addrs \<Rightarrow> addrs \<noteq> [] \<and> list_all (\<lambda>a. \<not> RefusedAddress a) addrs
           | _ \<Rightarrow> False))
     \<and> count_where (\<lambda>s. ps_UserID s = us_ID (pr_User p) \<and> ps_Endpoint s \<noteq> get ''endpoint'') (t_push_subscription d) < maxPushSubscriptions
     \<and> UpsertPushSubscription newID tnow (us_ID (pr_User p)) (get ''endpoint'') (get ''p256dh'') (get ''auth'') (userAgentOf agent) d
         = Inr ((), d')"

text \<open>
  (C28) Only a browser behind a public address is subscribed: when a post to subscribe changes the
  tables, its endpoint's host resolved to at least one address and none is refused, and the change
  is the upsert of that endpoint for the reader with room under the cap.
\<close>

theorem subscribeBrowser_public:
  "case subscribeBrowser si n p get agent htmx newID tnow clock w of (r, w') \<Rightarrow>
     tables w' = tables w \<or> browser_subscribed n p get agent newID tnow (tables w) (tables w')"
proof -
  let ?S = "browser_subscribed n p get agent newID tnow (tables w)"
  let ?R = "\<lambda>r d. d = tables w \<or> ?S d"
  have stored: "triple (\<lambda>d. d = tables w) (subscription_stored newID tnow (us_ID (pr_User p)) (get ''endpoint'') (get ''p256dh'')
      (get ''auth'') (userAgentOf agent)) ?R (\<lambda>_ d. d = tables w)"
    if "pushEndpointHost n (get ''endpoint'') = Some host" "publicHost n host = Some True" for host
  proof (rule triple_mono [OF subscription_stored_result])
    have "\<exists>addrs. addressesOf n host = Addresses addrs \<and> addrs \<noteq> [] \<and> list_all (\<lambda>a. \<not> RefusedAddress a) addrs"
      using that(2) by (auto simp: publicHost_def list_all_iff list_ex_iff split: looked_up.splits if_splits)
    then show "?R full d" if "d = tables w \<or> (\<exists>others. CountOtherPushSubscriptions (us_ID (pr_User p)) (get ''endpoint'') (tables w) = Inr others
        \<and> others < maxPushSubscriptions \<and> UpsertPushSubscription newID tnow (us_ID (pr_User p)) (get ''endpoint'') (get ''p256dh'')
            (get ''auth'') (userAgentOf agent) (tables w) = Inr ((), d))" for full d
      using that \<open>pushEndpointHost n (get ''endpoint'') = Some host\<close> by (auto simp: browser_subscribed_def CountOtherPushSubscriptions_def)
  qed simp_all
  have "ends (\<lambda>d. d = tables w) (subscribeBrowser si n p get agent htmx newID tnow clock) ?R"
    unfolding subscribeBrowser_def Let_def
    by (intro ends_branches(1,2) ends_answer ends_answering [OF stored] renderNotifications_any) auto
  then show ?thesis by (rule ends_run)
qed


end
