(* ===== verification/Http_Today.thy ===== *)
theory Http_Today
  imports Http_Notifications
begin

text \<open>
  Today (\<open>today.go\<close>): the day as it is loaded, the rows of its sections, the heading and the feed;
  the sheet of Remind me later and its three handlers (\<open>remind_later.go\<close>), the garden sheet
  (\<open>gardens.go\<close>) and the Reminders page of the setup (\<open>reminders.go\<close>).  The sentences rendered from a
  template are left out.
\<close>

definition plantsPath :: string where "plantsPath = ''/plants''"
definition newPlantPath :: string where "newPlantPath = plantsPath @ ''/new''"
definition calendarPath :: string where "calendarPath = ''/activity/calendar''"
definition gardensPath :: string where "gardensPath = ''/gardens''"

definition undoFormPath :: "uuid \<Rightarrow> uuid \<Rightarrow> string" where
  "undoFormPath plant event = logPath plant @ ''/'' @ event @ ''/undo''"

definition sheetPath :: "uuid \<Rightarrow> string \<Rightarrow> string" where
  "sheetPath plant slug = logPath plant @ ''?row='' @ QueryEscape slug"

section \<open>Loading the day\<close>

record today_bar =
  tb_owner :: string
  tb_gardens :: "garden_row list"

definition loadBar :: "site \<Rightarrow> principal \<Rightarrow> gotime \<Rightarrow> (db_error, today_bar) call" where
  "loadBar si p clock =
     and_then (liveGardens (us_ID (pr_User p)) clock) (\<lambda>held.
       return \<lparr>tb_owner = foldl (\<lambda>owner (m, g, ownerName, readerOwns).
                  if ga_ID g = ga_ID (pr_Garden p) \<and> \<not> readerOwns then ownerWord ownerName readerOwns else owner) '''' held,
         tb_gardens = gardenRows si p held\<rparr>)"

definition graceWindow :: int where "graceWindow = 4 * sec_ns"
definition undoWindow :: int where "undoWindow = 30 * sec_ns"

record day_cares =
  dc_overdue :: "line list"
  dc_dueToday :: "line list"
  dc_comingUp :: "line list"

record remind_later_facts =
  rf_hasBrowser :: bool
  rf_digestOn :: bool
  rf_digestSent :: bool

record reminders_offer =
  ro_Key :: string
  ro_Subscribe :: string

record garden_day =
  gd_lines :: "line list"
  gd_day :: day
  gd_cares :: day_cares
  gd_latest :: "care_event list"
  gd_recent :: "event_row list"
  gd_plants :: int
  gd_now :: gotime
  gd_bar :: today_bar
  gd_reminders :: "reminders_offer option"
  gd_remindLater :: "remind_later_facts option"

text \<open>One turn of the loop of \<open>caresOf\<close>.\<close>

definition add_care :: "day_cares \<Rightarrow> line \<Rightarrow> day_cares" where
  "add_care cares line =
     (if ln_State line = Overdue then cares\<lparr>dc_overdue := dc_overdue cares @ [line]\<rparr>
      else if ln_State line = DueToday then cares\<lparr>dc_dueToday := dc_dueToday cares @ [line]\<rparr>
      else if ComingUp line then cares\<lparr>dc_comingUp := dc_comingUp cares @ [line]\<rparr>
      else cares)"

definition caresOf :: "(string \<Rightarrow> string) \<Rightarrow> day \<Rightarrow> day_cares" where
  "caresOf lower d =
     (let cares = foldl add_care \<lparr>dc_overdue = [], dc_dueToday = [], dc_comingUp = []\<rparr>
            (concat (map rw_Lines (dy_Overdue d @ dy_DueToday d @ dy_ComingUp d)))
      in \<lparr>dc_overdue = SortStableFunc (CompareDue lower) (dc_overdue cares),
          dc_dueToday = SortStableFunc (CompareDue lower) (dc_dueToday cares),
          dc_comingUp = SortStableFunc (CompareDue lower) (dc_comingUp cares)\<rparr>)"

definition listed :: "day_cares \<Rightarrow> uuid \<Rightarrow> string \<Rightarrow> bool" where
  "listed c plant slug =
     list_ex (\<lambda>l. pl_ID (ln_Plant l) = plant \<and> ct_Slug (ln_CareType l) = slug) (dc_overdue c @ dc_dueToday c @ dc_comingUp c)"

text \<open>The notification settings \<open>load\<close> reads with push on.\<close>

definition load_push ::
  "site \<Rightarrow> principal \<Rightarrow> gotime \<Rightarrow> (db_error, reminders_offer option \<times> remind_later_facts option) call" where
  "load_push si p now =
     (if si_pushKey si = '''' then return (None, None)
      else
        and_then (reading (ListNotificationPreferences (me_ID (pr_Membership p)))) (\<lambda>preferences.
        and_then (reading (GetRemindLaterState (us_ID (pr_User p)) (ga_ID (pr_Garden p)) (me_ID (pr_Membership p)) (Format_dateKey now)))
          (\<lambda>(hasBrowser, digestSent).
        return (if anyNotificationOn preferences then Some \<lparr>ro_Key = si_pushKey si, ro_Subscribe = subscribePath\<rparr> else None,
          Some \<lparr>rf_hasBrowser = hasBrowser, rf_digestOn = notificationOn preferences digestKind, rf_digestSent = digestSent\<rparr>))))"

text \<open>\<open>load\<close>; a panic of \<open>Resolve\<close> ends the request like a failure.\<close>

definition load_garden_day :: "site \<Rightarrow> principal \<Rightarrow> gotime \<Rightarrow> (db_error, garden_day) call" where
  "load_garden_day si p clock =
     (let now = In_loc clock (locationFor si (pr_User p)); garden = ga_ID (pr_Garden p) in
      and_then (loadBar si p clock) (\<lambda>bar.
      and_then (reading (ListCareSchedules (si_collate si) garden)) (\<lambda>schedules.
      and_then (reading (ListLatestCareEvents garden)) (\<lambda>latest.
      and_then (reading (ListRecentCareEvents garden feedLength)) (\<lambda>recent.
      and_then (reading (CountPlants garden)) (\<lambda>plants.
      and_then (load_push si p now) (\<lambda>(reminders, facts).
      case Resolve schedules latest now of
        None \<Rightarrow> fail Failure
      | Some lines \<Rightarrow>
          (let day = Today (si_lower si) lines in
           return \<lparr>gd_lines = lines, gd_day = day, gd_cares = caresOf (si_lower si) day, gd_latest = latest, gd_recent = recent,
             gd_plants = plants, gd_now = now, gd_bar = bar, gd_reminders = reminders, gd_remindLater = facts\<rparr>))))))))"

definition windows :: "garden_day \<Rightarrow> bool" where
  "windows g = list_ex (\<lambda>e. Sub (gd_now g) (ce_RecordedAt (er_CareEvent e)) < graceWindow) (gd_recent g)"

section \<open>remind_later.go\<close>

definition remindLaterPath :: string where "remindLaterPath = ''/remind-later''"
definition removeReminderPath :: string where "removeReminderPath = remindLaterPath @ ''/remove''"
definition remindLaterID :: string where "remindLaterID = ''remind-later''"
definition remindLead :: int where "remindLead = 5 * minute_ns"
definition whenField :: string where "whenField = ''when''"
definition whenTime :: string where "whenTime = ''time''"
definition timeField :: string where "timeField = ''time''"
definition rescheduleField :: string where "rescheduleField = ''reschedule''"

record remind_delay =
  rd_value :: string
  rd_label :: string
  rd_duration :: int

definition remindDelays :: "remind_delay list" where
  "remindDelays = [\<lparr>rd_value = ''1h'', rd_label = ''In 1 hour'', rd_duration = hour_ns\<rparr>,
     \<lparr>rd_value = ''2h'', rd_label = ''In 2 hours'', rd_duration = 2 * hour_ns\<rparr>]"

definition reminderSent :: string where "reminderSent = ''That reminder has already been sent.''"
definition reminderWaiting :: string where "reminderWaiting = ''You already have a reminder. Reschedule it or remove it.''"
definition timeMissing :: string where "timeMissing = ''Enter a time.''"
definition timePassed :: string where "timePassed = ''That time has already passed.''"
definition timeTomorrow :: string where "timeTomorrow = ''Choose a time before midnight.''"

definition sameDate :: "gotime \<Rightarrow> gotime \<Rightarrow> bool" where
  "sameDate a b \<longleftrightarrow> Date_of (In_loc a (tloc b)) = Date_of b"

record remind_later =
  rl_now :: gotime
  rl_waiting :: "gotime option"

definition remindLaterState :: "garden_day \<Rightarrow> gotime option \<Rightarrow> remind_later option" where
  "remindLaterState g at =
     (case gd_remindLater g of
        None \<Rightarrow> None
      | Some facts \<Rightarrow>
          if \<not> rf_hasBrowser facts \<or> length (dy_Overdue (gd_day g)) + length (dy_DueToday (gd_day g)) = 0 then None
          else if (case at of None \<Rightarrow> False | Some t \<Rightarrow> After t (gd_now g)) then Some \<lparr>rl_now = gd_now g, rl_waiting = at\<rparr>
          else if rf_digestOn facts \<and> \<not> rf_digestSent facts then None
          else if \<not> sameDate (Add (gd_now g) remindLead) (gd_now g) then None
          else Some \<lparr>rl_now = gd_now g, rl_waiting = None\<rparr>)"

record remind_later_link =
  rk_ID :: string
  rk_Href :: string
  rk_At :: string

definition reminder_link :: "remind_later \<Rightarrow> remind_later_link" where
  "reminder_link s =
     \<lparr>rk_ID = remindLaterID, rk_Href = remindLaterPath,
      rk_At = (case rl_waiting s of None \<Rightarrow> '''' | Some t \<Rightarrow> clockWord t (rl_now s))\<rparr>"

record remind_later_sheet =
  rs_Path :: string
  rs_Target :: string
  rs_Set :: string
  rs_Remove :: string
  rs_Whens :: "chip list"
  rs_Time :: string
  rs_Error :: string

definition reminder_sheet :: "remind_later \<Rightarrow> remind_later_sheet" where
  "reminder_sheet s =
     (let whens = map (\<lambda>d. mk_chip (rd_value d) (rd_label d))
            (filter (\<lambda>d. sameDate (Add (rl_now s) (rd_duration d)) (rl_now s)) remindDelays) @ [mk_chip whenTime ''At a time''];
          chosen = (case rl_waiting s of None \<Rightarrow> 0 | Some _ \<Rightarrow> length whens - 1)
      in \<lparr>rs_Path = remindLaterPath, rs_Target = remindLaterID,
          rs_Set = (case rl_waiting s of None \<Rightarrow> '''' | Some t \<Rightarrow> clockWord t (rl_now s)),
          rs_Remove = (case rl_waiting s of None \<Rightarrow> '''' | Some _ \<Rightarrow> removeReminderPath),
          rs_Whens = whens[chosen := (whens ! chosen)\<lparr>ch_On := True\<rparr>],
          rs_Time = (case rl_waiting s of
             None \<Rightarrow> Format_clock24 (Add (rl_now s) remindLead) | Some t \<Rightarrow> Format_clock24 (In_loc t (tloc (rl_now s)))),
          rs_Error = ''''\<rparr>)"

definition choose_when :: "string \<Rightarrow> remind_later_sheet \<Rightarrow> remind_later_sheet" where
  "choose_when asked s = s\<lparr>rs_Whens := map (\<lambda>c. c\<lparr>ch_On := (ch_Value c = asked)\<rparr>) (rs_Whens s)\<rparr>"

text \<open>A refused time is shown on the sheet; a delay that is not offered is a bad request.\<close>

datatype remind_error = Remind_refused string | ErrWhenNotOffered

definition Truncate_minute :: "gotime \<Rightarrow> gotime" where
  "Truncate_minute t = t\<lparr>nsec := nsec t - nsec t mod minute_ns\<rparr>"

definition reminderAt :: "string \<Rightarrow> string \<Rightarrow> gotime \<Rightarrow> remind_error + gotime" where
  "reminderAt asked clock now =
     (if asked = whenTime then
        (case Parse_clock clock of
           None \<Rightarrow> Inl (Remind_refused timeMissing)
         | Some (h, m) \<Rightarrow>
             (let at = mk_Date (Year now) (Month now) (Day_of now) (int h) (int m) 0 0 (tloc now) in
              if Before at (Truncate_minute now) then Inl (Remind_refused timePassed) else Inr at))
      else
        (case find (\<lambda>d. rd_value d = asked) remindDelays of
           None \<Rightarrow> Inl ErrWhenNotOffered
         | Some d \<Rightarrow>
             (let at = Add now (rd_duration d) in
              if \<not> sameDate at now then Inl (Remind_refused timeTomorrow) else Inr at)))"

section \<open>The page\<close>

record care_row =
  cw_ID :: string
  cw_Href :: string
  cw_Path :: string
  cw_Name :: string
  cw_Botanical :: bool
  cw_Room :: string
  cw_Picture :: string
  cw_Late :: string
  cw_When :: string
  cw_Care :: string
  cw_Slug :: string
  cw_Icon :: string

definition newCareRow :: "line \<Rightarrow> gotime \<Rightarrow> care_row" where
  "newCareRow line now =
     (let plant = ln_Plant line; ct = ln_CareType line
      in \<lparr>cw_ID = careRowID plant ct, cw_Href = sheetPath (pl_ID plant) (ct_Slug ct), cw_Path = logPath (pl_ID plant),
          cw_Name = DisplayName plant, cw_Botanical = BotanicalOnly plant,
          cw_Room = (case pl_Location plant of None \<Rightarrow> '''' | Some r \<Rightarrow> r), cw_Picture = squarePicturePath plant,
          cw_Late = (if ln_State line = Overdue then overdueWord line now else ''''),
          cw_When = (if ln_State line = Upcoming then comingWord line now else ''''),
          cw_Care = ct_Name ct, cw_Slug = ct_Slug ct, cw_Icon = ct_Icon ct\<rparr>)"

definition careRows :: "line list \<Rightarrow> gotime \<Rightarrow> care_row list" where
  "careRows lines now = map (\<lambda>line. newCareRow line now) lines"

record link =
  lk_Label :: string
  lk_Href :: string

record today_empty =
  te_Title :: string
  te_Line :: string
  te_Done :: bool
  te_Action :: "link option"

record today_summary =
  ts_Outstanding :: nat
  ts_Overdue :: nat

record today_head =
  th_Summary :: "today_summary option"
  th_Clear :: bool
  th_Empty :: "today_empty option"
  th_OOB :: bool

record today_section =
  sc_ID :: string
  sc_Title :: string
  sc_Alert :: bool
  sc_Rows :: "care_row list"
  sc_RemindLater :: "remind_later_link option"
  sc_Calendar :: string

record feed_line =
  fl_Who :: string
  fl_Did :: string
  fl_Plant :: string
  fl_When :: string
  fl_Undo :: string

record today_feed =
  tf_Lines :: "feed_line list"
  tf_OOB :: bool

record today_page =
  ty_Date :: string
  ty_Garden :: string
  ty_Owner :: string
  ty_Gardens :: "garden_row list"
  ty_Switch :: string
  ty_GardenSheet :: bool
  ty_RemindLaterSheet :: "remind_later_sheet option"
  ty_Reminders :: "reminders_offer option"
  ty_Head :: today_head
  ty_Sections :: "today_section list"
  ty_Feed :: today_feed
  ty_OOB :: bool

text \<open>Whether the latest care of any schedule was given on the reader's day.\<close>

definition caredForOn :: "care_event list \<Rightarrow> gotime \<Rightarrow> bool" where
  "caredForOn events now = list_ex (\<lambda>e. Date_of (In_loc (ce_PerformedAt e) (tloc now)) = Date_of now) events"

definition newTodayEmpty :: "principal \<Rightarrow> garden_day \<Rightarrow> today_empty" where
  "newTodayEmpty p g =
     (if gd_plants g = 0 then
        \<lparr>te_Title = ''No plants yet'', te_Line = ''Add a plant to see its tasks here.'', te_Done = False,
         te_Action = (if Can p ''plant.create'' then Some \<lparr>lk_Label = ''Add plant'', lk_Href = newPlantPath\<rparr> else None)\<rparr>
      else
        (let finished = caredForOn (gd_latest g) (gd_now g);
             empty = \<lparr>te_Title = (if finished then ''All done for today'' else ''Nothing due today''),
               te_Line = (if finished then ''Nothing else is due.'' else ''''), te_Done = finished, te_Action = None\<rparr>
         in if dc_comingUp (gd_cares g) \<noteq> [] then empty
            else empty\<lparr>te_Line := (case nextLine (dy_Next (gd_day g)) (gd_now g) of None \<Rightarrow> te_Line empty | Some l \<Rightarrow> l),
                   te_Action := Some \<lparr>lk_Label = ''See all plants'', lk_Href = plantsPath\<rparr>\<rparr>))"

definition newTodayHead :: "principal \<Rightarrow> garden_day \<Rightarrow> today_head" where
  "newTodayHead p g =
     (let outstanding = length (dc_overdue (gd_cares g)) + length (dc_dueToday (gd_cares g)) in
      if 0 < outstanding
      then \<lparr>th_Summary = Some \<lparr>ts_Outstanding = outstanding, ts_Overdue = length (dc_overdue (gd_cares g))\<rparr>, th_Clear = False,
             th_Empty = None, th_OOB = False\<rparr>
      else \<lparr>th_Summary = None, th_Clear = False, th_Empty = Some (newTodayEmpty p g), th_OOB = False\<rparr>)"

definition swapHead :: "principal \<Rightarrow> garden_day \<Rightarrow> today_head" where
  "swapHead p g =
     (let head = newTodayHead p g;
          head = (if th_Empty head \<noteq> None \<and> windows g
            then \<lparr>th_Summary = None, th_Clear = True, th_Empty = None, th_OOB = False\<rparr> else head)
      in head\<lparr>th_OOB := True\<rparr>)"

definition mayUndo :: "principal \<Rightarrow> care_event \<Rightarrow> gotime \<Rightarrow> bool" where
  "mayUndo p e now =
     (if ce_PerformedBy e \<noteq> us_ID (pr_User p) \<or> undoWindow \<le> Sub now (ce_RecordedAt e) then False
      else Can p ''care.delete_own'' \<or> Can p ''care.delete_any'')"

definition newFeedLine :: "(string \<Rightarrow> string) \<Rightarrow> principal \<Rightarrow> event_row \<Rightarrow> gotime \<Rightarrow> feed_line" where
  "newFeedLine lower p e now =
     (case whoDid lower p (er_PerformedByName e) (er_CareEvent e) (er_CareType e) of
        (who, did) \<Rightarrow>
          \<lparr>fl_Who = who, fl_Did = did, fl_Plant = DisplayName (er_Plant e), fl_When = feedWhen (ce_PerformedAt (er_CareEvent e)) now,
           fl_Undo = (if mayUndo p (er_CareEvent e) now
             then undoFormPath (ce_PlantID (er_CareEvent e)) (ce_ID (er_CareEvent e)) else '''')\<rparr>)"

definition newTodayFeed :: "(string \<Rightarrow> string) \<Rightarrow> principal \<Rightarrow> garden_day \<Rightarrow> today_feed" where
  "newTodayFeed lower p g = \<lparr>tf_Lines = map (\<lambda>e. newFeedLine lower p e (gd_now g)) (gd_recent g), tf_OOB = False\<rparr>"

definition swapFeed :: "(string \<Rightarrow> string) \<Rightarrow> principal \<Rightarrow> garden_day \<Rightarrow> today_feed" where
  "swapFeed lower p g = (newTodayFeed lower p g)\<lparr>tf_OOB := True\<rparr>"

definition today_sections :: "principal \<Rightarrow> garden_day \<Rightarrow> today_section list" where
  "today_sections p g =
     (let now = gd_now g; cares = gd_cares g;
          sec = (\<lambda>i title alert lines calendar.
            if lines = [] then [] else [\<lparr>sc_ID = i, sc_Title = title, sc_Alert = alert, sc_Rows = careRows lines now,
              sc_RemindLater = None, sc_Calendar = calendar\<rparr>]);
          due = sec ''overdue'' ''Overdue'' True (dc_overdue cares) '''' @ sec ''due-today'' ''Due today'' False (dc_dueToday cares) '''';
          due = (case (map_option reminder_link (remindLaterState g (me_RemindAgainAt (pr_Membership p))), due) of
            (Some l, s # rest) \<Rightarrow> s\<lparr>sc_RemindLater := Some l\<rparr> # rest
          | _ \<Rightarrow> due)
      in due @ sec ''coming-up'' ''Coming up'' False (dc_comingUp cares) calendarPath)"

definition newTodayPage :: "(string \<Rightarrow> string) \<Rightarrow> principal \<Rightarrow> garden_day \<Rightarrow> today_page" where
  "newTodayPage lower p g =
     \<lparr>ty_Date = Weekday_String (gd_now g) @ '' '' @ Format_long_day (gd_now g), ty_Garden = ga_Name (pr_Garden p),
      ty_Owner = tb_owner (gd_bar g), ty_Gardens = tb_gardens (gd_bar g),
      ty_Switch = (if 1 < length (tb_gardens (gd_bar g)) then gardensPath else ''''), ty_GardenSheet = False,
      ty_RemindLaterSheet = None, ty_Reminders = gd_reminders g, ty_Head = newTodayHead p g, ty_Sections = today_sections p g,
      ty_Feed = newTodayFeed lower p g, ty_OOB = False\<rparr>"

record care_settled =
  cd_Head :: "today_head option"
  cd_Body :: "today_page option"

definition newCareSettled :: "(string \<Rightarrow> string) \<Rightarrow> principal \<Rightarrow> garden_day \<Rightarrow> care_settled" where
  "newCareSettled lower p g =
     (if windows g then \<lparr>cd_Head = Some (swapHead p g), cd_Body = None\<rparr>
      else \<lparr>cd_Head = None, cd_Body = Some ((newTodayPage lower p g)\<lparr>ty_OOB := True\<rparr>)\<rparr>)"

section \<open>The handlers\<close>

text \<open>A refusal is the sheet again; a changed reminder swaps the link.\<close>

datatype today_view =
    Today_page today_page
  | Settled care_settled
  | Reminder_form remind_later_sheet "today_page option"
  | Reminder_changed "remind_later_link option"

type_synonym today_told = "(today_view, string) told"

text \<open>\<open>row\<close> is whether the swap targets a care row.\<close>

definition show_today :: "site \<Rightarrow> principal \<Rightarrow> bool \<Rightarrow> gotime \<Rightarrow> world \<Rightarrow> today_told \<times> world" where
  "show_today si p row clock =
     answering (load_garden_day si p clock) (\<lambda>_. (Server_error, [])) (\<lambda>g w.
       ((Page (if row then Settled (newCareSettled (si_lower si) p g) else Today_page (newTodayPage (si_lower si) p g)), []), w))"

definition gardenSheet :: "site \<Rightarrow> principal \<Rightarrow> gotime \<Rightarrow> world \<Rightarrow> today_told \<times> world" where
  "gardenSheet si p clock =
     answering (load_garden_day si p clock) (\<lambda>_. (Server_error, [])) (\<lambda>g w.
       ((Page (Today_page ((newTodayPage (si_lower si) p g)\<lparr>ty_GardenSheet := True\<rparr>)), []), w))"

definition loadRemindLater ::
  "site \<Rightarrow> principal \<Rightarrow> gotime \<Rightarrow> (garden_day \<Rightarrow> remind_later \<Rightarrow> world \<Rightarrow> today_told \<times> world) \<Rightarrow> world \<Rightarrow> today_told \<times> world" where
  "loadRemindLater si p clock k =
     answering (load_garden_day si p clock) (\<lambda>_. (Server_error, [])) (\<lambda>g.
       case remindLaterState g (me_RemindAgainAt (pr_Membership p)) of
         None \<Rightarrow> (\<lambda>w. ((Not_found, []), w))
       | Some st \<Rightarrow> k g st)"

definition renderRemindLater ::
  "site \<Rightarrow> principal \<Rightarrow> bool \<Rightarrow> garden_day \<Rightarrow> remind_later_sheet \<Rightarrow> world \<Rightarrow> today_told \<times> world" where
  "renderRemindLater si p htmx g sheet w =
     ((Page (Reminder_form sheet (if htmx then None
        else Some ((newTodayPage (si_lower si) p g)\<lparr>ty_RemindLaterSheet := Some sheet\<rparr>))), []), w)"

definition showRemindLater :: "site \<Rightarrow> principal \<Rightarrow> bool \<Rightarrow> gotime \<Rightarrow> world \<Rightarrow> today_told \<times> world" where
  "showRemindLater si p htmx clock = loadRemindLater si p clock (\<lambda>g st. renderRemindLater si p htmx g (reminder_sheet st))"

definition reminderChanged :: "bool \<Rightarrow> remind_later_link option \<Rightarrow> world \<Rightarrow> today_told \<times> world" where
  "reminderChanged htmx lnk w = ((if htmx then Page (Reminder_changed lnk) else Redirect todayPath, [Wake]), w)"

definition setReminder :: "site \<Rightarrow> principal \<Rightarrow> (string \<Rightarrow> bool) \<Rightarrow> form \<Rightarrow> bool \<Rightarrow> gotime \<Rightarrow> world \<Rightarrow> today_told \<times> world" where
  "setReminder si p has get htmx clock =
     loadRemindLater si p clock (\<lambda>g st.
       case reminderAt (get whenField) (get timeField) (rl_now st) of
         Inl ErrWhenNotOffered \<Rightarrow> (\<lambda>w. ((Bad_request, []), w))
       | Inl (Remind_refused msg) \<Rightarrow>
           renderRemindLater si p htmx g
             ((choose_when (get whenField) (reminder_sheet st))\<lparr>rs_Time := get timeField, rs_Error := msg\<rparr>)
       | Inr at \<Rightarrow>
           answering (writing ((if has rescheduleField then RescheduleReminder else SetReminder)
               (Some at) (ga_ID (pr_Garden p)) (us_ID (pr_User p)) (rl_now st))) (\<lambda>_. (Server_error, [])) (\<lambda>changed.
             if changed = 0 then
               read_or (GetMembershipWithUserAndGarden (ga_ID (pr_Garden p)) (us_ID (pr_User p))) (\<lambda>_. (Server_error, []))
                 (\<lambda>(m, _).
                 case remindLaterState g (me_RemindAgainAt m) of
                   None \<Rightarrow> (\<lambda>w. ((Not_found, []), w))
                 | Some current \<Rightarrow>
                     renderRemindLater si p htmx g ((reminder_sheet current)
                       \<lparr>rs_Error := (if rl_waiting current \<noteq> None then reminderWaiting else reminderSent)\<rparr>))
             else reminderChanged htmx (Some (reminder_link \<lparr>rl_now = rl_now st, rl_waiting = Some at\<rparr>))))"

definition removeReminder :: "site \<Rightarrow> principal \<Rightarrow> bool \<Rightarrow> gotime \<Rightarrow> world \<Rightarrow> today_told \<times> world" where
  "removeReminder si p htmx clock =
     loadRemindLater si p clock (\<lambda>g st.
       answering (writing (RemoveReminder (ga_ID (pr_Garden p)) (us_ID (pr_User p)) (rl_now st))) (\<lambda>_. (Server_error, [])) (\<lambda>changed.
         if changed = 0 then
           (case remindLaterState g None of
              None \<Rightarrow> (\<lambda>w. ((Not_found, []), w))
            | Some current \<Rightarrow> renderRemindLater si p htmx g ((reminder_sheet current)\<lparr>rs_Error := reminderSent\<rparr>))
         else reminderChanged htmx (map_option reminder_link (remindLaterState g None))))"

text \<open>\<open>reminders.go\<close>: the page of the setup, without the installation steps; \<open>None\<close> redirects to Today.\<close>

record reminders_page =
  rm_Key :: string
  rm_Subscribe :: string
  rm_Digest :: string
  rm_Notifications :: string
  rm_Today :: string

definition digestSentence :: "int \<Rightarrow> string" where
  "digestSentence hour =
     ''One notification a day at '' @ hourLabel hour @ '', listing what'' @ right_quote @ ''s due. Skipped on days with nothing due.''"

definition newRemindersPage :: "string \<Rightarrow> int \<Rightarrow> reminders_page" where
  "newRemindersPage key hour =
     \<lparr>rm_Key = key, rm_Subscribe = subscribePath, rm_Digest = digestSentence hour, rm_Notifications = notificationsPath,
      rm_Today = todayPath\<rparr>"

definition setup_reminders :: "site \<Rightarrow> principal \<Rightarrow> (reminders_page, string) page_answer" where
  "setup_reminders si p =
     (if si_pushKey si = '''' then Redirect todayPath
      else Page (newRemindersPage (si_pushKey si) (me_DigestHour (pr_Membership p))))"

section \<open>Every care that is due has its row\<close>









section \<open>What a load gives\<close>

definition day_loaded :: "site \<Rightarrow> principal \<Rightarrow> gotime \<Rightarrow> db \<Rightarrow> garden_day \<Rightarrow> bool" where
  "day_loaded si p clock d g \<longleftrightarrow>
     gd_now g = In_loc clock (locationFor si (pr_User p)) \<and> gd_day g = Today (si_lower si) (gd_lines g)
     \<and> gd_cares g = caresOf (si_lower si) (gd_day g)
     \<and> (case gd_remindLater g of None \<Rightarrow> True | Some facts \<Rightarrow> rf_hasBrowser facts = has_browser (us_ID (pr_User p)) d)"

lemma reading_same: "triple (\<lambda>d. d = d0) (reading q) (\<lambda>x d. d = d0 \<and> q d0 = Inr x) (\<lambda>_ d. d = d0)"
  by (intro triple_reading) auto

lemma reading_keeps: "triple (\<lambda>d. d = d0) (reading q) (\<lambda>_ d. d = d0) (\<lambda>_ d. d = d0)"
  by (intro triple_reading) auto

lemma loadBar_same: "triple (\<lambda>d. d = d0) (loadBar si p clock) (\<lambda>_ d. d = d0) (\<lambda>_ d. d = d0)"
  unfolding loadBar_def liveGardens_def
  by (intro triple_and_then [where Q = "\<lambda>_ d. d = d0"] triple_return triple_reading) auto

lemma load_push_facts:
  "triple (\<lambda>d. d = d0) (load_push si p now)
     (\<lambda>(_, facts) d. d = d0 \<and> (case facts of None \<Rightarrow> True | Some f \<Rightarrow> rf_hasBrowser f = has_browser (us_ID (pr_User p)) d0))
     (\<lambda>_ d. d = d0)"
proof -
  let ?Q = "\<lambda>(_ :: reminders_offer option, facts) d. d = d0
      \<and> (case facts of None \<Rightarrow> True | Some f \<Rightarrow> rf_hasBrowser f = has_browser (us_ID (pr_User p)) d0)"
  have state: "triple (\<lambda>d. d = d0 \<and> GetRemindLaterState (us_ID (pr_User p)) g m k d0 = Inr (hasBrowser, digestSent))
      (return (offer, Some \<lparr>rf_hasBrowser = hasBrowser, rf_digestOn = on, rf_digestSent = digestSent\<rparr>)) ?Q (\<lambda>_ d. d = d0)"
    for g m k hasBrowser digestSent offer on
    by (intro triple_return) (auto simp: GetRemindLaterState_def has_browser_def)
  have "triple (\<lambda>d. d = d0) (return (None, None)) ?Q (\<lambda>_ d. d = d0)" by (intro triple_return) simp
  then show ?thesis
    unfolding load_push_def
    apply (rule triple_branches(1))
    apply (rule triple_and_then [OF reading_keeps])
    apply (rule triple_and_then [OF reading_same])
    apply (rule triple_branches(4))
    apply hypsubst
    apply (rule state)
    done
qed

lemma load_garden_day_triple:
  "triple (\<lambda>d. d = d0) (load_garden_day si p clock) (\<lambda>g d. d = d0 \<and> day_loaded si p clock d0 g) (\<lambda>_ d. d = d0)"
proof -
  have resolved: "triple (\<lambda>d. d = d0
        \<and> (case facts of None \<Rightarrow> True | Some f \<Rightarrow> rf_hasBrowser f = has_browser (us_ID (pr_User p)) d0))
      (case Resolve schedules lst now of
        None \<Rightarrow> fail Failure
      | Some lines \<Rightarrow>
          (let day = Today (si_lower si) lines in
           return \<lparr>gd_lines = lines, gd_day = day, gd_cares = caresOf (si_lower si) day, gd_latest = lst, gd_recent = recent,
             gd_plants = plants, gd_now = now, gd_bar = bar, gd_reminders = r, gd_remindLater = facts\<rparr>))
      (\<lambda>g d. d = d0 \<and> day_loaded si p clock d0 g) (\<lambda>_ d. d = d0)"
    if "now = In_loc clock (locationFor si (pr_User p))" for r facts schedules lst recent plants bar now
    using that by (cases "Resolve schedules lst now") (auto simp: Let_def day_loaded_def intro!: triple_return triple_fail)
  show ?thesis
    unfolding load_garden_day_def Let_def [of "In_loc _ _"] Let_def [of "ga_ID _"]
    apply (rule triple_and_then [OF loadBar_same])
    apply (rule triple_and_then [OF reading_keeps])
    apply (rule triple_and_then [OF reading_keeps])
    apply (rule triple_and_then [OF reading_keeps])
    apply (rule triple_and_then [OF reading_keeps])
    apply (rule triple_and_then [OF load_push_facts])
    apply (rule triple_branches(4))
    apply hypsubst
    apply (simp only: prod.case)
    apply (rule resolved [OF refl])
    done
qed

section \<open>Properties\<close>



definition waiting :: "gotime \<Rightarrow> membership \<Rightarrow> bool" where
  "waiting now m = (case me_RemindAgainAt m of None \<Rightarrow> False | Some t \<Rightarrow> After t now)"

definition reminder_moved :: "site \<Rightarrow> principal \<Rightarrow> bool \<Rightarrow> gotime \<Rightarrow> db \<Rightarrow> db \<Rightarrow> bool" where
  "reminder_moved si p again clock d d' \<longleftrightarrow>
     (\<exists>at. let now = In_loc clock (locationFor si (pr_User p)) in
        \<not> Before at (Truncate_minute now)
        \<and> (sameDate at now \<or> (\<exists>h m :: nat. h < 24 \<and> m < 60 \<and> at = mk_Date (Year now) (Month now) (Day_of now) (int h) (int m) 0 0 (tloc now)))
        \<and> has_browser (us_ID (pr_User p)) d
        \<and> d' = d\<lparr>t_membership := map (\<lambda>m. if me_GardenID m = ga_ID (pr_Garden p) \<and> me_UserID m = us_ID (pr_User p)
             \<and> waiting now m = again then m\<lparr>me_RemindAgainAt := Some at\<rparr> else m) (t_membership d)\<rparr>)"

lemma Parse_clock_bounds: "Parse_clock s = Some (h, m) \<Longrightarrow> h < 24 \<and> m < 60"
  by (auto simp: Parse_clock_def Let_def split: if_splits option.splits)

lemma reminderAt_today:
  assumes "reminderAt asked clock now = Inr at"
  shows "\<not> Before at (Truncate_minute now)"
    "sameDate at now \<or> (\<exists>h m :: nat. h < 24 \<and> m < 60 \<and> at = mk_Date (Year now) (Month now) (Day_of now) (int h) (int m) 0 0 (tloc now))"
proof -
  have add: "\<not> Before (Add now k) (Truncate_minute now)" if "0 \<le> k" for k
    using that pos_mod_sign [of minute_ns "nsec now"] by (simp add: Before_def Add_def Truncate_minute_def)
  have "\<not> Before at (Truncate_minute now)
      \<and> (sameDate at now \<or> (\<exists>h m :: nat. h < 24 \<and> m < 60 \<and> at = mk_Date (Year now) (Month now) (Day_of now) (int h) (int m) 0 0 (tloc now)))"
  proof (cases "asked = whenTime")
    case True
    then obtain h m where c: "Parse_clock clock = Some (h, m)"
        "at = mk_Date (Year now) (Month now) (Day_of now) (int h) (int m) 0 0 (tloc now)" "\<not> Before at (Truncate_minute now)"
      using assms by (auto simp: reminderAt_def Let_def split: if_splits option.splits)
    then show ?thesis using Parse_clock_bounds [OF c(1)] by blast
  next
    case False
    then show ?thesis using assms add by (auto simp: reminderAt_def Let_def remindDelays_def split: if_splits option.splits)
  qed
  then show "\<not> Before at (Truncate_minute now)"
    "sameDate at now \<or> (\<exists>h m :: nat. h < 24 \<and> m < 60 \<and> at = mk_Date (Year now) (Month now) (Day_of now) (int h) (int m) 0 0 (tloc now))"
    by blast+
qed

lemma reminder_written:
  assumes "(if again then RescheduleReminder else SetReminder) (Some at) garden user now d = Inr (n, d')"
  shows "d' = d\<lparr>t_membership := map (\<lambda>m. if me_GardenID m = garden \<and> me_UserID m = user \<and> waiting now m = again
      then m\<lparr>me_RemindAgainAt := Some at\<rparr> else m) (t_membership d)\<rparr>"
  using assms
  by (cases again) (auto simp: RescheduleReminder_def SetReminder_def Let_def update_where_def waiting_def intro!: arg_cong [where f = "\<lambda>x. d\<lparr>t_membership := x\<rparr>"] map_cong split: option.splits)

lemma renderRemindLater_ends: "(\<And>r d. P d \<Longrightarrow> R r d) \<Longrightarrow> ends P (renderRemindLater si p htmx g sheet) R"
  by (simp add: ends_def renderRemindLater_def)

lemma reminderChanged_ends: "(\<And>r d. P d \<Longrightarrow> R r d) \<Longrightarrow> ends P (reminderChanged htmx lnk) R"
  by (simp add: ends_def reminderChanged_def)

lemma state_facts:
  assumes "remindLaterState g at = Some st" "day_loaded si p clock d g"
  shows "rl_now st = In_loc clock (locationFor si (pr_User p))" "has_browser (us_ID (pr_User p)) d"
  using assms by (auto simp: remindLaterState_def day_loaded_def split: option.splits if_splits)

lemma reminder_triple:
  assumes "remindLaterState g (me_RemindAgainAt (pr_Membership p)) = Some st" "reminderAt (get whenField) (get timeField) (rl_now st) = Inr at"
  shows "triple (\<lambda>d. d = d0 \<and> day_loaded si p clock d0 g)
     (writing ((if resched then RescheduleReminder else SetReminder) (Some at) (ga_ID (pr_Garden p)) (us_ID (pr_User p)) (rl_now st)))
     (\<lambda>_ d. d = d0 \<or> reminder_moved si p resched clock d0 d) (\<lambda>_ d. d = d0)"
proof (rule triple_writing)
  fix x d d'
  assume d: "d = d0 \<and> day_loaded si p clock d0 g"
    and q: "(if resched then RescheduleReminder else SetReminder) (Some at) (ga_ID (pr_Garden p)) (us_ID (pr_User p)) (rl_now st) d
      = Inr (x, d')"
  note facts = state_facts [OF assms(1) conjunct2 [OF d]]
  have "reminder_moved si p resched clock d0 d'"
    unfolding reminder_moved_def Let_def
    using reminder_written [OF q] reminderAt_today [OF assms(2)] facts conjunct1 [OF d] by (intro exI [of _ at]) (simp only: simp_thms)
  then show "d' = d0 \<or> reminder_moved si p resched clock d0 d'" by (rule disjI2)
qed simp

text \<open>
  (C27) Setting or moving a reminder: the only change is the reader's own reminder in this garden, a
  new one only where none is waiting and a move only of one that is; its time is not before the
  current minute and is a time of the reader's day or a delay that ends on it, and the reader has a
  browser to send it to.
\<close>

theorem setReminder_today:
  "case setReminder si p has get htmx clock w of (r, w') \<Rightarrow>
     tables w' = tables w \<or> reminder_moved si p (has rescheduleField) clock (tables w) (tables w')"
proof -
  let ?S = "reminder_moved si p (has rescheduleField) clock (tables w)"
  let ?R = "\<lambda>r d. d = tables w \<or> ?S d"
  have "ends (\<lambda>d. d = tables w) (setReminder si p has get htmx clock) ?R"
    unfolding setReminder_def loadRemindLater_def
  proof (rule ends_answering [OF load_garden_day_triple], simp)
    fix g
    let ?set = "\<lambda>at st. writing ((if has rescheduleField then RescheduleReminder else SetReminder)
               (Some at) (ga_ID (pr_Garden p)) (us_ID (pr_User p)) (rl_now st))"
    note set = reminder_triple [of g p _ get _ "tables w" si clock "has rescheduleField"]
    show "ends (\<lambda>d. d = tables w \<and> day_loaded si p clock (tables w) g)
       (case remindLaterState g (me_RemindAgainAt (pr_Membership p)) of
         None \<Rightarrow> (\<lambda>w. ((Not_found, []), w))
       | Some st \<Rightarrow>
           case reminderAt (get whenField) (get timeField) (rl_now st) of
             Inl ErrWhenNotOffered \<Rightarrow> (\<lambda>w. ((Bad_request, []), w))
           | Inl (Remind_refused msg) \<Rightarrow>
               renderRemindLater si p htmx g
                 ((choose_when (get whenField) (reminder_sheet st))\<lparr>rs_Time := get timeField, rs_Error := msg\<rparr>)
           | Inr at \<Rightarrow>
               answering (?set at st) (\<lambda>_. (Server_error, [])) (\<lambda>changed.
                 if changed = 0 then
                   read_or (GetMembershipWithUserAndGarden (ga_ID (pr_Garden p)) (us_ID (pr_User p))) (\<lambda>_. (Server_error, []))
                     (\<lambda>(m, _).
                     case remindLaterState g (me_RemindAgainAt m) of
                       None \<Rightarrow> (\<lambda>w. ((Not_found, []), w))
                     | Some current \<Rightarrow>
                         renderRemindLater si p htmx g ((reminder_sheet current)
                           \<lparr>rs_Error := (if rl_waiting current \<noteq> None then reminderWaiting else reminderSent)\<rparr>))
                 else reminderChanged htmx (Some (reminder_link \<lparr>rl_now = rl_now st, rl_waiting = Some at\<rparr>)))) ?R"
    proof (rule ends_branches(2), simp add: ends_def, rule ends_branches(3))
      fix st e
      show "ends (\<lambda>d. d = tables w \<and> day_loaded si p clock (tables w) g)
         (case e of Remind_refused msg \<Rightarrow> renderRemindLater si p htmx g
               ((choose_when (get whenField) (reminder_sheet st))\<lparr>rs_Time := get timeField, rs_Error := msg\<rparr>)
          | ErrWhenNotOffered \<Rightarrow> (\<lambda>w. ((Bad_request, []), w))) ?R"
        by (cases e) (auto simp: ends_def renderRemindLater_def)
    qed (intro ends_answering [OF set] ends_branches(1,2,4) ends_read ends_answer renderRemindLater_ends reminderChanged_ends; simp)
  qed
  then show ?thesis by (rule ends_run)
qed

end
