(* ===== verification/Http_Calendar.thy ===== *)
theory Http_Calendar
  imports Http_Today Schedule_Month
begin

text \<open>
  The calendar (\<open>calendar.go\<close>): the query string, the notes and the memberships with an end date as
  it shows them, and the month's grid with the care logged and due on each day.  Times are read in
  the reader's zone, the location of \<open>now\<close>.  \<open>None\<close> for a page is a request that gets none: an
  index out of range, or a panic or an endless loop of \<open>InMonth\<close>.
\<close>

section \<open>The query string\<close>

definition monthParam :: string where "monthParam = ''month''"
definition dayParam :: string where "dayParam = ''day''"
definition calendarMonths :: int where "calendarMonths = 12"
definition calendarID :: string where "calendarID = ''calendar''"
definition calendarContents :: string where "calendarContents = ''calendar-contents''"
definition daySheetTemplate :: string where "daySheetTemplate = ''day-sheet''"
definition sheetID :: string where "sheetID = ''sheet''"
definition shownCares :: nat where "shownCares = 3"
definition bandColours :: nat where "bandColours = 3"

text \<open>\<open>Format("2006-01")\<close>, and \<open>ParseInLocation\<close> with the layouts of a month and of a date.\<close>

definition Format_month :: "gotime \<Rightarrow> string" where
  "Format_month t = Format_year t @ ''-'' @ pad 2 (nat (Month t))"

definition Parse_month :: "string \<Rightarrow> location \<Rightarrow> gotime option" where
  "Parse_month s l =
     (if length s = 7 \<and> s ! 4 = CHR ''-'' then
        (case (number 0 (take 4 s), number 0 (drop 5 s)) of
           (Some y, Some m) \<Rightarrow> (if 1 \<le> m \<and> m \<le> 12 then Some (mk_Date (int y) (int m) 1 0 0 0 0 l) else None)
         | _ \<Rightarrow> None)
      else None)"

definition midnightOn :: "gotime \<Rightarrow> location \<Rightarrow> gotime" where
  "midnightOn t l = mk_Date (Year t) (Month t) (Day_of t) 0 0 0 0 l"

definition Parse_date_in :: "string \<Rightarrow> location \<Rightarrow> gotime option" where
  "Parse_date_in s l = map_option (\<lambda>d. midnightOn d l) (Parse_dateKey s)"

definition startOfMonth :: "gotime \<Rightarrow> gotime" where
  "startOfMonth t = mk_Date (Year t) (Month t) 1 0 0 0 0 (tloc t)"

definition lastCalendarMonth :: "gotime \<Rightarrow> gotime" where
  "lastCalendarMonth now = AddDate (startOfMonth now) 0 calendarMonths 0"

record calendar_query =
  cq_month :: gotime
  cq_day :: "gotime option"

definition parseCalendarQuery :: "form \<Rightarrow> gotime \<Rightarrow> calendar_query" where
  "parseCalendarQuery values now =
     (let l = tloc now;
          month = (case Parse_month (values monthParam) l of
            None \<Rightarrow> startOfMonth now
          | Some m \<Rightarrow> if \<not> After m (lastCalendarMonth now) then m else startOfMonth now)
      in \<lparr>cq_month = month,
          cq_day = (case Parse_date_in (values dayParam) l of
            None \<Rightarrow> None | Some d \<Rightarrow> if Equal (startOfMonth d) month then Some d else None)\<rparr>)"

text \<open>\<open>url.Values.Encode\<close> writes the keys in order, the day first; nothing in them is escaped.\<close>

definition noteQuery :: "gotime \<Rightarrow> gotime option \<Rightarrow> string" where
  "noteQuery month day =
     (case day of None \<Rightarrow> '''' | Some d \<Rightarrow> dayParam @ ''='' @ Format_dateKey d @ ''&'') @ monthParam @ ''='' @ Format_month month"

definition calendarHref :: "gotime \<Rightarrow> gotime option \<Rightarrow> string" where
  "calendarHref month day =
     calendarPath @ ''?''
       @ (case day of None \<Rightarrow> '''' | Some d \<Rightarrow> dayParam @ ''='' @ Format_dateKey d @ ''&'') @ monthParam @ ''='' @ Format_month month"

definition calendarFragment :: "bool \<Rightarrow> string \<Rightarrow> string" where
  "calendarFragment historyRestore target =
     (if historyRestore then calendarContents
      else if target = calendarID then calendarID
      else if target = sheetID then daySheetTemplate
      else '''')"

definition notesPath :: string where "notesPath = calendarPath @ ''/notes''"

definition newNotePath :: "gotime \<Rightarrow> gotime \<Rightarrow> string" where
  "newNotePath month day = notesPath @ ''/new?'' @ noteQuery month (Some day)"

definition notePath :: "uuid \<Rightarrow> gotime \<Rightarrow> string" where
  "notePath i month = notesPath @ ''/'' @ i @ ''?'' @ noteQuery month None"

section \<open>Notes\<close>

record page_note =
  nc_ID :: uuid
  nc_Text :: string
  nc_First :: gotime
  nc_Last :: gotime
  nc_Span :: string
  nc_Href :: string

definition covers_days :: "gotime \<Rightarrow> gotime \<Rightarrow> gotime \<Rightarrow> bool" where
  "covers_days first final date \<longleftrightarrow> \<not> Before date first \<and> \<not> After date final"

definition dayRange :: "gotime \<Rightarrow> gotime \<Rightarrow> gotime \<Rightarrow> string" where
  "dayRange first final now =
     (if Equal first final then ''''
      else
        (let finish = (if Year final \<noteq> Year now then Format_day_year final else Format_day final) in
         if Year first \<noteq> Year final \<and> Year first \<noteq> Year now then Format_day_year first @ dash @ finish
         else if Year first \<noteq> Year final \<or> Month first \<noteq> Month final then Format_day first @ dash @ finish
         else decimal (nat (Day_of first)) @ dash @ finish))"

definition page_note_of :: "principal \<Rightarrow> calendar_query \<Rightarrow> gotime \<Rightarrow> calendar_note \<Rightarrow> page_note" where
  "page_note_of p q now n =
     (let first = midnightOn (cn_StartsOn n) (tloc now); final = midnightOn (cn_EndsOn n) (tloc now)
      in \<lparr>nc_ID = cn_ID n, nc_Text = cn_Text n, nc_First = first, nc_Last = final, nc_Span = dayRange first final now,
          nc_Href = (if Can p ''calendar_note.manage'' then notePath (cn_ID n) (cq_month q) else '''')\<rparr>)"

definition calendarNotes :: "principal \<Rightarrow> calendar_query \<Rightarrow> calendar_note list \<Rightarrow> gotime \<Rightarrow> page_note list" where
  "calendarNotes p q notes now = map (page_note_of p q now) notes"

section \<open>Memberships with an end date\<close>

record sitting =
  sg_Name :: string
  sg_You :: bool
  sg_First :: gotime
  sg_Last :: gotime
  sg_Until :: string

text \<open>An end at midnight leaves no access on that day; any other end covers the day it falls in.\<close>

definition last_covered :: "gotime \<Rightarrow> location \<Rightarrow> gotime" where
  "last_covered expires memberLoc =
     (let final = midnightOn expires memberLoc in if Equal final expires then AddDate final 0 0 (-1) else final)"

definition sitting_of :: "site \<Rightarrow> principal \<Rightarrow> gotime \<Rightarrow> membership \<times> app_user \<Rightarrow> sitting option" where
  "sitting_of si p now = (\<lambda>(m, u).
     case me_ExpiresAt m of
       None \<Rightarrow> None
     | Some expires \<Rightarrow>
         (let you = (me_ID m = me_ID (pr_Membership p)) in
          if \<not> you \<and> \<not> Can p ''sitting.view'' then None
          else
            (let memberLoc = locationFor si u;
                 s = \<lparr>sg_Name = us_DisplayName u, sg_You = you,
                   sg_First = midnightOn (In_loc (me_CreatedAt m) memberLoc) (tloc now),
                   sg_Last = midnightOn (last_covered (In_loc expires memberLoc) memberLoc) (tloc now),
                   sg_Until = accessUntilWord si m u expires now\<rparr>
             in if Before (sg_Last s) (sg_First s) then None
                else Some (if you then s\<lparr>sg_Name := ''You''\<rparr> else s))))"

definition sittings :: "site \<Rightarrow> principal \<Rightarrow> (membership \<times> app_user) list \<Rightarrow> gotime \<Rightarrow> sitting list" where
  "sittings si p members now = List.map_filter (sitting_of si p now) members"

definition sittingWords :: "sitting list \<Rightarrow> string" where
  "sittingWords covering =
     (case covering of
        [s] \<Rightarrow> if sg_You s then ''you'' @ right_quote @ ''re sitting'' else sg_Name s @ '' sitting''
      | _ \<Rightarrow> andList (map (\<lambda>s. if sg_You s then ''you'' else sg_Name s) covering) @ '' sitting'')"

section \<open>The rows of a day\<close>

record calendar_row =
  cr_Href :: string
  cr_Name :: string
  cr_Botanical :: bool
  cr_Picture :: string
  cr_Icon :: string
  cr_Logged :: bool
  cr_Skipped :: bool
  cr_Care :: string
  cr_Note :: string
  cr_Late :: bool

definition newLoggedRow :: "(string \<Rightarrow> string) \<Rightarrow> principal \<Rightarrow> event_row \<Rightarrow> gotime \<Rightarrow> calendar_row" where
  "newLoggedRow lower p e now =
     (case whoDid lower p (er_PerformedByName e) (er_CareEvent e) (er_CareType e) of
        (who, did) \<Rightarrow>
          \<lparr>cr_Href = plantPath (pl_ID (er_Plant e)), cr_Name = DisplayName (er_Plant e), cr_Botanical = BotanicalOnly (er_Plant e),
           cr_Picture = squarePicturePath (er_Plant e), cr_Icon = ct_Icon (er_CareType e), cr_Logged = True,
           cr_Skipped = (\<not> ce_Done (er_CareEvent e)), cr_Care = who @ '' '' @ did,
           cr_Note = clockWord (ce_PerformedAt (er_CareEvent e)) now, cr_Late = False\<rparr>)"

type_synonym due_care = "line \<times> projected"

definition overdueFirst :: "due_care \<Rightarrow> due_care \<Rightarrow> int" where
  "overdueFirst a b =
     (if pj_Overdue (snd a) = pj_Overdue (snd b) then 0 else if pj_Overdue (snd a) then -1 else 1)"

definition compareDueCares :: "(string \<Rightarrow> string) \<Rightarrow> due_care \<Rightarrow> due_care \<Rightarrow> int" where
  "compareDueCares lower a b =
     cmp_Or (overdueFirst a b)
       (cmp_Or (strings_Compare (lower (DisplayName (ln_Plant (fst a)))) (lower (DisplayName (ln_Plant (fst b)))))
          (strings_Compare (pl_ID (ln_Plant (fst a))) (pl_ID (ln_Plant (fst b)))))"

definition due_row :: "gotime \<Rightarrow> due_care \<Rightarrow> calendar_row" where
  "due_row now = (\<lambda>(line, date).
     \<lparr>cr_Href = plantPath (pl_ID (ln_Plant line)), cr_Name = DisplayName (ln_Plant line), cr_Botanical = BotanicalOnly (ln_Plant line),
      cr_Picture = squarePicturePath (ln_Plant line), cr_Icon = ct_Icon (ln_CareType line), cr_Logged = False, cr_Skipped = False,
      cr_Care = ct_Name (ln_CareType line),
      cr_Note = (if pj_Overdue date then overdueWord line now else if pj_Estimated date then ''Estimated'' else ''''),
      cr_Late = pj_Overdue date\<rparr>)"

definition dueRows :: "(string \<Rightarrow> string) \<Rightarrow> due_care list \<Rightarrow> gotime \<Rightarrow> calendar_row list" where
  "dueRows lower cares now = map (due_row now) (SortStableFunc (compareDueCares lower) cares)"

section \<open>The page\<close>

record calendar_band =
  cb_Covered :: bool
  cb_Colour :: nat
  cb_Starts :: bool
  cb_Ends :: bool

record calendar_day =
  cy_Number :: nat
  cy_ID :: string
  cy_Href :: string
  cy_Label :: string
  cy_Today :: bool
  cy_Shown :: "calendar_row list"
  cy_More :: nat
  cy_Sitting :: bool
  cy_Bands :: "calendar_band list"
  cy_Notes :: "page_note list"

definition blank_day :: calendar_day where
  "blank_day = \<lparr>cy_Number = 0, cy_ID = '''', cy_Href = '''', cy_Label = '''', cy_Today = False, cy_Shown = [], cy_More = 0,
     cy_Sitting = False, cy_Bands = [], cy_Notes = []\<rparr>"

record day_sheet =
  ds_Title :: string
  ds_Notes :: "page_note list"
  ds_Logged :: "calendar_row list"
  ds_Due :: "calendar_row list"
  ds_Sitting :: "sitting list"
  ds_AddNote :: string

record note_sheet =
  ns_Title :: string
  ns_Path :: string
  ns_Text :: string
  ns_First :: string
  ns_Last :: string
  ns_Max :: string
  ns_Error :: string
  ns_Button :: string
  ns_Delete :: string

record calendar_page =
  cp_Back :: string
  cp_Today :: string
  cp_Title :: string
  cp_Previous :: string
  cp_Next :: string
  cp_MonthDue :: "calendar_row list"
  cp_MonthDueTitle :: string
  cp_Weekdays :: "string list"
  cp_Weeks :: "calendar_day list list"
  cp_Sheet :: "day_sheet option"
  cp_NoteSheet :: "note_sheet option"

definition weekdays :: "string list" where
  "weekdays = map (\<lambda>i. take 3 (weekday_names ! ((i + 1) mod 7))) [0..<7]"

definition mondayIndex :: "gotime \<Rightarrow> nat" where
  "mondayIndex t = nat ((Weekday t + 6) mod 7)"

definition dayID :: "gotime \<Rightarrow> string" where
  "dayID date = ''day-'' @ Format_dateKey date"

definition dayTitle :: "gotime \<Rightarrow> gotime \<Rightarrow> string" where
  "dayTitle date now =
     Weekday_String date @ '' '' @ (if Year date \<noteq> Year now then Format_long_day_year date else Format_long_day date)"

definition dayLabel :: "gotime \<Rightarrow> page_note list \<Rightarrow> nat \<Rightarrow> nat \<Rightarrow> sitting list \<Rightarrow> string" where
  "dayLabel date notes logged due covering =
     Join ([Weekday_String date @ '' '' @ Format_long_day date] @ map nc_Text notes
        @ (if 0 < logged then [Itoa (int logged) @ '' logged''] else [])
        @ (if 0 < due then [Itoa (int due) @ '' due''] else [])
        @ (if covering \<noteq> [] then [sittingWords covering] else [])) '', ''"

text \<open>What is put in a slice of the days by \<open>x[d] = append(x[d], v)\<close>, where an index out of range is a
  panic.\<close>

fun put_all :: "(int \<times> 'a) list \<Rightarrow> 'a list list \<Rightarrow> 'a list list option" where
  "put_all [] slots = Some slots"
| "put_all ((d, v) # vs) slots =
     (if 0 \<le> d \<and> d < int (length slots) then put_all vs (slots[nat d := slots ! nat d @ [v]]) else None)"

definition month_days :: "gotime \<Rightarrow> nat" where
  "month_days month = nat (Day_of (AddDate month 0 1 (-1)))"

definition logged_days :: "(string \<Rightarrow> string) \<Rightarrow> principal \<Rightarrow> gotime \<Rightarrow> event_row list \<Rightarrow> gotime \<Rightarrow> calendar_row list list option" where
  "logged_days lower p month events now =
     put_all (map (\<lambda>e. (Day_of (In_loc (ce_PerformedAt (er_CareEvent e)) (tloc now)), newLoggedRow lower p e now)) events)
       (replicate (month_days month + 1) [])"

definition line_dates :: "gotime \<Rightarrow> gotime \<Rightarrow> line \<Rightarrow> due_care list option" where
  "line_dates month now line = map_option (map (Pair line)) (InMonth (ln_Schedule line) (ln_Last line) month now)"

definition due_cares :: "gotime \<Rightarrow> gotime \<Rightarrow> line list \<Rightarrow> due_care list option" where
  "due_cares month now lines = map_option concat (those (map (line_dates month now) lines))"

definition in_some_month :: "due_care \<Rightarrow> bool" where
  "in_some_month c \<longleftrightarrow> pj_Precision (snd c) = ''month''"

definition due_days :: "gotime \<Rightarrow> due_care list \<Rightarrow> due_care list list option" where
  "due_days month cares =
     put_all (map (\<lambda>c. (Day_of (pj_At (snd c)), c)) (filter (\<lambda>c. \<not> in_some_month c) cares)) (replicate (month_days month + 1) [])"

definition in_month :: "gotime \<Rightarrow> sitting list \<Rightarrow> sitting list" where
  "in_month month ss =
     filter (\<lambda>s. \<not> Before (sg_Last s) month \<and> \<not> After (sg_First s) (AddDate month 0 1 (-1))) ss"

definition band_of :: "gotime \<Rightarrow> nat \<times> sitting \<Rightarrow> calendar_band" where
  "band_of date = (\<lambda>(i, s).
     (if covers_days (sg_First s) (sg_Last s) date
      then \<lparr>cb_Covered = True, cb_Colour = i mod bandColours + 1, cb_Starts = Equal date (sg_First s), cb_Ends = Equal date (sg_Last s)\<rparr>
      else \<lparr>cb_Covered = False, cb_Colour = 0, cb_Starts = False, cb_Ends = False\<rparr>))"

text \<open>One turn of the loop over the days: the cell, and the day's sheet when it is the one that is open.\<close>

definition day_cell ::
  "principal \<Rightarrow> calendar_query \<Rightarrow> sitting list \<Rightarrow> page_note list \<Rightarrow> gotime \<Rightarrow> gotime \<Rightarrow> nat \<Rightarrow> calendar_row list \<Rightarrow> calendar_row list
     \<Rightarrow> calendar_day \<times> day_sheet option" where
  "day_cell p q ss notes now date d logged dueOnDay =
     (let own = filter (\<lambda>n. covers_days (nc_First n) (nc_Last n) date) notes;
          covering = filter (\<lambda>s. covers_days (sg_First s) (sg_Last s) date) ss;
          showBands = Can p ''sitting.view''; mayManageNotes = Can p ''calendar_note.manage'';
          cares = logged @ dueOnDay;
          day = \<lparr>cy_Number = d, cy_ID = dayID date, cy_Href = '''', cy_Label = '''', cy_Today = Equal date (midnightOn now (tloc now)),
            cy_Shown = [], cy_More = 0, cy_Sitting = (\<not> showBands \<and> covering \<noteq> []),
            cy_Bands = (if showBands then map (band_of date) (enumerate 0 ss) else []), cy_Notes = own\<rparr>
      in if cares \<noteq> [] \<or> covering \<noteq> [] \<or> own \<noteq> [] \<or> mayManageNotes then
           (day\<lparr>cy_Href := calendarHref (cq_month q) (Some date),
                cy_Label := dayLabel date own (length logged) (length dueOnDay) covering,
                cy_Shown := take shownCares cares, cy_More := length cares - shownCares\<rparr>,
            if (case cq_day q of None \<Rightarrow> False | Some day \<Rightarrow> Equal day date)
            then Some \<lparr>ds_Title = dayTitle date now, ds_Notes = own, ds_Logged = logged, ds_Due = dueOnDay, ds_Sitting = covering,
              ds_AddNote = (if mayManageNotes then newNotePath (cq_month q) date else '''')\<rparr>
            else None)
         else (day, None))"

text \<open>Rows of seven cells: a full one is put on the page, and the last is filled up with empty cells.\<close>

fun weeks_from :: "calendar_day list \<Rightarrow> calendar_day list \<Rightarrow> calendar_day list list" where
  "weeks_from week [] = (if week = [] then [] else [week @ replicate (7 - length week) blank_day])"
| "weeks_from week (d # ds) =
     (let week = week @ [d] in if length week = 7 then week # weeks_from [] ds else weeks_from week ds)"

definition newCalendarPage ::
  "(string \<Rightarrow> string) \<Rightarrow> principal \<Rightarrow> calendar_query \<Rightarrow> line list \<Rightarrow> event_row list \<Rightarrow> sitting list \<Rightarrow> page_note list \<Rightarrow> gotime
     \<Rightarrow> calendar_page option" where
  "newCalendarPage lower p q lines events ss notes now = do {
     let month = cq_month q;
     logged \<leftarrow> logged_days lower p month events now;
     cares \<leftarrow> due_cares month now lines;
     due \<leftarrow> due_days month cares;
     let cells = map (\<lambda>d. day_cell p q (in_month month ss) notes now
                   (mk_Date (Year month) (Month month) (int d) 0 0 0 0 (tloc now)) d (logged ! d) (dueRows lower (due ! d) now))
                 [1..<month_days month + 1];
     Some \<lparr>cp_Back = ''/activity'', cp_Today = calendarPath, cp_Title = Month_String (Month month) @ '' '' @ Format_year month,
       cp_Previous = calendarHref (AddDate month 0 (-1) 0) None,
       cp_Next = (if Before month (lastCalendarMonth now) then calendarHref (AddDate month 0 1 0) None else ''''),
       cp_MonthDue = dueRows lower (filter in_some_month cares) now, cp_MonthDueTitle = ''Due in '' @ Month_String (Month month),
       cp_Weekdays = weekdays,
       cp_Weeks = weeks_from (replicate (mondayIndex month) blank_day) (map fst cells),
       cp_Sheet = foldl (\<lambda>open (cell, sheet). case sheet of None \<Rightarrow> open | Some s \<Rightarrow> Some s) None cells,
       cp_NoteSheet = None\<rparr>
   }"

text \<open>The queries of the page, in their order.\<close>

definition load_calendar :: "site \<Rightarrow> principal \<Rightarrow> calendar_query \<Rightarrow> gotime \<Rightarrow> (db_error, calendar_page) call" where
  "load_calendar si p q now =
     (let garden = ga_ID (pr_Garden p); month = cq_month q in
      and_then (reading (ListCareSchedules (si_collate si) garden)) (\<lambda>schedules.
      and_then (reading (ListLatestCareEvents garden)) (\<lambda>latest.
      and_then (reading (ListCareEventsBetween garden month (AddDate month 0 1 0))) (\<lambda>events.
      and_then (reading (ListMembers garden)) (\<lambda>members.
      and_then (reading (ListCalendarNotesBetween garden (AddDate month 0 1 (-1)) month)) (\<lambda>notes.
      case Resolve schedules latest now of
        None \<Rightarrow> fail Failure
      | Some lines \<Rightarrow>
          (case newCalendarPage (si_lower si) p q lines events (sittings si p members now) (calendarNotes p q notes now) now of
             None \<Rightarrow> fail Failure | Some page \<Rightarrow> return page)))))))"

section \<open>The slots of the days and the rows of the grid\<close>

lemma put_all_slots:
  assumes "list_all (\<lambda>(d, v). 0 \<le> d \<and> d < int (length slots)) vs"
  shows "\<exists>ys. put_all vs slots = Some ys \<and> length ys = length slots
    \<and> (\<forall>j < length slots. ys ! j = slots ! j @ map snd (filter (\<lambda>(d, v). d = int j) vs))"
  using assms
proof (induction vs arbitrary: slots)
  case (Cons x vs)
  obtain d v where x: "x = (d, v)" by fastforce
  let ?s = "slots[nat d := slots ! nat d @ [v]]"
  have d: "0 \<le> d" "d < int (length slots)" using Cons.prems x by simp_all
  obtain ys where ys: "put_all vs ?s = Some ys" "length ys = length slots"
    "\<forall>j < length slots. ys ! j = ?s ! j @ map snd (filter (\<lambda>(d, v). d = int j) vs)"
    using Cons.IH [of ?s] Cons.prems by auto
  have "?s ! j = slots ! j @ (if d = int j then [v] else [])" if "j < length slots" for j
    using d that by (auto simp: nth_list_update)
  with ys d x show ?case by (intro exI [of _ ys]) auto
qed simp

lemma weeks_from_grid:
  "length week < 7 \<Longrightarrow> \<exists>m < 7. concat (weeks_from week ds) = week @ ds @ replicate m blank_day"
  "length week < 7 \<Longrightarrow> list_all (\<lambda>wk. length wk = 7) (weeks_from week ds)"
proof (induction week ds rule: weeks_from.induct)
  case (1 week)
  { case 1
    then show ?case by (cases "week = []") (auto intro: exI [of _ "7 - length week"] exI [of _ 0])
  next
    case 2
    then show ?case by simp
  }
next
  case (2 week d ds)
  { case 1
    then show ?case using "2.IH"(1,3) by (cases "length week = 6") (fastforce simp: Let_def)+
  next
    case 2
    then show ?case using "2.IH"(2,4) by (cases "length week = 6") (fastforce simp: Let_def)+
  }
qed

section \<open>Months and days in a location that keeps dates\<close>

lemma month_day:
  assumes "keeps_dates l" "1 \<le> d" "d \<le> month_len k"
  shows "Day_of (midnight l (month_start k + (d - 1))) = d" "Month (midnight l (month_start k + (d - 1))) = k mod 12 + 1"
    "Year (midnight l (month_start k + (d - 1))) = k div 12"
  using civil_of_days_month [OF assms(2,3)] by (simp_all add: Day_of_def Month_def Year_def Date_of_midnight [OF assms(1)])

lemma midnightOn_day: "midnightOn t l = midnight l (day_of t)"
proof -
  obtain y m d where c: "civil_of_days (day_of t) = (y, m, d)" by (cases "civil_of_days (day_of t)") auto
  have "month_start (12 * y + m - 1) + (d - 1) = day_of t" using civil_month_of_day(1,2) [OF c] by metis
  then show ?thesis
    by (simp add: midnightOn_def mk_Date_midnight days_of_date_month_start Year_def Month_def Day_of_def Date_of_def c)
qed

lemma startOfMonth_month: "startOfMonth t = midnight (tloc t) (month_start (month_of_day (day_of t)))"
proof -
  obtain y m d where c: "civil_of_days (day_of t) = (y, m, d)" by (cases "civil_of_days (day_of t)") auto
  show ?thesis
    using civil_month_of_day(1) [OF c] by (simp add: startOfMonth_def mk_Date_month Year_def Month_def Date_of_def c)
qed

lemma AddDate_month_start:
  assumes "keeps_dates l"
  shows "AddDate (midnight l (month_start k)) 0 m d = midnight l (month_start (k + m) + d)"
proof -
  have "civil_of_days (month_start k) = (k div 12, k mod 12 + 1, 1)"
    using civil_of_days_month [of 1 k] month_len_bounds(1) [of k] by simp
  from AddDate_midnight [OF assms this] show ?thesis by simp
qed

lemma lastCalendarMonth_month:
  assumes "keeps_dates (tloc now)"
  shows "lastCalendarMonth now = midnight (tloc now) (month_start (month_of_day (day_of now) + 12))"
  by (simp add: lastCalendarMonth_def startOfMonth_month AddDate_month_start [OF assms] calendarMonths_def)

lemma month_days_len:
  assumes "keeps_dates l"
  shows "month_days (midnight l (month_start k)) = nat (month_len k)"
proof -
  have "month_start (k + 1) + -1 = month_start k + (month_len k - 1)" by (simp add: month_start_Suc)
  then show ?thesis
    using month_day(1) [OF assms, of "month_len k" k] month_len_bounds(1) [of k]
    by (simp only: month_days_def AddDate_month_start [OF assms])
qed

text \<open>The month a query shows: one whose first day is its start, at most the last of the calendar.\<close>

lemma parse_month:
  assumes "keeps_dates (tloc now)" "parseCalendarQuery values now = q"
  obtains k where "cq_month q = midnight (tloc now) (month_start k)" "k \<le> month_of_day (day_of now) + 12"
    "\<And>d. cq_day q = Some d \<Longrightarrow> \<exists>n. d = midnight (tloc now) n \<and> month_of_day n = k"
proof -
  let ?l = "tloc now" and ?c = "month_of_day (day_of now)"
  have m: "\<exists>k. cq_month q = midnight ?l (month_start k) \<and> k \<le> ?c + 12"
  proof (cases "Parse_month (values monthParam) ?l")
    case None
    then show ?thesis using assms(2) by (auto simp: parseCalendarQuery_def Let_def startOfMonth_month intro!: exI [of _ ?c])
  next
    case (Some m)
    then obtain j where j: "m = midnight ?l (month_start j)"
      by (auto simp: Parse_month_def mk_Date_month split: if_splits option.splits prod.splits)
    have "j \<le> ?c + 12" if "\<not> After m (lastCalendarMonth now)"
    proof (rule ccontr)
      assume "\<not> j \<le> ?c + 12"
      then have "month_start (?c + 12) < month_start j"
        using month_start_less [of "?c + 12" j] month_len_bounds(1) [of "?c + 12"] by (simp add: month_len_def)
      then show False using that j by (simp add: lastCalendarMonth_month [OF assms(1)] midnight_compare [OF assms(1)])
    qed
    moreover have "cq_month q = (if \<not> After m (lastCalendarMonth now) then m else midnight ?l (month_start ?c))"
      using Some assms(2) by (auto simp: parseCalendarQuery_def Let_def startOfMonth_month)
    ultimately show ?thesis
      using j by (cases "After m (lastCalendarMonth now)") (auto intro: exI [of _ j] exI [of _ ?c])
  qed
  then obtain k where k: "cq_month q = midnight ?l (month_start k)" "k \<le> ?c + 12" by blast
  moreover have "\<exists>n. d = midnight ?l n \<and> month_of_day n = k" if "cq_day q = Some d" for d
  proof -
    have "cq_day q = (case Parse_date_in (values dayParam) ?l of
        None \<Rightarrow> None | Some d \<Rightarrow> if Equal (startOfMonth d) (cq_month q) then Some d else None)"
      unfolding assms(2) [symmetric] parseCalendarQuery_def Let_def by (simp cong: option.case_cong)
    with that have "Parse_date_in (values dayParam) ?l = Some d \<and> Equal (startOfMonth d) (cq_month q)"
      by (simp split: option.splits if_splits)
    then obtain x where x: "d = midnightOn x ?l" "Equal (startOfMonth d) (cq_month q)" by (auto simp: Parse_date_in_def)
    have "month_start (month_of_day (day_of x)) = month_start k"
      using x by (simp add: midnightOn_day startOfMonth_month k(1) midnight_compare [OF assms(1)] keeps_dates.start_day [OF assms(1)])
    then have "month_of_day (month_start (month_of_day (day_of x))) = month_of_day (month_start k)" by (rule arg_cong)
    then show ?thesis using x(1) by (intro exI [of _ "day_of x"]) (simp add: midnightOn_day)
  qed
  ultimately show thesis by (rule that)
qed

section \<open>Every care is on its day\<close>

definition day_of_event :: "location \<Rightarrow> event_row \<Rightarrow> int" where
  "day_of_event l e = local_day l (unix_sec (ce_PerformedAt (er_CareEvent e)))"

definition day_of_due :: "location \<Rightarrow> due_care \<Rightarrow> int" where
  "day_of_due l c = local_day l (unix_sec (pj_At (snd c)))"

lemma between_midnights:
  assumes "keeps_dates l"
  shows "\<not> Before t (midnight l a) \<and> Before t (midnight l b) \<longleftrightarrow> a \<le> local_day l (unix_sec t) \<and> local_day l (unix_sec t) < b"
  using keeps_dates.start_order [OF assms, of "unix_sec t" a] keeps_dates.start_order [OF assms, of "unix_sec t" b]
  by (auto simp: Before_def nsec_less_midnight)

lemma day_number:
  assumes "month_of_day (day_of t) = k"
  shows "Day_of t = day_of t - month_start k + 1" "1 \<le> Day_of t" "Day_of t \<le> month_len k"
proof -
  obtain y m d where c: "civil_of_days (day_of t) = (y, m, d)" by (cases "civil_of_days (day_of t)") auto
  then have "Day_of t = d" by (simp add: Day_of_def Date_of_def)
  with civil_month_of_day(2-4) [OF c] assms
  show "Day_of t = day_of t - month_start k + 1" "1 \<le> Day_of t" "Day_of t \<le> month_len k" by auto
qed

text \<open>What a slice of the days of month \<open>k\<close> holds once every value is put under the number of its day.\<close>

lemma put_month:
  assumes "list_all (\<lambda>v. month_of_day (day_of (at v)) = k) vs"
  shows "\<exists>ys. put_all (map (\<lambda>v. (Day_of (at v), f v)) vs) (replicate (nat (month_len k) + 1) []) = Some ys
    \<and> (\<forall>j < nat (month_len k). ys ! (j + 1) = map f (filter (\<lambda>v. day_of (at v) = month_start k + int j) vs))"
proof -
  have "Day_of (at v) = day_of (at v) - month_start k + 1 \<and> 1 \<le> Day_of (at v) \<and> Day_of (at v) \<le> month_len k" if "v \<in> set vs" for v
    using day_number [of "at v" k] assms that by (auto simp: list_all_iff)
  note number = conjunct1 [OF this] conjunct1 [OF conjunct2 [OF this]] conjunct2 [OF conjunct2 [OF this]]
  have "list_all (\<lambda>(d, v). 0 \<le> d \<and> d < int (length (replicate (nat (month_len k) + 1) []))) (map (\<lambda>v. (Day_of (at v), f v)) vs)"
    using number(2,3) month_len_bounds(1) [of k] by (fastforce simp: list_all_iff)
  from put_all_slots [OF this] obtain ys where ys: "put_all (map (\<lambda>v. (Day_of (at v), f v)) vs) (replicate (nat (month_len k) + 1) []) = Some ys"
    "\<forall>j < nat (month_len k) + 1. ys ! j = replicate (nat (month_len k) + 1) [] ! j
       @ map snd (filter (\<lambda>(d, v). d = int j) (map (\<lambda>v. (Day_of (at v), f v)) vs))"
    by auto
  have "ys ! (j + 1) = map f (filter (\<lambda>v. day_of (at v) = month_start k + int j) vs)" if j: "j < nat (month_len k)" for j
  proof -
    have "filter (\<lambda>v. Day_of (at v) = int (j + 1)) vs = filter (\<lambda>v. day_of (at v) = month_start k + int j) vs"
      using number(1) by (intro filter_cong) auto
    moreover have "replicate (nat (month_len k) + 1) [] ! (j + 1) = []" using j by (simp del: replicate.simps)
    ultimately show ?thesis using ys(2) [rule_format, of "j + 1"] j by (simp add: filter_map comp_def)
  qed
  with ys(1) show ?thesis by blast
qed

lemma due_cares_month:
  assumes "keeps_dates (tloc now)" "\<And>line. line \<in> set lines \<Longrightarrow> schedule_wf (ln_Schedule line)"
    and "month = midnight (tloc now) (month_start k)"
  shows "\<exists>cares. due_cares month now lines = Some cares
    \<and> list_all (\<lambda>c. tloc (pj_At (snd c)) = tloc now \<and> month_of_day (day_of_due (tloc now) c) = k) cares"
  using assms(2)
proof (induction lines)
  case Nil
  then show ?case by (simp add: due_cares_def)
next
  case (Cons line lines)
  then obtain cares where cares: "due_cares month now lines = Some cares"
    "list_all (\<lambda>c. tloc (pj_At (snd c)) = tloc now \<and> month_of_day (day_of_due (tloc now) c) = k) cares" by auto
  have k: "month_of_day (local_day (tloc now) (unix_sec month)) = k" using assms(1,3) by simp
  obtain ps where ps: "InMonth (ln_Schedule line) (ln_Last line) month now = Some ps"
    "date_list (ln_Schedule line) (tloc now) (month_start k) (month_start (k + 1)) ps"
    using InMonth_dates [OF assms(1) Cons.prems [of line], of "ln_Last line" month] k by auto
  have "tloc (pj_At x) = tloc now \<and> month_of_day (day_of_due (tloc now) (line, x)) = k" if "x \<in> set ps" for x
  proof -
    obtain ns where ns: "map pj_At ps = map (midnight (tloc now)) ns" "\<forall>n \<in> set ns. month_start k \<le> n \<and> n < month_start (k + 1)"
      using ps(2) by (auto simp: date_list_def)
    have "pj_At x \<in> midnight (tloc now) ` set ns" using that ns(1) by (metis image_eqI image_set)
    then show ?thesis using ns(2) assms(1) by (auto simp: day_of_due_def dest: month_of_day_unique)
  qed
  then show ?case
    using cares ps(1) by (intro exI [of _ "map (Pair line) ps @ cares"])
      (auto simp: due_cares_def line_dates_def list_all_iff)
qed

lemma day_cell_counts:
  "cy_Number (fst (day_cell p q ss notes now date d logged due)) = d"
  "cy_ID (fst (day_cell p q ss notes now date d logged due)) = dayID date"
  "length (cy_Shown (fst (day_cell p q ss notes now date d logged due))) + cy_More (fst (day_cell p q ss notes now date d logged due))
     = length logged + length due"
  by (auto simp: day_cell_def Let_def min_def)

lemma day_cell_sheet:
  "\<not> (\<exists>day. cq_day q = Some day \<and> Equal day date) \<Longrightarrow> snd (day_cell p q ss notes now date d logged due) = None"
  "cq_day q = Some day \<Longrightarrow> Equal day date \<Longrightarrow>
     (case snd (day_cell p q ss notes now date d logged due) of
        None \<Rightarrow> logged = [] \<and> due = [] | Some s \<Rightarrow> ds_Logged s = logged \<and> ds_Due s = due)"
  by (auto simp: day_cell_def Let_def split: option.splits)

definition open_sheet :: "(calendar_day \<times> day_sheet option) list \<Rightarrow> day_sheet option" where
  "open_sheet cells = foldl (\<lambda>open (cell, sheet). case sheet of None \<Rightarrow> open | Some s \<Rightarrow> Some s) None cells"

lemma open_sheet_only:
  assumes "i < length cells" "\<And>j. j < length cells \<Longrightarrow> j \<noteq> i \<Longrightarrow> snd (cells ! j) = None"
  shows "open_sheet cells = snd (cells ! i)"
proof -
  have keep: "foldl (\<lambda>open (cell, sheet). case sheet of None \<Rightarrow> open | Some s \<Rightarrow> Some s) s cs = s"
    if "list_all (\<lambda>c. snd c = None) cs" for s and cs :: "(calendar_day \<times> day_sheet option) list"
    using that by (induction cs) (auto split: option.splits)
  have "list_all (\<lambda>c. snd c = None) (take i cells)" "list_all (\<lambda>c. snd c = None) (drop (Suc i) cells)"
    using assms by (simp_all add: list_all_length)
  then show ?thesis
    by (subst id_take_nth_drop [OF assms(1)]) (simp add: open_sheet_def keep split: prod.split option.split)
qed

text \<open>What the page shows of month \<open>k\<close>: rows of seven cells, the month's days in order after the empty
  cells before its first weekday, each counting what was logged and what falls due on it; the cares due
  some time in the month apart; and the sheet of the open day with exactly that day's rows.\<close>

definition month_shown ::
  "(string \<Rightarrow> string) \<Rightarrow> principal \<Rightarrow> calendar_query \<Rightarrow> gotime \<Rightarrow> int \<Rightarrow> event_row list \<Rightarrow> due_care list \<Rightarrow> calendar_page \<Rightarrow> bool" where
  "month_shown lower p q now k events cares page \<longleftrightarrow>
     (let l = tloc now; len = nat (month_len k);
          logged_on = (\<lambda>n. filter (\<lambda>e. day_of_event l e = n) events);
          due_on = (\<lambda>n. filter (\<lambda>c. \<not> in_some_month c \<and> day_of_due l c = n) cares)
      in list_all (\<lambda>wk. length wk = 7) (cp_Weeks page)
       \<and> (\<exists>cells m. m < 7 \<and> length cells = len
            \<and> concat (cp_Weeks page) = replicate (mondayIndex (cq_month q)) blank_day @ cells @ replicate m blank_day
            \<and> (\<forall>j < len. cy_Number (cells ! j) = j + 1 \<and> cy_ID (cells ! j) = dayID (midnight l (month_start k + int j))
                 \<and> length (cy_Shown (cells ! j)) + cy_More (cells ! j)
                   = length (logged_on (month_start k + int j)) + length (due_on (month_start k + int j))))
       \<and> cp_MonthDue page = dueRows lower (filter in_some_month cares) now
       \<and> (\<forall>n. cq_day q = Some (midnight l n) \<and> month_of_day n = k \<longrightarrow>
            (case cp_Sheet page of
               None \<Rightarrow> logged_on n = [] \<and> due_on n = []
             | Some s \<Rightarrow> ds_Logged s = map (\<lambda>e. newLoggedRow lower p e now) (logged_on n)
                 \<and> ds_Due s = dueRows lower (due_on n) now)))"

lemma month_slots:
  assumes l: "keeps_dates (tloc now)" and month: "month = midnight (tloc now) (month_start k)"
    and lines: "\<And>line. line \<in> set lines \<Longrightarrow> schedule_wf (ln_Schedule line)"
    and events: "list_all (\<lambda>e. month_of_day (day_of_event (tloc now) e) = k) events"
  obtains cares logged due where "due_cares month now lines = Some cares" "logged_days lower p month events now = Some logged"
    "due_days month cares = Some due"
    "\<And>j. j < nat (month_len k) \<Longrightarrow> logged ! (j + 1)
       = map (\<lambda>e. newLoggedRow lower p e now) (filter (\<lambda>e. day_of_event (tloc now) e = month_start k + int j) events)"
    "\<And>j. j < nat (month_len k) \<Longrightarrow> due ! (j + 1)
       = filter (\<lambda>c. \<not> in_some_month c \<and> day_of_due (tloc now) c = month_start k + int j) cares"
proof -
  let ?l = "tloc now" and ?len = "nat (month_len k)"
  note len = month_days_len [OF l, of k, folded month]
  obtain cares where cares: "due_cares month now lines = Some cares"
    "list_all (\<lambda>c. tloc (pj_At (snd c)) = ?l \<and> month_of_day (day_of_due ?l c) = k) cares"
    using due_cares_month [OF l lines month] by auto
  have "list_all (\<lambda>e. month_of_day (day_of (In_loc (ce_PerformedAt (er_CareEvent e)) ?l)) = k) events"
    using events by (simp add: day_of_event_def)
  from put_month [OF this, of "\<lambda>e. newLoggedRow lower p e now"] obtain logged where logged:
    "logged_days lower p month events now = Some logged"
    "\<And>j. j < ?len \<Longrightarrow> logged ! (j + 1)
       = map (\<lambda>e. newLoggedRow lower p e now) (filter (\<lambda>e. day_of_event ?l e = month_start k + int j) events)"
    by (auto simp: logged_days_def len day_of_event_def)
  have at: "day_of (pj_At (snd c)) = day_of_due ?l c" if "c \<in> set cares" for c
    using cares(2) that by (simp add: list_all_iff day_of_due_def)
  then have "list_all (\<lambda>c. month_of_day (day_of (pj_At (snd c))) = k) (filter (\<lambda>c. \<not> in_some_month c) cares)"
    using cares(2) by (simp add: list_all_iff)
  from put_month [OF this, of id] obtain due where due: "due_days month cares = Some due"
    "\<And>j. j < ?len \<Longrightarrow> due ! (j + 1) = filter (\<lambda>c. day_of (pj_At (snd c)) = month_start k + int j) (filter (\<lambda>c. \<not> in_some_month c) cares)"
    by (auto simp: due_days_def len)
  have "due ! (j + 1) = filter (\<lambda>c. \<not> in_some_month c \<and> day_of_due ?l c = month_start k + int j) cares" if "j < ?len" for j
    unfolding due(2) [OF that] filter_filter by (intro filter_cong) (auto simp: at)
  from that [OF cares(1) logged(1) due(1) logged(2) this] show thesis .
qed

lemma newCalendarPage_month:
  assumes l: "keeps_dates (tloc now)" and month: "cq_month q = midnight (tloc now) (month_start k)"
    and lines: "\<And>line. line \<in> set lines \<Longrightarrow> schedule_wf (ln_Schedule line)"
    and events: "list_all (\<lambda>e. month_of_day (day_of_event (tloc now) e) = k) events"
  shows "\<exists>cares page. due_cares (cq_month q) now lines = Some cares
    \<and> newCalendarPage lower p q lines events ss notes now = Some page \<and> month_shown lower p q now k events cares page"
proof -
  let ?l = "tloc now" and ?len = "nat (month_len k)"
  note len = month_days_len [OF l, of k, folded month]
  obtain cares logged due where cares: "due_cares (cq_month q) now lines = Some cares"
    and logged: "logged_days lower p (cq_month q) events now = Some logged" and due: "due_days (cq_month q) cares = Some due"
    and slots: "\<And>j. j < ?len \<Longrightarrow> logged ! (j + 1)
       = map (\<lambda>e. newLoggedRow lower p e now) (filter (\<lambda>e. day_of_event ?l e = month_start k + int j) events)"
      "\<And>j. j < ?len \<Longrightarrow> due ! (j + 1) = filter (\<lambda>c. \<not> in_some_month c \<and> day_of_due ?l c = month_start k + int j) cares"
    by (rule month_slots [OF l month lines events, where lines = lines and lower = lower and p = p]) (assumption, rule that)
  define logged_on where "logged_on n = filter (\<lambda>e. day_of_event ?l e = n) events" for n
  define due_on where "due_on n = filter (\<lambda>c. \<not> in_some_month c \<and> day_of_due ?l c = n) cares" for n
  let ?date = "\<lambda>d. mk_Date (Year (cq_month q)) (Month (cq_month q)) (int d) 0 0 0 0 ?l"
  have date: "?date (j + 1) = midnight ?l (month_start k + int j)" for j
    using month_day(2,3) [OF l, of 1 k] month_len_bounds(1) [of k]
    by (simp add: month mk_Date_midnight days_of_date_month_start)
  define cells where "cells = map (\<lambda>d. day_cell p q (in_month (cq_month q) ss) notes now (?date d) d (logged ! d)
    (dueRows lower (due ! d) now)) [1..<?len + 1]"
  have cell: "cells ! j = day_cell p q (in_month (cq_month q) ss) notes now (midnight ?l (month_start k + int j)) (j + 1)
      (map (\<lambda>e. newLoggedRow lower p e now) (logged_on (month_start k + int j))) (dueRows lower (due_on (month_start k + int j)) now)"
    if "j < ?len" for j
    using that slots(1) [OF that] slots(2) [OF that] date [of j] by (simp add: cells_def logged_on_def due_on_def del: upt_Suc)
  have n: "length cells = ?len" by (simp add: cells_def)
  define page where "page = the (newCalendarPage lower p q lines events ss notes now)"
  have page: "newCalendarPage lower p q lines events ss notes now = Some page"
    "cp_Weeks page = weeks_from (replicate (mondayIndex (cq_month q)) blank_day) (map fst cells)"
    "cp_Sheet page = open_sheet cells" "cp_MonthDue page = dueRows lower (filter in_some_month cares) now"
    by (simp_all add: page_def newCalendarPage_def logged cares due Let_def len open_sheet_def cells_def del: upt_Suc)
  have monday: "mondayIndex (cq_month q) < 7" by (simp add: mondayIndex_def)
  obtain m where weeks: "m < 7" "concat (cp_Weeks page) = replicate (mondayIndex (cq_month q)) blank_day @ map fst cells @ replicate m blank_day"
    using weeks_from_grid(1) [of "replicate (mondayIndex (cq_month q)) blank_day" "map fst cells"] monday page(2) by auto
  have rows: "length (dueRows lower xs now) = length xs" for xs by (simp add: dueRows_def)
  have counts: "cy_Number (map fst cells ! j) = j + 1 \<and> cy_ID (map fst cells ! j) = dayID (midnight ?l (month_start k + int j))
      \<and> length (cy_Shown (map fst cells ! j)) + cy_More (map fst cells ! j)
        = length (logged_on (month_start k + int j)) + length (due_on (month_start k + int j))" if "j < ?len" for j
    using that by (simp add: n cell day_cell_counts rows)
  have sheet: "case cp_Sheet page of None \<Rightarrow> logged_on d = [] \<and> due_on d = []
      | Some s \<Rightarrow> ds_Logged s = map (\<lambda>e. newLoggedRow lower p e now) (logged_on d) \<and> ds_Due s = dueRows lower (due_on d) now"
    if "cq_day q = Some (midnight ?l d)" "month_of_day d = k" for d
  proof -
    define j where "j = nat (d - month_start k)"
    have j: "d = month_start k + int j" "j < ?len"
      using month_of_day_bounds [of d] that(2) by (auto simp: j_def month_start_Suc)
    have others: "snd (cells ! i) = None" if "i < length cells" "i \<noteq> j" for i
      using that j \<open>cq_day q = Some (midnight ?l d)\<close> unfolding cell [OF that(1) [unfolded n]]
      by (intro day_cell_sheet(1)) (auto simp: midnight_compare [OF l])
    have open_j: "cp_Sheet page = snd (cells ! j)"
      unfolding page(3) by (rule open_sheet_only) (use n j(2) others in auto)
    have "case snd (cells ! j) of None \<Rightarrow> map (\<lambda>e. newLoggedRow lower p e now) (logged_on d) = [] \<and> dueRows lower (due_on d) now = []
      | Some s \<Rightarrow> ds_Logged s = map (\<lambda>e. newLoggedRow lower p e now) (logged_on d) \<and> ds_Due s = dueRows lower (due_on d) now"
      unfolding cell [OF j(2)] j(1) [symmetric]
      by (rule day_cell_sheet(2) [OF that(1)]) (simp add: midnight_compare [OF l])
    moreover have "dueRows lower (due_on d) now = [] \<longleftrightarrow> due_on d = []" using rows [of "due_on d"] by (metis length_0_conv)
    ultimately show ?thesis unfolding open_j by (cases "snd (cells ! j)") simp_all
  qed
  have "month_shown lower p q now k events cares page"
    unfolding month_shown_def Let_def logged_on_def [symmetric] due_on_def [symmetric]
  proof (intro conjI allI impI)
    show "list_all (\<lambda>wk. length wk = 7) (cp_Weeks page)"
      unfolding page(2) by (rule weeks_from_grid(2)) (simp add: monday)
    show "\<exists>cs m. m < 7 \<and> length cs = ?len
        \<and> concat (cp_Weeks page) = replicate (mondayIndex (cq_month q)) blank_day @ cs @ replicate m blank_day
        \<and> (\<forall>j < ?len. cy_Number (cs ! j) = j + 1 \<and> cy_ID (cs ! j) = dayID (midnight ?l (month_start k + int j))
             \<and> length (cy_Shown (cs ! j)) + cy_More (cs ! j)
               = length (logged_on (month_start k + int j)) + length (due_on (month_start k + int j)))"
      using weeks counts n by (intro exI [of _ "map fst cells"] exI [of _ m]) simp
  qed (rule page(4), use sheet in blast)
  with cares page(1) show ?thesis by blast
qed

definition month_events :: "uuid \<Rightarrow> location \<Rightarrow> int \<Rightarrow> db \<Rightarrow> event_row list" where
  "month_events garden l k d =
     filter (\<lambda>e. ce_GardenID (er_CareEvent e) = garden \<and> month_of_day (day_of_event l e) = k) (event_rows d)"

lemma month_of_day_between: "month_of_day n = k \<longleftrightarrow> month_start k \<le> n \<and> n < month_start (k + 1)"
  using month_of_day_bounds [of n] month_of_day_unique [of k n] by blast

lemma events_between:
  assumes "keeps_dates l"
  shows "\<exists>events. ListCareEventsBetween garden (midnight l (month_start k)) (midnight l (month_start (k + 1))) d = Inr events
    \<and> mset events = mset (month_events garden l k d)"
proof -
  have "filter (\<lambda>r. ce_GardenID (er_CareEvent r) = garden \<and> \<not> Before (ce_PerformedAt (er_CareEvent r)) (midnight l (month_start k))
      \<and> Before (ce_PerformedAt (er_CareEvent r)) (midnight l (month_start (k + 1)))) (event_rows d) = month_events garden l k d"
    unfolding month_events_def day_of_event_def month_of_day_between between_midnights [OF assms] ..
  then show ?thesis by (simp add: ListCareEventsBetween_def)
qed

lemma weekday_column:
  assumes "keeps_dates l"
  shows "Weekday (midnight l (month_start k + int j)) = (int (mondayIndex (midnight l (month_start k))) + int j + 1) mod 7"
proof -
  have "int (mondayIndex (midnight l (month_start k))) = (month_start k + 10) mod 7"
    using assms by (simp add: mondayIndex_def Weekday_def mod_add_right_eq add.commute add.left_commute)
  moreover have "((month_start k + 10) mod 7 + (int j + 1)) mod 7 = (month_start k + 10 + (int j + 1)) mod 7"
    by (rule mod_add_left_eq)
  moreover have "month_start k + 10 + (int j + 1) = month_start k + int j + 4 + 7" by simp
  ultimately have "(int (mondayIndex (midnight l (month_start k))) + int j + 1) mod 7 = (month_start k + int j + 4 + 7) mod 7"
    by (simp only: add.assoc)
  moreover have "Weekday (midnight l (month_start k + int j)) = (month_start k + int j + 4) mod 7"
    using assms by (simp add: Weekday_def)
  ultimately show ?thesis by (simp only: mod_add_self2)
qed

text \<open>
  (C9) The calendar shows the month, all of it and once.  In a zone that keeps dates, when no database
  call fails and every stored schedule passes the schema's checks and has, if it has a season, one of
  months 1 to 12, every request for the calendar gets a page, whatever month and day it names: no index
  is out of range and every cadence ends.  The month's days fill the grid
  in order under their weekdays, each counting the garden's care performed on it and the dates its
  schedules fall due on it; the cares due some time in the month stand apart; and the sheet of the
  day that is asked for lists exactly that day's.  In a zone that skips a midnight it is otherwise:
  \<open>calendar_midnight_gap\<close> below.
\<close>

theorem calendar_month_complete:
  assumes "keeps_dates (locationFor si (pr_User p))" "faults w = []"
    and "list_all care_schedule_checks (t_care_schedule (tables w))"
    and "list_all season_months (t_care_schedule (tables w))"
  shows "let now = In_loc clock (locationFor si (pr_User p)); q = parseCalendarQuery url now; k = month_of_day (day_of (cq_month q))
    in \<exists>page lines events cares.
        Resolve (projr (ListCareSchedules (si_collate si) (ga_ID (pr_Garden p)) (tables w)))
          (projr (ListLatestCareEvents (ga_ID (pr_Garden p)) (tables w))) now = Some lines
      \<and> due_cares (cq_month q) now lines = Some cares
      \<and> mset events = mset (month_events (ga_ID (pr_Garden p)) (tloc now) k (tables w))
      \<and> load_calendar si p q now w = (Inr page, w)
      \<and> month_shown (si_lower si) p q now k events cares page
      \<and> (\<forall>j. Weekday (midnight (tloc now) (month_start k + int j)) = (int (mondayIndex (cq_month q)) + int j + 1) mod 7)"
proof -
  define now where "now = In_loc clock (locationFor si (pr_User p))"
  define q where "q = parseCalendarQuery url now"
  define garden where "garden = ga_ID (pr_Garden p)"
  have l: "keeps_dates (tloc now)" using assms(1) by (simp add: now_def)
  obtain k where month: "cq_month q = midnight (tloc now) (month_start k)" by (rule parse_month [OF l q_def [symmetric]])
  then have k: "month_of_day (day_of (cq_month q)) = k" using l by simp
  have weekday: "Weekday (midnight (tloc now) (month_start k + int j)) = (int (mondayIndex (cq_month q)) + int j + 1) mod 7" for j
    unfolding month by (rule weekday_column [OF l])
  obtain schedules where schedules: "ListCareSchedules (si_collate si) garden (tables w) = Inr schedules"
    by (simp add: ListCareSchedules_def)
  obtain latest where latest: "ListLatestCareEvents garden (tables w) = Inr latest" by (simp add: ListLatestCareEvents_def)
  have wf: "list_all schedule_wf (t_care_schedule (tables w))"
    using assms(3,4) by (simp add: list_all_iff schedule_wf_def)
  then have "\<forall>r \<in> set schedules. schedule_wf (sr_CareSchedule r)"
    using schedules by (auto simp: ListCareSchedules_def list_all_iff)
  then obtain lines where lines: "Resolve schedules latest now = Some lines" using Resolve_lines [OF l] by blast
  have checks: "schedule_wf (ln_Schedule line)" if "line \<in> set lines" for line
    using lines_schedules [OF schedules lines that] wf by (auto simp: list_all_iff)
  obtain events where events: "ListCareEventsBetween garden (cq_month q) (AddDate (cq_month q) 0 1 0) (tables w) = Inr events"
    "mset events = mset (month_events garden (tloc now) k (tables w))"
    using events_between [OF l, of garden k "tables w"] by (auto simp: month AddDate_month_start [OF l])
  have "list_all (\<lambda>e. month_of_day (day_of_event (tloc now) e) = k) events"
    using mset_eq_setD [OF events(2)] by (auto simp: list_all_iff month_events_def)
  from newCalendarPage_month [OF l month checks this] obtain cares page where page:
    "due_cares (cq_month q) now lines = Some cares"
    "newCalendarPage (si_lower si) p q lines events (sittings si p (projr (ListMembers garden (tables w))) now)
       (calendarNotes p q (projr (ListCalendarNotesBetween garden (AddDate (cq_month q) 0 1 (-1)) (cq_month q) (tables w))) now) now = Some page"
    "month_shown (si_lower si) p q now k events cares page"
    by blast
  have "load_calendar si p q now w = (Inr page, w)"
    using page(2) assms(2)
    by (simp add: load_calendar_def and_then_def Let_def return_def garden_def [symmetric] schedules latest events(1) lines
        ListMembers_def ListCalendarNotesBetween_def)
  with page(1,3) events(2) lines schedules latest weekday show ?thesis
    unfolding Let_def now_def [symmetric] q_def [symmetric] garden_def [symmetric] k by auto
qed

theorem calendar_month_complete_witness:
  "\<exists>page. load_calendar ex_site ex_sitter (parseCalendarQuery (\<lambda>_. '''') (In_loc zero_time utc)) (In_loc zero_time utc)
       \<lparr>tables = ex_tables\<lparr>t_care_schedule := [ex_weekly]\<rparr>, faults = []\<rparr>
     = (Inr page, \<lparr>tables = ex_tables\<lparr>t_care_schedule := [ex_weekly]\<rparr>, faults = []\<rparr>)
     \<and> list_all (\<lambda>wk. length wk = 7) (cp_Weeks page)"
proof -
  have l: "locationFor ex_site (pr_User ex_sitter) = utc" by (simp add: locationFor_def ex_site_def)
  have "keeps_dates (locationFor ex_site (pr_User ex_sitter))" unfolding l by (rule utc_zone.keeps_dates_axioms)
  moreover have "list_all care_schedule_checks (t_care_schedule (tables \<lparr>tables = ex_tables\<lparr>t_care_schedule := [ex_weekly]\<rparr>, faults = []\<rparr>))"
    "list_all season_months (t_care_schedule (tables \<lparr>tables = ex_tables\<lparr>t_care_schedule := [ex_weekly]\<rparr>, faults = []\<rparr>))"
    by (simp_all add: care_schedule_checks_def season_months_def ex_weekly_def row_simps)
  ultimately show ?thesis
    using calendar_month_complete [of ex_site ex_sitter "\<lparr>tables = ex_tables\<lparr>t_care_schedule := [ex_weekly]\<rparr>, faults = []\<rparr>"
        zero_time "\<lambda>_. ''''"] l
    by (auto simp: Let_def month_shown_def)
qed

text \<open>
  A zone west of UTC whose clocks skip a midnight does not keep dates.  The cell of the day that has
  no midnight has the id and the link of the day before, so its own sheet cannot be opened from the
  grid, and a note posted for it is stored on the day before.
\<close>

lemma gap_dates:
  "Date_of (mk_Date 2026 3 29 0 0 0 0 azores_2026) = (2026, 3, 28)"
  "Date_of (mk_Date 2026 3 28 0 0 0 0 azores_2026) = (2026, 3, 28)"
  by code_simp+

lemma gap_parse: "Parse_dateKey ''2026-03-29'' = Some (mk_Date 2026 3 29 0 0 0 0 utc)"
proof -
  have "key_date 2026 3 29" "format_date 2026 3 29 = ''2026-03-29''" by code_simp+
  then show ?thesis using Parse_format_date [of 2026 3 29] by simp
qed

theorem calendar_midnight_gap:
  "dayID (mk_Date 2026 3 29 0 0 0 0 azores_2026) = dayID (mk_Date 2026 3 28 0 0 0 0 azores_2026)
   \<and> calendarHref month (Some (mk_Date 2026 3 29 0 0 0 0 azores_2026)) = calendarHref month (Some (mk_Date 2026 3 28 0 0 0 0 azores_2026))
   \<and> map_option (\<lambda>d. Date_of (date_column d)) (Parse_date_in ''2026-03-29'' azores_2026) = Some (2026, 3, 28)"
proof -
  have "Date_of (mk_Date 2026 3 29 0 0 0 0 utc) = (2026, 3, 29)" "Date_of (mk_Date 2026 3 28 0 0 0 0 utc) = (2026, 3, 28)"
    by code_simp+
  then show ?thesis
    by (simp add: dayID_def calendarHref_def Format_dateKey_def gap_dates Parse_date_in_def gap_parse midnightOn_def Year_def Month_def
        Day_of_def date_column_def)
qed

end
