(* ===== verification/Http_Calendar_Note.thy ===== *)
theory Http_Calendar_Note
  imports Http_Calendar
begin

text \<open>
  The notes of the calendar (\<open>calendar_note.go\<close>): the Add note and Edit note sheet, what the form
  accepts, and the handlers that write, change and delete a note, with the calendar's own page of
  \<open>calendar.go\<close>.  Proved here: what is stored, that a stored note is on the calendar, and that
  saving the sheet as it opens changes nothing.
\<close>

section \<open>The sheet and the form\<close>

definition noteSheetTemplate :: string where "noteSheetTemplate = ''note-sheet''"
definition noteMissing :: string where "noteMissing = ''Enter a note.''"
definition firstDayUnusable :: string where "firstDayUnusable = ''Enter a first day.''"
definition lastDayUnusable :: string where "lastDayUnusable = ''Enter a last day or leave it empty.''"
definition lastDayTooEarly :: string where "lastDayTooEarly = ''Choose a last day on or after the first.''"

definition firstDayTooLate :: "gotime \<Rightarrow> string" where
  "firstDayTooLate final = ''Choose a first day on or before '' @ Format_long_day_year final @ ''.''"

definition lastNoteDay :: "gotime \<Rightarrow> gotime" where
  "lastNoteDay now = AddDate (lastCalendarMonth now) 0 1 (-1)"

record note_draft =
  nd_Text :: string
  nd_First :: string
  nd_Last :: string

definition readNoteDraft :: "site \<Rightarrow> form \<Rightarrow> note_draft" where
  "readNoteDraft si values =
     \<lparr>nd_Text = si_TrimSpace si (values ''text''), nd_First = si_TrimSpace si (values ''first''),
      nd_Last = si_TrimSpace si (values ''last'')\<rparr>"

text \<open>\<open>days\<close>: a refusal, or the first and last day.\<close>

definition note_days :: "note_draft \<Rightarrow> gotime \<Rightarrow> string + gotime \<times> gotime" where
  "note_days d now =
     (if nd_Text d = '''' then Inl noteMissing
      else
        (case Parse_date_in (nd_First d) (tloc now) of
           None \<Rightarrow> Inl firstDayUnusable
         | Some first \<Rightarrow>
             if After first (lastNoteDay now) then Inl (firstDayTooLate (lastNoteDay now))
             else if nd_Last d = '''' then Inr (first, first)
             else
               (case Parse_date_in (nd_Last d) (tloc now) of
                  None \<Rightarrow> Inl lastDayUnusable
                | Some final \<Rightarrow> if Before final first then Inl lastDayTooEarly else Inr (first, final))))"

record note_request =
  nr_now :: gotime
  nr_q :: calendar_query

definition noteRequest :: "site \<Rightarrow> principal \<Rightarrow> form \<Rightarrow> gotime \<Rightarrow> note_request" where
  "noteRequest si p url clock =
     (let now = In_loc clock (locationFor si (pr_User p)) in \<lparr>nr_now = now, nr_q = parseCalendarQuery url now\<rparr>)"

definition new_note_sheet :: "note_request \<Rightarrow> note_sheet" where
  "new_note_sheet n =
     \<lparr>ns_Title = ''Add note'', ns_Path = notesPath @ ''?'' @ noteQuery (cq_month (nr_q n)) None, ns_Text = '''', ns_First = '''',
      ns_Last = '''', ns_Max = '''', ns_Error = '''', ns_Button = ''Add note'', ns_Delete = ''''\<rparr>"

definition editNoteSheet :: "calendar_note \<Rightarrow> gotime \<Rightarrow> note_sheet" where
  "editNoteSheet note month =
     \<lparr>ns_Title = ''Edit note'', ns_Path = notePath (cn_ID note) month, ns_Text = cn_Text note,
      ns_First = Format_dateKey (cn_StartsOn note),
      ns_Last = (if \<not> Equal (cn_EndsOn note) (cn_StartsOn note) then Format_dateKey (cn_EndsOn note) else ''''),
      ns_Max = '''', ns_Error = '''', ns_Button = ''Save changes'',
      ns_Delete = notesPath @ ''/'' @ cn_ID note @ ''/delete?'' @ noteQuery month None\<rparr>"

section \<open>The handlers\<close>

text \<open>A note's sheet is the fragment alone, or a whole page with the sheet over it; a changed note swaps
  the grid.\<close>

datatype calendar_view =
    Calendar_view string calendar_page
  | Note_fragment string note_sheet
  | Note_changed calendar_page

type_synonym calendar_told = "(calendar_view, string) page_answer"

definition show_calendar :: "site \<Rightarrow> principal \<Rightarrow> form \<Rightarrow> bool \<Rightarrow> string \<Rightarrow> gotime \<Rightarrow> world \<Rightarrow> calendar_told \<times> world" where
  "show_calendar si p url historyRestore target clock =
     (let now = In_loc clock (locationFor si (pr_User p)) in
      answering (load_calendar si p (parseCalendarQuery url now) now) (\<lambda>_. Server_error)
        (\<lambda>page w. (Page (Calendar_view (calendarFragment historyRestore target) page), w)))"

definition renderNoteSheet ::
  "site \<Rightarrow> principal \<Rightarrow> bool \<Rightarrow> note_request \<Rightarrow> note_sheet \<Rightarrow> string \<Rightarrow> world \<Rightarrow> calendar_told \<times> world" where
  "renderNoteSheet si p htmx n s fragment =
     (let s = s\<lparr>ns_Max := Format_dateKey (lastNoteDay (nr_now n))\<rparr> in
      if htmx then (\<lambda>w. (Page (Note_fragment fragment s), w))
      else answering (load_calendar si p (nr_q n) (nr_now n)) (\<lambda>_. Server_error)
        (\<lambda>page w. (Page (Calendar_view '''' (page\<lparr>cp_NoteSheet := Some s\<rparr>)), w)))"



definition newNote :: "site \<Rightarrow> principal \<Rightarrow> form \<Rightarrow> bool \<Rightarrow> gotime \<Rightarrow> world \<Rightarrow> calendar_told \<times> world" where
  "newNote si p url htmx clock =
     (let n = noteRequest si p url clock;
          first = (case cq_day (nr_q n) of None \<Rightarrow> midnightOn (nr_now n) (tloc (nr_now n)) | Some d \<Rightarrow> d)
      in renderNoteSheet si p htmx n ((new_note_sheet n)\<lparr>ns_First := Format_dateKey first\<rparr>) noteSheetTemplate)"


definition noteID :: "site \<Rightarrow> string \<Rightarrow> uuid option" where
  "noteID si path = si_parse_uuid si path"

definition readNote ::
  "site \<Rightarrow> principal \<Rightarrow> string \<Rightarrow> (calendar_note \<Rightarrow> world \<Rightarrow> calendar_told \<times> world) \<Rightarrow> world \<Rightarrow> calendar_told \<times> world" where
  "readNote si p path k =
     (case noteID si path of
        None \<Rightarrow> (\<lambda>w. (Not_found, w))
      | Some i \<Rightarrow> answering (reading (GetCalendarNote (ga_ID (pr_Garden p)) i)) missing k)"

definition editNote :: "site \<Rightarrow> principal \<Rightarrow> string \<Rightarrow> form \<Rightarrow> bool \<Rightarrow> gotime \<Rightarrow> world \<Rightarrow> calendar_told \<times> world" where
  "editNote si p path url htmx clock =
     (let n = noteRequest si p url clock in
      readNote si p path (\<lambda>note.
        renderNoteSheet si p htmx n (editNoteSheet note (cq_month (nr_q n))) noteSheetTemplate))"





section \<open>The days of a note\<close>

lemma date_column_read: "local_day l (day_start l n) = n \<Longrightarrow> date_column (midnight l n) = midnight utc n"
  using midnightOn_day [of "midnight l n" utc] unfolding midnightOn_def Year_def Month_def Day_of_def
  by (cases "Date_of (midnight l n)") (simp add: date_column_def)

lemma date_column_midnight: "keeps_dates l \<Longrightarrow> date_column (midnight l n) = midnight utc n"
  by (simp add: date_column_read keeps_dates.start_day)

lemma midnightOn_utc: "midnightOn (midnight utc n) l = midnight l n"
  by (simp add: midnightOn_day utc_zone.start_day)

lemma lastNoteDay_month:
  assumes "keeps_dates (tloc now)"
  shows "lastNoteDay now = midnight (tloc now) (month_start (month_of_day (day_of now) + 13) - 1)"
  by (simp add: lastNoteDay_def lastCalendarMonth_month [OF assms] AddDate_month_start [OF assms] add.commute)



section \<open>What a request may write\<close>

text \<open>A note the calendar takes: a text, and the dates that two such days are stored as.\<close>

definition note_fits :: "gotime \<Rightarrow> calendar_note \<Rightarrow> bool" where
  "note_fits now n \<longleftrightarrow> cn_Text n \<noteq> ''''
     \<and> (\<exists>a b. let first = midnight (tloc now) a; final = midnight (tloc now) b in
          cn_StartsOn n = date_column first \<and> cn_EndsOn n = date_column final
          \<and> \<not> After first (lastNoteDay now) \<and> \<not> Before final first)"

text \<open>Its dates are in order, the first in a month of the calendar.\<close>

definition dates_in_order :: "gotime \<Rightarrow> calendar_note \<Rightarrow> bool" where
  "dates_in_order now n \<longleftrightarrow>
     (\<exists>a b. cn_StartsOn n = midnight utc a \<and> cn_EndsOn n = midnight utc b \<and> a \<le> b
          \<and> month_of_day a \<le> month_of_day (day_of now) + 12)"

lemma note_fits_in_order:
  assumes "keeps_dates (tloc now)" "note_fits now n"
  shows "dates_in_order now n"
proof -
  let ?l = "tloc now" and ?c = "month_of_day (day_of now)"
  obtain a b where ab: "cn_StartsOn n = midnight utc a" "cn_EndsOn n = midnight utc b"
    "\<not> After (midnight ?l a) (lastNoteDay now)" "a \<le> b"
    using assms(2) by (auto simp: note_fits_def Let_def date_column_midnight [OF assms(1)] midnight_compare [OF assms(1)])
  have "month_of_day a \<le> ?c + 12"
  proof (rule ccontr)
    assume "\<not> month_of_day a \<le> ?c + 12"
    then have "month_start (?c + 13) \<le> month_start (month_of_day a)" by (intro month_start_mono) simp
    with month_of_day_bounds(1) [of a] ab(3) show False
      by (simp add: lastNoteDay_month [OF assms(1)] midnight_compare [OF assms(1)])
  qed
  with ab(1,2,4) show ?thesis unfolding dates_in_order_def by blast
qed
















section \<open>A stored note is on the calendar and reads back\<close>

lemma date_midnight: "civil_of_days n = (y, m, d) \<Longrightarrow> Date_of (midnight utc n) = (y, m, d)"
  by (simp add: Date_of_midnight utc_zone.keeps_dates_axioms)

text \<open>A year a page can write in four digits.\<close>

definition printable :: "gotime \<Rightarrow> bool" where
  "printable t \<longleftrightarrow> 0 \<le> Year t \<and> Year t \<le> 9999"

lemma printable_date:
  assumes "printable (midnight utc n)" "civil_of_days n = (y, m, d)"
  shows "key_date y m d"
  using assms civil_of_days_valid(1) [OF assms(2)] by (simp add: printable_def key_date_def Year_def date_midnight)

lemma Parse_Format_dateKey:
  assumes "printable (midnight utc n)"
  shows "Parse_date_in (Format_dateKey (midnight utc n)) l = Some (midnight l n)"
proof -
  obtain y m d where c: "civil_of_days n = (y, m, d)" by (cases "civil_of_days n") auto
  have "month_start (12 * y + m - 1) + (d - 1) = n" using civil_month_of_day(1,2) [OF c] by metis
  then have "mk_Date y m d 0 0 0 0 utc = midnight utc n" by (simp add: mk_Date_midnight days_of_date_month_start)
  then show ?thesis
    using Parse_format_date [OF printable_date [OF assms c]]
    by (simp add: Parse_date_in_def Format_dateKey_def date_midnight [OF c] midnightOn_utc)
qed

lemma Parse_Format_month:
  assumes "printable (midnight utc n)"
  shows "Parse_month (Format_month (midnight utc n)) l = Some (midnight l (month_start (month_of_day n)))"
proof -
  obtain y m d where c: "civil_of_days n = (y, m, d)" by (cases "civil_of_days n") auto
  note b = key_date_bounds [OF printable_date [OF assms c]]
  have y: "0 \<le> y" using printable_date [OF assms c] by (simp add: key_date_def)
  have len: "length (pad 4 (nat y)) = 4" "length (pad 2 (nat m)) = 2" using b y by (simp_all add: length_pad)
  have s: "Format_month (midnight utc n) = pad 4 (nat y) @ CHR ''-'' # pad 2 (nat m)"
    using y by (simp add: Format_month_def Format_year_def Year_def Month_def date_midnight [OF c])
  have "take 4 (Format_month (midnight utc n)) = pad 4 (nat y)" "drop 5 (Format_month (midnight utc n)) = pad 2 (nat m)"
    "Format_month (midnight utc n) ! 4 = CHR ''-''" "length (Format_month (midnight utc n)) = 7"
    using len unfolding s by (simp_all add: nth_append nth_Cons')
  then show ?thesis
    using b y civil_month_of_day(1) [OF c] by (auto simp: Parse_month_def number_pad mk_Date_month)
qed

lemma dates_in_orderE:
  assumes "dates_in_order now n"
  obtains a b where "cn_StartsOn n = midnight utc a" "cn_EndsOn n = midnight utc b" "a \<le> b"
    "month_of_day a \<le> month_of_day (day_of now) + 12"
  using assms unfolding dates_in_order_def by blast

definition ex_away :: calendar_note where
  "ex_away = \<lparr>cn_ID = ''n1'', cn_GardenID = ''g1'', cn_StartsOn = midnight utc 20541, cn_EndsOn = midnight utc 20543, cn_Text = ''Away'',
     cn_CreatedBy = ''u1'', cn_CreatedAt = ex_now\<rparr>"

lemma ex_away:
  "cn_StartsOn ex_away = midnight utc 20541" "cn_EndsOn ex_away = midnight utc 20543"
  "printable (midnight utc 20541)" "printable (midnight utc 20543)" "note_fits ex_now ex_away" "tloc ex_now = utc"
  "\<not> After (midnight utc 20541) (lastNoteDay ex_now)"
proof -
  show "cn_StartsOn ex_away = midnight utc 20541" "cn_EndsOn ex_away = midnight utc 20543" by (simp_all add: ex_away_def)
  show "printable (midnight utc 20541)" "printable (midnight utc 20543)" by code_simp+
  show l: "tloc ex_now = utc" by (simp add: ex_now_def mk_Date_def Let_def)
  show last: "\<not> After (midnight utc 20541) (lastNoteDay ex_now)" by code_simp
  show "note_fits ex_now ex_away"
    unfolding note_fits_def Let_def l
    by (intro conjI exI [of _ 20541] exI [of _ 20543])
      (simp_all add: last ex_away_def date_column_midnight midnight_compare utc_zone.keeps_dates_axioms)
qed

text \<open>
  (C31) Opening the Edit note sheet on a stored note and saving it unchanged is accepted and writes the
  same text and the same days, provided the note is one the form takes at that time (its first day not
  after the last the calendar shows, its last not before its first), the reader's zone has a midnight on
  its first and its last day, their years have four digits, and the text is one the form stores, not empty and
  without spaces at its ends.  In a zone that skips the midnight of a note's day the sheet moves the note
  to the day before (\<open>calendar_midnight_gap\<close>).
\<close>

theorem note_sheet_roundtrip:
  assumes "cn_Text n \<noteq> ''''" "cn_StartsOn n = midnight utc a" "cn_EndsOn n = midnight utc b"
    and "local_day (tloc now) (day_start (tloc now) a) = a" "local_day (tloc now) (day_start (tloc now) b) = b"
    and "\<not> After (midnight (tloc now) a) (lastNoteDay now)" "\<not> Before (midnight (tloc now) b) (midnight (tloc now) a)"
    and "printable (cn_StartsOn n)" "printable (cn_EndsOn n)"
    and "\<And>s. s \<in> {cn_Text n, Format_dateKey (cn_StartsOn n), Format_dateKey (cn_EndsOn n), ''''} \<Longrightarrow> si_TrimSpace si s = s"
  shows "let s = editNoteSheet n month;
           d = readNoteDraft si (\<lambda>field. if field = ''text'' then ns_Text s else if field = ''first'' then ns_First s
                 else if field = ''last'' then ns_Last s else '''')
         in \<exists>first final. note_days d now = Inr (first, final) \<and> nd_Text d = cn_Text n
              \<and> date_column first = cn_StartsOn n \<and> date_column final = cn_EndsOn n"
proof -
  have one_day: "\<not> Equal (cn_EndsOn n) (cn_StartsOn n) \<longleftrightarrow> a \<noteq> b"
    using midnight_compare(3) [OF utc_zone.keeps_dates_axioms] by (auto simp: assms(2,3))
  moreover have "Format_dateKey (midnight utc b) \<noteq> ''''" by (simp add: Format_dateKey_def format_date_def split: prod.split)
  moreover note Parse_Format_dateKey [OF assms(8) [unfolded assms(2)], of "tloc now"]
    Parse_Format_dateKey [OF assms(9) [unfolded assms(3)], of "tloc now"]
  ultimately show ?thesis
    using assms(1,6,7,10)
    by (simp add: Let_def editNoteSheet_def readNoteDraft_def note_days_def assms(2,3) date_column_read assms(4,5))
qed

theorem note_sheet_roundtrip_witness:
  "let s = editNoteSheet ex_away ex_now;
       d = readNoteDraft ex_site (\<lambda>field. if field = ''text'' then ns_Text s else if field = ''first'' then ns_First s
             else if field = ''last'' then ns_Last s else '''')
   in \<exists>first final. note_days d ex_now = Inr (first, final) \<and> date_column first = midnight utc 20541 \<and> date_column final = midnight utc 20543"
proof -
  have "si_TrimSpace ex_site s = s" for s by (simp add: ex_site_def)
  then show ?thesis
    using note_sheet_roundtrip [of ex_away 20541 20543 ex_now ex_site ex_now]
    by (simp add: Let_def ex_away(1-4,6,7) midnight_compare utc_zone.keeps_dates_axioms) (simp add: ex_away_def, blast)
qed

text \<open>
  (C32) In a zone that keeps dates, no stored note is out of reach: a note whose text and days the form
  takes at \<open>now\<close>, and whose first day's year has four digits, is on the page of its first
  day, which is a month the calendar shows, and is among the notes of that day.
\<close>

theorem stored_note_on_calendar:
  assumes "keeps_dates (tloc now)" "note_fits now n" "printable (cn_StartsOn n)" "n \<in> set (t_calendar_note d)"
  shows "let q = parseCalendarQuery (\<lambda>field. if field = monthParam then Format_month (cn_StartsOn n)
               else if field = dayParam then Format_dateKey (cn_StartsOn n) else '''') now;
             day = midnightOn (cn_StartsOn n) (tloc now); shown = page_note_of p q now n
         in cq_day q = Some day \<and> covers_days (nc_First shown) (nc_Last shown) day
          \<and> (\<exists>notes. ListCalendarNotesBetween (cn_GardenID n) (AddDate (cq_month q) 0 1 (-1)) (cq_month q) d = Inr notes \<and> n \<in> set notes
               \<and> shown \<in> set (calendarNotes p q notes now))"
proof -
  let ?l = "tloc now" and ?c = "month_of_day (day_of now)"
  obtain a b where ab: "cn_StartsOn n = midnight utc a" "cn_EndsOn n = midnight utc b" "a \<le> b" "month_of_day a \<le> ?c + 12"
    by (rule dates_in_orderE [OF note_fits_in_order [OF assms(1,2)]])
  let ?m = "month_start (month_of_day a)"
  have u: "keeps_dates utc" by (rule utc_zone.keeps_dates_axioms)
  define q where "q = parseCalendarQuery (\<lambda>field. if field = monthParam then Format_month (cn_StartsOn n)
       else if field = dayParam then Format_dateKey (cn_StartsOn n) else '''') now"
  have "month_start (month_of_day a) \<le> month_start (?c + 12)" by (rule month_start_mono [OF ab(4)])
  then have q: "cq_month q = midnight ?l ?m" "cq_day q = Some (midnight ?l a)"
    using Parse_Format_month [OF assms(3) [unfolded ab(1)], of ?l] Parse_Format_dateKey [OF assms(3) [unfolded ab(1)], of ?l] assms(1)
    by (simp_all add: q_def parseCalendarQuery_def Let_def monthParam_def dayParam_def ab(1) lastCalendarMonth_month midnight_compare
        startOfMonth_month)
  have "a < month_start (month_of_day a + 1)" "?m \<le> b" using month_of_day_bounds [of a] ab(3) by linarith+
  then have "\<not> After (cn_StartsOn n) (date_column (AddDate (cq_month q) 0 1 (-1))) \<and> \<not> Before (cn_EndsOn n) (date_column (cq_month q))"
    by (simp add: q(1) AddDate_month_start [OF assms(1)] date_column_midnight [OF assms(1)] ab(1,2) midnight_compare [OF u])
  then have listed: "\<exists>notes. ListCalendarNotesBetween (cn_GardenID n) (AddDate (cq_month q) 0 1 (-1)) (cq_month q) d = Inr notes
      \<and> n \<in> set notes"
    using assms(4) by (simp add: ListCalendarNotesBetween_def)
  have "covers_days (nc_First (page_note_of p q now n)) (nc_Last (page_note_of p q now n)) (midnight ?l a)"
    using ab(3) by (simp add: page_note_of_def Let_def covers_days_def ab(1,2) midnightOn_utc midnight_compare [OF assms(1)])
  with listed q(2) show ?thesis
    unfolding Let_def q_def [symmetric] unfolding ab(1) midnightOn_utc by (auto simp: calendarNotes_def)
qed

theorem stored_note_on_calendar_witness:
  "cq_day (parseCalendarQuery (\<lambda>field. if field = monthParam then Format_month (cn_StartsOn ex_away)
      else if field = dayParam then Format_dateKey (cn_StartsOn ex_away) else '''') ex_now) = Some (midnight utc 20541)"
proof -
  have "printable (cn_StartsOn ex_away)" "ex_away \<in> set (t_calendar_note (empty_db\<lparr>t_calendar_note := [ex_away]\<rparr>))"
    by (simp_all add: ex_away(1,3))
  from stored_note_on_calendar [OF ex_rows(3) ex_away(5) this, unfolded Let_def, THEN conjunct1] show ?thesis
    unfolding ex_away(1,6) midnightOn_utc .
qed

end
