(* ===== verification/Http_Undo.thy ===== *)
theory Http_Undo
  imports Http_Care
begin

text \<open>
  Undo on a deleted row of the log (\<open>correct.go\<close>): the hidden fields \<open>deletedRow\<close> writes, and the
  proof that posting them to \<open>restore\<close> puts the event back that \<open>remove\<close> took out.
\<close>

section \<open>The Undo form\<close>

text \<open>\<open>deletedRow\<close> puts the deleted event in hidden fields of the Undo form; \<open>fmt\<close> is
  \<open>Time.Format\<close> with the layout of RFC 3339, a parameter as its parser is.\<close>

record restoreFields =
  rf_Care :: string
  rf_PerformedBy :: string
  rf_PerformedAt :: string
  rf_RecordedAt :: string
  rf_Done :: string
  rf_Note :: string
  rf_Again :: string

definition FormatBool :: "bool \<Rightarrow> string" where
  "FormatBool b = (if b then ''true'' else ''false'')"

definition deletedFields :: "(gotime \<Rightarrow> string) \<Rightarrow> event_row \<Rightarrow> restoreFields" where
  "deletedFields fmt r =
     (let e = er_CareEvent r in
      \<lparr>rf_Care = ct_ID (er_CareType r), rf_PerformedBy = ce_PerformedBy e, rf_PerformedAt = fmt (ce_PerformedAt e),
       rf_RecordedAt = fmt (ce_RecordedAt e), rf_Done = FormatBool (ce_Done e),
       rf_Note = (case ce_Note e of None \<Rightarrow> '''' | Some note \<Rightarrow> note),
       rf_Again = (case ce_OverrideIntervalDays e of None \<Rightarrow> '''' | Some again \<Rightarrow> Itoa again)\<rparr>)"

text \<open>The inputs of the form, by their names in the template \<open>event-row\<close>.\<close>

definition undo_form :: "restoreFields \<Rightarrow> form" where
  "undo_form f = (\<lambda>_. '''')(''care'' := rf_Care f, ''by'' := rf_PerformedBy f, ''at'' := rf_PerformedAt f,
     ''recorded'' := rf_RecordedAt f, ''done'' := rf_Done f, ''note'' := rf_Note f, ''again'' := rf_Again f)"

text \<open>What is relied on of the formats: a time and an id read back from their text.\<close>

definition reads_back :: "site \<Rightarrow> (gotime \<Rightarrow> string) \<Rightarrow> care_event \<Rightarrow> bool" where
  "reads_back si fmt e \<longleftrightarrow>
     (\<forall>t \<in> {ce_PerformedAt e, ce_RecordedAt e}. \<exists>t'. si_parse_time si (fmt t) = Some t' \<and> Equal t' t)
     \<and> (\<forall>i \<in> {ce_CareTypeID e, ce_PerformedBy e}. si_parse_uuid si i = Some i)"

text \<open>What the sheet stores: no empty note, and an interval of 32 bits on every skip.\<close>

definition event_stored :: "care_event \<Rightarrow> bool" where
  "event_stored e \<longleftrightarrow> ce_Note e \<noteq> Some '''' \<and> (ce_Done e \<or> ce_OverrideIntervalDays e \<noteq> None)
     \<and> if_set (ce_OverrideIntervalDays e) (\<lambda>n. - (2 ^ 31) \<le> n \<and> n < 2 ^ 31)"

text \<open>The same event, its times the same instants.\<close>

definition same_event :: "care_event \<Rightarrow> care_event \<Rightarrow> bool" where
  "same_event e e' \<longleftrightarrow> Equal (ce_PerformedAt e') (ce_PerformedAt e) \<and> Equal (ce_RecordedAt e') (ce_RecordedAt e)
     \<and> e'\<lparr>ce_PerformedAt := ce_PerformedAt e, ce_RecordedAt := ce_RecordedAt e\<rparr> = e"

lemma Itoa_not_empty: "Itoa n \<noteq> ''''"
proof
  assume "Itoa n = ''''"
  define k where "k = nat \<bar>n\<bar>"
  have "int k < int (2 ^ k)" using less_exp [of k] by (simp only: of_nat_less_iff)
  then have "\<bar>n\<bar> < 2 ^ k" by (simp add: k_def)
  then have "- (2 ^ (Suc k - 1)) \<le> n" "n < 2 ^ (Suc k - 1)" unfolding diff_Suc_1 by linarith+
  from ParseInt_Itoa [OF this] \<open>Itoa n = ''''\<close> show False by (simp add: ParseInt_def signed_def)
qed

lemma restoreParams_undo_form:
  assumes "reads_back si fmt (er_CareEvent r)" "event_stored (er_CareEvent r)"
    and "ct_ID (er_CareType r) = ce_CareTypeID (er_CareEvent r)"
    and "\<not> After (ce_PerformedAt (er_CareEvent r)) clock" "\<not> After (ce_RecordedAt (er_CareEvent r)) clock"
  obtains a where "restoreParams si (undo_form (deletedFields fmt r)) clock = Some a"
    "ep_CareTypeID a = ce_CareTypeID (er_CareEvent r)" "ep_PerformedBy a = ce_PerformedBy (er_CareEvent r)"
    "ce_GardenID (er_CareEvent r) = g \<Longrightarrow> ce_PlantID (er_CareEvent r) = p \<Longrightarrow>
      same_event (er_CareEvent r) (event_of (ce_ID (er_CareEvent r)) (a\<lparr>ep_GardenID := g, ep_PlantID := p\<rparr>))"
proof -
  let ?e = "er_CareEvent r"
  obtain at rec where t: "si_parse_time si (fmt (ce_PerformedAt ?e)) = Some at" "Equal at (ce_PerformedAt ?e)"
    "si_parse_time si (fmt (ce_RecordedAt ?e)) = Some rec" "Equal rec (ce_RecordedAt ?e)"
    "si_parse_uuid si (ce_CareTypeID ?e) = Some (ce_CareTypeID ?e)" "si_parse_uuid si (ce_PerformedBy ?e) = Some (ce_PerformedBy ?e)"
    using assms(1) by (auto simp: reads_back_def)
  have late: "\<not> After at clock" "\<not> After rec clock" using assms(4,5) t(2,4) by (auto simp: After_def Equal_def)
  have bool: "ParseBool (FormatBool (ce_Done ?e)) = Some (ce_Done ?e)" by (simp add: ParseBool_def FormatBool_def)
  have again: "(if rf_Again (deletedFields fmt r) = '''' then Some None else map_option Some (ParseInt 32 (rf_Again (deletedFields fmt r))))
      = Some (ce_OverrideIntervalDays ?e)"
    using assms(2) ParseInt_Itoa [of 32]
    by (auto simp: deletedFields_def Let_def event_stored_def if_set_def Itoa_not_empty split: option.split)
  define a where "a = \<lparr>ep_GardenID = nil_uuid, ep_PlantID = nil_uuid, ep_CareTypeID = ce_CareTypeID ?e,
     ep_PerformedBy = ce_PerformedBy ?e, ep_PerformedAt = at, ep_RecordedAt = rec, ep_Done = ce_Done ?e,
     ep_Note = ce_Note ?e, ep_OverrideIntervalDays = ce_OverrideIntervalDays ?e\<rparr>"
  have written: "(if rf_Note (deletedFields fmt r) \<noteq> '''' then Some (rf_Note (deletedFields fmt r)) else None) = ce_Note ?e"
    using assms(2) by (auto simp: deletedFields_def Let_def event_stored_def split: option.splits)
  have fields: "undo_form (deletedFields fmt r) ''care'' = ce_CareTypeID ?e"
    "undo_form (deletedFields fmt r) ''by'' = ce_PerformedBy ?e"
    "undo_form (deletedFields fmt r) ''at'' = fmt (ce_PerformedAt ?e)"
    "undo_form (deletedFields fmt r) ''recorded'' = fmt (ce_RecordedAt ?e)"
    "undo_form (deletedFields fmt r) ''done'' = FormatBool (ce_Done ?e)"
    "undo_form (deletedFields fmt r) ''note'' = rf_Note (deletedFields fmt r)"
    "undo_form (deletedFields fmt r) ''again'' = rf_Again (deletedFields fmt r)"
    using assms(3) by (simp_all add: undo_form_def) (simp_all add: deletedFields_def Let_def)
  have skip: "ce_Done ?e \<or> ce_OverrideIntervalDays ?e \<noteq> None" using assms(2) by (simp add: event_stored_def)
  have "restoreParams si (undo_form (deletedFields fmt r)) clock = Some a"
    unfolding restoreParams_def fields again t(1,3,5,6) bool option.case prod.case written
    using late skip by (auto simp: a_def)
  then show thesis
    by (rule that) (auto simp: a_def same_event_def event_of_def t(2,4))
qed

lemma remove_deletes:
  assumes "remove si p path epath q htmx clock w = (a, w1)" "tables w1 \<noteq> tables w"
    and "readEventPath si path epath q = Some (plant, eid, lq)"
  obtains r e where "GetCareEvent (gid p) plant eid (tables w) = Inr r"
    "DeleteCareEvent (ce_ID (er_CareEvent r)) (gid p) (ce_PlantID (er_CareEvent r)) (Can p ''care.delete_any'')
       (us_ID (pr_User p)) (tables w) = Inr (e, tables w1)"
proof -
  obtain b v where v: "next_fault w = (b, v)" by fastforce
  obtain b' v' where v': "next_fault v = (b', v')" by fastforce
  have t: "tables v = tables w" "tables v' = tables w"
    using next_fault_tables [of w] next_fault_tables [of v] v v' by simp_all
  show thesis
    using assms that t
    by (auto simp: remove_def readEvent_def read_or_def reading_def write_or_def writing_def v v'
        split: if_splits sum.splits prod.splits)
qed

lemma GetCareEvent_row:
  assumes "GetCareEvent garden plant eid d = Inr r"
  shows "er_CareEvent r \<in> set (t_care_event d)" "ce_ID (er_CareEvent r) = eid" "ce_GardenID (er_CareEvent r) = garden"
    "ce_PlantID (er_CareEvent r) = plant" "ct_ID (er_CareType r) = ce_CareTypeID (er_CareEvent r)"
  using one_row_filter [OF assms [unfolded GetCareEvent_def]] by (auto simp: event_rows_def)

lemma GetCareEvent_found:
  assumes "e \<in> set (t_care_event d)" "event_keys e d" "ce_GardenID e = garden" "ce_PlantID e = plant" "ce_ID e = eid"
  shows "\<exists>r. GetCareEvent garden plant eid d = Inr r"
proof -
  obtain u pl ct where "u \<in> set (t_app_user d)" "us_ID u = ce_PerformedBy e" "pl \<in> set (t_plant d)" "pl_ID pl = ce_PlantID e"
    "pl_GardenID pl = ce_GardenID e" "ct \<in> set (t_care_type d)" "ct_ID ct = ce_CareTypeID e" "ct_GardenID ct = ce_GardenID e"
    using assms(2) by (auto simp: event_keys_def has_user_def has_plant_def has_care_type_def list_ex_iff)
  with assms(1) have "\<lparr>er_CareEvent = e, er_Plant = pl, er_CareType = ct, er_PerformedByName = us_DisplayName u\<rparr> \<in> set (event_rows d)"
    by (auto simp: event_rows_def)
  with assms(3-5) have "filter (\<lambda>r. ce_GardenID (er_CareEvent r) = garden \<and> ce_PlantID (er_CareEvent r) = plant
      \<and> ce_ID (er_CareEvent r) = eid) (event_rows d) \<noteq> []"
    by (force simp: filter_empty_conv)
  then show ?thesis by (auto simp: GetCareEvent_def one_row_def split: list.split)
qed

lemma restore_runs:
  assumes "readEventPath si path epath q = Some (plant, eid, lq)" "restoreParams si get clock = Some b" "faults w = []"
    and "event_keys e (tables w)" "ce_GardenID e = gid p" "ce_PlantID e = plant"
    and "ep_CareTypeID b = ce_CareTypeID e" "ep_PerformedBy b = ce_PerformedBy e"
    and "Can p ''care.delete_any'' \<or> ce_PerformedBy e = us_ID (pr_User p)"
    and "\<not> list_ex (\<lambda>x. ce_ID x = eid) (t_care_event (tables w))"
  shows "restore si p path epath q get htmx clock w = (if htmx then Page () else Redirect (Some lq),
    w\<lparr>tables := (tables w)\<lparr>t_care_event := t_care_event (tables w)
       @ [event_of eid (b\<lparr>ep_GardenID := gid p, ep_PlantID := plant\<rparr>)]\<rparr>\<rparr>)"
proof -
  let ?e = "event_of eid (b\<lparr>ep_GardenID := gid p, ep_PlantID := plant\<rparr>)"
  let ?d = "(tables w)\<lparr>t_care_event := t_care_event (tables w) @ [?e]\<rparr>"
  have pl: "\<exists>x. GetPlant (gid p) plant (tables w) = Inr x"
    using assms(4-6) by (auto simp: GetPlant_def one_row_def event_keys_def has_plant_def list_ex_iff filter_empty_conv split: list.split)
  have ct: "\<exists>x. GetCareType (gid p) (ep_CareTypeID b) (tables w) = Inr x"
    using assms(4,5,7)
    by (auto simp: GetCareType_def one_row_def event_keys_def has_care_type_def list_ex_iff filter_empty_conv split: list.split)
  have keys: "event_keys ?e (tables w)" using assms(4-8) by (simp add: event_keys_def event_of_def)
  then have again: "\<exists>x. GetCareEvent (gid p) plant eid ?d = Inr x"
    by (intro GetCareEvent_found [of ?e]) (simp_all add: event_of_def event_keys_def has_user_def has_plant_def has_care_type_def)
  have stored: "RestoreCareEvent eid (b\<lparr>ep_GardenID := gid p, ep_PlantID := plant\<rparr>) (Can p ''care.delete_any'') (us_ID (pr_User p)) (tables w)
      = Inr (?e, ?d)"
    using assms(4,8-10) keys by (auto simp: RestoreCareEvent_def Let_def event_keys_def)
  show ?thesis
    using pl ct again
    by (auto simp: restore_def assms(1,2,3) read_or_def reading_def next_fault_def write_or_def writing_def stored readEvent_def)
qed

text \<open>
  (C39) Undo puts back what a delete took away.  In tables that keep their integrity, when \<open>remove\<close> has deleted an event and the fields of the
  row it leaves are posted to \<open>restore\<close> by the same reader, and no database call fails, the handler
  answers the redirect or the row, and the tables hold the rows they held before: the event
  under its id with its care type, performer, note and interval, its times the same instants.  The event
  is one the sheet stores (no empty note, an interval on a skip, no time after the post), the times and
  ids read back from their text, and nothing is written in between.
\<close>

theorem undo_puts_back:
  assumes "care_ok (tables w)" "readEventPath si path epath q = Some (plant, eid, lq)"
    and "GetCareEvent (gid p) plant eid (tables w) = Inr r"
    and "remove si p path epath q htmx clock w = (a, w1)" "tables w1 \<noteq> tables w" "faults w1 = []"
    and "reads_back si fmt (er_CareEvent r)" "event_stored (er_CareEvent r)"
    and "\<not> After (ce_PerformedAt (er_CareEvent r)) later" "\<not> After (ce_RecordedAt (er_CareEvent r)) later"
  shows "\<exists>w2 e'. restore si p path epath q (undo_form (deletedFields fmt r)) htmx2 later w1
        = (if htmx2 then Page () else Redirect (Some lq), w2)
    \<and> er_CareEvent r \<notin> set (t_care_event (tables w1)) \<and> same_event (er_CareEvent r) e'
    \<and> mset (t_care_event (tables w2)) = mset (t_care_event (tables w)) - {#er_CareEvent r#} + {#e'#}
    \<and> (tables w2)\<lparr>t_care_event := t_care_event (tables w)\<rparr> = tables w"
proof -
  let ?e = "er_CareEvent r"
  note row = GetCareEvent_row [OF assms(3)]
  note ids = care_ok_event(1) [OF assms(1)]
  obtain e where del: "DeleteCareEvent eid (gid p) plant (Can p ''care.delete_any'') (us_ID (pr_User p)) (tables w)
      = Inr (e, tables w1)"
    using remove_deletes [OF assms(4,5,2)] assms(3) row(2,4) by (metis Inr_inject)
  note gone = DeleteCareEvent_Inr [OF ids del]
  have "e = ?e" using ids gone(1,2) row(1,2) by (auto simp: may_touch_def distinct_map dest: inj_onD)
  then have own: "Can p ''care.delete_any'' \<or> ce_PerformedBy ?e = us_ID (pr_User p)" using gone(2) by (auto simp: may_touch_def)
  have keys: "event_keys ?e (tables w)" by (rule care_ok_event(2) [OF assms(1) row(1)])
  obtain b where b: "restoreParams si (undo_form (deletedFields fmt r)) later = Some b"
    "ep_CareTypeID b = ce_CareTypeID ?e" "ep_PerformedBy b = ce_PerformedBy ?e"
    "same_event ?e (event_of eid (b\<lparr>ep_GardenID := gid p, ep_PlantID := plant\<rparr>))"
    by (rule restoreParams_undo_form [OF assms(7,8) row(5) assms(9,10), where g = "gid p" and p = plant])
      (use row in auto)
  let ?b = "b\<lparr>ep_GardenID := gid p, ep_PlantID := plant\<rparr>"
  let ?w2 = "w1\<lparr>tables := (tables w1)\<lparr>t_care_event := t_care_event (tables w1) @ [event_of eid ?b]\<rparr>\<rparr>"
  have w1: "tables w1 = (tables w)\<lparr>t_care_event := filter (\<lambda>x. ce_ID x \<noteq> eid) (t_care_event (tables w))\<rparr>" by (rule gone(3))
  have "event_keys ?e (tables w1)" using keys by (simp add: w1 event_keys_def has_user_def has_plant_def has_care_type_def)
  from restore_runs [OF assms(2) b(1) assms(6) this row(3,4) b(2,3) own]
  have "restore si p path epath q (undo_form (deletedFields fmt r)) htmx2 later w1
      = (if htmx2 then Page () else Redirect (Some lq), ?w2)"
    by (simp add: w1 list_ex_iff)
  moreover have "?e \<notin> set (t_care_event (tables w1))" by (simp add: w1 row(2))
  moreover have "mset (t_care_event (tables ?w2)) = mset (t_care_event (tables w)) - {#?e#} + {#event_of eid ?b#}"
    using mset_remove_key [OF ids row(1), unfolded row(2)] by (simp add: w1) (metis add_mset_remove_trivial)
  moreover have "(tables ?w2)\<lparr>t_care_event := t_care_event (tables w)\<rparr> = tables w" by (simp add: w1)
  ultimately show ?thesis using b(4) by blast
qed
definition ex_undo_site :: site where
  "ex_undo_site = ex_site\<lparr>si_parse_time := (\<lambda>s. map_option (\<lambda>n. \<lparr>nsec = n, tloc = utc\<rparr>) (ParseInt 128 s))\<rparr>"

definition ex_undo_fmt :: "gotime \<Rightarrow> string" where
  "ex_undo_fmt t = Itoa (nsec t)"

definition ex_one_event :: db where
  "ex_one_event = ex_tables\<lparr>t_care_event := [ex_event ''e1'' zero_time]\<rparr>"

theorem undo_puts_back_witness:
  "\<exists>r w1 w2 e'. GetCareEvent ''g1'' ''p1'' ''e1'' ex_one_event = Inr r
    \<and> remove ex_undo_site ex_sitter ''p1'' ''e1'' (Some empty_query) False zero_time \<lparr>tables = ex_one_event, faults = []\<rparr>
        = (Redirect (Some empty_query), w1)
    \<and> t_care_event (tables w1) = []
    \<and> restore ex_undo_site ex_sitter ''p1'' ''e1'' (Some empty_query) (undo_form (deletedFields ex_undo_fmt r)) False zero_time w1
        = (Redirect (Some empty_query), w2)
    \<and> t_care_event (tables w2) = [e'] \<and> same_event (ex_event ''e1'' zero_time) e'"
proof -
  let ?w = "\<lparr>tables = ex_one_event, faults = []\<rparr>"
  have who: "gid ex_sitter = ''g1''" "us_ID (pr_User ex_sitter) = ''u1''" by (simp_all add: ex_sitter_def)
  have path: "readEventPath ex_undo_site ''p1'' ''e1'' (Some empty_query) = Some (''p1'', ''e1'', empty_query)"
    by (simp add: readEventPath_def ex_undo_site_def ex_site_def empty_query_def if_set_def)
  obtain r where r: "GetCareEvent ''g1'' ''p1'' ''e1'' ex_one_event = Inr r" "er_CareEvent r = ex_event ''e1'' zero_time"
    by (simp add: GetCareEvent_def one_row_def event_rows_def ex_one_event_def ex_tables_def ex_event_def zero_CareEvent_def
        empty_db_def zero_Plant_def)
  have run: "remove ex_undo_site ex_sitter ''p1'' ''e1'' (Some empty_query) False zero_time ?w
      = (Redirect (Some empty_query), \<lparr>tables = ex_tables\<lparr>t_care_event := []\<rparr>, faults = []\<rparr>)"
    by (simp add: remove_def readEvent_def path read_or_def reading_def next_fault_def who r write_or_def writing_def)
      (simp add: DeleteCareEvent_def delete_returning_def delete_where_def one_row_def may_touch_def ex_one_event_def ex_event_def)
  have "care_ok ex_one_event"
    by (simp add: ex_one_event_def care_ok_def keys_ok_def view_defs ex_care_defs in_garden_def if_set_def schedule_key_def
        care_schedule_checks_def)
  moreover have "ex_tables\<lparr>t_care_event := []\<rparr> \<noteq> ex_one_event" by (simp add: ex_one_event_def ex_tables_def empty_db_def)
  moreover have "reads_back ex_undo_site ex_undo_fmt (ex_event ''e1'' zero_time)"
    using ParseInt_Itoa [of 128 "nsec zero_time"]
    by (simp add: reads_back_def ex_undo_site_def ex_site_def ex_undo_fmt_def zero_time_def ex_event_def Equal_def)
  moreover have "event_stored (ex_event ''e1'' zero_time)"
    by (simp add: event_stored_def ex_event_def zero_CareEvent_def if_set_def)
  moreover have "\<not> After (ce_PerformedAt (ex_event ''e1'' zero_time)) zero_time"
    "\<not> After (ce_RecordedAt (ex_event ''e1'' zero_time)) zero_time" by (simp_all add: ex_event_def After_def)
  ultimately obtain w2 e' where "restore ex_undo_site ex_sitter ''p1'' ''e1'' (Some empty_query)
        (undo_form (deletedFields ex_undo_fmt r)) False zero_time \<lparr>tables = ex_tables\<lparr>t_care_event := []\<rparr>, faults = []\<rparr>
      = (Redirect (Some empty_query), w2)" "same_event (ex_event ''e1'' zero_time) e'"
    "mset (t_care_event (tables w2)) = mset (t_care_event ex_one_event) - {#ex_event ''e1'' zero_time#} + {#e'#}"
    using undo_puts_back [OF _ path _ run, where fmt = ex_undo_fmt and later = zero_time and r = r and ?htmx2.0 = False]
    unfolding who r(2) using r(1) by auto
  moreover from this(3) have "t_care_event (tables w2) = [e']" by (simp add: ex_one_event_def)
  ultimately show ?thesis using run r(1) by (intro exI conjI) (assumption | simp)+
qed

end
