(* ===== verification/Spec2Isabelle.thy ===== *)
theory Spec2Isabelle
  imports
    Schedule_Month
    Push_Hour
    Store_Notify
    Auth_Recovery
    Auth_Sweep
    Store_Integrity
    Push_Jobs
    Http_Schedule
    Http_Routes
    Http_Owners
    Http_Calendar_Note
    Http_Undo
begin

text \<open>
  A verification development of Sprig, a server that tells the people who share a garden when each
  plant needs care.  The program is \<open>src/cmd/sprig\<close> around the packages under \<open>src/internal\<close>:
  \<open>schedule\<close> computes when care falls due, \<open>store\<close> is the PostgreSQL tables and the queries on them,
  \<open>auth\<close> holds sessions, tokens, recovery codes and passkeys, \<open>push\<close> runs the jobs that send
  notifications, \<open>photo\<close> keeps pictures, and \<open>http\<close> holds the pages.  A request passes the guards of
  \<open>mux.go\<close>, which resolve its session or token to an account and a garden; its handler reads the
  tables, writes them, mostly in one transaction, tells the jobs, and renders a page.  The jobs look
  at the same tables on a timer.  Every part below is translated from those files under the names
  they have there, as executable functions, so a witness evaluates them.

  \<^bold>\<open>Ground.\<close>  \<open>Prelude\<close> has the rule collections, lists, and the locale \<open>comparison\<close> of Go's three-way
  comparisons with \<open>SortStableFunc\<close>.  \<open>Go_Time\<close>, \<open>Go_Format\<close>, \<open>Go_Text\<close>, \<open>Go_Runes\<close> and \<open>Go_Base64\<close> are
  what the code uses of Go's library: an instant is a count of nanoseconds, a location a list of
  offset changes, \<open>time.Date\<close> the two-step guess of Go's source; the locale \<open>keeps_dates\<close> says of a
  location that midnight keeps its date on every day of its history.  That is a real condition: it
  holds of the zones whose clocks never change at midnight, 73 of the 438 that \<open>zones.go\<close> offers.

  \<^bold>\<open>The store.\<close>  \<open>Store_Models\<close> and \<open>Store_DB\<close> are the rows of \<open>models.go\<close>, the tables as lists, the
  errors pgx reports, and \<open>InTx\<close> of \<open>tx.go\<close>.  A \<open>world\<close> is the tables with a list of faults: each
  query consumes one, so a theorem about all worlds covers every database failure at every point.
  A query is a function on the tables that checks the schema's unique and foreign keys and its
  CHECKs (\<open>Store_People\<close>, \<open>Store_Credentials\<close>, \<open>Store_Passkeys\<close>, \<open>Store_Plants\<close>, \<open>Store_Care\<close>,
  \<open>Store_Notify\<close>, one definition per query of the \<open>.sql.go\<close> files).  \<open>Store_Calls\<close> chains queries and
  gives triples for runs of them.  \<open>Store_Handle\<close> is \<open>handle.go\<close>.  The locale \<open>single_use\<close> proves once,
  of any secret spent by a write, that it is spent at most once; it is interpreted on recovery
  codes, setup links, invites and challenges.  The locale \<open>ledger\<close> does the same for the send
  ledger.  \<open>Store_Integrity\<close> has the invariant of the care tables as a step relation.

  \<^bold>\<open>Schedules.\<close>  \<open>Schedule_Next\<close> (\<open>next.go\<close>), \<open>Schedule_Today\<close> (\<open>today.go\<close>), \<open>Schedule_Month\<close>
  (\<open>month.go\<close>): the date a schedule next falls due, what Today shows, the dates of a month.  The two
  loops are partial functions; that they end is proved, not assumed.  \<open>Next\<close> ends on every row that
  passes the schema's CHECKs (\<open>care_schedule_checks\<close>), in every zone whose offsets are bounded.
  \<open>InMonth\<close>, and with it the calendar page, needs more: a season, if any, of months 1 to 12
  (\<open>season_months\<close>, which the schema does not check and the schedule editor does), and a zone that
  keeps midnight's date.  Both are needed: \<open>InMonth_season_zero_diverges\<close> and
  \<open>InMonth_midnight_gap_diverges\<close> are inputs outside them on which the loop never ends.  That the
  date \<open>Next\<close> gives is the earliest of its series is proved under \<open>keeps_dates\<close> for the same reason,
  and Today's sections, \<open>nextDigest\<close> and the posts of the note sheet without it.

  \<^bold>\<open>Accounts.\<close>  \<open>Auth_Session\<close> (with the locale \<open>session_store\<close> of the three queries it calls),
  \<open>Auth_Principal\<close> (\<open>principal.go\<close>, \<open>token.go\<close> and the links), \<open>Auth_Recovery\<close>, \<open>Auth_Sweep\<close>, and
  \<open>Auth_Passkey\<close> (\<open>passkey.go\<close>) with its guarantees in \<open>Auth_Ceremonies\<close>: a sign-in is accepted only
  on a live challenge and an advancing counter, a challenge only once.

  \<^bold>\<open>Notifications.\<close>  \<open>Push_Hour\<close> finds the instant of a digest; \<open>Push_Deliver\<close>, \<open>Push_Digest\<close> and
  \<open>Push_Deadlines\<close> are one look of each job with what it claims, sends and writes, over the locale
  \<open>sends_once\<close>; \<open>Push_Jobs\<close> states what they promise.

  \<^bold>\<open>Pages.\<close>  \<open>Http_Request\<close> is what a handler answers and how it calls the store.  \<open>Http_Limit\<close> and
  \<open>Http_Routes\<close> are the rate limiter and the route table with its guards.  \<open>Http_Words\<close> are the
  sentences.  \<open>Paging\<close> (the locale \<open>keyset\<close>) and \<open>Http_Activity\<close> are the log and its pages;
  \<open>Http_Sheet\<close> and \<open>Http_Care\<close> logging, correcting and undoing care; \<open>Http_Undo\<close> the form that the
  deleted row carries and the round trip through it; \<open>Http_Schedule\<close> the schedule editor.  \<open>Http_SignIn\<close> signs in, enrols and removes a device and recovers an account; \<open>Http_Zones\<close>
  is the timezone select; \<open>Http_People\<close>, \<open>Http_Joining\<close> and \<open>Http_Leaving\<close> are who is in a garden, how
  a person joins or sets up one, and how an account or a garden ends.  \<open>Http_Owners\<close> composes these
  handlers in one step relation and proves that every garden keeps exactly one owner.
  \<open>Http_Account\<close> is the account form, API tokens, the list of gardens and More; \<open>Http_Notifications\<close>
  the notification settings, the browsers subscribed to push and the addresses the server refuses to
  send to; \<open>Http_Today\<close> what Today loads and shows, and a reminder for later on the same day;
  \<open>Http_Calendar\<close> and \<open>Http_Calendar_Note\<close> the month's grid and the notes on it.

  \<^bold>\<open>What the lemmas show.\<close>  Functional results for each pure component (the earliest date of a
  series, the exact sections of Today, the first instant that reads an hour); invariants of the
  tables by rule induction over step relations; safety of every handler under every failure, from
  triples on runs of store calls; that Today shows every care that is due once and, under the
  conditions above, the calendar every care of its month; that a token,
  a handle, a subscribed browser and a reminder are stored only within their limits; refinement of the rate limiter that forgets idle buckets by one
  that forgets none; round trips of the schedule editor, of a note's sheet, of undo and of a registered passkey; and
  liveness of the jobs and of \<open>Resolve\<close>.

  \<^bold>\<open>Parameters.\<close>  Code not under \<open>src\<close> is an argument: hashing and random bytes, Unicode's tables and
  PostgreSQL's collation, the loading of a zone, uuid parsing, the parsing and printing of RFC 3339 times, the webauthn package
  (a record of the functions the code calls), URL and address parsing, the resolver and the curve
  P-256 (the record \<open>net\<close>), the token bucket of package rate (its rates are rationals), and the answer of the push service.  Hypotheses on them are named (\<open>bucket_laws\<close>, \<open>tables_ok\<close>, \<open>known_unit\<close>) and met
  by a concrete instance in each witness.

  \<^bold>\<open>Fuel and bounds.\<close>  No definition takes fuel: loops are structural, or \<open>partial_function (option)\<close>
  with termination proved (\<open>anchored_search\<close>, \<open>month_loop\<close>, \<open>digest_loop\<close>, \<open>follow\<close>).  Counters of
  passkeys are 32-bit words, a usual interval wraps as \<open>int32\<close> does, and a handle tries its ten
  attempts as the code counts them.  Other Go integers are \<open>int\<close>: they hold days, counts of rows and
  durations far from the ends of 64 bits.

  \<^bold>\<open>Not modelled.\<close>  HTML templates, cookies' headers, logging and tracing, since they only render or
  report; the text fields and pictures of the plant form, the garden page, the chores API; the photo files; process set-up, migrations and the test database.  Transactions are modelled as all or nothing and as running alone, which is
  what the row locks the code takes are for: \<open>LockUser\<close> and \<open>LockUsers\<close> return nothing here.  A handler
  is one step; the interleaving of two handlers between their store calls is modelled only where a
  theorem says so (the attempts of \<open>single_use\<close>, the sends of \<open>ledger\<close>).
\<close>

end
